(* ===== verification/Prelude.thy ===== *)
theory Prelude
  imports Complex_Main "HOL-Library.AList" "HOL-Library.Multiset"
begin

text \<open>
  Generic vocabulary of the development: the results of fallible code, the option
  operators of TypeScript, stable sorting by a comparator, insertion-ordered maps and the
  collections of simplification rules the component theories fill.
\<close>

named_theorems res_simps \<open>rewrite rules of the result type\<close>
named_theorems map_simps \<open>rewrite rules of insertion-ordered maps\<close>

section \<open>Results: a thrown error or a value\<close>

text \<open>
  Every exception the modelled source throws itself, or receives from the standard library
  and lets through. The constructor names the \<^verbatim>\<open>throw\<close> statement.
\<close>

datatype js_error =
    URIError
  | IdNotAscii
  | IdTooLong nat
  | NotIsoTimestamp
  | NotCalendarDate
  | InvalidTimeValue
  | AmbiguousArchive
  | MultiplePortalRows
  | PairCountOutOfRange
  | PairsNotDistinct
  | PairPreStateChanged
  | DuplicateHasDependents
  | UniqueConstraint
  | ConsumerExists
  | SchemaTooNew
  | IdSchemeMismatch
  | EmptySlug
  | InvalidUrl
  | BoundsCombined
  | BackfillNeedsCompany
  | UsageError string
  | OtherError string

type_synonym 'a res = "js_error + 'a"

definition bindE :: "'a res \<Rightarrow> ('a \<Rightarrow> 'b res) \<Rightarrow> 'b res" where
  "bindE m f = (case m of Inl e \<Rightarrow> Inl e | Inr x \<Rightarrow> f x)"

lemma bindE_simps [simp, res_simps]:
  "bindE (Inl e) f = Inl e"
  "bindE (Inr x) f = f x"
  by (simp_all add: bindE_def)

lemma bindE_eq_Inr [simp]: "bindE m f = Inr y \<longleftrightarrow> (\<exists>x. m = Inr x \<and> f x = Inr y)"
  by (cases m) auto

lemma bindE_eq_Inl: "bindE m f = Inl e \<longleftrightarrow> m = Inl e \<or> (\<exists>x. m = Inr x \<and> f x = Inl e)"
  by (cases m) auto

fun mapE :: "('a \<Rightarrow> 'b res) \<Rightarrow> 'a list \<Rightarrow> 'b list res" where
  "mapE f [] = Inr []"
| "mapE f (x # xs) = bindE (f x) (\<lambda>y. bindE (mapE f xs) (\<lambda>ys. Inr (y # ys)))"

lemma mapE_Inr_iff: "mapE f xs = Inr ys \<longleftrightarrow> list_all2 (\<lambda>x y. f x = Inr y) xs ys"
proof (induction xs arbitrary: ys)
  case Nil
  then show ?case by auto
next
  case (Cons x xs)
  then show ?case by (cases ys) auto
qed

lemma mapE_length: "mapE f xs = Inr ys \<Longrightarrow> length ys = length xs"
  by (simp add: mapE_Inr_iff list_all2_lengthD)

lemma mapE_pure [simp]: "mapE (\<lambda>x. Inr (g x)) xs = Inr (map g xs)"
  by (induction xs) auto

text \<open>A left fold that stops at the first error, the shape of a loop whose body may throw.\<close>

fun foldE :: "('a \<Rightarrow> 's \<Rightarrow> 's res) \<Rightarrow> 'a list \<Rightarrow> 's \<Rightarrow> 's res" where
  "foldE f [] s = Inr s"
| "foldE f (x # xs) s = bindE (f x s) (foldE f xs)"

lemma foldE_invariant:
  assumes "foldE f xs s = Inr s'" and "P s"
    and "\<And>x s s'. x \<in> set xs \<Longrightarrow> P s \<Longrightarrow> f x s = Inr s' \<Longrightarrow> P s'"
  shows "P s'"
  using assms
proof (induction xs arbitrary: s)
  case Nil
  then show ?case by simp
next
  case (Cons x xs)
  from Cons.prems(1) obtain t where t: "f x s = Inr t" "foldE f xs t = Inr s'" by auto
  from Cons.prems(2,3) t(1) have "P t" by (metis list.set_intros(1))
  from Cons.IH [OF t(2) this] Cons.prems(3) show ?case by (meson list.set_intros(2))
qed

section \<open>Undefined values\<close>

text \<open>\<^verbatim>\<open>a ?? b\<close> with a defined right-hand side, and with one that may be undefined.\<close>

definition default :: "'a option \<Rightarrow> 'a \<Rightarrow> 'a" where
  "default a b = (case a of None \<Rightarrow> b | Some x \<Rightarrow> x)"

definition orelse :: "'a option \<Rightarrow> 'a option \<Rightarrow> 'a option" where
  "orelse a b = (case a of None \<Rightarrow> b | Some x \<Rightarrow> Some x)"

lemma default_simps [simp]: "default None b = b" "default (Some x) b = x"
  by (simp_all add: default_def)

lemma orelse_simps [simp]: "orelse None b = b" "orelse (Some x) b = Some x"
  by (simp_all add: orelse_def)

lemma orelse_None [simp]: "orelse a None = a"
  by (cases a) simp_all

section \<open>Stable sorting by a comparator\<close>

text \<open>
  \<^verbatim>\<open>Array.prototype.sort(compare)\<close> is a stable sort; only the sign of the comparator matters.
\<close>

fun insert_by :: "('a \<Rightarrow> 'a \<Rightarrow> int) \<Rightarrow> 'a \<Rightarrow> 'a list \<Rightarrow> 'a list" where
  "insert_by c x [] = [x]"
| "insert_by c x (y # ys) = (if c x y \<le> 0 then x # y # ys else y # insert_by c x ys)"

definition sort_by :: "('a \<Rightarrow> 'a \<Rightarrow> int) \<Rightarrow> 'a list \<Rightarrow> 'a list" where
  "sort_by c xs = foldr (insert_by c) xs []"

lemma sort_by_simps [simp]:
  "sort_by c [] = []"
  "sort_by c (x # xs) = insert_by c x (sort_by c xs)"
  by (simp_all add: sort_by_def)

lemma mset_insert_by [simp]: "mset (insert_by c x xs) = add_mset x (mset xs)"
  by (induction xs) auto

lemma mset_sort_by [simp]: "mset (sort_by c xs) = mset xs"
  by (induction xs) auto

lemma set_insert_by [simp]: "set (insert_by c x xs) = insert x (set xs)"
  by (metis mset_insert_by set_mset_mset set_mset_add_mset_insert)

lemma set_sort_by [simp]: "set (sort_by c xs) = set xs"
  by (metis mset_sort_by set_mset_mset)

lemma length_sort_by [simp]: "length (sort_by c xs) = length xs"
  by (metis mset_sort_by size_mset)

lemma distinct_sort_by [simp]: "distinct (sort_by c xs) = distinct xs"
  by (metis mset_sort_by distinct_count_atmost_1 set_sort_by)

lemma sum_list_sort_by: "sum_list (map f (sort_by c xs)) = (sum_list (map f xs) :: nat)"
  by (metis mset_map mset_sort_by sum_mset_sum_list)

text \<open>What a comparator must satisfy for its sort to be ordered.\<close>

definition comparator_on :: "'a set \<Rightarrow> ('a \<Rightarrow> 'a \<Rightarrow> int) \<Rightarrow> bool" where
  "comparator_on A c \<longleftrightarrow>
     (\<forall>x\<in>A. \<forall>y\<in>A. c x y \<le> 0 \<or> c y x \<le> 0) \<and>
     (\<forall>x\<in>A. \<forall>y\<in>A. \<forall>z\<in>A. c x y \<le> 0 \<longrightarrow> c y z \<le> 0 \<longrightarrow> c x z \<le> 0)"

lemma sorted_insert_by:
  assumes "comparator_on A c" "x \<in> A" "set xs \<subseteq> A" "sorted_wrt (\<lambda>a b. c a b \<le> 0) xs"
  shows "sorted_wrt (\<lambda>a b. c a b \<le> 0) (insert_by c x xs)"
  using assms(3,4)
proof (induction xs)
  case Nil
  then show ?case by simp
next
  case (Cons y ys)
  from Cons.prems have y: "y \<in> A" and ys: "set ys \<subseteq> A" by auto
  have tr: "\<And>u v w. u \<in> A \<Longrightarrow> v \<in> A \<Longrightarrow> w \<in> A \<Longrightarrow> c u v \<le> 0 \<Longrightarrow> c v w \<le> 0 \<Longrightarrow> c u w \<le> 0"
    and tot: "\<And>u v. u \<in> A \<Longrightarrow> v \<in> A \<Longrightarrow> c u v \<le> 0 \<or> c v u \<le> 0"
    using assms(1) unfolding comparator_on_def by blast+
  show ?case
  proof (cases "c x y \<le> 0")
    case True
    with Cons.prems ys show ?thesis by (auto intro: tr [OF assms(2) y])
  next
    case False
    with tot [OF assms(2) y] have "c y x \<le> 0" by blast
    with False Cons ys show ?thesis by auto
  qed
qed

lemma sorted_sort_by:
  "comparator_on A c \<Longrightarrow> set xs \<subseteq> A \<Longrightarrow> sorted_wrt (\<lambda>a b. c a b \<le> 0) (sort_by c xs)"
  by (induction xs) (auto intro!: sorted_insert_by)

lemma insert_by_cong:
  "(\<And>y. y \<in> set xs \<Longrightarrow> (c x y \<le> 0) = (d x y \<le> 0)) \<Longrightarrow> insert_by c x xs = insert_by d x xs"
  by (induction xs) auto

lemma sort_by_cong:
  "(\<And>x y. x \<in> set xs \<Longrightarrow> y \<in> set xs \<Longrightarrow> (c x y \<le> 0) = (d x y \<le> 0)) \<Longrightarrow> sort_by c xs = sort_by d xs"
  by (induction xs) (auto intro!: insert_by_cong)

lemma map_insert_by:
  "map f (insert_by (\<lambda>a b. c (f a) (f b)) x xs) = insert_by c (f x) (map f xs)"
  by (induction xs) auto

lemma map_sort_by: "map f (sort_by (\<lambda>a b. c (f a) (f b)) xs) = sort_by c (map f xs)"
  by (induction xs) (auto simp: map_insert_by)

text \<open>The comparison of a linear order as a comparator, and the lexicographic chain \<^verbatim>\<open>a || b\<close>.\<close>

definition cmp_of :: "'a::linorder \<Rightarrow> 'a \<Rightarrow> int" where
  "cmp_of x y = (if x < y then -1 else if x = y then 0 else 1)"

definition cmp_then :: "int \<Rightarrow> int \<Rightarrow> int" where
  "cmp_then a b = (if a = 0 then b else a)"

lemma cmp_of_le_0 [simp]: "cmp_of x y \<le> 0 \<longleftrightarrow> x \<le> y"
  by (auto simp: cmp_of_def)

lemma cmp_of_eq_0 [simp]: "cmp_of x y = 0 \<longleftrightarrow> x = y"
  by (auto simp: cmp_of_def)

lemma cmp_then_0 [simp]: "cmp_then 0 b = b"
  by (simp add: cmp_then_def)

text \<open>
  A consistent comparison, as \<^verbatim>\<open>localeCompare\<close> documents it: antisymmetric in sign and transitive.
\<close>

definition consistent_compare :: "('a \<Rightarrow> 'a \<Rightarrow> int) \<Rightarrow> bool" where
  "consistent_compare c \<longleftrightarrow>
     (\<forall>x y. c x y < 0 \<longleftrightarrow> 0 < c y x) \<and>
     (\<forall>x y z. c x y \<le> 0 \<longrightarrow> c y z \<le> 0 \<longrightarrow> c x z \<le> 0)"

lemma consistent_compareD:
  assumes "consistent_compare c"
  shows "c x y < 0 \<longleftrightarrow> 0 < c y x" "c x y \<le> 0 \<Longrightarrow> c y z \<le> 0 \<Longrightarrow> c x z \<le> 0"
    "c x y \<le> 0 \<or> c y x \<le> 0" "c x y = 0 \<longleftrightarrow> c y x = 0" "c x x = 0"
proof -
  note d = assms [unfolded consistent_compare_def]
  have s: "c x y < 0 \<longleftrightarrow> 0 < c y x" for x y by (rule d [THEN conjunct1, rule_format])
  show "c x y < 0 \<longleftrightarrow> 0 < c y x" by (rule s)
  show "c x y \<le> 0 \<Longrightarrow> c y z \<le> 0 \<Longrightarrow> c x z \<le> 0" by (rule d [THEN conjunct2, rule_format])
  from s [of x y] show "c x y \<le> 0 \<or> c y x \<le> 0" by arith
  from s [of x y] s [of y x] show "c x y = 0 \<longleftrightarrow> c y x = 0" by arith
  from s [of x x] show "c x x = 0" by arith
qed

lemma consistent_pull: "consistent_compare c \<Longrightarrow> consistent_compare (\<lambda>x y. c (f x) (f y))"
  unfolding consistent_compare_def by blast

lemma consistent_then:
  assumes c: "consistent_compare c" and d: "consistent_compare d"
  shows "consistent_compare (\<lambda>x y. cmp_then (c x y) (d x y))"
  unfolding consistent_compare_def
proof (intro conjI allI impI)
  fix x y
  show "cmp_then (c x y) (d x y) < 0 \<longleftrightarrow> 0 < cmp_then (c y x) (d y x)"
    using consistent_compareD(1,4) [OF c, of x y] consistent_compareD(1) [OF d, of x y]
    by (auto simp: cmp_then_def)
next
  fix x y z
  assume xy: "cmp_then (c x y) (d x y) \<le> 0" and yz: "cmp_then (c y z) (d y z) \<le> 0"
  then have le: "c x y \<le> 0" "c y z \<le> 0" by (auto simp: cmp_then_def split: if_splits)
  then have xz: "c x z \<le> 0" by (rule consistent_compareD(2) [OF c])
  show "cmp_then (c x z) (d x z) \<le> 0"
  proof (cases "c x z = 0")
    case True
    then have zx: "c z x \<le> 0" using consistent_compareD(4) [OF c, of x z] by linarith
    have "c y x \<le> 0" by (rule consistent_compareD(2) [OF c le(2) zx])
    moreover have "c z y \<le> 0" by (rule consistent_compareD(2) [OF c zx le(1)])
    ultimately have "c x y = 0" "c y z = 0"
      using le consistent_compareD(1) [OF c, of x y] consistent_compareD(1) [OF c, of y z] by linarith+
    with xy yz True consistent_compareD(2) [OF d, of x y z] show ?thesis by (simp add: cmp_then_def)
  next
    case False
    with xz show ?thesis by (simp add: cmp_then_def)
  qed
qed

lemma consistent_diff: "consistent_compare (\<lambda>(x::int) y. x - y)"
  by (auto simp: consistent_compare_def)

lemma consistent_comparator_on: "consistent_compare c \<Longrightarrow> comparator_on A c"
  unfolding comparator_on_def
  by (intro conjI ballI impI) (rule consistent_compareD(3), assumption, rule consistent_compareD(2))

lemma consistent_cmp_of: "consistent_compare (cmp_of :: 'a::linorder \<Rightarrow> 'a \<Rightarrow> int)"
  by (auto simp: consistent_compare_def) (auto simp: cmp_of_def split: if_splits)

section \<open>Insertion-ordered maps\<close>

text \<open>
  A JavaScript \<^verbatim>\<open>Map\<close> and the entries of an object keep insertion order; setting a present
  key keeps its place. This is the association list of the library with \<open>AList.update\<close>.
\<close>

lemmas alist_map_of_update [simp, map_simps] = update_conv'

lemma map_fst_update_in:
  "k \<in> fst ` set m \<Longrightarrow> map fst (AList.update k v m) = map fst m"
  by (simp add: update_keys)

lemma update_append_new:
  "k \<notin> fst ` set m \<Longrightarrow> AList.update k v m = m @ [(k, v)]"
  by (induction m) auto

lemma map_snd_update:
  "k \<in> fst ` set m \<Longrightarrow> distinct (map fst m) \<Longrightarrow>
   AList.update k v m = map (\<lambda>(a, b). if a = k then (a, v) else (a, b)) m"
proof (induction m)
  case Nil
  then show ?case by simp
next
  case (Cons p m)
  show ?case
  proof (cases "fst p = k")
    case True
    with Cons.prems(2) have "map (\<lambda>(a, b). if a = k then (a, v) else (a, b)) m = m"
      by (auto intro!: map_idI simp: image_iff)
    with True show ?thesis by (cases p) auto
  next
    case False
    with Cons show ?thesis by (cases p) auto
  qed
qed

lemma set_update_subset: "set (AList.update k v m) \<subseteq> insert (k, v) (set m)"
  by (induction m) auto

lemma find_Some_iff_in: "List.find P xs = Some x \<Longrightarrow> x \<in> set xs \<and> P x"
  by (auto simp: find_Some_iff)

end
