(* ===== verification/JsString.thy ===== *)
theory JsString
  imports Prelude "HOL-Library.Char_ord" "HOL-Library.List_Lexorder"
begin

text \<open>
  JavaScript strings as lists of UTF-16 code units, and the string operations of the
  standard library the source calls: trimming, slicing, splitting, decimal rendering, UTF-8,
  \<^verbatim>\<open>encodeURIComponent\<close> and \<^verbatim>\<open>decodeURIComponent\<close>. Comparison with \<open><\<close> is the lexicographic order
  of code units, as in JavaScript. A literal is written \<open>js ''text''\<close>.
\<close>

type_synonym jsstr = "nat list"

abbreviation js :: "string \<Rightarrow> jsstr" where
  "js s \<equiv> map of_char s"

text \<open>Code units are below $2^{16}$; the predicate is only needed where text is encoded.\<close>

definition wf_js :: "jsstr \<Rightarrow> bool" where
  "wf_js s \<longleftrightarrow> (\<forall>c\<in>set s. c < 65536)"

section \<open>Character classes\<close>

definition is_digit :: "nat \<Rightarrow> bool" where
  "is_digit c \<longleftrightarrow> 48 \<le> c \<and> c \<le> 57"

definition is_upper :: "nat \<Rightarrow> bool" where
  "is_upper c \<longleftrightarrow> 65 \<le> c \<and> c \<le> 90"

definition is_lower :: "nat \<Rightarrow> bool" where
  "is_lower c \<longleftrightarrow> 97 \<le> c \<and> c \<le> 122"

text \<open>\<^verbatim>\<open>\w\<close> without the unicode flag.\<close>

definition is_word :: "nat \<Rightarrow> bool" where
  "is_word c \<longleftrightarrow> is_digit c \<or> is_upper c \<or> is_lower c \<or> c = 95"

text \<open>White space and line terminators, as \<^verbatim>\<open>trim\<close> and \<^verbatim>\<open>\s\<close> see them.\<close>

definition is_space :: "nat \<Rightarrow> bool" where
  "is_space c \<longleftrightarrow> (9 \<le> c \<and> c \<le> 13) \<or> c = 32 \<or> c = 160 \<or> c = 5760 \<or> (8192 \<le> c \<and> c \<le> 8202)
     \<or> c = 8232 \<or> c = 8233 \<or> c = 8239 \<or> c = 8287 \<or> c = 12288 \<or> c = 65279"

definition printable :: "nat \<Rightarrow> bool" where
  "printable c \<longleftrightarrow> 32 \<le> c \<and> c \<le> 126"

lemmas char_class_defs = is_digit_def is_upper_def is_lower_def is_word_def is_space_def printable_def

section \<open>Trimming, slicing, searching\<close>

definition js_trim :: "jsstr \<Rightarrow> jsstr" where
  "js_trim s = rev (dropWhile is_space (rev (dropWhile is_space s)))"

lemma set_js_trim: "set (js_trim s) \<subseteq> set s"
proof -
  have "set (js_trim s) \<subseteq> set (dropWhile is_space s)"
    unfolding js_trim_def by (metis set_rev set_dropWhileD subsetI)
  then show ?thesis by (meson set_dropWhileD subset_iff)
qed

lemma length_js_trim: "length (js_trim s) \<le> length s"
  unfolding js_trim_def by (metis length_dropWhile_le length_rev order_trans)

lemma dropWhile_idem': "dropWhile P (dropWhile P xs) = dropWhile P xs"
  by (induction xs) auto

lemma hd_rev_dropWhile_rev:
  "dropWhile P xs = xs \<Longrightarrow> dropWhile P (rev (dropWhile P (rev xs))) = rev (dropWhile P (rev xs))"
proof -
  assume a: "dropWhile P xs = xs"
  obtain ys where ys: "xs = rev (dropWhile P (rev xs)) @ ys"
    by (metis rev_append rev_rev_ident takeWhile_dropWhile_id)
  show ?thesis
  proof (cases "rev (dropWhile P (rev xs))")
    case Nil
    then show ?thesis unfolding Nil by simp
  next
    case (Cons z zs)
    with ys have "xs = z # zs @ ys" by (metis append_Cons)
    with a have "\<not> P z" by (metis dropWhile_eq_self_iff list.discI list.sel(1))
    with Cons show ?thesis by simp
  qed
qed

lemma js_trim_idem [simp]: "js_trim (js_trim s) = js_trim s"
  unfolding js_trim_def
  by (subst hd_rev_dropWhile_rev) (simp_all add: dropWhile_idem')

lemma js_trim_same: "s \<noteq> [] \<Longrightarrow> \<not> is_space (hd s) \<Longrightarrow> \<not> is_space (last s) \<Longrightarrow> js_trim s = s"
proof -
  assume "s \<noteq> []" "\<not> is_space (hd s)" "\<not> is_space (last s)"
  then have "dropWhile is_space s = s" "dropWhile is_space (rev s) = rev s" by (simp_all add: dropWhile_eq_self_iff hd_rev)
  then show ?thesis by (simp add: js_trim_def)
qed

text \<open>\<^verbatim>\<open>value.slice(from)\<close> for a non-negative and for a negative start, \<^verbatim>\<open>value.slice(0, to)\<close> is \<open>take\<close>.\<close>

definition slice_last :: "nat \<Rightarrow> jsstr \<Rightarrow> jsstr" where
  "slice_last n s = drop (length s - n) s"

definition starts_with :: "jsstr \<Rightarrow> jsstr \<Rightarrow> bool" where
  "starts_with s p \<longleftrightarrow> take (length p) s = p"

fun index_of :: "nat \<Rightarrow> jsstr \<Rightarrow> nat option" where
  "index_of c [] = None"
| "index_of c (x # xs) = (if x = c then Some 0 else map_option Suc (index_of c xs))"

lemma index_of_append: "c \<notin> set xs \<Longrightarrow> index_of c (xs @ c # ys) = Some (length xs)"
  by (induction xs) auto

lemma index_of_None: "index_of c xs = None \<longleftrightarrow> c \<notin> set xs"
  by (induction xs) auto

lemma index_of_Some: "index_of c xs = Some i \<Longrightarrow> i < length xs \<and> xs ! i = c \<and> c \<notin> set (take i xs)"
  by (induction xs arbitrary: i) (auto split: if_splits)

text \<open>\<^verbatim>\<open>text.split(separator)\<close> for a one-unit separator; never empty.\<close>

fun split_on :: "nat \<Rightarrow> jsstr \<Rightarrow> jsstr list" where
  "split_on c [] = [[]]"
| "split_on c (x # xs) =
     (if x = c then [] # split_on c xs
      else case split_on c xs of [] \<Rightarrow> [[x]] | p # ps \<Rightarrow> (x # p) # ps)"

lemma split_on_nonempty [simp]: "split_on c xs \<noteq> []"
  by (induction xs) (auto split: list.splits)

lemma split_on_no_sep: "c \<notin> set xs \<Longrightarrow> split_on c xs = [xs]"
  by (induction xs) auto

lemma split_on_append: "c \<notin> set xs \<Longrightarrow> split_on c (xs @ c # ys) = xs # split_on c ys"
  by (induction xs) auto

lemma split_on_part_no_sep: "p \<in> set (split_on c xs) \<Longrightarrow> c \<notin> set p"
  by (induction xs arbitrary: p) (auto split: list.splits if_splits)

fun join_with :: "jsstr \<Rightarrow> jsstr list \<Rightarrow> jsstr" where
  "join_with sep [] = []"
| "join_with sep [x] = x"
| "join_with sep (x # y # zs) = x @ sep @ join_with sep (y # zs)"

section \<open>Case mapping\<close>

text \<open>
  \<^verbatim>\<open>toUpperCase\<close> and \<^verbatim>\<open>toLowerCase\<close>: the ASCII letters, and every other code unit whose image
  contains an ASCII letter. A code unit whose image has no ASCII letter is left as it is; the
  callers only test the result against ASCII patterns, which cannot tell the difference.
\<close>

definition upper_unit :: "nat \<Rightarrow> jsstr" where
  "upper_unit c =
     (if is_lower c then [c - 32]
      else if c = 223 then js ''SS''
      else if c = 305 then js ''I''
      else if c = 329 then 700 # js ''N''
      else if c = 383 then js ''S''
      else if c = 496 then js ''J'' @ [780]
      else if c = 7830 then js ''H'' @ [817]
      else if c = 7831 then js ''T'' @ [776]
      else if c = 7832 then js ''W'' @ [778]
      else if c = 7833 then js ''Y'' @ [778]
      else if c = 7834 then js ''A'' @ [702]
      else if c = 64256 then js ''FF''
      else if c = 64257 then js ''FI''
      else if c = 64258 then js ''FL''
      else if c = 64259 then js ''FFI''
      else if c = 64260 then js ''FFL''
      else if c = 64261 then js ''ST''
      else if c = 64262 then js ''ST''
      else [c])"

definition lower_unit :: "nat \<Rightarrow> jsstr" where
  "lower_unit c =
     (if is_upper c then [c + 32]
      else if c = 304 then js ''i'' @ [775]
      else if c = 8490 then js ''k''
      else [c])"

definition to_upper :: "jsstr \<Rightarrow> jsstr" where
  "to_upper s = concat (map upper_unit s)"

definition to_lower :: "jsstr \<Rightarrow> jsstr" where
  "to_lower s = concat (map lower_unit s)"

section \<open>Decimal rendering\<close>

text \<open>Digits are computed on \<open>int\<close>, whose numerals are binary in the evaluator.\<close>

function pos_str :: "int \<Rightarrow> jsstr" where
  "pos_str i = (if i < 10 then [48 + nat i] else pos_str (i div 10) @ [48 + nat (i mod 10)])"
  by pat_completeness auto
termination
  by (relation "measure nat") auto

declare pos_str.simps [simp del]

definition nat_str :: "nat \<Rightarrow> jsstr" where
  "nat_str n = pos_str (int n)"

lemma nat_str_rec: "nat_str n = (if n < 10 then [48 + n] else nat_str (n div 10) @ [48 + n mod 10])"
  unfolding nat_str_def by (subst pos_str.simps) (simp add: nat_mod_distrib zdiv_int)

lemma nat_str_induct [case_names step]:
  fixes n :: nat
  assumes step: "\<And>n. (\<not> n < 10 \<Longrightarrow> P (n div 10)) \<Longrightarrow> P n"
  shows "P n"
proof (induction n rule: less_induct)
  case (less n)
  show ?case by (rule step, rule less) simp
qed

definition int_str :: "int \<Rightarrow> jsstr" where
  "int_str i = (if i < 0 then 45 # pos_str (- i) else pos_str i)"

definition digits_int :: "jsstr \<Rightarrow> int" where
  "digits_int s = foldl (\<lambda>a c. 10 * a + (int c - 48)) 0 s"

definition digits_val :: "jsstr \<Rightarrow> nat" where
  "digits_val s = foldl (\<lambda>a c. 10 * a + (c - 48)) 0 s"

definition pad_start :: "nat \<Rightarrow> nat \<Rightarrow> jsstr \<Rightarrow> jsstr" where
  "pad_start n c s = replicate (n - length s) c @ s"

lemma digits_val_snoc [simp]: "digits_val (s @ [c]) = 10 * digits_val s + (c - 48)"
  by (simp add: digits_val_def)

lemma digits_val_Nil [simp]: "digits_val [] = 0"
  by (simp add: digits_val_def)

lemma digits_int_eq: "list_all is_digit s \<Longrightarrow> digits_int s = int (digits_val s)"
proof -
  have "list_all is_digit s \<Longrightarrow> foldl (\<lambda>a c. 10 * a + (int c - 48)) (int a) s = int (foldl (\<lambda>a c. 10 * a + (c - 48)) a s)" for a
  proof (induction s arbitrary: a)
    case (Cons c s)
    from Cons.prems have "10 * int a + (int c - 48) = int (10 * a + (c - 48))"
      by (simp add: is_digit_def)
    with Cons.IH [of "10 * a + (c - 48)"] Cons.prems show ?case
      by (simp only: foldl_Cons list.pred_inject)
  qed simp
  from this [of 0] show "list_all is_digit s \<Longrightarrow> digits_int s = int (digits_val s)"
    by (simp add: digits_int_def digits_val_def)
qed

lemma int_str_nat: "0 \<le> i \<Longrightarrow> int_str i = nat_str (nat i)"
  by (simp add: int_str_def nat_str_def)

lemma nat_str_digits: "c \<in> set (nat_str n) \<Longrightarrow> is_digit c"
proof (induction n rule: nat_str_induct)
  case (step n)
  then show ?case
    by (subst (asm) nat_str_rec) (auto simp: is_digit_def split: if_splits)
qed

lemma nat_str_all_digits: "list_all is_digit (nat_str n)"
  by (auto simp: list_all_iff dest: nat_str_digits)

lemma nat_str_not_Nil [simp]: "nat_str n \<noteq> []"
  by (subst nat_str_rec) auto

lemma digits_val_nat_str [simp]: "digits_val (nat_str n) = n"
proof (induction n rule: nat_str_induct)
  case (step n)
  show ?case
  proof (cases "n < 10")
    case True
    then show ?thesis by (subst nat_str_rec) (simp add: digits_val_def)
  next
    case False
    with step show ?thesis by (subst nat_str_rec) simp
  qed
qed

lemma nat_str_inject [simp]: "nat_str m = nat_str n \<longleftrightarrow> m = n"
  by (metis digits_val_nat_str)

lemma length_nat_str: "n < 10 ^ k \<Longrightarrow> 0 < k \<Longrightarrow> length (nat_str n) \<le> k"
proof (induction k arbitrary: n)
  case 0
  then show ?case by simp
next
  case (Suc k)
  show ?case
  proof (cases "n < 10")
    case True
    then show ?thesis by (subst nat_str_rec) simp
  next
    case False
    with Suc.prems have k: "0 < k" by (cases k) auto
    have "n div 10 < 10 ^ k" using Suc.prems(1) by (simp add: less_mult_imp_div_less mult.commute)
    with Suc.IH k False show ?thesis by (subst nat_str_rec) simp
  qed
qed

lemma digits_val_replicate_0: "digits_val (replicate k 48 @ s) = digits_val s"
proof (induction s rule: rev_induct)
  case Nil
  have "digits_val (replicate k 48) = 0"
  proof (induction k)
    case (Suc k)
    then show ?case by (metis replicate_Suc replicate_append_same digits_val_snoc add_0 diff_self_eq_0
          mult_0_right)
  qed simp
  then show ?case by simp
next
  case (snoc x xs)
  then show ?case by (simp flip: append_assoc)
qed

lemma digits_val_pad [simp]: "digits_val (pad_start k 48 s) = digits_val s"
  by (simp add: pad_start_def digits_val_replicate_0)

lemma length_pad_start: "length s \<le> n \<Longrightarrow> length (pad_start n c s) = n"
  by (simp add: pad_start_def)

lemma set_pad_start: "set (pad_start n c s) \<subseteq> insert c (set s)"
  by (auto simp: pad_start_def)

lemma pad_digits: "c \<in> set (pad_start n 48 (nat_str k)) \<Longrightarrow> is_digit c"
  using set_pad_start nat_str_digits by (fastforce simp: is_digit_def)

end
