(* ===== verification/JsNumber.thy ===== *)
theory JsNumber
  imports JsString "HOL-Library.Log_Nat"
begin

text \<open>
  JavaScript numbers. A finite double is the rational number it denotes; every arithmetic
  operation of the source is the exact operation followed by \<open>fl\<close>, rounding to the nearest
  double (53-bit significand, ties to even, gradual underflow). Overflow to an infinity is
  only modelled where text is parsed (\<open>to_double\<close>); the amounts of the bridge are far below it.
  Negative zero is identified with zero: no operation of the source tells them apart.
\<close>

section \<open>Rounding to a double\<close>

definition round_even :: "rat \<Rightarrow> int" where
  "round_even r =
     (let f = \<lfloor>r\<rfloor>; d = r - of_int f in
      if d < 1 / 2 then f else if 1 / 2 < d then f + 1 else if even f then f else f + 1)"

text \<open>\<open>ilog2 x\<close> is the exponent \<open>k\<close> with $2^k \le x < 2^{k+1}$, for a positive \<open>x\<close>.\<close>

definition ilog2 :: "rat \<Rightarrow> int" where
  "ilog2 x = (let (p, q) = quotient_of x; k = bitlen p - bitlen q in
     if 2 powi k \<le> x then k else k - 1)"

definition fl :: "rat \<Rightarrow> rat" where
  "fl x = (if x = 0 then 0
     else let e = max (ilog2 \<bar>x\<bar> - 52) (- 1074)
          in of_int (round_even (x / 2 powi e)) * 2 powi e)"

lemma round_even_error: "\<bar>of_int (round_even r) - r\<bar> \<le> 1 / 2"
proof -
  have "0 \<le> r - of_int \<lfloor>r\<rfloor>" "r - of_int \<lfloor>r\<rfloor> < 1" by linarith+
  then show ?thesis by (auto simp: round_even_def Let_def abs_le_iff)
qed

lemma round_even_int [simp]: "round_even (of_int i) = i"
  by (simp add: round_even_def)

lemma round_even_eqI: "\<bar>of_int i - r\<bar> < 1 / 2 \<Longrightarrow> round_even r = i"
proof -
  assume a: "\<bar>of_int i - r\<bar> < 1 / 2"
  have "\<bar>of_int (round_even r) - of_int i\<bar> < (1 :: rat)"
    using a round_even_error [of r] by linarith
  then show ?thesis by linarith
qed

lemma ilog2_bounds:
  assumes "0 < x"
  shows "2 powi ilog2 x \<le> x" and "x < 2 powi (ilog2 x + 1)"
proof -
  obtain p q where pq: "quotient_of x = (p, q)" by (cases "quotient_of x")
  have q: "0 < q" using quotient_of_denom_pos [OF pq] .
  have x: "x = of_int p / of_int q" using quotient_of_div [OF pq] .
  have p: "0 < p" using assms q x by (simp add: zero_less_divide_iff)
  have bits: "2 powi (bitlen n - 1) \<le> (of_int n :: rat)" "(of_int n :: rat) < 2 powi bitlen n" if n: "0 < n" for n
  proof -
    have b: "2 ^ nat (bitlen n - 1) \<le> n" "n < 2 ^ nat (bitlen n)"
      using bitlen_bounds [OF n] by auto
    have pos: "0 < bitlen n" using n bitlen_eq_zero_iff [of n] bitlen_nonneg [of n] by linarith
    have "(of_int (2 ^ nat (bitlen n - 1)) :: rat) \<le> of_int n" using b(1) by (simp only: of_int_le_iff)
    then show "2 powi (bitlen n - 1) \<le> (of_int n :: rat)"
      using pos by (simp add: power_int_def)
    have "(of_int n :: rat) < of_int (2 ^ nat (bitlen n))" using b(2) by (simp only: of_int_less_iff)
    then show "(of_int n :: rat) < 2 powi bitlen n"
      using pos by (simp add: power_int_def)
  qed
  let ?k = "bitlen p - bitlen q"
  have qpos: "(0::rat) < of_int q" using q by simp
  have up: "x < 2 powi (?k + 1)"
  proof -
    have "of_int p < (2 powi bitlen p :: rat)" by (rule bits(2) [OF p])
    also have "\<dots> = 2 powi (?k + 1) * 2 powi (bitlen q - 1)"
      by (simp flip: power_int_add)
    also have "\<dots> \<le> 2 powi (?k + 1) * of_int q"
      by (rule mult_left_mono [OF bits(1) [OF q]]) simp
    finally show ?thesis using qpos by (simp add: x pos_divide_less_eq)
  qed
  have low: "2 powi (?k - 1) \<le> x"
  proof -
    have "2 powi (?k - 1) * of_int q \<le> 2 powi (?k - 1) * (2 powi bitlen q :: rat)"
      by (rule mult_left_mono) (use bits(2) [OF q] in auto)
    also have "\<dots> = 2 powi (bitlen p - 1)" by (simp flip: power_int_add)
    also have "\<dots> \<le> of_int p" by (rule bits(1) [OF p])
    finally show ?thesis using qpos by (simp add: x pos_le_divide_eq)
  qed
  show "2 powi ilog2 x \<le> x" and "x < 2 powi (ilog2 x + 1)"
    using up low by (auto simp: ilog2_def pq Let_def)
qed

lemma fl_0 [simp]: "fl 0 = 0"
  by (simp add: fl_def)

text \<open>The error of one rounding is at most half a unit in the last place.\<close>

lemma fl_error:
  assumes "2 powi (- 1022) \<le> \<bar>x\<bar>"
  shows "\<bar>fl x - x\<bar> \<le> \<bar>x\<bar> / 2 ^ 53"
proof -
  have x: "0 < \<bar>x\<bar>" using assms by (metis zero_less_power_int less_le_trans zero_less_numeral)
  let ?k = "ilog2 \<bar>x\<bar>"
  have "2 powi (- 1022) < (2 :: rat) powi (?k + 1)"
    using assms ilog2_bounds(2) [OF x] by linarith
  then have "- 1022 < ?k + 1"
    using power_int_increasing [of "?k + 1" "- 1022" "2 :: rat"] by force
  then have k: "- 1022 \<le> ?k" by simp
  define u :: rat where "u = 2 powi (?k - 52)"
  have u: "0 < u" by (simp add: u_def)
  have "fl x - x = (of_int (round_even (x / u)) - x / u) * u"
    using x k u by (simp add: fl_def max_absorb1 u_def left_diff_distrib Let_def)
  then have "\<bar>fl x - x\<bar> = \<bar>of_int (round_even (x / u)) - x / u\<bar> * u"
    using u by (simp add: abs_mult)
  also have "\<dots> \<le> 1 / 2 * u"
    by (rule mult_right_mono [OF round_even_error]) (use u in simp)
  also have "\<dots> = 2 powi ?k / 2 ^ 53"
    by (simp add: u_def power_int_diff)
  also have "\<dots> \<le> \<bar>x\<bar> / 2 ^ 53"
    using ilog2_bounds(1) [OF x] by (simp add: divide_right_mono)
  finally show ?thesis .
qed

text \<open>Two-decimal amounts are separated by rounding: only the nearest cent is within half a cent.\<close>

lemma fl_cents_error:
  assumes "\<bar>c\<bar> < 2 ^ 52"
  shows "\<bar>fl (of_int c / 100) - of_int c / 100\<bar> < 1 / 200"
proof (cases "c = 0")
  case True
  then show ?thesis by simp
next
  case False
  let ?x = "of_int c / 100 :: rat"
  have "(1 :: rat) \<le> of_int \<bar>c\<bar>" using False by linarith
  then have big: "1 / 100 \<le> \<bar>?x\<bar>" by (simp add: abs_divide)
  have "(2 :: rat) powi (- 1022) \<le> 2 powi (- 7)" by (rule power_int_increasing) auto
  also have "\<dots> \<le> 1 / 100" by (simp add: power_int_def field_simps)
  finally have "\<bar>fl ?x - ?x\<bar> \<le> \<bar>?x\<bar> / 2 ^ 53" by (intro fl_error) (use big in linarith)
  moreover have "\<bar>?x\<bar> / 2 ^ 53 < 1 / 200"
  proof -
    have "(of_int \<bar>c\<bar> :: rat) < of_int (2 ^ 52)" using assms by (simp only: of_int_less_iff)
    then show ?thesis by (simp add: abs_divide field_simps)
  qed
  ultimately show ?thesis by linarith
qed

section \<open>Arithmetic of the source\<close>

definition nadd :: "rat \<Rightarrow> rat \<Rightarrow> rat" where
  "nadd a b = fl (a + b)"

definition nmul :: "rat \<Rightarrow> rat \<Rightarrow> rat" where
  "nmul a b = fl (a * b)"

definition ndiv :: "rat \<Rightarrow> rat \<Rightarrow> rat" where
  "ndiv a b = fl (a / b)"

text \<open>\<^verbatim>\<open>Math.round\<close>: the nearest integer, ties upwards.\<close>

definition math_round :: "rat \<Rightarrow> int" where
  "math_round x = \<lfloor>x + 1 / 2\<rfloor>"

section \<open>Number to string\<close>

text \<open>
  \<^verbatim>\<open>Number::toString\<close>: the fewest decimal digits that read back as the same double. For a
  positive \<open>x\<close>, \<open>dec_exp x\<close> is the \<open>n\<close> with $10^{n-1} \le x < 10^n$; \<open>shortest\<close> tries 1, 2, ...
  digits and gives the digits \<open>s\<close>, their number \<open>k\<close> and the exponent \<open>n\<close>. Seventeen digits
  always suffice for a double, which is the bound of the search.
\<close>

definition dec_exp :: "rat \<Rightarrow> int" where
  "dec_exp x = (let (p, q) = quotient_of x;
       n = int (length (pos_str p)) - int (length (pos_str q))
     in if x < 10 powi n then n else n + 1)"

fun shortest :: "nat \<Rightarrow> int \<Rightarrow> rat \<Rightarrow> int \<times> int \<times> int" where
  "shortest fuel k x =
     (let n = dec_exp x; s = math_round (x * 10 powi (k - n)) in
      case fuel of
        0 \<Rightarrow> (s, k, n)
      | Suc fuel' \<Rightarrow>
          if fl (of_int s * 10 powi (n - k)) = x
          then (if s = 10 ^ nat k then (1, 1, n + 1) else (s, k, n))
          else shortest fuel' (k + 1) x)"

declare shortest.simps [simp del]

definition pos_to_string :: "rat \<Rightarrow> jsstr" where
  "pos_to_string x =
     (let (s, k, n) = shortest 16 1 x; ds = pos_str s in
      if k \<le> n \<and> n \<le> 21 then ds @ replicate (nat (n - k)) 48
      else if 0 < n \<and> n \<le> 21 then take (nat n) ds @ [46] @ drop (nat n) ds
      else if - 6 < n \<and> n \<le> 0 then js ''0.'' @ replicate (nat (- n)) 48 @ ds
      else (let e = n - 1; es = (if e < 0 then 45 # pos_str (- e) else 43 # pos_str e) in
            if k = 1 then ds @ js ''e'' @ es
            else take 1 ds @ [46] @ drop 1 ds @ js ''e'' @ es))"

definition num_to_string :: "rat \<Rightarrow> jsstr" where
  "num_to_string x = (if x = 0 then js ''0'' else if x < 0 then 45 # pos_to_string (- x) else pos_to_string x)"

text \<open>\<^verbatim>\<open>value.toFixed(2)\<close>: the integer nearest to $100 x$ (the larger on a tie), with a point before its last two digits.\<close>

definition two_decimals :: "int \<Rightarrow> jsstr" where
  "two_decimals n = (let m = pad_start 3 48 (pos_str n) in take (length m - 2) m @ [46] @ drop (length m - 2) m)"

definition to_fixed2 :: "rat \<Rightarrow> jsstr" where
  "to_fixed2 x =
     (let a = \<bar>x\<bar>; body = (if 10 ^ 21 \<le> a then num_to_string a else two_decimals \<lfloor>a * 100 + 1 / 2\<rfloor>)
      in if x < 0 then 45 # body else body)"

section \<open>String to number\<close>

text \<open>
  \<^verbatim>\<open>Number(text)\<close>; \<open>None\<close> stands for \<^verbatim>\<open>NaN\<close> and for the infinities, which every caller in the
  source treats alike (it tests \<^verbatim>\<open>Number.isFinite\<close>, or compares with a finite number).
\<close>

definition to_double :: "rat \<Rightarrow> rat option" where
  "to_double v = (let r = fl v in if r \<noteq> 0 \<and> 1024 \<le> ilog2 \<bar>r\<bar> then None else Some r)"

definition span_digits :: "jsstr \<Rightarrow> jsstr \<times> jsstr" where
  "span_digits s = (takeWhile is_digit s, dropWhile is_digit s)"

fun parse_exp :: "jsstr \<Rightarrow> int option" where
  "parse_exp [] = Some 0"
| "parse_exp (c # s) =
     (if c = 101 \<or> c = 69 then
        (let (neg, ds) = (case s of [] \<Rightarrow> (False, []) | d # t \<Rightarrow>
             if d = 43 then (False, t) else if d = 45 then (True, t) else (False, s))
         in if ds \<noteq> [] \<and> list_all is_digit ds
            then Some (if neg then - digits_int ds else digits_int ds) else None)
      else None)"

definition parse_unsigned :: "jsstr \<Rightarrow> rat option" where
  "parse_unsigned s =
     (let (ip, r) = span_digits s;
          (fp, r') = (case r of [] \<Rightarrow> ([], []) | c # t \<Rightarrow> if c = 46 then span_digits t else ([], r))
      in if ip = [] \<and> fp = [] then None
         else (case parse_exp r' of None \<Rightarrow> None
               | Some e \<Rightarrow> Some (of_int (digits_int (ip @ fp)) * 10 powi (e - int (length fp)))))"

definition digit_in :: "nat \<Rightarrow> nat \<Rightarrow> nat option" where
  "digit_in base c =
     (let d = (if is_digit c then Some (c - 48) else if is_lower c then Some (c - 87)
               else if is_upper c then Some (c - 55) else None)
      in case d of Some v \<Rightarrow> if v < base then Some v else None | None \<Rightarrow> None)"

fun parse_base :: "nat \<Rightarrow> int \<Rightarrow> jsstr \<Rightarrow> int option" where
  "parse_base base acc [] = Some acc"
| "parse_base base acc (c # s) =
     (case digit_in base c of None \<Rightarrow> None | Some d \<Rightarrow> parse_base base (int base * acc + int d) s)"

definition prefix_base :: "nat \<Rightarrow> nat option" where
  "prefix_base c = (if c = 120 \<or> c = 88 then Some 16 else if c = 111 \<or> c = 79 then Some 8
     else if c = 98 \<or> c = 66 then Some 2 else None)"

fun js_number_trimmed :: "jsstr \<Rightarrow> rat option" where
  "js_number_trimmed [] = Some 0"
| "js_number_trimmed (c # s) =
     (if c = 43 then (case parse_unsigned s of None \<Rightarrow> None | Some v \<Rightarrow> to_double v)
      else if c = 45 then (case parse_unsigned s of None \<Rightarrow> None | Some v \<Rightarrow> to_double (- v))
      else if c = 48 \<and> s \<noteq> [] \<and> prefix_base (hd s) \<noteq> None then
        (if tl s = [] then None
         else case parse_base (the (prefix_base (hd s))) 0 (tl s) of None \<Rightarrow> None | Some n \<Rightarrow> to_double (of_int n))
      else (case parse_unsigned (c # s) of None \<Rightarrow> None | Some v \<Rightarrow> to_double v))"

definition js_number :: "jsstr \<Rightarrow> rat option" where
  "js_number s = js_number_trimmed (js_trim s)"

end
