(* ===== verification/IsoTime.thy ===== *)
theory IsoTime
  imports JsString JsNumber
begin

text \<open>
  The part of \<^verbatim>\<open>Date\<close> the source uses: the proleptic Gregorian calendar of the language
  specification (\<^verbatim>\<open>DayFromYear\<close>, \<^verbatim>\<open>MakeDay\<close> and their inverses), \<^verbatim>\<open>toISOString\<close> and
  \<^verbatim>\<open>Date.parse\<close>. Times are integers, milliseconds since the epoch; days are days since the
  epoch. The lemmas relate the three orders the bridge relies on: of day numbers, of
  calendar triples, and of \<^verbatim>\<open>YYYY-MM-DD\<close> strings.
\<close>

named_theorems cal_simps \<open>calendar arithmetic\<close>

section \<open>Years, months and days\<close>

definition day_from_year :: "int \<Rightarrow> int" where
  "day_from_year y = 365 * (y - 1970) + (y - 1969) div 4 - (y - 1901) div 100 + (y - 1601) div 400"

definition leap :: "int \<Rightarrow> bool" where
  "leap y \<longleftrightarrow> y mod 4 = 0 \<and> (y mod 100 \<noteq> 0 \<or> y mod 400 = 0)"

text \<open>Day of the year on which a month (counted from 0) starts.\<close>

definition month_start :: "bool \<Rightarrow> int \<Rightarrow> int" where
  "month_start l m =
     (let f = (if l then 1 else 0) in
      if m \<le> 0 then 0 else if m = 1 then 31 else if m = 2 then 59 + f else if m = 3 then 90 + f
      else if m = 4 then 120 + f else if m = 5 then 151 + f else if m = 6 then 181 + f
      else if m = 7 then 212 + f else if m = 8 then 243 + f else if m = 9 then 273 + f
      else if m = 10 then 304 + f else if m = 11 then 334 + f else 365 + f)"

definition make_day :: "int \<Rightarrow> int \<Rightarrow> int \<Rightarrow> int" where
  "make_day y m d = (let ym = y + m div 12; mn = m mod 12
     in day_from_year ym + month_start (leap ym) mn + d - 1)"

definition year_from_day :: "int \<Rightarrow> int" where
  "year_from_day d = (let y = d * 400 div 146097 + 1970 in
     if d < day_from_year y then y - 1 else if day_from_year (y + 1) \<le> d then y + 1 else y)"

definition month_from_doy :: "bool \<Rightarrow> int \<Rightarrow> int" where
  "month_from_doy l n =
     (let f = (if l then 1 else 0) in
      if n < 31 then 0 else if n < 59 + f then 1 else if n < 90 + f then 2 else if n < 120 + f then 3
      else if n < 151 + f then 4 else if n < 181 + f then 5 else if n < 212 + f then 6
      else if n < 243 + f then 7 else if n < 273 + f then 8 else if n < 304 + f then 9
      else if n < 334 + f then 10 else 11)"

text \<open>Year, month (from 1) and day of the month (from 1) of a day number.\<close>

definition civil :: "int \<Rightarrow> int \<times> int \<times> int" where
  "civil d = (let y = year_from_day d; n = d - day_from_year y; m = month_from_doy (leap y) n
     in (y, m + 1, n - month_start (leap y) m + 1))"

definition valid_date :: "int \<Rightarrow> int \<Rightarrow> int \<Rightarrow> bool" where
  "valid_date y m d \<longleftrightarrow> 1 \<le> m \<and> m \<le> 12 \<and> 1 \<le> d \<and>
     d \<le> month_start (leap y) m - month_start (leap y) (m - 1)"

lemma div_bounds:
  fixes a n :: int
  assumes "0 < n"
  shows "n * (a div n) \<le> a" "a \<le> n * (a div n) + (n - 1)"
  using mult_div_mod_eq [of n a] pos_mod_bound [OF assms, of a] pos_mod_sign [OF assms, of a] by linarith+

lemma div_succ:
  fixes a n :: int
  assumes "0 < n"
  shows "(a + 1) div n = a div n + (if n dvd a + 1 then 1 else 0)"
proof (cases "a mod n + 1 = n")
  case True
  have "a + 1 = n * (a div n) + n" using True mult_div_mod_eq [of n a] by linarith
  then have e: "a + 1 = n * (a div n + 1)" by (simp add: distrib_left)
  then show ?thesis using assms by (simp add: e)
next
  case False
  with pos_mod_bound [OF assms, of a] pos_mod_sign [OF assms, of a]
  have r: "0 < a mod n + 1" "a mod n + 1 < n" by linarith+
  have e: "a + 1 = n * (a div n) + (a mod n + 1)" using mult_div_mod_eq [of n a] by simp
  have "(a + 1) div n = a div n" by (rule int_div_pos_eq [OF e]) (use r in auto)
  moreover have "\<not> n dvd a + 1"
    using r e zdvd_not_zless [of "a mod n + 1" n] by (metis dvd_add_right_iff dvd_triv_left)
  ultimately show ?thesis by simp
qed

lemma leap_dvd: "leap y \<longleftrightarrow> 4 dvd y \<and> (\<not> 100 dvd y \<or> 400 dvd y)"
  by (auto simp: leap_def dvd_eq_mod_eq_0)

lemma day_from_year_Suc: "day_from_year (y + 1) = day_from_year y + (if leap y then 366 else 365)"
proof -
  have d: "4 dvd y - 1968 \<longleftrightarrow> 4 dvd y" "100 dvd y - 1900 \<longleftrightarrow> 100 dvd y" "400 dvd y - 1600 \<longleftrightarrow> 400 dvd y"
    by (simp_all add: dvd_diff_left_iff)
  have a: "(y - 1968) div 4 = (y - 1969) div 4 + (if 4 dvd y then 1 else 0)"
    using div_succ [of 4 "y - 1969"] by (simp add: d)
  have b: "(y - 1900) div 100 = (y - 1901) div 100 + (if 100 dvd y then 1 else 0)"
    using div_succ [of 100 "y - 1901"] by (simp add: d)
  have c: "(y - 1600) div 400 = (y - 1601) div 400 + (if 400 dvd y then 1 else 0)"
    using div_succ [of 400 "y - 1601"] by (simp add: d)
  have e: "day_from_year (y + 1) = 365 * (y - 1969) + (y - 1968) div 4 - (y - 1900) div 100 + (y - 1600) div 400"
    by (simp add: day_from_year_def)
  have i: "400 dvd y \<Longrightarrow> 100 dvd y" "100 dvd y \<Longrightarrow> 4 dvd y"
    by (auto intro: dvd_trans [of 100 400] dvd_trans [of 4 100])
  have gen: "365 * (y - 1969) + (A + p) - (B + q) + (C + r) - (365 * (y - 1970) + A - B + C) = 365 + p - q + r"
    for A B C p q r by simp
  have "day_from_year (y + 1) - day_from_year y = 365 + (if 4 dvd y then 1 else 0) - (if 100 dvd y then 1 else 0)
      + (if 400 dvd y then 1 else 0)"
    unfolding e a b c day_from_year_def [of y] by (rule gen)
  moreover have "\<dots> = (if leap y then 366 else 365)"
  proof -
    consider "4 dvd y" "100 dvd y" "400 dvd y" | "4 dvd y" "100 dvd y" "\<not> 400 dvd y"
      | "4 dvd y" "\<not> 100 dvd y" "\<not> 400 dvd y" | "\<not> 4 dvd y" "\<not> 100 dvd y" "\<not> 400 dvd y"
      using i by blast
    then show ?thesis
      by cases (simp_all only: leap_dvd if_True if_False simp_thms)
  qed
  ultimately show ?thesis by linarith
qed

lemma day_from_year_mono: "y \<le> z \<Longrightarrow> day_from_year y \<le> day_from_year z"
proof (induction rule: int_ge_induct)
  case base
  then show ?case by simp
next
  case (step i)
  then show ?case by (auto simp: day_from_year_Suc)
qed

lemma day_from_year_less: "y < z \<Longrightarrow> day_from_year y + (if leap y then 366 else 365) \<le> day_from_year z"
  using day_from_year_mono [of "y + 1" z] by (simp add: day_from_year_Suc)

lemma day_from_year_bounds:
  "146097 * (y - 1970) - 506 \<le> 400 * day_from_year y"
  "400 * day_from_year y \<le> 146097 * (y - 1970) + 589"
  using div_bounds [of 4 "y - 1969"] div_bounds [of 100 "y - 1901"] div_bounds [of 400 "y - 1601"]
  unfolding day_from_year_def by simp_all

lemma year_from_day_bounds:
  "day_from_year (year_from_day d) \<le> d" "d < day_from_year (year_from_day d + 1)"
proof -
  define y where "y = d * 400 div 146097 + 1970"
  have "146097 * (y - 1970) \<le> d * 400" "d * 400 < 146097 * (y - 1970) + 146097"
    using div_bounds [of 146097 "d * 400"] unfolding y_def by simp_all
  then have "400 * day_from_year (y - 1) < 400 * (d + 1)" "400 * d < 400 * day_from_year (y + 2)"
    using day_from_year_bounds(2) [of "y - 1"] day_from_year_bounds(1) [of "y + 2"]
    by (simp_all add: algebra_simps)
  then have "day_from_year (y - 1) \<le> d" "d < day_from_year (y + 2)" by simp_all
  moreover have "year_from_day d = (if d < day_from_year y then y - 1 else if day_from_year (y + 1) \<le> d then y + 1 else y)"
    by (simp only: year_from_day_def Let_def y_def)
  ultimately show "day_from_year (year_from_day d) \<le> d" "d < day_from_year (year_from_day d + 1)"
    by (auto simp: add.commute)
qed

lemma year_from_day_unique:
  assumes "day_from_year y \<le> d" "d < day_from_year (y + 1)"
  shows "year_from_day d = y"
proof (rule ccontr)
  assume "year_from_day d \<noteq> y"
  then consider "year_from_day d + 1 \<le> y" | "y + 1 \<le> year_from_day d" by linarith
  then show False
  proof cases
    case 1
    from day_from_year_mono [OF 1] year_from_day_bounds(2) [of d] assms(1) show False by linarith
  next
    case 2
    from day_from_year_mono [OF 2] year_from_day_bounds(1) [of d] assms(2) show False by linarith
  qed
qed

text \<open>Within a year, months and days of the year correspond.\<close>

lemma month_from_doy_bounds:
  assumes "0 \<le> n" "n < (if l then 366 else 365)"
  defines "m \<equiv> month_from_doy l n"
  shows "0 \<le> m" "m \<le> 11" "month_start l m \<le> n" "n < month_start l (m + 1)"
  using assms by (auto simp: month_from_doy_def month_start_def Let_def split: if_splits)

lemma month_start_mono: "a \<le> b \<Longrightarrow> month_start l a \<le> month_start l b"
  by (auto simp: month_start_def Let_def) presburger+

lemma month_from_doy_unique:
  assumes "0 \<le> m" "m \<le> 11" "month_start l m \<le> n" "n < month_start l (m + 1)"
  shows "month_from_doy l n = m"
proof -
  have "m = 0 \<or> m = 1 \<or> m = 2 \<or> m = 3 \<or> m = 4 \<or> m = 5 \<or> m = 6 \<or> m = 7 \<or> m = 8 \<or> m = 9 \<or> m = 10 \<or> m = 11"
    using assms(1,2) by presburger
  then show ?thesis using assms(3,4) by (auto simp: month_from_doy_def month_start_def Let_def split: if_splits)
qed

lemma month_start_12: "month_start l 12 = (if l then 366 else 365)"
  by (simp add: month_start_def)

lemma make_day_simple: "1 \<le> m \<Longrightarrow> m \<le> 12 \<Longrightarrow> make_day y (m - 1) d = day_from_year y + month_start (leap y) (m - 1) + d - 1"
  by (simp add: make_day_def Let_def)

lemma valid_date_doy:
  assumes "valid_date y m d"
  defines "n \<equiv> month_start (leap y) (m - 1) + d - 1"
  shows "0 \<le> n" "n < (if leap y then 366 else 365)" "make_day y (m - 1) d = day_from_year y + n"
    "month_start (leap y) (m - 1) \<le> n" "n < month_start (leap y) m"
proof -
  from assms(1) have v: "1 \<le> m" "m \<le> 12" "1 \<le> d" "d \<le> month_start (leap y) m - month_start (leap y) (m - 1)"
    by (auto simp: valid_date_def)
  show "month_start (leap y) (m - 1) \<le> n" "n < month_start (leap y) m"
    using v by (auto simp: n_def)
  then show "n < (if leap y then 366 else 365)"
    using month_start_mono [OF v(2), of "leap y"] by (simp add: month_start_12)
  show "make_day y (m - 1) d = day_from_year y + n"
    using make_day_simple [OF v(1,2)] by (simp add: n_def)
  have "0 \<le> month_start (leap y) (m - 1)"
    using month_start_mono [of 0 "m - 1" "leap y"] v(1) by (simp add: month_start_def)
  then show "0 \<le> n" using v by (simp add: n_def)
qed

lemma civil_make_day:
  assumes "valid_date y m d"
  shows "civil (make_day y (m - 1) d) = (y, m, d)"
proof -
  note v = valid_date_doy [OF assms]
  have y: "year_from_day (make_day y (m - 1) d) = y"
    using v(1,2) unfolding v(3) by (intro year_from_day_unique) (auto simp: day_from_year_Suc split: if_splits)
  have "1 \<le> m" "m \<le> 12" using assms by (auto simp: valid_date_def)
  with v(4,5) have "month_from_doy (leap y) (month_start (leap y) (m - 1) + d - 1) = m - 1"
    by (intro month_from_doy_unique) auto
  then show ?thesis unfolding civil_def y by (simp add: v(3) Let_def)
qed

lemma civil_valid:
  assumes "civil n = (y, m, d)"
  shows "valid_date y m d" and "make_day y (m - 1) d = n"
proof -
  define l k where "l = leap y" and "k = n - day_from_year y"
  from assms have y: "y = year_from_day n" and m: "m = month_from_doy l k + 1"
    and d: "d = k - month_start l (m - 1) + 1"
    by (auto simp: civil_def Let_def l_def k_def)
  have k: "0 \<le> k" "k < (if l then 366 else 365)"
    using year_from_day_bounds [of n] by (auto simp: k_def y l_def day_from_year_Suc split: if_splits)
  note b = month_from_doy_bounds [OF k]
  show "valid_date y m d"
    using b by (auto simp: valid_date_def d m l_def)
  show "make_day y (m - 1) d = n"
    using b make_day_simple [of m y d] by (auto simp: m d k_def l_def)
qed

text \<open>Day numbers order valid dates as calendar triples do.\<close>

lemma make_day_less_iff:
  assumes "valid_date y m d" "valid_date y' m' d'"
  shows "make_day y (m - 1) d < make_day y' (m' - 1) d' \<longleftrightarrow>
    y < y' \<or> y = y' \<and> (m < m' \<or> m = m' \<and> d < d')"
proof -
  have less: "make_day a (b - 1) c < make_day a' (b' - 1) c'"
    if v: "valid_date a b c" "valid_date a' b' c'" and c: "a < a' \<or> a = a' \<and> (b < b' \<or> b = b' \<and> c < c')"
    for a b c a' b' c'
  proof -
    note p = valid_date_doy [OF v(1)] and q = valid_date_doy [OF v(2)]
    from c consider "a < a'" | "a = a'" "b < b'" | "a = a'" "b = b'" "c < c'" by auto
    then show ?thesis
    proof cases
      case 1
      from day_from_year_less [OF 1] p(2) q(1) show ?thesis unfolding p(3) q(3) by (auto split: if_splits)
    next
      case 2
      then have "month_start (leap a) b \<le> month_start (leap a) (b' - 1)" by (intro month_start_mono) simp
      with p(5) q(4) 2 show ?thesis unfolding p(3) q(3) by simp
    next
      case 3
      then show ?thesis unfolding p(3) q(3) by simp
    qed
  qed
  show ?thesis
  proof
    assume "make_day y (m - 1) d < make_day y' (m' - 1) d'"
    then have "\<not> (y' < y \<or> y' = y \<and> (m' < m \<or> m' = m \<and> d' < d))" "\<not> (y = y' \<and> m = m' \<and> d = d')"
      using less [OF assms(2,1)] by auto
    then show "y < y' \<or> y = y' \<and> (m < m' \<or> m = m' \<and> d < d')" by auto
  qed (rule less [OF assms])
qed

section \<open>Date strings\<close>

definition pad2 :: "int \<Rightarrow> jsstr" where
  "pad2 n = pad_start 2 48 (pos_str n)"

definition pad3 :: "int \<Rightarrow> jsstr" where
  "pad3 n = pad_start 3 48 (pos_str n)"

definition pad4 :: "int \<Rightarrow> jsstr" where
  "pad4 n = pad_start 4 48 (pos_str n)"

text \<open>The year part of \<^verbatim>\<open>toISOString\<close>: four digits, or a sign and six digits outside 0 to 9999.\<close>

definition year_str :: "int \<Rightarrow> jsstr" where
  "year_str y = (if 0 \<le> y \<and> y \<le> 9999 then pad4 y
     else (if y < 0 then 45 else 43) # pad_start 6 48 (pos_str \<bar>y\<bar>))"

fun iso_date :: "int \<times> int \<times> int \<Rightarrow> jsstr" where
  "iso_date (y, m, d) = year_str y @ js ''-'' @ pad2 m @ js ''-'' @ pad2 d"

text \<open>A calendar date in the shape the bridge stores: four-digit year, valid month and day.\<close>

definition date_of :: "jsstr \<Rightarrow> int \<times> int \<times> int \<Rightarrow> bool" where
  "date_of s c \<longleftrightarrow> (case c of (y, m, d) \<Rightarrow> 0 \<le> y \<and> y \<le> 9999 \<and> valid_date y m d) \<and> s = iso_date c"

definition ms_per_day :: int where
  "ms_per_day = 86400000"

text \<open>\<^verbatim>\<open>TimeClip\<close>: the representable times.\<close>

definition time_clip :: "int \<Rightarrow> int option" where
  "time_clip t = (if \<bar>t\<bar> \<le> 8640000000000000 then Some t else None)"

definition iso_of_time :: "int \<Rightarrow> jsstr" where
  "iso_of_time t =
     (let d = t div ms_per_day; r = t mod ms_per_day in
      iso_date (civil d) @ js ''T'' @ pad2 (r div 3600000) @ js '':'' @ pad2 (r div 60000 mod 60) @ js '':''
        @ pad2 (r div 1000 mod 60) @ js ''.'' @ pad3 (r mod 1000) @ js ''Z'')"

text \<open>\<^verbatim>\<open>date.toISOString()\<close> of a date that may be invalid.\<close>

definition to_iso_string :: "int option \<Rightarrow> jsstr res" where
  "to_iso_string t = (case t of None \<Rightarrow> Inl InvalidTimeValue | Some ms \<Rightarrow> Inr (iso_of_time ms))"

text \<open>
  \<^verbatim>\<open>Date.UTC(year, month, day, hour)\<close>, months counted from 0, with its special treatment of
  two-digit years.
\<close>

definition date_utc :: "int \<Rightarrow> int \<Rightarrow> int \<Rightarrow> int \<Rightarrow> int option" where
  "date_utc y m d h = time_clip (make_day (if 0 \<le> y \<and> y \<le> 99 then 1900 + y else y) m d * ms_per_day + h * 3600000)"

section \<open>Date.parse\<close>

text \<open>
  The two formats the bridge writes: \<^verbatim>\<open>YYYY-MM-DD\<close> (midnight UTC) and the \<^verbatim>\<open>toISOString\<close> form. As
  in V8, a day between 1 and 31 is accepted in every month and carries over. \<open>None\<close> is \<^verbatim>\<open>NaN\<close>;
  the other formats V8 accepts are outside the model, nothing in the bridge writes them.
\<close>

definition num2 :: "nat \<Rightarrow> nat \<Rightarrow> int" where
  "num2 a b = 10 * (int a - 48) + (int b - 48)"

definition num3 :: "nat \<Rightarrow> nat \<Rightarrow> nat \<Rightarrow> int" where
  "num3 a b c = 100 * (int a - 48) + num2 b c"

definition num4 :: "nat \<Rightarrow> nat \<Rightarrow> nat \<Rightarrow> nat \<Rightarrow> int" where
  "num4 a b c d = 100 * num2 a b + num2 c d"

fun parse_date_part :: "jsstr \<Rightarrow> (int \<times> jsstr) option" where
  "parse_date_part (y1 # y2 # y3 # y4 # s1 # m1 # m2 # s2 # d1 # d2 # rest) =
     (if list_all is_digit [y1, y2, y3, y4, m1, m2, d1, d2] \<and> s1 = 45 \<and> s2 = 45
         \<and> 1 \<le> num2 m1 m2 \<and> num2 m1 m2 \<le> 12 \<and> 1 \<le> num2 d1 d2 \<and> num2 d1 d2 \<le> 31
      then Some (make_day (num4 y1 y2 y3 y4) (num2 m1 m2 - 1) (num2 d1 d2), rest) else None)"
| "parse_date_part _ = None"

fun parse_time_part :: "jsstr \<Rightarrow> int option" where
  "parse_time_part [t, h1, h2, c1, i1, i2, c2, s1, s2, p, f1, f2, f3, z] =
     (if list_all is_digit [h1, h2, i1, i2, s1, s2, f1, f2, f3] \<and> t = 84 \<and> c1 = 58 \<and> c2 = 58 \<and> p = 46 \<and> z = 90
         \<and> num2 h1 h2 \<le> 23 \<and> num2 i1 i2 \<le> 59 \<and> num2 s1 s2 \<le> 59
      then Some (num2 h1 h2 * 3600000 + num2 i1 i2 * 60000 + num2 s1 s2 * 1000 + num3 f1 f2 f3) else None)"
| "parse_time_part _ = None"

definition date_parse :: "jsstr \<Rightarrow> int option" where
  "date_parse s = (case parse_date_part s of
       None \<Rightarrow> None
     | Some (d, rest) \<Rightarrow>
         if rest = [] then Some (d * ms_per_day)
         else (case parse_time_part rest of None \<Rightarrow> None | Some t \<Rightarrow> Some (d * ms_per_day + t)))"

end
