(* ===== verification/IsoOrder.thy ===== *)
theory IsoOrder
  imports IsoTime
begin

text \<open>
  Facts about date strings: formatting is injective and monotone, so the lexicographic order
  of \<^verbatim>\<open>YYYY-MM-DD\<close> strings is the order of days; and \<^verbatim>\<open>Date.parse\<close> undoes \<^verbatim>\<open>toISOString\<close>.
\<close>

section \<open>Fixed-width decimals\<close>

lemma nat_str_small:
  "n < 10 \<Longrightarrow> nat_str n = [48 + n]"
  "10 \<le> n \<Longrightarrow> n < 100 \<Longrightarrow> nat_str n = [48 + n div 10, 48 + n mod 10]"
  "100 \<le> n \<Longrightarrow> n < 1000 \<Longrightarrow> nat_str n = [48 + n div 100, 48 + n div 10 mod 10, 48 + n mod 10]"
  "1000 \<le> n \<Longrightarrow> n < 10000 \<Longrightarrow>
     nat_str n = [48 + n div 1000, 48 + n div 100 mod 10, 48 + n div 10 mod 10, 48 + n mod 10]"
proof -
  show one: "n < 10 \<Longrightarrow> nat_str n = [48 + n]" for n by (subst nat_str_rec) simp
  show two: "10 \<le> n \<Longrightarrow> n < 100 \<Longrightarrow> nat_str n = [48 + n div 10, 48 + n mod 10]" for n
    by (subst nat_str_rec) (simp add: one)
  show three: "100 \<le> n \<Longrightarrow> n < 1000 \<Longrightarrow> nat_str n = [48 + n div 100, 48 + n div 10 mod 10, 48 + n mod 10]" for n
    by (subst nat_str_rec) (simp add: two div_mult2_eq [symmetric] less_mult_imp_div_less)
  show "1000 \<le> n \<Longrightarrow> n < 10000 \<Longrightarrow>
     nat_str n = [48 + n div 1000, 48 + n div 100 mod 10, 48 + n div 10 mod 10, 48 + n mod 10]" for n
    by (subst nat_str_rec) (simp add: three div_mult2_eq [symmetric] less_mult_imp_div_less)
qed

lemma pad2_digits: "n < 100 \<Longrightarrow> pad2 (int n) = [48 + n div 10, 48 + n mod 10]"
  using nat_str_small(1,2) [of n] by (cases "n < 10") (auto simp: pad2_def pad_start_def nat_str_def)

lemma pad3_digits: "n < 1000 \<Longrightarrow> pad3 (int n) = [48 + n div 100, 48 + n div 10 mod 10, 48 + n mod 10]"
  using nat_str_small(1-3) [of n]
  by (cases "n < 10"; cases "n < 100") (auto simp: pad3_def pad_start_def nat_str_def numeral_2_eq_2)

lemma pad4_digits: "n < 10000 \<Longrightarrow>
    pad4 (int n) = [48 + n div 1000, 48 + n div 100 mod 10, 48 + n div 10 mod 10, 48 + n mod 10]"
  using nat_str_small(1-4) [of n]
  by (cases "n < 10"; cases "n < 100"; cases "n < 1000")
    (auto simp: pad4_def pad_start_def nat_str_def numeral_2_eq_2 numeral_3_eq_3)

lemma mod_digits:
  fixes n :: nat
  shows "10 * (n div 10) + n mod 10 = n"
    and "100 * (n div 100) + (10 * (n div 10 mod 10) + n mod 10) = n"
    and "1000 * (n div 1000) + (100 * (n div 100 mod 10) + (10 * (n div 10 mod 10) + n mod 10)) = n"
proof -
  have ten: "10 * (m div 10) + m mod 10 = m" for m :: nat by simp
  have d: "n div 100 = n div 10 div 10" "n div 1000 = n div 100 div 10" by (simp_all flip: div_mult2_eq)
  show "10 * (n div 10) + n mod 10 = n" by simp
  show two: "100 * (n div 100) + (10 * (n div 10 mod 10) + n mod 10) = n"
    using ten [of n] ten [of "n div 10"] unfolding d by linarith
  show "1000 * (n div 1000) + (100 * (n div 100 mod 10) + (10 * (n div 10 mod 10) + n mod 10)) = n"
    using two ten [of "n div 100"] unfolding d(2) by linarith
qed

lemma num_of_digits:
  "num2 (48 + n div 10) (48 + n mod 10) = int n"
  "num3 (48 + n div 100) (48 + n div 10 mod 10) (48 + n mod 10) = int n"
  "num4 (48 + n div 1000) (48 + n div 100 mod 10) (48 + n div 10 mod 10) (48 + n mod 10) = int n"
  using mod_digits [of n] by (simp_all add: num2_def num3_def num4_def flip: of_nat_div of_nat_mod, linarith+)

lemma is_digit_48: "is_digit (48 + k) \<longleftrightarrow> k < 10"
  by (auto simp: is_digit_def)

lemma digit_bounds: "n < 100 \<Longrightarrow> n div 10 < (10::nat)" "n < 1000 \<Longrightarrow> n div 100 < (10::nat)" "n < 10000 \<Longrightarrow> n div 1000 < (10::nat)"
  by (simp_all add: less_mult_imp_div_less)

section \<open>Order\<close>

lemma lex_div_less:
  fixes a b k :: nat
  assumes "0 < k"
  shows "a < b \<longleftrightarrow> a div k < b div k \<or> a div k = b div k \<and> a mod k < b mod k"
proof (cases "a div k = b div k")
  case True
  then show ?thesis using div_mult_mod_eq [of a k] div_mult_mod_eq [of b k] by (metis add_less_cancel_left less_irrefl)
next
  case False
  then show ?thesis by (metis assms div_le_mono leD le_less_linear nat_less_le not_less)
qed

lemma lex_div_eq:
  fixes a b k :: nat
  shows "a = b \<longleftrightarrow> a div k = b div k \<and> a mod k = b mod k"
  by (metis div_mult_mod_eq)

lemma pad2_less:
  assumes "a < 100" "b < 100"
  shows "pad2 (int a) @ s < pad2 (int b) @ t \<longleftrightarrow> a < b \<or> a = b \<and> s < t"
  using lex_div_less [of 10 a b] lex_div_eq [of a b 10]
  by (simp add: pad2_digits [OF assms(1)] pad2_digits [OF assms(2)]) blast

lemma pad4_less:
  assumes "a < 10000" "b < 10000"
  shows "pad4 (int a) @ s < pad4 (int b) @ t \<longleftrightarrow> a < b \<or> a = b \<and> s < t"
proof -
  have d: "n div 100 = n div 10 div 10" "n div 1000 = n div 100 div 10" for n :: nat by (simp_all flip: div_mult2_eq)
  have less: "a < b \<longleftrightarrow> a div 1000 < b div 1000 \<or> a div 1000 = b div 1000 \<and> (a div 100 mod 10 < b div 100 mod 10 \<or>
      a div 100 mod 10 = b div 100 mod 10 \<and> (a div 10 mod 10 < b div 10 mod 10 \<or>
      a div 10 mod 10 = b div 10 mod 10 \<and> a mod 10 < b mod 10))"
    using lex_div_less [of 10 a b] lex_div_less [of 10 "a div 10" "b div 10"] lex_div_less [of 10 "a div 100" "b div 100"]
      lex_div_eq [of "a div 10" "b div 10" 10] lex_div_eq [of "a div 100" "b div 100" 10]
    unfolding d [symmetric] by (simp only: zero_less_numeral simp_thms) blast
  have eq: "a = b \<longleftrightarrow> a div 1000 = b div 1000 \<and> a div 100 mod 10 = b div 100 mod 10 \<and>
      a div 10 mod 10 = b div 10 mod 10 \<and> a mod 10 = b mod 10"
    using lex_div_eq [of a b 10] lex_div_eq [of "a div 10" "b div 10" 10] lex_div_eq [of "a div 100" "b div 100" 10]
    unfolding d [symmetric] by blast
  show ?thesis
    unfolding less eq by (simp add: pad4_digits [OF assms(1)] pad4_digits [OF assms(2)]) blast
qed

lemma valid_date_ranges:
  assumes "valid_date y m d"
  shows "1 \<le> m" "m \<le> 12" "1 \<le> d" "d \<le> 31"
proof -
  show m: "1 \<le> m" "m \<le> 12" and "1 \<le> d" using assms by (auto simp: valid_date_def)
  have "m = 1 \<or> m = 2 \<or> m = 3 \<or> m = 4 \<or> m = 5 \<or> m = 6 \<or> m = 7 \<or> m = 8 \<or> m = 9 \<or> m = 10 \<or> m = 11 \<or> m = 12"
    using m by presburger
  then show "d \<le> 31" using assms by (auto simp: valid_date_def month_start_def Let_def split: if_splits)
qed

lemma iso_date_pads: "0 \<le> y \<Longrightarrow> y \<le> 9999 \<Longrightarrow> iso_date (y, m, d) = pad4 y @ js ''-'' @ pad2 m @ js ''-'' @ pad2 d"
  by (simp add: year_str_def)

lemma iso_date_less:
  assumes "0 \<le> y" "y \<le> 9999" "valid_date y m d" "0 \<le> y'" "y' \<le> 9999" "valid_date y' m' d'"
  shows "iso_date (y, m, d) < iso_date (y', m', d') \<longleftrightarrow> make_day y (m - 1) d < make_day y' (m' - 1) d'"
proof -
  note r = valid_date_ranges [OF assms(3)] and r' = valid_date_ranges [OF assms(6)]
  have less2: "pad2 a @ s < pad2 b @ t \<longleftrightarrow> a < b \<or> a = b \<and> s < t" if "0 \<le> a" "a \<le> 31" "0 \<le> b" "b \<le> 31" for a b s t
    using pad2_less [of "nat a" "nat b" s t] that by auto
  have less4: "pad4 y @ s < pad4 y' @ t \<longleftrightarrow> y < y' \<or> y = y' \<and> s < t" for s t
    using pad4_less [of "nat y" "nat y'" s t] assms by auto
  have last: "pad2 d < pad2 d' \<longleftrightarrow> d < d'"
    using less2 [of d d' "[]" "[]"] r r' by simp
  show ?thesis
    unfolding make_day_less_iff [OF assms(3,6)] iso_date_pads [OF assms(1,2)] iso_date_pads [OF assms(4,5)]
    using r r' by (simp add: less4 less2 last)
qed

text \<open>The day number of a calendar date, and the two directions of the correspondence.\<close>

definition day_of :: "int \<times> int \<times> int \<Rightarrow> int" where
  "day_of c = (case c of (y, m, d) \<Rightarrow> make_day y (m - 1) d)"

lemma date_of_less:
  "date_of s c \<Longrightarrow> date_of s' c' \<Longrightarrow> s < s' \<longleftrightarrow> day_of c < day_of c'"
  by (cases c; cases c') (auto simp: date_of_def day_of_def iso_date_less simp del: iso_date.simps)

lemma date_of_le:
  "date_of s c \<Longrightarrow> date_of s' c' \<Longrightarrow> s \<le> s' \<longleftrightarrow> day_of c \<le> day_of c'"
  using date_of_less [of s' c' s c] by (simp add: not_less [symmetric])

lemma day_of_civil [simp]: "day_of (civil n) = n"
  using civil_valid by (cases "civil n") (auto simp: day_of_def)

lemma civil_day_of: "date_of s c \<Longrightarrow> civil (day_of c) = c"
  by (cases c) (auto simp: date_of_def day_of_def civil_make_day)

text \<open>Days whose year has four digits.\<close>

lemma civil_year_range:
  assumes "- 719528 \<le> n" "n < 2932897"
  shows "0 \<le> fst (civil n)" "fst (civil n) \<le> 9999"
proof -
  let ?y = "year_from_day n"
  have y0: "day_from_year 0 = - 719528" and y1: "day_from_year 10000 = 2932897"
    by (simp_all add: day_from_year_def)
  have fst: "fst (civil n) = ?y" by (simp add: civil_def Let_def)
  show "0 \<le> fst (civil n)"
    using day_from_year_mono [of "?y + 1" 0] year_from_day_bounds(2) [of n] assms y0 unfolding fst by linarith
  show "fst (civil n) \<le> 9999"
    using day_from_year_mono [of 10000 ?y] year_from_day_bounds(1) [of n] assms y1 unfolding fst by linarith
qed

lemma date_of_civil:
  assumes "- 719528 \<le> n" "n < 2932897"
  shows "date_of (iso_date (civil n)) (civil n)"
  using civil_year_range [OF assms] civil_valid(1)
  by (cases "civil n") (auto simp: date_of_def)

lemma iso_date_length:
  assumes "date_of s c"
  shows "length s = 10"
proof -
  obtain y m d where c: "c = (y, m, d)" by (cases c)
  from assms have "0 \<le> y" "y \<le> 9999" "valid_date y m d" and s: "s = iso_date (y, m, d)"
    by (auto simp: date_of_def c)
  with valid_date_ranges [OF this(3)] show ?thesis
    using pad4_digits [of "nat y"] pad2_digits [of "nat m"] pad2_digits [of "nat d"]
    by (simp add: year_str_def)
qed

section \<open>Parsing undoes formatting\<close>

lemma iso_date_units:
  assumes "date_of s c"
  obtains y m d where "c = (int y, int m, int d)" "y < 10000" "1 \<le> m" "m \<le> 12" "1 \<le> d" "d \<le> 31"
    "s = [48 + y div 1000, 48 + y div 100 mod 10, 48 + y div 10 mod 10, 48 + y mod 10, 45,
          48 + m div 10, 48 + m mod 10, 45, 48 + d div 10, 48 + d mod 10]"
proof -
  obtain y m d where c: "c = (y, m, d)" by (cases c)
  from assms have y: "0 \<le> y" "y \<le> 9999" and v: "valid_date y m d" and s: "s = iso_date (y, m, d)"
    by (auto simp: date_of_def c)
  note r = valid_date_ranges [OF v]
  from y r have n: "y = int (nat y)" "m = int (nat m)" "d = int (nat d)" by simp_all
  have ty: "nat y < 10000" and tm: "nat m < 100" and td: "nat d < 100" using y r by auto
  show ?thesis
  proof (rule that [of "nat y" "nat m" "nat d"])
    show "s = [48 + nat y div 1000, 48 + nat y div 100 mod 10, 48 + nat y div 10 mod 10, 48 + nat y mod 10, 45,
          48 + nat m div 10, 48 + nat m mod 10, 45, 48 + nat d div 10, 48 + nat d mod 10]"
      unfolding s iso_date_pads [OF y]
      using pad4_digits [OF ty] pad2_digits [OF tm] pad2_digits [OF td] n by simp
  qed (use y r n c in auto)
qed

lemma parse_date_part_iso:
  assumes "date_of s c"
  shows "parse_date_part (s @ rest) = Some (day_of c, rest)"
proof -
  obtain y m d where c: "c = (int y, int m, int d)" and r: "y < 10000" "1 \<le> m" "m \<le> 12" "1 \<le> d" "d \<le> 31"
    and s: "s = [48 + y div 1000, 48 + y div 100 mod 10, 48 + y div 10 mod 10, 48 + y mod 10, 45,
          48 + m div 10, 48 + m mod 10, 45, 48 + d div 10, 48 + d mod 10]"
    using iso_date_units [OF assms] by metis
  have b: "y div 1000 < 10" "m div 10 < 10" "d div 10 < 10" using r by (auto simp: less_mult_imp_div_less)
  show ?thesis
    unfolding s c using r b by (simp add: num_of_digits is_digit_48 day_of_def)
qed

lemma date_parse_date: "date_of s c \<Longrightarrow> date_parse s = Some (day_of c * ms_per_day)"
  using parse_date_part_iso [of s c "[]"] by (simp add: date_parse_def)

lemma parse_time_part_iso:
  fixes h i s f :: nat
  assumes "h < 24" "i < 60" "s < 60" "f < 1000"
  shows "parse_time_part (js ''T'' @ pad2 (int h) @ js '':'' @ pad2 (int i) @ js '':'' @ pad2 (int s) @ js ''.'' @ pad3 (int f) @ js ''Z'')
    = Some (int h * 3600000 + int i * 60000 + int s * 1000 + int f)"
proof -
  have b: "h div 10 < 10" "i div 10 < 10" "s div 10 < 10" "f div 100 < 10"
    using assms by (auto simp: less_mult_imp_div_less)
  have e: "pad2 (int h) = [48 + h div 10, 48 + h mod 10]" "pad2 (int i) = [48 + i div 10, 48 + i mod 10]"
    "pad2 (int s) = [48 + s div 10, 48 + s mod 10]"
    "pad3 (int f) = [48 + f div 100, 48 + f div 10 mod 10, 48 + f mod 10]"
    using assms by (simp_all add: pad2_digits pad3_digits)
  show ?thesis unfolding e using b assms by (simp add: num_of_digits is_digit_48)
qed

text \<open>Times whose ISO form has a four-digit year: 0000-01-01 to the end of 9999.\<close>

definition ok_time :: "int \<Rightarrow> bool" where
  "ok_time t \<longleftrightarrow> - 62167219200000 \<le> t \<and> t < 253402300800000"

lemma date_parse_iso_of_time:
  assumes "ok_time t"
  shows "date_parse (iso_of_time t) = Some t"
proof -
  define d r where "d = t div ms_per_day" and "r = t mod ms_per_day"
  have t: "t = d * ms_per_day + r" and r: "0 \<le> r" "r < ms_per_day"
    by (simp_all add: d_def r_def ms_per_day_def)
  have "- 719528 \<le> d" "d < 2932897"
    using assms t r unfolding ok_time_def ms_per_day_def by linarith+
  then have do: "date_of (iso_date (civil d)) (civil d)" by (rule date_of_civil)
  define h i s f where "h = nat (r div 3600000)" and "i = nat (r div 60000 mod 60)"
    and "s = nat (r div 1000 mod 60)" and "f = nat (r mod 1000)"
  have n: "int h = r div 3600000" "int i = r div 60000 mod 60" "int s = r div 1000 mod 60" "int f = r mod 1000"
    using r by (simp_all add: h_def i_def s_def f_def pos_imp_zdiv_nonneg_iff)
  have "r div 3600000 < 24"
    using div_bounds(1) [of 3600000 r] r(2) unfolding ms_per_day_def by linarith
  moreover have "r div 60000 mod 60 < 60" "r div 1000 mod 60 < 60" "r mod 1000 < 1000"
    by (simp_all only: pos_mod_bound zero_less_numeral)
  ultimately have b: "h < 24" "i < 60" "s < 60" "f < 1000"
    unfolding n [symmetric] by linarith+
  have sum: "int h * 3600000 + int i * 60000 + int s * 1000 + int f = r"
  proof -
    have d: "r div 60000 = r div 1000 div 60" "r div 3600000 = r div 60000 div 60"
      by (simp_all flip: zdiv_zmult2_eq)
    show ?thesis unfolding n
      using mult_div_mod_eq [of 1000 r] mult_div_mod_eq [of 60 "r div 1000"] mult_div_mod_eq [of 60 "r div 60000"]
      unfolding d by linarith
  qed
  have f: "iso_of_time t = iso_date (civil d) @ (js ''T'' @ pad2 (int h) @ js '':'' @ pad2 (int i) @ js '':''
      @ pad2 (int s) @ js ''.'' @ pad3 (int f) @ js ''Z'')"
    unfolding iso_of_time_def Let_def d_def [symmetric] r_def [symmetric] n by (rule refl)
  have "date_parse (iso_of_time t) = Some (d * ms_per_day + r)"
    unfolding f date_parse_def parse_date_part_iso [OF do] using parse_time_part_iso [OF b] sum by simp
  then show ?thesis using t by simp
qed

lemma iso_of_time_take10: "take 10 (iso_of_time t) = iso_date (civil (t div ms_per_day))" if "ok_time t"
proof -
  have "- 719528 \<le> t div ms_per_day" "t div ms_per_day < 2932897"
    using that div_bounds [of ms_per_day t] by (auto simp: ok_time_def ms_per_day_def)
  from iso_date_length [OF date_of_civil [OF this]] show ?thesis
    by (simp add: iso_of_time_def Let_def)
qed

end
