(* ===== verification/Types.thy ===== *)
theory Types
  imports JsNumber
begin

text \<open>
  The shared contracts of \<^verbatim>\<open>src/types.ts\<close>. One record per object type, one datatype per union of
  literals; an optional property or \<^verbatim>\<open>T | undefined\<close> is an \<open>option\<close>. Field names carry a short
  prefix for their type (\<open>tx_\<close>, \<open>acc_\<close>, ...), because record fields are global names. Company
  ids, calendar dates and timestamps are strings, as in the source; numbers are finite doubles.
\<close>

type_synonym company_id = jsstr
type_synonym iso_day = jsstr
type_synonym iso_time = jsstr

text \<open>\<^verbatim>\<open>unknown\<close> values: JSON values, \<^verbatim>\<open>undefined\<close>, and the numbers JSON cannot carry (\<^verbatim>\<open>NaN\<close>, infinities).\<close>

datatype jsval =
    JUndef
  | JNull
  | JBool bool
  | JNum rat
  | JNonFinite
  | JStr jsstr
  | JArr "jsval list"
  | JObj "(jsstr \<times> jsval) list"

definition ID_SCHEME_VERSION :: int where
  "ID_SCHEME_VERSION = 1"

datatype account_kind = Checking | CreditCard | Savings | Investment
datatype transaction_status = Pending | Posted
datatype date_mode = Purchase | Charge
datatype account_selector = AllAccounts | SelectedAccounts "jsstr list"

section \<open>Configuration\<close>

record company_config =
  co_enabled :: bool
  co_label :: jsstr
  co_kind :: account_kind
  co_credentials :: "(jsstr \<times> jsstr) list"
  co_accounts :: account_selector
  co_startDate :: "iso_day option"
  co_additionalTransactionInformation :: bool
  co_includePending :: bool
  co_futureMonthsToScrape :: "rat option"
  co_dateMode :: date_mode
  co_chargeDay :: "rat option"
  co_synthesizePayments :: bool
  co_timeoutMinutes :: rat
  co_scraperOptions :: "(jsstr \<times> jsval) list option"

record server_config =
  srv_publicUrl :: jsstr
  srv_port :: rat
  srv_host :: jsstr
  srv_claimTtlMinutes :: int
  srv_maxClaims :: int

text \<open>\<^verbatim>\<open>companies\<close> keeps the order of the object's entries; an entry may be absent (\<open>None\<close>).\<close>

record config =
  cfg_schedule :: "jsstr option"
  cfg_timezone :: jsstr
  cfg_currency :: jsstr
  cfg_staleHours :: int
  cfg_overlapDays :: int
  cfg_maxLoginAttemptsPerDay :: int
  cfg_companies :: "(company_id \<times> company_config option) list"
  cfg_server :: server_config

section \<open>Ledger rows\<close>

record ledger_account =
  acc_id :: jsstr
  acc_company :: company_id
  acc_accountNumber :: jsstr
  acc_kind :: account_kind
  acc_currency :: jsstr
  acc_name :: jsstr
  acc_balance :: "rat option"
  acc_balanceAt :: "iso_time option"
  acc_firstSeen :: iso_time
  acc_lastSeen :: iso_time
  acc_raw :: jsval

text \<open>
  \<open>tx_row\<close> is \<^verbatim>\<open>Omit<LedgerTransaction, 'id'>\<close>; \<open>ledger_tx\<close> extends it with the id.
\<close>

record tx_row =
  tx_accountId :: jsstr
  tx_company :: company_id
  tx_identifier :: "jsstr option"
  tx_bookedDate :: iso_day
  tx_chargeDate :: "iso_day option"
  tx_amount :: rat
  tx_currency :: jsstr
  tx_description :: jsstr
  tx_memo :: "jsstr option"
  tx_status :: transaction_status
  tx_postedSeenAt :: "iso_time option"
  tx_installmentNumber :: "rat option"
  tx_installmentTotal :: "rat option"
  tx_originalAmount :: "rat option"
  tx_originalCurrency :: "jsstr option"
  tx_category :: "jsstr option"
  tx_synthetic :: bool
  tx_firstSeen :: iso_time
  tx_lastSeen :: iso_time
  tx_idSchemeVersion :: int
  tx_raw :: jsval

record ledger_tx = tx_row +
  tx_id :: jsstr

text \<open>\<^verbatim>\<open>{...row, id}\<close>.\<close>

definition with_id :: "tx_row \<Rightarrow> jsstr \<Rightarrow> ledger_tx" where
  "with_id r i = tx_row.extend r (ledger_tx.fields i)"

lemma with_id_simps [simp]:
  "tx_id (with_id r i) = i"
  "tx_row.truncate (with_id r i) = r"
  "tx_accountId (with_id r i) = tx_accountId r"
  "tx_bookedDate (with_id r i) = tx_bookedDate r"
  "tx_amount (with_id r i) = tx_amount r"
  "tx_description (with_id r i) = tx_description r"
  by (simp_all add: with_id_def tx_row.defs ledger_tx.defs)

record ledger_holding =
  hold_id :: jsstr
  hold_accountId :: jsstr
  hold_symbol :: "jsstr option"
  hold_description :: jsstr
  hold_marketValue :: rat
  hold_shares :: "rat option"
  hold_purchasePrice :: "rat option"
  hold_costBasis :: "rat option"
  hold_currency :: jsstr
  hold_firstSeen :: iso_time
  hold_lastSeen :: iso_time
  hold_raw :: jsval

record synthetic_payment =
  syn_transactionId :: jsstr
  syn_accountId :: jsstr
  syn_chargeDate :: iso_day
  syn_amount :: rat
  syn_emittedAt :: iso_time

datatype anomaly_field = FAmount | FBookedDate | FDescription

record anomaly =
  an_transactionId :: jsstr
  an_field :: anomaly_field
  an_previous :: jsstr
  an_incoming :: jsstr
  an_seenAt :: iso_time

record upsert_summary =
  sum_inserted :: nat
  sum_updated :: nat
  sum_unchanged :: nat
  sum_anomalies :: "anomaly list"

record duplicate_group =
  dup_accountId :: jsstr
  dup_bookedDate :: iso_day
  dup_amount :: rat
  dup_description :: jsstr
  dup_transactionIds :: "jsstr list"

record transaction_query =
  q_accountIds :: "jsstr list option"
  q_from :: "iso_day option"
  q_to :: "iso_day option"
  q_includePending :: bool
  q_includeSynthetic :: bool

section \<open>Scrape state\<close>

datatype scrape_error_type =
    INVALID_PASSWORD
  | CHANGE_PASSWORD
  | ACCOUNT_BLOCKED
  | TIMEOUT
  | GENERIC
  | GENERAL_ERROR
  | TWO_FACTOR_RETRIEVER_MISSING
  | OTP_REQUIRED
  | BRIDGE_ERROR

record source_state =
  st_company :: company_id
  st_lastRunAt :: "iso_time option"
  st_lastSuccessAt :: "iso_time option"
  st_lastErrorAt :: "iso_time option"
  st_lastErrorType :: "scrape_error_type option"
  st_lastErrorMessage :: "jsstr option"
  st_consecutiveFailures :: nat
  st_parked :: bool
  st_parkedReason :: "jsstr option"
  st_parkedAt :: "iso_time option"
  st_credentialFingerprint :: "jsstr option"
  st_nextAllowedAt :: "iso_time option"
  st_loginAttemptsDate :: "iso_day option"
  st_loginAttempts :: nat
  st_earliestScrapedDate :: "iso_day option"

datatype run_status = RunSuccess | RunLoginFailed | RunTimeout | RunError | RunSkipped

record run_record =
  run_id :: jsstr
  run_company :: company_id
  run_startedAt :: iso_time
  run_finishedAt :: iso_time
  run_status :: run_status
  run_errorType :: "scrape_error_type option"
  run_message :: "jsstr option"
  run_accountsSeen :: nat
  run_transactionsSeen :: nat
  run_transactionsNew :: nat
  run_anomalies :: nat

section \<open>Consumers\<close>

record consumer =
  con_id :: jsstr
  con_label :: jsstr
  con_basicUser :: jsstr
  con_secretHash :: jsstr
  con_secretPlain :: "jsstr option"
  con_claimId :: "jsstr option"
  con_claimExpiresAt :: "iso_time option"
  con_claimCount :: int
  con_maxClaims :: int
  con_claimedAt :: "iso_time option"
  con_firstAuthenticatedAt :: "iso_time option"
  con_lastSeenAt :: "iso_time option"
  con_createdAt :: iso_time
  con_revokedAt :: "iso_time option"

record archive_installment_pair =
  pair_canonicalId :: jsstr
  pair_duplicateId :: jsstr
  pair_canonicalStateHash :: jsstr
  pair_duplicateStateHash :: jsstr

section \<open>The ledger interface\<close>

text \<open>
  \<^verbatim>\<open>Ledger\<close> is a record of functions in the source. Here every operation takes the state of the
  implementation and, when it writes, returns it; an operation that throws on its arguments
  returns a result. \<open>'l\<close> is the state: the maps of \<^verbatim>\<open>memory.ts\<close> or the tables of \<^verbatim>\<open>sqlite.ts\<close>.
\<close>

record 'l ledger_ops =
  getSourceState :: "company_id \<Rightarrow> 'l \<Rightarrow> source_state option"
  upsertSourceState :: "source_state \<Rightarrow> 'l \<Rightarrow> 'l"
  listSourceStates :: "'l \<Rightarrow> source_state list"
  recordRun :: "run_record \<Rightarrow> 'l \<Rightarrow> 'l"
  listRuns :: "company_id option \<Rightarrow> nat option \<Rightarrow> 'l \<Rightarrow> run_record list"
  upsertAccount :: "ledger_account \<Rightarrow> 'l \<Rightarrow> 'l"
  getAccount :: "jsstr \<Rightarrow> 'l \<Rightarrow> ledger_account option"
  listAccounts :: "company_id option \<Rightarrow> 'l \<Rightarrow> ledger_account list"
  upsertTransactions :: "ledger_tx list \<Rightarrow> jsstr option \<Rightarrow> 'l \<Rightarrow> (upsert_summary \<times> 'l) res"
  coalesceArchiveInstallments ::
    "archive_installment_pair list \<Rightarrow> jsstr \<Rightarrow> bool \<Rightarrow> 'l \<Rightarrow> ((nat \<times> nat) \<times> 'l) res"
  getTransaction :: "jsstr \<Rightarrow> 'l \<Rightarrow> ledger_tx option"
  listTransactions :: "transaction_query \<Rightarrow> 'l \<Rightarrow> ledger_tx list"
  findDuplicates :: "'l \<Rightarrow> duplicate_group list"
  earliestBookedDate :: "jsstr \<Rightarrow> 'l \<Rightarrow> iso_day option"
  upsertHoldings :: "ledger_holding list \<Rightarrow> 'l \<Rightarrow> 'l"
  listHoldings :: "jsstr option \<Rightarrow> 'l \<Rightarrow> ledger_holding list"
  listSyntheticPayments :: "jsstr \<Rightarrow> 'l \<Rightarrow> synthetic_payment list"
  insertSyntheticPayment :: "synthetic_payment \<Rightarrow> 'l \<Rightarrow> 'l res"
  createConsumer :: "consumer \<Rightarrow> 'l \<Rightarrow> 'l res"
  updateConsumer :: "consumer \<Rightarrow> 'l \<Rightarrow> 'l res"
  getConsumer :: "jsstr \<Rightarrow> 'l \<Rightarrow> consumer option"
  getConsumerByClaimId :: "jsstr \<Rightarrow> 'l \<Rightarrow> consumer option"
  getConsumerByBasicUser :: "jsstr \<Rightarrow> 'l \<Rightarrow> consumer option"
  listConsumers :: "'l \<Rightarrow> consumer list"
  recordAnomalies :: "anomaly list \<Rightarrow> 'l \<Rightarrow> 'l"
  listAnomalies :: "nat option \<Rightarrow> 'l \<Rightarrow> anomaly list"
  getMeta :: "jsstr \<Rightarrow> 'l \<Rightarrow> jsstr option"
  setMeta :: "jsstr \<Rightarrow> jsstr \<Rightarrow> 'l \<Rightarrow> 'l"

section \<open>Sources\<close>

record source_fetch_result =
  res_accounts :: "ledger_account list"
  res_transactions :: "ledger_tx list"
  res_holdings :: "ledger_holding list"
  res_scrapedAt :: iso_time

datatype source_run_outcome =
    RunOk source_fetch_result
  | RunFailed scrape_error_type jsstr

section \<open>SimpleFIN wire shapes\<close>

record simplefin_org =
  org_id :: jsstr
  org_name :: jsstr
  org_domain :: jsstr
  org_url :: jsstr
  org_sfinUrl :: jsstr

record simplefin_connection =
  conn_id :: jsstr
  conn_name :: jsstr
  conn_org_id :: jsstr
  conn_org_url :: jsstr
  conn_sfin_url :: jsstr

record simplefin_transaction =
  sf_id :: jsstr
  sf_posted :: "int option"
  sf_transacted_at :: "int option"
  sf_amount :: jsstr
  sf_description :: jsstr
  sf_payee :: jsstr
  sf_memo :: "jsstr option"
  sf_pending :: bool
  sf_currency :: jsstr
  sf_extra :: "(jsstr \<times> jsval) list"

record simplefin_holding =
  sfh_id :: jsstr
  sfh_market_value :: jsstr
  sfh_description :: jsstr
  sfh_symbol :: "jsstr option"
  sfh_currency :: jsstr
  sfh_shares :: "jsstr option"
  sfh_purchase_price :: "jsstr option"
  sfh_cost_basis :: "jsstr option"

record simplefin_account =
  sfa_id :: jsstr
  sfa_name :: jsstr
  sfa_conn_id :: jsstr
  sfa_org :: simplefin_org
  sfa_currency :: jsstr
  sfa_balance :: jsstr
  sfa_balance_date :: "int option"
  sfa_transactions :: "simplefin_transaction list"
  sfa_holdings :: "simplefin_holding list"
  sfa_extra :: "(jsstr \<times> jsval) list"

record simplefin_error =
  err_code :: jsstr
  err_msg :: jsstr
  err_conn_id :: "jsstr option"
  err_account_id :: "jsstr option"

record simplefin_response =
  resp_errlist :: "simplefin_error list"
  resp_errors :: "jsstr list"
  resp_connections :: "simplefin_connection list"
  resp_accounts :: "simplefin_account list"

record accounts_query =
  aq_version :: "jsstr option"
  aq_startDate :: "int option"
  aq_endDate :: "int option"
  aq_pending :: bool
  aq_balancesOnly :: bool
  aq_accountIds :: "jsstr list option"

section \<open>Health\<close>

record company_health =
  ch_company :: company_id
  ch_enabled :: bool
  ch_healthy :: bool
  ch_parked :: bool
  ch_lastSuccessAt :: "iso_time option"
  ch_lastErrorType :: "scrape_error_type option"
  ch_staleHours :: int
  ch_accounts :: nat

record consumer_health =
  cnh_label :: jsstr
  cnh_lastSeenAt :: "iso_time option"
  cnh_claimed :: bool

record health_report =
  hr_ok :: bool
  hr_checkedAt :: iso_time
  hr_companies :: "company_health list"
  hr_consumers :: "consumer_health list"
  hr_idSchemeVersion :: int

section \<open>Reading unknown values\<close>

text \<open>
  The helper \<^verbatim>\<open>object(value)\<close> and property access on it: the own property, or \<^verbatim>\<open>undefined\<close>.
\<close>

definition js_object :: "jsval \<Rightarrow> (jsstr \<times> jsval) list option" where
  "js_object v = (case v of JObj ps \<Rightarrow> Some ps | _ \<Rightarrow> None)"

definition js_prop :: "(jsstr \<times> jsval) list option \<Rightarrow> string \<Rightarrow> jsval" where
  "js_prop ob k = (case ob of None \<Rightarrow> JUndef | Some ps \<Rightarrow> default (map_of ps (js k)) JUndef)"

text \<open>
  \<^verbatim>\<open>JSON.parse(JSON.stringify(value))\<close>: undefined properties disappear, undefined array elements
  and non-finite numbers become \<^verbatim>\<open>null\<close>.
\<close>

fun json_norm :: "jsval \<Rightarrow> jsval" where
  "json_norm JUndef = JUndef"
| "json_norm JNonFinite = JNull"
| "json_norm (JArr vs) = JArr (map (\<lambda>v. if v = JUndef then JNull else json_norm v) vs)"
| "json_norm (JObj ps) = JObj (map (\<lambda>(k, v). (k, json_norm v)) (filter (\<lambda>(k, v). v \<noteq> JUndef) ps))"
| "json_norm v = v"

end
