(* ===== verification/JsUri.thy ===== *)
theory JsUri
  imports JsString
begin

text \<open>
  UTF-8 and percent encoding: \<^verbatim>\<open>encodeURIComponent\<close>, \<^verbatim>\<open>decodeURIComponent\<close> and the bytes of a
  string, with the round trip on one code unit outside the surrogate range.
\<close>

section \<open>UTF-8\<close>

definition utf8_cp :: "nat \<Rightarrow> nat list" where
  "utf8_cp cp =
     (if cp < 128 then [cp]
      else if cp < 2048 then [192 + cp div 64, 128 + cp mod 64]
      else if cp < 65536 then [224 + cp div 4096, 128 + cp div 64 mod 64, 128 + cp mod 64]
      else [240 + cp div 262144, 128 + cp div 4096 mod 64, 128 + cp div 64 mod 64, 128 + cp mod 64])"

definition is_high :: "nat \<Rightarrow> bool" where
  "is_high c \<longleftrightarrow> 55296 \<le> c \<and> c \<le> 56319"

definition is_low :: "nat \<Rightarrow> bool" where
  "is_low c \<longleftrightarrow> 56320 \<le> c \<and> c \<le> 57343"

definition is_surrogate :: "nat \<Rightarrow> bool" where
  "is_surrogate c \<longleftrightarrow> 55296 \<le> c \<and> c \<le> 57343"

definition pair_cp :: "nat \<Rightarrow> nat \<Rightarrow> nat" where
  "pair_cp h l = 65536 + (h - 55296) * 1024 + (l - 56320)"

definition utf16 :: "nat \<Rightarrow> jsstr" where
  "utf16 cp = (if cp < 65536 then [cp]
     else [55296 + (cp - 65536) div 1024, 56320 + (cp - 65536) mod 1024])"

text \<open>The bytes of a string as a text column or a digest sees them; a lone surrogate becomes U+FFFD.\<close>

fun utf8 :: "jsstr \<Rightarrow> nat list" where
  "utf8 [] = []"
| "utf8 [c] = (if is_surrogate c then utf8_cp 65533 else utf8_cp c)"
| "utf8 (c # d # s) =
     (if is_high c \<and> is_low d then utf8_cp (pair_cp c d) @ utf8 s
      else if is_surrogate c then utf8_cp 65533 @ utf8 (d # s)
      else utf8_cp c @ utf8 (d # s))"

lemma utf8_Cons_ascii: "c < 128 \<Longrightarrow> utf8 (c # s) = c # utf8 s"
  by (cases s) (auto simp: utf8_cp_def is_high_def is_surrogate_def)

lemma utf8_ascii: "(\<And>c. c \<in> set s \<Longrightarrow> c < 128) \<Longrightarrow> utf8 s = s"
  by (induction s) (simp_all add: utf8_Cons_ascii)

section \<open>Percent encoding\<close>

definition hex_char :: "nat \<Rightarrow> nat" where
  "hex_char n = (if n < 10 then 48 + n else 55 + n)"

definition hex_val :: "nat \<Rightarrow> nat option" where
  "hex_val c = (if is_digit c then Some (c - 48)
     else if 65 \<le> c \<and> c \<le> 70 then Some (c - 55)
     else if 97 \<le> c \<and> c \<le> 102 then Some (c - 87)
     else None)"

lemma hex_val_char [simp]: "n < 16 \<Longrightarrow> hex_val (hex_char n) = Some n"
  by (auto simp: hex_val_def hex_char_def is_digit_def)

definition pct :: "nat \<Rightarrow> jsstr" where
  "pct b = [37, hex_char (b div 16), hex_char (b mod 16)]"

text \<open>The characters \<^verbatim>\<open>encodeURIComponent\<close> leaves alone.\<close>

definition uri_unreserved :: "nat \<Rightarrow> bool" where
  "uri_unreserved c \<longleftrightarrow> is_word c \<or> c \<in> set (js ''-.!~*'') \<or> c = 39 \<or> c = 40 \<or> c = 41"

fun encodeURIComponent :: "jsstr \<Rightarrow> jsstr res" where
  "encodeURIComponent [] = Inr []"
| "encodeURIComponent (c # s) =
     (if uri_unreserved c then bindE (encodeURIComponent s) (\<lambda>r. Inr (c # r))
      else if is_low c then Inl URIError
      else if is_high c then
        (case s of
           [] \<Rightarrow> Inl URIError
         | d # s' \<Rightarrow>
             if is_low d
             then bindE (encodeURIComponent s') (\<lambda>r. Inr (concat (map pct (utf8_cp (pair_cp c d))) @ r))
             else Inl URIError)
      else bindE (encodeURIComponent s) (\<lambda>r. Inr (concat (map pct (utf8_cp c)) @ r)))"

fun pct_byte :: "jsstr \<Rightarrow> (nat \<times> jsstr) option" where
  "pct_byte (c # a # b # s) =
     (if c = 37 then
        (case (hex_val a, hex_val b) of
           (Some x, Some y) \<Rightarrow> Some (16 * x + y, s)
         | _ \<Rightarrow> None)
      else None)"
| "pct_byte _ = None"

fun pct_conts :: "nat \<Rightarrow> jsstr \<Rightarrow> (nat list \<times> jsstr) option" where
  "pct_conts 0 s = Some ([], s)"
| "pct_conts (Suc n) s =
     (case pct_byte s of
        None \<Rightarrow> None
      | Some (b, s') \<Rightarrow>
          if b div 64 = 2
          then (case pct_conts n s' of None \<Rightarrow> None | Some (bs, s'') \<Rightarrow> Some (b mod 64 # bs, s''))
          else None)"

definition utf8_lead :: "nat \<Rightarrow> (nat \<times> nat) option" where
  "utf8_lead b = (if 192 \<le> b \<and> b < 224 then Some (1, b - 192)
     else if 224 \<le> b \<and> b < 240 then Some (2, b - 224)
     else if 240 \<le> b \<and> b < 248 then Some (3, b - 240)
     else None)"

definition utf8_valid :: "nat \<Rightarrow> nat \<Rightarrow> bool" where
  "utf8_valid n cp \<longleftrightarrow>
     (if n = 1 then 128 \<le> cp
      else if n = 2 then 2048 \<le> cp \<and> \<not> is_surrogate cp
      else 65536 \<le> cp \<and> cp \<le> 1114111)"

lemma pct_byte_length: "pct_byte s = Some (b, s') \<Longrightarrow> length s' < length s"
  by (cases s rule: pct_byte.cases) (auto split: if_splits option.splits)

lemma pct_conts_length: "pct_conts n s = Some (bs, s') \<Longrightarrow> length s' \<le> length s"
proof (induction n arbitrary: s bs s')
  case 0
  then show ?case by simp
next
  case (Suc n)
  then show ?case
    by (fastforce split: option.splits if_splits prod.splits dest: pct_byte_length)
qed

function decodeURIComponent :: "jsstr \<Rightarrow> jsstr res" where
  "decodeURIComponent s =
     (case s of
        [] \<Rightarrow> Inr []
      | c # s0 \<Rightarrow>
          if c \<noteq> 37 then bindE (decodeURIComponent s0) (\<lambda>r. Inr (c # r))
          else (case pct_byte s of
              None \<Rightarrow> Inl URIError
            | Some (b, s1) \<Rightarrow>
                if b < 128 then bindE (decodeURIComponent s1) (\<lambda>r. Inr (b # r))
                else (case utf8_lead b of
                    None \<Rightarrow> Inl URIError
                  | Some (n, bits) \<Rightarrow>
                      (case pct_conts n s1 of
                         None \<Rightarrow> Inl URIError
                       | Some (bs, s2) \<Rightarrow>
                           let cp = foldl (\<lambda>a x. 64 * a + x) bits bs in
                           if utf8_valid n cp
                           then bindE (decodeURIComponent s2) (\<lambda>r. Inr (utf16 cp @ r))
                           else Inl URIError))))"
  by pat_completeness auto
termination
  by (relation "measure length") (auto dest!: pct_byte_length pct_conts_length)

declare decodeURIComponent.simps [simp del]

lemma decode_Nil [simp]: "decodeURIComponent [] = Inr []"
  by (simp add: decodeURIComponent.simps)

lemma decode_plain:
  "c \<noteq> 37 \<Longrightarrow> decodeURIComponent (c # s) = bindE (decodeURIComponent s) (\<lambda>r. Inr (c # r))"
  by (subst decodeURIComponent.simps) simp

lemma pct_byte_pct [simp]: "b < 256 \<Longrightarrow> pct_byte (pct b @ s) = Some (b, s)"
  by (simp add: pct_def less_mult_imp_div_less)

lemma decode_percent:
  "b < 128 \<Longrightarrow> decodeURIComponent (pct b @ s) = bindE (decodeURIComponent s) (\<lambda>r. Inr (b # r))"
  using pct_byte_pct [of b s]
  by (subst decodeURIComponent.simps) (simp add: pct_def)

lemma pct_conts_pct:
  "b div 64 = 2 \<Longrightarrow> pct_conts (Suc n) (pct b @ s) =
     (case pct_conts n s of None \<Rightarrow> None | Some (bs, s'') \<Rightarrow> Some (b mod 64 # bs, s''))"
  by (simp add: less_mult_imp_div_less [of b 4 64, simplified] div_less_iff_less_mult)

lemma decode_multi:
  assumes "128 \<le> b" "b < 256" "utf8_lead b = Some (n, bits)" "pct_conts n s = Some (bs, s2)"
    "utf8_valid n (foldl (\<lambda>a x. 64 * a + x) bits bs)"
  shows "decodeURIComponent (pct b @ s) =
    bindE (decodeURIComponent s2) (\<lambda>r. Inr (utf16 (foldl (\<lambda>a x. 64 * a + x) bits bs) @ r))"
  using pct_byte_pct [OF assms(2), of s] assms
  by (subst decodeURIComponent.simps) (simp add: pct_def)

lemma base64_digits:
  fixes c :: nat
  shows "64 * (c div 64) + c mod 64 = c"
    and "64 * (64 * (c div 4096) + c div 64 mod 64) + c mod 64 = c"
proof -
  show one: "64 * (c div 64) + c mod 64 = c" for c :: nat by simp
  have "c div 4096 = c div 64 div 64" by (simp add: div_mult2_eq [of c 64 64, simplified])
  then show "64 * (64 * (c div 4096) + c div 64 mod 64) + c mod 64 = c"
    using one [of "c div 64"] one [of c] by simp
qed

lemma cont_byte: "(128 + n mod 64) div 64 = (2::nat)" "(128 + n mod 64) mod 64 = (n mod 64 :: nat)"
  by (simp_all add: div_add1_eq mod_add_eq [symmetric])

lemma decode_two_bytes:
  assumes "128 \<le> c" "c < 2048"
  shows "decodeURIComponent (pct (192 + c div 64) @ pct (128 + c mod 64) @ s) =
    bindE (decodeURIComponent s) (\<lambda>r. Inr (c # r))"
proof -
  let ?b = "192 + c div 64" and ?d = "128 + c mod 64"
  have b: "utf8_lead ?b = Some (1, c div 64)" "128 \<le> ?b" "?b < 256"
    using assms by (auto simp: utf8_lead_def)
  have conts: "pct_conts 1 (pct ?d @ s) = Some ([c mod 64], s)"
    using pct_conts_pct [OF cont_byte(1), of 0 c s] by (simp add: cont_byte)
  have cp: "foldl (\<lambda>a x. 64 * a + x) (c div 64) [c mod 64] = c" by (simp add: base64_digits)
  have v: "utf8_valid 1 c" "utf16 c = [c]" using assms by (simp_all add: utf8_valid_def utf16_def)
  show ?thesis
    using decode_multi [OF b(2,3,1) conts, unfolded cp v(2), OF v(1)] by simp
qed

lemma decode_three_bytes:
  assumes "2048 \<le> c" "c < 65536" "\<not> is_surrogate c"
  shows "decodeURIComponent (pct (224 + c div 4096) @ pct (128 + c div 64 mod 64) @ pct (128 + c mod 64) @ s) =
    bindE (decodeURIComponent s) (\<lambda>r. Inr (c # r))"
proof -
  let ?b = "224 + c div 4096" and ?d = "128 + c div 64 mod 64" and ?e = "128 + c mod 64"
  have b: "utf8_lead ?b = Some (2, c div 4096)" "128 \<le> ?b" "?b < 256"
    using assms by (auto simp: utf8_lead_def)
  have c1: "pct_conts (Suc 0) (pct ?e @ s) = Some ([c mod 64], s)"
    using pct_conts_pct [OF cont_byte(1), of 0 c s] by (simp add: cont_byte)
  have conts: "pct_conts 2 (pct ?d @ pct ?e @ s) = Some ([c div 64 mod 64, c mod 64], s)"
    using pct_conts_pct [OF cont_byte(1), of "Suc 0" "c div 64" "pct ?e @ s"]
    unfolding c1 cont_byte numeral_2_eq_2 by simp
  have cp: "foldl (\<lambda>a x. 64 * a + x) (c div 4096) [c div 64 mod 64, c mod 64] = c"
    by (simp only: foldl.simps base64_digits)
  have v: "utf8_valid 2 c" "utf16 c = [c]" using assms by (simp_all add: utf8_valid_def utf16_def)
  show ?thesis
    using decode_multi [OF b(2,3,1) conts, unfolded cp v(2), OF v(1)] by simp
qed

text \<open>One code unit of the basic plane survives encoding and decoding.\<close>

lemma decode_encoded_unit:
  assumes "c < 65536" "\<not> is_surrogate c"
  shows "decodeURIComponent (concat (map pct (utf8_cp c)) @ s) = bindE (decodeURIComponent s) (\<lambda>r. Inr (c # r))"
  using assms decode_two_bytes [of c s] decode_three_bytes [of c s]
  by (auto simp: utf8_cp_def decode_percent)

lemma utf8_cp_bound: "c < 1114112 \<Longrightarrow> b \<in> set (utf8_cp c) \<Longrightarrow> b < 256"
  by (auto simp: utf8_cp_def less_mult_imp_div_less split: if_splits)

lemma hex_char_class: "n < 16 \<Longrightarrow> is_digit (hex_char n) \<or> is_upper (hex_char n)"
  by (auto simp: hex_char_def is_digit_def is_upper_def)

lemma pct_chars: "b < 256 \<Longrightarrow> x \<in> set (pct b) \<Longrightarrow> x = 37 \<or> is_digit x \<or> is_upper x"
  using hex_char_class [of "b div 16"] hex_char_class [of "b mod 16"]
  by (auto simp: pct_def)

end
