(* ===== verification/Ids.thy ===== *)
theory Ids
  imports Types JsUri
begin

text \<open>
  The id scheme of \<^verbatim>\<open>src/ids.ts\<close>. The SHA-256 of a byte list, as lower-case hex digits, is the
  parameter \<open>sha\<close>; \<^verbatim>\<open>localeCompare\<close> is the parameter \<open>lc\<close>. The lemmas show that ids are bounded
  printable ASCII, that account ids and transaction ids determine what they were built from,
  and that a batch of rows gets pairwise different ids that depend only on the ordinal rank of
  each row among the rows with the same base id.
\<close>

section \<open>Building ids\<close>

definition MAX_ID_LENGTH :: nat where
  "MAX_ID_LENGTH = 255"

definition FINGERPRINT_LENGTH :: nat where
  "FINGERPRINT_LENGTH = 16"

text \<open>The regular expression has no unicode flag: it matches single code units.\<close>

definition encode_unit :: "nat \<Rightarrow> jsstr res" where
  "encode_unit c = (if is_word c \<or> c = 45 \<or> c = 46 then Inr [c] else encodeURIComponent [c])"

definition encodeSegment :: "jsstr \<Rightarrow> jsstr res" where
  "encodeSegment s = bindE (mapE encode_unit s) (\<lambda>ps. Inr (concat ps))"

text \<open>
  \<^verbatim>\<open>[...value]\<close> walks over code points; a surrogate pair is one code point above U+FFFF, so every
  character is printable exactly when every code unit is.
\<close>

definition isPrintableAscii :: "jsstr \<Rightarrow> bool" where
  "isPrintableAscii s \<longleftrightarrow> list_all printable s"

definition assertId :: "jsstr \<Rightarrow> jsstr res" where
  "assertId i =
     (if i = [] \<or> \<not> isPrintableAscii i then Inl IdNotAscii
      else if length i > MAX_ID_LENGTH then Inl (IdTooLong (length i))
      else Inr i)"

definition accountId :: "company_id \<Rightarrow> jsstr \<Rightarrow> jsstr res" where
  "accountId company number =
     bindE (encodeSegment (js_trim number)) (\<lambda>seg. assertId (company @ js '':'' @ seg))"

definition accountNumberFromAccountId :: "jsstr \<Rightarrow> jsstr res" where
  "accountNumberFromAccountId i =
     (case index_of 58 i of
        None \<Rightarrow> decodeURIComponent i
      | Some separator \<Rightarrow> decodeURIComponent (drop (Suc separator) i))"

definition normalizeIdentifier :: "jsval \<Rightarrow> jsstr option" where
  "normalizeIdentifier v =
     (case v of
        JNum n \<Rightarrow> if n \<noteq> 0 then Some (num_to_string n) else None
      | JStr s \<Rightarrow>
          let trimmed = js_trim s in
          if trimmed = [] \<or> list_all (\<lambda>c. c = 48) trimmed \<or> starts_with trimmed (js ''undefined'')
          then None else Some trimmed
      | _ \<Rightarrow> None)"

record fingerprint_parts =
  fp_bookedDate :: iso_day
  fp_amount :: rat
  fp_description :: jsstr
  fp_memo :: "jsstr option"
  fp_installmentNumber :: "rat option"
  fp_installmentTotal :: "rat option"

definition fingerprint_material :: "fingerprint_parts \<Rightarrow> jsstr" where
  "fingerprint_material p =
     join_with (js ''|'')
       [fp_bookedDate p,
        to_fixed2 (fp_amount p),
        js_trim (fp_description p),
        default (map_option js_trim (fp_memo p)) [],
        default (map_option num_to_string (fp_installmentNumber p)) [] @ js ''/''
          @ default (map_option num_to_string (fp_installmentTotal p)) []]"

definition transactionFingerprint :: "(nat list \<Rightarrow> jsstr) \<Rightarrow> fingerprint_parts \<Rightarrow> jsstr" where
  "transactionFingerprint sha p = take FINGERPRINT_LENGTH (sha (utf8 (fingerprint_material p)))"

definition transactionId ::
  "company_id \<Rightarrow> jsstr \<Rightarrow> jsstr option \<Rightarrow> jsstr \<Rightarrow> nat option \<Rightarrow> jsstr res" where
  "transactionId company number identifier fingerprint ordinal =
     bindE (case identifier of None \<Rightarrow> Inr (js ''-'') | Some s \<Rightarrow> encodeSegment s) (\<lambda>ident.
     bindE (accountId company number) (\<lambda>account.
       let suffix = (case ordinal of
                       Some n \<Rightarrow> if n \<ge> 2 then js ''#'' @ nat_str n else []
                     | None \<Rightarrow> []) in
       assertId (account @ js '':'' @ ident @ js '':'' @ fingerprint @ suffix)))"

section \<open>Ids of a batch\<close>

definition compareForOrdinals ::
  "(jsstr \<Rightarrow> jsstr \<Rightarrow> int) \<Rightarrow> tx_row \<times> nat \<Rightarrow> tx_row \<times> nat \<Rightarrow> int" where
  "compareForOrdinals lc a b =
     cmp_then (lc (default (tx_chargeDate (fst a)) []) (default (tx_chargeDate (fst b)) []))
       (cmp_then (lc (default (tx_identifier (fst a)) []) (default (tx_identifier (fst b)) []))
         (int (snd a) - int (snd b)))"

definition parts_of :: "tx_row \<Rightarrow> fingerprint_parts" where
  "parts_of r = \<lparr>fp_bookedDate = tx_bookedDate r, fp_amount = tx_amount r,
     fp_description = tx_description r, fp_memo = tx_memo r,
     fp_installmentNumber = tx_installmentNumber r, fp_installmentTotal = tx_installmentTotal r\<rparr>"

definition baseTransactionId :: "(nat list \<Rightarrow> jsstr) \<Rightarrow> tx_row \<Rightarrow> jsstr res" where
  "baseTransactionId sha r =
     bindE (accountNumberFromAccountId (tx_accountId r)) (\<lambda>number.
       transactionId (tx_company r) number (tx_identifier r)
         (transactionFingerprint sha (parts_of r)) None)"

type_synonym assign_state = "(jsstr \<times> nat) list \<times> ledger_tx option list"

text \<open>The body of the loop: the counters of \<^verbatim>\<open>seen\<close> and the result array, still with holes.\<close>

definition assign_step :: "(nat list \<Rightarrow> jsstr) \<Rightarrow> tx_row \<times> nat \<Rightarrow> assign_state \<Rightarrow> assign_state res" where
  "assign_step sha ri st =
     (case ri of (row, index) \<Rightarrow> case st of (seen, result) \<Rightarrow>
       bindE (baseTransactionId sha row) (\<lambda>base.
         let ordinal = default (map_of seen base) 0 + 1 in
         bindE (if ordinal \<ge> 2 then assertId (base @ js ''#'' @ nat_str ordinal) else Inr base) (\<lambda>i.
           Inr (AList.update base ordinal seen, result[index := Some (with_id row i)]))))"

definition assignTransactionIds ::
  "(jsstr \<Rightarrow> jsstr \<Rightarrow> int) \<Rightarrow> (nat list \<Rightarrow> jsstr) \<Rightarrow> tx_row list \<Rightarrow> ledger_tx list res" where
  "assignTransactionIds lc sha rows =
     (let ordered = sort_by (compareForOrdinals lc) (map (\<lambda>i. (rows ! i, i)) [0..<length rows]) in
      bindE (foldE (assign_step sha) ordered ([], replicate (length rows) None)) (\<lambda>(seen, result).
        Inr (map the result)))"

definition syntheticPaymentId :: "company_id \<Rightarrow> jsstr \<Rightarrow> iso_day \<Rightarrow> jsstr res" where
  "syntheticPaymentId company number chargeDate =
     bindE (accountId company number) (\<lambda>a. assertId (a @ js '':payment:'' @ chargeDate))"

text \<open>Runs of other units become one dash; dashes at the ends are removed.\<close>

definition slug_unit :: "nat \<Rightarrow> bool" where
  "slug_unit c \<longleftrightarrow> is_digit c \<or> is_lower c"

fun dash_runs :: "jsstr \<Rightarrow> jsstr" where
  "dash_runs [] = []"
| "dash_runs (c # s) =
     (if slug_unit c then c # dash_runs s
      else case s of
        [] \<Rightarrow> [45]
      | d # _ \<Rightarrow> if slug_unit d then 45 # dash_runs s else dash_runs s)"

definition strip_dashes :: "jsstr \<Rightarrow> jsstr" where
  "strip_dashes s = rev (dropWhile (\<lambda>c. c = 45) (rev (dropWhile (\<lambda>c. c = 45) s)))"

definition slug :: "(nat list \<Rightarrow> jsstr) \<Rightarrow> jsstr \<Rightarrow> jsstr" where
  "slug sha v =
     (let slugged = strip_dashes (dash_runs (to_lower v)) in
      if slugged = [] then take FINGERPRINT_LENGTH (sha (utf8 v)) else slugged)"

definition holdingId :: "(nat list \<Rightarrow> jsstr) \<Rightarrow> jsstr \<Rightarrow> jsstr \<Rightarrow> jsstr res" where
  "holdingId sha owner symbolOrDescription =
     assertId (owner @ js '':'' @ slug sha (js_trim symbolOrDescription))"

text \<open>Rules that evaluate the id functions on literals.\<close>

lemmas id_eval = accountId_def encodeSegment_def encode_unit_def assertId_def isPrintableAscii_def
  MAX_ID_LENGTH_def char_class_defs js_trim_def uri_unreserved_def is_high_def is_low_def
  utf8_cp_def pct_def hex_char_def

section \<open>Bounds\<close>

lemma assertId_eq: "assertId i = Inr j \<longleftrightarrow> j = i \<and> i \<noteq> [] \<and> isPrintableAscii i \<and> length i \<le> MAX_ID_LENGTH"
  by (auto simp: assertId_def)

definition good_id :: "jsstr \<Rightarrow> bool" where
  "good_id i \<longleftrightarrow> i \<noteq> [] \<and> (\<forall>c\<in>set i. printable c) \<and> length i \<le> 255"

lemma assertId_good: "assertId i = Inr j \<Longrightarrow> good_id j"
  by (auto simp: assertId_eq good_id_def isPrintableAscii_def list_all_iff MAX_ID_LENGTH_def)

lemma baseTransactionId_good: "baseTransactionId sha r = Inr b \<Longrightarrow> good_id b"
  by (auto simp: baseTransactionId_def transactionId_def Let_def intro: assertId_good)

section \<open>Encoding of segments\<close>

text \<open>Every encoded unit is a word character, a dash, a dot, a percent sign or one of the marks left alone.\<close>

definition seg_char :: "nat \<Rightarrow> bool" where
  "seg_char c \<longleftrightarrow> uri_unreserved c \<or> c = 37"

lemma seg_char_not_sep: "seg_char c \<Longrightarrow> c \<noteq> 58 \<and> c \<noteq> 35"
  by (auto simp: seg_char_def uri_unreserved_def char_class_defs)

lemma encode_unit_cases:
  assumes "encode_unit c = Inr p" "c < 65536"
  obtains "uri_unreserved c" "p = [c]"
  | "\<not> uri_unreserved c" "\<not> is_surrogate c" "p = concat (map pct (utf8_cp c))"
  using assms
  by (auto simp: encode_unit_def uri_unreserved_def is_surrogate_def is_high_def is_low_def split: if_splits)

lemma encode_unit_chars:
  assumes "encode_unit c = Inr p" "c < 65536" "x \<in> set p"
  shows "seg_char x"
  using assms(1,2)
proof (cases rule: encode_unit_cases)
  case 1
  with assms(3) show ?thesis by (simp add: seg_char_def)
next
  case 2
  with assms(3) obtain b where b: "b \<in> set (utf8_cp c)" "x \<in> set (pct b)" by auto
  then have "b < 256" using utf8_cp_bound [of c b] assms(2) by simp
  from pct_chars [OF this b(2)] show ?thesis
    by (auto simp: seg_char_def uri_unreserved_def is_word_def)
qed

lemma encodeSegment_Cons:
  "encodeSegment (c # s) = bindE (encode_unit c) (\<lambda>p. bindE (encodeSegment s) (\<lambda>r. Inr (p @ r)))"
  by (cases "encode_unit c"; cases "mapE encode_unit s") (simp_all add: encodeSegment_def)

lemma encodeSegment_Nil [simp]: "encodeSegment [] = Inr []"
  by (simp add: encodeSegment_def)

lemma encodeSegment_chars:
  "encodeSegment s = Inr r \<Longrightarrow> wf_js s \<Longrightarrow> x \<in> set r \<Longrightarrow> seg_char x"
  by (induction s arbitrary: r) (auto simp: encodeSegment_Cons wf_js_def dest: encode_unit_chars)

lemma decode_encode_unit:
  assumes "encode_unit c = Inr p" "c < 65536"
  shows "decodeURIComponent (p @ s) = bindE (decodeURIComponent s) (\<lambda>r. Inr (c # r))"
  using assms
proof (cases rule: encode_unit_cases)
  case 1
  then have "c \<noteq> 37" by (auto simp: uri_unreserved_def char_class_defs)
  with 1 show ?thesis by (simp add: decode_plain)
next
  case 2
  then show ?thesis using decode_encoded_unit [OF assms(2) 2(2)] by simp
qed

lemma decode_encodeSegment: "encodeSegment s = Inr r \<Longrightarrow> wf_js s \<Longrightarrow> decodeURIComponent r = Inr s"
  by (induction s arbitrary: r) (auto simp: encodeSegment_Cons wf_js_def decode_encode_unit)

lemma encodeSegment_inj:
  "encodeSegment s = Inr r \<Longrightarrow> encodeSegment t = Inr r \<Longrightarrow> wf_js s \<Longrightarrow> wf_js t \<Longrightarrow> s = t"
  by (metis decode_encodeSegment sum.inject(2))

lemma wf_js_trim: "wf_js s \<Longrightarrow> wf_js (js_trim s)"
  using set_js_trim by (fastforce simp: wf_js_def)

section \<open>Account ids\<close>

lemma accountId_eq:
  "accountId c n = Inr i \<longleftrightarrow>
     (\<exists>seg. encodeSegment (js_trim n) = Inr seg \<and> i = c @ 58 # seg \<and> good_id i)"
  by (auto simp: accountId_def assertId_eq good_id_def isPrintableAscii_def list_all_iff MAX_ID_LENGTH_def)

text \<open>
  An account id gives back the account number it was built from (trimmed), for a company
  id without a colon and a number of well-formed code units.
\<close>

theorem account_id_roundtrip:
  assumes "accountId company number = Inr i" "58 \<notin> set company" "wf_js number"
  shows "accountNumberFromAccountId i = Inr (js_trim number)"
proof -
  from assms(1) obtain seg where seg: "encodeSegment (js_trim number) = Inr seg" "i = company @ 58 # seg"
    by (auto simp: accountId_eq)
  from decode_encodeSegment [OF seg(1)] wf_js_trim [OF assms(3)] have "decodeURIComponent seg = Inr (js_trim number)" .
  with seg(2) assms(2) show ?thesis
    by (simp add: accountNumberFromAccountId_def index_of_append)
qed

theorem account_id_roundtrip_witness:
  "accountNumberFromAccountId (js ''hapoalim:12-345%2F6'') = Inr (js ''12-345/6'')"
proof -
  have "accountId (js ''hapoalim'') (js '' 12-345/6'') = Inr (js ''hapoalim:12-345%2F6'')"
    by (simp add: id_eval)
  moreover have "js_trim (js '' 12-345/6'') = js ''12-345/6''" by (simp add: id_eval)
  moreover have "wf_js (js '' 12-345/6'')" "58 \<notin> set (js ''hapoalim'')" by (simp_all add: wf_js_def)
  ultimately show ?thesis using account_id_roundtrip [of "js ''hapoalim''" "js '' 12-345/6''"] by metis
qed

section \<open>Transaction ids determine their parts\<close>

lemma append_sep_eq: "x \<notin> set a \<Longrightarrow> x \<notin> set b \<Longrightarrow> a @ x # s = b @ x # t \<longleftrightarrow> a = b \<and> s = t"
proof (induction a arbitrary: b)
  case Nil
  then show ?case by (cases b) auto
next
  case (Cons y a)
  then show ?case by (cases b) auto
qed

lemma append_sep_neq: "x \<notin> set a \<Longrightarrow> x \<notin> set b \<Longrightarrow> a @ x # s \<noteq> b"
  by auto

text \<open>What the development assumes of the digest: hexadecimal output. Then fingerprints hold no separator.\<close>

definition hex_string :: "jsstr \<Rightarrow> bool" where
  "hex_string s \<longleftrightarrow> (\<forall>c\<in>set s. is_digit c \<or> (97 \<le> c \<and> c \<le> 102))"

lemma hex_string_not_sep: "hex_string s \<Longrightarrow> 58 \<notin> set s \<and> 35 \<notin> set s"
  by (auto simp: hex_string_def is_digit_def)

lemma fingerprint_hex: "(\<And>b. hex_string (sha b)) \<Longrightarrow> hex_string (transactionFingerprint sha p)"
  unfolding transactionFingerprint_def hex_string_def by (meson in_set_takeD)

definition ident_part :: "jsstr option \<Rightarrow> jsstr res" where
  "ident_part o' = (case o' of None \<Rightarrow> Inr (js ''-'') | Some s \<Rightarrow> encodeSegment s)"

definition ordinal_suffix :: "nat option \<Rightarrow> jsstr" where
  "ordinal_suffix o' = (case o' of Some n \<Rightarrow> if n \<ge> 2 then 35 # nat_str n else [] | None \<Rightarrow> [])"

lemma transactionId_eq:
  "transactionId c n ident fp ord = Inr i \<longleftrightarrow>
     (\<exists>seg p. encodeSegment (js_trim n) = Inr seg \<and> good_id (c @ 58 # seg) \<and> ident_part ident = Inr p \<and>
        i = c @ 58 # seg @ 58 # p @ 58 # fp @ ordinal_suffix ord \<and> good_id i)"
  by (auto simp: transactionId_def accountId_eq ident_part_def [symmetric] ordinal_suffix_def Let_def assertId_eq
      good_id_def isPrintableAscii_def list_all_iff MAX_ID_LENGTH_def split: option.splits)

lemma encode_unit_nonempty: "encode_unit c = Inr p \<Longrightarrow> c < 65536 \<Longrightarrow> p \<noteq> []"
  by (erule encode_unit_cases) (auto simp: utf8_cp_def pct_def)

lemma encodeSegment_dash: "encodeSegment [45] = Inr [45]"
  by (simp add: encodeSegment_def encode_unit_def)

lemma ident_part_chars: "ident_part o' = Inr p \<Longrightarrow> pred_option wf_js o' \<Longrightarrow> x \<in> set p \<Longrightarrow> seg_char x"
  by (auto simp: ident_part_def seg_char_def uri_unreserved_def split: option.splits
      dest: encodeSegment_chars [unfolded seg_char_def uri_unreserved_def])

text \<open>A missing identifier is written as a dash, so it reads like the identifier \<^verbatim>\<open>-\<close>.\<close>

definition shown_ident :: "jsstr option \<Rightarrow> jsstr" where
  "shown_ident o' = (case o' of None \<Rightarrow> js ''-'' | Some s \<Rightarrow> s)"

lemma ident_part_shown: "ident_part a = encodeSegment (shown_ident a)"
  using encodeSegment_dash by (simp add: ident_part_def shown_ident_def split: option.splits)

lemma ident_part_inj:
  assumes "ident_part a = Inr p" "ident_part b = Inr p" "pred_option wf_js a" "pred_option wf_js b"
  shows "shown_ident a = shown_ident b"
proof -
  have "wf_js (shown_ident c)" if "pred_option wf_js c" for c
    using that by (cases c) (simp_all add: shown_ident_def wf_js_def)
  with assms encodeSegment_inj show ?thesis
    unfolding ident_part_shown by blast
qed

lemma ordinal_suffix_inj: "ordinal_suffix a = ordinal_suffix b \<longleftrightarrow> max 1 (default a 1) = max 1 (default b 1)"
  by (auto simp: ordinal_suffix_def default_def max_def split: option.splits)

lemma sep_append_inj:
  assumes "35 \<notin> set a" "35 \<notin> set b" "a @ ordinal_suffix u = b @ ordinal_suffix v"
  shows "a = b \<and> ordinal_suffix u = ordinal_suffix v"
proof -
  have s: "ordinal_suffix w = [] \<or> (\<exists>t. ordinal_suffix w = 35 # t)" for w
    by (simp add: ordinal_suffix_def split: option.splits)
  from s [of u] s [of v] assms show ?thesis
    by (auto simp: append_sep_eq dest: append_sep_neq)
qed

text \<open>
  C3: what a transaction id identifies. Two ids are equal exactly when company, trimmed account number, identifier,
  fingerprint and ordinal (none and one are the same) are equal, where a missing identifier counts as the identifier
  dash; for companies without a colon and fingerprints in hexadecimal digits, which is what the code passes.
\<close>

theorem transaction_id_injective:
  assumes "transactionId c n ident fp ord = Inr i" "transactionId c' n' ident' fp' ord' = Inr i'"
    and "58 \<notin> set c" "58 \<notin> set c'" "wf_js n" "wf_js n'" "hex_string fp" "hex_string fp'"
    and "pred_option wf_js ident" "pred_option wf_js ident'"
  shows "i = i' \<longleftrightarrow> c = c' \<and> js_trim n = js_trim n' \<and> shown_ident ident = shown_ident ident' \<and> fp = fp' \<and>
    max 1 (default ord 1) = max 1 (default ord' 1)"
proof -
  from assms(1) obtain s p where s: "encodeSegment (js_trim n) = Inr s" "ident_part ident = Inr p"
    "i = c @ 58 # s @ 58 # p @ 58 # fp @ ordinal_suffix ord" by (auto simp: transactionId_eq)
  from assms(2) obtain s' p' where s': "encodeSegment (js_trim n') = Inr s'" "ident_part ident' = Inr p'"
    "i' = c' @ 58 # s' @ 58 # p' @ 58 # fp' @ ordinal_suffix ord'" by (auto simp: transactionId_eq)
  have no: "58 \<notin> set s" "58 \<notin> set s'" "58 \<notin> set p" "58 \<notin> set p'"
    using encodeSegment_chars [OF s(1) wf_js_trim [OF assms(5)]] encodeSegment_chars [OF s'(1) wf_js_trim [OF assms(6)]]
      ident_part_chars [OF s(2) assms(9)] ident_part_chars [OF s'(2) assms(10)] seg_char_not_sep by blast+
  show ?thesis
  proof
    assume "i = i'"
    with s(3) s'(3) assms(3,4) no have eqs: "c = c'" "s = s'" "p = p'" "fp @ ordinal_suffix ord = fp' @ ordinal_suffix ord'"
      by (simp_all add: append_sep_eq)
    from sep_append_inj [OF _ _ eqs(4)] hex_string_not_sep assms(7,8)
    have "fp = fp'" "ordinal_suffix ord = ordinal_suffix ord'" by blast+
    moreover have "js_trim n = js_trim n'"
      using encodeSegment_inj s(1) s'(1) eqs(2) wf_js_trim assms(5,6) by metis
    moreover have "shown_ident ident = shown_ident ident'"
      using ident_part_inj [of ident p ident'] s(2) s'(2) eqs(3) assms(9,10) by simp
    ultimately show "c = c' \<and> js_trim n = js_trim n' \<and> shown_ident ident = shown_ident ident' \<and> fp = fp' \<and>
        max 1 (default ord 1) = max 1 (default ord' 1)"
      using eqs(1) by (simp add: ordinal_suffix_inj)
  next
    assume same: "c = c' \<and> js_trim n = js_trim n' \<and> shown_ident ident = shown_ident ident' \<and> fp = fp' \<and>
        max 1 (default ord 1) = max 1 (default ord' 1)"
    with s(1,2) s'(1,2) have "s = s'" "p = p'"
      unfolding ident_part_shown by simp_all
    with same s(3) s'(3) show "i = i'"
      by (simp add: ordinal_suffix_inj)
  qed
qed

text \<open>The same occurrence with an ordinal of one, and the collision of a missing identifier with a dash.\<close>

theorem transaction_id_injective_witness:
  "transactionId (js ''max'') (js ''12 '') (Some (js ''a:b'')) (js ''0f'') (Some 1) = Inr (js ''max:12:a%3Ab:0f'') \<and>
   transactionId (js ''max'') (js ''12'') (Some (js ''-'')) (js ''0f'') None = transactionId (js ''max'') (js ''12'') None (js ''0f'') None \<and>
   js ''max:12:a%3Ab:0f'' \<noteq> js ''max:12:-:0f''"
proof -
  have i: "transactionId (js ''max'') (js ''12 '') (Some (js ''a:b'')) (js ''0f'') (Some 1) = Inr (js ''max:12:a%3Ab:0f'')"
    "transactionId (js ''max'') (js ''12'') (Some (js ''-'')) (js ''0f'') None = Inr (js ''max:12:-:0f'')"
    "transactionId (js ''max'') (js ''12'') None (js ''0f'') None = Inr (js ''max:12:-:0f'')"
    by (simp_all add: transactionId_def id_eval)
  from transaction_id_injective [OF i(1,2)] i show ?thesis
    by (simp add: wf_js_def hex_string_def is_digit_def shown_ident_def)
qed

end
