(* ===== verification/IdBatch.thy ===== *)
theory IdBatch
  imports Ids
begin

text \<open>
  \<^verbatim>\<open>assignTransactionIds\<close> of \<^verbatim>\<open>src/ids.ts\<close>: the loop invariant, and from it the closed form of the
  assigned ids. The id of a row is its base id with the rank of the row among the rows of the
  same base id, ranked by charge date, identifier and the scraper's own order.
\<close>

definition ordinal_id :: "jsstr \<Rightarrow> nat \<Rightarrow> jsstr" where
  "ordinal_id b k = (if k \<ge> 2 then b @ 35 # nat_str k else b)"

definition same_base :: "(nat list \<Rightarrow> jsstr) \<Rightarrow> jsstr \<Rightarrow> tx_row \<times> nat \<Rightarrow> bool" where
  "same_base sha b ri \<longleftrightarrow> baseTransactionId sha (fst ri) = Inr b"

definition base_count :: "(nat list \<Rightarrow> jsstr) \<Rightarrow> jsstr \<Rightarrow> (tx_row \<times> nat) list \<Rightarrow> nat" where
  "base_count sha b xs = length (filter (same_base sha b) xs)"

lemma base_count_simps [simp]:
  "base_count sha b [] = 0"
  "base_count sha b (xs @ [x]) = base_count sha b xs + (if same_base sha b x then 1 else 0)"
  by (simp_all add: base_count_def)

lemma ordinal_id_inj:
  assumes "35 \<notin> set b" "35 \<notin> set b'" "ordinal_id b k = ordinal_id b' k'"
  shows "b = b' \<and> max 1 k = max 1 k'"
proof -
  have eq: "ordinal_id b k = b @ ordinal_suffix (Some k)" for b k
    by (simp add: ordinal_id_def ordinal_suffix_def)
  from sep_append_inj [OF assms(1,2) assms(3) [unfolded eq]] show ?thesis
    by (simp add: ordinal_suffix_inj)
qed

lemma filter_take_less:
  assumes "k < l" "l \<le> length xs" "P (xs ! k)"
  shows "length (filter P (take k xs)) < length (filter P (take l xs))"
proof -
  have "take l xs = take k (take l xs) @ take l xs ! k # drop (Suc k) (take l xs)"
    using assms by (intro id_take_nth_drop) simp
  with assms(1) have "take l xs = take k xs @ xs ! k # drop (Suc k) (take l xs)"
    by (simp add: min_def)
  then have "length (filter P (take l xs)) = length (filter P (take k xs @ xs ! k # drop (Suc k) (take l xs)))"
    by (rule arg_cong)
  with assms(3) show ?thesis by simp
qed

section \<open>The loop invariant\<close>

definition assign_inv :: "(nat list \<Rightarrow> jsstr) \<Rightarrow> nat \<Rightarrow> (tx_row \<times> nat) list \<Rightarrow> assign_state \<Rightarrow> bool" where
  "assign_inv sha n xs st \<longleftrightarrow>
     (\<forall>b. default (map_of (fst st) b) 0 = base_count sha b xs) \<and>
     length (snd st) = n \<and>
     (\<forall>k<length xs. \<exists>b. same_base sha b (xs ! k) \<and>
        good_id (ordinal_id b (Suc (base_count sha b (take k xs)))) \<and>
        snd st ! snd (xs ! k) =
          Some (with_id (fst (xs ! k)) (ordinal_id b (Suc (base_count sha b (take k xs))))))"

lemma assign_step_eq:
  "assign_step sha (r, i) (seen, result) = Inr st \<longleftrightarrow>
     (\<exists>b. baseTransactionId sha r = Inr b \<and>
        (let k = Suc (default (map_of seen b) 0) in
         good_id (ordinal_id b k) \<and>
         st = (AList.update b k seen, result[i := Some (with_id r (ordinal_id b k))])))"
  by (auto simp: assign_step_def Let_def ordinal_id_def assertId_eq good_id_def isPrintableAscii_def
      list_all_iff MAX_ID_LENGTH_def dest: baseTransactionId_good [unfolded good_id_def])

lemma assign_inv_step:
  assumes inv: "assign_inv sha n xs (seen, result)"
    and new: "i < n" "i \<notin> snd ` set xs"
    and step: "assign_step sha (r, i) (seen, result) = Inr st"
  shows "assign_inv sha n (xs @ [(r, i)]) st"
proof -
  from step obtain b where b: "baseTransactionId sha r = Inr b"
    "good_id (ordinal_id b (Suc (default (map_of seen b) 0)))"
    "st = (AList.update b (Suc (default (map_of seen b) 0)) seen,
       result[i := Some (with_id r (ordinal_id b (Suc (default (map_of seen b) 0))))])"
    by (auto simp: assign_step_eq Let_def)
  let ?c = "\<lambda>b. base_count sha b xs"
  have cnt: "default (map_of seen b') 0 = ?c b'" for b' using inv by (simp add: assign_inv_def)
  have res: "length result = n" using inv by (simp add: assign_inv_def)
  show ?thesis
    unfolding assign_inv_def
  proof (intro conjI allI impI)
    fix b'
    show "default (map_of (fst st) b') 0 = base_count sha b' (xs @ [(r, i)])"
      using b cnt by (simp add: same_base_def)
    show "length (snd st) = n" using b(3) res by simp
  next
    fix k assume k: "k < length (xs @ [(r, i)])"
    show "\<exists>b. same_base sha b ((xs @ [(r, i)]) ! k) \<and>
        good_id (ordinal_id b (Suc (base_count sha b (take k (xs @ [(r, i)]))))) \<and>
        snd st ! snd ((xs @ [(r, i)]) ! k) =
          Some (with_id (fst ((xs @ [(r, i)]) ! k)) (ordinal_id b (Suc (base_count sha b (take k (xs @ [(r, i)]))))))"
    proof (cases "k < length xs")
      case True
      with inv obtain b' where b': "same_base sha b' (xs ! k)"
        "good_id (ordinal_id b' (Suc (base_count sha b' (take k xs))))"
        "result ! snd (xs ! k) = Some (with_id (fst (xs ! k)) (ordinal_id b' (Suc (base_count sha b' (take k xs)))))"
        by (auto simp: assign_inv_def)
      from True new(2) have "snd (xs ! k) \<noteq> i" by (metis imageI nth_mem)
      with b' b(3) True show ?thesis by (intro exI [of _ b']) (simp add: nth_append)
    next
      case False
      with k have "k = length xs" by simp
      with b cnt res new(1) show ?thesis
        by (intro exI [of _ b]) (simp add: same_base_def)
    qed
  qed
qed

lemma assign_inv_fold:
  assumes "foldE (assign_step sha) ys st = Inr st'" "assign_inv sha n xs st"
    and "distinct (map snd (xs @ ys))" "snd ` set ys \<subseteq> {..<n}"
  shows "assign_inv sha n (xs @ ys) st'"
  using assms
proof (induction ys arbitrary: xs st)
  case Nil
  then show ?case by simp
next
  case (Cons y ys)
  obtain r i where y: "y = (r, i)" by fastforce
  obtain seen result where st: "st = (seen, result)" by fastforce
  from Cons.prems(1) obtain st1 where st1: "assign_step sha y st = Inr st1" "foldE (assign_step sha) ys st1 = Inr st'"
    by auto
  have "assign_inv sha n (xs @ [y]) st1"
    using Cons.prems st1(1) unfolding y st by (intro assign_inv_step [of sha n xs seen result i r]) auto
  from Cons.IH [OF st1(2) this] Cons.prems(3,4) show ?case by simp
qed

text \<open>The rows in the order in which the loop visits them.\<close>

definition ordered_rows :: "(jsstr \<Rightarrow> jsstr \<Rightarrow> int) \<Rightarrow> tx_row list \<Rightarrow> (tx_row \<times> nat) list" where
  "ordered_rows lc rows = sort_by (compareForOrdinals lc) (map (\<lambda>i. (rows ! i, i)) [0..<length rows])"

lemma set_ordered: "set (ordered_rows lc rows) = (\<lambda>i. (rows ! i, i)) ` {..<length rows}"
  by (auto simp: ordered_rows_def)

lemma length_ordered [simp]: "length (ordered_rows lc rows) = length rows"
  by (simp add: ordered_rows_def)

lemma distinct_ordered: "distinct (map snd (ordered_rows lc rows))"
proof -
  have "distinct (ordered_rows lc rows)"
    by (auto simp: ordered_rows_def distinct_map inj_on_def)
  then show ?thesis by (auto simp: distinct_map set_ordered inj_on_def)
qed

text \<open>What the loop computes for the row at position \<open>k\<close> of the visiting order.\<close>

lemma assign_ordered:
  assumes "assignTransactionIds lc sha rows = Inr txs"
  shows "length txs = length rows"
    and "k < length rows \<Longrightarrow> \<exists>b. same_base sha b (ordered_rows lc rows ! k) \<and>
      good_id (tx_id (txs ! snd (ordered_rows lc rows ! k))) \<and>
      txs ! snd (ordered_rows lc rows ! k) = with_id (fst (ordered_rows lc rows ! k))
        (ordinal_id b (Suc (base_count sha b (take k (ordered_rows lc rows)))))"
proof -
  let ?ord = "ordered_rows lc rows"
  from assms obtain st where st: "foldE (assign_step sha) ?ord ([], replicate (length rows) None) = Inr st"
    "txs = map the (snd st)"
    by (auto simp: assignTransactionIds_def Let_def ordered_rows_def)
  have "assign_inv sha (length rows) [] ([], replicate (length rows) None)"
    by (simp add: assign_inv_def)
  then have inv: "assign_inv sha (length rows) ?ord st"
    using assign_inv_fold [OF st(1), of "length rows" "[]"] distinct_ordered
    by (simp add: set_ordered image_image)
  then show len: "length txs = length rows" by (simp add: assign_inv_def st(2))
  assume k: "k < length rows"
  then have "?ord ! k \<in> set ?ord" by simp
  then have "snd (?ord ! k) < length rows" by (auto simp: set_ordered)
  moreover have "length (snd st) = length rows" using inv by (simp add: assign_inv_def)
  ultimately have nth: "txs ! snd (?ord ! k) = the (snd st ! snd (?ord ! k))" by (simp add: st(2))
  from inv k obtain b where "same_base sha b (?ord ! k)"
    "good_id (ordinal_id b (Suc (base_count sha b (take k ?ord))))"
    "snd st ! snd (?ord ! k) = Some (with_id (fst (?ord ! k)) (ordinal_id b (Suc (base_count sha b (take k ?ord)))))"
    unfolding assign_inv_def by fastforce
  then show "\<exists>b. same_base sha b (?ord ! k) \<and> good_id (tx_id (txs ! snd (?ord ! k))) \<and>
      txs ! snd (?ord ! k) = with_id (fst (?ord ! k)) (ordinal_id b (Suc (base_count sha b (take k ?ord))))"
    by (intro exI [of _ b]) (simp add: nth)
qed

lemma ordered_position:
  assumes "i < length rows"
  obtains k where "k < length rows" "ordered_rows lc rows ! k = (rows ! i, i)"
proof -
  from assms have "(rows ! i, i) \<in> set (ordered_rows lc rows)" by (simp add: set_ordered)
  then show thesis using that by (metis in_set_conv_nth length_ordered)
qed

section \<open>The order of the rows\<close>

lemma consistent_ordinals:
  assumes lc: "consistent_compare lc"
  shows "consistent_compare (compareForOrdinals lc)"
proof -
  let ?cd = "\<lambda>a :: tx_row \<times> nat. default (tx_chargeDate (fst a)) []"
  let ?id = "\<lambda>a :: tx_row \<times> nat. default (tx_identifier (fst a)) []"
  let ?ix = "\<lambda>a :: tx_row \<times> nat. int (snd a)"
  have 1: "consistent_compare (\<lambda>a b. ?ix a - ?ix b)" using consistent_pull [OF consistent_diff, of ?ix] .
  have 2: "consistent_compare (\<lambda>a b. lc (?id a) (?id b))" using consistent_pull [OF lc, of ?id] .
  have 3: "consistent_compare (\<lambda>a b. lc (?cd a) (?cd b))" using consistent_pull [OF lc, of ?cd] .
  from consistent_then [OF 3 consistent_then [OF 2 1]] show ?thesis
    unfolding compareForOrdinals_def [abs_def] .
qed

lemma compare_indices: "compareForOrdinals lc a b = 0 \<Longrightarrow> snd a = snd b"
  by (auto simp: compareForOrdinals_def cmp_then_def split: if_splits)

section \<open>Separators in base ids\<close>

lemma encode_unit_no_sep: "encode_unit c = Inr p \<Longrightarrow> x \<in> set p \<Longrightarrow> x \<noteq> 58 \<and> x \<noteq> 35"
proof -
  assume p: "encode_unit c = Inr p" and x: "x \<in> set p"
  have h: "hex_char n \<noteq> 58 \<and> hex_char n \<noteq> 35" for n by (simp add: hex_char_def)
  have "p = [c] \<and> c \<noteq> 58 \<and> c \<noteq> 35 \<or> p = concat (map pct (utf8_cp c))"
    using p by (auto simp: encode_unit_def uri_unreserved_def char_class_defs split: if_splits)
  moreover have "y \<noteq> 58 \<and> y \<noteq> 35" if "y \<in> set (concat (map pct bs))" for y bs
    using that h by (induction bs) (auto simp: pct_def)
  ultimately show ?thesis using x by (elim disjE) (simp, metis)
qed

lemma encodeSegment_no_sep: "encodeSegment s = Inr r \<Longrightarrow> x \<in> set r \<Longrightarrow> x \<noteq> 58 \<and> x \<noteq> 35"
  by (induction s arbitrary: r) (auto simp: encodeSegment_Cons dest: encode_unit_no_sep)

lemma base_no_hash:
  assumes "baseTransactionId sha r = Inr b" "35 \<notin> set (tx_company r)" "\<And>x. hex_string (sha x)"
  shows "35 \<notin> set b"
proof -
  from assms(1) obtain n seg p where "encodeSegment (js_trim n) = Inr seg" "ident_part (tx_identifier r) = Inr p"
    "b = tx_company r @ 58 # seg @ 58 # p @ 58 # transactionFingerprint sha (parts_of r)"
    by (auto simp: baseTransactionId_def transactionId_eq ordinal_suffix_def)
  then show ?thesis
    using encodeSegment_no_sep hex_string_not_sep [OF fingerprint_hex [OF assms(3)]] assms(2)
    by (auto simp: ident_part_def split: option.splits)
qed

section \<open>The assigned ids\<close>

text \<open>A row of a concrete batch.\<close>

definition example_row :: "jsstr \<Rightarrow> iso_day option \<Rightarrow> tx_row" where
  "example_row account charge = \<lparr>tx_accountId = account, tx_company = js ''cal'', tx_identifier = None,
     tx_bookedDate = js ''2024-05-01'', tx_chargeDate = charge, tx_amount = -12, tx_currency = js ''ILS'',
     tx_description = js ''coffee'', tx_memo = None, tx_status = Posted, tx_postedSeenAt = None,
     tx_installmentNumber = None, tx_installmentTotal = None, tx_originalAmount = None,
     tx_originalCurrency = None, tx_category = None, tx_synthetic = False,
     tx_firstSeen = js ''2024-05-02T06:00:00.000Z'', tx_lastSeen = js ''2024-05-02T06:00:00.000Z'',
     tx_idSchemeVersion = 1, tx_raw = JUndef\<rparr>"

lemma example_base:
  "baseTransactionId (\<lambda>b. js ''00ff'') (example_row (js ''cal:1'') c) = Inr (js ''cal:1:-:00ff'')"
  by (simp add: baseTransactionId_def accountNumberFromAccountId_def transactionId_def transactionFingerprint_def
      example_row_def FINGERPRINT_LENGTH_def decodeURIComponent.simps id_eval)

lemma example_compare:
  "compareForOrdinals cmp_of (example_row (js ''cal:1'') (Some (js ''2024-06-02'')), 0) (example_row (js ''cal:1'') None, Suc 0) = 1"
  by (simp add: compareForOrdinals_def cmp_then_def cmp_of_def example_row_def)

lemma nat_str_2: "nat_str (Suc (Suc 0)) = [50]"
  by (subst nat_str_rec) simp

lemma example_ids:
  "assignTransactionIds cmp_of (\<lambda>b. js ''00ff'')
     [example_row (js ''cal:1'') (Some (js ''2024-06-02'')), example_row (js ''cal:1'') None] =
   Inr [with_id (example_row (js ''cal:1'') (Some (js ''2024-06-02''))) (js ''cal:1:-:00ff#2''),
        with_id (example_row (js ''cal:1'') None) (js ''cal:1:-:00ff'')]"
  using example_base [simplified]
  by (simp add: assignTransactionIds_def assign_step_def Let_def example_compare [simplified] nat_str_2
      assertId_def isPrintableAscii_def printable_def MAX_ID_LENGTH_def
      del: bindE_eq_Inr)

lemma assigned_ids:
  assumes "assignTransactionIds lc sha rows = Inr txs" "\<And>x. hex_string (sha x)"
    and "\<And>r. r \<in> set rows \<Longrightarrow> 35 \<notin> set (tx_company r)"
  shows "distinct (map tx_id txs) \<and> map tx_row.truncate txs = rows \<and> (\<forall>t\<in>set txs. good_id (tx_id t))"
proof -
  let ?ord = "ordered_rows lc rows"
  let ?n = "length rows"
  have len: "length txs = ?n" by (rule assign_ordered(1) [OF assms(1)])
  have at: "\<exists>k b. k < ?n \<and> ?ord ! k = (rows ! i, i) \<and> baseTransactionId sha (rows ! i) = Inr b \<and> good_id (tx_id (txs ! i)) \<and>
      txs ! i = with_id (rows ! i) (ordinal_id b (Suc (base_count sha b (take k ?ord))))" if "i < ?n" for i
    using ordered_position [OF that, of lc] assign_ordered(2) [OF assms(1)]
    by (metis same_base_def fst_conv snd_conv)
  have less: "base_count sha b (take k ?ord) < base_count sha b (take l ?ord)"
    if "k < l" "l < ?n" "?ord ! k = (r, i)" "baseTransactionId sha r = Inr b" for k l r i b
    using that unfolding base_count_def by (intro filter_take_less) (simp_all add: same_base_def)
  have "distinct (map tx_id txs)"
    unfolding distinct_conv_nth
  proof (intro allI impI)
    fix i j assume ij: "i < length (map tx_id txs)" "j < length (map tx_id txs)" "i \<noteq> j"
    then have i: "i < ?n" and j: "j < ?n" by (simp_all add: len)
    from at [OF i] obtain k b where k: "k < ?n" "?ord ! k = (rows ! i, i)" "baseTransactionId sha (rows ! i) = Inr b"
      "txs ! i = with_id (rows ! i) (ordinal_id b (Suc (base_count sha b (take k ?ord))))" by blast
    from at [OF j] obtain l b' where l: "l < ?n" "?ord ! l = (rows ! j, j)" "baseTransactionId sha (rows ! j) = Inr b'"
      "txs ! j = with_id (rows ! j) (ordinal_id b' (Suc (base_count sha b' (take l ?ord))))" by blast
    show "map tx_id txs ! i \<noteq> map tx_id txs ! j"
    proof
      assume "map tx_id txs ! i = map tx_id txs ! j"
      with ij k(4) l(4) have eq: "ordinal_id b (Suc (base_count sha b (take k ?ord))) = ordinal_id b' (Suc (base_count sha b' (take l ?ord)))"
        by simp
      have "35 \<notin> set b" using base_no_hash [OF k(3) _ assms(2)] assms(3) i by simp
      moreover have "35 \<notin> set b'" using base_no_hash [OF l(3) _ assms(2)] assms(3) j by simp
      ultimately have "b = b'" "base_count sha b (take k ?ord) = base_count sha b' (take l ?ord)"
        using ordinal_id_inj [OF _ _ eq] by simp_all blast
      with less [of k l "rows ! i" i b] less [of l k "rows ! j" j b] k l have "k = l"
        by (metis less_irrefl nat_neq_iff)
      with k(2) l(2) ij(3) show False by simp
    qed
  qed
  moreover have "map tx_row.truncate txs = rows"
    using at len by (auto intro!: nth_equalityI) (metis with_id_simps(2))
  moreover have "\<forall>t\<in>set txs. good_id (tx_id t)"
    using at len by (metis in_set_conv_nth)
  ultimately show ?thesis by simp
qed


text \<open>
  C1: the ids assigned to one scrape are pairwise different, whatever the rows are, as long as
  the digest is hexadecimal and company ids hold no hash sign.
\<close>

theorem assigned_ids_distinct:
  assumes "assignTransactionIds lc sha rows = Inr txs" "\<And>x. hex_string (sha x)"
    and "\<And>r. r \<in> set rows \<Longrightarrow> 35 \<notin> set (tx_company r)"
  shows "distinct (map tx_id txs) \<and> map tx_row.truncate txs = rows \<and> (\<forall>t\<in>set txs. good_id (tx_id t))"
  using assigned_ids [OF assms] .

theorem assigned_ids_distinct_witness:
  "distinct [js ''cal:1:-:00ff#2'', js ''cal:1:-:00ff'']"
  using assigned_ids_distinct [OF example_ids]
  by (simp add: hex_string_def is_digit_def example_row_def)

lemma assigned_ids_rank:
  assumes "assignTransactionIds lc sha rows = Inr txs" "consistent_compare lc" "i < length rows"
  shows "\<exists>b. baseTransactionId sha (rows ! i) = Inr b \<and>
    txs ! i = with_id (rows ! i) (ordinal_id b (Suc (card {j. j < length rows \<and>
      baseTransactionId sha (rows ! j) = Inr b \<and> compareForOrdinals lc (rows ! j, j) (rows ! i, i) < 0})))"
proof -
  let ?ord = "ordered_rows lc rows"
  let ?less = "\<lambda>a b. compareForOrdinals lc a b < 0"
  note cons = consistent_ordinals [OF assms(2)]
  from ordered_position [OF assms(3)] obtain k where k: "k < length rows" "?ord ! k = (rows ! i, i)" by blast
  from assign_ordered(2) [OF assms(1) k(1)] k(2) obtain b where b: "same_base sha b (rows ! i, i)"
    "txs ! i = with_id (rows ! i) (ordinal_id b (Suc (base_count sha b (take k ?ord))))" by auto
  have sorted: "sorted_wrt (\<lambda>a b. compareForOrdinals lc a b \<le> 0) ?ord"
    unfolding ordered_rows_def by (rule sorted_sort_by [OF consistent_comparator_on [OF cons] subset_UNIV])
  have before: "?less (?ord ! l) (?ord ! k) \<longleftrightarrow> l < k" if "l < length rows" for l
  proof -
    have ne: "l \<noteq> k \<Longrightarrow> compareForOrdinals lc (?ord ! l) (?ord ! k) \<noteq> 0"
      using distinct_ordered [of lc rows] that k(1) compare_indices [of lc "?ord ! l" "?ord ! k"]
      by (auto simp: distinct_conv_nth)
    have "l < k \<Longrightarrow> compareForOrdinals lc (?ord ! l) (?ord ! k) \<le> 0"
      "k < l \<Longrightarrow> compareForOrdinals lc (?ord ! k) (?ord ! l) \<le> 0"
      using sorted that k(1) by (simp_all add: sorted_wrt_iff_nth_less)
    moreover have "\<not> ?less (?ord ! k) (?ord ! k)" using consistent_compareD(5) [OF cons] by simp
    moreover have "\<not> (?less (?ord ! l) (?ord ! k) \<and> compareForOrdinals lc (?ord ! k) (?ord ! l) \<le> 0)"
      using consistent_compareD(1) [OF cons, of "?ord ! l" "?ord ! k"] by linarith
    ultimately show ?thesis using ne by (cases l k rule: linorder_cases) auto
  qed
  have img: "(\<lambda>j. ?ord ! j) ` {l. l < k \<and> same_base sha b (?ord ! l)} =
      (\<lambda>j. (rows ! j, j)) ` {j. j < length rows \<and> baseTransactionId sha (rows ! j) = Inr b \<and> ?less (rows ! j, j) (rows ! i, i)}"
    (is "?f ` ?A = ?g ` ?B")
  proof (intro equalityI subsetI)
    fix x assume "x \<in> ?f ` ?A"
    then obtain l where l: "x = ?ord ! l" "l < k" "same_base sha b (?ord ! l)" by auto
    with k(1) have "x \<in> set ?ord" by simp
    then obtain j where j: "j < length rows" "x = (rows ! j, j)" by (auto simp: set_ordered)
    with l have "?ord ! l = (rows ! j, j)" by simp
    with l before [of l] k j show "x \<in> ?g ` ?B" by (intro image_eqI [of _ _ j]) (simp_all add: same_base_def)
  next
    fix x assume "x \<in> ?g ` ?B"
    then obtain j where j: "x = (rows ! j, j)" "j < length rows" "baseTransactionId sha (rows ! j) = Inr b"
      "?less (rows ! j, j) (rows ! i, i)" by auto
    from ordered_position [OF j(2)] obtain l where l: "l < length rows" "?ord ! l = (rows ! j, j)" by blast
    with before [OF l(1)] j k(2) show "x \<in> ?f ` ?A" by (intro image_eqI [of _ _ l]) (simp_all add: same_base_def)
  qed
  have injf: "inj_on ?f ?A"
  proof (rule inj_onI)
    fix x y assume "x \<in> ?A" "y \<in> ?A" "?ord ! x = ?ord ! y"
    with k(1) distinct_ordered [of lc rows] show "x = y"
      by (simp add: distinct_map nth_eq_iff_index_eq)
  qed
  have injg: "inj_on ?g ?B" by (auto intro: inj_onI)
  have "card ?A = card (?f ` ?A)" by (rule card_image [OF injf, symmetric])
  also have "\<dots> = card ?B" unfolding img by (rule card_image [OF injg])
  finally have "card ?A = card ?B" .
  moreover have "base_count sha b (take k ?ord) = card ?A"
  proof -
    have "{j. j < length (take k ?ord) \<and> same_base sha b (take k ?ord ! j)} = ?A"
      using k(1) by (intro Collect_cong conj_cong) simp_all
    then show ?thesis by (simp add: base_count_def length_filter_conv_card)
  qed
  ultimately show ?thesis using b by (intro exI [of _ b]) (simp add: same_base_def)
qed

text \<open>
  The id of every row in closed form. It is the base id of the row, with the rank of the row
  among the rows of the batch that have the same base id, in the order of charge date,
  identifier and position; the suffix is left out for rank one.
\<close>

theorem assigned_ids_closed_form:
  assumes "assignTransactionIds lc sha rows = Inr txs" "consistent_compare lc" "i < length rows"
  shows "\<exists>b. baseTransactionId sha (rows ! i) = Inr b \<and>
    txs ! i = with_id (rows ! i) (ordinal_id b (Suc (card {j. j < length rows \<and>
      baseTransactionId sha (rows ! j) = Inr b \<and> compareForOrdinals lc (rows ! j, j) (rows ! i, i) < 0})))"
  by (rule assigned_ids_rank [OF assms])

theorem assigned_ids_closed_form_witness:
  "\<exists>b k. with_id (example_row (js ''cal:1'') None) (js ''cal:1:-:00ff'') =
     with_id (example_row (js ''cal:1'') None) (ordinal_id b k)"
  using assigned_ids_closed_form [OF example_ids, of 1] by (auto simp: consistent_cmp_of)

text \<open>When the sort keys separate the rows of one base id, the scraper's own order does not matter.\<close>

definition row_compare :: "(jsstr \<Rightarrow> jsstr \<Rightarrow> int) \<Rightarrow> tx_row \<Rightarrow> tx_row \<Rightarrow> int" where
  "row_compare lc a b =
     cmp_then (lc (default (tx_chargeDate a) []) (default (tx_chargeDate b) []))
       (lc (default (tx_identifier a) []) (default (tx_identifier b) []))"

definition keys_separate :: "(jsstr \<Rightarrow> jsstr \<Rightarrow> int) \<Rightarrow> (nat list \<Rightarrow> jsstr) \<Rightarrow> tx_row multiset \<Rightarrow> bool" where
  "keys_separate lc sha M \<longleftrightarrow>
     (\<forall>r s. {#r, s#} \<subseteq># M \<longrightarrow> baseTransactionId sha r = baseTransactionId sha s \<longrightarrow> row_compare lc r s \<noteq> 0)"

definition rank_in :: "(jsstr \<Rightarrow> jsstr \<Rightarrow> int) \<Rightarrow> (nat list \<Rightarrow> jsstr) \<Rightarrow> tx_row multiset \<Rightarrow> tx_row \<Rightarrow> nat" where
  "rank_in lc sha M r =
     size {#s \<in># M. baseTransactionId sha s = baseTransactionId sha r \<and> row_compare lc s r < 0#}"

lemma compare_as_rows:
  "compareForOrdinals lc (r, i) (s, j) = cmp_then (row_compare lc r s) (int i - int j)"
  by (simp add: compareForOrdinals_def row_compare_def cmp_then_def)

lemma pair_subset_mset:
  assumes "i < length xs" "j < length xs" "i \<noteq> j"
  shows "{#xs ! i, xs ! j#} \<subseteq># mset xs"
proof -
  have "image_mset (\<lambda>k. xs ! k) {#i, j#} \<subseteq># image_mset (\<lambda>k. xs ! k) (mset [0..<length xs])"
    using assms by (intro image_mset_subseteq_mono) (simp add: insert_subset_eq_iff in_diff_count)
  moreover have "image_mset (\<lambda>k. xs ! k) (mset [0..<length xs]) = mset xs"
    by (metis map_nth mset_map)
  ultimately show ?thesis by simp
qed

lemma assigned_ids_by_rank:
  assumes "assignTransactionIds lc sha rows = Inr txs" "consistent_compare lc"
    and "keys_separate lc sha (mset rows)"
  shows "txs = map (\<lambda>r. with_id r (ordinal_id (projr (baseTransactionId sha r)) (Suc (rank_in lc sha (mset rows) r)))) rows"
proof (rule nth_equalityI)
  show len: "length txs = length (map (\<lambda>r. with_id r (ordinal_id (projr (baseTransactionId sha r)) (Suc (rank_in lc sha (mset rows) r)))) rows)"
    using assign_ordered(1) [OF assms(1)] by simp
  fix i assume "i < length txs"
  then have i: "i < length rows" using len by simp
  from assigned_ids_rank [OF assms(1,2) i] obtain b where b: "baseTransactionId sha (rows ! i) = Inr b"
    "txs ! i = with_id (rows ! i) (ordinal_id b (Suc (card {j. j < length rows \<and>
      baseTransactionId sha (rows ! j) = Inr b \<and> compareForOrdinals lc (rows ! j, j) (rows ! i, i) < 0})))" by blast
  have "compareForOrdinals lc (rows ! j, j) (rows ! i, i) < 0 \<longleftrightarrow> row_compare lc (rows ! j) (rows ! i) < 0"
    if "j < length rows" "baseTransactionId sha (rows ! j) = Inr b" for j
  proof (cases "j = i")
    case True
    then show ?thesis using consistent_compareD(5) [OF assms(2)]
      by (simp add: compare_as_rows row_compare_def)
  next
    case False
    from pair_subset_mset [OF that(1) i False] assms(3) that(2) b(1) have "row_compare lc (rows ! j) (rows ! i) \<noteq> 0"
      by (simp add: keys_separate_def)
    then show ?thesis by (simp add: compare_as_rows cmp_then_def)
  qed
  then have "{j. j < length rows \<and> baseTransactionId sha (rows ! j) = Inr b \<and> compareForOrdinals lc (rows ! j, j) (rows ! i, i) < 0} =
    {j. j < length rows \<and> baseTransactionId sha (rows ! j) = Inr b \<and> row_compare lc (rows ! j) (rows ! i) < 0}"
    by blast
  then have "card {j. j < length rows \<and> baseTransactionId sha (rows ! j) = Inr b \<and> compareForOrdinals lc (rows ! j, j) (rows ! i, i) < 0} =
    rank_in lc sha (mset rows) (rows ! i)"
    by (simp add: rank_in_def b(1) length_filter_conv_card flip: mset_filter)
  with b i show "txs ! i = map (\<lambda>r. with_id r (ordinal_id (projr (baseTransactionId sha r)) (Suc (rank_in lc sha (mset rows) r)))) rows ! i"
    by simp
qed

lemma keys_separate_pair:
  assumes "row_compare lc a b \<noteq> 0" "row_compare lc b a \<noteq> 0" "a \<noteq> b"
  shows "keys_separate lc sha {#a, b#}"
  using assms unfolding keys_separate_def
  by (auto simp: insert_subset_eq_iff split: if_splits)

lemma example_ids_reversed:
  "assignTransactionIds cmp_of (\<lambda>b. js ''00ff'')
     [example_row (js ''cal:1'') None, example_row (js ''cal:1'') (Some (js ''2024-06-02''))] =
   Inr [with_id (example_row (js ''cal:1'') None) (js ''cal:1:-:00ff''),
        with_id (example_row (js ''cal:1'') (Some (js ''2024-06-02''))) (js ''cal:1:-:00ff#2'')]"
proof -
  have "compareForOrdinals cmp_of (example_row (js ''cal:1'') None, 0)
      (example_row (js ''cal:1'') (Some (js ''2024-06-02'')), Suc 0) = -1"
    by (simp add: compareForOrdinals_def cmp_then_def cmp_of_def example_row_def)
  from this [simplified] show ?thesis
    using example_base [simplified]
    by (simp add: assignTransactionIds_def assign_step_def Let_def nat_str_2
        assertId_def isPrintableAscii_def printable_def MAX_ID_LENGTH_def del: bindE_eq_Inr)
qed

text \<open>
  C2: scraping the same rows in another order assigns every row the same id, when rows that
  would collide differ in charge date or identifier.
\<close>

theorem assigned_ids_order_independent:
  assumes "assignTransactionIds lc sha rows = Inr txs" "assignTransactionIds lc sha rows' = Inr txs'"
    and "mset rows' = mset rows" "consistent_compare lc" "keys_separate lc sha (mset rows)"
  shows "mset txs' = mset txs"
  using assigned_ids_by_rank [OF assms(1,4,5)]
    assigned_ids_by_rank [OF assms(2,4) assms(5) [folded assms(3)]] assms(3)
  by (metis mset_map)

theorem assigned_ids_order_independent_witness:
  "mset [with_id (example_row (js ''cal:1'') None) (js ''cal:1:-:00ff''),
        with_id (example_row (js ''cal:1'') (Some (js ''2024-06-02''))) (js ''cal:1:-:00ff#2'')] =
   mset [with_id (example_row (js ''cal:1'') (Some (js ''2024-06-02''))) (js ''cal:1:-:00ff#2''),
        with_id (example_row (js ''cal:1'') None) (js ''cal:1:-:00ff'')]"
proof -
  have "keys_separate cmp_of (\<lambda>b. js ''00ff'') {#example_row (js ''cal:1'') (Some (js ''2024-06-02'')), example_row (js ''cal:1'') None#}"
    by (rule keys_separate_pair) (simp_all add: row_compare_def example_row_def cmp_then_def cmp_of_def)
  with assigned_ids_order_independent [OF example_ids example_ids_reversed]
  show ?thesis by (simp only: mset.simps add_mset_commute consistent_cmp_of)
qed

end
