(* ===== verification/Examples.thy ===== *)
theory Examples
  imports Types
begin

text \<open>Concrete configuration values: the inputs at which the development instantiates its theorems.\<close>

definition example_company :: company_config where
  "example_company = \<lparr>co_enabled = True, co_label = js ''Card'', co_kind = CreditCard, co_credentials = [],
     co_accounts = AllAccounts, co_startDate = None, co_additionalTransactionInformation = False,
     co_includePending = True, co_futureMonthsToScrape = None, co_dateMode = Purchase, co_chargeDay = Some 2,
     co_synthesizePayments = False, co_timeoutMinutes = 10, co_scraperOptions = None\<rparr>"

definition example_server :: server_config where
  "example_server = \<lparr>srv_publicUrl = js ''https://bridge.example.com'', srv_port = 8080, srv_host = js ''0.0.0.0'',
     srv_claimTtlMinutes = 60, srv_maxClaims = 2\<rparr>"

definition example_config :: config where
  "example_config = \<lparr>cfg_schedule = None, cfg_timezone = js ''Asia/Jerusalem'', cfg_currency = js ''ILS'',
     cfg_staleHours = 36, cfg_overlapDays = 30, cfg_maxLoginAttemptsPerDay = 3,
     cfg_companies = [(js ''cal'', Some example_company)], cfg_server = example_server\<rparr>"

lemmas example_defs = example_company_def example_server_def example_config_def

end
