(* ===== verification/Normalize.thy ===== *)
theory Normalize
  imports IsoOrder IdBatch Examples
begin

text \<open>
  \<^verbatim>\<open>src/normalize.ts\<close>: a scrape result becomes ledger accounts and transactions. The scraper's
  library is outside the repository, so its result is a parameter: records of the values it
  hands over, the ones it may leave out or mistype as \<open>jsval\<close>. \<open>cal value timezone\<close> is the
  calendar date that moment computes for a timestamp in a timezone, none when the timestamp is
  invalid. The lemmas show which rows survive, that each keeps the scraper's order and amounts, and
  that the noon timestamp of a date reads back as that date in every timezone.
\<close>

section \<open>The scraper's values\<close>

record scraped_tx =
  rt_identifier :: jsval
  rt_date :: "jsstr option"
  rt_processedDate :: "jsstr option"
  rt_originalAmount :: jsval
  rt_originalCurrency :: jsval
  rt_chargedAmount :: jsval
  rt_chargedCurrency :: jsval
  rt_description :: "jsstr option"
  rt_memo :: jsval
  rt_status :: jsstr
  rt_installments :: "(jsval \<times> jsval) option"
  rt_category :: jsval
  rt_raw :: jsval

record scraped_account =
  sa_accountNumber :: jsstr
  sa_currency :: jsval
  sa_balance :: jsval
  sa_txns :: "scraped_tx list option"
  sa_raw :: "(jsstr \<times> jsval) list"

record normalize_input =
  ni_company :: company_id
  ni_config :: company_config
  ni_accounts :: "scraped_account list option"
  ni_scrapedAt :: iso_time
  ni_timezone :: jsstr
  ni_defaultCurrency :: jsstr

definition MAX_DESCRIPTION_LENGTH :: nat where
  "MAX_DESCRIPTION_LENGTH = 500"

section \<open>Values\<close>

definition toFiniteNumber :: "jsval \<Rightarrow> rat option" where
  "toFiniteNumber v =
     (case v of
        JNum n \<Rightarrow> Some n
      | JStr s \<Rightarrow> if js_trim s \<noteq> [] then js_number s else None
      | _ \<Rightarrow> None)"

definition is_safe_integer :: "rat \<Rightarrow> bool" where
  "is_safe_integer n \<longleftrightarrow> n = of_int \<lfloor>n\<rfloor> \<and> \<bar>n\<bar> \<le> 9007199254740991"

definition toPositiveInteger :: "jsval \<Rightarrow> rat option" where
  "toPositiveInteger v =
     (case toFiniteNumber v of
        Some n \<Rightarrow> if is_safe_integer n \<and> n > 0 then Some n else None
      | None \<Rightarrow> None)"

definition roundMoney :: "rat \<Rightarrow> rat" where
  "roundMoney v = ndiv (of_int (math_round (nmul v 100))) 100"

text \<open>A non-finite number prints as the name of the one such value of the model.\<close>

definition cleanText :: "jsval \<Rightarrow> jsstr option" where
  "cleanText v =
     (let text = (case v of JNum n \<Rightarrow> num_to_string n | JNonFinite \<Rightarrow> js ''NaN'' | JStr s \<Rightarrow> js_trim s | _ \<Rightarrow> []) in
      if text = [] then None else Some text)"

section \<open>Currencies\<close>

definition numericIsoCurrencies :: "(jsstr \<times> jsstr) list" where
  "numericIsoCurrencies =
     [(js ''376'', js ''ILS''), (js ''840'', js ''USD''), (js ''978'', js ''EUR''), (js ''826'', js ''GBP'')]"

text \<open>The keys: the shekel sign, three spellings of its Hebrew name, NIS, and the dollar, euro and pound names.\<close>

definition currencyAliases :: "(jsstr \<times> jsstr) list" where
  "currencyAliases =
     [([8362], js ''ILS''),
      ([1513, 34, 1495], js ''ILS''),
      ([1513, 1524, 1495], js ''ILS''),
      ([1513, 1495], js ''ILS''),
      (js ''NIS'', js ''ILS''),
      ([36], js ''USD''),
      (js ''US DOLLAR'', js ''USD''),
      (js ''USDOLLAR'', js ''USD''),
      ([8364], js ''EUR''),
      ([163], js ''GBP'')]"

text \<open>
  The match of the expression that removes a parenthesised suffix: white space, an opening
  parenthesis, units other than line ends up to the closing parenthesis, white space, the end.
\<close>

definition line_end :: "nat \<Rightarrow> bool" where
  "line_end c \<longleftrightarrow> c = 10 \<or> c = 13 \<or> c = 8232 \<or> c = 8233"

definition paren_suffix :: "jsstr \<Rightarrow> bool" where
  "paren_suffix s =
     (case dropWhile is_space s of
        [] \<Rightarrow> False
      | c # rest \<Rightarrow> c = 40 \<and>
          (case dropWhile is_space (rev rest) of
             [] \<Rightarrow> False
           | d # inner \<Rightarrow> d = 41 \<and> list_all (\<lambda>x. \<not> line_end x) inner))"

fun drop_paren_suffix :: "jsstr \<Rightarrow> jsstr" where
  "drop_paren_suffix [] = []"
| "drop_paren_suffix (c # s) = (if paren_suffix (c # s) then [] else c # drop_paren_suffix s)"

definition normalizeCurrencyCode :: "jsval \<Rightarrow> jsstr \<Rightarrow> jsstr" where
  "normalizeCurrencyCode v fallback =
     (case v of
        JNum n \<Rightarrow> default (map_of numericIsoCurrencies (num_to_string n)) fallback
      | JStr s \<Rightarrow>
          (let trimmed = js_trim s in
           if trimmed \<noteq> [] \<and> list_all is_digit trimmed
           then default (map_of numericIsoCurrencies trimmed) fallback
           else
             (let upper = to_upper (drop_paren_suffix trimmed) in
              case orelse (map_of currencyAliases trimmed) (map_of currencyAliases upper) of
                Some alias \<Rightarrow> alias
              | None \<Rightarrow> if length upper = 3 \<and> list_all is_upper upper then upper else fallback))
      | _ \<Rightarrow> fallback)"

section \<open>Calendar dates\<close>

definition toCalendarDate :: "(jsstr \<Rightarrow> jsstr \<Rightarrow> iso_day option) \<Rightarrow> jsstr \<Rightarrow> jsstr \<Rightarrow> iso_day res" where
  "toCalendarDate cal v timezone = (case cal v timezone of None \<Rightarrow> Inl NotIsoTimestamp | Some d \<Rightarrow> Inr d)"

text \<open>The three numbers of a \<^verbatim>\<open>YYYY-MM-DD\<close> text.\<close>

definition calendar_parts :: "jsstr \<Rightarrow> (int \<times> int \<times> int) option" where
  "calendar_parts s =
     (case s of
        [y1, y2, y3, y4, s1, m1, m2, s2, d1, d2] \<Rightarrow>
          if list_all is_digit [y1, y2, y3, y4, m1, m2, d1, d2] \<and> s1 = 45 \<and> s2 = 45
          then Some (num4 y1 y2 y3 y4, num2 m1 m2, num2 d1 d2) else None
      | _ \<Rightarrow> None)"

text \<open>The result is \<^verbatim>\<open>NaN\<close> (none) only if the date is out of the range of \<^verbatim>\<open>Date\<close>, which no four-digit year is.\<close>

definition calendarDateToPostedEpoch :: "iso_day \<Rightarrow> int option res" where
  "calendarDateToPostedEpoch date =
     (case calendar_parts date of
        None \<Rightarrow> Inl NotCalendarDate
      | Some (y, m, d) \<Rightarrow> Inr (map_option (\<lambda>t. t div 1000) (date_utc y (m - 1) d 12)))"

section \<open>Accounts and rows\<close>

definition selectAccounts :: "scraped_account list \<Rightarrow> account_selector \<Rightarrow> scraped_account list" where
  "selectAccounts accounts selector =
     (case selector of
        AllAccounts \<Rightarrow> accounts
      | SelectedAccounts wanted \<Rightarrow>
          filter (\<lambda>a. js_trim (sa_accountNumber a) \<in> set (map js_trim wanted)) accounts)"

definition normalizeBalance :: "account_kind \<Rightarrow> jsval \<Rightarrow> rat option" where
  "normalizeBalance kind balance = map_option roundMoney (toFiniteNumber balance)"

definition normalizeAccount :: "scraped_account \<Rightarrow> normalize_input \<Rightarrow> ledger_account res" where
  "normalizeAccount scraped input =
     (let accountNumber = js_trim (sa_accountNumber scraped);
          currency = normalizeCurrencyCode (sa_currency scraped) (ni_defaultCurrency input) in
      bindE (accountId (ni_company input) accountNumber) (\<lambda>i.
        Inr \<lparr>acc_id = i,
             acc_company = ni_company input,
             acc_accountNumber = accountNumber,
             acc_kind = co_kind (ni_config input),
             acc_currency = currency,
             acc_name = co_label (ni_config input) @ js '' '' @ [183, 183, 183, 183] @ slice_last 4 accountNumber,
             acc_balance = normalizeBalance (co_kind (ni_config input)) (sa_balance scraped),
             acc_balanceAt = Some (ni_scrapedAt input),
             acc_firstSeen = ni_scrapedAt input,
             acc_lastSeen = ni_scrapedAt input,
             acc_raw = JObj (AList.update (js ''txns'') JUndef (sa_raw scraped))\<rparr>))"

definition nullish :: "jsval \<Rightarrow> bool" where
  "nullish v \<longleftrightarrow> v = JUndef \<or> v = JNull"

definition tx_currencies :: "scraped_tx \<Rightarrow> ledger_account \<Rightarrow> jsstr \<times> jsstr option" where
  "tx_currencies row account =
     (let currency = normalizeCurrencyCode
            (if nullish (rt_chargedCurrency row) then JStr (acc_currency account) else rt_chargedCurrency row)
            (acc_currency account);
          originalCurrency = (if rt_originalCurrency row = JUndef then None
            else Some (normalizeCurrencyCode (rt_originalCurrency row) currency)) in
      (currency, originalCurrency))"

definition tx_usable_amount :: "scraped_tx \<Rightarrow> ledger_account \<Rightarrow> rat option" where
  "tx_usable_amount row account =
     (case tx_currencies row account of (currency, originalCurrency) \<Rightarrow>
        orelse (toFiniteNumber (rt_chargedAmount row))
          (if originalCurrency = Some currency then toFiniteNumber (rt_originalAmount row) else None))"

text \<open>\<open>truthy_text v\<close> is a date field that is present and not empty.\<close>

definition truthy_text :: "jsstr option \<Rightarrow> jsstr option" where
  "truthy_text v = (case v of Some s \<Rightarrow> if s = [] then None else Some s | None \<Rightarrow> None)"

definition normalizeTransaction ::
  "(jsstr \<Rightarrow> jsstr \<Rightarrow> iso_day option) \<Rightarrow> scraped_tx \<Rightarrow> ledger_account \<Rightarrow> normalize_input \<Rightarrow> tx_row option res" where
  "normalizeTransaction cal row account input =
     (case tx_currencies row account of (currency, originalCurrency) \<Rightarrow>
      case (tx_usable_amount row account, truthy_text (rt_date row)) of
        (Some amount, Some date) \<Rightarrow>
          bindE (case truthy_text (rt_processedDate row) of
                   Some p \<Rightarrow> bindE (toCalendarDate cal p (ni_timezone input)) (\<lambda>d. Inr (Some d))
                 | None \<Rightarrow> Inr None) (\<lambda>processedDate.
          bindE (toCalendarDate cal date (ni_timezone input)) (\<lambda>purchaseDate.
            Inr (Some \<lparr>tx_accountId = acc_id account,
              tx_company = ni_company input,
              tx_identifier = normalizeIdentifier (rt_identifier row),
              tx_bookedDate = (if co_dateMode (ni_config input) = Charge
                 then default processedDate purchaseDate else purchaseDate),
              tx_chargeDate = processedDate,
              tx_amount = amount,
              tx_currency = currency,
              tx_description = take MAX_DESCRIPTION_LENGTH (js_trim (default (rt_description row) [])),
              tx_memo = cleanText (rt_memo row),
              tx_status = (if rt_status row = js ''pending'' then Pending else Posted),
              tx_postedSeenAt = None,
              tx_installmentNumber = Option.bind (rt_installments row) (\<lambda>i. toPositiveInteger (fst i)),
              tx_installmentTotal = Option.bind (rt_installments row) (\<lambda>i. toPositiveInteger (snd i)),
              tx_originalAmount = toFiniteNumber (rt_originalAmount row),
              tx_originalCurrency = originalCurrency,
              tx_category = cleanText (rt_category row),
              tx_synthetic = False,
              tx_firstSeen = ni_scrapedAt input,
              tx_lastSeen = ni_scrapedAt input,
              tx_idSchemeVersion = ID_SCHEME_VERSION,
              tx_raw = rt_raw row\<rparr>)))
      | _ \<Rightarrow> Inr None)"

definition normalizeTransactions ::
  "(jsstr \<Rightarrow> jsstr \<Rightarrow> int) \<Rightarrow> (nat list \<Rightarrow> jsstr) \<Rightarrow> (jsstr \<Rightarrow> jsstr \<Rightarrow> iso_day option) \<Rightarrow>
   scraped_tx list \<Rightarrow> ledger_account \<Rightarrow> normalize_input \<Rightarrow> ledger_tx list res" where
  "normalizeTransactions lc sha cal rows account input =
     bindE (mapE (\<lambda>row. normalizeTransaction cal row account input) rows) (\<lambda>prepared.
       assignTransactionIds lc sha (List.map_filter id prepared))"

definition normalizeHoldings :: "scraped_account \<Rightarrow> ledger_account \<Rightarrow> ledger_holding list" where
  "normalizeHoldings scraped account = []"

text \<open>The loop of \<^verbatim>\<open>normalizeScrapeResult\<close>: the three lists grow account by account.\<close>

definition normalize_step ::
  "(jsstr \<Rightarrow> jsstr \<Rightarrow> int) \<Rightarrow> (nat list \<Rightarrow> jsstr) \<Rightarrow> (jsstr \<Rightarrow> jsstr \<Rightarrow> iso_day option) \<Rightarrow> normalize_input \<Rightarrow>
   scraped_account \<Rightarrow> source_fetch_result \<Rightarrow> source_fetch_result res" where
  "normalize_step lc sha cal input scraped r =
     bindE (normalizeAccount scraped input) (\<lambda>account.
     bindE (normalizeTransactions lc sha cal (default (sa_txns scraped) []) account input) (\<lambda>txs.
       Inr (r\<lparr>res_accounts := res_accounts r @ [account],
              res_transactions := res_transactions r @ txs,
              res_holdings := res_holdings r @ normalizeHoldings scraped account\<rparr>)))"

definition normalizeScrapeResult ::
  "(jsstr \<Rightarrow> jsstr \<Rightarrow> int) \<Rightarrow> (nat list \<Rightarrow> jsstr) \<Rightarrow> (jsstr \<Rightarrow> jsstr \<Rightarrow> iso_day option) \<Rightarrow> normalize_input \<Rightarrow>
   source_fetch_result res" where
  "normalizeScrapeResult lc sha cal input =
     foldE (normalize_step lc sha cal input)
       (selectAccounts (default (ni_accounts input) []) (co_accounts (ni_config input)))
       \<lparr>res_accounts = [], res_transactions = [], res_holdings = [], res_scrapedAt = ni_scrapedAt input\<rparr>"

section \<open>Which rows survive\<close>

definition usable_row :: "scraped_tx \<Rightarrow> ledger_account \<Rightarrow> bool" where
  "usable_row row account \<longleftrightarrow> tx_usable_amount row account \<noteq> None \<and> truthy_text (rt_date row) \<noteq> None"

lemma normalizeTransaction_usable:
  "normalizeTransaction cal row account input = Inr t \<Longrightarrow> t \<noteq> None \<longleftrightarrow> usable_row row account"
  by (auto simp: normalizeTransaction_def usable_row_def split: prod.splits option.splits)

lemma map_filter_usable:
  assumes "list_all2 (\<lambda>x y. f x = Inr y) xs ys" "\<And>x y. f x = Inr y \<Longrightarrow> y \<noteq> None \<longleftrightarrow> P x"
  shows "list_all2 (\<lambda>x z. f x = Inr (Some z)) (filter P xs) (List.map_filter id ys)"
  using assms(1)
proof (induction rule: list_all2_induct)
  case Nil
  then show ?case by (simp add: map_filter_simps)
next
  case (Cons x xs y ys)
  with assms(2) [of x y] show ?case by (cases y) (auto simp: map_filter_simps)
qed

text \<open>The transactions of one account: the usable rows in order, normalised, with different ids.\<close>

definition batch_of :: "(jsstr \<Rightarrow> jsstr \<Rightarrow> iso_day option) \<Rightarrow> normalize_input \<Rightarrow> scraped_account \<Rightarrow> ledger_account \<Rightarrow>
   ledger_tx list \<Rightarrow> bool" where
  "batch_of cal input scraped account batch \<longleftrightarrow>
     normalizeAccount scraped input = Inr account \<and> distinct (map tx_id batch) \<and>
     list_all2 (\<lambda>row t. normalizeTransaction cal row account input = Inr (Some (tx_row.truncate t)))
       (filter (\<lambda>row. usable_row row account) (default (sa_txns scraped) [])) batch"

lemma normalizeTransactions_batch:
  assumes "normalizeTransactions lc sha cal rows account input = Inr txs"
    and "\<And>x. hex_string (sha x)" "35 \<notin> set (ni_company input)"
  shows "distinct (map tx_id txs)"
    and "list_all2 (\<lambda>row t. normalizeTransaction cal row account input = Inr (Some (tx_row.truncate t)))
       (filter (\<lambda>row. usable_row row account) rows) txs"
proof -
  from assms(1) obtain prepared where p: "mapE (\<lambda>row. normalizeTransaction cal row account input) rows = Inr prepared"
    "assignTransactionIds lc sha (List.map_filter id prepared) = Inr txs"
    by (auto simp: normalizeTransactions_def)
  from map_filter_usable [OF p(1) [unfolded mapE_Inr_iff] normalizeTransaction_usable]
  have rows: "list_all2 (\<lambda>row r. normalizeTransaction cal row account input = Inr (Some r))
      (filter (\<lambda>row. usable_row row account) rows) (List.map_filter id prepared)" .
  have "tx_company r = ni_company input" if "normalizeTransaction cal row account input = Inr (Some r)" for row r
    using that by (auto simp: normalizeTransaction_def split: prod.splits option.splits)
  with rows have "\<forall>r\<in>set (List.map_filter id prepared). tx_company r = ni_company input"
    by (metis (mono_tags, lifting) in_set_conv_nth list_all2_conv_all_nth)
  with assms(3) have "\<And>r. r \<in> set (List.map_filter id prepared) \<Longrightarrow> 35 \<notin> set (tx_company r)" by auto
  from assigned_ids [OF p(2) assms(2) this]
  have d: "distinct (map tx_id txs)" "map tx_row.truncate txs = List.map_filter id prepared" by blast+
  from d(1) show "distinct (map tx_id txs)" .
  from rows show "list_all2 (\<lambda>row t. normalizeTransaction cal row account input = Inr (Some (tx_row.truncate t)))
       (filter (\<lambda>row. usable_row row account) rows) txs"
    unfolding d(2) [symmetric] by (simp add: list_all2_map2)
qed

lemma normalize_fold:
  assumes "foldE (normalize_step lc sha cal input) sel r0 = Inr r"
    and "\<And>x. hex_string (sha x)" "35 \<notin> set (ni_company input)"
  shows "\<exists>accs batches. res_accounts r = res_accounts r0 @ accs \<and> res_transactions r = res_transactions r0 @ concat batches \<and>
    length accs = length sel \<and> length batches = length sel \<and>
    (\<forall>i<length sel. batch_of cal input (sel ! i) (accs ! i) (batches ! i))"
  using assms(1)
proof (induction sel arbitrary: r0)
  case Nil
  then show ?case by simp
next
  case (Cons s sel)
  from Cons.prems obtain r1 where r1: "normalize_step lc sha cal input s r0 = Inr r1"
    "foldE (normalize_step lc sha cal input) sel r1 = Inr r" by auto
  from r1(1) obtain a txs where a: "normalizeAccount s input = Inr a"
    "normalizeTransactions lc sha cal (default (sa_txns s) []) a input = Inr txs"
    "res_accounts r1 = res_accounts r0 @ [a]" "res_transactions r1 = res_transactions r0 @ txs"
    by (auto simp: normalize_step_def)
  have b: "batch_of cal input s a txs"
    using a(1) normalizeTransactions_batch [OF a(2) assms(2,3)] by (simp add: batch_of_def)
  from Cons.IH [OF r1(2)] obtain accs batches where ih: "res_accounts r = res_accounts r1 @ accs"
    "res_transactions r = res_transactions r1 @ concat batches" "length accs = length sel" "length batches = length sel"
    "\<forall>i<length sel. batch_of cal input (sel ! i) (accs ! i) (batches ! i)" by blast
  show ?case
    using ih b a(3,4)
    by (intro exI [of _ "a # accs"] exI [of _ "txs # batches"]) (auto simp: nth_Cons split: nat.splits)
qed

text \<open>
  C4: a scrape result is normalised account by account, in the scraper's order. Every selected
  account appears once; its transactions are exactly its rows that have a date and a usable
  amount, in order, each the normal form of its row, with pairwise different ids.
\<close>

theorem normalized_result_rows:
  assumes "normalizeScrapeResult lc sha cal input = Inr r"
    and "\<And>x. hex_string (sha x)" "35 \<notin> set (ni_company input)"
    and "sel = selectAccounts (default (ni_accounts input) []) (co_accounts (ni_config input))"
  shows "\<exists>batches. res_transactions r = concat batches \<and> length batches = length sel \<and>
    length (res_accounts r) = length sel \<and>
    (\<forall>i<length sel. batch_of cal input (sel ! i) (res_accounts r ! i) (batches ! i))"
  using normalize_fold [OF assms(1) [unfolded normalizeScrapeResult_def] assms(2,3)] assms(4) by auto

definition example_scrape :: normalize_input where
  "example_scrape = \<lparr>ni_company = js ''cal'', ni_config = example_company,
     ni_accounts = Some [\<lparr>sa_accountNumber = js ''1234'', sa_currency = JUndef, sa_balance = JNum (-5),
       sa_txns = Some [\<lparr>rt_identifier = JUndef, rt_date = Some (js ''2024-05-01''), rt_processedDate = None,
           rt_originalAmount = JNum (-5), rt_originalCurrency = JUndef, rt_chargedAmount = JNum (-5),
           rt_chargedCurrency = JUndef, rt_description = Some (js ''coffee''), rt_memo = JUndef,
           rt_status = js ''completed'', rt_installments = None, rt_category = JUndef, rt_raw = JUndef\<rparr>],
       sa_raw = []\<rparr>],
     ni_scrapedAt = js ''2024-05-02T06:00:00.000Z'', ni_timezone = js ''UTC'', ni_defaultCurrency = js ''ILS''\<rparr>"

lemma example_scrape_ok: "\<exists>r. normalizeScrapeResult cmp_of (\<lambda>b. js ''00ff'') (\<lambda>v tz. Some v) example_scrape = Inr r"
  by (simp add: normalizeScrapeResult_def normalize_step_def normalizeAccount_def normalizeTransactions_def
      normalizeTransaction_def normalizeHoldings_def selectAccounts_def example_scrape_def example_company_def
      tx_currencies_def tx_usable_amount_def truthy_text_def toFiniteNumber_def toCalendarDate_def nullish_def
      normalizeCurrencyCode_def normalizeBalance_def assignTransactionIds_def assign_step_def map_filter_simps
      baseTransactionId_def accountNumberFromAccountId_def transactionId_def transactionFingerprint_def
      FINGERPRINT_LENGTH_def decodeURIComponent.simps normalizeIdentifier_def Let_def slice_last_def id_eval
      del: bindE_eq_Inr)

theorem normalized_result_rows_witness:
  "\<exists>r batches. normalizeScrapeResult cmp_of (\<lambda>b. js ''00ff'') (\<lambda>v tz. Some v) example_scrape = Inr r \<and>
     res_transactions r = concat batches \<and> length batches = 1"
proof -
  obtain r where r: "normalizeScrapeResult cmp_of (\<lambda>b. js ''00ff'') (\<lambda>v tz. Some v) example_scrape = Inr r"
    using example_scrape_ok by blast
  have "hex_string (js ''00ff'')" "35 \<notin> set (ni_company example_scrape)"
    "length (selectAccounts (default (ni_accounts example_scrape) []) (co_accounts (ni_config example_scrape))) = 1"
    by (simp_all add: hex_string_def is_digit_def example_scrape_def example_company_def selectAccounts_def)
  with normalized_result_rows [OF r _ _ refl] obtain batches where
    "res_transactions r = concat batches" "length batches = 1" by metis
  with r show ?thesis by blast
qed

section \<open>Posted timestamps\<close>

lemma calendar_parts_date:
  assumes "date_of s c"
  shows "calendar_parts s = Some c"
proof -
  obtain y m d where c: "c = (int y, int m, int d)" and r: "y < 10000" "1 \<le> m" "m \<le> 12" "1 \<le> d" "d \<le> 31"
    and s: "s = [48 + y div 1000, 48 + y div 100 mod 10, 48 + y div 10 mod 10, 48 + y mod 10, 45,
          48 + m div 10, 48 + m mod 10, 45, 48 + d div 10, 48 + d mod 10]"
    using iso_date_units [OF assms] by metis
  have b: "y div 1000 < 10" "m div 10 < 10" "d div 10 < 10" using r by (auto simp: less_mult_imp_div_less)
  show ?thesis
    unfolding s c calendar_parts_def using r b by (simp add: num_of_digits is_digit_48)
qed

lemma day_of_range:
  assumes "date_of s c"
  shows "- 719528 \<le> day_of c" "day_of c < 2932897"
proof -
  obtain y m d where c: "c = (y, m, d)" by (cases c)
  from assms have y: "0 \<le> y" "y \<le> 9999" and v: "valid_date y m d" by (auto simp: date_of_def c)
  have e: "valid_date 0 1 1" "valid_date 9999 12 31" by (simp_all add: valid_date_def month_start_def leap_def)
  have "make_day 0 (1 - 1) 1 = -719528" "make_day 9999 (12 - 1) 31 = 2932896"
    by (simp_all add: make_day_def day_from_year_def month_start_def leap_def)
  moreover have "\<not> (make_day y (m - 1) d < make_day 0 (1 - 1) 1)"
    using valid_date_ranges [OF v] y unfolding make_day_less_iff [OF v e(1)] by auto
  moreover have "\<not> (make_day 9999 (12 - 1) 31 < make_day y (m - 1) d)"
    using valid_date_ranges [OF v] y unfolding make_day_less_iff [OF e(2) v] by auto
  ultimately show "- 719528 \<le> day_of c" "day_of c < 2932897" by (simp_all add: c day_of_def)
qed

lemma posted_epoch:
  assumes "date_of s c" "100 \<le> fst c"
  shows "calendarDateToPostedEpoch s = Inr (Some (day_of c * 86400 + 43200))"
proof -
  obtain y m d where c: "c = (y, m, d)" by (cases c)
  have "\<bar>day_of c * 86400000 + 43200000\<bar> \<le> 8640000000000000"
    using day_of_range [OF assms(1)] by linarith
  moreover have "(day_of c * 86400000 + 43200000) div 1000 = day_of c * 86400 + 43200"
    by (rule int_div_pos_eq [of _ _ _ 0]) simp_all
  ultimately show ?thesis
    using assms(2) unfolding calendarDateToPostedEpoch_def calendar_parts_date [OF assms(1)]
    by (simp add: c day_of_def date_utc_def time_clip_def ms_per_day_def)
qed

text \<open>
  The posted timestamp of a calendar date is noon UTC of that day, so it reads back as the same
  date in every timezone from UTC-12 up to, not including, UTC+12.
\<close>

theorem posted_epoch_keeps_date:
  assumes "date_of s c" "100 \<le> fst c" "- 43200 \<le> offset" "offset < 43200"
  shows "\<exists>e. calendarDateToPostedEpoch s = Inr (Some e) \<and> iso_date (civil ((e + offset) div 86400)) = s"
proof -
  have "(day_of c * 86400 + 43200 + offset) div 86400 = day_of c"
    by (rule int_div_pos_eq [of _ _ _ "43200 + offset"]) (use assms(3,4) in simp_all)
  then show ?thesis
    using posted_epoch [OF assms(1,2)] civil_day_of [OF assms(1)] assms(1) by (auto simp: date_of_def)
qed

theorem posted_epoch_keeps_date_witness:
  "\<exists>e. calendarDateToPostedEpoch (js ''2024-02-29'') = Inr (Some e) \<and>
     iso_date (civil ((e + 7200) div 86400)) = js ''2024-02-29''"
proof -
  have "iso_date (2024, 2, 29) = js ''2024-02-29''"
    using iso_date_pads [of 2024 2 29] pad4_digits [of 2024] pad2_digits [of 2] pad2_digits [of 29] by simp
  moreover have "valid_date 2024 2 29" by (simp add: valid_date_def month_start_def leap_def)
  ultimately have "date_of (js ''2024-02-29'') (2024, 2, 29)" by (simp add: date_of_def)
  from posted_epoch_keeps_date [OF this, of 7200] show ?thesis by simp
qed

end
