(* ===== verification/JsJson.thy ===== *)
theory JsJson
  imports Types JsUri
begin

text \<open>
  \<^verbatim>\<open>JSON.stringify\<close> without indentation, on the values of \<open>jsval\<close>, and the enumeration order of
  object keys: array indices by value first, then the other keys in insertion order.
\<close>

definition hex4 :: "nat \<Rightarrow> jsstr" where
  "hex4 c = map (\<lambda>d. if d < 10 then 48 + d else 87 + d) [c div 4096 mod 16, c div 256 mod 16, c div 16 mod 16, c mod 16]"

definition json_escape :: "nat \<Rightarrow> jsstr" where
  "json_escape c =
     (if c = 34 then [92, 34]
      else if c = 92 then [92, 92]
      else if c = 8 then [92, 98]
      else if c = 9 then [92, 116]
      else if c = 10 then [92, 110]
      else if c = 12 then [92, 102]
      else if c = 13 then [92, 114]
      else if c < 32 then [92, 117] @ hex4 c
      else [c])"

text \<open>A surrogate outside a pair is escaped; a pair is kept.\<close>

fun json_units :: "jsstr \<Rightarrow> jsstr" where
  "json_units [] = []"
| "json_units [c] = (if is_surrogate c then [92, 117] @ hex4 c else json_escape c)"
| "json_units (c # d # s) =
     (if is_high c \<and> is_low d then c # d # json_units s
      else (if is_surrogate c then [92, 117] @ hex4 c else json_escape c) @ json_units (d # s))"

definition json_string :: "jsstr \<Rightarrow> jsstr" where
  "json_string s = 34 # json_units s @ [34]"

fun json_text :: "jsval \<Rightarrow> jsstr" where
  "json_text JUndef = js ''null''"
| "json_text JNull = js ''null''"
| "json_text JNonFinite = js ''null''"
| "json_text (JBool b) = (if b then js ''true'' else js ''false'')"
| "json_text (JNum n) = num_to_string n"
| "json_text (JStr s) = json_string s"
| "json_text (JArr vs) = js ''['' @ join_with (js '','') (map json_text vs) @ js '']''"
| "json_text (JObj ps) = [123] @ join_with (js '','')
     (map (\<lambda>(k, v). json_string k @ js '':'' @ json_text v) (filter (\<lambda>(k, v). v \<noteq> JUndef) ps)) @ [125]"

definition index_key :: "jsstr \<Rightarrow> bool" where
  "index_key k \<longleftrightarrow> k \<noteq> [] \<and> list_all is_digit k \<and> (hd k \<noteq> 48 \<or> length k = 1) \<and> digits_int k < 4294967295"

text \<open>The order in which an object built from sorted entries lists its keys.\<close>

definition key_order :: "jsstr \<times> 'a \<Rightarrow> jsstr \<times> 'a \<Rightarrow> int" where
  "key_order a b =
     (if index_key (fst a) \<and> index_key (fst b) then cmp_of (digits_int (fst a)) (digits_int (fst b))
      else if index_key (fst a) then -1
      else if index_key (fst b) then 1
      else cmp_of (fst a) (fst b))"

end
