(* ===== verification/Archive.thy ===== *)
theory Archive
  imports Normalize JsJson
begin

text \<open>
  \<^verbatim>\<open>src/ledger/archive-installments.ts\<close>: which stored row a scraped instalment repeats. The
  schema library's format checks for UUIDs and ISO dates are the parameters \<open>is_uuid\<close> and
  \<open>is_day\<close>; the calendar conversion and the digest are parameters as elsewhere. The lemmas show
  that a resolution maps portal rows to stored rows one to one, and only on the complete
  identity of an occurrence.
\<close>

record archive_env =
  ar_isUuid :: "jsstr \<Rightarrow> bool"
  ar_isDay :: "jsstr \<Rightarrow> bool"
  ar_cal :: "jsstr \<Rightarrow> jsstr \<Rightarrow> iso_day option"
  ar_sha :: "nat list \<Rightarrow> jsstr"

section \<open>The archive evidence\<close>

record archive_evidence =
  ev_originRowId :: jsstr
  ev_purchaseOrEventDate :: jsstr
  ev_sourceIdentifier :: jsstr
  rec_originRowId :: jsstr
  rec_accountId :: jsstr
  rec_amount :: jsval
  rec_currency :: jsstr
  rec_description :: jsstr
  rec_purchaseDate :: jsstr

definition js_text :: "jsval \<Rightarrow> jsstr option" where
  "js_text v = (case v of JStr s \<Rightarrow> Some s | _ \<Rightarrow> None)"

definition text_where :: "(jsstr \<Rightarrow> bool) \<Rightarrow> jsval \<Rightarrow> jsstr option" where
  "text_where P v = (case v of JStr s \<Rightarrow> if P s then Some s else None | _ \<Rightarrow> None)"

definition js_amount :: "jsval \<Rightarrow> jsval option" where
  "js_amount v = (case v of JStr s \<Rightarrow> Some v | JNum n \<Rightarrow> Some v | _ \<Rightarrow> None)"

definition is_origin :: "jsval \<Rightarrow> bool" where
  "is_origin v \<longleftrightarrow> v = JStr (js ''actual'') \<or> v = JStr (js ''sure'')"

definition archiveSchema :: "archive_env \<Rightarrow> jsval \<Rightarrow> archive_evidence option" where
  "archiveSchema env v =
     (case js_object v of None \<Rightarrow> None | Some ps \<Rightarrow>
      case js_object (js_prop (Some ps) ''sourceRecord'') of None \<Rightarrow> None | Some rs \<Rightarrow>
      let p = js_prop (Some ps); r = js_prop (Some rs) in
      if \<not> is_origin (p ''origin'') \<or> r ''company'' \<noteq> JStr (js ''visaCal'') then None else
      case (text_where (ar_isUuid env) (p ''originRowId''), text_where (ar_isDay env) (p ''purchaseOrEventDate''),
            text_where (\<lambda>s. s \<noteq> []) (p ''sourceIdentifier'')) of
        (Some oid, Some pd, Some sid) \<Rightarrow>
          (case (text_where (ar_isUuid env) (r ''origin_row_id''), js_text (r ''account_id''), js_amount (r ''amount'')) of
             (Some rid, Some acc, Some amt) \<Rightarrow>
               (case (js_text (r ''currency''), js_text (r ''description''), text_where (ar_isDay env) (r ''purchase_date'')) of
                  (Some cur, Some desc, Some rpd) \<Rightarrow>
                    Some \<lparr>ev_originRowId = oid, ev_purchaseOrEventDate = pd, ev_sourceIdentifier = sid,
                      rec_originRowId = rid, rec_accountId = acc, rec_amount = amt, rec_currency = cur,
                      rec_description = desc, rec_purchaseDate = rpd\<rparr>
                | _ \<Rightarrow> None)
           | _ \<Rightarrow> None)
      | _ \<Rightarrow> None)"

definition preserveArchiveRaw :: "archive_env \<Rightarrow> ledger_tx \<Rightarrow> ledger_tx \<Rightarrow> jsval" where
  "preserveArchiveRaw env existing incoming =
     (let old = js_object (tx_raw existing); v = js_prop old ''archiveMigration''; archive = js_object v in
      if archive = None \<or> \<not> is_origin (js_prop archive ''origin'')
         \<or> text_where (ar_isUuid env) (js_prop archive ''originRowId'') = None
      then tx_raw incoming
      else JObj (AList.update (js ''archiveMigration'') v (default (js_object (tx_raw incoming)) [])))"

section \<open>Matching an occurrence\<close>

text \<open>\<^verbatim>\<open>/^\d{4}-\d{2}-\d{2}(?:T|$)/\<close>.\<close>

definition date_prefixed :: "jsstr \<Rightarrow> bool" where
  "date_prefixed s \<longleftrightarrow> calendar_parts (take 10 s) \<noteq> None \<and> (length s = 10 \<or> s ! 10 = 84)"

definition occurrenceDate :: "archive_env \<Rightarrow> jsval \<Rightarrow> jsstr \<Rightarrow> iso_day option" where
  "occurrenceDate env v timezone =
     (case v of
        JStr s \<Rightarrow> if length s > 40 \<or> \<not> date_prefixed s then None
                  else (case toCalendarDate (ar_cal env) s timezone of Inl e \<Rightarrow> None | Inr d \<Rightarrow> Some d)
      | _ \<Rightarrow> None)"

definition opt_num :: "rat option \<Rightarrow> jsval" where
  "opt_num n = (case n of None \<Rightarrow> JUndef | Some x \<Rightarrow> JNum x)"

definition opt_text :: "jsstr option \<Rightarrow> jsval" where
  "opt_text s = (case s of None \<Rightarrow> JUndef | Some x \<Rightarrow> JStr x)"

text \<open>The first block of conditions: the columns both rows carry.\<close>

definition same_occurrence :: "ledger_tx \<Rightarrow> ledger_tx \<Rightarrow> bool" where
  "same_occurrence archive incoming \<longleftrightarrow>
     tx_company archive = js ''visaCal'' \<and> tx_company incoming = js ''visaCal'' \<and>
     \<not> tx_synthetic archive \<and> \<not> tx_synthetic incoming \<and>
     tx_status archive = Posted \<and> tx_status incoming = Posted \<and>
     tx_identifier archive \<noteq> None \<and> tx_identifier archive \<noteq> Some [] \<and>
     tx_identifier archive = tx_identifier incoming \<and> tx_accountId archive = tx_accountId incoming \<and>
     tx_amount archive = tx_amount incoming \<and> tx_currency archive = tx_currency incoming \<and>
     tx_description archive = tx_description incoming \<and>
     pred_option is_safe_integer (tx_installmentNumber archive) \<and> tx_installmentNumber archive \<noteq> None \<and>
     pred_option is_safe_integer (tx_installmentTotal archive) \<and> tx_installmentTotal archive \<noteq> None \<and>
     default (tx_installmentNumber archive) 0 \<ge> 1 \<and> default (tx_installmentTotal archive) 0 \<ge> 2 \<and>
     the (tx_installmentNumber archive) \<le> the (tx_installmentTotal archive) \<and>
     tx_installmentNumber archive = tx_installmentNumber incoming \<and>
     tx_installmentTotal archive = tx_installmentTotal incoming"

definition number_of :: "jsval \<Rightarrow> rat option" where
  "number_of v = (case v of JStr s \<Rightarrow> js_number s | JNum n \<Rightarrow> Some n | _ \<Rightarrow> None)"

definition raw_identifier :: "jsval \<Rightarrow> jsstr option" where
  "raw_identifier v =
     (case v of JStr s \<Rightarrow> Some s | JNum n \<Rightarrow> Some (num_to_string n) | JNonFinite \<Rightarrow> Some (js ''NaN'') | _ \<Rightarrow> None)"

definition compatible :: "'a option \<Rightarrow> 'a option \<Rightarrow> bool" where
  "compatible a b \<longleftrightarrow> a = None \<or> b = None \<or> a = b"

definition matchesArchiveInstallment :: "archive_env \<Rightarrow> ledger_tx \<Rightarrow> ledger_tx \<Rightarrow> jsstr \<Rightarrow> bool" where
  "matchesArchiveInstallment env archive incoming timezone \<longleftrightarrow>
     same_occurrence archive incoming \<and>
     (case archiveSchema env (js_prop (js_object (tx_raw archive)) ''archiveMigration'') of
        None \<Rightarrow> False
      | Some ev \<Rightarrow>
          let raw = js_object (tx_raw incoming); installments = js_object (js_prop raw ''installments'') in
          to_lower (ev_originRowId ev) = to_lower (rec_originRowId ev) \<and>
          Some (ev_sourceIdentifier ev) = tx_identifier archive \<and>
          rec_accountId ev = tx_accountId archive \<and>
          number_of (rec_amount ev) = Some (tx_amount archive) \<and>
          rec_currency ev = tx_currency archive \<and> rec_description ev = tx_description archive \<and>
          ev_purchaseOrEventDate ev = rec_purchaseDate ev \<and>
          Some (ev_purchaseOrEventDate ev) = occurrenceDate env (js_prop raw ''date'') timezone \<and>
          js_prop installments ''number'' = opt_num (tx_installmentNumber incoming) \<and>
          js_prop installments ''total'' = opt_num (tx_installmentTotal incoming) \<and>
          raw_identifier (js_prop raw ''identifier'') = tx_identifier incoming \<and>
          js_prop raw ''description'' = JStr (tx_description incoming) \<and>
          js_prop raw ''chargedAmount'' = JNum (tx_amount incoming) \<and>
          tx_chargeDate incoming \<noteq> None \<and>
          tx_chargeDate incoming = occurrenceDate env (js_prop raw ''processedDate'') timezone \<and>
          compatible (tx_originalAmount archive) (tx_originalAmount incoming) \<and>
          compatible (tx_originalCurrency archive) (tx_originalCurrency incoming))"

definition findArchiveInstallment ::
  "archive_env \<Rightarrow> ledger_tx list \<Rightarrow> ledger_tx \<Rightarrow> jsstr \<Rightarrow> ledger_tx option res" where
  "findArchiveInstallment env candidates incoming timezone =
     (let matches = filter (\<lambda>row. tx_id row \<noteq> tx_id incoming \<and> matchesArchiveInstallment env row incoming timezone) candidates in
      if length matches > 1 then Inl AmbiguousArchive
      else Inr (case matches of [] \<Rightarrow> None | r # _ \<Rightarrow> Some r))"

section \<open>Resolving a scrape\<close>

text \<open>
  \<^verbatim>\<open>byIdentifier\<close> groups the stored rows by the JSON text of account id and identifier, which is
  one text per pair; the group of a row is the filter on that pair.
\<close>

definition identifier_group :: "ledger_tx list \<Rightarrow> ledger_tx \<Rightarrow> ledger_tx list" where
  "identifier_group stored incoming =
     filter (\<lambda>row. tx_accountId row = tx_accountId incoming \<and> tx_identifier row = tx_identifier incoming) stored"

definition by_id :: "ledger_tx list \<Rightarrow> (jsstr \<times> ledger_tx) list" where
  "by_id stored = foldl (\<lambda>m row. AList.update (tx_id row) row m) [] stored"

type_synonym resolution = "(jsstr \<times> ledger_tx) list \<times> (jsstr \<times> jsstr) list"

definition resolve_step ::
  "archive_env \<Rightarrow> ledger_tx list \<Rightarrow> jsstr \<Rightarrow> ledger_tx \<Rightarrow> resolution \<Rightarrow> resolution res" where
  "resolve_step env stored timezone incoming st =
     (case st of (resolved, claimed) \<Rightarrow>
      bindE (case map_of (by_id stored) (tx_id incoming) of
               Some existing \<Rightarrow> Inr (Some existing)
             | None \<Rightarrow> findArchiveInstallment env (identifier_group stored incoming) incoming timezone) (\<lambda>canonical.
        case canonical of
          None \<Rightarrow> Inr st
        | Some c \<Rightarrow>
            let previous = map_of claimed (tx_id c) in
            if previous \<noteq> None \<and> previous \<noteq> Some (tx_id incoming) then Inl MultiplePortalRows
            else Inr (AList.update (tx_id incoming) c resolved, AList.update (tx_id c) (tx_id incoming) claimed)))"

definition resolveArchiveInstallments ::
  "archive_env \<Rightarrow> ledger_tx list \<Rightarrow> ledger_tx list \<Rightarrow> jsstr \<Rightarrow> (jsstr \<times> ledger_tx) list res" where
  "resolveArchiveInstallments env rows stored timezone =
     bindE (foldE (resolve_step env stored timezone) rows ([], [])) (\<lambda>(resolved, claimed). Inr resolved)"

section \<open>The maintenance plan\<close>

fun sortedJson :: "jsval \<Rightarrow> jsval" where
  "sortedJson (JArr vs) = JArr (map sortedJson vs)"
| "sortedJson (JObj ps) = JObj (sort_by key_order (map (\<lambda>(k, v). (k, sortedJson v)) ps))"
| "sortedJson v = v"

definition status_text :: "transaction_status \<Rightarrow> jsstr" where
  "status_text s = (case s of Pending \<Rightarrow> js ''pending'' | Posted \<Rightarrow> js ''posted'')"

text \<open>The row as the object it is, in the order of its fields.\<close>

definition tx_object :: "ledger_tx \<Rightarrow> jsval" where
  "tx_object r = JObj
     [(js ''id'', JStr (tx_id r)), (js ''accountId'', JStr (tx_accountId r)), (js ''company'', JStr (tx_company r)),
      (js ''identifier'', opt_text (tx_identifier r)), (js ''bookedDate'', JStr (tx_bookedDate r)),
      (js ''chargeDate'', opt_text (tx_chargeDate r)), (js ''amount'', JNum (tx_amount r)),
      (js ''currency'', JStr (tx_currency r)), (js ''description'', JStr (tx_description r)),
      (js ''memo'', opt_text (tx_memo r)), (js ''status'', JStr (status_text (tx_status r))),
      (js ''postedSeenAt'', opt_text (tx_postedSeenAt r)),
      (js ''installmentNumber'', opt_num (tx_installmentNumber r)),
      (js ''installmentTotal'', opt_num (tx_installmentTotal r)),
      (js ''originalAmount'', opt_num (tx_originalAmount r)),
      (js ''originalCurrency'', opt_text (tx_originalCurrency r)), (js ''category'', opt_text (tx_category r)),
      (js ''synthetic'', JBool (tx_synthetic r)), (js ''firstSeen'', JStr (tx_firstSeen r)),
      (js ''lastSeen'', JStr (tx_lastSeen r)), (js ''idSchemeVersion'', JNum (of_int (tx_idSchemeVersion r))),
      (js ''raw'', tx_raw r)]"

definition archiveInstallmentStateHash :: "archive_env \<Rightarrow> ledger_tx \<Rightarrow> jsstr" where
  "archiveInstallmentStateHash env row = ar_sha env (utf8 (json_text (sortedJson (tx_object row))))"

definition validate_pair ::
  "archive_env \<Rightarrow> ledger_tx list \<Rightarrow> jsstr \<Rightarrow> archive_installment_pair \<Rightarrow> (ledger_tx \<times> ledger_tx) res" where
  "validate_pair env rows timezone pair =
     (case (List.find (\<lambda>row. tx_id row = pair_canonicalId pair) rows,
            List.find (\<lambda>row. tx_id row = pair_duplicateId pair) rows) of
        (Some canonical, Some duplicate) \<Rightarrow>
          if archiveInstallmentStateHash env canonical \<noteq> pair_canonicalStateHash pair
             \<or> archiveInstallmentStateHash env duplicate \<noteq> pair_duplicateStateHash pair
          then Inl PairPreStateChanged
          else bindE (findArchiveInstallment env rows duplicate timezone) (\<lambda>found.
            if map_option tx_id found \<noteq> Some (tx_id canonical) then Inl PairPreStateChanged
            else Inr (canonical, duplicate))
      | _ \<Rightarrow> Inl PairPreStateChanged)"

definition validateArchiveInstallmentPairs ::
  "archive_env \<Rightarrow> archive_installment_pair list \<Rightarrow> ledger_tx list \<Rightarrow> jsstr \<Rightarrow> (ledger_tx \<times> ledger_tx) list res" where
  "validateArchiveInstallmentPairs env pairs rows timezone =
     (if pairs = [] \<or> length pairs > 100 then Inl PairCountOutOfRange
      else
        let ids = concat (map (\<lambda>p. [pair_canonicalId p, pair_duplicateId p]) pairs) in
        if \<not> distinct ids then Inl PairsNotDistinct
        else mapE (validate_pair env rows timezone) pairs)"

section \<open>What a resolution guarantees\<close>

definition resolution_inv :: "archive_env \<Rightarrow> ledger_tx list \<Rightarrow> jsstr \<Rightarrow> ledger_tx set \<Rightarrow> resolution \<Rightarrow> bool" where
  "resolution_inv env stored timezone rows st \<longleftrightarrow>
     (\<forall>i c. map_of (fst st) i = Some c \<longrightarrow>
        c \<in> set stored \<and> map_of (snd st) (tx_id c) = Some i \<and>
        (tx_id c = i \<or> (\<exists>row\<in>rows. tx_id row = i \<and> matchesArchiveInstallment env c row timezone)))"

lemma by_id_fold:
  "map_of (foldl (\<lambda>m row. AList.update (tx_id row) row m) m0 stored) i = Some r \<Longrightarrow>
     r \<in> set stored \<and> tx_id r = i \<or> map_of m0 i = Some r"
proof (induction stored arbitrary: m0)
  case Nil
  then show ?case by simp
next
  case (Cons a stored)
  from Cons.IH [of "AList.update (tx_id a) a m0"] Cons.prems show ?case by (auto split: if_splits)
qed

lemma by_id_in: "map_of (by_id stored) i = Some r \<Longrightarrow> r \<in> set stored \<and> tx_id r = i"
  using by_id_fold [of "[]" stored i r] by (simp add: by_id_def)

lemma by_id_none: "map_of (by_id stored) i = None \<Longrightarrow> r \<in> set stored \<Longrightarrow> tx_id r \<noteq> i"
proof -
  have dom: "dom (map_of (foldl (\<lambda>m row. AList.update (tx_id row) row m) m0 stored)) = dom (map_of m0) \<union> tx_id ` set stored" for m0
    by (induction stored arbitrary: m0) (auto simp: dom_def split: if_splits)
  show "map_of (by_id stored) i = None \<Longrightarrow> r \<in> set stored \<Longrightarrow> tx_id r \<noteq> i"
    using dom [of "[]"] by (auto simp: by_id_def)
qed

lemma findArchiveInstallment_match:
  "findArchiveInstallment env cs incoming tz = Inr (Some r) \<Longrightarrow>
     r \<in> set cs \<and> tx_id r \<noteq> tx_id incoming \<and> matchesArchiveInstallment env r incoming tz"
  by (auto simp: findArchiveInstallment_def Let_def split: if_splits list.splits
      dest!: arg_cong [where f = set and x = "filter _ _"])

lemma resolve_step_inv:
  assumes "resolve_step env stored tz incoming st = Inr st'" "resolution_inv env stored tz rows st" "incoming \<in> rows"
  shows "resolution_inv env stored tz rows st'"
proof -
  obtain resolved claimed where st: "st = (resolved, claimed)" by fastforce
  from assms(1) st consider (none) "st' = st"
    | (some) c where "c \<in> set stored" "tx_id c = tx_id incoming \<or> matchesArchiveInstallment env c incoming tz"
        "map_of claimed (tx_id c) = None \<or> map_of claimed (tx_id c) = Some (tx_id incoming)"
        "st' = (AList.update (tx_id incoming) c resolved, AList.update (tx_id c) (tx_id incoming) claimed)"
  proof -
    from assms(1) obtain canonical where can: "(case map_of (by_id stored) (tx_id incoming) of Some existing \<Rightarrow> Inr (Some existing)
         | None \<Rightarrow> findArchiveInstallment env (identifier_group stored incoming) incoming tz) = Inr canonical"
      and rest: "(case canonical of None \<Rightarrow> Inr st
         | Some c \<Rightarrow> if map_of claimed (tx_id c) \<noteq> None \<and> map_of claimed (tx_id c) \<noteq> Some (tx_id incoming) then Inl MultiplePortalRows
             else Inr (AList.update (tx_id incoming) c resolved, AList.update (tx_id c) (tx_id incoming) claimed)) = Inr st'"
      unfolding resolve_step_def st prod.case bindE_eq_Inr Let_def by blast
    show thesis
    proof (cases canonical)
      case None
      with rest none show thesis by simp
    next
      case (Some c)
      with can have "c \<in> set stored" "tx_id c = tx_id incoming \<or> matchesArchiveInstallment env c incoming tz"
        by (auto simp: identifier_group_def split: option.splits dest: by_id_in findArchiveInstallment_match)
      with Some rest some show thesis by (auto split: if_splits)
    qed
  qed
  then show ?thesis
  proof cases
    case none
    with assms(2) show ?thesis by simp
  next
    case some
    show ?thesis
      unfolding resolution_inv_def
    proof (intro allI impI)
      fix i d assume d: "map_of (fst st') i = Some d"
      show "d \<in> set stored \<and> map_of (snd st') (tx_id d) = Some i \<and>
        (tx_id d = i \<or> (\<exists>row\<in>rows. tx_id row = i \<and> matchesArchiveInstallment env d row tz))"
      proof (cases "i = tx_id incoming")
        case True
        with d some(4) have "d = c" by simp
        with some True assms(3) show ?thesis by auto
      next
        case False
        with d some(4) have old: "map_of resolved i = Some d" by simp
        with assms(2) have inv: "d \<in> set stored" "map_of claimed (tx_id d) = Some i"
          "tx_id d = i \<or> (\<exists>row\<in>rows. tx_id row = i \<and> matchesArchiveInstallment env d row tz)"
          by (auto simp: resolution_inv_def st)
        with some(3) False have "tx_id d \<noteq> tx_id c" by auto
        with inv some(4) show ?thesis by simp
      qed
    qed
  qed
qed

lemma resolve_sound:
  assumes "resolveArchiveInstallments env rows stored tz = Inr m" "map_of m i = Some c"
  shows "c \<in> set stored" "tx_id c = i \<or> (\<exists>row\<in>set rows. tx_id row = i \<and> matchesArchiveInstallment env c row tz)"
    "map_of m j = Some d \<Longrightarrow> tx_id d = tx_id c \<Longrightarrow> j = i"
proof -
  from assms(1) obtain st where st: "foldE (resolve_step env stored tz) rows ([], []) = Inr st" "m = fst st"
    by (auto simp: resolveArchiveInstallments_def)
  have inv: "resolution_inv env stored tz (set rows) st"
    using st(1) by (rule foldE_invariant) (simp add: resolution_inv_def, rule resolve_step_inv)
  from inv assms(2) st(2) show "c \<in> set stored"
    "tx_id c = i \<or> (\<exists>row\<in>set rows. tx_id row = i \<and> matchesArchiveInstallment env c row tz)"
    by (auto simp: resolution_inv_def)
  show "map_of m j = Some d \<Longrightarrow> tx_id d = tx_id c \<Longrightarrow> j = i"
    using inv assms(2) st(2) unfolding resolution_inv_def by (metis option.inject)
qed

text \<open>
  C5: no stored occurrence is claimed by two portal rows: a scrape that resolves sends different row
  ids to different stored rows, and each row id goes to the stored row of that id or to a row
  whose complete archived identity matches a scraped row of that id.
\<close>

theorem resolution_one_to_one:
  assumes "resolveArchiveInstallments env rows stored tz = Inr m"
    and "map_of m i = Some c" "map_of m j = Some d" "i \<noteq> j"
  shows "tx_id c \<noteq> tx_id d \<and> c \<in> set stored \<and>
    (tx_id c = i \<or> (\<exists>row\<in>set rows. tx_id row = i \<and> matchesArchiveInstallment env c row tz))"
  using resolve_sound [OF assms(1,2)] assms(3,4) by metis

definition example_env :: archive_env where
  "example_env = \<lparr>ar_isUuid = (\<lambda>s. s \<noteq> []), ar_isDay = (\<lambda>s. calendar_parts s \<noteq> None),
     ar_cal = (\<lambda>v tz. Some (take 10 v)), ar_sha = (\<lambda>b. js ''00ff'')\<rparr>"

definition example_tx :: "jsstr \<Rightarrow> ledger_tx" where
  "example_tx i = with_id (example_row (js ''cal:1'') None) i"

lemma example_tx_id [simp]: "tx_id (example_tx i) = i"
  by (simp add: example_tx_def)

theorem resolution_one_to_one_witness:
  "tx_id (example_tx (js ''a'')) \<noteq> tx_id (example_tx (js ''b''))"
proof -
  let ?rows = "[example_tx (js ''a''), example_tx (js ''b'')]"
  have r: "resolveArchiveInstallments example_env ?rows ?rows (js ''UTC'') =
      Inr [(js ''a'', example_tx (js ''a'')), (js ''b'', example_tx (js ''b''))]"
    by (simp add: resolveArchiveInstallments_def resolve_step_def by_id_def Let_def del: bindE_eq_Inr)
  from resolution_one_to_one [OF r, of "js ''a''" "example_tx (js ''a'')" "js ''b''" "example_tx (js ''b'')"]
  show ?thesis by simp
qed

end
