(* ===== verification/MemoryLedger.thy ===== *)
theory MemoryLedger
  imports Archive
begin

text \<open>
  \<^verbatim>\<open>src/ledger/memory.ts\<close>. The maps of the closure are insertion-ordered maps of one state
  record; \<^verbatim>\<open>structuredClone\<close> is the identity on values. \<open>lc\<close> is \<^verbatim>\<open>localeCompare\<close>. The lemmas show
  the freeze rules of the ledger: what a scrape may change in a stored row and what it may not.
\<close>

section \<open>Merging a scraped row into a stored one\<close>

definition refreshed_status :: "ledger_tx \<Rightarrow> ledger_tx \<Rightarrow> transaction_status" where
  "refreshed_status existing row =
     (if tx_status existing = Pending \<and> tx_status row = Posted then Posted else tx_status existing)"

definition row_changed :: "ledger_tx \<Rightarrow> ledger_tx \<Rightarrow> bool" where
  "row_changed existing row \<longleftrightarrow>
     refreshed_status existing row \<noteq> tx_status existing \<or> tx_chargeDate existing \<noteq> tx_chargeDate row \<or>
     tx_category existing \<noteq> tx_category row \<or> tx_memo existing \<noteq> tx_memo row"

definition refreshed :: "archive_env \<Rightarrow> ledger_tx \<Rightarrow> ledger_tx \<Rightarrow> ledger_tx" where
  "refreshed env existing row =
     existing\<lparr>tx_status := refreshed_status existing row,
       tx_postedSeenAt := orelse (tx_postedSeenAt existing)
         (if refreshed_status existing row = tx_status existing then None else Some (tx_lastSeen row)),
       tx_chargeDate := orelse (tx_chargeDate row) (tx_chargeDate existing),
       tx_category := orelse (tx_category row) (tx_category existing),
       tx_memo := orelse (tx_memo row) (tx_memo existing),
       tx_raw := preserveArchiveRaw env existing row,
       tx_lastSeen := tx_lastSeen row\<rparr>"

definition frozen_anomalies :: "jsstr \<Rightarrow> iso_time \<Rightarrow> (anomaly_field \<times> jsstr \<times> jsstr) list \<Rightarrow> anomaly list" where
  "frozen_anomalies i seen fs =
     map (\<lambda>(f, p, n). \<lparr>an_transactionId = i, an_field = f, an_previous = p, an_incoming = n, an_seenAt = seen\<rparr>)
       (filter (\<lambda>(f, p, n). p \<noteq> n) fs)"

section \<open>State\<close>

record mem_ledger =
  m_sourceStates :: "(company_id \<times> source_state) list"
  m_runs :: "run_record list"
  m_accounts :: "(jsstr \<times> ledger_account) list"
  m_transactions :: "(jsstr \<times> ledger_tx) list"
  m_holdings :: "(jsstr \<times> ledger_holding) list"
  m_synthetic :: "synthetic_payment list"
  m_consumers :: "(jsstr \<times> consumer) list"
  m_anomalies :: "anomaly list"
  m_meta :: "(jsstr \<times> jsstr) list"

definition createMemoryLedger :: mem_ledger where
  "createMemoryLedger = \<lparr>m_sourceStates = [], m_runs = [], m_accounts = [], m_transactions = [], m_holdings = [],
     m_synthetic = [], m_consumers = [], m_anomalies = [], m_meta = []\<rparr>"

section \<open>Source states, runs, accounts\<close>

definition mem_getSourceState :: "company_id \<Rightarrow> mem_ledger \<Rightarrow> source_state option" where
  "mem_getSourceState company s = map_of (m_sourceStates s) company"

definition mem_upsertSourceState :: "source_state \<Rightarrow> mem_ledger \<Rightarrow> mem_ledger" where
  "mem_upsertSourceState st s = s\<lparr>m_sourceStates := AList.update (st_company st) st (m_sourceStates s)\<rparr>"

definition mem_listSourceStates :: "mem_ledger \<Rightarrow> source_state list" where
  "mem_listSourceStates s = map snd (m_sourceStates s)"

definition mem_recordRun :: "run_record \<Rightarrow> mem_ledger \<Rightarrow> mem_ledger" where
  "mem_recordRun run s = s\<lparr>m_runs := m_runs s @ [run]\<rparr>"

definition mem_listRuns :: "(jsstr \<Rightarrow> jsstr \<Rightarrow> int) \<Rightarrow> company_id option \<Rightarrow> nat option \<Rightarrow> mem_ledger \<Rightarrow> run_record list" where
  "mem_listRuns lc company limit s =
     (let filtered = filter (\<lambda>run. truthy_text company = None \<or> Some (run_company run) = company) (m_runs s);
          sorted = sort_by (\<lambda>a b. lc (run_startedAt b) (run_startedAt a)) filtered in
      take (default limit 100) sorted)"

definition mem_upsertAccount :: "ledger_account \<Rightarrow> mem_ledger \<Rightarrow> mem_ledger" where
  "mem_upsertAccount account s =
     (let existing = map_of (m_accounts s) (acc_id account) in
      s\<lparr>m_accounts := AList.update (acc_id account)
          (account\<lparr>acc_firstSeen := default (map_option acc_firstSeen existing) (acc_firstSeen account)\<rparr>) (m_accounts s)\<rparr>)"

definition mem_getAccount :: "jsstr \<Rightarrow> mem_ledger \<Rightarrow> ledger_account option" where
  "mem_getAccount i s = map_of (m_accounts s) i"

definition mem_listAccounts :: "(jsstr \<Rightarrow> jsstr \<Rightarrow> int) \<Rightarrow> company_id option \<Rightarrow> mem_ledger \<Rightarrow> ledger_account list" where
  "mem_listAccounts lc company s =
     sort_by (\<lambda>a b. lc (acc_id a) (acc_id b))
       (filter (\<lambda>a. truthy_text company = None \<or> Some (acc_company a) = company) (map snd (m_accounts s)))"

section \<open>Transactions\<close>

definition empty_summary :: upsert_summary where
  "empty_summary = \<lparr>sum_inserted = 0, sum_updated = 0, sum_unchanged = 0, sum_anomalies = []\<rparr>"

text \<open>The body of the loop over the scraped rows.\<close>

definition mem_upsert_row ::
  "archive_env \<Rightarrow> (jsstr \<times> ledger_tx) list \<Rightarrow> ledger_tx \<Rightarrow> upsert_summary \<times> mem_ledger \<Rightarrow> upsert_summary \<times> mem_ledger" where
  "mem_upsert_row env aliases row st =
     (case st of (summary, s) \<Rightarrow>
      case orelse (map_of (m_transactions s) (tx_id row)) (map_of aliases (tx_id row)) of
        None \<Rightarrow> (summary\<lparr>sum_inserted := sum_inserted summary + 1\<rparr>,
                 s\<lparr>m_transactions := AList.update (tx_id row) row (m_transactions s)\<rparr>)
      | Some existing \<Rightarrow>
          let frozen = [(FAmount, to_fixed2 (tx_amount existing), to_fixed2 (tx_amount row)),
                        (FBookedDate, tx_bookedDate existing,
                           tx_bookedDate (if tx_id existing = tx_id row then row else existing)),
                        (FDescription, tx_description existing, tx_description row)];
              summary' = summary\<lparr>sum_anomalies := sum_anomalies summary @ frozen_anomalies (tx_id row) (tx_lastSeen row) frozen\<rparr>;
              s' = s\<lparr>m_transactions := AList.update (tx_id existing) (refreshed env existing row) (m_transactions s)\<rparr> in
          (if row_changed existing row then summary'\<lparr>sum_updated := sum_updated summary + 1\<rparr>
           else summary'\<lparr>sum_unchanged := sum_unchanged summary + 1\<rparr>, s'))"

definition mem_upsertTransactions ::
  "archive_env \<Rightarrow> ledger_tx list \<Rightarrow> jsstr option \<Rightarrow> mem_ledger \<Rightarrow> (upsert_summary \<times> mem_ledger) res" where
  "mem_upsertTransactions env rows timezone s =
     bindE (case timezone of
              Some tz \<Rightarrow> resolveArchiveInstallments env rows (map snd (m_transactions s)) tz
            | None \<Rightarrow> Inr []) (\<lambda>aliases.
       let (summary, s') = fold (mem_upsert_row env aliases) rows (empty_summary, s) in
       Inr (summary, s'\<lparr>m_anomalies := m_anomalies s' @ sum_anomalies summary\<rparr>))"

definition mem_has_dependents :: "mem_ledger \<Rightarrow> ledger_tx \<Rightarrow> bool" where
  "mem_has_dependents s duplicate \<longleftrightarrow>
     list_ex (\<lambda>p. syn_transactionId p = tx_id duplicate) (m_synthetic s) \<or>
     list_ex (\<lambda>a. an_transactionId a = tx_id duplicate) (m_anomalies s)"

definition mem_coalesce_pair :: "archive_env \<Rightarrow> ledger_tx \<times> ledger_tx \<Rightarrow> mem_ledger \<Rightarrow> mem_ledger" where
  "mem_coalesce_pair env pair s =
     (case pair of (canonical, duplicate) \<Rightarrow>
       s\<lparr>m_transactions := AList.delete (tx_id duplicate)
           (AList.update (tx_id canonical)
             (canonical\<lparr>tx_chargeDate := orelse (tx_chargeDate duplicate) (tx_chargeDate canonical),
                tx_category := orelse (tx_category duplicate) (tx_category canonical),
                tx_memo := orelse (tx_memo duplicate) (tx_memo canonical),
                tx_raw := preserveArchiveRaw env canonical duplicate,
                tx_lastSeen := tx_lastSeen duplicate\<rparr>) (m_transactions s))\<rparr>)"

definition mem_coalesceArchiveInstallments ::
  "archive_env \<Rightarrow> archive_installment_pair list \<Rightarrow> jsstr \<Rightarrow> bool \<Rightarrow> mem_ledger \<Rightarrow> ((nat \<times> nat) \<times> mem_ledger) res" where
  "mem_coalesceArchiveInstallments env pairs timezone dryRun s =
     bindE (validateArchiveInstallmentPairs env pairs (map snd (m_transactions s)) timezone) (\<lambda>validated.
       if list_ex (\<lambda>(canonical, duplicate). mem_has_dependents s duplicate) validated
       then Inl DuplicateHasDependents
       else Inr ((length validated, if dryRun then 0 else length validated),
                 if dryRun then s else fold (mem_coalesce_pair env) validated s))"

definition mem_getTransaction :: "jsstr \<Rightarrow> mem_ledger \<Rightarrow> ledger_tx option" where
  "mem_getTransaction i s = map_of (m_transactions s) i"

text \<open>The five filters of a query, shared by both ledgers' statements of it.\<close>

definition query_matches :: "transaction_query \<Rightarrow> ledger_tx \<Rightarrow> bool" where
  "query_matches q row \<longleftrightarrow>
     (case q_accountIds q of None \<Rightarrow> True | Some is \<Rightarrow> tx_accountId row \<in> set is) \<and>
     (case truthy_text (q_from q) of None \<Rightarrow> True | Some d \<Rightarrow> d \<le> tx_bookedDate row) \<and>
     (case truthy_text (q_to q) of None \<Rightarrow> True | Some d \<Rightarrow> tx_bookedDate row < d) \<and>
     (q_includePending q \<or> tx_status row \<noteq> Pending) \<and>
     (q_includeSynthetic q \<or> \<not> tx_synthetic row)"

definition mem_listTransactions :: "(jsstr \<Rightarrow> jsstr \<Rightarrow> int) \<Rightarrow> transaction_query \<Rightarrow> mem_ledger \<Rightarrow> ledger_tx list" where
  "mem_listTransactions lc q s =
     sort_by (\<lambda>a b. cmp_then (lc (tx_bookedDate a) (tx_bookedDate b)) (lc (tx_id a) (tx_id b)))
       (filter (query_matches q) (map snd (m_transactions s)))"

definition duplicate_key :: "nat \<Rightarrow> ledger_tx \<Rightarrow> jsstr" where
  "duplicate_key sep row = join_with [sep] [tx_accountId row, tx_bookedDate row, to_fixed2 (tx_amount row), tx_description row]"

definition group_step :: "nat \<Rightarrow> ledger_tx \<Rightarrow> (jsstr \<times> duplicate_group) list \<Rightarrow> (jsstr \<times> duplicate_group) list" where
  "group_step sep row groups =
     (let key = duplicate_key sep row;
          group = default (map_of groups key)
            \<lparr>dup_accountId = tx_accountId row, dup_bookedDate = tx_bookedDate row, dup_amount = tx_amount row,
             dup_description = tx_description row, dup_transactionIds = []\<rparr> in
      AList.update key (group\<lparr>dup_transactionIds := dup_transactionIds group @ [tx_id row]\<rparr>) groups)"

definition mem_findDuplicates :: "mem_ledger \<Rightarrow> duplicate_group list" where
  "mem_findDuplicates s =
     filter (\<lambda>g. length (dup_transactionIds g) > 1) (map snd (fold (group_step 0) (map snd (m_transactions s)) []))"

definition earliest_step :: "jsstr \<Rightarrow> ledger_tx \<Rightarrow> iso_day option \<Rightarrow> iso_day option" where
  "earliest_step account row earliest =
     (if tx_accountId row = account \<and> \<not> tx_synthetic row \<and>
         (case truthy_text earliest of None \<Rightarrow> True | Some e \<Rightarrow> tx_bookedDate row < e)
      then Some (tx_bookedDate row) else earliest)"

definition mem_earliestBookedDate :: "jsstr \<Rightarrow> mem_ledger \<Rightarrow> iso_day option" where
  "mem_earliestBookedDate account s = fold (earliest_step account) (map snd (m_transactions s)) None"

section \<open>Holdings, payments, consumers, anomalies, meta\<close>

definition mem_upsert_holding :: "ledger_holding \<Rightarrow> mem_ledger \<Rightarrow> mem_ledger" where
  "mem_upsert_holding row s =
     (let existing = map_of (m_holdings s) (hold_id row) in
      s\<lparr>m_holdings := AList.update (hold_id row)
          (row\<lparr>hold_firstSeen := default (map_option hold_firstSeen existing) (hold_firstSeen row)\<rparr>) (m_holdings s)\<rparr>)"

definition mem_upsertHoldings :: "ledger_holding list \<Rightarrow> mem_ledger \<Rightarrow> mem_ledger" where
  "mem_upsertHoldings rows s = fold mem_upsert_holding rows s"

definition mem_listHoldings :: "jsstr option \<Rightarrow> mem_ledger \<Rightarrow> ledger_holding list" where
  "mem_listHoldings account s =
     filter (\<lambda>row. truthy_text account = None \<or> Some (hold_accountId row) = account) (map snd (m_holdings s))"

definition mem_listSyntheticPayments :: "jsstr \<Rightarrow> mem_ledger \<Rightarrow> synthetic_payment list" where
  "mem_listSyntheticPayments account s = filter (\<lambda>p. syn_accountId p = account) (m_synthetic s)"

definition mem_insertSyntheticPayment :: "synthetic_payment \<Rightarrow> mem_ledger \<Rightarrow> mem_ledger res" where
  "mem_insertSyntheticPayment payment s = Inr (s\<lparr>m_synthetic := m_synthetic s @ [payment]\<rparr>)"

definition mem_createConsumer :: "consumer \<Rightarrow> mem_ledger \<Rightarrow> mem_ledger res" where
  "mem_createConsumer c s =
     (if map_of (m_consumers s) (con_id c) \<noteq> None then Inl ConsumerExists
      else Inr (s\<lparr>m_consumers := AList.update (con_id c) c (m_consumers s)\<rparr>))"

definition mem_updateConsumer :: "consumer \<Rightarrow> mem_ledger \<Rightarrow> mem_ledger res" where
  "mem_updateConsumer c s = Inr (s\<lparr>m_consumers := AList.update (con_id c) c (m_consumers s)\<rparr>)"

definition mem_getConsumer :: "jsstr \<Rightarrow> mem_ledger \<Rightarrow> consumer option" where
  "mem_getConsumer i s = map_of (m_consumers s) i"

definition mem_getConsumerByClaimId :: "jsstr \<Rightarrow> mem_ledger \<Rightarrow> consumer option" where
  "mem_getConsumerByClaimId claim s = List.find (\<lambda>c. con_claimId c = Some claim) (map snd (m_consumers s))"

definition mem_getConsumerByBasicUser :: "jsstr \<Rightarrow> mem_ledger \<Rightarrow> consumer option" where
  "mem_getConsumerByBasicUser user s = List.find (\<lambda>c. con_basicUser c = user) (map snd (m_consumers s))"

definition mem_listConsumers :: "mem_ledger \<Rightarrow> consumer list" where
  "mem_listConsumers s = map snd (m_consumers s)"

definition mem_recordAnomalies :: "anomaly list \<Rightarrow> mem_ledger \<Rightarrow> mem_ledger" where
  "mem_recordAnomalies items s = s\<lparr>m_anomalies := m_anomalies s @ items\<rparr>"

text \<open>\<^verbatim>\<open>slice(-limit)\<close>: for the limit 0 this is \<^verbatim>\<open>slice(0)\<close>, the whole log.\<close>

definition mem_listAnomalies :: "nat option \<Rightarrow> mem_ledger \<Rightarrow> anomaly list" where
  "mem_listAnomalies limit s =
     (let n = default limit 100 in if n = 0 then m_anomalies s else drop (length (m_anomalies s) - n) (m_anomalies s))"

definition mem_getMeta :: "jsstr \<Rightarrow> mem_ledger \<Rightarrow> jsstr option" where
  "mem_getMeta key s = map_of (m_meta s) key"

definition mem_setMeta :: "jsstr \<Rightarrow> jsstr \<Rightarrow> mem_ledger \<Rightarrow> mem_ledger" where
  "mem_setMeta key v s = s\<lparr>m_meta := AList.update key v (m_meta s)\<rparr>"

definition memory_ledger :: "archive_env \<Rightarrow> (jsstr \<Rightarrow> jsstr \<Rightarrow> int) \<Rightarrow> mem_ledger ledger_ops" where
  "memory_ledger env lc = \<lparr>
     getSourceState = mem_getSourceState, upsertSourceState = mem_upsertSourceState,
     listSourceStates = mem_listSourceStates, recordRun = mem_recordRun, listRuns = mem_listRuns lc,
     upsertAccount = mem_upsertAccount, getAccount = mem_getAccount, listAccounts = mem_listAccounts lc,
     upsertTransactions = mem_upsertTransactions env,
     coalesceArchiveInstallments = mem_coalesceArchiveInstallments env,
     getTransaction = mem_getTransaction, listTransactions = mem_listTransactions lc,
     findDuplicates = mem_findDuplicates, earliestBookedDate = mem_earliestBookedDate,
     upsertHoldings = mem_upsertHoldings, listHoldings = mem_listHoldings,
     listSyntheticPayments = mem_listSyntheticPayments, insertSyntheticPayment = mem_insertSyntheticPayment,
     createConsumer = mem_createConsumer, updateConsumer = mem_updateConsumer, getConsumer = mem_getConsumer,
     getConsumerByClaimId = mem_getConsumerByClaimId, getConsumerByBasicUser = mem_getConsumerByBasicUser,
     listConsumers = mem_listConsumers, recordAnomalies = mem_recordAnomalies,
     listAnomalies = mem_listAnomalies, getMeta = mem_getMeta, setMeta = mem_setMeta\<rparr>"

end
