(* ===== verification/LedgerContract.thy ===== *)
theory LedgerContract
  imports Types
begin

text \<open>
  What the rest of the bridge relies on when it calls a \<^verbatim>\<open>Ledger\<close>: the interface of
  \<^verbatim>\<open>src/types.ts\<close> with the laws its comments promise, as locales over a record of operations. The
  clients' lemmas are proved once, inside; the two ledgers interpret the locales.
\<close>

section \<open>Frozen rows\<close>

text \<open>
  A row without the fields a later scrape may refresh. How a stored row may develop: the frozen
  part stays, a posted row stays posted, the time a row was first seen posted is set once, when
  the row turns from pending to posted, and a known charge date is never forgotten.
\<close>

definition frozen_part :: "ledger_tx \<Rightarrow> ledger_tx" where
  "frozen_part t = t\<lparr>tx_status := Posted, tx_postedSeenAt := None, tx_chargeDate := None, tx_category := None,
     tx_memo := None, tx_raw := JUndef, tx_lastSeen := []\<rparr>"

definition evolves :: "ledger_tx \<Rightarrow> ledger_tx \<Rightarrow> bool" where
  "evolves t t' \<longleftrightarrow>
     frozen_part t' = frozen_part t \<and>
     (tx_status t = Posted \<longrightarrow> tx_status t' = Posted) \<and>
     (tx_postedSeenAt t \<noteq> None \<longrightarrow> tx_postedSeenAt t' = tx_postedSeenAt t) \<and>
     (tx_status t = Pending \<and> tx_status t' = Posted \<longrightarrow> tx_postedSeenAt t' \<noteq> None) \<and>
     (tx_chargeDate t \<noteq> None \<longrightarrow> tx_chargeDate t' \<noteq> None)"

lemma evolves_refl [simp, intro]: "evolves t t"
  by (auto simp: evolves_def)

lemma evolves_trans: "evolves t u \<Longrightarrow> evolves u v \<Longrightarrow> evolves t v"
  unfolding evolves_def by (metis (full_types) transaction_status.exhaust)

lemma frozen_partD:
  assumes "frozen_part t' = frozen_part t"
  shows "tx_id t' = tx_id t" "tx_accountId t' = tx_accountId t" "tx_bookedDate t' = tx_bookedDate t"
    "tx_amount t' = tx_amount t" "tx_currency t' = tx_currency t" "tx_description t' = tx_description t"
    "tx_company t' = tx_company t" "tx_identifier t' = tx_identifier t" "tx_synthetic t' = tx_synthetic t"
    "tx_firstSeen t' = tx_firstSeen t" "tx_installmentNumber t' = tx_installmentNumber t"
    "tx_installmentTotal t' = tx_installmentTotal t" "tx_originalAmount t' = tx_originalAmount t"
  using assms by (cases t; cases t'; simp add: frozen_part_def)+

text \<open>Any number of scrapes: each a batch of rows, with the timezone of the archive resolution or without.\<close>

definition run_batches ::
  "(ledger_tx list \<Rightarrow> jsstr option \<Rightarrow> 'l \<Rightarrow> (upsert_summary \<times> 'l) res) \<Rightarrow> (ledger_tx list \<times> jsstr option) list \<Rightarrow> 'l \<Rightarrow> 'l res" where
  "run_batches upsert = foldE (\<lambda>(rows, tz) s. bindE (upsert rows tz s) (\<lambda>r. Inr (snd r)))"

lemma run_batches_simps [simp]:
  "run_batches upsert [] s = Inr s"
  "run_batches upsert ((rows, tz) # bs) s = bindE (upsert rows tz s) (\<lambda>r. run_batches upsert bs (snd r))"
  by (simp_all add: run_batches_def bindE_def split: sum.splits)

locale transaction_store =
  fixes L :: "'l ledger_ops" and inv :: "'l \<Rightarrow> bool"
  assumes upsert_inv: "inv s \<Longrightarrow> upsertTransactions L rows tz s = Inr (summary, s') \<Longrightarrow> inv s'"
    and upsert_evolves: "inv s \<Longrightarrow> upsertTransactions L rows tz s = Inr (summary, s') \<Longrightarrow>
      getTransaction L i s = Some t \<Longrightarrow> \<exists>t'. getTransaction L i s' = Some t' \<and> evolves t t'"
begin

lemma batches_inv: "run_batches (upsertTransactions L) batches s = Inr s' \<Longrightarrow> inv s \<Longrightarrow> inv s'"
  by (induction batches arbitrary: s) (auto, blast intro: upsert_inv)

lemma batches_evolve:
  assumes "run_batches (upsertTransactions L) batches s = Inr s'" "inv s" "getTransaction L i s = Some t"
  shows "\<exists>t'. getTransaction L i s' = Some t' \<and> evolves t t'"
  using assms
proof (induction batches arbitrary: s t)
  case Nil
  then show ?case by auto
next
  case (Cons b batches)
  obtain rows tz where b: "b = (rows, tz)" by fastforce
  from Cons.prems(1) obtain summary s1 where s1: "upsertTransactions L rows tz s = Inr (summary, s1)"
    "run_batches (upsertTransactions L) batches s1 = Inr s'" by (auto simp: b)
  from upsert_evolves [OF Cons.prems(2) s1(1) Cons.prems(3)] obtain t1 where
    t1: "getTransaction L i s1 = Some t1" "evolves t t1" by blast
  from Cons.IH [OF s1(2) upsert_inv [OF Cons.prems(2) s1(1)] t1(1)] t1(2) show ?case
    by (blast intro: evolves_trans)
qed

end

section \<open>Consumers\<close>

locale consumer_store =
  fixes L :: "'l ledger_ops" and inv :: "'l \<Rightarrow> bool"
  assumes create_inv: "inv s \<Longrightarrow> createConsumer L c s = Inr s' \<Longrightarrow> inv s'"
    and update_inv: "inv s \<Longrightarrow> updateConsumer L c s = Inr s' \<Longrightarrow> inv s'"
    and get_create: "inv s \<Longrightarrow> createConsumer L c s = Inr s' \<Longrightarrow>
      getConsumer L i s' = (if i = con_id c then Some c else getConsumer L i s)"
    and create_new: "inv s \<Longrightarrow> createConsumer L c s = Inr s' \<Longrightarrow> getConsumer L (con_id c) s = None"
    and get_update: "inv s \<Longrightarrow> updateConsumer L c s = Inr s' \<Longrightarrow>
      getConsumer L i s' = (if i = con_id c then Some c else getConsumer L i s)"
    and get_id: "inv s \<Longrightarrow> getConsumer L i s = Some c \<Longrightarrow> con_id c = i"
    and by_claim: "inv s \<Longrightarrow> getConsumerByClaimId L k s = Some c \<Longrightarrow>
      con_claimId c = Some k \<and> getConsumer L (con_id c) s = Some c"
    and by_user: "inv s \<Longrightarrow> getConsumerByBasicUser L u s = Some c \<Longrightarrow>
      con_basicUser c = u \<and> getConsumer L (con_id c) s = Some c"
    and list_all_consumers: "inv s \<Longrightarrow> c \<in> set (listConsumers L s) \<longleftrightarrow> getConsumer L (con_id c) s = Some c"

section \<open>Source states\<close>

locale state_store =
  fixes L :: "'l ledger_ops" and inv :: "'l \<Rightarrow> bool"
  assumes state_inv: "inv s \<Longrightarrow> inv (upsertSourceState L st s)"
    and get_state: "inv s \<Longrightarrow> getSourceState L c (upsertSourceState L st s) =
      (if c = st_company st then Some st else getSourceState L c s)"
    and state_company: "inv s \<Longrightarrow> getSourceState L c s = Some st \<Longrightarrow> st_company st = c"

end
