(* ===== verification/MemoryProofs.thy ===== *)
theory MemoryProofs
  imports MemoryLedger LedgerContract
begin

text \<open>
  The in-memory ledger satisfies the contracts of \<open>LedgerContract\<close>: its invariant, the freeze rules
  over a batch, and the interpretations.
\<close>

section \<open>Invariant\<close>

definition keyed :: "('a \<Rightarrow> jsstr) \<Rightarrow> (jsstr \<times> 'a) list \<Rightarrow> bool" where
  "keyed key m \<longleftrightarrow> distinct (map fst m) \<and> (\<forall>(k, v)\<in>set m. key v = k)"

lemma keyed_update: "keyed key m \<Longrightarrow> keyed key (AList.update (key v) v m)"
  unfolding keyed_def using set_update_subset [of "key v" v m] by (auto simp: distinct_update)

lemma keyed_lookup: "keyed key m \<Longrightarrow> map_of m k = Some v \<Longrightarrow> key v = k"
  by (auto simp: keyed_def dest: map_of_SomeD)

lemma keyed_in: "keyed key m \<Longrightarrow> v \<in> snd ` set m \<Longrightarrow> map_of m (key v) = Some v"
  by (force simp: keyed_def)

lemma keyed_delete: "keyed key m \<Longrightarrow> keyed key (AList.delete k m)"
  by (auto simp: keyed_def AList.delete_eq distinct_map_filter)

definition mem_inv :: "mem_ledger \<Rightarrow> bool" where
  "mem_inv s \<longleftrightarrow> keyed tx_id (m_transactions s) \<and> keyed con_id (m_consumers s) \<and>
     keyed st_company (m_sourceStates s) \<and> keyed acc_id (m_accounts s)"

lemma mem_inv_empty: "mem_inv createMemoryLedger"
  by (simp add: mem_inv_def createMemoryLedger_def keyed_def)

section \<open>Refreshing a row\<close>

lemma refreshed_frozen [simp]: "frozen_part (refreshed env existing row) = frozen_part existing"
  by (simp add: refreshed_def frozen_part_def)

lemma refreshed_id [simp]: "tx_id (refreshed env existing row) = tx_id existing"
  by (simp add: refreshed_def)

lemma refreshed_evolves: "evolves existing (refreshed env existing row)"
  by (auto simp: evolves_def refreshed_status_def) (auto simp: refreshed_def refreshed_status_def orelse_def split: option.splits)

section \<open>A batch\<close>

text \<open>The loop invariant: every row stored before the batch is still there, developed.\<close>

definition batch_inv :: "mem_ledger \<Rightarrow> mem_ledger \<Rightarrow> bool" where
  "batch_inv s0 s \<longleftrightarrow> mem_inv s \<and>
     (\<forall>i t. map_of (m_transactions s0) i = Some t \<longrightarrow>
        (\<exists>t'. map_of (m_transactions s) i = Some t' \<and> evolves t t'))"

lemma mem_upsert_row_state:
  "snd (mem_upsert_row env aliases row (summary, s)) =
     (case orelse (map_of (m_transactions s) (tx_id row)) (map_of aliases (tx_id row)) of
        None \<Rightarrow> s\<lparr>m_transactions := AList.update (tx_id row) row (m_transactions s)\<rparr>
      | Some existing \<Rightarrow> s\<lparr>m_transactions := AList.update (tx_id existing) (refreshed env existing row) (m_transactions s)\<rparr>)"
  by (simp add: mem_upsert_row_def Let_def split: option.splits)

lemma mem_upsert_row_inv:
  assumes "batch_inv s0 (snd st)"
    and aliases: "\<And>i c. map_of aliases i = Some c \<Longrightarrow> map_of (m_transactions s0) (tx_id c) = Some c"
  shows "batch_inv s0 (snd (mem_upsert_row env aliases row st))"
proof -
  obtain summary s where st: "st = (summary, s)" by fastforce
  let ?m = "m_transactions s"
  from assms(1) have inv: "mem_inv s" and old: "\<And>i t. map_of (m_transactions s0) i = Some t \<Longrightarrow>
      \<exists>t'. map_of ?m i = Some t' \<and> evolves t t'" by (auto simp: batch_inv_def st)
  from inv have key: "keyed tx_id ?m" by (simp add: mem_inv_def)
  have upd: "batch_inv s0 (s\<lparr>m_transactions := AList.update (tx_id r) r ?m\<rparr>)"
    if r: "\<And>t. map_of (m_transactions s0) (tx_id r) = Some t \<Longrightarrow> evolves t r" for r
    using inv keyed_update [OF key, of r] old r by (auto simp: batch_inv_def mem_inv_def)
  show ?thesis
  proof (cases "map_of ?m (tx_id row)")
    case (Some existing)
    then have id: "tx_id existing = tx_id row" by (rule keyed_lookup [OF key])
    have "evolves t (refreshed env existing row)" if "map_of (m_transactions s0) (tx_id existing) = Some t" for t
      using old [OF that] Some id refreshed_evolves evolves_trans by (metis option.inject)
    with Some upd [of "refreshed env existing row"] show ?thesis by (simp add: st mem_upsert_row_state)
  next
    case None
    show ?thesis
    proof (cases "map_of aliases (tx_id row)")
      case (Some c)
      with aliases refreshed_evolves [of c env row] have "evolves t (refreshed env c row)"
        if "map_of (m_transactions s0) (tx_id c) = Some t" for t using that by (metis option.inject)
      with None Some upd [of "refreshed env c row"] show ?thesis by (simp add: st mem_upsert_row_state)
    next
      case no: None
      with None old upd [of row] show ?thesis by (fastforce simp: st mem_upsert_row_state)
    qed
  qed
qed

lemma mem_upsert_fold_inv:
  assumes "batch_inv s0 (snd st)"
    and "\<And>i c. map_of aliases i = Some c \<Longrightarrow> map_of (m_transactions s0) (tx_id c) = Some c"
  shows "batch_inv s0 (snd (fold (mem_upsert_row env aliases) rows st))"
  using assms(1) by (induction rows arbitrary: st) (simp_all add: mem_upsert_row_inv assms(2))

lemma mem_upsertTransactions_batch:
  assumes "mem_upsertTransactions env rows tz s = Inr (summary, s')" "mem_inv s"
  shows "batch_inv s s'"
proof -
  from assms(1) obtain aliases where al: "(case tz of Some z \<Rightarrow> resolveArchiveInstallments env rows (map snd (m_transactions s)) z
      | None \<Rightarrow> Inr []) = Inr aliases"
    and s': "s' = (snd (fold (mem_upsert_row env aliases) rows (empty_summary, s)))
      \<lparr>m_anomalies := m_anomalies (snd (fold (mem_upsert_row env aliases) rows (empty_summary, s))) @ sum_anomalies summary\<rparr>"
    unfolding mem_upsertTransactions_def by (auto simp: Let_def case_prod_beta)
  have "map_of (m_transactions s) (tx_id c) = Some c" if "map_of aliases i = Some c" for i c
  proof -
    from al that have "c \<in> snd ` set (m_transactions s)"
      by (cases tz) (use resolve_sound(1) in fastforce)+
    with assms(2) show ?thesis by (intro keyed_in) (simp_all add: mem_inv_def)
  qed
  moreover have "batch_inv s (snd (empty_summary, s))" using assms(2) by (auto simp: batch_inv_def)
  ultimately have "batch_inv s (snd (fold (mem_upsert_row env aliases) rows (empty_summary, s)))"
    by (intro mem_upsert_fold_inv)
  then show ?thesis by (simp add: s' batch_inv_def mem_inv_def)
qed

section \<open>Interpretations\<close>

lemmas memory_ops = memory_ledger_def

interpretation mem_tx: transaction_store "memory_ledger env lc" mem_inv for env lc
  by unfold_locales
     (auto simp: memory_ops mem_getTransaction_def batch_inv_def dest!: mem_upsertTransactions_batch)

lemma find_snd_lookup:
  "keyed key m \<Longrightarrow> List.find P (map snd m) = Some v \<Longrightarrow> P v \<and> map_of m (key v) = Some v"
  using find_Some_iff_in [of P "map snd m" v] keyed_in [of key m v] by auto

lemma keyed_set: "keyed key m \<Longrightarrow> v \<in> snd ` set m \<longleftrightarrow> map_of m (key v) = Some v"
  using keyed_in [of key m v] by (auto dest: map_of_SomeD intro: rev_image_eqI)

interpretation mem_con: consumer_store "memory_ledger env lc" mem_inv for env lc
proof unfold_locales
  fix s :: mem_ledger and c i k u
  assume inv: "mem_inv s"
  then have key: "keyed con_id (m_consumers s)" by (simp add: mem_inv_def)
  note defs = memory_ops mem_getConsumer_def mem_getConsumerByClaimId_def mem_getConsumerByBasicUser_def mem_listConsumers_def
  show "getConsumer (memory_ledger env lc) i s = Some c \<Longrightarrow> con_id c = i"
    using keyed_lookup [OF key] by (simp add: defs)
  show "getConsumerByClaimId (memory_ledger env lc) k s = Some c \<Longrightarrow>
      con_claimId c = Some k \<and> getConsumer (memory_ledger env lc) (con_id c) s = Some c"
    using find_snd_lookup [OF key, of "\<lambda>c. con_claimId c = Some k" c] by (simp add: defs)
  show "getConsumerByBasicUser (memory_ledger env lc) u s = Some c \<Longrightarrow>
      con_basicUser c = u \<and> getConsumer (memory_ledger env lc) (con_id c) s = Some c"
    using find_snd_lookup [OF key, of "\<lambda>c. con_basicUser c = u" c] by (simp add: defs)
  show "c \<in> set (listConsumers (memory_ledger env lc) s) \<longleftrightarrow> getConsumer (memory_ledger env lc) (con_id c) s = Some c"
    using keyed_set [OF key] by (simp add: defs)
qed (auto simp: memory_ops mem_createConsumer_def mem_updateConsumer_def mem_getConsumer_def mem_inv_def
    keyed_update split: if_splits)

interpretation mem_state: state_store "memory_ledger env lc" mem_inv for env lc
  by unfold_locales
     (auto simp: memory_ops mem_getSourceState_def mem_upsertSourceState_def mem_inv_def keyed_update
       dest: keyed_lookup)

text \<open>A ledger that holds one pending row, and the scrape that finds it posted.\<close>

definition pending_row :: ledger_tx where
  "pending_row = (example_tx (js ''a''))\<lparr>tx_status := Pending\<rparr>"

definition one_row :: mem_ledger where
  "one_row = createMemoryLedger\<lparr>m_transactions := [(js ''a'', pending_row)]\<rparr>"

lemma one_row_simps [simp]:
  "tx_id pending_row = js ''a''" "m_transactions one_row = [(js ''a'', pending_row)]"
  "mem_inv one_row" "mem_getTransaction (js ''a'') one_row = Some pending_row"
  by (simp_all add: pending_row_def one_row_def mem_inv_def keyed_def createMemoryLedger_def mem_getTransaction_def)

section \<open>What a scrape or a repair leaves in a row\<close>

text \<open>The archive evidence a raw record carries, if it is well-formed.\<close>

definition kept_archive :: "archive_env \<Rightarrow> jsval \<Rightarrow> jsval option" where
  "kept_archive env raw =
     (let v = js_prop (js_object raw) ''archiveMigration''; archive = js_object v in
      if archive = None \<or> \<not> is_origin (js_prop archive ''origin'')
         \<or> text_where (ar_isUuid env) (js_prop archive ''originRowId'') = None
      then None else Some v)"

lemma preserve_kept: "preserveArchiveRaw env t row =
    (case kept_archive env (tx_raw t) of None \<Rightarrow> tx_raw row
     | Some v \<Rightarrow> JObj (AList.update (js ''archiveMigration'') v (default (js_object (tx_raw row)) [])))"
  by (simp add: preserveArchiveRaw_def kept_archive_def Let_def)

text \<open>
  What a stored row takes over from another: its charge date, category and memo where the other knows them, its raw record with
  the archive evidence of the stored row, and when it was last seen; nothing else.
\<close>

definition takes_over :: "archive_env \<Rightarrow> ledger_tx \<Rightarrow> ledger_tx \<Rightarrow> ledger_tx \<Rightarrow> bool" where
  "takes_over env t r t' \<longleftrightarrow> frozen_part t' = frozen_part t \<and>
     tx_chargeDate t' = (if tx_chargeDate r = None then tx_chargeDate t else tx_chargeDate r) \<and>
     tx_category t' = (if tx_category r = None then tx_category t else tx_category r) \<and>
     tx_memo t' = (if tx_memo r = None then tx_memo t else tx_memo r) \<and>
     tx_lastSeen t' = tx_lastSeen r \<and>
     (case kept_archive env (tx_raw t) of
        None \<Rightarrow> tx_raw t' = tx_raw r
      | Some v \<Rightarrow> \<exists>ps. tx_raw t' = JObj ps \<and>
          map_of ps = (map_of (default (js_object (tx_raw r)) []))(js ''archiveMigration'' \<mapsto> v))"

definition refreshed_by :: "archive_env \<Rightarrow> ledger_tx \<Rightarrow> ledger_tx \<Rightarrow> ledger_tx \<Rightarrow> bool" where
  "refreshed_by env t r t' \<longleftrightarrow> takes_over env t r t' \<and>
     (tx_status t' = Posted \<longleftrightarrow> tx_status t = Posted \<or> tx_status r = Posted) \<and>
     tx_postedSeenAt t' =
       (if tx_postedSeenAt t \<noteq> None then tx_postedSeenAt t
        else if tx_status t = Pending \<and> tx_status r = Posted then Some (tx_lastSeen r) else None)"

definition merged_from :: "archive_env \<Rightarrow> ledger_tx \<Rightarrow> ledger_tx \<Rightarrow> ledger_tx \<Rightarrow> bool" where
  "merged_from env c d c' \<longleftrightarrow> takes_over env c d c' \<and> tx_status c' = tx_status c \<and> tx_postedSeenAt c' = tx_postedSeenAt c"

lemma takes_over_raw:
  "case kept_archive env (tx_raw t) of
     None \<Rightarrow> preserveArchiveRaw env t r = tx_raw r
   | Some v \<Rightarrow> \<exists>ps. preserveArchiveRaw env t r = JObj ps \<and>
       map_of ps = (map_of (default (js_object (tx_raw r)) []))(js ''archiveMigration'' \<mapsto> v)"
  by (simp add: preserve_kept update_conv' split: option.split)

lemma refreshed_meets: "refreshed_by env t r (refreshed env t r)"
proof -
  have "(tx_status (refreshed env t r) = Posted) = (tx_status t = Posted \<or> tx_status r = Posted)"
    by (cases "tx_status t"; cases "tx_status r") (simp_all add: refreshed_def refreshed_status_def)
  moreover have "tx_postedSeenAt (refreshed env t r) =
      (if tx_postedSeenAt t \<noteq> None then tx_postedSeenAt t
       else if tx_status t = Pending \<and> tx_status r = Posted then Some (tx_lastSeen r) else None)"
    by (cases "tx_status t"; cases "tx_status r") (auto simp: refreshed_def refreshed_status_def orelse_def split: option.splits)
  moreover have "takes_over env t r (refreshed env t r)"
    using takes_over_raw [of env t r]
    by (auto simp: takes_over_def) (auto simp: refreshed_def orelse_def split: option.splits)
  ultimately show ?thesis
    unfolding refreshed_by_def by blast
qed

section \<open>The effect of a batch\<close>

text \<open>
  The stored row a scraped row belongs to: the one with its id, else an archived instalment whose complete identity
  it matches.
\<close>

definition scraped_target :: "archive_env \<Rightarrow> jsstr option \<Rightarrow> mem_ledger \<Rightarrow> ledger_tx \<Rightarrow> ledger_tx option" where
  "scraped_target env tz s r =
     (case mem_getTransaction (tx_id r) s of
        Some t \<Rightarrow> Some t
      | None \<Rightarrow> (case tz of None \<Rightarrow> None
          | Some z \<Rightarrow> List.find (\<lambda>c. matchesArchiveInstallment env c r z) (map snd (m_transactions s))))"

definition lands_on :: "ledger_tx option \<Rightarrow> ledger_tx \<Rightarrow> jsstr" where
  "lands_on target r = (case target of None \<Rightarrow> tx_id r | Some t \<Rightarrow> tx_id t)"

text \<open>Whether a scraped row counts as an update of a stored one, and the conflicts it reports.\<close>

definition differs :: "ledger_tx \<Rightarrow> ledger_tx \<Rightarrow> bool" where
  "differs t r \<longleftrightarrow> tx_status t = Pending \<and> tx_status r = Posted \<or> tx_chargeDate t \<noteq> tx_chargeDate r \<or>
     tx_category t \<noteq> tx_category r \<or> tx_memo t \<noteq> tx_memo r"

definition conflicts :: "ledger_tx \<Rightarrow> ledger_tx \<Rightarrow> anomaly list" where
  "conflicts t r =
     (let conflict = (\<lambda>f p n. if p = n then [] else
        [\<lparr>an_transactionId = tx_id r, an_field = f, an_previous = p, an_incoming = n, an_seenAt = tx_lastSeen r\<rparr>]) in
      conflict FAmount (to_fixed2 (tx_amount t)) (to_fixed2 (tx_amount r)) @
      (if tx_id t = tx_id r then conflict FBookedDate (tx_bookedDate t) (tx_bookedDate r) else []) @
      conflict FDescription (tx_description t) (tx_description r))"

definition summary_by :: "(ledger_tx \<Rightarrow> ledger_tx option) \<Rightarrow> ledger_tx list \<Rightarrow> upsert_summary" where
  "summary_by target rows = \<lparr>
     sum_inserted = length (filter (\<lambda>r. target r = None) rows),
     sum_updated = length (filter (\<lambda>r. \<exists>t. target r = Some t \<and> differs t r) rows),
     sum_unchanged = length (filter (\<lambda>r. \<exists>t. target r = Some t \<and> \<not> differs t r) rows),
     sum_anomalies = concat (map (\<lambda>r. case target r of None \<Rightarrow> [] | Some t \<Rightarrow> conflicts t r) rows)\<rparr>"

definition stored_after :: "archive_env \<Rightarrow> ledger_tx option \<Rightarrow> ledger_tx \<Rightarrow> ledger_tx" where
  "stored_after env old row = (case old of None \<Rightarrow> row | Some t \<Rightarrow> refreshed env t row)"

definition batch_effect ::
  "archive_env \<Rightarrow> (ledger_tx \<Rightarrow> ledger_tx option) \<Rightarrow> ledger_tx list \<Rightarrow> (jsstr \<Rightarrow> ledger_tx option) \<Rightarrow> jsstr \<Rightarrow> ledger_tx option" where
  "batch_effect env target rows get i =
     (case List.find (\<lambda>r. lands_on (target r) r = i) rows of
        Some r \<Rightarrow> Some (stored_after env (target r) r)
      | None \<Rightarrow> get i)"

definition add_summary :: "upsert_summary \<Rightarrow> upsert_summary \<Rightarrow> upsert_summary" where
  "add_summary a b = \<lparr>sum_inserted = sum_inserted a + sum_inserted b, sum_updated = sum_updated a + sum_updated b,
     sum_unchanged = sum_unchanged a + sum_unchanged b, sum_anomalies = sum_anomalies a @ sum_anomalies b\<rparr>"

lemma add_summary_simps [simp]:
  "add_summary empty_summary b = b" "add_summary (add_summary a b) c = add_summary a (add_summary b c)"
  "summary_by target [] = empty_summary" "add_summary a empty_summary = a"
  by (simp_all add: add_summary_def empty_summary_def summary_by_def)

lemma summary_by_Cons: "summary_by target (r # rs) = add_summary (summary_by target [r]) (summary_by target rs)"
  by (cases "target r") (simp_all add: summary_by_def add_summary_def)

lemma row_changed_differs: "row_changed t r \<longleftrightarrow> differs t r"
  by (cases "tx_status t"; cases "tx_status r") (auto simp: row_changed_def differs_def refreshed_status_def)

lemma mem_upsert_row_effect:
  assumes "orelse (map_of (m_transactions s) (tx_id row)) (map_of aliases (tx_id row)) = target row"
  shows "mem_upsert_row env aliases row (summary, s) = (add_summary summary (summary_by target [row]),
    s\<lparr>m_transactions := AList.update (lands_on (target row) row) (stored_after env (target row) row) (m_transactions s)\<rparr>)"
proof (cases "target row")
  case None
  with assms show ?thesis
    by (simp add: mem_upsert_row_def summary_by_def stored_after_def add_summary_def lands_on_def)
next
  case (Some t)
  have "frozen_anomalies (tx_id row) (tx_lastSeen row)
      [(FAmount, to_fixed2 (tx_amount t), to_fixed2 (tx_amount row)),
       (FBookedDate, tx_bookedDate t, tx_bookedDate (if tx_id t = tx_id row then row else t)),
       (FDescription, tx_description t, tx_description row)] = conflicts t row"
    by (simp add: frozen_anomalies_def conflicts_def Let_def)
  with Some assms show ?thesis
    by (simp add: mem_upsert_row_def summary_by_def stored_after_def add_summary_def lands_on_def row_changed_differs Let_def)
qed

text \<open>The rows of a batch land on different rows, and on no row another scraped row has the id of.\<close>

definition apart :: "(ledger_tx \<Rightarrow> ledger_tx option) \<Rightarrow> ledger_tx list \<Rightarrow> bool" where
  "apart target rows \<longleftrightarrow> distinct (map (\<lambda>r. lands_on (target r) r) rows) \<and> distinct (map tx_id rows) \<and>
     (\<forall>r\<in>set rows. \<forall>r'\<in>set rows. r \<noteq> r' \<longrightarrow> lands_on (target r) r \<noteq> tx_id r')"

lemma mem_upsert_fold_effect:
  assumes "\<forall>r\<in>set rows. orelse (map_of (m_transactions s) (tx_id r)) (map_of aliases (tx_id r)) = target r" "apart target rows"
  shows "\<exists>m. fold (mem_upsert_row env aliases) rows (summary, s) =
      (add_summary summary (summary_by target rows), s\<lparr>m_transactions := m\<rparr>) \<and>
    map_of m = batch_effect env target rows (map_of (m_transactions s))"
  using assms
proof (induction rows arbitrary: s summary)
  case Nil
  show ?case
    by (intro exI [of _ "m_transactions s"]) (simp add: batch_effect_def fun_eq_iff)
next
  case (Cons row rows)
  let ?key = "lands_on (target row) row"
  let ?s1 = "s\<lparr>m_transactions := AList.update ?key (stored_after env (target row) row) (m_transactions s)\<rparr>"
  have step: "mem_upsert_row env aliases row (summary, s) = (add_summary summary (summary_by target [row]), ?s1)"
    using Cons.prems(1) by (intro mem_upsert_row_effect) simp
  have rest: "apart target rows" and new: "?key \<notin> (\<lambda>r. lands_on (target r) r) ` set rows" "row \<notin> set rows"
    using Cons.prems(2) by (auto simp: apart_def)
  have "tx_id r \<noteq> ?key" if "r \<in> set rows" for r
    using Cons.prems(2) new(2) that by (auto simp: apart_def)
  then have "\<forall>r\<in>set rows. orelse (map_of (m_transactions ?s1) (tx_id r)) (map_of aliases (tx_id r)) = target r"
    using Cons.prems(1) by (simp add: update_conv')
  from Cons.IH [OF this rest] obtain m where m:
    "fold (mem_upsert_row env aliases) rows (add_summary summary (summary_by target [row]), ?s1) =
      (add_summary (add_summary summary (summary_by target [row])) (summary_by target rows), ?s1\<lparr>m_transactions := m\<rparr>)"
    "map_of m = batch_effect env target rows (map_of (m_transactions ?s1))"
    by blast
  have "List.find (\<lambda>r. lands_on (target r) r = ?key) rows = None"
    using new(1) by (fastforce simp: find_None_iff image_iff)
  then have "map_of m i = batch_effect env target (row # rows) (map_of (m_transactions s)) i" for i
    unfolding m(2) by (auto simp: batch_effect_def update_conv' split: option.splits)
  then show ?case
    using m(1) step summary_by_Cons [of target row rows] by (intro exI [of _ m]) (simp add: fun_eq_iff)
qed

text \<open>The resolution finds the target of every row.\<close>

lemma find_filter: "List.find P xs = (case filter P xs of [] \<Rightarrow> None | x # _ \<Rightarrow> Some x)"
  by (induction xs) auto

lemma resolve_lookup:
  assumes "foldE (resolve_step env stored tz) rows st = Inr st'" "distinct (map tx_id rows)" "r \<in> set rows"
    and "\<forall>r\<in>set rows. map_of (fst st) (tx_id r) = None"
  shows "(case map_of (by_id stored) (tx_id r) of Some e \<Rightarrow> Inr (Some e)
    | None \<Rightarrow> findArchiveInstallment env (identifier_group stored r) r tz) = Inr (map_of (fst st') (tx_id r))"
  using assms
proof (induction rows arbitrary: st)
  case (Cons row rows)
  obtain st1 where st1: "resolve_step env stored tz row st = Inr st1" "foldE (resolve_step env stored tz) rows st1 = Inr st'"
    using Cons.prems(1) by auto
  have one: "(case map_of (by_id stored) (tx_id row) of Some e \<Rightarrow> Inr (Some e)
      | None \<Rightarrow> findArchiveInstallment env (identifier_group stored row) row tz) = Inr (map_of (fst st1) (tx_id row))"
    and others: "i \<noteq> tx_id row \<Longrightarrow> map_of (fst st1) i = map_of (fst st) i" for i
  proof -
    obtain resolved claimed where st: "st = (resolved, claimed)" by fastforce
    obtain can where can: "(case map_of (by_id stored) (tx_id row) of Some e \<Rightarrow> Inr (Some e)
        | None \<Rightarrow> findArchiveInstallment env (identifier_group stored row) row tz) = Inr can"
      using st1(1) unfolding resolve_step_def st prod.case bindE_eq_Inr by blast
    then have "(case can of None \<Rightarrow> Inr st
        | Some c \<Rightarrow> if map_of claimed (tx_id c) \<noteq> None \<and> map_of claimed (tx_id c) \<noteq> Some (tx_id row) then Inl MultiplePortalRows
            else Inr (AList.update (tx_id row) c resolved, AList.update (tx_id c) (tx_id row) claimed)) = Inr st1"
      using st1(1) unfolding resolve_step_def st prod.case can bindE_simps Let_def by blast
    then have "map_of (fst st1) = (case can of None \<Rightarrow> map_of resolved | Some c \<Rightarrow> (map_of resolved)(tx_id row \<mapsto> c))"
      by (auto simp: st update_conv' split: option.splits if_splits)
    moreover have "map_of resolved (tx_id row) = None"
      using Cons.prems(4) by (simp add: st)
    ultimately show "(case map_of (by_id stored) (tx_id row) of Some e \<Rightarrow> Inr (Some e)
        | None \<Rightarrow> findArchiveInstallment env (identifier_group stored row) row tz) = Inr (map_of (fst st1) (tx_id row))"
      "i \<noteq> tx_id row \<Longrightarrow> map_of (fst st1) i = map_of (fst st) i"
      using can by (simp_all add: st split: option.splits)
  qed
  have kept: "map_of (fst st') i = map_of (fst st1) i" if "i \<notin> tx_id ` set rows" for i
    using st1(2) that
  proof (induction rows arbitrary: st1)
    case (Cons q qs)
    obtain st2 where "resolve_step env stored tz q st1 = Inr st2" "foldE (resolve_step env stored tz) qs st2 = Inr st'"
      using Cons.prems(1) by auto
    moreover from this(1) Cons.prems(2) have "map_of (fst st2) i = map_of (fst st1) i"
      by (auto simp: resolve_step_def Let_def split: prod.splits option.splits if_splits)
    ultimately show ?case using Cons.IH [of st2] Cons.prems(2) by simp
  qed simp
  show ?case
  proof (cases "r = row")
    case True
    with kept [of "tx_id row"] one Cons.prems(2) show ?thesis by (simp only: True) simp
  next
    case False
    with Cons.prems(3) have "r \<in> set rows" by simp
    moreover have "\<forall>q\<in>set rows. map_of (fst st1) (tx_id q) = None"
    proof
      fix q assume q: "q \<in> set rows"
      with Cons.prems(2) have "tx_id q \<noteq> tx_id row" by (auto simp: image_iff)
      from others [OF this] q Cons.prems(4) show "map_of (fst st1) (tx_id q) = None" by simp
    qed
    ultimately show ?thesis
      using Cons.IH [OF st1(2)] Cons.prems(2) by simp
  qed
qed simp

lemma by_id_keyed: "keyed tx_id m \<Longrightarrow> map_of (by_id (map snd m)) i = map_of m i"
proof (cases "map_of (by_id (map snd m)) i")
  case None
  assume key: "keyed tx_id m"
  have "map_of m i = None"
  proof (rule ccontr)
    assume "map_of m i \<noteq> None"
    then obtain v where v: "map_of m i = Some v" by blast
    then have "v \<in> set (map snd m)" by (force dest: map_of_SomeD)
    from by_id_none [OF None this] keyed_lookup [OF key v] show False by simp
  qed
  with None show ?thesis by simp
next
  case (Some r)
  assume key: "keyed tx_id m"
  from by_id_in [OF Some] keyed_in [OF key, of r] Some show ?thesis by auto
qed

lemma resolved_target:
  assumes "resolveArchiveInstallments env rows (map snd (m_transactions s)) z = Inr aliases" "mem_inv s"
    and "distinct (map tx_id rows)" "r \<in> set rows"
  shows "map_of aliases (tx_id r) = scraped_target env (Some z) s r"
proof -
  let ?stored = "map snd (m_transactions s)"
  obtain st where st: "foldE (resolve_step env ?stored z) rows ([], []) = Inr st" "aliases = fst st"
    using assms(1) by (auto simp: resolveArchiveInstallments_def)
  from resolve_lookup [OF st(1) assms(3,4)] have can:
    "(case map_of (by_id ?stored) (tx_id r) of Some e \<Rightarrow> Inr (Some e)
      | None \<Rightarrow> findArchiveInstallment env (identifier_group ?stored r) r z) = Inr (map_of aliases (tx_id r))"
    by (simp add: st(2))
  have key: "map_of (by_id ?stored) (tx_id r) = mem_getTransaction (tx_id r) s"
    using by_id_keyed assms(2) by (simp add: mem_inv_def mem_getTransaction_def)
  show ?thesis
  proof (cases "mem_getTransaction (tx_id r) s")
    case (Some t)
    with can key have "map_of aliases (tx_id r) = Some t" by simp
    with Some show ?thesis by (simp add: scraped_target_def)
  next
    case None
    have "filter (\<lambda>row. tx_id row \<noteq> tx_id r \<and> matchesArchiveInstallment env row r z) (identifier_group ?stored r) =
        filter (\<lambda>row. matchesArchiveInstallment env row r z) ?stored"
      unfolding identifier_group_def filter_filter
      by (rule filter_cong) (use by_id_none [of ?stored "tx_id r"] None key in
        \<open>auto simp: matchesArchiveInstallment_def same_occurrence_def\<close>)
    with can None key show ?thesis
      by (auto simp: scraped_target_def findArchiveInstallment_def find_filter Let_def split: if_splits list.splits)
  qed
qed

lemma lands_on_stored:
  assumes "mem_inv s" "scraped_target env tz s r = Some t"
  shows "mem_getTransaction (tx_id t) s = Some t"
proof (cases "mem_getTransaction (tx_id r) s")
  case None
  with assms(2) obtain z where "List.find (\<lambda>c. matchesArchiveInstallment env c r z) (map snd (m_transactions s)) = Some t"
    by (cases tz) (simp_all add: scraped_target_def)
  from find_Some_iff_in [OF this] have "t \<in> snd ` set (m_transactions s)" by simp
  with assms(1) keyed_in [of tx_id "m_transactions s" t] show ?thesis
    by (simp add: mem_inv_def mem_getTransaction_def)
next
  case (Some u)
  with assms keyed_lookup [of tx_id "m_transactions s" "tx_id r" u] show ?thesis
    by (simp add: scraped_target_def mem_inv_def mem_getTransaction_def)
qed

text \<open>Different rows of a scrape that resolves have different targets.\<close>

lemma targets_apart:
  assumes inv: "mem_inv s" and dist: "distinct (map tx_id rows)"
    and one: "\<And>r r' t t'. r \<in> set rows \<Longrightarrow> r' \<in> set rows \<Longrightarrow> scraped_target env tz s r = Some t \<Longrightarrow>
      scraped_target env tz s r' = Some t' \<Longrightarrow> tx_id t = tx_id t' \<Longrightarrow> tx_id r = tx_id r'"
  shows "apart (scraped_target env tz s) rows"
proof -
  let ?target = "scraped_target env tz s" and ?get = "\<lambda>i. mem_getTransaction i s"
  have own: "lands_on (?target r) r = tx_id r" if stored: "?get (tx_id r) \<noteq> None" for r
  proof -
    obtain t where "?get (tx_id r) = Some t" using stored by blast
    with inv keyed_lookup [of tx_id "m_transactions s" "tx_id r" t] show ?thesis
      by (simp add: scraped_target_def mem_inv_def mem_getTransaction_def lands_on_def)
  qed
  have fresh: "?get (tx_id r) = None \<and> lands_on (?target r) r = tx_id r" if "?target r = None" for r
    using that by (cases "?get (tx_id r)") (simp_all add: scraped_target_def lands_on_def)
  have held: "?get (lands_on (?target r) r) \<noteq> None" if some: "?target r \<noteq> None" for r
  proof -
    obtain t where t: "?target r = Some t" using some by blast
    with lands_on_stored [OF inv t] show ?thesis by (simp add: lands_on_def)
  qed
  have inj: "tx_id r = tx_id r'" if "r \<in> set rows" "r' \<in> set rows" "lands_on (?target r) r = lands_on (?target r') r'" for r r'
  proof (cases "?target r = None \<or> ?target r' = None")
    case True
    with fresh [of r] fresh [of r'] held [of r] held [of r'] that(3) show ?thesis by metis
  next
    case False
    then obtain t t' where "?target r = Some t" "?target r' = Some t'" by (cases "?target r"; cases "?target r'") simp_all
    with that one [of r r' t t'] show ?thesis by (simp add: lands_on_def)
  qed
  have id: "r = r'" if "r \<in> set rows" "r' \<in> set rows" "tx_id r = tx_id r'" for r r'
    using dist that by (simp add: distinct_map inj_on_def)
  have other: "lands_on (?target r) r \<noteq> tx_id r'" if "r \<in> set rows" "r' \<in> set rows" "r \<noteq> r'" for r r'
  proof
    assume same: "lands_on (?target r) r = tx_id r'"
    show False
    proof (cases "?get (tx_id r') = None")
      case True
      with same held [of r] fresh [of r] have "tx_id r = tx_id r'" by metis
      with id that show False by blast
    next
      case False
      with own [of r'] same inj [OF that(1,2)] id that show False by simp
    qed
  qed
  have distinct: "distinct rows" using dist by (simp add: distinct_map)
  have "distinct (map (\<lambda>r. lands_on (?target r) r) rows)"
    unfolding distinct_map inj_on_def using distinct inj id by blast
  with dist other show ?thesis by (simp add: apart_def)
qed

lemma found_apart:
  "apart target rows \<Longrightarrow> q \<in> set rows \<Longrightarrow> List.find (\<lambda>r. lands_on (target r) r = lands_on (target q) q) rows = Some q"
proof (induction rows)
  case (Cons row rows)
  show ?case
  proof (cases "row = q")
    case False
    with Cons.prems have "lands_on (target row) row \<noteq> lands_on (target q) q" "apart target rows" "q \<in> set rows"
      by (auto simp: apart_def image_iff)
    with Cons.IH show ?thesis by simp
  qed simp
qed simp

lemma upsert_effect:
  assumes "mem_inv s" "distinct (map tx_id rows)"
  shows "case mem_upsertTransactions env rows tz s of
      Inl e \<Rightarrow> \<exists>z. tz = Some z \<and> resolveArchiveInstallments env rows (map snd (m_transactions s)) z = Inl e
    | Inr (summary, s') \<Rightarrow> summary = summary_by (scraped_target env tz s) rows \<and> apart (scraped_target env tz s) rows \<and>
        (\<forall>i. mem_getTransaction i s' = batch_effect env (scraped_target env tz s) rows (\<lambda>i. mem_getTransaction i s) i) \<and>
        m_anomalies s' = m_anomalies s @ sum_anomalies summary"
proof -
  let ?target = "scraped_target env tz s"
  have run: ?thesis if al: "(case tz of Some z \<Rightarrow> resolveArchiveInstallments env rows (map snd (m_transactions s)) z | None \<Rightarrow> Inr []) = Inr aliases"
    and found: "\<forall>r\<in>set rows. orelse (map_of (m_transactions s) (tx_id r)) (map_of aliases (tx_id r)) = ?target r"
    and apart: "apart ?target rows" for aliases
  proof -
    from mem_upsert_fold_effect [OF found apart, of env empty_summary] obtain m where
      "fold (mem_upsert_row env aliases) rows (empty_summary, s) = (summary_by ?target rows, s\<lparr>m_transactions := m\<rparr>)"
      "map_of m = batch_effect env ?target rows (map_of (m_transactions s))" by auto
    with al apart show ?thesis
      by (simp add: mem_upsertTransactions_def mem_getTransaction_def fun_eq_iff)
  qed
  show ?thesis
  proof (cases tz)
    case None
    have t: "map_of (m_transactions s) (tx_id r) = ?target r" for r
      using None by (simp add: scraped_target_def mem_getTransaction_def split: option.splits)
    have "tx_id t = tx_id r" if "?target r = Some t" for r t
      using that assms(1) keyed_lookup [of tx_id "m_transactions s" "tx_id r" t] by (simp add: t mem_inv_def)
    with assms have "apart ?target rows"
      by (intro targets_apart) metis+
    then show ?thesis
      by (intro run [of "[]"]) (simp add: None, simp add: t)
  next
    case (Some z)
    show ?thesis
    proof (cases "resolveArchiveInstallments env rows (map snd (m_transactions s)) z")
      case (Inl e)
      with Some show ?thesis by (simp add: mem_upsertTransactions_def)
    next
      case (Inr aliases)
      have t: "map_of aliases (tx_id r) = ?target r" if "r \<in> set rows" for r
        using resolved_target [OF Inr assms that] Some by simp
      have "apart ?target rows"
        using assms t resolve_sound(3) [OF Inr] by (intro targets_apart) metis+
      moreover have "orelse (map_of (m_transactions s) (tx_id r)) (map_of aliases (tx_id r)) = ?target r" if "r \<in> set rows" for r
        using t [OF that] by (cases "map_of (m_transactions s) (tx_id r)") (simp_all add: scraped_target_def mem_getTransaction_def)
      ultimately show ?thesis
        using Some Inr by (intro run [of aliases]) simp_all
    qed
  qed
qed

text \<open>Without a timezone no archived instalment is looked for, and nothing fails.\<close>

lemma upsert_without_archive:
  assumes "mem_inv s" "distinct (map tx_id rows)"
  shows "\<exists>s'. mem_upsertTransactions env rows None s = Inr (summary_by (\<lambda>r. mem_getTransaction (tx_id r) s) rows, s') \<and>
    (\<forall>i. mem_getTransaction i s' = (case List.find (\<lambda>r. tx_id r = i) rows of
       Some r \<Rightarrow> Some (stored_after env (mem_getTransaction i s) r) | None \<Rightarrow> mem_getTransaction i s))"
proof -
  have t: "scraped_target env None s = (\<lambda>r. mem_getTransaction (tx_id r) s)"
    by (rule ext) (simp add: scraped_target_def split: option.split)
  have l: "lands_on (mem_getTransaction (tx_id r) s) r = tx_id r" for r
    using assms(1) keyed_lookup [of tx_id "m_transactions s" "tx_id r"]
    by (auto simp: lands_on_def mem_inv_def mem_getTransaction_def split: option.split)
  obtain u s' where u: "mem_upsertTransactions env rows None s = Inr (u, s')"
    by (simp add: mem_upsertTransactions_def split_beta Let_def)
  with upsert_effect [OF assms, where env = env and tz = None] have
    "u = summary_by (\<lambda>r. mem_getTransaction (tx_id r) s) rows"
    "\<forall>i. mem_getTransaction i s' = (case List.find (\<lambda>r. tx_id r = i) rows of
       Some r \<Rightarrow> Some (stored_after env (mem_getTransaction (tx_id r) s) r) | None \<Rightarrow> mem_getTransaction i s)"
    by (simp_all add: t batch_effect_def l)
  with u show ?thesis
    by (auto split: option.split dest!: find_Some_iff_in)
qed

text \<open>
  C6: what storing a scrape does to the in-memory ledger, with or without the resolution of archived instalments, for rows with
  pairwise different ids. It fails only when the resolution refuses the scrape, and then writes nothing. Otherwise each row belongs to the stored row
  of its id, else to the archived instalment whose identity it matches, else to none: then it is inserted as it is; a
  stored row is refreshed by it, in the fields a scrape may change and no other; every other stored row stays. The
  counters count inserted, changed and unchanged rows, and the anomalies are the conflicts in amount, date and description,
  which the log grows by.
\<close>

theorem upsert_batch_effect:
  assumes "mem_inv s" "distinct (map tx_id rows)"
  shows "case mem_upsertTransactions env rows tz s of
      Inl e \<Rightarrow> \<exists>z. tz = Some z \<and> resolveArchiveInstallments env rows (map snd (m_transactions s)) z = Inl e
    | Inr (summary, s') \<Rightarrow>
        (\<forall>r\<in>set rows. case scraped_target env tz s r of
            None \<Rightarrow> mem_getTransaction (tx_id r) s' = Some r
          | Some t \<Rightarrow> \<exists>t'. mem_getTransaction (tx_id t) s' = Some t' \<and> refreshed_by env t r t') \<and>
        (\<forall>i. (\<forall>r\<in>set rows. i \<noteq> lands_on (scraped_target env tz s r) r) \<longrightarrow> mem_getTransaction i s' = mem_getTransaction i s) \<and>
        summary = summary_by (scraped_target env tz s) rows \<and>
        m_anomalies s' = m_anomalies s @ sum_anomalies summary"
proof -
  let ?target = "scraped_target env tz s"
  note effect = upsert_effect [OF assms, where env = env and tz = tz]
  show ?thesis
  proof (cases "mem_upsertTransactions env rows tz s")
    case (Inl e)
    with effect show ?thesis by simp
  next
    case (Inr r)
    obtain summary s' where r: "r = (summary, s')" by fastforce
    with effect Inr have apart: "apart ?target rows" and parts: "summary = summary_by ?target rows"
        "m_anomalies s' = m_anomalies s @ sum_anomalies summary"
      and get: "\<And>i. mem_getTransaction i s' = batch_effect env ?target rows (\<lambda>i. mem_getTransaction i s) i"
      by simp_all
    have "case ?target q of None \<Rightarrow> mem_getTransaction (tx_id q) s' = Some q
        | Some t \<Rightarrow> \<exists>t'. mem_getTransaction (tx_id t) s' = Some t' \<and> refreshed_by env t q t'" if "q \<in> set rows" for q
    proof -
      have "mem_getTransaction (lands_on (?target q) q) s' = Some (stored_after env (?target q) q)"
        using found_apart [OF apart that] by (simp add: get batch_effect_def)
      then show ?thesis
        by (cases "?target q") (simp_all add: lands_on_def stored_after_def refreshed_meets)
    qed
    moreover have "mem_getTransaction i s' = mem_getTransaction i s" if "\<forall>q\<in>set rows. i \<noteq> lands_on (?target q) q" for i
      using that by (auto simp: get batch_effect_def find_None_iff split: option.split dest!: find_Some_iff_in)
    ultimately show ?thesis
      using Inr r parts by simp
  qed
qed

section \<open>Replaying a batch\<close>

lemma kept_update: "kept_archive env raw = Some v \<Longrightarrow>
    kept_archive env (JObj (AList.update (js ''archiveMigration'') v ps)) = Some v"
  by (auto simp: kept_archive_def js_prop_def js_object_def Let_def split: if_splits)

lemma kept_self:
  assumes "kept_archive env raw = Some v"
  shows "JObj (AList.update (js ''archiveMigration'') v (default (js_object raw) [])) = raw"
proof -
  from assms have v: "js_prop (js_object raw) ''archiveMigration'' = v" "js_object v \<noteq> None"
    by (auto simp: kept_archive_def Let_def split: if_splits)
  then obtain qs where qs: "js_object raw = Some qs" "map_of qs (js ''archiveMigration'') = Some v"
    by (auto simp: js_prop_def js_object_def default_def split: option.splits jsval.splits)
  have "AList.update k v qs = qs" if "map_of qs k = Some v" for k and qs :: "(jsstr \<times> jsval) list"
    using that by (induction qs) (auto split: if_splits)
  with qs show ?thesis by (auto simp: js_object_def split: jsval.splits)
qed

lemma preserve_self: "tx_raw t = tx_raw row \<Longrightarrow> preserveArchiveRaw env t row = tx_raw row"
  using kept_self [of env "tx_raw row"] by (simp add: preserve_kept split: option.splits)

lemma refreshed_raw [simp]: "tx_raw (refreshed env t row) = preserveArchiveRaw env t row"
  by (simp add: refreshed_def)

lemma preserve_idem: "preserveArchiveRaw env (refreshed env t row) row = preserveArchiveRaw env t row"
proof (cases "kept_archive env (tx_raw t)")
  case None
  then have "preserveArchiveRaw env t row = tx_raw row" by (simp add: preserve_kept)
  with preserve_self [of "refreshed env t row" row env] show ?thesis by simp
next
  case (Some v)
  from kept_update [OF this] show ?thesis
    by (simp only: preserve_kept [of env "refreshed env t row"] refreshed_raw preserve_kept [of env t] Some option.case)
qed

lemma refreshed_idem: "refreshed env (refreshed env t row) row = refreshed env t row"
proof -
  have st: "refreshed_status (refreshed env t row) row = refreshed_status t row"
    "tx_status (refreshed env t row) = refreshed_status t row"
    by (simp_all add: refreshed_status_def refreshed_def)
  show ?thesis
    using preserve_idem [of env t row] st
    by (subst refreshed_def) (simp add: refreshed_def orelse_def split: option.splits)
qed

lemma refreshed_self: "refreshed env row row = row"
  using preserve_self [of row row env]
  by (simp add: refreshed_def refreshed_status_def orelse_def split: option.splits)

text \<open>
  Scraping the same rows again changes no row, whatever the first pass met: the second pass
  inserts nothing and leaves every stored transaction as it is.
\<close>

theorem upsert_replay:
  assumes "mem_inv s" "distinct (map tx_id rows)"
    and "mem_upsertTransactions env rows None s = Inr (summary, s1)"
    and "mem_upsertTransactions env rows None s1 = Inr (summary2, s2)"
  shows "sum_inserted summary2 = 0 \<and> (\<forall>i. mem_getTransaction i s2 = mem_getTransaction i s1)"
proof -
  let ?get = "\<lambda>i. mem_getTransaction i s" and ?get1 = "\<lambda>i. mem_getTransaction i s1"
  have inv1: "mem_inv s1" using mem_upsertTransactions_batch [OF assms(3,1)] by (simp add: batch_inv_def)
  let ?after = "\<lambda>get i. case List.find (\<lambda>r. tx_id r = i) rows of Some r \<Rightarrow> Some (stored_after env (get i) r) | None \<Rightarrow> get i"
  from upsert_without_archive [OF assms(1,2), of env] assms(3) have e1: "?get1 i = ?after ?get i" for i by auto
  from upsert_without_archive [OF inv1 assms(2), of env] assms(4)
  have s2: "summary2 = summary_by (\<lambda>r. ?get1 (tx_id r)) rows" and e2: "mem_getTransaction i s2 = ?after ?get1 i" for i by auto
  have found: "\<exists>r. List.find (\<lambda>r. tx_id r = i) rows = Some r" if "i \<in> tx_id ` set rows" for i
    using that by (cases "List.find (\<lambda>r. tx_id r = i) rows") (auto simp: find_None_iff)
  have "?get1 (tx_id r) \<noteq> None" if "r \<in> set rows" for r
    using found [of "tx_id r"] that by (auto simp: e1)
  then have "sum_inserted summary2 = 0"
    by (simp add: s2 summary_by_def filter_empty_conv)
  moreover have "mem_getTransaction i s2 = ?get1 i" for i
    using refreshed_idem [of env] refreshed_self [of env]
    by (auto simp: e1 e2 stored_after_def split: option.splits)
  ultimately show ?thesis by blast
qed

theorem upsert_replay_witness:
  "\<exists>u s1 v s2. mem_upsertTransactions example_env [example_tx (js ''a'')] None one_row = Inr (u, s1) \<and>
     mem_upsertTransactions example_env [example_tx (js ''a'')] None s1 = Inr (v, s2) \<and> sum_inserted v = 0"
proof -
  let ?rows = "[example_tx (js ''a'')]"
  obtain u s1 where 1: "mem_upsertTransactions example_env ?rows None one_row = Inr (u, s1)"
    using upsert_without_archive [of one_row ?rows example_env] by auto
  then have "mem_inv s1" using mem_upsertTransactions_batch [OF 1] by (simp add: batch_inv_def)
  then obtain v s2 where 2: "mem_upsertTransactions example_env ?rows None s1 = Inr (v, s2)"
    using upsert_without_archive [of s1 ?rows example_env] by auto
  from upsert_replay [OF _ _ 1 2] 1 2 show ?thesis by auto
qed

text \<open>
  Stored transactions are frozen. Over any sequence of scrapes a stored row is never removed and
  keeps its id, account, dates, amount, currency and description; it moves from pending to
  posted at most once, the moment it was first seen posted is recorded then and never changes,
  and a known charge date stays known.
\<close>

theorem memory_rows_frozen:
  assumes "run_batches (mem_upsertTransactions env) batches s = Inr s'" "mem_inv s" "mem_getTransaction i s = Some t"
  shows "\<exists>t'. mem_getTransaction i s' = Some t' \<and> evolves t t' \<and>
    tx_amount t' = tx_amount t \<and> tx_bookedDate t' = tx_bookedDate t \<and> tx_description t' = tx_description t"
proof -
  have "run_batches (upsertTransactions (memory_ledger env cmp_of)) batches s = Inr s'"
    "getTransaction (memory_ledger env cmp_of) i s = Some t"
    using assms by (simp_all add: memory_ops)
  from mem_tx.batches_evolve [OF this(1) assms(2) this(2)] show ?thesis
    by (auto simp: memory_ops evolves_def dest: frozen_partD)
qed

theorem memory_rows_frozen_witness:
  "\<exists>s' t'. run_batches (mem_upsertTransactions example_env) [([example_tx (js ''a'')], None)] one_row = Inr s' \<and>
     mem_getTransaction (js ''a'') s' = Some t' \<and> tx_amount t' = tx_amount pending_row"
proof -
  obtain u s1 where 1: "mem_upsertTransactions example_env [example_tx (js ''a'')] None one_row = Inr (u, s1)"
    using upsert_without_archive [of one_row "[example_tx (js ''a'')]" example_env] by auto
  then have r: "run_batches (mem_upsertTransactions example_env) [([example_tx (js ''a'')], None)] one_row = Inr s1" by simp
  from memory_rows_frozen [OF r one_row_simps(3,4)] r show ?thesis by blast
qed

section \<open>Coalescing reviewed pairs\<close>

lemma validate_pairD:
  assumes "validate_pair env rows tz p = Inr (c, d)"
  shows "c \<in> set rows" "d \<in> set rows" "tx_id c = pair_canonicalId p" "tx_id d = pair_duplicateId p"
    "\<exists>c'\<in>set rows. tx_id c' = tx_id c \<and> matchesArchiveInstallment env c' d tz"
    "archiveInstallmentStateHash env c = pair_canonicalStateHash p" "archiveInstallmentStateHash env d = pair_duplicateStateHash p"
  using assms
  by (auto simp: validate_pair_def split: option.splits if_splits dest!: find_Some_iff_in findArchiveInstallment_match)

lemma validated_ids:
  assumes "list_all2 (\<lambda>p cd. validate_pair env rows tz p = Inr cd) pairs vs"
  shows "concat (map (\<lambda>(c, d). [tx_id c, tx_id d]) vs) = concat (map (\<lambda>p. [pair_canonicalId p, pair_duplicateId p]) pairs)"
  using assms by (induction rule: list_all2_induct) (auto dest: validate_pairD)

definition merged_pair :: "archive_env \<Rightarrow> ledger_tx \<Rightarrow> ledger_tx \<Rightarrow> ledger_tx" where
  "merged_pair env canonical duplicate =
     canonical\<lparr>tx_chargeDate := orelse (tx_chargeDate duplicate) (tx_chargeDate canonical),
       tx_category := orelse (tx_category duplicate) (tx_category canonical),
       tx_memo := orelse (tx_memo duplicate) (tx_memo canonical),
       tx_raw := preserveArchiveRaw env canonical duplicate, tx_lastSeen := tx_lastSeen duplicate\<rparr>"

lemma merged_meets: "merged_from env c d (merged_pair env c d)"
  using takes_over_raw [of env c d]
  by (auto simp: merged_from_def takes_over_def) (auto simp: merged_pair_def frozen_part_def orelse_def split: option.splits)

lemma coalesce_pair_lookup:
  "tx_id c \<noteq> tx_id d \<Longrightarrow> map_of (m_transactions (mem_coalesce_pair env (c, d) s)) =
     (map_of (m_transactions s))(tx_id c \<mapsto> merged_pair env c d, tx_id d := None)"
  by (simp add: mem_coalesce_pair_def delete_conv' update_conv' merged_pair_def)

lemma coalesce_fold_lookup:
  assumes "distinct (concat (map (\<lambda>(c, d). [tx_id c, tx_id d]) vs))"
  shows "map_of (m_transactions (fold (mem_coalesce_pair env) vs s)) i =
    (if \<exists>(c, d)\<in>set vs. i = tx_id d then None
     else case List.find (\<lambda>(c, d). tx_id c = i) vs of Some (c, d) \<Rightarrow> Some (merged_pair env c d)
       | None \<Rightarrow> map_of (m_transactions s) i)"
  using assms
proof (induction vs arbitrary: s)
  case Nil
  then show ?case by simp
next
  case (Cons v vs)
  obtain c d where v: "v = (c, d)" by fastforce
  have none: "i = tx_id c \<or> i = tx_id d \<Longrightarrow> List.find (\<lambda>(c, d). tx_id c = i) vs = None"
    using Cons.prems by (force simp: v find_None_iff)
  have out: "i = tx_id c \<Longrightarrow> \<not> (\<exists>(c, d)\<in>set vs. i = tx_id d)"
    using Cons.prems by (force simp: v)
  from Cons.prems have "tx_id c \<noteq> tx_id d" by (simp add: v)
  then show ?case
    using Cons.IH [of "mem_coalesce_pair env v s"] Cons.prems none out
    by (auto simp: v coalesce_pair_lookup split: option.splits)
qed

lemma list_all2_member: "list_all2 P xs ys \<Longrightarrow> x \<in> set xs \<Longrightarrow> \<exists>y\<in>set ys. P x y"
  by (induction rule: list_all2_induct) auto

lemma distinct_pairs_apart:
  assumes "distinct (concat (map (\<lambda>(c, d). [tx_id c, tx_id d]) vs))" "(c, d) \<in> set vs" "(c', d') \<in> set vs"
  shows "tx_id c \<noteq> tx_id d'"
  using assms by (induction vs) force+

lemma distinct_pairs_find:
  assumes "distinct (concat (map (\<lambda>(c, d). [tx_id c, tx_id d]) vs))" "(c, d) \<in> set vs"
  shows "List.find (\<lambda>(c', d'). tx_id c' = tx_id c) vs = Some (c, d)"
  using assms by (induction vs) force+

text \<open>
  C7: a maintenance run merges exactly the reviewed pairs. It refuses unless every pair names two stored rows in the
  reviewed state, the second a match of the archived instalment and nothing depending on it; a dry run changes nothing; a
  real run removes each duplicate, and its canonical row takes over the charge date, category and memo the duplicate knows, its raw
  record beside the archive evidence, and when it was last seen, and nothing else; no other row is touched.
\<close>

theorem coalesce_exact:
  assumes "mem_coalesceArchiveInstallments env pairs tz dryRun s = Inr ((matched, coalesced), s')" "mem_inv s"
  shows "matched = length pairs \<and> 1 \<le> matched \<and> matched \<le> 100 \<and> coalesced = (if dryRun then 0 else length pairs) \<and>
    (dryRun \<longrightarrow> s' = s) \<and>
    (\<forall>p\<in>set pairs. \<exists>c d. mem_getTransaction (pair_canonicalId p) s = Some c \<and> mem_getTransaction (pair_duplicateId p) s = Some d \<and>
       archiveInstallmentStateHash env c = pair_canonicalStateHash p \<and> archiveInstallmentStateHash env d = pair_duplicateStateHash p \<and>
       matchesArchiveInstallment env c d tz \<and> \<not> mem_has_dependents s d \<and>
       (\<not> dryRun \<longrightarrow> mem_getTransaction (pair_duplicateId p) s' = None \<and>
          (\<exists>c'. mem_getTransaction (pair_canonicalId p) s' = Some c' \<and> merged_from env c d c'))) \<and>
    (\<forall>i. (\<forall>p\<in>set pairs. i \<noteq> pair_canonicalId p \<and> i \<noteq> pair_duplicateId p) \<longrightarrow>
       mem_getTransaction i s' = mem_getTransaction i s)"
proof -
  have key: "keyed tx_id (m_transactions s)" using assms(2) by (simp add: mem_inv_def)
  from assms(1) obtain vs where val: "validateArchiveInstallmentPairs env pairs (map snd (m_transactions s)) tz = Inr vs"
    and res: "matched = length vs" "coalesced = (if dryRun then 0 else length vs)"
      "s' = (if dryRun then s else fold (mem_coalesce_pair env) vs s)"
    and free: "\<And>c d. (c, d) \<in> set vs \<Longrightarrow> \<not> mem_has_dependents s d"
    by (auto simp: mem_coalesceArchiveInstallments_def list_ex_iff split: if_splits)
  from val have n: "pairs \<noteq> []" "length pairs \<le> 100"
    and dist: "distinct (concat (map (\<lambda>p. [pair_canonicalId p, pair_duplicateId p]) pairs))"
    and all: "list_all2 (\<lambda>p cd. validate_pair env (map snd (m_transactions s)) tz p = Inr cd) pairs vs"
    by (auto simp: validateArchiveInstallmentPairs_def Let_def mapE_Inr_iff split: if_splits)
  note ids = validated_ids [OF all]
  have len: "length vs = length pairs" using all by (simp add: list_all2_lengthD)
  have look: "mem_getTransaction i (fold (mem_coalesce_pair env) vs s) =
      (if \<exists>(c, d)\<in>set vs. i = tx_id d then None
       else case List.find (\<lambda>(c, d). tx_id c = i) vs of Some (c, d) \<Rightarrow> Some (merged_pair env c d)
         | None \<Rightarrow> mem_getTransaction i s)" for i
    unfolding mem_getTransaction_def by (rule coalesce_fold_lookup) (use dist ids in simp)
  have reviewed: "\<exists>c d. (c, d) \<in> set vs \<and> tx_id c = pair_canonicalId p \<and> tx_id d = pair_duplicateId p \<and>
      mem_getTransaction (tx_id c) s = Some c \<and> mem_getTransaction (tx_id d) s = Some d \<and>
      archiveInstallmentStateHash env c = pair_canonicalStateHash p \<and> archiveInstallmentStateHash env d = pair_duplicateStateHash p \<and>
      matchesArchiveInstallment env c d tz" if "p \<in> set pairs" for p
  proof -
    from list_all2_member [OF all that] obtain c d where cd: "(c, d) \<in> set vs"
      "validate_pair env (map snd (m_transactions s)) tz p = Inr (c, d)" by auto
    note v = validate_pairD [OF cd(2)]
    from v(5) obtain c' where c': "c' \<in> set (map snd (m_transactions s))" "tx_id c' = tx_id c" "matchesArchiveInstallment env c' d tz"
      by blast
    have "c' = c"
      using keyed_in [OF key, of c] keyed_in [OF key, of c'] v(1) c' by simp
    with cd v c' keyed_in [OF key, of c] keyed_in [OF key, of d] show ?thesis
      by (intro exI [of _ c] exI [of _ d]) (simp add: mem_getTransaction_def)
  qed
  note apart = distinct_pairs_apart [OF dist [folded ids]]
  note canon = distinct_pairs_find [OF dist [folded ids]]
  have merged: "mem_getTransaction (tx_id d) (fold (mem_coalesce_pair env) vs s) = None \<and>
      mem_getTransaction (tx_id c) (fold (mem_coalesce_pair env) vs s) = Some (merged_pair env c d)" if "(c, d) \<in> set vs" for c d
  proof -
    have "\<not> (\<exists>(c', d')\<in>set vs. tx_id c = tx_id d')" using apart [OF that] by auto
    with look [of "tx_id c"] look [of "tx_id d"] canon [OF that] that show ?thesis by auto
  qed
  have "1 \<le> length pairs" using n(1) by (cases pairs) auto
  moreover have "\<forall>p\<in>set pairs. \<exists>c d. mem_getTransaction (pair_canonicalId p) s = Some c \<and> mem_getTransaction (pair_duplicateId p) s = Some d \<and>
       archiveInstallmentStateHash env c = pair_canonicalStateHash p \<and> archiveInstallmentStateHash env d = pair_duplicateStateHash p \<and>
       matchesArchiveInstallment env c d tz \<and> \<not> mem_has_dependents s d \<and>
       (\<not> dryRun \<longrightarrow> mem_getTransaction (pair_duplicateId p) s' = None \<and>
          (\<exists>c'. mem_getTransaction (pair_canonicalId p) s' = Some c' \<and> merged_from env c d c'))"
    using reviewed free merged merged_meets res(3) by (metis (no_types, lifting))
  moreover have "mem_getTransaction i (fold (mem_coalesce_pair env) vs s) = mem_getTransaction i s"
    if "\<forall>p\<in>set pairs. i \<noteq> pair_canonicalId p \<and> i \<noteq> pair_duplicateId p" for i
  proof -
    have "set (concat (map (\<lambda>(c, d). [tx_id c, tx_id d]) vs)) = set (concat (map (\<lambda>p. [pair_canonicalId p, pair_duplicateId p]) pairs))"
      by (simp only: ids)
    with that have "i \<notin> set (concat (map (\<lambda>(c, d). [tx_id c, tx_id d]) vs))" by simp
    then have "\<not> (\<exists>(c, d)\<in>set vs. i = tx_id d)" and "List.find (\<lambda>(c, d). tx_id c = i) vs = None"
      by (force simp: find_None_iff)+
    then show ?thesis by (simp add: look)
  qed
  ultimately show ?thesis using res n(2) len by simp
qed

text \<open>An archived instalment and the portal row that repeats it.\<close>

definition visa_row :: "jsstr \<Rightarrow> iso_day option \<Rightarrow> jsval \<Rightarrow> ledger_tx" where
  "visa_row i charge raw = (with_id (example_row (js ''visaCal:1'') charge) i)\<lparr>tx_company := js ''visaCal'',
     tx_identifier := Some (js ''77''), tx_installmentNumber := Some 1, tx_installmentTotal := Some 3, tx_raw := raw\<rparr>"

definition archived_row :: ledger_tx where
  "archived_row = visa_row (js ''c'') None (JObj [(js ''archiveMigration'', JObj
     [(js ''origin'', JStr (js ''actual'')), (js ''originRowId'', JStr (js ''u1'')),
      (js ''purchaseOrEventDate'', JStr (js ''2024-05-01'')), (js ''sourceIdentifier'', JStr (js ''77'')),
      (js ''sourceRecord'', JObj [(js ''origin_row_id'', JStr (js ''u1'')), (js ''account_id'', JStr (js ''visaCal:1'')),
        (js ''company'', JStr (js ''visaCal'')), (js ''amount'', JNum (-12)), (js ''currency'', JStr (js ''ILS'')),
        (js ''description'', JStr (js ''coffee'')), (js ''purchase_date'', JStr (js ''2024-05-01''))])])])"

definition portal_row :: ledger_tx where
  "portal_row = visa_row (js ''d'') (Some (js ''2024-06-02'')) (JObj
     [(js ''date'', JStr (js ''2024-05-01'')), (js ''processedDate'', JStr (js ''2024-06-02'')),
      (js ''identifier'', JStr (js ''77'')), (js ''description'', JStr (js ''coffee'')), (js ''chargedAmount'', JNum (-12)),
      (js ''installments'', JObj [(js ''number'', JNum 1), (js ''total'', JNum 3)])])"

lemmas archive_eval = visa_row_def archived_row_def portal_row_def example_row_def with_id_def tx_row.defs ledger_tx.defs
  matchesArchiveInstallment_def same_occurrence_def archiveSchema_def js_prop_def js_object_def is_origin_def
  text_where_def js_text_def js_amount_def number_of_def raw_identifier_def opt_num_def compatible_def
  occurrenceDate_def date_prefixed_def toCalendarDate_def calendar_parts_def is_safe_integer_def example_env_def
  to_lower_def lower_unit_def is_upper_def is_digit_def

lemma portal_matches_archive: "matchesArchiveInstallment example_env archived_row portal_row (js ''UTC'')"
  by (simp add: archive_eval)

lemma portal_no_match:
  "\<not> matchesArchiveInstallment example_env portal_row portal_row (js ''UTC'')"
  by (simp add: archive_eval)

definition archive_ledger :: mem_ledger where
  "archive_ledger = createMemoryLedger\<lparr>m_transactions := [(js ''c'', archived_row), (js ''d'', portal_row)]\<rparr>"

definition reviewed_pair :: archive_installment_pair where
  "reviewed_pair = \<lparr>pair_canonicalId = js ''c'', pair_duplicateId = js ''d'', pair_canonicalStateHash = js ''00ff'',
     pair_duplicateStateHash = js ''00ff''\<rparr>"

lemma archive_ids: "tx_id archived_row = js ''c''" "tx_id portal_row = js ''d''"
  by (simp_all add: archive_eval)

lemma archive_coalesce:
  "mem_coalesceArchiveInstallments example_env [reviewed_pair] (js ''UTC'') False archive_ledger =
     Inr ((1, 1), mem_coalesce_pair example_env (archived_row, portal_row) archive_ledger)"
proof -
  have h: "archiveInstallmentStateHash example_env t = js ''00ff''" for t
    by (simp add: archiveInstallmentStateHash_def example_env_def)
  have v: "validate_pair example_env [archived_row, portal_row] (js ''UTC'') reviewed_pair = Inr (archived_row, portal_row)"
    unfolding validate_pair_def findArchiveInstallment_def
    using portal_matches_archive archive_ids
    by (simp add: reviewed_pair_def h Let_def del: bindE_eq_Inr)
  have rows: "map snd (m_transactions archive_ledger) = [archived_row, portal_row]"
    "m_synthetic archive_ledger = []" "m_anomalies archive_ledger = []"
    by (simp_all add: archive_ledger_def createMemoryLedger_def)
  have "validateArchiveInstallmentPairs example_env [reviewed_pair] [archived_row, portal_row] (js ''UTC'') =
      Inr [(archived_row, portal_row)]"
    unfolding validateArchiveInstallmentPairs_def using v
    by (simp add: reviewed_pair_def Let_def del: bindE_eq_Inr)
  then show ?thesis
    unfolding mem_coalesceArchiveInstallments_def rows by (simp add: mem_has_dependents_def rows)
qed

theorem coalesce_exact_witness:
  "mem_getTransaction (js ''d'') (mem_coalesce_pair example_env (archived_row, portal_row) archive_ledger) = None \<and>
   mem_getTransaction (js ''c'') (mem_coalesce_pair example_env (archived_row, portal_row) archive_ledger) \<noteq> None"
proof -
  have "mem_inv archive_ledger"
    using archive_ids by (simp add: mem_inv_def keyed_def archive_ledger_def createMemoryLedger_def)
  from coalesce_exact [OF archive_coalesce this] show ?thesis by (auto simp: reviewed_pair_def)
qed

text \<open>A scraped row that belongs to an archived instalment: it is refreshed under its own id, with the charge date of the portal.\<close>

definition archive_only :: mem_ledger where
  "archive_only = createMemoryLedger\<lparr>m_transactions := [(js ''c'', archived_row)]\<rparr>"

lemma archive_only_inv: "mem_inv archive_only" "m_transactions archive_only = [(js ''c'', archived_row)]"
  using archive_ids by (simp_all add: mem_inv_def keyed_def archive_only_def createMemoryLedger_def)

definition archive_zone :: jsstr where
  "archive_zone = js ''UTC''"

lemma archive_only_target: "scraped_target example_env (Some archive_zone) archive_only portal_row = Some archived_row"
  using portal_matches_archive archive_ids
  by (simp add: archive_zone_def scraped_target_def mem_getTransaction_def archive_only_inv(2))

lemma archive_only_resolves:
  "resolveArchiveInstallments example_env [portal_row] [archived_row] archive_zone = Inr [(js ''d'', archived_row)]"
proof -
  have same: "tx_accountId archived_row = tx_accountId portal_row" "tx_identifier archived_row = tx_identifier portal_row"
    by (simp_all add: archived_row_def portal_row_def visa_row_def example_row_def with_id_def tx_row.defs ledger_tx.defs)
  then show ?thesis
    using portal_matches_archive archive_ids
    by (simp add: archive_zone_def resolveArchiveInstallments_def resolve_step_def by_id_def identifier_group_def findArchiveInstallment_def Let_def del: bindE_eq_Inr)
qed

theorem upsert_batch_effect_witness:
  "\<exists>summary s' t'. mem_upsertTransactions example_env [portal_row] (Some archive_zone) archive_only = Inr (summary, s') \<and>
     mem_getTransaction (js ''c'') s' = Some t' \<and> tx_chargeDate t' = Some (js ''2024-06-02'') \<and> mem_getTransaction (js ''d'') s' = None \<and>
     sum_updated summary = 1"
proof -
  obtain summary s' where run: "mem_upsertTransactions example_env [portal_row] (Some archive_zone) archive_only = Inr (summary, s')"
    by (cases "mem_upsertTransactions example_env [portal_row] (Some archive_zone) archive_only")
      (auto simp: mem_upsertTransactions_def archive_only_inv(2) archive_only_resolves split_beta Let_def)
  have charge: "tx_chargeDate portal_row = Some (js ''2024-06-02'')" "tx_chargeDate archived_row = None"
    by (simp_all add: archived_row_def portal_row_def visa_row_def example_row_def with_id_def tx_row.defs ledger_tx.defs)
  note effect = upsert_batch_effect [OF archive_only_inv(1), where rows = "[portal_row]" and env = example_env and tz = "Some archive_zone"]
  from effect run obtain t' where "mem_getTransaction (js ''c'') s' = Some t'" "refreshed_by example_env archived_row portal_row t'"
      "summary = summary_by (scraped_target example_env (Some archive_zone) archive_only) [portal_row]"
    by (auto simp: archive_only_target archive_ids)
  moreover from effect run have "mem_getTransaction (js ''d'') s' = mem_getTransaction (js ''d'') archive_only"
    by (simp add: archive_only_target archive_ids lands_on_def)
  ultimately show ?thesis
    using run charge by (simp add: refreshed_by_def takes_over_def summary_by_def archive_only_target differs_def
      mem_getTransaction_def archive_only_inv(2))
qed

end
