(* ===== verification/SqliteLedger.thy ===== *)
theory SqliteLedger
  imports MemoryLedger
begin

text \<open>
  \<^verbatim>\<open>src/ledger/sqlite.ts\<close>. A table is a list of rows in rowid order; a row is a list of columns, as
  \<^verbatim>\<open>SELECT *\<close> returns it. The statements are written out as operations on these lists: selection by
  equality, \<^verbatim>\<open>ON CONFLICT DO UPDATE\<close>, unique constraints, ordering by the bytes of a text (SQLite's
  BINARY collation). A JSON column holds the text of a JSON value; the model keeps the value.
  A text comes back as it was bound, which holds for texts without lone surrogates: the database stores UTF-8.
  SQLite's own \<^verbatim>\<open>printf('%.2f')\<close> is the parameter \<open>printf2\<close>. Prepared statements, pragmas and
  indices do not change results and are left out.
\<close>

section \<open>Columns and rows\<close>

datatype sqlval = SNull | SNum rat | SText jsstr | SJson jsval

type_synonym row = "(string \<times> sqlval) list"
type_synonym table = "row list"

definition col :: "row \<Rightarrow> string \<Rightarrow> sqlval option" where
  "col r c = map_of r c"

text \<open>\<^verbatim>\<open>JSON.stringify(value ?? null)\<close>, kept as the JSON value it denotes.\<close>

definition toJson :: "jsval \<Rightarrow> sqlval" where
  "toJson v = SJson (if nullish v then JNull else json_norm v)"

definition fromJson :: "sqlval option \<Rightarrow> jsval" where
  "fromJson v = (case v of Some (SJson j) \<Rightarrow> if j = JNull then JUndef else j | _ \<Rightarrow> JUndef)"

definition orNullText :: "jsstr option \<Rightarrow> sqlval" where
  "orNullText v = (case v of None \<Rightarrow> SNull | Some s \<Rightarrow> SText s)"

definition orNullNum :: "rat option \<Rightarrow> sqlval" where
  "orNullNum v = (case v of None \<Rightarrow> SNull | Some n \<Rightarrow> SNum n)"

definition optionalText :: "sqlval option \<Rightarrow> jsstr option" where
  "optionalText v = (case v of Some (SText s) \<Rightarrow> Some s | _ \<Rightarrow> None)"

definition columnText :: "sqlval option \<Rightarrow> jsstr" where
  "columnText v = default (optionalText v) []"

definition optionalNumber :: "sqlval option \<Rightarrow> rat option" where
  "optionalNumber v = (case v of Some (SNum n) \<Rightarrow> Some n | _ \<Rightarrow> None)"

definition columnNumber :: "sqlval option \<Rightarrow> rat" where
  "columnNumber v = default (optionalNumber v) 0"

text \<open>The casts from text to the unions of literals; only texts the bridge wrote itself are read.\<close>

definition kind_text :: "account_kind \<Rightarrow> jsstr" where
  "kind_text k = (case k of Checking \<Rightarrow> js ''checking'' | CreditCard \<Rightarrow> js ''credit_card''
     | Savings \<Rightarrow> js ''savings'' | Investment \<Rightarrow> js ''investment'')"

definition kind_of :: "jsstr \<Rightarrow> account_kind" where
  "kind_of s = (if s = js ''checking'' then Checking else if s = js ''credit_card'' then CreditCard
     else if s = js ''savings'' then Savings else Investment)"

definition status_of :: "jsstr \<Rightarrow> transaction_status" where
  "status_of s = (if s = js ''pending'' then Pending else Posted)"

definition field_text :: "anomaly_field \<Rightarrow> jsstr" where
  "field_text f = (case f of FAmount \<Rightarrow> js ''amount'' | FBookedDate \<Rightarrow> js ''bookedDate'' | FDescription \<Rightarrow> js ''description'')"

definition field_of :: "jsstr \<Rightarrow> anomaly_field" where
  "field_of s = (if s = js ''amount'' then FAmount else if s = js ''bookedDate'' then FBookedDate else FDescription)"

definition run_status_text :: "run_status \<Rightarrow> jsstr" where
  "run_status_text s = (case s of RunSuccess \<Rightarrow> js ''success'' | RunLoginFailed \<Rightarrow> js ''login_failed''
     | RunTimeout \<Rightarrow> js ''timeout'' | RunError \<Rightarrow> js ''error'' | RunSkipped \<Rightarrow> js ''skipped'')"

definition run_status_of :: "jsstr \<Rightarrow> run_status" where
  "run_status_of s = (if s = js ''success'' then RunSuccess else if s = js ''login_failed'' then RunLoginFailed
     else if s = js ''timeout'' then RunTimeout else if s = js ''error'' then RunError else RunSkipped)"

definition error_type_text :: "scrape_error_type \<Rightarrow> jsstr" where
  "error_type_text e = (case e of INVALID_PASSWORD \<Rightarrow> js ''INVALID_PASSWORD'' | CHANGE_PASSWORD \<Rightarrow> js ''CHANGE_PASSWORD''
     | ACCOUNT_BLOCKED \<Rightarrow> js ''ACCOUNT_BLOCKED'' | TIMEOUT \<Rightarrow> js ''TIMEOUT'' | GENERIC \<Rightarrow> js ''GENERIC''
     | GENERAL_ERROR \<Rightarrow> js ''GENERAL_ERROR'' | TWO_FACTOR_RETRIEVER_MISSING \<Rightarrow> js ''TWO_FACTOR_RETRIEVER_MISSING''
     | OTP_REQUIRED \<Rightarrow> js ''OTP_REQUIRED'' | BRIDGE_ERROR \<Rightarrow> js ''BRIDGE_ERROR'')"

definition error_type_of :: "jsstr \<Rightarrow> scrape_error_type" where
  "error_type_of s = (if s = js ''INVALID_PASSWORD'' then INVALID_PASSWORD
     else if s = js ''CHANGE_PASSWORD'' then CHANGE_PASSWORD else if s = js ''ACCOUNT_BLOCKED'' then ACCOUNT_BLOCKED
     else if s = js ''TIMEOUT'' then TIMEOUT else if s = js ''GENERIC'' then GENERIC
     else if s = js ''GENERAL_ERROR'' then GENERAL_ERROR
     else if s = js ''TWO_FACTOR_RETRIEVER_MISSING'' then TWO_FACTOR_RETRIEVER_MISSING
     else if s = js ''OTP_REQUIRED'' then OTP_REQUIRED else BRIDGE_ERROR)"

section \<open>Encoding and decoding\<close>

text \<open>The parameters of each \<^verbatim>\<open>INSERT\<close>, by column, and the \<^verbatim>\<open>...FromRow\<close> functions.\<close>

definition account_row :: "ledger_account \<Rightarrow> row" where
  "account_row x =
    [(''id'', SText (acc_id x)),
     (''company'', SText (acc_company x)),
     (''account_number'', SText (acc_accountNumber x)),
     (''kind'', SText (kind_text (acc_kind x))),
     (''currency'', SText (acc_currency x)),
     (''name'', SText (acc_name x)),
     (''balance'', orNullNum (acc_balance x)),
     (''balance_at'', orNullText (acc_balanceAt x)),
     (''first_seen'', SText (acc_firstSeen x)),
     (''last_seen'', SText (acc_lastSeen x)),
     (''raw'', toJson (acc_raw x))]"

definition accountFromRow :: "row \<Rightarrow> ledger_account" where
  "accountFromRow r =
    \<lparr>acc_id = columnText (col r ''id''),
     acc_company = columnText (col r ''company''),
     acc_accountNumber = columnText (col r ''account_number''),
     acc_kind = kind_of (columnText (col r ''kind'')),
     acc_currency = columnText (col r ''currency''),
     acc_name = columnText (col r ''name''),
     acc_balance = optionalNumber (col r ''balance''),
     acc_balanceAt = optionalText (col r ''balance_at''),
     acc_firstSeen = columnText (col r ''first_seen''),
     acc_lastSeen = columnText (col r ''last_seen''),
     acc_raw = fromJson (col r ''raw'')\<rparr>"

definition transaction_row :: "ledger_tx \<Rightarrow> row" where
  "transaction_row x =
    [(''id'', SText (tx_id x)),
     (''account_id'', SText (tx_accountId x)),
     (''company'', SText (tx_company x)),
     (''identifier'', orNullText (tx_identifier x)),
     (''booked_date'', SText (tx_bookedDate x)),
     (''charge_date'', orNullText (tx_chargeDate x)),
     (''amount'', SNum (tx_amount x)),
     (''currency'', SText (tx_currency x)),
     (''description'', SText (tx_description x)),
     (''memo'', orNullText (tx_memo x)),
     (''status'', SText (status_text (tx_status x))),
     (''installment_number'', orNullNum (tx_installmentNumber x)),
     (''installment_total'', orNullNum (tx_installmentTotal x)),
     (''original_amount'', orNullNum (tx_originalAmount x)),
     (''original_currency'', orNullText (tx_originalCurrency x)),
     (''category'', orNullText (tx_category x)),
     (''synthetic'', SNum (if tx_synthetic x then 1 else 0)),
     (''first_seen'', SText (tx_firstSeen x)),
     (''last_seen'', SText (tx_lastSeen x)),
     (''id_scheme_version'', SNum (of_int (tx_idSchemeVersion x))),
     (''raw'', toJson (tx_raw x)),
     (''posted_seen_at'', orNullText (tx_postedSeenAt x))]"

definition transactionFromRow :: "row \<Rightarrow> ledger_tx" where
  "transactionFromRow r =
    \<lparr>tx_accountId = columnText (col r ''account_id''),
     tx_company = columnText (col r ''company''),
     tx_identifier = optionalText (col r ''identifier''),
     tx_bookedDate = columnText (col r ''booked_date''),
     tx_chargeDate = optionalText (col r ''charge_date''),
     tx_amount = columnNumber (col r ''amount''),
     tx_currency = columnText (col r ''currency''),
     tx_description = columnText (col r ''description''),
     tx_memo = optionalText (col r ''memo''),
     tx_status = status_of (columnText (col r ''status'')),
     tx_postedSeenAt = optionalText (col r ''posted_seen_at''),
     tx_installmentNumber = optionalNumber (col r ''installment_number''),
     tx_installmentTotal = optionalNumber (col r ''installment_total''),
     tx_originalAmount = optionalNumber (col r ''original_amount''),
     tx_originalCurrency = optionalText (col r ''original_currency''),
     tx_category = optionalText (col r ''category''),
     tx_synthetic = columnNumber (col r ''synthetic'') = 1,
     tx_firstSeen = columnText (col r ''first_seen''),
     tx_lastSeen = columnText (col r ''last_seen''),
     tx_idSchemeVersion = \<lfloor>columnNumber (col r ''id_scheme_version'')\<rfloor>,
     tx_raw = fromJson (col r ''raw''),
     tx_id = columnText (col r ''id'')\<rparr>"

definition holding_row :: "ledger_holding \<Rightarrow> row" where
  "holding_row x =
    [(''id'', SText (hold_id x)),
     (''account_id'', SText (hold_accountId x)),
     (''symbol'', orNullText (hold_symbol x)),
     (''description'', SText (hold_description x)),
     (''market_value'', SNum (hold_marketValue x)),
     (''shares'', orNullNum (hold_shares x)),
     (''purchase_price'', orNullNum (hold_purchasePrice x)),
     (''cost_basis'', orNullNum (hold_costBasis x)),
     (''currency'', SText (hold_currency x)),
     (''first_seen'', SText (hold_firstSeen x)),
     (''last_seen'', SText (hold_lastSeen x)),
     (''raw'', toJson (hold_raw x))]"

definition holdingFromRow :: "row \<Rightarrow> ledger_holding" where
  "holdingFromRow r =
    \<lparr>hold_id = columnText (col r ''id''),
     hold_accountId = columnText (col r ''account_id''),
     hold_symbol = optionalText (col r ''symbol''),
     hold_description = columnText (col r ''description''),
     hold_marketValue = columnNumber (col r ''market_value''),
     hold_shares = optionalNumber (col r ''shares''),
     hold_purchasePrice = optionalNumber (col r ''purchase_price''),
     hold_costBasis = optionalNumber (col r ''cost_basis''),
     hold_currency = columnText (col r ''currency''),
     hold_firstSeen = columnText (col r ''first_seen''),
     hold_lastSeen = columnText (col r ''last_seen''),
     hold_raw = fromJson (col r ''raw'')\<rparr>"

definition run_row :: "run_record \<Rightarrow> row" where
  "run_row x =
    [(''id'', SText (run_id x)),
     (''company'', SText (run_company x)),
     (''started_at'', SText (run_startedAt x)),
     (''finished_at'', SText (run_finishedAt x)),
     (''status'', SText (run_status_text (run_status x))),
     (''error_type'', orNullText (map_option error_type_text (run_errorType x))),
     (''message'', orNullText (run_message x)),
     (''accounts_seen'', SNum (of_nat (run_accountsSeen x))),
     (''transactions_seen'', SNum (of_nat (run_transactionsSeen x))),
     (''transactions_new'', SNum (of_nat (run_transactionsNew x))),
     (''anomalies'', SNum (of_nat (run_anomalies x)))]"

definition runFromRow :: "row \<Rightarrow> run_record" where
  "runFromRow r =
    \<lparr>run_id = columnText (col r ''id''),
     run_company = columnText (col r ''company''),
     run_startedAt = columnText (col r ''started_at''),
     run_finishedAt = columnText (col r ''finished_at''),
     run_status = run_status_of (columnText (col r ''status'')),
     run_errorType = map_option error_type_of (optionalText (col r ''error_type'')),
     run_message = optionalText (col r ''message''),
     run_accountsSeen = nat \<lfloor>columnNumber (col r ''accounts_seen'')\<rfloor>,
     run_transactionsSeen = nat \<lfloor>columnNumber (col r ''transactions_seen'')\<rfloor>,
     run_transactionsNew = nat \<lfloor>columnNumber (col r ''transactions_new'')\<rfloor>,
     run_anomalies = nat \<lfloor>columnNumber (col r ''anomalies'')\<rfloor>\<rparr>"

definition consumerParameters :: "consumer \<Rightarrow> row" where
  "consumerParameters x =
    [(''id'', SText (con_id x)),
     (''label'', SText (con_label x)),
     (''basic_user'', SText (con_basicUser x)),
     (''secret_hash'', SText (con_secretHash x)),
     (''secret_plain'', orNullText (con_secretPlain x)),
     (''claim_id'', orNullText (con_claimId x)),
     (''claim_expires_at'', orNullText (con_claimExpiresAt x)),
     (''claim_count'', SNum (of_int (con_claimCount x))),
     (''max_claims'', SNum (of_int (con_maxClaims x))),
     (''claimed_at'', orNullText (con_claimedAt x)),
     (''first_authenticated_at'', orNullText (con_firstAuthenticatedAt x)),
     (''last_seen_at'', orNullText (con_lastSeenAt x)),
     (''created_at'', SText (con_createdAt x)),
     (''revoked_at'', orNullText (con_revokedAt x))]"

definition consumerFromRow :: "row \<Rightarrow> consumer" where
  "consumerFromRow r =
    \<lparr>con_id = columnText (col r ''id''),
     con_label = columnText (col r ''label''),
     con_basicUser = columnText (col r ''basic_user''),
     con_secretHash = columnText (col r ''secret_hash''),
     con_secretPlain = optionalText (col r ''secret_plain''),
     con_claimId = optionalText (col r ''claim_id''),
     con_claimExpiresAt = optionalText (col r ''claim_expires_at''),
     con_claimCount = \<lfloor>columnNumber (col r ''claim_count'')\<rfloor>,
     con_maxClaims = \<lfloor>columnNumber (col r ''max_claims'')\<rfloor>,
     con_claimedAt = optionalText (col r ''claimed_at''),
     con_firstAuthenticatedAt = optionalText (col r ''first_authenticated_at''),
     con_lastSeenAt = optionalText (col r ''last_seen_at''),
     con_createdAt = columnText (col r ''created_at''),
     con_revokedAt = optionalText (col r ''revoked_at'')\<rparr>"

definition anomaly_row :: "anomaly \<Rightarrow> row" where
  "anomaly_row x =
    [(''transaction_id'', SText (an_transactionId x)),
     (''field'', SText (field_text (an_field x))),
     (''previous'', SText (an_previous x)),
     (''incoming'', SText (an_incoming x)),
     (''seen_at'', SText (an_seenAt x))]"

definition anomalyFromRow :: "row \<Rightarrow> anomaly" where
  "anomalyFromRow r =
    \<lparr>an_transactionId = columnText (col r ''transaction_id''),
     an_field = field_of (columnText (col r ''field'')),
     an_previous = columnText (col r ''previous''),
     an_incoming = columnText (col r ''incoming''),
     an_seenAt = columnText (col r ''seen_at'')\<rparr>"

definition synthetic_row :: "synthetic_payment \<Rightarrow> row" where
  "synthetic_row x =
    [(''transaction_id'', SText (syn_transactionId x)),
     (''account_id'', SText (syn_accountId x)),
     (''charge_date'', SText (syn_chargeDate x)),
     (''amount'', SNum (syn_amount x)),
     (''emitted_at'', SText (syn_emittedAt x))]"

definition syntheticPaymentFromRow :: "row \<Rightarrow> synthetic_payment" where
  "syntheticPaymentFromRow r =
    \<lparr>syn_transactionId = columnText (col r ''transaction_id''),
     syn_accountId = columnText (col r ''account_id''),
     syn_chargeDate = columnText (col r ''charge_date''),
     syn_amount = columnNumber (col r ''amount''),
     syn_emittedAt = columnText (col r ''emitted_at'')\<rparr>"

text \<open>A source state is one JSON object; reading it back is a cast.\<close>

definition js_num :: "jsval \<Rightarrow> rat" where
  "js_num v = (case v of JNum n \<Rightarrow> n | _ \<Rightarrow> 0)"

definition state_object :: "source_state \<Rightarrow> jsval" where
  "state_object x = JObj
    [(js ''company'', JStr (st_company x)),
     (js ''lastRunAt'', opt_text (st_lastRunAt x)),
     (js ''lastSuccessAt'', opt_text (st_lastSuccessAt x)),
     (js ''lastErrorAt'', opt_text (st_lastErrorAt x)),
     (js ''lastErrorType'', opt_text (map_option error_type_text (st_lastErrorType x))),
     (js ''lastErrorMessage'', opt_text (st_lastErrorMessage x)),
     (js ''consecutiveFailures'', JNum (of_nat (st_consecutiveFailures x))),
     (js ''parked'', JBool (st_parked x)),
     (js ''parkedReason'', opt_text (st_parkedReason x)),
     (js ''parkedAt'', opt_text (st_parkedAt x)),
     (js ''credentialFingerprint'', opt_text (st_credentialFingerprint x)),
     (js ''nextAllowedAt'', opt_text (st_nextAllowedAt x)),
     (js ''loginAttemptsDate'', opt_text (st_loginAttemptsDate x)),
     (js ''loginAttempts'', JNum (of_nat (st_loginAttempts x))),
     (js ''earliestScrapedDate'', opt_text (st_earliestScrapedDate x))]"

definition state_of_object :: "jsval \<Rightarrow> source_state" where
  "state_of_object v =
    (let ob = js_object v in
     \<lparr>st_company = default (js_text (js_prop ob ''company'')) [],
      st_lastRunAt = js_text (js_prop ob ''lastRunAt''),
      st_lastSuccessAt = js_text (js_prop ob ''lastSuccessAt''),
      st_lastErrorAt = js_text (js_prop ob ''lastErrorAt''),
      st_lastErrorType = map_option error_type_of (js_text (js_prop ob ''lastErrorType'')),
      st_lastErrorMessage = js_text (js_prop ob ''lastErrorMessage''),
      st_consecutiveFailures = nat \<lfloor>js_num (js_prop ob ''consecutiveFailures'')\<rfloor>,
      st_parked = (js_prop ob ''parked'' = JBool True),
      st_parkedReason = js_text (js_prop ob ''parkedReason''),
      st_parkedAt = js_text (js_prop ob ''parkedAt''),
      st_credentialFingerprint = js_text (js_prop ob ''credentialFingerprint''),
      st_nextAllowedAt = js_text (js_prop ob ''nextAllowedAt''),
      st_loginAttemptsDate = js_text (js_prop ob ''loginAttemptsDate''),
      st_loginAttempts = nat \<lfloor>js_num (js_prop ob ''loginAttempts'')\<rfloor>,
      st_earliestScrapedDate = js_text (js_prop ob ''earliestScrapedDate'')\<rparr>)"

section \<open>Statements\<close>

definition select_where :: "string \<Rightarrow> jsstr \<Rightarrow> table \<Rightarrow> table" where
  "select_where c v t = filter (\<lambda>r. col r c = Some (SText v)) t"

text \<open>\<^verbatim>\<open>Store.get\<close>: the first row of the result.\<close>

definition get_where :: "string \<Rightarrow> jsstr \<Rightarrow> table \<Rightarrow> row option" where
  "get_where c v t = List.find (\<lambda>r. col r c = Some (SText v)) t"

definition set_cols :: "row \<Rightarrow> row \<Rightarrow> row" where
  "set_cols new r = map (\<lambda>(c, v). (c, default (map_of new c) v)) r"

definition same_key :: "string \<Rightarrow> row \<Rightarrow> row \<Rightarrow> bool" where
  "same_key key a b \<longleftrightarrow> col a key = col b key"

text \<open>\<^verbatim>\<open>INSERT ... ON CONFLICT(key) DO UPDATE SET column = excluded.column\<close> for the listed columns.\<close>

definition upsert_row :: "string \<Rightarrow> string list \<Rightarrow> row \<Rightarrow> table \<Rightarrow> table" where
  "upsert_row key cols new t =
     (if list_ex (same_key key new) t
      then map (\<lambda>r. if same_key key new r then set_cols (filter (\<lambda>(c, v). c \<in> set cols) new) r else r) t
      else t @ [new])"

definition update_where :: "string \<Rightarrow> jsstr \<Rightarrow> row \<Rightarrow> table \<Rightarrow> table" where
  "update_where c v new t = map (\<lambda>r. if col r c = Some (SText v) then set_cols new r else r) t"

definition delete_where :: "string \<Rightarrow> jsstr \<Rightarrow> table \<Rightarrow> table" where
  "delete_where c v t = filter (\<lambda>r. col r c \<noteq> Some (SText v)) t"

text \<open>\<^verbatim>\<open>ORDER BY\<close> a text column, by the bytes of its UTF-8 form.\<close>

definition text_order :: "string \<Rightarrow> row \<Rightarrow> row \<Rightarrow> int" where
  "text_order c a b = cmp_of (utf8 (columnText (col a c))) (utf8 (columnText (col b c)))"

text \<open>A \<^verbatim>\<open>UNIQUE\<close> column: no other row holds the same value; NULLs do not clash.\<close>

definition unique_clash :: "string \<Rightarrow> row \<Rightarrow> table \<Rightarrow> bool" where
  "unique_clash c new t \<longleftrightarrow>
     col new c \<noteq> None \<and> col new c \<noteq> Some SNull \<and> list_ex (\<lambda>r. \<not> same_key ''id'' new r \<and> col r c = col new c) t"

section \<open>State, migrations, opening\<close>

record sqlite_db =
  db_meta :: table
  db_sourceStates :: table
  db_runs :: table
  db_accounts :: table
  db_transactions :: table
  db_holdings :: table
  db_synthetic :: table
  db_consumers :: table
  db_anomalies :: table

text \<open>A new file. Creating a table adds no row, so a missing table and an empty one are the same here.\<close>

definition empty_db :: sqlite_db where
  "empty_db = \<lparr>db_meta = [], db_sourceStates = [], db_runs = [], db_accounts = [], db_transactions = [],
     db_holdings = [], db_synthetic = [], db_consumers = [], db_anomalies = []\<rparr>"

definition META_SCHEMA_VERSION :: jsstr where
  "META_SCHEMA_VERSION = js ''schema_version''"

definition META_ID_SCHEME_VERSION :: jsstr where
  "META_ID_SCHEME_VERSION = js ''id_scheme_version''"

definition sql_getMeta :: "jsstr \<Rightarrow> sqlite_db \<Rightarrow> jsstr option" where
  "sql_getMeta key db =
     (case get_where ''key'' key (db_meta db) of Some r \<Rightarrow> optionalText (col r ''value'') | None \<Rightarrow> None)"

definition sql_setMeta :: "jsstr \<Rightarrow> jsstr \<Rightarrow> sqlite_db \<Rightarrow> sqlite_db" where
  "sql_setMeta key v db =
     db\<lparr>db_meta := upsert_row ''key'' [''value''] [(''key'', SText key), (''value'', SText v)] (db_meta db)\<rparr>"

text \<open>The effect of the two migrations on rows: none, and a new NULL column.\<close>

definition migrations :: "(sqlite_db \<Rightarrow> sqlite_db) list" where
  "migrations =
     [\<lambda>db. db,
      \<lambda>db. db\<lparr>db_transactions := map (\<lambda>r. r @ [(''posted_seen_at'', SNull)]) (db_transactions db)\<rparr>]"

definition migrate_step :: "nat \<Rightarrow> sqlite_db \<Rightarrow> sqlite_db" where
  "migrate_step version db = sql_setMeta META_SCHEMA_VERSION (nat_str version) ((migrations ! (version - 1)) db)"

text \<open>
  \<^verbatim>\<open>Number(...)\<close> of the stored version; a version that is no number compares false both times, so no
  migration runs. Stored versions are whole numbers.
\<close>

definition migrate :: "sqlite_db \<Rightarrow> sqlite_db res" where
  "migrate db =
     (case (case sql_getMeta META_SCHEMA_VERSION db of None \<Rightarrow> Some 0 | Some t \<Rightarrow> js_number t) of
        None \<Rightarrow> Inr db
      | Some current \<Rightarrow>
          if current > of_nat (length migrations) then Inl SchemaTooNew
          else Inr (fold migrate_step [nat \<lfloor>current\<rfloor> + 1 ..< length migrations + 1] db))"

definition assertIdScheme :: "sqlite_db \<Rightarrow> sqlite_db res" where
  "assertIdScheme db =
     (case sql_getMeta META_ID_SCHEME_VERSION db of
        Some stored \<Rightarrow> if js_number stored \<noteq> Some (of_int ID_SCHEME_VERSION) then Inl IdSchemeMismatch else Inr db
      | None \<Rightarrow> Inr (sql_setMeta META_ID_SCHEME_VERSION (int_str ID_SCHEME_VERSION) db))"

definition openStore :: "sqlite_db \<Rightarrow> sqlite_db res" where
  "openStore db = bindE (migrate db) assertIdScheme"

section \<open>Source states, runs, accounts\<close>

definition sql_getSourceState :: "company_id \<Rightarrow> sqlite_db \<Rightarrow> source_state option" where
  "sql_getSourceState company db =
     map_option (\<lambda>r. state_of_object (fromJson (col r ''json''))) (get_where ''company'' company (db_sourceStates db))"

definition sql_upsertSourceState :: "source_state \<Rightarrow> sqlite_db \<Rightarrow> sqlite_db" where
  "sql_upsertSourceState st db =
     db\<lparr>db_sourceStates := upsert_row ''company'' [''json'']
          [(''company'', SText (st_company st)), (''json'', toJson (state_object st))] (db_sourceStates db)\<rparr>"

definition sql_listSourceStates :: "sqlite_db \<Rightarrow> source_state list" where
  "sql_listSourceStates db =
     map (\<lambda>r. state_of_object (fromJson (col r ''json''))) (sort_by (text_order ''company'') (db_sourceStates db))"

definition run_columns :: "string list" where
  "run_columns = [''company'', ''started_at'', ''finished_at'', ''status'', ''error_type'', ''message'',
     ''accounts_seen'', ''transactions_seen'', ''transactions_new'', ''anomalies'']"

definition sql_recordRun :: "run_record \<Rightarrow> sqlite_db \<Rightarrow> sqlite_db" where
  "sql_recordRun run db = db\<lparr>db_runs := upsert_row ''id'' run_columns (run_row run) (db_runs db)\<rparr>"

definition company_filter :: "string \<Rightarrow> jsstr option \<Rightarrow> table \<Rightarrow> table" where
  "company_filter c v t = (case v of None \<Rightarrow> t | Some x \<Rightarrow> select_where c x t)"

definition sql_listRuns :: "company_id option \<Rightarrow> nat option \<Rightarrow> sqlite_db \<Rightarrow> run_record list" where
  "sql_listRuns company limit db =
     map runFromRow (take (default limit 100)
       (sort_by (\<lambda>a b. text_order ''started_at'' b a) (rev (company_filter ''company'' company (db_runs db)))))"

definition account_columns :: "string list" where
  "account_columns = [''company'', ''account_number'', ''kind'', ''currency'', ''name'', ''balance'', ''balance_at'',
     ''last_seen'', ''raw'']"

definition sql_upsertAccount :: "ledger_account \<Rightarrow> sqlite_db \<Rightarrow> sqlite_db" where
  "sql_upsertAccount account db =
     db\<lparr>db_accounts := upsert_row ''id'' account_columns (account_row account) (db_accounts db)\<rparr>"

definition sql_getAccount :: "jsstr \<Rightarrow> sqlite_db \<Rightarrow> ledger_account option" where
  "sql_getAccount i db = map_option accountFromRow (get_where ''id'' i (db_accounts db))"

definition sql_listAccounts :: "company_id option \<Rightarrow> sqlite_db \<Rightarrow> ledger_account list" where
  "sql_listAccounts company db =
     map accountFromRow (sort_by (text_order ''id'') (company_filter ''company'' company (db_accounts db)))"

section \<open>Transactions\<close>

definition sql_insertTransaction :: "ledger_tx \<Rightarrow> sqlite_db \<Rightarrow> sqlite_db" where
  "sql_insertTransaction row db = db\<lparr>db_transactions := db_transactions db @ [transaction_row row]\<rparr>"

definition frozenFieldAnomalies :: "ledger_tx \<Rightarrow> ledger_tx \<Rightarrow> anomaly list" where
  "frozenFieldAnomalies existing incoming =
     map (\<lambda>(f, p, c). \<lparr>an_transactionId = tx_id incoming, an_field = f, an_previous = p, an_incoming = c,
            an_seenAt = tx_lastSeen incoming\<rparr>)
       (filter (\<lambda>(f, p, c). p \<noteq> c)
         [(FAmount, to_fixed2 (tx_amount existing), to_fixed2 (tx_amount incoming)),
          (FBookedDate, tx_bookedDate existing, tx_bookedDate incoming),
          (FDescription, tx_description existing, tx_description incoming)])"

text \<open>Whether something visible changed, and the updated table.\<close>

definition refreshTransaction :: "archive_env \<Rightarrow> ledger_tx \<Rightarrow> ledger_tx \<Rightarrow> sqlite_db \<Rightarrow> bool \<times> sqlite_db" where
  "refreshTransaction env existing incoming db =
     (let status = (if tx_status existing = Pending \<and> tx_status incoming = Posted then Posted else tx_status existing);
          changed = (status \<noteq> tx_status existing \<or> tx_chargeDate existing \<noteq> tx_chargeDate incoming
            \<or> tx_category existing \<noteq> tx_category incoming \<or> tx_memo existing \<noteq> tx_memo incoming) in
      (changed, db\<lparr>db_transactions := update_where ''id'' (tx_id existing)
         [(''status'', SText (status_text status)),
          (''charge_date'', orNullText (orelse (tx_chargeDate incoming) (tx_chargeDate existing))),
          (''category'', orNullText (orelse (tx_category incoming) (tx_category existing))),
          (''memo'', orNullText (orelse (tx_memo incoming) (tx_memo existing))),
          (''raw'', toJson (preserveArchiveRaw env existing incoming)),
          (''last_seen'', SText (tx_lastSeen incoming)),
          (''posted_seen_at'', orNullText (orelse (tx_postedSeenAt existing)
             (if status = tx_status existing then None else Some (tx_lastSeen incoming))))]
         (db_transactions db)\<rparr>))"

definition sql_getTransaction :: "jsstr \<Rightarrow> sqlite_db \<Rightarrow> ledger_tx option" where
  "sql_getTransaction i db = map_option transactionFromRow (get_where ''id'' i (db_transactions db))"

definition sql_upsert_row ::
  "archive_env \<Rightarrow> (jsstr \<times> ledger_tx) list \<Rightarrow> ledger_tx \<Rightarrow> upsert_summary \<times> sqlite_db \<Rightarrow> upsert_summary \<times> sqlite_db" where
  "sql_upsert_row env aliases row st =
     (case st of (summary, db) \<Rightarrow>
      case (case get_where ''id'' (tx_id row) (db_transactions db) of
              Some r \<Rightarrow> Some (transactionFromRow r) | None \<Rightarrow> map_of aliases (tx_id row)) of
        None \<Rightarrow> (summary\<lparr>sum_inserted := sum_inserted summary + 1\<rparr>, sql_insertTransaction row db)
      | Some existing \<Rightarrow>
          let incoming = (if tx_id existing = tx_id row then row
                else row\<lparr>tx_id := tx_id existing, tx_bookedDate := tx_bookedDate existing\<rparr>);
              summary' = summary\<lparr>sum_anomalies := sum_anomalies summary @ frozenFieldAnomalies existing incoming\<rparr>;
              (changed, db') = refreshTransaction env existing row db in
          (if changed then summary'\<lparr>sum_updated := sum_updated summary + 1\<rparr>
           else summary'\<lparr>sum_unchanged := sum_unchanged summary + 1\<rparr>, db'))"

definition sql_stored_visa_cal :: "sqlite_db \<Rightarrow> ledger_tx list" where
  "sql_stored_visa_cal db = map transactionFromRow (select_where ''company'' (js ''visaCal'') (db_transactions db))"

text \<open>\<^verbatim>\<open>store.transaction\<close>: an exception leaves the tables as they were, which is what an error result means.\<close>

definition sql_upsertTransactions ::
  "archive_env \<Rightarrow> ledger_tx list \<Rightarrow> jsstr option \<Rightarrow> sqlite_db \<Rightarrow> (upsert_summary \<times> sqlite_db) res" where
  "sql_upsertTransactions env rows timezone db =
     bindE (case timezone of
              Some tz \<Rightarrow> resolveArchiveInstallments env rows (sql_stored_visa_cal db) tz
            | None \<Rightarrow> Inr []) (\<lambda>aliases.
       let (summary, db') = fold (sql_upsert_row env aliases) rows (empty_summary, db) in
       Inr (summary, db'\<lparr>db_anomalies := db_anomalies db' @ map anomaly_row (sum_anomalies summary)\<rparr>))"

definition sql_has_dependents :: "sqlite_db \<Rightarrow> ledger_tx \<Rightarrow> bool" where
  "sql_has_dependents db duplicate \<longleftrightarrow>
     get_where ''transaction_id'' (tx_id duplicate) (db_synthetic db) \<noteq> None \<or>
     get_where ''transaction_id'' (tx_id duplicate) (db_anomalies db) \<noteq> None"

definition sql_coalesce_pair :: "archive_env \<Rightarrow> ledger_tx \<times> ledger_tx \<Rightarrow> sqlite_db \<Rightarrow> sqlite_db" where
  "sql_coalesce_pair env pair db =
     (case pair of (canonical, duplicate) \<Rightarrow>
       let db' = snd (refreshTransaction env canonical duplicate db) in
       db'\<lparr>db_transactions := delete_where ''id'' (tx_id duplicate) (db_transactions db')\<rparr>)"

definition sql_coalesceArchiveInstallments ::
  "archive_env \<Rightarrow> archive_installment_pair list \<Rightarrow> jsstr \<Rightarrow> bool \<Rightarrow> sqlite_db \<Rightarrow> ((nat \<times> nat) \<times> sqlite_db) res" where
  "sql_coalesceArchiveInstallments env pairs timezone dryRun db =
     bindE (validateArchiveInstallmentPairs env pairs (sql_stored_visa_cal db) timezone) (\<lambda>validated.
       if list_ex (\<lambda>(canonical, duplicate). sql_has_dependents db duplicate) validated
       then Inl DuplicateHasDependents
       else Inr ((length validated, if dryRun then 0 else length validated),
                 if dryRun then db else fold (sql_coalesce_pair env) validated db))"

text \<open>The \<^verbatim>\<open>WHERE\<close> clauses of a query on one row.\<close>

definition row_matches :: "transaction_query \<Rightarrow> row \<Rightarrow> bool" where
  "row_matches q r \<longleftrightarrow>
     (case q_accountIds q of None \<Rightarrow> True | Some is \<Rightarrow> columnText (col r ''account_id'') \<in> set is) \<and>
     (case truthy_text (q_from q) of None \<Rightarrow> True | Some d \<Rightarrow> utf8 d \<le> utf8 (columnText (col r ''booked_date''))) \<and>
     (case truthy_text (q_to q) of None \<Rightarrow> True | Some d \<Rightarrow> utf8 (columnText (col r ''booked_date'')) < utf8 d) \<and>
     (q_includePending q \<or> columnText (col r ''status'') \<noteq> js ''pending'') \<and>
     (q_includeSynthetic q \<or> columnNumber (col r ''synthetic'') = 0)"

definition sql_listTransactions :: "transaction_query \<Rightarrow> sqlite_db \<Rightarrow> ledger_tx list" where
  "sql_listTransactions q db =
     (if q_accountIds q = Some [] then []
      else map transactionFromRow
        (sort_by (\<lambda>a b. cmp_then (text_order ''booked_date'' a b) (text_order ''id'' a b))
          (filter (row_matches q) (db_transactions db))))"

definition sql_group_key :: "(rat \<Rightarrow> jsstr) \<Rightarrow> row \<Rightarrow> jsstr \<times> jsstr \<times> jsstr \<times> jsstr" where
  "sql_group_key printf2 r = (columnText (col r ''account_id''), columnText (col r ''booked_date''),
     printf2 (columnNumber (col r ''amount'')), columnText (col r ''description''))"

definition sql_duplicate_rows :: "(rat \<Rightarrow> jsstr) \<Rightarrow> sqlite_db \<Rightarrow> table" where
  "sql_duplicate_rows printf2 db =
     sort_by (\<lambda>a b. cmp_then (text_order ''account_id'' a b) (text_order ''booked_date'' a b))
       (filter (\<lambda>r. length (filter (\<lambda>r'. sql_group_key printf2 r' = sql_group_key printf2 r) (db_transactions db)) > 1)
         (db_transactions db))"

definition sql_findDuplicates :: "(rat \<Rightarrow> jsstr) \<Rightarrow> sqlite_db \<Rightarrow> duplicate_group list" where
  "sql_findDuplicates printf2 db =
     map snd (fold (group_step 32) (map transactionFromRow (sql_duplicate_rows printf2 db)) [])"

text \<open>\<^verbatim>\<open>SELECT min(booked_date)\<close>: the least value, NULL without rows.\<close>

definition sql_earliestBookedDate :: "jsstr \<Rightarrow> sqlite_db \<Rightarrow> iso_day option" where
  "sql_earliestBookedDate account db =
     (case sort_by (text_order ''booked_date'')
        (filter (\<lambda>r. columnNumber (col r ''synthetic'') = 0) (select_where ''account_id'' account (db_transactions db))) of
        [] \<Rightarrow> None | r # _ \<Rightarrow> optionalText (col r ''booked_date''))"

section \<open>Holdings, payments, consumers, anomalies\<close>

definition holding_columns :: "string list" where
  "holding_columns = [''account_id'', ''symbol'', ''description'', ''market_value'', ''shares'', ''purchase_price'',
     ''cost_basis'', ''currency'', ''last_seen'', ''raw'']"

definition sql_upsertHoldings :: "ledger_holding list \<Rightarrow> sqlite_db \<Rightarrow> sqlite_db" where
  "sql_upsertHoldings rows db =
     fold (\<lambda>row db. db\<lparr>db_holdings := upsert_row ''id'' holding_columns (holding_row row) (db_holdings db)\<rparr>) rows db"

definition sql_listHoldings :: "jsstr option \<Rightarrow> sqlite_db \<Rightarrow> ledger_holding list" where
  "sql_listHoldings account db = map holdingFromRow (company_filter ''account_id'' account (db_holdings db))"

definition sql_listSyntheticPayments :: "jsstr \<Rightarrow> sqlite_db \<Rightarrow> synthetic_payment list" where
  "sql_listSyntheticPayments account db = map syntheticPaymentFromRow (select_where ''account_id'' account (db_synthetic db))"

definition sql_insertSyntheticPayment :: "synthetic_payment \<Rightarrow> sqlite_db \<Rightarrow> sqlite_db res" where
  "sql_insertSyntheticPayment payment db =
     (if get_where ''transaction_id'' (syn_transactionId payment) (db_synthetic db) \<noteq> None then Inl UniqueConstraint
      else Inr (db\<lparr>db_synthetic := db_synthetic db @ [synthetic_row payment]\<rparr>))"

definition consumerColumns :: "string list" where
  "consumerColumns = [''id'', ''label'', ''basic_user'', ''secret_hash'', ''secret_plain'', ''claim_id'', ''claim_expires_at'',
     ''claim_count'', ''max_claims'', ''claimed_at'', ''first_authenticated_at'', ''last_seen_at'', ''created_at'', ''revoked_at'']"

definition consumer_clash :: "row \<Rightarrow> table \<Rightarrow> bool" where
  "consumer_clash new t \<longleftrightarrow> unique_clash ''basic_user'' new t \<or> unique_clash ''claim_id'' new t"

definition sql_createConsumer :: "consumer \<Rightarrow> sqlite_db \<Rightarrow> sqlite_db res" where
  "sql_createConsumer c db =
     (if get_where ''id'' (con_id c) (db_consumers db) \<noteq> None then Inl ConsumerExists
      else if consumer_clash (consumerParameters c) (db_consumers db) then Inl UniqueConstraint
      else Inr (db\<lparr>db_consumers := db_consumers db @ [consumerParameters c]\<rparr>))"

definition sql_updateConsumer :: "consumer \<Rightarrow> sqlite_db \<Rightarrow> sqlite_db res" where
  "sql_updateConsumer c db =
     (if consumer_clash (consumerParameters c) (db_consumers db) then Inl UniqueConstraint
      else Inr (db\<lparr>db_consumers := upsert_row ''id'' (filter (\<lambda>x. x \<noteq> ''id'') consumerColumns)
                 (consumerParameters c) (db_consumers db)\<rparr>))"

definition sql_getConsumer :: "jsstr \<Rightarrow> sqlite_db \<Rightarrow> consumer option" where
  "sql_getConsumer i db = map_option consumerFromRow (get_where ''id'' i (db_consumers db))"

definition sql_getConsumerByClaimId :: "jsstr \<Rightarrow> sqlite_db \<Rightarrow> consumer option" where
  "sql_getConsumerByClaimId claim db = map_option consumerFromRow (get_where ''claim_id'' claim (db_consumers db))"

definition sql_getConsumerByBasicUser :: "jsstr \<Rightarrow> sqlite_db \<Rightarrow> consumer option" where
  "sql_getConsumerByBasicUser user db = map_option consumerFromRow (get_where ''basic_user'' user (db_consumers db))"

definition sql_listConsumers :: "sqlite_db \<Rightarrow> consumer list" where
  "sql_listConsumers db = map consumerFromRow (db_consumers db)"

definition sql_recordAnomalies :: "anomaly list \<Rightarrow> sqlite_db \<Rightarrow> sqlite_db" where
  "sql_recordAnomalies items db = db\<lparr>db_anomalies := db_anomalies db @ map anomaly_row items\<rparr>"

definition sql_listAnomalies :: "nat option \<Rightarrow> sqlite_db \<Rightarrow> anomaly list" where
  "sql_listAnomalies limit db =
     map anomalyFromRow (drop (length (db_anomalies db) - default limit 100) (db_anomalies db))"

definition sqlite_ledger :: "archive_env \<Rightarrow> (rat \<Rightarrow> jsstr) \<Rightarrow> sqlite_db ledger_ops" where
  "sqlite_ledger env printf2 = \<lparr>
     getSourceState = sql_getSourceState, upsertSourceState = sql_upsertSourceState,
     listSourceStates = sql_listSourceStates, recordRun = sql_recordRun, listRuns = sql_listRuns,
     upsertAccount = sql_upsertAccount, getAccount = sql_getAccount, listAccounts = sql_listAccounts,
     upsertTransactions = sql_upsertTransactions env,
     coalesceArchiveInstallments = sql_coalesceArchiveInstallments env,
     getTransaction = sql_getTransaction, listTransactions = sql_listTransactions,
     findDuplicates = sql_findDuplicates printf2, earliestBookedDate = sql_earliestBookedDate,
     upsertHoldings = sql_upsertHoldings, listHoldings = sql_listHoldings,
     listSyntheticPayments = sql_listSyntheticPayments, insertSyntheticPayment = sql_insertSyntheticPayment,
     createConsumer = sql_createConsumer, updateConsumer = sql_updateConsumer, getConsumer = sql_getConsumer,
     getConsumerByClaimId = sql_getConsumerByClaimId, getConsumerByBasicUser = sql_getConsumerByBasicUser,
     listConsumers = sql_listConsumers, recordAnomalies = sql_recordAnomalies,
     listAnomalies = sql_listAnomalies, getMeta = sql_getMeta, setMeta = sql_setMeta\<rparr>"

end
