(* ===== verification/SqliteCodecs.thy ===== *)
theory SqliteCodecs
  imports SqliteLedger
begin

text \<open>
  Reading a row back: every \<^verbatim>\<open>...FromRow\<close> function undoes the parameters of its \<^verbatim>\<open>INSERT\<close>. A raw
  value comes back as JSON keeps it.
\<close>

definition sql_raw :: "jsval \<Rightarrow> jsval" where
  "sql_raw v = fromJson (Some (toJson v))"

lemmas col_simps = col_def columnText_def optionalText_def columnNumber_def optionalNumber_def
  orNullText_def orNullNum_def

lemma kind_codec [simp]: "kind_of (kind_text k) = k"
  by (cases k) (simp_all add: kind_of_def kind_text_def)

lemma status_codec [simp]: "status_of (status_text st) = st"
  by (cases st) (simp_all add: status_of_def status_text_def)

lemma field_codec [simp]: "field_of (field_text f) = f"
  by (cases f) (simp_all add: field_of_def field_text_def)

lemma run_status_codec [simp]: "run_status_of (run_status_text rs) = rs"
  by (cases rs) (simp_all add: run_status_of_def run_status_text_def)

lemma error_type_codec [simp]: "error_type_of (error_type_text e) = e"
  by (cases e) (simp_all add: error_type_of_def error_type_text_def)

lemma optional_of_orNull [simp]:
  "optionalText (Some (orNullText t)) = t" "optionalNumber (Some (orNullNum n)) = n"
  "columnText (Some (SText s)) = s" "columnNumber (Some (SNum q)) = q"
  by (auto simp: col_simps split: option.splits)

lemma map_error_type [simp]: "map_option error_type_of (map_option error_type_text e) = e"
  by (cases e) simp_all

lemma accountFromRow_row [simp]: "accountFromRow (account_row a) = a\<lparr>acc_raw := sql_raw (acc_raw a)\<rparr>"
  by (simp add: accountFromRow_def account_row_def col_def sql_raw_def)

lemma transactionFromRow_row [simp]: "transactionFromRow (transaction_row t) = t\<lparr>tx_raw := sql_raw (tx_raw t)\<rparr>"
  by (simp add: transactionFromRow_def transaction_row_def col_def sql_raw_def)

lemma holdingFromRow_row [simp]: "holdingFromRow (holding_row h) = h\<lparr>hold_raw := sql_raw (hold_raw h)\<rparr>"
  by (simp add: holdingFromRow_def holding_row_def col_def sql_raw_def)

lemma runFromRow_row [simp]: "runFromRow (run_row r) = r"
  by (simp add: runFromRow_def run_row_def col_def)

lemma consumerFromRow_row [simp]: "consumerFromRow (consumerParameters c) = c"
  by (simp add: consumerFromRow_def consumerParameters_def col_def)

lemma anomalyFromRow_row [simp]: "anomalyFromRow (anomaly_row a) = a"
  by (simp add: anomalyFromRow_def anomaly_row_def col_def)

lemma syntheticPaymentFromRow_row [simp]: "syntheticPaymentFromRow (synthetic_row p) = p"
  by (simp add: syntheticPaymentFromRow_def synthetic_row_def col_def)

lemma json_norm_undef: "json_norm v = JUndef \<longleftrightarrow> v = JUndef"
  by (cases v) simp_all

lemma filter_defined:
  "filter (\<lambda>(k, v). v \<noteq> JUndef) (map (\<lambda>(k, v). (k, json_norm v)) (filter (\<lambda>(k, v). v \<noteq> JUndef) ps)) =
     map (\<lambda>(k, v). (k, json_norm v)) (filter (\<lambda>(k, v). v \<noteq> JUndef) ps)"
  by (induction ps) (simp_all add: json_norm_undef split_beta)

lemma json_norm_idem [simp]: "json_norm (json_norm v) = json_norm v"
proof (induction v rule: json_norm.induct)
  case (4 ps)
  have "json_norm (json_norm v) = json_norm v" if "(k, v) \<in> set ps" "v \<noteq> JUndef" for k v
    using 4 [of "(k, v)" k v] that by simp
  then show ?case by (auto simp: filter_defined)
qed (auto simp: json_norm_undef)

text \<open>A row as the database keeps it.\<close>

definition norm_tx :: "ledger_tx \<Rightarrow> ledger_tx" where
  "norm_tx t = t\<lparr>tx_raw := sql_raw (tx_raw t)\<rparr>"

lemma toJson_sql_raw [simp]: "toJson (sql_raw v) = toJson v"
  by (auto simp: sql_raw_def toJson_def fromJson_def nullish_def json_norm_undef)

lemma transaction_row_norm [simp]: "transaction_row (norm_tx t) = transaction_row t"
  by (simp add: norm_tx_def transaction_row_def)

lemma norm_tx_simps [simp]: "tx_id (norm_tx t) = tx_id t" "tx_raw (norm_tx t) = sql_raw (tx_raw t)"
  by (simp_all add: norm_tx_def)

lemma sql_raw_idem [simp]: "sql_raw (sql_raw v) = sql_raw v"
  by (simp add: sql_raw_def [of "sql_raw v"]) (simp add: sql_raw_def)

lemma map_of_json_norm:
  "distinct (map fst ps) \<Longrightarrow>
   default (map_of (map (\<lambda>(k, v). (k, json_norm v)) (filter (\<lambda>(k, v). v \<noteq> JUndef) ps)) k) JUndef =
     json_norm (default (map_of ps k) JUndef)"
proof (induction ps)
  case Nil
  then show ?case by simp
next
  case (Cons p ps)
  obtain a v where p: "p = (a, v)" by fastforce
  have "k = a \<Longrightarrow> map_of ps k = None" using Cons.prems by (auto simp: p map_of_eq_None_iff)
  then show ?case using Cons by (auto simp: p)
qed

lemma js_prop_sql_raw:
  "distinct (map fst ps) \<Longrightarrow> js_prop (js_object (sql_raw (JObj ps))) k = json_norm (js_prop (Some ps) k)"
  using map_of_json_norm [of ps "js k"]
  by (simp add: sql_raw_def toJson_def fromJson_def nullish_def js_prop_def js_object_def)

lemma json_norm_opt_text [simp]: "json_norm (opt_text t) = opt_text t"
  by (simp add: opt_text_def split: option.splits)

lemma js_text_opt_text [simp]: "js_text (opt_text t) = t"
  by (simp add: opt_text_def js_text_def split: option.splits)

lemma state_of_object_state [simp]: "state_of_object (sql_raw (state_object st)) = st"
proof -
  define ps where "ps = (case state_object st of JObj q \<Rightarrow> q | _ \<Rightarrow> [])"
  have ps: "state_object st = JObj ps" and d: "distinct (map fst ps)"
    by (simp_all add: ps_def state_object_def)
  show ?thesis
    unfolding state_of_object_def ps Let_def js_prop_sql_raw [OF d]
    by (simp add: ps_def state_object_def js_prop_def js_num_def js_text_def [of "JStr _"])
qed

text \<open>
  Every row of the database reads back as it was written. Accounts, transactions and holdings
  come back with their raw value as JSON keeps it; runs, consumers, anomalies, synthetic payments
  and source states come back unchanged.
\<close>

theorem row_codecs_roundtrip:
  "accountFromRow (account_row a) = a\<lparr>acc_raw := sql_raw (acc_raw a)\<rparr> \<and>
   transactionFromRow (transaction_row t) = t\<lparr>tx_raw := sql_raw (tx_raw t)\<rparr> \<and>
   holdingFromRow (holding_row h) = h\<lparr>hold_raw := sql_raw (hold_raw h)\<rparr> \<and>
   runFromRow (run_row r) = r \<and> consumerFromRow (consumerParameters c) = c \<and>
   anomalyFromRow (anomaly_row n) = n \<and> syntheticPaymentFromRow (synthetic_row p) = p \<and>
   state_of_object (fromJson (Some (toJson (state_object st)))) = st"
  using state_of_object_state [of st] by (simp add: sql_raw_def)

end
