(* ===== verification/SqliteTables.thy ===== *)
theory SqliteTables
  imports SqliteCodecs LedgerContract
begin

text \<open>
  A table whose rows the bridge wrote itself behaves like a map from its key column. The locale states
  it once for any row codec; the consumers and the source states interpret it, and with it the ledger
  contracts that the rest of the bridge uses.
\<close>

locale coded_table =
  fixes enc :: "'a \<Rightarrow> row" and dec :: "row \<Rightarrow> 'a" and key :: "'a \<Rightarrow> jsstr" and column :: string
  assumes dec_enc: "dec (enc x) = x"
    and key_col: "col (enc x) column = Some (SText (key x))"
begin

definition well_coded :: "table \<Rightarrow> bool" where
  "well_coded t \<longleftrightarrow> (\<exists>xs. t = map enc xs \<and> distinct (map key xs))"

lemma decoded [simp]: "map dec (map enc xs) = xs"
  by (induction xs) (simp_all add: dec_enc)

lemma get_coded: "get_where column k (map enc xs) = map_option enc (List.find (\<lambda>x. key x = k) xs)"
  by (induction xs) (simp_all add: get_where_def key_col)

lemma get_decoded: "map_option dec (get_where column k (map enc xs)) = List.find (\<lambda>x. key x = k) xs"
  by (simp add: get_coded option.map_comp comp_def dec_enc option.map_ident)

lemma same_key_coded: "same_key column (enc x) (enc y) \<longleftrightarrow> key x = key y"
  by (simp add: same_key_def key_col)

text \<open>The columns an upsert writes are all but the key.\<close>

definition overwrites :: "string list \<Rightarrow> bool" where
  "overwrites cols \<longleftrightarrow> (\<forall>x y. key x = key y \<longrightarrow> set_cols (filter (\<lambda>(c, v). c \<in> set cols) (enc y)) (enc x) = enc y)"

definition put :: "'a \<Rightarrow> 'a list \<Rightarrow> 'a list" where
  "put y xs = (if key y \<in> key ` set xs then map (\<lambda>x. if key x = key y then y else x) xs else xs @ [y])"

lemma find_append: "List.find P (xs @ ys) = (case List.find P xs of Some x \<Rightarrow> Some x | None \<Rightarrow> List.find P ys)"
  by (induction xs) auto

lemma find_replaced:
  "key y \<in> key ` set xs \<Longrightarrow> List.find (\<lambda>x. key x = k) (map (\<lambda>x. if key x = key y then y else x) xs) =
     (if k = key y then Some y else List.find (\<lambda>x. key x = k) xs)"
proof (induction xs)
  case (Cons x xs)
  have "List.find (\<lambda>x. key x = k) (map (\<lambda>x. if key x = key y then y else x) xs) = List.find (\<lambda>x. key x = k) xs"
    if "key y \<notin> key ` set xs"
    using that by (induction xs) auto
  with Cons show ?case by (cases "key y \<in> key ` set xs") auto
qed simp

lemma find_new: "key y \<notin> key ` set xs \<Longrightarrow>
    List.find (\<lambda>x. key x = k) (xs @ [y]) = (if k = key y then Some y else List.find (\<lambda>x. key x = k) xs)"
proof -
  assume "key y \<notin> key ` set xs"
  then have "List.find (\<lambda>x. key x = key y) xs = None" by (auto simp: find_None_iff image_iff)
  then show ?thesis by (auto simp: find_append split: option.splits)
qed

lemma find_put: "List.find (\<lambda>x. key x = k) (put y xs) = (if k = key y then Some y else List.find (\<lambda>x. key x = k) xs)"
  by (cases "key y \<in> key ` set xs") (simp_all only: put_def find_replaced find_new if_True if_False not_False_eq_True)

lemma put_distinct: "distinct (map key xs) \<Longrightarrow> distinct (map key (put y xs))"
proof -
  have "map key (map (\<lambda>x. if key x = key y then y else x) xs) = map key xs" by (induction xs) auto
  then show "distinct (map key xs) \<Longrightarrow> ?thesis" by (simp add: put_def del: map_map)
qed

lemma upsert_coded:
  assumes "overwrites cols"
  shows "upsert_row column cols (enc y) (map enc xs) =
    map enc (put y xs)"
proof -
  have "list_ex (same_key column (enc y)) (map enc xs) \<longleftrightarrow> key y \<in> key ` set xs"
    by (auto simp: list_ex_iff same_key_coded)
  then show ?thesis
    using assms by (auto simp: upsert_row_def put_def same_key_coded overwrites_def)
qed

lemma find_in: "distinct (map key xs) \<Longrightarrow> x \<in> set xs \<longleftrightarrow> List.find (\<lambda>y. key y = key x) xs = Some x"
  by (induction xs) auto

lemma upsert_law:
  assumes cols: "overwrites cols"
    and t: "well_coded t"
  shows "well_coded (upsert_row column cols (enc y) t)"
    "map_option dec (get_where column k (upsert_row column cols (enc y) t)) =
      (if k = key y then Some y else map_option dec (get_where column k t))"
proof -
  from t obtain xs where xs: "t = map enc xs" "distinct (map key xs)" by (auto simp: well_coded_def)
  show "well_coded (upsert_row column cols (enc y) t)"
    unfolding xs(1) upsert_coded [OF cols] well_coded_def using put_distinct [OF xs(2)] by metis
  show "map_option dec (get_where column k (upsert_row column cols (enc y) t)) =
      (if k = key y then Some y else map_option dec (get_where column k t))"
    unfolding xs(1) upsert_coded [OF cols] get_decoded by (rule find_put)
qed

lemma insert_law:
  assumes t: "well_coded t" and new: "get_where column (key y) t = None"
  shows "well_coded (t @ [enc y])"
    "map_option dec (get_where column k (t @ [enc y])) =
      (if k = key y then Some y else map_option dec (get_where column k t))"
proof -
  from t obtain xs where xs: "t = map enc xs" "distinct (map key xs)" by (auto simp: well_coded_def)
  from new have no: "List.find (\<lambda>x. key x = key y) xs = None" by (simp add: xs(1) get_coded)
  then have notin: "key y \<notin> key ` set xs" by (auto simp: find_None_iff)
  have "t @ [enc y] = map enc (xs @ [y])" by (simp add: xs(1))
  moreover have "distinct (map key (xs @ [y]))" using xs(2) notin by simp
  ultimately show "well_coded (t @ [enc y])" unfolding well_coded_def by blast
  show "map_option dec (get_where column k (t @ [enc y])) =
      (if k = key y then Some y else map_option dec (get_where column k t))"
    unfolding \<open>t @ [enc y] = _\<close> get_decoded using find_new [OF notin, of k] by (simp add: xs(1) get_decoded)
qed

lemma get_key:
  assumes "well_coded t" "map_option dec (get_where column k t) = Some x"
  shows "key x = k"
proof -
  from assms(1) obtain xs where "t = map enc xs" by (auto simp: well_coded_def)
  with assms(2) have "List.find (\<lambda>x. key x = k) xs = Some x" by (simp only: get_decoded)
  from find_Some_iff_in [OF this] show ?thesis by blast
qed

lemma member_law:
  assumes t: "well_coded t"
  shows "x \<in> dec ` set t \<longleftrightarrow> map_option dec (get_where column (key x) t) = Some x"
proof -
  from t obtain xs where xs: "t = map enc xs" "distinct (map key xs)" by (auto simp: well_coded_def)
  have "dec ` set t = set xs" unfolding xs(1) by (metis decoded set_map)
  then show ?thesis unfolding xs(1) get_decoded using find_in [OF xs(2), of x] by simp
qed

lemma other_column:
  assumes t: "well_coded t" and g: "map_option dec (get_where c v t) = Some x"
  shows "map_option dec (get_where column (key x) t) = Some x" "col (enc x) c = Some (SText v)"
proof -
  from t obtain xs where xs: "t = map enc xs" by (auto simp: well_coded_def)
  from g obtain r where r: "get_where c v t = Some r" "x = dec r" by auto
  then have in_t: "r \<in> set t" "col r c = Some (SText v)" by (auto simp: get_where_def dest: find_Some_iff_in)
  then have "r = enc x" using r(2) by (auto simp: xs dec_enc)
  with in_t show "col (enc x) c = Some (SText v)" by simp
  show "map_option dec (get_where column (key x) t) = Some x"
    using member_law [OF t, of x] in_t(1) r(2) by blast
qed

end

section \<open>The consumers\<close>

interpretation consumers: coded_table consumerParameters consumerFromRow con_id "''id''"
  by unfold_locales (simp_all add: consumerParameters_def consumerFromRow_def col_def)

definition consumers_ok :: "sqlite_db \<Rightarrow> bool" where
  "consumers_ok db \<longleftrightarrow> consumers.well_coded (db_consumers db)"

lemma consumer_update_cols: "consumers.overwrites (filter (\<lambda>x. x \<noteq> ''id'') consumerColumns)"
  by (simp add: consumers.overwrites_def set_cols_def consumerParameters_def consumerColumns_def)

lemma consumer_cols: "col (consumerParameters c) ''claim_id'' = Some (orNullText (con_claimId c))"
  "col (consumerParameters c) ''basic_user'' = Some (SText (con_basicUser c))"
  by (simp_all add: consumerParameters_def col_def)

interpretation sql_con: consumer_store "sqlite_ledger env printf2" consumers_ok for env printf2
proof unfold_locales
  fix s s' :: sqlite_db and c i k u
  assume ok: "consumers_ok s"
  then have wc: "consumers.well_coded (db_consumers s)" by (simp add: consumers_ok_def)
  note defs = sqlite_ledger_def sql_createConsumer_def sql_updateConsumer_def sql_getConsumer_def
    sql_getConsumerByClaimId_def sql_getConsumerByBasicUser_def sql_listConsumers_def
  have updated: "s' = s\<lparr>db_consumers := upsert_row ''id'' (filter (\<lambda>x. x \<noteq> ''id'') consumerColumns) (consumerParameters c) (db_consumers s)\<rparr>"
    if "updateConsumer (sqlite_ledger env printf2) c s = Inr s'"
    using that by (simp add: sqlite_ledger_def sql_updateConsumer_def split: if_splits)
  show "createConsumer (sqlite_ledger env printf2) c s = Inr s' \<Longrightarrow> consumers_ok s'"
    using consumers.insert_law(1) [OF wc, of c] by (auto simp: defs consumers_ok_def split: if_splits)
  show "updateConsumer (sqlite_ledger env printf2) c s = Inr s' \<Longrightarrow> consumers_ok s'"
    using updated consumers.upsert_law(1) [OF consumer_update_cols wc, of c] by (simp add: consumers_ok_def)
  show "createConsumer (sqlite_ledger env printf2) c s = Inr s' \<Longrightarrow> getConsumer (sqlite_ledger env printf2) i s' =
      (if i = con_id c then Some c else getConsumer (sqlite_ledger env printf2) i s)"
    using consumers.insert_law(2) [OF wc, of c i] by (simp add: defs split: if_splits del: map_option_eq_Some) (auto simp del: map_option_eq_Some)
  show "createConsumer (sqlite_ledger env printf2) c s = Inr s' \<Longrightarrow> getConsumer (sqlite_ledger env printf2) (con_id c) s = None"
    by (auto simp: defs split: if_splits)
  show "updateConsumer (sqlite_ledger env printf2) c s = Inr s' \<Longrightarrow> getConsumer (sqlite_ledger env printf2) i s' =
      (if i = con_id c then Some c else getConsumer (sqlite_ledger env printf2) i s)"
    using updated consumers.upsert_law(2) [OF consumer_update_cols wc, of i c]
    by (simp add: sqlite_ledger_def sql_getConsumer_def del: map_option_eq_Some)
  show "getConsumer (sqlite_ledger env printf2) i s = Some c \<Longrightarrow> con_id c = i"
    using consumers.get_key [OF wc, of i c] by (simp add: defs del: map_option_eq_Some)
  show "getConsumerByClaimId (sqlite_ledger env printf2) k s = Some c \<Longrightarrow>
      con_claimId c = Some k \<and> getConsumer (sqlite_ledger env printf2) (con_id c) s = Some c"
    using consumers.other_column [OF wc, of "''claim_id''" k c]
    by (simp add: defs consumer_cols orNullText_def del: map_option_eq_Some split: option.splits)
  show "getConsumerByBasicUser (sqlite_ledger env printf2) u s = Some c \<Longrightarrow>
      con_basicUser c = u \<and> getConsumer (sqlite_ledger env printf2) (con_id c) s = Some c"
    using consumers.other_column [OF wc, of "''basic_user''" u c] by (simp add: defs consumer_cols del: map_option_eq_Some)
  show "c \<in> set (listConsumers (sqlite_ledger env printf2) s) \<longleftrightarrow> getConsumer (sqlite_ledger env printf2) (con_id c) s = Some c"
    using consumers.member_law [OF wc, of c] by (simp add: defs del: map_option_eq_Some)
qed

section \<open>The source states\<close>

definition state_row :: "source_state \<Rightarrow> row" where
  "state_row st = [(''company'', SText (st_company st)), (''json'', toJson (state_object st))]"

interpretation states: coded_table state_row "\<lambda>r. state_of_object (fromJson (col r ''json''))" st_company "''company''"
  by unfold_locales (use state_of_object_state in \<open>simp_all add: state_row_def col_def sql_raw_def\<close>)

definition states_ok :: "sqlite_db \<Rightarrow> bool" where
  "states_ok db \<longleftrightarrow> states.well_coded (db_sourceStates db)"

lemma state_update_cols: "states.overwrites [''json'']"
  by (simp add: states.overwrites_def set_cols_def state_row_def)

interpretation sql_state: state_store "sqlite_ledger env printf2" states_ok for env printf2
proof unfold_locales
  fix s :: sqlite_db and st c
  assume ok: "states_ok s"
  then have wc: "states.well_coded (db_sourceStates s)" by (simp add: states_ok_def)
  note defs = sqlite_ledger_def sql_upsertSourceState_def sql_getSourceState_def state_row_def [symmetric]
  show "states_ok (upsertSourceState (sqlite_ledger env printf2) st s)"
    using states.upsert_law(1) [OF state_update_cols wc, of st] by (simp add: defs states_ok_def)
  show "getSourceState (sqlite_ledger env printf2) c (upsertSourceState (sqlite_ledger env printf2) st s) =
      (if c = st_company st then Some st else getSourceState (sqlite_ledger env printf2) c s)"
    using states.upsert_law(2) [OF state_update_cols wc, of c st] by (simp add: defs del: map_option_eq_Some)
  show "getSourceState (sqlite_ledger env printf2) c s = Some st \<Longrightarrow> st_company st = c"
    using states.get_key [OF wc, of c st] by (simp add: defs del: map_option_eq_Some)
qed

lemma empty_tables [simp]: "consumers_ok empty_db" "states_ok empty_db"
  by (simp_all add: consumers_ok_def states_ok_def empty_db_def consumers.well_coded_def states.well_coded_def)

end
