(* ===== verification/SqliteProofs.thy ===== *)
theory SqliteProofs
  imports SqliteCodecs MemoryProofs
begin

text \<open>
  The SQLite ledger implements the in-memory ledger. The abstraction decodes every table; storing a
  scrape commutes with it. The consequences proved for the in-memory ledger carry over, and the
  contracts of \<open>LedgerContract\<close> are interpreted on the tables as well.
\<close>

section \<open>Abstraction\<close>

definition abs_ledger :: "sqlite_db \<Rightarrow> mem_ledger" where
  "abs_ledger db = \<lparr>
     m_sourceStates = map (\<lambda>r. (columnText (col r ''company''), state_of_object (fromJson (col r ''json'')))) (db_sourceStates db),
     m_runs = map runFromRow (db_runs db),
     m_accounts = map (\<lambda>r. (columnText (col r ''id''), accountFromRow r)) (db_accounts db),
     m_transactions = map (\<lambda>r. (columnText (col r ''id''), transactionFromRow r)) (db_transactions db),
     m_holdings = map (\<lambda>r. (columnText (col r ''id''), holdingFromRow r)) (db_holdings db),
     m_synthetic = map syntheticPaymentFromRow (db_synthetic db),
     m_consumers = map (\<lambda>r. (columnText (col r ''id''), consumerFromRow r)) (db_consumers db),
     m_anomalies = map anomalyFromRow (db_anomalies db),
     m_meta = map (\<lambda>r. (columnText (col r ''key''), columnText (col r ''value''))) (db_meta db)\<rparr>"

text \<open>Raw values that survive a JSON column, and tables the bridge itself wrote.\<close>

definition json_clean :: "jsval \<Rightarrow> bool" where
  "json_clean v \<longleftrightarrow> sql_raw v = v"

definition txs_of :: "sqlite_db \<Rightarrow> ledger_tx list" where
  "txs_of db = map transactionFromRow (db_transactions db)"

definition db_ok :: "sqlite_db \<Rightarrow> bool" where
  "db_ok db \<longleftrightarrow> db_transactions db = map transaction_row (txs_of db) \<and> distinct (map tx_id (txs_of db)) \<and>
     (\<forall>t\<in>set (txs_of db). json_clean (tx_raw t))"

lemma clean_row: "json_clean (tx_raw t) \<Longrightarrow> transactionFromRow (transaction_row t) = t"
  by (simp add: json_clean_def)

lemma db_okI:
  assumes "db_transactions db = map transaction_row ts" "distinct (map tx_id ts)" "\<forall>t\<in>set ts. json_clean (tx_raw t)"
  shows "db_ok db" "txs_of db = ts"
proof -
  show t: "txs_of db = ts" unfolding txs_of_def assms(1) using assms(3) by (auto intro!: map_idI simp: json_clean_def)
  show "db_ok db" unfolding db_ok_def t using assms by simp
qed

lemma col_id [simp]: "col (transaction_row t) ''id'' = Some (SText (tx_id t))"
  by (simp add: transaction_row_def col_def)

lemma abs_transactions: "db_ok db \<Longrightarrow> m_transactions (abs_ledger db) = map (\<lambda>t. (tx_id t, t)) (txs_of db)"
  unfolding db_ok_def abs_ledger_def by (auto simp: json_clean_def)

lemma abs_keyed: "db_ok db \<Longrightarrow> keyed tx_id (m_transactions (abs_ledger db))"
  by (auto simp: keyed_def abs_transactions db_ok_def comp_def)

lemma abs_stored: "db_ok db \<Longrightarrow> map snd (m_transactions (abs_ledger db)) = txs_of db"
  by (simp add: abs_transactions comp_def)

lemma find_map_row: "List.find (\<lambda>r. col r ''id'' = Some (SText i)) (map transaction_row ts) =
    map_option transaction_row (List.find (\<lambda>t. tx_id t = i) ts)"
  by (induction ts) auto

lemma map_of_find: "map_of (map (\<lambda>t. (f t, t)) ts) i = List.find (\<lambda>t. f t = i) ts"
  by (induction ts) auto

lemma get_existing:
  assumes "db_ok db"
  shows "(case get_where ''id'' i (db_transactions db) of Some r \<Rightarrow> Some (transactionFromRow r) | None \<Rightarrow> z) =
    orelse (map_of (m_transactions (abs_ledger db)) i) z"
proof -
  have g: "get_where ''id'' i (db_transactions db) = map_option transaction_row (List.find (\<lambda>t. tx_id t = i) (txs_of db))"
    using assms unfolding get_where_def db_ok_def by (metis find_map_row)
  have "\<And>t. List.find (\<lambda>t. tx_id t = i) (txs_of db) = Some t \<Longrightarrow> transactionFromRow (transaction_row t) = t"
    using assms clean_row unfolding db_ok_def by (meson find_Some_iff_in)
  then show ?thesis
    unfolding g abs_transactions [OF assms] map_of_find by (auto split: option.splits)
qed

section \<open>Clean raw values\<close>

lemma clean_object: "json_clean (JObj ps) \<longleftrightarrow> (\<forall>(k, v)\<in>set ps. v \<noteq> JUndef \<and> json_norm v = v)"
proof -
  have "map (\<lambda>(k, v). (k, json_norm v)) (filter (\<lambda>(k, v). v \<noteq> JUndef) ps) = ps \<longleftrightarrow>
      (\<forall>(k, v)\<in>set ps. v \<noteq> JUndef \<and> json_norm v = v)"
  proof (induction ps)
    case (Cons p ps)
    have len: "length (filter (\<lambda>(k, v). v \<noteq> JUndef) ps) \<le> length ps" by simp
    obtain k v where p: "p = (k, v)" by fastforce
    show ?case
    proof (cases "v = JUndef")
      case True
      have "map (\<lambda>(k, v). (k, json_norm v)) (filter (\<lambda>(k, v). v \<noteq> JUndef) ps) \<noteq> p # ps"
        by (rule notI, drule arg_cong [where f = length]) (use len in simp)
      with True show ?thesis by (simp add: p)
    next
      case False
      then show ?thesis using Cons by (auto simp: p)
    qed
  qed simp
  then show ?thesis by (simp add: json_clean_def sql_raw_def toJson_def fromJson_def nullish_def)
qed

lemma json_clean_norm: "json_clean v \<Longrightarrow> v \<noteq> JUndef \<Longrightarrow> json_norm v = v \<and> v \<noteq> JNull"
  by (cases v) (auto simp: json_clean_def sql_raw_def toJson_def fromJson_def nullish_def split: if_splits)

lemma preserve_clean:
  assumes "json_clean (tx_raw t)" "json_clean (tx_raw row)"
  shows "json_clean (preserveArchiveRaw env t row)"
proof (cases "kept_archive env (tx_raw t)")
  case None
  with assms show ?thesis by (simp add: preserve_kept)
next
  case (Some v)
  then have v: "js_prop (js_object (tx_raw t)) ''archiveMigration'' = v" "js_object v \<noteq> None"
    by (auto simp: kept_archive_def Let_def split: if_splits)
  then obtain qs where "tx_raw t = JObj qs" "map_of qs (js ''archiveMigration'') = Some v"
    by (auto simp: js_prop_def js_object_def default_def split: option.splits jsval.splits)
  with assms(1) have "v \<noteq> JUndef" "json_norm v = v" by (auto simp: clean_object dest!: map_of_SomeD)
  moreover have "\<forall>(k, u)\<in>set (default (js_object (tx_raw row)) []). u \<noteq> JUndef \<and> json_norm u = u"
    using assms(2) by (cases "tx_raw row") (auto simp: js_object_def clean_object)
  ultimately show ?thesis
    unfolding preserve_kept Some option.case clean_object
    using set_update_subset [of "js ''archiveMigration''" v "default (js_object (tx_raw row)) []"] by blast
qed

section \<open>Refreshing a row\<close>

lemma refresh_columns:
  assumes "frozen_part t = frozen_part e"
  shows "set_cols
     [(''status'', SText (status_text (tx_status (refreshed env e row)))),
      (''charge_date'', orNullText (tx_chargeDate (refreshed env e row))),
      (''category'', orNullText (tx_category (refreshed env e row))),
      (''memo'', orNullText (tx_memo (refreshed env e row))),
      (''raw'', toJson (tx_raw (refreshed env e row))),
      (''last_seen'', SText (tx_lastSeen (refreshed env e row))),
      (''posted_seen_at'', orNullText (tx_postedSeenAt (refreshed env e row)))]
     (transaction_row t) = transaction_row (refreshed env e row)"
proof -
  have "frozen_part t = frozen_part (refreshed env e row)" using assms by simp
  then show ?thesis
    by (cases t; cases "refreshed env e row")
       (simp add: set_cols_def transaction_row_def frozen_part_def)
qed

section \<open>Resolving against the rows of one company\<close>

text \<open>
  The SQLite ledger resolves a scrape against the stored rows of one company only. A scraped row with a
  stored id has the company of the stored row, because the company is part of the id.
\<close>

definition ids_agree :: "ledger_tx list \<Rightarrow> ledger_tx list \<Rightarrow> bool" where
  "ids_agree rows stored \<longleftrightarrow> (\<forall>row\<in>set rows. \<forall>t\<in>set stored. tx_id t = tx_id row \<longrightarrow> tx_company t = tx_company row)"

definition visa :: "ledger_tx \<Rightarrow> bool" where
  "visa t \<longleftrightarrow> tx_company t = js ''visaCal''"

lemma matches_visa: "matchesArchiveInstallment env t row tz \<Longrightarrow> visa t \<and> visa row"
  by (simp add: visa_def matchesArchiveInstallment_def same_occurrence_def)

definition resolution_rel :: "ledger_tx list \<Rightarrow> resolution \<Rightarrow> resolution \<Rightarrow> bool" where
  "resolution_rel stored st st' \<longleftrightarrow>
     (\<forall>i. map_of (fst st') i = Option.bind (map_of (fst st) i) (\<lambda>c. if visa c then Some c else None)) \<and>
     (\<forall>c\<in>set stored. visa c \<longrightarrow> map_of (snd st') (tx_id c) = map_of (snd st) (tx_id c)) \<and>
     (\<forall>c\<in>set stored. \<not> visa c \<longrightarrow> map_of (snd st) (tx_id c) \<in> {None, Some (tx_id c)}) \<and>
     (\<forall>c\<in>set stored. \<not> visa c \<longrightarrow> map_of (fst st') (tx_id c) = None)"

lemma by_id_lookup: "distinct (map tx_id stored) \<Longrightarrow> map_of (by_id stored) i = List.find (\<lambda>t. tx_id t = i) stored"
proof (cases "List.find (\<lambda>t. tx_id t = i) stored")
  case None
  then have "\<forall>t\<in>set stored. tx_id t \<noteq> i" by (auto simp: find_None_iff)
  then have "map_of (by_id stored) i = None" using by_id_in [of stored i] by (cases "map_of (by_id stored) i") auto
  with None show ?thesis by simp
next
  case (Some t)
  assume d: "distinct (map tx_id stored)"
  from Some have t: "t \<in> set stored" "tx_id t = i" by (auto dest: find_Some_iff_in)
  then have "map_of (by_id stored) i \<noteq> None" using by_id_none by blast
  then obtain u where u: "map_of (by_id stored) i = Some u" by blast
  with by_id_in [OF u] t d have "u = t" by (auto simp: distinct_map dest: inj_onD)
  with u Some show ?thesis by simp
qed

lemma find_unique:
  "distinct (map f xs) \<Longrightarrow> x \<in> set xs \<Longrightarrow> List.find (\<lambda>y. f y = f x) xs = Some x"
  by (induction xs) force+

lemma find_filter_visa:
  assumes "distinct (map tx_id stored)"
  shows "List.find (\<lambda>t. tx_id t = i) (filter visa stored) =
    Option.bind (List.find (\<lambda>t. tx_id t = i) stored) (\<lambda>c. if visa c then Some c else None)"
  using assms
proof (induction stored)
  case Nil
  then show ?case by simp
next
  case (Cons t stored)
  have "List.find (\<lambda>u. tx_id u = tx_id t) stored = None"
    using Cons.prems by (auto simp: find_None_iff image_iff)
  with Cons show ?case by auto
qed

lemma identifier_group_visa:
  "findArchiveInstallment env (identifier_group (filter visa stored) row) row tz =
   findArchiveInstallment env (identifier_group stored row) row tz"
proof -
  have "filter (\<lambda>r. tx_id r \<noteq> tx_id row \<and> matchesArchiveInstallment env r row tz) (identifier_group (filter visa stored) row) =
    filter (\<lambda>r. tx_id r \<noteq> tx_id row \<and> matchesArchiveInstallment env r row tz) (identifier_group stored row)"
    by (auto simp: identifier_group_def intro!: filter_cong dest: matches_visa)
  then show ?thesis by (simp only: findArchiveInstallment_def)
qed

definition canonical_of :: "archive_env \<Rightarrow> ledger_tx list \<Rightarrow> jsstr \<Rightarrow> ledger_tx \<Rightarrow> ledger_tx option res" where
  "canonical_of env stored tz row =
     (case map_of (by_id stored) (tx_id row) of Some e \<Rightarrow> Inr (Some e)
      | None \<Rightarrow> findArchiveInstallment env (identifier_group stored row) row tz)"

definition claim_step :: "ledger_tx \<Rightarrow> resolution \<Rightarrow> ledger_tx option \<Rightarrow> resolution res" where
  "claim_step row st canonical =
     (case canonical of None \<Rightarrow> Inr st
      | Some c \<Rightarrow> if map_of (snd st) (tx_id c) \<noteq> None \<and> map_of (snd st) (tx_id c) \<noteq> Some (tx_id row)
          then Inl MultiplePortalRows
          else Inr (AList.update (tx_id row) c (fst st), AList.update (tx_id c) (tx_id row) (snd st)))"

lemma resolve_step_split: "resolve_step env stored tz row st = bindE (canonical_of env stored tz row) (claim_step row st)"
proof -
  obtain a b where st: "st = (a, b)" by fastforce
  show ?thesis
    unfolding resolve_step_def canonical_of_def claim_step_def Let_def st prod.case fst_conv snd_conv by (rule refl)
qed

lemma canonical_visa:
  assumes "distinct (map tx_id stored)" "\<And>t. t \<in> set stored \<Longrightarrow> tx_id t = tx_id row \<Longrightarrow> tx_company t = tx_company row"
  shows "canonical_of env (filter visa stored) tz row =
    (case canonical_of env stored tz row of Inl e \<Rightarrow> Inl e
     | Inr None \<Rightarrow> Inr None | Inr (Some c) \<Rightarrow> Inr (if visa c then Some c else None))"
proof -
  have d': "distinct (map tx_id (filter visa stored))" using assms(1) by (simp add: distinct_map_filter)
  show ?thesis
  proof (cases "List.find (\<lambda>t. tx_id t = tx_id row) stored")
    case None
    have "visa c" if "findArchiveInstallment env (identifier_group stored row) row tz = Inr (Some c)" for c
      using findArchiveInstallment_match [OF that] matches_visa by blast
    with None show ?thesis
      unfolding canonical_of_def by_id_lookup [OF assms(1)] by_id_lookup [OF d'] find_filter_visa [OF assms(1)] identifier_group_visa
      by (auto split: sum.splits option.splits)
  next
    case (Some t)
    then have t: "t \<in> set stored" "tx_id t = tx_id row" by (auto dest: find_Some_iff_in)
    have "findArchiveInstallment env cs row tz = Inr None" if "\<not> visa row" for cs
    proof -
      have "filter (\<lambda>r. tx_id r \<noteq> tx_id row \<and> matchesArchiveInstallment env r row tz) cs = []"
        using that by (auto simp: filter_empty_conv dest: matches_visa)
      then show ?thesis by (simp add: findArchiveInstallment_def)
    qed
    moreover have "visa t \<longleftrightarrow> visa row" using assms(2) [OF t] by (simp add: visa_def)
    ultimately show ?thesis using Some
      unfolding canonical_of_def by_id_lookup [OF assms(1)] by_id_lookup [OF d'] find_filter_visa [OF assms(1)]
      by simp
  qed
qed

lemma claim_step_rel:
  assumes rel: "resolution_rel stored st st'" and dist: "distinct (map tx_id stored)"
    and c: "canonical_of env stored tz row = Inr canonical"
  shows "(case claim_step row st canonical of
      Inl e \<Rightarrow> claim_step row st' (Option.bind canonical (\<lambda>c. if visa c then Some c else None)) = Inl e
    | Inr u \<Rightarrow> \<exists>u'. claim_step row st' (Option.bind canonical (\<lambda>c. if visa c then Some c else None)) = Inr u' \<and> resolution_rel stored u u')"
proof (cases canonical)
  case None
  with rel show ?thesis by (simp add: claim_step_def)
next
  case (Some d)
  have same: "t = d" if "t \<in> set stored" "tx_id t = tx_id d" for t
  proof -
    have "d \<in> set stored" using c Some
      by (auto simp: canonical_of_def identifier_group_def split: option.splits dest: by_id_in findArchiveInstallment_match)
    with that dist show ?thesis by (auto simp: distinct_map dest: inj_onD)
  qed
  have only: "t = d" if "t \<in> set stored" "tx_id t = tx_id row" for t
    using c Some that dist by_id_none [of stored "tx_id row" t] by_id_lookup [OF dist, of "tx_id row"]
      find_unique [OF dist that(1)]
    by (auto simp: canonical_of_def split: option.splits)
  have din: "d \<in> set stored" and own: "\<not> visa d \<Longrightarrow> tx_id d = tx_id row" using c Some
    by (auto simp: canonical_of_def identifier_group_def split: option.splits
        dest: by_id_in findArchiveInstallment_match matches_visa)
  show ?thesis
  proof (cases "visa d")
    case True
    with rel din have eq: "map_of (snd st') (tx_id d) = map_of (snd st) (tx_id d)" by (simp add: resolution_rel_def)
    show ?thesis
    proof (cases "map_of (snd st) (tx_id d) \<noteq> None \<and> map_of (snd st) (tx_id d) \<noteq> Some (tx_id row)")
      case clash: True
      with eq True Some show ?thesis by (simp add: claim_step_def)
    next
      case False
      have "resolution_rel stored (AList.update (tx_id row) d (fst st), AList.update (tx_id d) (tx_id row) (snd st))
          (AList.update (tx_id row) d (fst st'), AList.update (tx_id d) (tx_id row) (snd st'))"
        using rel True same only by (auto simp: resolution_rel_def)
      with False eq True Some show ?thesis by (simp add: claim_step_def)
    qed
  next
    case False
    with rel din own have "map_of (snd st) (tx_id d) = None \<or> map_of (snd st) (tx_id d) = Some (tx_id row)"
      by (auto simp: resolution_rel_def)
    moreover have "resolution_rel stored (AList.update (tx_id row) d (fst st), AList.update (tx_id d) (tx_id row) (snd st)) st'"
    proof -
      from rel have "\<forall>c\<in>set stored. \<not> visa c \<longrightarrow> map_of (fst st') (tx_id c) = None"
        unfolding resolution_rel_def by blast
      with din False own have "map_of (fst st') (tx_id row) = None" by metis
      then show ?thesis using rel False same own by (auto simp: resolution_rel_def)
    qed
    ultimately show ?thesis using Some False by (auto simp: claim_step_def)
  qed
qed

lemma resolve_fold_rel:
  assumes "resolution_rel stored st st'" "distinct (map tx_id stored)" "ids_agree rows stored"
  shows "(case foldE (resolve_step env stored tz) rows st of
      Inl e \<Rightarrow> foldE (resolve_step env (filter visa stored) tz) rows st' = Inl e
    | Inr u \<Rightarrow> \<exists>u'. foldE (resolve_step env (filter visa stored) tz) rows st' = Inr u' \<and> resolution_rel stored u u')"
  using assms(1,3)
proof (induction rows arbitrary: st st')
  case Nil
  then show ?case by simp
next
  case (Cons row rows)
  let ?can = "canonical_of env stored tz row"
  from Cons.prems(2) have agree: "\<And>t. t \<in> set stored \<Longrightarrow> tx_id t = tx_id row \<Longrightarrow> tx_company t = tx_company row"
    "ids_agree rows stored" by (auto simp: ids_agree_def)
  note can' = canonical_visa [OF assms(2) agree(1), of env tz]
  show ?case
  proof (cases ?can)
    case (Inl e)
    then show ?thesis by (simp add: resolve_step_split can')
  next
    case (Inr c)
    have can'': "canonical_of env (filter visa stored) tz row = Inr (Option.bind c (\<lambda>c. if visa c then Some c else None))"
      using can' Inr by (cases c) simp_all
    note step = claim_step_rel [OF Cons.prems(1) assms(2) Inr]
    show ?thesis
    proof (cases "claim_step row st c")
      case Inl2: (Inl e)
      with step show ?thesis by (simp add: resolve_step_split Inr can'')
    next
      case Inr2: (Inr u)
      with step obtain u' where u': "claim_step row st' (Option.bind c (\<lambda>c. if visa c then Some c else None)) = Inr u'"
        "resolution_rel stored u u'" by auto
      have eqs: "foldE (resolve_step env stored tz) (row # rows) st = foldE (resolve_step env stored tz) rows u"
        "foldE (resolve_step env (filter visa stored) tz) (row # rows) st' = foldE (resolve_step env (filter visa stored) tz) rows u'"
        using Inr2 u'(1) by (simp_all add: resolve_step_split Inr can'')
      show ?thesis unfolding eqs by (rule Cons.IH [OF u'(2) agree(2)])
    qed
  qed
qed

lemma resolve_visa:
  assumes "distinct (map tx_id stored)" "ids_agree rows stored"
  shows "(case resolveArchiveInstallments env rows stored tz of
      Inl e \<Rightarrow> resolveArchiveInstallments env rows (filter visa stored) tz = Inl e
    | Inr m \<Rightarrow> \<exists>m'. resolveArchiveInstallments env rows (filter visa stored) tz = Inr m' \<and>
        (\<forall>i. map_of m' i = Option.bind (map_of m i) (\<lambda>c. if visa c then Some c else None)))"
proof -
  have "resolution_rel stored ([], []) ([], [])" by (simp add: resolution_rel_def)
  from resolve_fold_rel [OF this assms, of env tz] show ?thesis
    unfolding resolveArchiveInstallments_def
    by (auto simp: resolution_rel_def case_prod_beta bindE_def split: sum.splits)
qed

section \<open>Storing a scrape\<close>

lemma refreshTransaction_eq:
  "refreshTransaction env e row db =
     (row_changed e row, db\<lparr>db_transactions := update_where ''id'' (tx_id e)
       [(''status'', SText (status_text (tx_status (refreshed env e row)))),
        (''charge_date'', orNullText (tx_chargeDate (refreshed env e row))),
        (''category'', orNullText (tx_category (refreshed env e row))),
        (''memo'', orNullText (tx_memo (refreshed env e row))),
        (''raw'', toJson (tx_raw (refreshed env e row))),
        (''last_seen'', SText (tx_lastSeen (refreshed env e row))),
        (''posted_seen_at'', orNullText (tx_postedSeenAt (refreshed env e row)))] (db_transactions db)\<rparr>)"
  by (simp add: refreshTransaction_def row_changed_def refreshed_def refreshed_status_def Let_def)

lemma refresh_table:
  assumes "db_ok db" "t \<in> set (txs_of db)" "tx_id t = tx_id e" "frozen_part t = frozen_part e"
  shows "db_transactions (snd (refreshTransaction env e row db)) =
    map transaction_row (map (\<lambda>u. if tx_id u = tx_id e then norm_tx (refreshed env e row) else u) (txs_of db))"
proof -
  have inj: "inj_on tx_id (set (txs_of db))" using assms(1) by (simp add: db_ok_def distinct_map)
  have "u = t" if "u \<in> set (txs_of db)" "tx_id u = tx_id e" for u
    by (rule inj_onD [OF inj]) (use that assms(2,3) in simp_all)
  then have fz: "frozen_part u = frozen_part e" if "u \<in> set (txs_of db)" "tx_id u = tx_id e" for u
    using that assms(4) by blast
  have tab: "db_transactions db = map transaction_row (txs_of db)" using assms(1) by (simp add: db_ok_def)
  show ?thesis
    unfolding refreshTransaction_eq snd_conv
    by (subst tab) (auto simp: update_where_def fz intro: refresh_columns simp del: refreshed_raw)
qed

lemma clean_norm [simp]: "json_clean (sql_raw v)"
  by (simp add: json_clean_def)

lemma norm_clean: "json_clean (tx_raw t) \<Longrightarrow> norm_tx t = t"
  by (simp add: json_clean_def norm_tx_def)

lemma refresh_sim:
  assumes ok: "db_ok db" and t: "t \<in> set (txs_of db)" "tx_id t = tx_id e" "frozen_part t = frozen_part e"
  shows "db_ok (snd (refreshTransaction env e row db)) \<and>
    abs_ledger (snd (refreshTransaction env e row db)) = (abs_ledger db)\<lparr>m_transactions :=
      AList.update (tx_id e) (norm_tx (refreshed env e row)) (m_transactions (abs_ledger db))\<rparr>"
proof -
  let ?ts = "map (\<lambda>u. if tx_id u = tx_id e then norm_tx (refreshed env e row) else u) (txs_of db)"
  let ?db = "snd (refreshTransaction env e row db)"
  note tab = refresh_table [OF ok t, of env row]
  have ids: "map tx_id ?ts = map tx_id (txs_of db)" by (induction "txs_of db") auto
  have "\<forall>u\<in>set ?ts. json_clean (tx_raw u)"
    using ok by (auto simp: db_ok_def)
  moreover have "distinct (map tx_id ?ts)" unfolding ids using ok by (simp add: db_ok_def)
  ultimately have ok': "db_ok ?db" "txs_of ?db = ?ts" using db_okI [OF tab] by blast+
  have "abs_ledger ?db = (abs_ledger db)\<lparr>m_transactions := map (\<lambda>t. (tx_id t, t)) ?ts\<rparr>"
    using abs_transactions [OF ok'(1)] ok'(2) by (simp add: abs_ledger_def refreshTransaction_eq)
  moreover have "map (\<lambda>t. (tx_id t, t)) ?ts = AList.update (tx_id e) (norm_tx (refreshed env e row)) (m_transactions (abs_ledger db))"
  proof -
    have "fst ` set (m_transactions (abs_ledger db)) = tx_id ` set (txs_of db)"
      by (simp add: abs_transactions [OF ok] image_image)
    then have "tx_id e \<in> fst ` set (m_transactions (abs_ledger db))" using t(1,2) by (metis imageI)
    moreover have "distinct (map fst (m_transactions (abs_ledger db)))"
      using ok by (simp add: abs_transactions db_ok_def comp_def)
    ultimately have mem: "tx_id e \<in> fst ` set (m_transactions (abs_ledger db))"
      "distinct (map fst (m_transactions (abs_ledger db)))" by blast+
    from map_snd_update [OF mem, of "norm_tx (refreshed env e row)"] show ?thesis
      by (auto simp: abs_transactions [OF ok])
  qed
  ultimately show ?thesis using ok' by simp
qed

lemma insert_sim:
  assumes ok: "db_ok db" and new: "map_of (m_transactions (abs_ledger db)) (tx_id row) = None"
  shows "db_ok (sql_insertTransaction row db) \<and>
    abs_ledger (sql_insertTransaction row db) =
      (abs_ledger db)\<lparr>m_transactions := AList.update (tx_id row) (norm_tx row) (m_transactions (abs_ledger db))\<rparr>"
proof -
  have notin: "tx_id row \<notin> tx_id ` set (txs_of db)"
    using new by (simp add: abs_transactions [OF ok] map_of_eq_None_iff image_image)
  have tab: "db_transactions (sql_insertTransaction row db) = map transaction_row (txs_of db @ [norm_tx row])"
    using ok by (simp add: sql_insertTransaction_def db_ok_def)
  have ok': "db_ok (sql_insertTransaction row db)" "txs_of (sql_insertTransaction row db) = txs_of db @ [norm_tx row]"
    using db_okI [OF tab] notin ok by (simp_all add: db_ok_def)
  have "AList.update (tx_id row) (norm_tx row) (m_transactions (abs_ledger db)) = m_transactions (abs_ledger db) @ [(tx_id row, norm_tx row)]"
    using notin by (intro update_append_new) (auto simp: abs_transactions [OF ok] image_iff)
  with abs_transactions [OF ok'(1)] ok'(2) abs_transactions [OF ok] ok'(1) show ?thesis
    by (simp add: abs_ledger_def sql_insertTransaction_def)
qed

lemma reported_alike:
  assumes "tx_id e = tx_id row \<or> tx_amount e = tx_amount row \<and> tx_description e = tx_description row"
  shows "frozenFieldAnomalies e (if tx_id e = tx_id row then row else row\<lparr>tx_id := tx_id e, tx_bookedDate := tx_bookedDate e\<rparr>) =
    frozen_anomalies (tx_id row) (tx_lastSeen row) [(FAmount, to_fixed2 (tx_amount e), to_fixed2 (tx_amount row)),
      (FBookedDate, tx_bookedDate e, tx_bookedDate (if tx_id e = tx_id row then row else e)),
      (FDescription, tx_description e, tx_description row)]"
  using assms by (cases "tx_id e = tx_id row") (simp_all add: frozenFieldAnomalies_def frozen_anomalies_def)

text \<open>One row: both ledgers take the same branch, report the same and end in corresponding states.\<close>

lemma upsert_row_sim:
  assumes ok: "db_ok db" and clean: "json_clean (tx_raw row)"
    and al: "map_of (m_transactions (abs_ledger db)) (tx_id row) = None \<Longrightarrow> map_of al' (tx_id row) = map_of al (tx_id row)"
    and arch: "\<And>c. map_of (m_transactions (abs_ledger db)) (tx_id row) = None \<Longrightarrow> map_of al (tx_id row) = Some c \<Longrightarrow>
      json_clean (tx_raw c) \<and> tx_amount c = tx_amount row \<and> tx_description c = tx_description row \<and>
      (\<exists>t. map_of (m_transactions (abs_ledger db)) (tx_id c) = Some t \<and> frozen_part t = frozen_part c)"
  shows "\<exists>summary' db'. sql_upsert_row env al' row (summary, db) = (summary', db') \<and> db_ok db' \<and>
    mem_upsert_row env al row (summary, abs_ledger db) = (summary', abs_ledger db')"
proof -
  let ?m = "m_transactions (abs_ledger db)"
  note key = abs_keyed [OF ok]
  have stored: "t \<in> set (txs_of db) \<and> tx_id t = i" if "map_of ?m i = Some t" for i t
    using that by (auto simp: abs_transactions [OF ok] dest: map_of_SomeD)
  show ?thesis
  proof (cases "orelse (map_of ?m (tx_id row)) (map_of al (tx_id row))")
    case None
    then have none: "map_of ?m (tx_id row) = None" "map_of al (tx_id row) = None"
      by (auto simp: orelse_def split: option.splits)
    with al insert_sim [OF ok none(1)] norm_clean [OF clean] show ?thesis
      by (simp add: sql_upsert_row_def mem_upsert_row_def get_existing [OF ok])
  next
    case (Some e)
    obtain t where t: "t \<in> set (txs_of db)" "tx_id t = tx_id e" "frozen_part t = frozen_part e" "json_clean (tx_raw e)"
      and an: "frozenFieldAnomalies e (if tx_id e = tx_id row then row else row\<lparr>tx_id := tx_id e, tx_bookedDate := tx_bookedDate e\<rparr>) =
        frozen_anomalies (tx_id row) (tx_lastSeen row) [(FAmount, to_fixed2 (tx_amount e), to_fixed2 (tx_amount row)),
          (FBookedDate, tx_bookedDate e, tx_bookedDate (if tx_id e = tx_id row then row else e)),
          (FDescription, tx_description e, tx_description row)]"
    proof (cases "map_of ?m (tx_id row)")
      case None
      with Some have "map_of al (tx_id row) = Some e" by simp
      from arch [OF None this] obtain t where c: "json_clean (tx_raw e)" "tx_amount e = tx_amount row"
        "tx_description e = tx_description row" "map_of ?m (tx_id e) = Some t" "frozen_part t = frozen_part e" by blast
      from that [OF _ _ c(5,1) reported_alike] stored [OF c(4)] c(2,3) show thesis by blast
    next
      case (Some e')
      with \<open>orelse _ _ = Some e\<close> have "map_of ?m (tx_id row) = Some e" by simp
      from stored [OF this] that [of e, OF _ refl refl _ reported_alike] ok show thesis by (auto simp: db_ok_def)
    qed
    have ex: "(case get_where ''id'' (tx_id row) (db_transactions db) of Some r \<Rightarrow> Some (transactionFromRow r)
        | None \<Rightarrow> map_of al' (tx_id row)) = Some e"
      using Some al unfolding get_existing [OF ok] by (auto simp: orelse_def split: option.splits)
    obtain db' where r: "refreshTransaction env e row db = (row_changed e row, db')"
      by (simp add: refreshTransaction_eq)
    have "norm_tx (refreshed env e row) = refreshed env e row"
      using preserve_clean [OF t(4) clean] by (intro norm_clean) simp
    with refresh_sim [OF ok t(1-3), of env row] have "db_ok db'" "abs_ledger db' = (abs_ledger db)\<lparr>m_transactions :=
        AList.update (tx_id e) (refreshed env e row) (m_transactions (abs_ledger db))\<rparr>"
      unfolding r snd_conv by simp_all
    then show ?thesis
      unfolding sql_upsert_row_def mem_upsert_row_def prod.case ex Some option.case Let_def an r by simp
  qed
qed

text \<open>What a resolution gives for the rows of a batch with pairwise different ids.\<close>

definition aliases_ok :: "sqlite_db \<Rightarrow> (jsstr \<times> ledger_tx) list \<Rightarrow> (jsstr \<times> ledger_tx) list \<Rightarrow> ledger_tx list \<Rightarrow> bool" where
  "aliases_ok db al al' rows \<longleftrightarrow>
     (\<forall>i c. map_of al i = Some c \<longrightarrow> map_of (m_transactions (abs_ledger db)) (tx_id c) = Some c \<and> json_clean (tx_raw c)) \<and>
     (\<forall>row\<in>set rows. \<forall>c. map_of al (tx_id row) = Some c \<longrightarrow> tx_id c = tx_id row \<or>
        visa c \<and> tx_amount c = tx_amount row \<and> tx_description c = tx_description row) \<and>
     (\<forall>i. map_of al' i = Option.bind (map_of al i) (\<lambda>c. if visa c then Some c else None))"

lemma resolution_aliases_ok:
  assumes ok: "db_ok db" and res: "resolveArchiveInstallments env rows (txs_of db) tz = Inr al"
    and dist: "distinct (map tx_id rows)"
    and al': "\<forall>i. map_of al' i = Option.bind (map_of al i) (\<lambda>c. if visa c then Some c else None)"
  shows "aliases_ok db al al' rows"
  unfolding aliases_ok_def
proof (intro conjI allI impI ballI al' [rule_format])
  fix i c assume "map_of al i = Some c"
  with resolve_sound(1) [OF res] have c: "c \<in> set (txs_of db)" by blast
  then show "map_of (m_transactions (abs_ledger db)) (tx_id c) = Some c"
    by (intro keyed_in [OF abs_keyed [OF ok]]) (simp add: abs_transactions [OF ok] image_image)
  from c ok show "json_clean (tx_raw c)" by (simp add: db_ok_def)
next
  fix row c assume row: "row \<in> set rows" and "map_of al (tx_id row) = Some c"
  from resolve_sound(2) [OF res this(2)]
  show "tx_id c = tx_id row \<or> visa c \<and> tx_amount c = tx_amount row \<and> tx_description c = tx_description row"
  proof
    assume "\<exists>row'\<in>set rows. tx_id row' = tx_id row \<and> matchesArchiveInstallment env c row' tz"
    then obtain row' where "row' \<in> set rows" "tx_id row' = tx_id row" "matchesArchiveInstallment env c row' tz" by blast
    moreover from this(1,2) row dist have "row' = row" by (auto simp: distinct_map dest: inj_onD)
    ultimately show ?thesis by (auto simp: matchesArchiveInstallment_def same_occurrence_def visa_def)
  qed simp
qed

lemma upsert_fold_sim:
  assumes "db_ok db" "batch_inv (abs_ledger db0) (abs_ledger db)" "aliases_ok db0 al al' rows"
    and "\<forall>row\<in>set rows. json_clean (tx_raw row)"
  shows "\<exists>summary' db'. fold (sql_upsert_row env al') rows (summary, db) = (summary', db') \<and> db_ok db' \<and>
    fold (mem_upsert_row env al) rows (summary, abs_ledger db) = (summary', abs_ledger db')"
  using assms
proof (induction rows arbitrary: summary db)
  case Nil
  then show ?case by simp
next
  case (Cons row rows)
  let ?m = "m_transactions (abs_ledger db)"
  have stored: "\<exists>t. map_of ?m (tx_id c) = Some t \<and> frozen_part t = frozen_part c" if "map_of al i = Some c" for i c
  proof -
    from that Cons.prems(3) have "map_of (m_transactions (abs_ledger db0)) (tx_id c) = Some c" by (simp add: aliases_ok_def)
    with Cons.prems(2) show ?thesis unfolding batch_inv_def evolves_def by blast
  qed
  have matched: "visa c \<and> json_clean (tx_raw c) \<and> tx_amount c = tx_amount row \<and> tx_description c = tx_description row"
    if "map_of ?m (tx_id row) = None" "map_of al (tx_id row) = Some c" for c
  proof -
    from stored [OF that(2)] that(1) have "tx_id c \<noteq> tx_id row" by auto
    with that(2) Cons.prems(3) show ?thesis by (auto simp: aliases_ok_def)
  qed
  have same: "map_of al' (tx_id row) = map_of al (tx_id row)" if "map_of ?m (tx_id row) = None"
    using matched [OF that] Cons.prems(3) by (cases "map_of al (tx_id row)") (auto simp: aliases_ok_def)
  have clean: "json_clean (tx_raw row)" using Cons.prems(4) by simp
  have "\<exists>summary' db'. sql_upsert_row env al' row (summary, db) = (summary', db') \<and> db_ok db' \<and>
      mem_upsert_row env al row (summary, abs_ledger db) = (summary', abs_ledger db')"
    by (rule upsert_row_sim [OF Cons.prems(1) clean same]) (assumption, use matched stored in blast)
  then obtain summary1 db1 where 1: "sql_upsert_row env al' row (summary, db) = (summary1, db1)" "db_ok db1"
    "mem_upsert_row env al row (summary, abs_ledger db) = (summary1, abs_ledger db1)" by blast
  have "batch_inv (abs_ledger db0) (abs_ledger db1)"
    using mem_upsert_row_inv [of "abs_ledger db0" "(summary, abs_ledger db)" al env row] Cons.prems(2,3) 1(3)
    by (simp add: aliases_ok_def)
  moreover have "aliases_ok db0 al al' rows" using Cons.prems(3) by (simp add: aliases_ok_def)
  ultimately show ?case using Cons.IH [OF 1(2), of summary1] Cons.prems(4) 1 by simp
qed

definition db_inv :: "sqlite_db \<Rightarrow> bool" where
  "db_inv db \<longleftrightarrow> db_ok db \<and> mem_inv (abs_ledger db)"

lemma visa_table: "db_ok db \<Longrightarrow> sql_stored_visa_cal db = filter visa (txs_of db)"
proof -
  assume ok: "db_ok db"
  then have tab: "db_transactions db = map transaction_row (txs_of db)" by (simp add: db_ok_def)
  have "col (transaction_row t) ''company'' = Some (SText (tx_company t))" for t
    by (simp add: transaction_row_def col_def)
  then have "sql_stored_visa_cal db = map transactionFromRow (map transaction_row (filter visa (txs_of db)))"
    unfolding sql_stored_visa_cal_def select_where_def by (subst tab) (simp add: filter_map comp_def visa_def [abs_def])
  also have "\<dots> = filter visa (txs_of db)"
    using ok by (auto simp: db_ok_def json_clean_def intro!: map_idI)
  finally show ?thesis .
qed

lemma abs_log: "abs_ledger (db\<lparr>db_anomalies := db_anomalies db @ map anomaly_row as\<rparr>) =
    (abs_ledger db)\<lparr>m_anomalies := m_anomalies (abs_ledger db) @ as\<rparr>"
  by (simp add: abs_ledger_def comp_def)

lemma db_inv_log: "db_inv (db\<lparr>db_anomalies := x\<rparr>) = db_inv db"
  by (simp add: db_inv_def db_ok_def txs_of_def mem_inv_def abs_ledger_def)

lemma sql_upsert_sim:
  assumes inv: "db_inv db" and dist: "distinct (map tx_id rows)" and clean: "\<forall>row\<in>set rows. json_clean (tx_raw row)"
    and agree: "ids_agree rows (txs_of db)"
  shows "(case sql_upsertTransactions env rows tz db of
      Inl e \<Rightarrow> mem_upsertTransactions env rows tz (abs_ledger db) = Inl e
    | Inr (summary, db') \<Rightarrow> mem_upsertTransactions env rows tz (abs_ledger db) = Inr (summary, abs_ledger db') \<and> db_inv db')"
proof -
  from inv have ok: "db_ok db" and mem: "mem_inv (abs_ledger db)" by (simp_all add: db_inv_def)
  let ?mem = "case tz of Some z \<Rightarrow> resolveArchiveInstallments env rows (txs_of db) z | None \<Rightarrow> Inr []"
  let ?sql = "case tz of Some z \<Rightarrow> resolveArchiveInstallments env rows (filter visa (txs_of db)) z | None \<Rightarrow> Inr []"
  have m: "mem_upsertTransactions env rows tz (abs_ledger db) = bindE ?mem (\<lambda>al.
      let (summary, s') = fold (mem_upsert_row env al) rows (empty_summary, abs_ledger db) in
      Inr (summary, s'\<lparr>m_anomalies := m_anomalies s' @ sum_anomalies summary\<rparr>))"
    by (simp only: mem_upsertTransactions_def abs_stored [OF ok])
  have q: "sql_upsertTransactions env rows tz db = bindE ?sql (\<lambda>al.
      let (summary, db') = fold (sql_upsert_row env al) rows (empty_summary, db) in
      Inr (summary, db'\<lparr>db_anomalies := db_anomalies db' @ map anomaly_row (sum_anomalies summary)\<rparr>))"
    by (simp only: sql_upsertTransactions_def visa_table [OF ok])
  have ids: "distinct (map tx_id (txs_of db))" using ok by (simp add: db_ok_def)
  show ?thesis
  proof (cases ?mem)
    case (Inl e)
    then obtain z where z: "tz = Some z" "resolveArchiveInstallments env rows (txs_of db) z = Inl e"
      by (cases tz) auto
    then have "?sql = Inl e" using resolve_visa [OF ids agree, of env z] by simp
    with Inl show ?thesis by (simp add: m q)
  next
    case (Inr al)
    then obtain al' where al': "?sql = Inr al'" "aliases_ok db al al' rows"
    proof (cases tz)
      case None
      with Inr that [of "[]"] show thesis by (simp add: aliases_ok_def)
    next
      case (Some z)
      with Inr have r: "resolveArchiveInstallments env rows (txs_of db) z = Inr al" by simp
      with resolve_visa [OF ids agree, of env z] obtain al' where "resolveArchiveInstallments env rows (filter visa (txs_of db)) z = Inr al'"
        "\<forall>i. map_of al' i = Option.bind (map_of al i) (\<lambda>c. if visa c then Some c else None)" by auto
      with resolution_aliases_ok [OF ok r dist] Some that show thesis by simp
    qed
    have start: "batch_inv (abs_ledger db) (abs_ledger db)" using mem by (auto simp: batch_inv_def)
    from upsert_fold_sim [OF ok start al'(2) clean, of env empty_summary] obtain summary db' where
      f: "fold (sql_upsert_row env al') rows (empty_summary, db) = (summary, db')" "db_ok db'"
      "fold (mem_upsert_row env al) rows (empty_summary, abs_ledger db) = (summary, abs_ledger db')" by blast
    have "batch_inv (abs_ledger db) (abs_ledger db')"
      using mem_upsert_fold_inv [of "abs_ledger db" "(empty_summary, abs_ledger db)" al env rows] start al'(2) f(3)
      by (simp add: aliases_ok_def)
    then have "db_inv db'" using f(2) by (simp add: db_inv_def batch_inv_def)
    then show ?thesis by (simp add: m q Inr al'(1) f abs_log db_inv_log)
  qed
qed

text \<open>Rows develop the same way on any scrape, whatever its raw values.\<close>

lemma evolves_norm [simp]: "evolves t (norm_tx u) = evolves t u"
  by (simp add: evolves_def norm_tx_def frozen_part_def)

lemma batch_upd:
  assumes "batch_inv s0 s" "\<And>t. map_of (m_transactions s0) (tx_id r) = Some t \<Longrightarrow> evolves t r"
  shows "batch_inv s0 (s\<lparr>m_transactions := AList.update (tx_id r) r (m_transactions s)\<rparr>)"
  using assms keyed_update [of tx_id "m_transactions s" r] by (auto simp: batch_inv_def mem_inv_def)

lemma sql_row_inv:
  assumes ok: "db_ok db" and inv: "batch_inv s0 (abs_ledger db)"
    and al: "\<And>i c. map_of al i = Some c \<Longrightarrow> map_of (m_transactions s0) (tx_id c) = Some c"
    and row: "sql_upsert_row env al row (summary, db) = (summary', db')"
  shows "db_ok db' \<and> batch_inv s0 (abs_ledger db')"
proof -
  let ?m = "m_transactions (abs_ledger db)"
  note key = abs_keyed [OF ok]
  have stored: "t \<in> set (txs_of db) \<and> tx_id t = i" if "map_of ?m i = Some t" for i t
    using that by (auto simp: abs_transactions [OF ok] dest: map_of_SomeD)
  show ?thesis
  proof (cases "orelse (map_of ?m (tx_id row)) (map_of al (tx_id row))")
    case None
    then have none: "map_of ?m (tx_id row) = None" "map_of al (tx_id row) = None"
      by (auto simp: orelse_def split: option.splits)
    then have db': "db' = sql_insertTransaction row db"
      using row by (simp add: sql_upsert_row_def get_existing [OF ok])
    have "map_of (m_transactions s0) (tx_id row) = None"
      using inv none(1) unfolding batch_inv_def by (metis option.distinct(1) option.exhaust)
    then show ?thesis
      using insert_sim [OF ok none(1)] batch_upd [OF inv, of "norm_tx row"] by (simp add: db')
  next
    case (Some e)
    then have db': "db' = snd (refreshTransaction env e row db)"
      using row unfolding sql_upsert_row_def prod.case get_existing [OF ok] Some option.case Let_def
      by (simp add: case_prod_beta)
    have "\<exists>t. map_of ?m (tx_id e) = Some t \<and> frozen_part t = frozen_part e"
      and ev: "\<And>t. map_of (m_transactions s0) (tx_id e) = Some t \<Longrightarrow> evolves t e"
    proof (atomize (full), cases "map_of ?m (tx_id row)")
      case (Some t)
      with \<open>orelse _ _ = Some e\<close> have e: "map_of ?m (tx_id row) = Some e" by simp
      then have e': "map_of ?m (tx_id e) = Some e" using keyed_lookup [OF key e] by simp
      then have "evolves t e" if "map_of (m_transactions s0) (tx_id e) = Some t" for t
        using inv that unfolding batch_inv_def by (metis option.inject)
      with e' show "(\<exists>t. map_of ?m (tx_id e) = Some t \<and> frozen_part t = frozen_part e) \<and>
          (\<forall>t. map_of (m_transactions s0) (tx_id e) = Some t \<longrightarrow> evolves t e)" by blast
    next
      case None
      with \<open>orelse _ _ = Some e\<close> have "map_of al (tx_id row) = Some e" by simp
      from al [OF this] inv show "(\<exists>t. map_of ?m (tx_id e) = Some t \<and> frozen_part t = frozen_part e) \<and>
          (\<forall>t. map_of (m_transactions s0) (tx_id e) = Some t \<longrightarrow> evolves t e)"
        by (fastforce simp: batch_inv_def evolves_def)
    qed
    then obtain t where t: "t \<in> set (txs_of db)" "tx_id t = tx_id e" "frozen_part t = frozen_part e"
      using stored by blast
    have "evolves u (norm_tx (refreshed env e row))" if "map_of (m_transactions s0) (tx_id e) = Some u" for u
      using evolves_trans [OF ev [OF that] refreshed_evolves] by simp
    then show ?thesis
      using refresh_sim [OF ok t, of env row] batch_upd [OF inv, of "norm_tx (refreshed env e row)"] by (simp add: db')
  qed
qed

lemma sql_fold_inv:
  assumes "\<And>i c. map_of al i = Some c \<Longrightarrow> map_of (m_transactions s0) (tx_id c) = Some c"
  shows "db_ok db \<Longrightarrow> batch_inv s0 (abs_ledger db) \<Longrightarrow>
    fold (sql_upsert_row env al) rows (summary, db) = (summary', db') \<Longrightarrow> db_ok db' \<and> batch_inv s0 (abs_ledger db')"
proof (induction rows arbitrary: summary db)
  case (Cons row rows)
  obtain summary1 db1 where 1: "sql_upsert_row env al row (summary, db) = (summary1, db1)" by fastforce
  from sql_row_inv [OF Cons.prems(1,2) assms 1] Cons.IH [of db1 summary1] Cons.prems(3) 1 show ?case by simp
qed simp

lemma sql_batch_inv:
  assumes "sql_upsertTransactions env rows tz db = Inr (summary, db')" "db_inv db"
  shows "db_inv db' \<and> batch_inv (abs_ledger db) (abs_ledger db')"
proof -
  from assms(2) have ok: "db_ok db" and mem: "mem_inv (abs_ledger db)" by (simp_all add: db_inv_def)
  from assms(1) obtain al where al: "(case tz of Some z \<Rightarrow> resolveArchiveInstallments env rows (sql_stored_visa_cal db) z
      | None \<Rightarrow> Inr []) = Inr al"
    and f: "fold (sql_upsert_row env al) rows (empty_summary, db) =
        (summary, snd (fold (sql_upsert_row env al) rows (empty_summary, db)))"
    and db': "db' = (snd (fold (sql_upsert_row env al) rows (empty_summary, db)))
      \<lparr>db_anomalies := db_anomalies (snd (fold (sql_upsert_row env al) rows (empty_summary, db))) @ map anomaly_row (sum_anomalies summary)\<rparr>"
    unfolding sql_upsertTransactions_def by (auto simp: Let_def case_prod_beta prod_eq_iff)
  have "map_of (m_transactions (abs_ledger db)) (tx_id c) = Some c" if "map_of al i = Some c" for i c
  proof -
    from al that have "c \<in> set (txs_of db)"
      by (cases tz) (use resolve_sound(1) visa_table [OF ok] in fastforce)+
    then show ?thesis by (intro keyed_in [OF abs_keyed [OF ok]]) (simp add: abs_transactions [OF ok] image_image)
  qed
  moreover have "batch_inv (abs_ledger db) (abs_ledger db)" using mem by (auto simp: batch_inv_def)
  ultimately have "db_ok (snd (fold (sql_upsert_row env al) rows (empty_summary, db))) \<and>
      batch_inv (abs_ledger db) (abs_ledger (snd (fold (sql_upsert_row env al) rows (empty_summary, db))))"
    using sql_fold_inv [OF _ ok _ f] by blast
  then show ?thesis
    unfolding db' abs_log db_inv_log by (simp add: db_inv_def batch_inv_def mem_inv_def)
qed

lemma sql_getTransaction_abs:
  "db_ok db \<Longrightarrow> sql_getTransaction i db = map_of (m_transactions (abs_ledger db)) i"
  using get_existing [where db = db and i = i and z = None]
  by (cases "get_where ''id'' i (db_transactions db)"; cases "map_of (m_transactions (abs_ledger db)) i")
     (simp_all add: sql_getTransaction_def)

interpretation sql_tx: transaction_store "sqlite_ledger env printf2" db_inv for env printf2
  by unfold_locales
     (auto simp: sqlite_ledger_def sql_getTransaction_abs db_inv_def batch_inv_def dest!: sql_batch_inv)

lemma db_inv_empty: "db_inv empty_db" "txs_of empty_db = []"
  by (simp_all add: db_inv_def db_ok_def txs_of_def empty_db_def mem_inv_def abs_ledger_def keyed_def)

lemma example_tx_raw [simp]: "tx_raw (example_tx i) = JUndef"
  by (simp add: example_tx_def with_id_def example_row_def tx_row.defs)

text \<open>
  A text without a lone surrogate: what the database returns for a bound text is the text itself only for these, since
  a text is stored as UTF-8.
\<close>

fun well_paired :: "jsstr \<Rightarrow> bool" where
  "well_paired [] \<longleftrightarrow> True"
| "well_paired (c # cs) \<longleftrightarrow>
     (if 55296 \<le> c \<and> c < 56320 then (case cs of [] \<Rightarrow> False | d # ds \<Rightarrow> 56320 \<le> d \<and> d < 57344 \<and> well_paired ds)
      else \<not> (56320 \<le> c \<and> c < 57344) \<and> well_paired cs)"

definition storable :: "ledger_tx \<Rightarrow> bool" where
  "storable row \<longleftrightarrow> json_clean (tx_raw row) \<and>
     list_all well_paired [tx_id row, tx_accountId row, tx_company row, tx_bookedDate row, tx_currency row, tx_description row,
       tx_firstSeen row, tx_lastSeen row] \<and>
     list_all (pred_option well_paired) [tx_identifier row, tx_chargeDate row, tx_memo row, tx_postedSeenAt row,
       tx_originalCurrency row, tx_category row]"

text \<open>
  C8: the SQLite ledger implements the in-memory ledger. Storing a scrape commutes with reading
  the tables as an in-memory ledger: the same result or the same error, the same summary with the
  same anomalies, and corresponding contents, although SQLite resolves archived installments
  against the rows of one company only. The rows have pairwise different ids, texts without lone surrogates and raw values
  that survive JSON, and a row with a stored id names the company of the stored row.
\<close>

theorem sqlite_refines_memory:
  assumes "db_inv db" "distinct (map tx_id rows)" "\<forall>row\<in>set rows. storable row"
    "ids_agree rows (txs_of db)"
  shows "(case sql_upsertTransactions env rows tz db of
      Inl e \<Rightarrow> mem_upsertTransactions env rows tz (abs_ledger db) = Inl e
    | Inr (summary, db') \<Rightarrow> mem_upsertTransactions env rows tz (abs_ledger db) = Inr (summary, abs_ledger db') \<and> db_inv db')"
  by (rule sql_upsert_sim) (use assms in \<open>simp_all add: storable_def\<close>)

text \<open>
  C9: rows of the database are frozen. Over any sequence of scrapes a stored row stays, keeps every
  field outside the refreshable ones, and develops as its status allows; the raw values of the scrapes
  and their ids are arbitrary.
\<close>

theorem sqlite_rows_frozen:
  assumes "run_batches (sql_upsertTransactions env) batches db = Inr db'" "db_inv db" "sql_getTransaction i db = Some t"
  shows "db_inv db' \<and> (\<exists>t'. sql_getTransaction i db' = Some t' \<and> evolves t t' \<and>
    tx_amount t' = tx_amount t \<and> tx_bookedDate t' = tx_bookedDate t \<and> tx_description t' = tx_description t)"
proof -
  have r: "run_batches (upsertTransactions (sqlite_ledger env (\<lambda>_. []))) batches db = Inr db'"
    "getTransaction (sqlite_ledger env (\<lambda>_. [])) i db = Some t"
    using assms by (simp_all add: sqlite_ledger_def)
  have "db_inv db'" using sql_tx.batches_inv [OF r(1) assms(2)] .
  with sql_tx.batches_evolve [OF r(1) assms(2) r(2)] show ?thesis
    by (auto simp: sqlite_ledger_def evolves_def dest: frozen_partD)
qed

text \<open>A database that holds one pending row, and the scrape that finds it posted.\<close>

definition one_db :: sqlite_db where
  "one_db = empty_db\<lparr>db_transactions := [transaction_row pending_row]\<rparr>"

lemma one_db_inv: "db_inv one_db" "txs_of one_db = [pending_row]"
proof -
  have "db_transactions one_db = map transaction_row [pending_row]" by (simp add: one_db_def)
  from db_okI [OF this] have ok: "db_ok one_db" "txs_of one_db = [pending_row]"
    by (simp_all add: pending_row_def json_clean_def sql_raw_def toJson_def fromJson_def nullish_def)
  then show "db_inv one_db" "txs_of one_db = [pending_row]"
    using abs_transactions [OF ok(1)] by (simp_all add: db_inv_def mem_inv_def keyed_def)
       (simp_all add: one_db_def empty_db_def abs_ledger_def)
qed

lemma sql_upsert_without_archive: "\<exists>u db'. sql_upsertTransactions env rows None db = Inr (u, db')"
  by (simp add: sql_upsertTransactions_def split: prod.split)

lemma example_storable: "storable (example_tx (js ''a''))"
  by (simp add: storable_def example_tx_def example_row_def with_id_def tx_row.defs ledger_tx.defs json_clean_def sql_raw_def toJson_def
    fromJson_def nullish_def)

theorem sqlite_refines_memory_witness:
  "\<exists>summary db'. sql_upsertTransactions example_env [example_tx (js ''a'')] None one_db = Inr (summary, db') \<and>
     mem_upsertTransactions example_env [example_tx (js ''a'')] None (abs_ledger one_db) = Inr (summary, abs_ledger db')"
proof -
  obtain summary db1 where run: "sql_upsertTransactions example_env [example_tx (js ''a'')] None one_db = Inr (summary, db1)"
    using sql_upsert_without_archive by blast
  have "ids_agree [example_tx (js ''a'')] (txs_of one_db)"
    unfolding one_db_inv(2) by (simp add: ids_agree_def pending_row_def)
  from sqlite_refines_memory [OF one_db_inv(1) _ _ this, where env = example_env and tz = None] example_storable run show ?thesis
    by simp
qed

theorem sqlite_rows_frozen_witness:
  "\<exists>db' t'. run_batches (sql_upsertTransactions example_env) [([example_tx (js ''a'')], None)] one_db = Inr db' \<and>
     sql_getTransaction (js ''a'') db' = Some t' \<and> tx_amount t' = tx_amount pending_row"
proof -
  obtain u db1 where "sql_upsertTransactions example_env [example_tx (js ''a'')] None one_db = Inr (u, db1)"
    using sql_upsert_without_archive by blast
  then have r: "run_batches (sql_upsertTransactions example_env) [([example_tx (js ''a'')], None)] one_db = Inr db1" by simp
  have g: "sql_getTransaction (js ''a'') one_db = Some pending_row"
    using one_db_inv sql_getTransaction_abs [of one_db "js ''a''"] abs_transactions [of one_db]
    by (simp add: db_inv_def)
  from sqlite_rows_frozen [OF r one_db_inv(1) g] r show ?thesis by blast
qed

end
