(* ===== verification/JsBase64.thy ===== *)
theory JsBase64
  imports JsUri
begin

text \<open>
  The \<^verbatim>\<open>Buffer\<close> conversions the source uses: base64 and base64url text of bytes, the lenient base64
  reader (characters outside the alphabet are skipped, padding ends the text, the URL-safe letters are
  accepted), and UTF-8 decoding with replacement characters.
\<close>

section \<open>Base64\<close>

definition b64_char :: "nat \<Rightarrow> nat" where
  "b64_char n = (if n < 26 then 65 + n else if n < 52 then 71 + n else if n < 62 then n - 4
     else if n = 62 then 43 else 47)"

definition b64_val :: "nat \<Rightarrow> nat option" where
  "b64_val c = (if is_upper c then Some (c - 65) else if is_lower c then Some (c - 71)
     else if is_digit c then Some (c + 4) else if c = 43 \<or> c = 45 then Some 62
     else if c = 47 \<or> c = 95 then Some 63 else None)"

lemma b64_val_char [simp]: "n < 64 \<Longrightarrow> b64_val (b64_char n) = Some n"
  by (auto simp: b64_val_def b64_char_def is_upper_def is_lower_def is_digit_def)

lemma b64_char_not_pad [simp]: "n < 64 \<Longrightarrow> b64_char n \<noteq> 61"
  by (auto simp: b64_char_def)

text \<open>The six-bit groups of a byte sequence.\<close>

fun sextets :: "nat list \<Rightarrow> nat list" where
  "sextets [] = []"
| "sextets [a] = [a div 4, a mod 4 * 16]"
| "sextets [a, b] = [a div 4, a mod 4 * 16 + b div 16, b mod 16 * 4]"
| "sextets (a # b # c # bs) =
     a div 4 # (a mod 4 * 16 + b div 16) # (b mod 16 * 4 + c div 64) # (c mod 64) # sextets bs"

fun from_sextets :: "nat list \<Rightarrow> nat list" where
  "from_sextets (p # q # r # s # xs) =
     (p * 4 + q div 16) # (q mod 16 * 16 + r div 4) # (r mod 4 * 64 + s) # from_sextets xs"
| "from_sextets [p, q, r] = [p * 4 + q div 16, q mod 16 * 16 + r div 4]"
| "from_sextets [p, q] = [p * 4 + q div 16]"
| "from_sextets _ = []"

definition base64url :: "nat list \<Rightarrow> jsstr" where
  "base64url bs = map (\<lambda>c. if c = 43 then 45 else if c = 47 then 95 else c) (map b64_char (sextets bs))"

definition base64 :: "nat list \<Rightarrow> jsstr" where
  "base64 bs = map b64_char (sextets bs) @ replicate ((3 - length bs mod 3) mod 3) 61"

definition base64_decode :: "jsstr \<Rightarrow> nat list" where
  "base64_decode s = from_sextets (List.map_filter b64_val (takeWhile (\<lambda>c. c \<noteq> 61) s))"

lemma byte_div [simp]:
  fixes b :: nat
  assumes "b < 256"
  shows "b div 4 < 64" "b div 16 < 16" "b div 16 div 16 = 0" "b div 16 mod 16 = b div 16"
    "b div 64 div 4 = 0" "b div 64 mod 4 = b div 64"
  using assms by (auto simp: div_mult2_eq [symmetric] less_mult_imp_div_less)

lemma byte_groups:
  fixes a b c :: nat
  assumes "a < 256" "b < 256" "c < 256"
  shows "a mod 4 * 16 + b div 16 < 64" "b mod 16 * 4 + c div 64 < 64" "a mod 4 * 16 < 64" "b mod 16 * 4 < 64"
proof -
  have "a mod 4 < 4" "b mod 16 < 16" "b div 16 < 16" "c div 64 < 4" using assms by (auto simp: less_mult_imp_div_less)
  then show "a mod 4 * 16 + b div 16 < 64" "b mod 16 * 4 + c div 64 < 64" "a mod 4 * 16 < 64" "b mod 16 * 4 < 64" by linarith+
qed

lemma sextets_bound: "\<forall>b\<in>set bs. b < 256 \<Longrightarrow> \<forall>x\<in>set (sextets bs). x < 64"
  by (induction bs rule: sextets.induct) (auto simp: byte_groups)

lemma from_sextets_sextets: "\<forall>b\<in>set bs. b < 256 \<Longrightarrow> from_sextets (sextets bs) = bs"
  by (induction bs rule: sextets.induct) simp_all

lemma map_filter_b64: "\<forall>x\<in>set xs. x < 64 \<Longrightarrow> List.map_filter b64_val (map b64_char xs) = xs"
  by (induction xs) (simp_all add: map_filter_simps)

lemma base64_decode_base64: "\<forall>b\<in>set bs. b < 256 \<Longrightarrow> base64_decode (base64 bs) = bs"
proof -
  assume b: "\<forall>b\<in>set bs. b < 256"
  note x = sextets_bound [OF b]
  then have "\<forall>c\<in>set (map b64_char (sextets bs)). c \<noteq> 61" by auto
  then have "takeWhile (\<lambda>c. c \<noteq> 61) (base64 bs) = map b64_char (sextets bs)"
    unfolding base64_def by (subst takeWhile_append2) (auto simp: takeWhile_replicate)
  then show ?thesis by (simp add: base64_decode_def map_filter_b64 [OF x] from_sextets_sextets [OF b])
qed

lemma b64_chars_printable: "x < 64 \<Longrightarrow> b64_char x \<noteq> 36 \<and> \<not> is_space (b64_char x) \<and> b64_char x \<noteq> 58"
  by (auto simp: b64_char_def is_space_def)

lemma base64_chars: "\<forall>b\<in>set bs. b < 256 \<Longrightarrow> c \<in> set (base64 bs) \<Longrightarrow> c \<noteq> 36 \<and> \<not> is_space c \<and> c \<noteq> 58"
  using sextets_bound b64_chars_printable by (fastforce simp: base64_def is_space_def)

lemma base64_not_Nil: "bs \<noteq> [] \<Longrightarrow> base64 bs \<noteq> []"
  by (cases bs rule: sextets.cases) (simp_all add: base64_def)

section \<open>Decoding UTF-8\<close>

text \<open>Continuation bytes between the bounds; the bounds only restrict the first one.\<close>

fun utf8_conts :: "nat \<Rightarrow> nat \<Rightarrow> nat \<Rightarrow> nat \<Rightarrow> nat list \<Rightarrow> nat option \<times> nat list" where
  "utf8_conts 0 lo hi cp bs = (Some cp, bs)"
| "utf8_conts (Suc n) lo hi cp [] = (None, [])"
| "utf8_conts (Suc n) lo hi cp (b # bs) =
     (if lo \<le> b \<and> b \<le> hi then utf8_conts n 128 191 (cp * 64 + (b - 128)) bs else (None, b # bs))"

lemma utf8_conts_length: "length (snd (utf8_conts n lo hi cp bs)) \<le> length bs"
  by (induction n lo hi cp bs rule: utf8_conts.induct) auto

definition utf8_start :: "nat \<Rightarrow> (nat \<times> nat \<times> nat \<times> nat) option" where
  "utf8_start b =
     (if 194 \<le> b \<and> b \<le> 223 then Some (1, 128, 191, b - 192)
      else if b = 224 then Some (2, 160, 191, 0)
      else if b = 237 then Some (2, 128, 159, 13)
      else if 225 \<le> b \<and> b \<le> 239 then Some (2, 128, 191, b - 224)
      else if b = 240 then Some (3, 144, 191, 0)
      else if 241 \<le> b \<and> b \<le> 243 then Some (3, 128, 191, b - 240)
      else if b = 244 then Some (3, 128, 143, 4)
      else None)"

function utf8_decode :: "nat list \<Rightarrow> jsstr" where
  "utf8_decode [] = []"
| "utf8_decode (b # bs) =
     (if b < 128 then b # utf8_decode bs
      else case utf8_start b of
        None \<Rightarrow> 65533 # utf8_decode bs
      | Some (n, lo, hi, v) \<Rightarrow>
          (case utf8_conts n lo hi v bs of
             (Some cp, rest) \<Rightarrow> utf16 cp @ utf8_decode rest
           | (None, rest) \<Rightarrow> 65533 # utf8_decode rest))"
  by pat_completeness auto
termination
  using utf8_conts_length
  by (relation "measure length") (auto simp: less_Suc_eq_le, (metis snd_conv)+)

lemma utf8_decode_ascii: "\<forall>c\<in>set s. c < 128 \<Longrightarrow> utf8_decode s = s"
  by (induction s) simp_all

lemma buffer_roundtrip: "\<forall>c\<in>set s. c < 128 \<Longrightarrow> utf8_decode (base64_decode (base64 (utf8 s))) = s"
  using utf8_ascii [of s] base64_decode_base64 [of s] utf8_decode_ascii [of s] by force

end
