(* ===== verification/Consumers.thy ===== *)
theory Consumers
  imports LedgerContract JsBase64 Ids IsoOrder Normalize
begin

text \<open>
  Who may read the bridge: \<^verbatim>\<open>src/simplefin/auth.ts\<close>, \<^verbatim>\<open>claim.ts\<close>, \<^verbatim>\<open>consumers.ts\<close> and the
  authentication of \<^verbatim>\<open>app.ts\<close>. Every operation works on any ledger. Random bytes are arguments;
  scrypt (with the options of \<^verbatim>\<open>auth.ts\<close>), Unicode normalisation and the URL parser are fields of an
  environment. A time is milliseconds since the epoch.
\<close>

section \<open>Environment\<close>

record access_env =
  ae_scrypt :: "nat list \<Rightarrow> nat list \<Rightarrow> nat list"
  ae_nfkd :: "jsstr \<Rightarrow> jsstr"
  ae_url :: "jsstr \<Rightarrow> (jsstr \<times> jsstr \<times> jsstr) option"
  ae_dummySalt :: "nat list"

section \<open>Basic credentials and secrets\<close>

text \<open>\<^verbatim>\<open>text.split(/\s+/)\<close>.\<close>

fun split_ws :: "jsstr \<Rightarrow> jsstr list" where
  "split_ws [] = [[]]"
| "split_ws (c # s) =
     (if is_space c then
        (case s of [] \<Rightarrow> [[], []] | d # _ \<Rightarrow> if is_space d then split_ws s else [] # split_ws s)
      else case split_ws s of [] \<Rightarrow> [[c]] | p # ps \<Rightarrow> (c # p) # ps)"

definition parseBasicAuth :: "jsstr option \<Rightarrow> (jsstr \<times> jsstr) option" where
  "parseBasicAuth header =
     (case truthy_text header of
        None \<Rightarrow> None
      | Some h \<Rightarrow>
         (case split_ws (js_trim h) of
            [scheme, token] \<Rightarrow>
              if to_lower scheme \<noteq> js ''basic'' \<or> token = [] then None
              else (let decoded = utf8_decode (base64_decode token) in
                case index_of 58 decoded of
                  None \<Rightarrow> None
                | Some separator \<Rightarrow>
                    if separator = 0 then None
                    else Some (take separator decoded, drop (Suc separator) decoded))
          | _ \<Rightarrow> None))"

definition keyLength :: nat where
  "keyLength = 32"

definition hashSecret :: "access_env \<Rightarrow> nat list \<Rightarrow> jsstr \<Rightarrow> jsstr" where
  "hashSecret env salt secret = js ''scrypt$'' @ base64 salt @ js ''$'' @ base64 (ae_scrypt env (utf8 secret) salt)"

definition DUMMY_SECRET_HASH :: "access_env \<Rightarrow> jsstr" where
  "DUMMY_SECRET_HASH env = hashSecret env (ae_dummySalt env) (js ''dummy-secret-for-constant-time-auth'')"

definition verifySecret :: "access_env \<Rightarrow> jsstr option \<Rightarrow> jsstr \<Rightarrow> bool" where
  "verifySecret env storedHash secret =
     (case truthy_text storedHash of
        None \<Rightarrow> False
      | Some h \<Rightarrow>
         (case split_on 36 h of
            scheme # saltB64 # hashB64 # _ \<Rightarrow>
              if scheme \<noteq> js ''scrypt'' \<or> saltB64 = [] \<or> hashB64 = [] then False
              else (let expected = base64_decode hashB64 in
                length expected = keyLength \<and>
                ae_scrypt env (utf8 secret) (base64_decode saltB64) = expected)
          | _ \<Rightarrow> False))"

section \<open>Claims\<close>

definition strip_slashes :: "jsstr \<Rightarrow> jsstr" where
  "strip_slashes s = rev (dropWhile (\<lambda>c. c = 47) (rev s))"

definition buildAccessUrl :: "access_env \<Rightarrow> jsstr \<Rightarrow> jsstr \<Rightarrow> jsstr \<Rightarrow> jsstr res" where
  "buildAccessUrl env publicUrl basicUser secret =
     (case ae_url env publicUrl of
        None \<Rightarrow> Inl InvalidUrl
      | Some (protocol, host, pathname) \<Rightarrow>
          bindE (encodeURIComponent basicUser) (\<lambda>user.
          bindE (encodeURIComponent secret) (\<lambda>password.
            Inr (protocol @ js ''//'' @ user @ js '':'' @ password @ js ''@'' @ host
              @ strip_slashes pathname @ js ''/simplefin''))))"

datatype rejection = ClaimUnknown | ClaimRevoked | ClaimExpired | ClaimMaxClaims | ClaimClosed

definition rejectionReason :: "consumer option \<Rightarrow> int \<Rightarrow> rejection option" where
  "rejectionReason consumer now =
     (case consumer of
        None \<Rightarrow> Some ClaimUnknown
      | Some c \<Rightarrow>
          if truthy_text (con_revokedAt c) \<noteq> None then Some ClaimRevoked
          else if (case truthy_text (con_claimExpiresAt c) of None \<Rightarrow> True
              | Some t \<Rightarrow> (case date_parse t of None \<Rightarrow> False | Some ms \<Rightarrow> ms \<le> now)) then Some ClaimExpired
          else if con_claimCount c \<ge> con_maxClaims c then Some ClaimMaxClaims
          else if truthy_text (con_secretPlain c) = None then Some ClaimClosed
          else None)"

definition isClaimOpen :: "consumer \<Rightarrow> int \<Rightarrow> bool" where
  "isClaimOpen c now \<longleftrightarrow> rejectionReason (Some c) now = None"

definition wipePlainSecret :: "'l ledger_ops \<Rightarrow> consumer \<Rightarrow> 'l \<Rightarrow> 'l res" where
  "wipePlainSecret L c s =
     (if con_secretPlain c \<noteq> None then updateConsumer L (c\<lparr>con_secretPlain := None\<rparr>) s else Inr s)"

datatype claim_result = ClaimOk jsstr | ClaimRefused nat

text \<open>What the handler logs: the consumer and the reason, or the consumer and its counters.\<close>

datatype claim_log = LogRefused "jsstr option" rejection | LogAccepted jsstr int int

definition handleClaim ::
  "access_env \<Rightarrow> 'l ledger_ops \<Rightarrow> config \<Rightarrow> jsstr \<Rightarrow> int \<Rightarrow> 'l \<Rightarrow> (claim_result \<times> claim_log \<times> 'l) res" where
  "handleClaim env L cfg claimId now s =
     (case (if claimId = [] then None else getConsumerByClaimId L claimId s) of
        None \<Rightarrow> Inr (ClaimRefused 404, LogRefused None ClaimUnknown, s)
      | Some consumer \<Rightarrow>
         (case rejectionReason (Some consumer) now of
            Some reason \<Rightarrow>
              bindE (if reason \<noteq> ClaimClosed then wipePlainSecret L consumer s else Inr s) (\<lambda>s'.
                Inr (ClaimRefused (if reason = ClaimUnknown then 404 else 403), LogRefused (Some (con_id consumer)) reason, s'))
          | None \<Rightarrow>
              let claimed = consumer\<lparr>con_claimCount := con_claimCount consumer + 1, con_claimedAt := Some (iso_of_time now)\<rparr> in
              bindE (buildAccessUrl env (srv_publicUrl (cfg_server cfg)) (con_basicUser claimed) (default (con_secretPlain claimed) []))
                (\<lambda>accessUrl.
              let claimed = (if con_claimCount claimed \<ge> con_maxClaims claimed then claimed\<lparr>con_secretPlain := None\<rparr> else claimed) in
              bindE (updateConsumer L claimed s) (\<lambda>s'.
                Inr (ClaimOk accessUrl, LogAccepted (con_id claimed) (con_claimCount claimed) (con_maxClaims claimed), s')))))"

section \<open>Managing consumers\<close>

definition consumerSlug :: "access_env \<Rightarrow> jsstr \<Rightarrow> jsstr res" where
  "consumerSlug env label =
     (let v = strip_dashes (dash_runs (ae_nfkd env (to_lower label))) in if v = [] then Inl EmptySlug else Inr v)"

definition lower_alnum :: jsstr where
  "lower_alnum = js ''abcdefghijklmnopqrstuvwxyz0123456789''"

definition randomLowerAlnum :: "nat list \<Rightarrow> jsstr" where
  "randomLowerAlnum bytes = map (\<lambda>byte. lower_alnum ! (byte mod length lower_alnum)) bytes"

definition claimPath :: "jsstr \<Rightarrow> jsstr" where
  "claimPath claimId = js ''/simplefin/claim/'' @ claimId"

definition encodeSetupToken :: "jsstr \<Rightarrow> jsstr" where
  "encodeSetupToken claimUrl = base64 (utf8 claimUrl)"

text \<open>The random bytes of one mint: \<^verbatim>\<open>secretBytes\<close>, \<^verbatim>\<open>basicUserSuffixLength\<close>, \<^verbatim>\<open>saltLength\<close>, \<^verbatim>\<open>claimIdBytes\<close> of them.\<close>

record mint_draw =
  draw_secret :: "nat list"
  draw_suffix :: "nat list"
  draw_salt :: "nat list"
  draw_claim :: "nat list"

definition freshClaim :: "config \<Rightarrow> nat list \<Rightarrow> int \<Rightarrow> consumer \<Rightarrow> consumer res" where
  "freshClaim cfg bytes now c =
     bindE (to_iso_string (time_clip (now + srv_claimTtlMinutes (cfg_server cfg) * 60000))) (\<lambda>expires.
       Inr (c\<lparr>con_claimId := Some (base64url bytes), con_claimExpiresAt := Some expires, con_claimCount := 0,
         con_maxClaims := srv_maxClaims (cfg_server cfg), con_claimedAt := None\<rparr>))"

record mint_result =
  mint_setupToken :: jsstr
  mint_claimUrl :: jsstr
  mint_consumer :: consumer

definition mintConsumerToken ::
  "access_env \<Rightarrow> 'l ledger_ops \<Rightarrow> config \<Rightarrow> jsstr \<Rightarrow> bool \<Rightarrow> mint_draw \<Rightarrow> int \<Rightarrow> 'l \<Rightarrow> (mint_result \<times> 'l) res" where
  "mintConsumerToken env L cfg label reissue draw now s =
     bindE (consumerSlug env label) (\<lambda>i.
     let existing = getConsumer L i s in
     if existing \<noteq> None \<and> \<not> reissue then Inl ConsumerExists
     else
       let secretPlain = base64url (draw_secret draw) in
       bindE (freshClaim cfg (draw_claim draw) now
         \<lparr>con_id = i, con_label = label,
          con_basicUser = default (map_option con_basicUser existing) (i @ js ''-'' @ randomLowerAlnum (draw_suffix draw)),
          con_secretHash = hashSecret env (draw_salt draw) secretPlain, con_secretPlain = Some secretPlain,
          con_claimId = None, con_claimExpiresAt = None, con_claimCount = 0, con_maxClaims = 0, con_claimedAt = None,
          con_firstAuthenticatedAt = None, con_lastSeenAt = Option.bind existing con_lastSeenAt,
          con_createdAt = default (map_option con_createdAt existing) (iso_of_time now), con_revokedAt = None\<rparr>) (\<lambda>consumer.
       bindE (if existing \<noteq> None then updateConsumer L consumer s else createConsumer L consumer s) (\<lambda>s'.
       let claimUrl = srv_publicUrl (cfg_server cfg) @ claimPath (default (con_claimId consumer) []) in
       Inr (\<lparr>mint_setupToken = encodeSetupToken claimUrl, mint_claimUrl = claimUrl, mint_consumer = consumer\<rparr>, s'))))"

definition revokeConsumer :: "access_env \<Rightarrow> 'l ledger_ops \<Rightarrow> jsstr \<Rightarrow> int \<Rightarrow> 'l \<Rightarrow> (bool \<times> 'l) res" where
  "revokeConsumer env L label now s =
     bindE (consumerSlug env label) (\<lambda>i.
     case getConsumer L i s of
       None \<Rightarrow> Inr (False, s)
     | Some c \<Rightarrow>
         bindE (updateConsumer L (c\<lparr>con_revokedAt := Some (default (con_revokedAt c) (iso_of_time now)), con_secretPlain := None\<rparr>) s)
           (\<lambda>s'. Inr (True, s')))"

definition sweep_step :: "'l ledger_ops \<Rightarrow> int \<Rightarrow> consumer \<Rightarrow> nat \<times> 'l \<Rightarrow> (nat \<times> 'l) res" where
  "sweep_step L now c st =
     (case st of (wiped, s) \<Rightarrow>
      if con_secretPlain c = None \<or> isClaimOpen c now then Inr (wiped, s)
      else bindE (updateConsumer L (c\<lparr>con_secretPlain := None\<rparr>) s) (\<lambda>s'. Inr (wiped + 1, s')))"

definition sweepClosedClaims :: "'l ledger_ops \<Rightarrow> int \<Rightarrow> 'l \<Rightarrow> (nat \<times> 'l) res" where
  "sweepClosedClaims L now s = foldE (sweep_step L now) (listConsumers L s) (0, s)"

text \<open>The public view of a consumer has no secrets.\<close>

record consumer_view =
  cv_id :: jsstr
  cv_label :: jsstr
  cv_basicUser :: jsstr
  cv_claimId :: "jsstr option"
  cv_claimExpiresAt :: "iso_time option"
  cv_claimCount :: int
  cv_maxClaims :: int
  cv_claimedAt :: "iso_time option"
  cv_firstAuthenticatedAt :: "iso_time option"
  cv_lastSeenAt :: "iso_time option"
  cv_createdAt :: iso_time
  cv_revokedAt :: "iso_time option"

definition consumer_rest :: "consumer \<Rightarrow> consumer_view" where
  "consumer_rest c = \<lparr>cv_id = con_id c, cv_label = con_label c, cv_basicUser = con_basicUser c, cv_claimId = con_claimId c,
     cv_claimExpiresAt = con_claimExpiresAt c, cv_claimCount = con_claimCount c, cv_maxClaims = con_maxClaims c,
     cv_claimedAt = con_claimedAt c, cv_firstAuthenticatedAt = con_firstAuthenticatedAt c,
     cv_lastSeenAt = con_lastSeenAt c, cv_createdAt = con_createdAt c, cv_revokedAt = con_revokedAt c\<rparr>"

definition listConsumerViews :: "(jsstr \<Rightarrow> jsstr \<Rightarrow> int) \<Rightarrow> 'l ledger_ops \<Rightarrow> 'l \<Rightarrow> consumer_view list" where
  "listConsumerViews lc L s = map consumer_rest (sort_by (\<lambda>a b. lc (con_id a) (con_id b)) (listConsumers L s))"

section \<open>Authenticating a request\<close>

definition touchConsumer :: "'l ledger_ops \<Rightarrow> consumer \<Rightarrow> int \<Rightarrow> 'l \<Rightarrow> 'l res" where
  "touchConsumer L c now s =
     (let nowIso = iso_of_time now in
      updateConsumer L (c\<lparr>con_lastSeenAt := Some nowIso,
        con_firstAuthenticatedAt := Some (default (con_firstAuthenticatedAt c) nowIso),
        con_secretPlain := (if isClaimOpen c now then con_secretPlain c else None)\<rparr>) s)"

datatype auth_result =
    Authenticated consumer
  | Forbidden string "jsstr option"

definition basicAuth :: "access_env \<Rightarrow> 'l ledger_ops \<Rightarrow> jsstr option \<Rightarrow> int \<Rightarrow> 'l \<Rightarrow> (auth_result \<times> 'l) res" where
  "basicAuth env L header now s =
     (case parseBasicAuth header of
        None \<Rightarrow> Inr (Forbidden ''missing_credentials'' None, s)
      | Some (user, secret) \<Rightarrow>
          let consumer = getConsumerByBasicUser L user s;
              secretOk = verifySecret env (Some (default (map_option con_secretHash consumer) (DUMMY_SECRET_HASH env))) secret in
          case consumer of
            None \<Rightarrow> Inr (Forbidden ''unknown_user'' (Some user), s)
          | Some c \<Rightarrow>
              if truthy_text (con_revokedAt c) \<noteq> None then Inr (Forbidden ''revoked'' (Some user), s)
              else if \<not> secretOk then Inr (Forbidden ''bad_secret'' (Some user), s)
              else bindE (touchConsumer L c now s) (\<lambda>s'. Inr (Authenticated c, s')))"

end
