(* ===== verification/ConsumerProofs.thy ===== *)
theory ConsumerProofs
  imports Consumers MemoryProofs SqliteTables
begin

text \<open>
  What consumer management guarantees on any ledger that keeps the contract: claims are bounded, all
  of them return one Access URL, a closed claim loses its plain secret, and a revoked consumer stays
  locked out. The facts are proved once over the contract and hold for both ledgers.
\<close>

section \<open>Requests as a sequence\<close>

datatype access_event =
    MintEvent jsstr bool mint_draw int
  | RevokeEvent jsstr int
  | SweepEvent int
  | ClaimEvent jsstr int
  | AuthEvent "jsstr option" int

datatype access_outcome =
    MintDone mint_result
  | RevokeDone bool
  | SweepDone nat
  | ClaimDone claim_result claim_log
  | AuthDone auth_result

definition access_step ::
  "access_env \<Rightarrow> 'l ledger_ops \<Rightarrow> config \<Rightarrow> access_event \<Rightarrow> 'l \<Rightarrow> (access_outcome \<times> 'l) res" where
  "access_step env L cfg ev s =
     (case ev of
        MintEvent label reissue draw now \<Rightarrow>
          bindE (mintConsumerToken env L cfg label reissue draw now s) (\<lambda>(r, s'). Inr (MintDone r, s'))
      | RevokeEvent label now \<Rightarrow> bindE (revokeConsumer env L label now s) (\<lambda>(r, s'). Inr (RevokeDone r, s'))
      | SweepEvent now \<Rightarrow> bindE (sweepClosedClaims L now s) (\<lambda>(r, s'). Inr (SweepDone r, s'))
      | ClaimEvent claimId now \<Rightarrow> bindE (handleClaim env L cfg claimId now s) (\<lambda>(r, l, s'). Inr (ClaimDone r l, s'))
      | AuthEvent header now \<Rightarrow> bindE (basicAuth env L header now s) (\<lambda>(r, s'). Inr (AuthDone r, s')))"

fun run_access ::
  "access_env \<Rightarrow> 'l ledger_ops \<Rightarrow> config \<Rightarrow> access_event list \<Rightarrow> 'l \<Rightarrow> (access_outcome list \<times> 'l) res" where
  "run_access env L cfg [] s = Inr ([], s)"
| "run_access env L cfg (ev # evs) s =
     bindE (access_step env L cfg ev s) (\<lambda>(r, s1).
     bindE (run_access env L cfg evs s1) (\<lambda>(rs, s2). Inr (r # rs, s2)))"

definition mints :: "access_env \<Rightarrow> jsstr \<Rightarrow> access_event \<Rightarrow> bool" where
  "mints env i ev \<longleftrightarrow> (case ev of MintEvent label _ _ _ \<Rightarrow> consumerSlug env label = Inr i | _ \<Rightarrow> False)"

text \<open>The accepted claims of one consumer, with the Access URLs they returned.\<close>

definition accepted :: "jsstr \<Rightarrow> access_outcome list \<Rightarrow> jsstr list" where
  "accepted i rs = concat (map (\<lambda>r. case r of ClaimDone (ClaimOk url) (LogAccepted j _ _) \<Rightarrow> if j = i then [url] else [] | _ \<Rightarrow> []) rs)"

section \<open>How one consumer develops\<close>

text \<open>What requests may change of a consumer, after \<open>n\<close> accepted claims, all answered with \<open>url\<close>.\<close>

definition ages :: "nat \<Rightarrow> consumer \<Rightarrow> consumer \<Rightarrow> bool" where
  "ages n c d \<longleftrightarrow>
     con_id d = con_id c \<and> con_basicUser d = con_basicUser c \<and> con_secretHash d = con_secretHash c \<and>
     con_claimId d = con_claimId c \<and> con_claimExpiresAt d = con_claimExpiresAt c \<and> con_maxClaims d = con_maxClaims c \<and>
     con_claimCount d = con_claimCount c + int n \<and>
     (con_revokedAt c \<noteq> None \<longrightarrow> con_revokedAt d = con_revokedAt c) \<and>
     (con_secretPlain d \<noteq> None \<longrightarrow> con_secretPlain d = con_secretPlain c)"

lemma ages_refl [simp, intro]: "ages 0 c c"
  by (simp add: ages_def)

lemma ages_trans: "ages m c d \<Longrightarrow> ages n d e \<Longrightarrow> ages (m + n) c e"
  by (auto simp: ages_def)

lemma rejection_None:
  "rejectionReason (Some c) now = None \<Longrightarrow>
   con_claimCount c < con_maxClaims c \<and> (\<exists>p. con_secretPlain c = Some p \<and> p \<noteq> []) \<and> truthy_text (con_revokedAt c) = None"
  by (auto simp: rejectionReason_def truthy_text_def split: if_splits option.splits)

text \<open>Every Access URL of a consumer is the one of its user and plain secret.\<close>

definition access_url_of :: "access_env \<Rightarrow> config \<Rightarrow> consumer \<Rightarrow> jsstr res" where
  "access_url_of env cfg c =
     buildAccessUrl env (srv_publicUrl (cfg_server cfg)) (con_basicUser c) (default (con_secretPlain c) [])"

text \<open>Accepted claims of a consumer: no more than it had left, each answered with its Access URL.\<close>

definition good_claims :: "access_env \<Rightarrow> config \<Rightarrow> consumer \<Rightarrow> jsstr list \<Rightarrow> bool" where
  "good_claims env cfg c urls \<longleftrightarrow>
     (urls \<noteq> [] \<longrightarrow> con_claimCount c + int (length urls) \<le> con_maxClaims c \<and> truthy_text (con_revokedAt c) = None) \<and>
     (\<forall>url\<in>set urls. con_secretPlain c \<noteq> None \<and> access_url_of env cfg c = Inr url)"

lemma good_claims_append:
  assumes "ages (length us) c d" "good_claims env cfg c us" "good_claims env cfg d vs"
  shows "good_claims env cfg c (us @ vs)"
proof -
  have same: "access_url_of env cfg d = access_url_of env cfg c" if "con_secretPlain d \<noteq> None"
    using assms(1) that by (simp add: ages_def access_url_of_def)
  have "truthy_text (con_revokedAt c) = None" if "truthy_text (con_revokedAt d) = None"
    using assms(1) that by (cases "con_revokedAt c") (auto simp: ages_def truthy_text_def)
  with assms same show ?thesis by (auto simp: good_claims_def ages_def)
qed

text \<open>What a sweep leaves of a consumer.\<close>

definition swept :: "int \<Rightarrow> consumer \<Rightarrow> consumer" where
  "swept now c = (if con_secretPlain c = None \<or> isClaimOpen c now then c else c\<lparr>con_secretPlain := None\<rparr>)"

lemma mint_stores:
  assumes "mintConsumerToken env L cfg label reissue draw now s = Inr (m, s')"
  defines "d \<equiv> mint_consumer m"
  shows "consumerSlug env label = Inr (con_id d)"
    "(if getConsumer L (con_id d) s \<noteq> None then updateConsumer L d s else createConsumer L d s) = Inr s'"
    "getConsumer L (con_id d) s \<noteq> None \<Longrightarrow> reissue"
    "con_secretPlain d = Some (base64url (draw_secret draw))" "con_revokedAt d = None"
    "con_secretHash d = hashSecret env (draw_salt draw) (base64url (draw_secret draw))"
    "con_claimId d = Some (base64url (draw_claim draw))" "con_claimCount d = 0"
    "con_maxClaims d = srv_maxClaims (cfg_server cfg)"
    "time_clip (now + srv_claimTtlMinutes (cfg_server cfg) * 60000) \<noteq> None"
    "con_claimExpiresAt d = Some (iso_of_time (now + srv_claimTtlMinutes (cfg_server cfg) * 60000))"
    "con_basicUser d = default (map_option con_basicUser (getConsumer L (con_id d) s))
       (con_id d @ js ''-'' @ randomLowerAlnum (draw_suffix draw))"
  using assms
  by (auto simp: mintConsumerToken_def freshClaim_def Let_def to_iso_string_def time_clip_def split: if_splits)

definition claimed_by :: "int \<Rightarrow> consumer \<Rightarrow> consumer" where
  "claimed_by now d =
     (let d' = d\<lparr>con_claimCount := con_claimCount d + 1, con_claimedAt := Some (iso_of_time now)\<rparr> in
      if con_claimCount d' \<ge> con_maxClaims d' then d'\<lparr>con_secretPlain := None\<rparr> else d')"

lemma claimed_by_simps [simp]:
  "con_id (claimed_by now d) = con_id d" "con_basicUser (claimed_by now d) = con_basicUser d"
  "con_secretHash (claimed_by now d) = con_secretHash d" "con_claimId (claimed_by now d) = con_claimId d"
  "con_revokedAt (claimed_by now d) = con_revokedAt d"
  by (simp_all add: claimed_by_def Let_def)

lemma handleClaim_open:
  assumes "(if k = [] then None else getConsumerByClaimId L k s) = Some d" "rejectionReason (Some d) now = None"
  shows "handleClaim env L cfg k now s = bindE (access_url_of env cfg d) (\<lambda>url. bindE (updateConsumer L (claimed_by now d) s)
      (\<lambda>s'. Inr (ClaimOk url, LogAccepted (con_id d) (con_claimCount d + 1) (con_maxClaims d), s')))"
  using assms unfolding handleClaim_def claimed_by_def Let_def access_url_of_def by simp

context consumer_store
begin

lemma update_ages:
  assumes "inv s" "updateConsumer L d s = Inr s'" "getConsumer L i s = Some c"
    and "i = con_id d \<Longrightarrow> ages n c d" "i \<noteq> con_id d \<Longrightarrow> n = 0"
  shows "inv s' \<and> (\<exists>c'. getConsumer L i s' = Some c' \<and> ages n c c')"
  using assms update_inv [OF assms(1,2)] get_update [OF assms(1,2), of i] by auto

lemma wipe_ages:
  assumes "inv s" "getConsumer L i s = Some c" "getConsumer L (con_id d) s = Some d" "wipePlainSecret L d s = Inr s'"
  shows "inv s' \<and> (\<exists>c'. getConsumer L i s' = Some c' \<and> ages 0 c c')"
proof (cases "con_secretPlain d = None")
  case True
  with assms show ?thesis by (auto simp: wipePlainSecret_def)
next
  case False
  with assms(4) have u: "updateConsumer L (d\<lparr>con_secretPlain := None\<rparr>) s = Inr s'" by (simp add: wipePlainSecret_def)
  show ?thesis by (rule update_ages [OF assms(1) u assms(2)]) (use assms(2,3) in \<open>auto simp: ages_def\<close>)
qed

lemma sweep_fold:
  assumes "foldE (sweep_step L now) cs (w, s) = Inr (w', s')" "inv s"
    and "\<And>d. d \<in> set cs \<Longrightarrow> getConsumer L (con_id d) s0 = Some d"
    and "\<And>i. getConsumer L i s = getConsumer L i s0 \<or> getConsumer L i s = map_option (swept now) (getConsumer L i s0)"
  shows "inv s' \<and> getConsumer L i s' =
    (if i \<in> con_id ` set cs then map_option (swept now) (getConsumer L i s0) else getConsumer L i s)"
  using assms
proof (induction cs arbitrary: w s)
  case Nil
  then show ?case by simp
next
  case (Cons d cs)
  have d: "getConsumer L (con_id d) s0 = Some d" using Cons.prems(3) by simp
  from Cons.prems(1) obtain w1 s1 where st: "sweep_step L now d (w, s) = Inr (w1, s1)"
    and r: "foldE (sweep_step L now) cs (w1, s1) = Inr (w', s')" by auto
  have s1: "inv s1 \<and> (\<forall>j. getConsumer L j s1 = (if j = con_id d then Some (swept now d) else getConsumer L j s))"
  proof (cases "con_secretPlain d = None \<or> isClaimOpen d now")
    case True
    with st have "s1 = s" by (simp add: sweep_step_def)
    moreover have "getConsumer L (con_id d) s = Some (swept now d)"
      using Cons.prems(4) [of "con_id d"] True unfolding d by (simp add: swept_def)
    ultimately show ?thesis using Cons.prems(2) by simp
  next
    case False
    with st have u: "updateConsumer L (d\<lparr>con_secretPlain := None\<rparr>) s = Inr s1" by (simp add: sweep_step_def)
    from update_inv [OF Cons.prems(2) u] get_update [OF Cons.prems(2) u] False show ?thesis by (simp add: swept_def)
  qed
  have keep: "getConsumer L j s1 = getConsumer L j s0 \<or> getConsumer L j s1 = map_option (swept now) (getConsumer L j s0)" for j
    using s1 Cons.prems(4) [of j] d by (cases "j = con_id d") simp_all
  have snap: "\<And>e. e \<in> set cs \<Longrightarrow> getConsumer L (con_id e) s0 = Some e" using Cons.prems(3) by simp
  have "inv s1" using s1 by blast
  from Cons.IH [OF r this snap keep] have e: "inv s' \<and> getConsumer L i s' =
      (if i \<in> con_id ` set cs then map_option (swept now) (getConsumer L i s0) else getConsumer L i s1)" .
  show ?case
  proof (cases "i \<in> con_id ` set cs")
    case True
    with e show ?thesis by simp
  next
    case False
    with e s1 d show ?thesis by (cases "i = con_id d") simp_all
  qed
qed

lemma sweep_exact:
  assumes "sweepClosedClaims L now s = Inr (w, s')" "inv s"
  shows "inv s' \<and> getConsumer L i s' = map_option (swept now) (getConsumer L i s)"
proof -
  have snap: "\<And>d. d \<in> set (listConsumers L s) \<Longrightarrow> getConsumer L (con_id d) s = Some d"
    using list_all_consumers [OF assms(2)] by blast
  from sweep_fold [OF assms(1) [unfolded sweepClosedClaims_def] assms(2) snap]
  have e: "inv s' \<and> getConsumer L i s' =
      (if i \<in> con_id ` set (listConsumers L s) then map_option (swept now) (getConsumer L i s) else getConsumer L i s)" by blast
  show ?thesis
  proof (cases "getConsumer L i s")
    case None
    with e show ?thesis by simp
  next
    case (Some c)
    have "con_id c = i" using get_id [OF assms(2) Some] .
    with Some have "c \<in> set (listConsumers L s)" using list_all_consumers [OF assms(2), of c] by simp
    with \<open>con_id c = i\<close> have "i \<in> con_id ` set (listConsumers L s)" by blast
    with e show ?thesis by simp
  qed
qed

lemma swept_ages: "ages 0 c (swept now c)"
  by (simp add: swept_def ages_def)

lemma claim_ages:
  assumes "inv s" "getConsumer L i s = Some c" "handleClaim env L cfg k now s = Inr (r, l, s')"
  shows "inv s' \<and> (\<exists>c'. getConsumer L i s' = Some c' \<and> ages (length (accepted i [ClaimDone r l])) c c') \<and>
    good_claims env cfg c (accepted i [ClaimDone r l])"
proof -
  let ?found = "if k = [] then None else getConsumerByClaimId L k s"
  have idle: ?thesis if "s' = s" "accepted i [ClaimDone r l] = []"
    using assms(1,2) that by (auto simp: good_claims_def)
  show ?thesis
  proof (cases ?found)
    case None
    with assms(3) show ?thesis by (intro idle) (auto simp: handleClaim_def accepted_def)
  next
    case (Some d)
    with by_claim [OF assms(1), of k d] have d: "getConsumer L (con_id d) s = Some d" by (auto split: if_splits)
    then have cd: "c = d" if "con_id d = i" using that assms(2) by simp
    show ?thesis
    proof (cases "rejectionReason (Some d) now")
      case rej: (Some reason)
      with assms(3) Some obtain n where r: "r = ClaimRefused n"
        and w: "(if reason \<noteq> ClaimClosed then wipePlainSecret L d s else Inr s) = Inr s'"
        by (auto simp: handleClaim_def)
      have acc: "accepted i [ClaimDone r l] = []" by (simp add: accepted_def r)
      have "inv s' \<and> (\<exists>c'. getConsumer L i s' = Some c' \<and> ages 0 c c')"
      proof (cases "reason = ClaimClosed")
        case True
        with w assms(1,2) show ?thesis by auto
      next
        case False
        with w show ?thesis using wipe_ages [OF assms(1,2) d] by simp
      qed
      then show ?thesis by (simp add: acc good_claims_def)
    next
      case None
      define e where "e = claimed_by now d"
      from assms(3) handleClaim_open [OF Some None, of env cfg] obtain url where url: "access_url_of env cfg d = Inr url"
        and u: "updateConsumer L e s = Inr s'" and r: "r = ClaimOk url"
        and l: "\<exists>m n. l = LogAccepted (con_id d) m n"
        unfolding e_def by auto
      have eid: "con_id e = con_id d" and eage: "ages 1 d e" by (auto simp: e_def claimed_by_def Let_def ages_def)
      have acc: "accepted i [ClaimDone r l] = (if con_id d = i then [url] else [])"
        using l by (auto simp: accepted_def r)
      note room = rejection_None [OF None]
      have "inv s' \<and> (\<exists>c'. getConsumer L i s' = Some c' \<and> ages (if con_id d = i then 1 else 0) c c')"
        by (rule update_ages [OF assms(1) u assms(2)]) (use cd eid eage in auto)
      moreover have "good_claims env cfg c (accepted i [ClaimDone r l])"
        using cd room url by (auto simp: good_claims_def acc)
      ultimately show ?thesis by (cases "con_id d = i") (simp_all add: acc)
    qed
  qed
qed

lemma access_ages:
  assumes "access_step env L cfg ev s = Inr (r, s')" "inv s" "getConsumer L i s = Some c" "\<not> mints env i ev"
  shows "inv s' \<and> (\<exists>c'. getConsumer L i s' = Some c' \<and> ages (length (accepted i [r])) c c') \<and>
    good_claims env cfg c (accepted i [r])"
proof -
  have quiet: "accepted i [r] = [] \<Longrightarrow> inv s' \<Longrightarrow> getConsumer L i s' = Some c' \<Longrightarrow> ages 0 c c' \<Longrightarrow> ?thesis" for c'
    by (auto simp: good_claims_def)
  show ?thesis
  proof (cases ev)
    case (MintEvent label reissue draw now)
    with assms(1) obtain t where t: "r = MintDone t" "mintConsumerToken env L cfg label reissue draw now s = Inr (t, s')"
      by (auto simp: access_step_def)
    define d where "d = mint_consumer t"
    have m: "r = MintDone t" "consumerSlug env label = Inr (con_id d)"
      "(if getConsumer L (con_id d) s \<noteq> None then updateConsumer L d s else createConsumer L d s) = Inr s'"
      using t(1) mint_stores(1,2) [OF t(2)] by (simp_all only: d_def)
    with MintEvent assms(4) have ne: "i \<noteq> con_id d" by (simp add: mints_def)
    have "inv s' \<and> getConsumer L i s' = Some c"
      using m(3) ne assms(3) update_inv [OF assms(2), of d s'] create_inv [OF assms(2), of d s']
        get_update [OF assms(2), of d s' i] get_create [OF assms(2), of d s' i] by (auto split: if_splits)
    with m(1) show ?thesis by (intro quiet) (auto simp: accepted_def)
  next
    case (RevokeEvent label now)
    with assms(1) obtain b j where r: "r = RevokeDone b" and st: "revokeConsumer env L label now s = Inr (b, s')"
      by (auto simp: access_step_def)
    then obtain j where j: "consumerSlug env label = Inr j" by (auto simp: revokeConsumer_def)
    show ?thesis
    proof (cases "getConsumer L j s")
      case None
      with st j assms(2,3) r show ?thesis by (intro quiet) (auto simp: revokeConsumer_def accepted_def)
    next
      case (Some d)
      with st j have u: "updateConsumer L (d\<lparr>con_revokedAt := Some (default (con_revokedAt d) (iso_of_time now)), con_secretPlain := None\<rparr>) s = Inr s'"
        by (auto simp: revokeConsumer_def)
      have "con_id d = j" using get_id [OF assms(2) Some] .
      with Some assms(3) have "inv s' \<and> (\<exists>c'. getConsumer L i s' = Some c' \<and> ages 0 c c')"
        by (intro update_ages [OF assms(2) u assms(3)]) (auto simp: ages_def)
      with r show ?thesis using quiet by (auto simp: accepted_def)
    qed
  next
    case (SweepEvent now)
    with assms(1) obtain w where r: "r = SweepDone w" and st: "sweepClosedClaims L now s = Inr (w, s')"
      by (auto simp: access_step_def)
    from sweep_exact [OF st assms(2), of i] assms(3) r show ?thesis
      by (intro quiet [of "swept now c"]) (auto simp: accepted_def swept_ages)
  next
    case (ClaimEvent k now)
    with assms(1) obtain q l where "r = ClaimDone q l" "handleClaim env L cfg k now s = Inr (q, l, s')"
      by (auto simp: access_step_def)
    with claim_ages [OF assms(2,3)] show ?thesis by blast
  next
    case (AuthEvent header now)
    with assms(1) obtain q where r: "r = AuthDone q" and st: "basicAuth env L header now s = Inr (q, s')"
      by (auto simp: access_step_def)
    have acc: "accepted i [r] = []" by (simp add: r accepted_def)
    show ?thesis
    proof (cases "\<exists>d. q = Authenticated d")
      case False
      with st have "s' = s" by (auto simp: basicAuth_def Let_def split: option.splits if_splits)
      with assms(2,3) acc show ?thesis by (intro quiet) auto
    next
      case True
      with st obtain user d where d: "getConsumerByBasicUser L user s = Some d" "touchConsumer L d now s = Inr s'"
        by (auto simp: basicAuth_def Let_def split: option.splits if_splits)
      with by_user [OF assms(2)] have g: "getConsumer L (con_id d) s = Some d" by blast
      have "inv s' \<and> (\<exists>c'. getConsumer L i s' = Some c' \<and> ages 0 c c')"
        by (rule update_ages [OF assms(2) d(2) [unfolded touchConsumer_def Let_def] assms(3)])
           (use g assms(3) in \<open>auto simp: ages_def\<close>)
      with acc show ?thesis using quiet by auto
    qed
  qed
qed

lemma run_ages:
  assumes "run_access env L cfg evs s = Inr (rs, s')" "inv s" "getConsumer L i s = Some c"
    and "\<forall>ev\<in>set evs. \<not> mints env i ev"
  shows "inv s' \<and> (\<exists>c'. getConsumer L i s' = Some c' \<and> ages (length (accepted i rs)) c c') \<and>
    good_claims env cfg c (accepted i rs)"
  using assms
proof (induction evs arbitrary: s c rs)
  case Nil
  then show ?case by (auto simp: accepted_def good_claims_def)
next
  case (Cons ev evs)
  from Cons.prems(1) obtain r s1 rs1 where 1: "access_step env L cfg ev s = Inr (r, s1)"
    "run_access env L cfg evs s1 = Inr (rs1, s')" and rs: "rs = r # rs1" by auto
  from access_ages [OF 1(1) Cons.prems(2,3)] Cons.prems(4) obtain c1 where c1: "inv s1" "getConsumer L i s1 = Some c1"
    "ages (length (accepted i [r])) c c1" "good_claims env cfg c (accepted i [r])" by auto
  from Cons.IH [OF 1(2) c1(1,2)] Cons.prems(4) obtain c2 where c2: "inv s'" "getConsumer L i s' = Some c2"
    "ages (length (accepted i rs1)) c1 c2" "good_claims env cfg c1 (accepted i rs1)" by auto
  have acc: "accepted i rs = accepted i [r] @ accepted i rs1" by (simp add: rs accepted_def)
  have "ages (length (accepted i rs)) c c2" using ages_trans [OF c1(3) c2(3)] by (simp add: acc)
  moreover have "good_claims env cfg c (accepted i rs)"
    unfolding acc by (rule good_claims_append [OF c1(3,4) c2(4)])
  ultimately show ?case using c2(1,2) by blast
qed

text \<open>A request authenticates only a stored consumer that is not revoked and whose secret it carries.\<close>

lemma auth_sound:
  assumes "access_step env L cfg ev s = Inr (AuthDone (Authenticated d), s')" "inv s"
  shows "getConsumer L (con_id d) s = Some d \<and> truthy_text (con_revokedAt d) = None \<and>
    (\<exists>header now user secret. ev = AuthEvent header now \<and> parseBasicAuth header = Some (user, secret) \<and>
      con_basicUser d = user \<and> verifySecret env (Some (con_secretHash d)) secret)"
proof (cases ev)
  case (AuthEvent header now)
  with assms(1) have st: "basicAuth env L header now s = Inr (Authenticated d, s')" by (auto simp: access_step_def)
  then obtain user secret where p: "parseBasicAuth header = Some (user, secret)"
    by (cases "parseBasicAuth header") (auto simp: basicAuth_def)
  show ?thesis
  proof (cases "getConsumerByBasicUser L user s")
    case None
    with st p show ?thesis by (simp add: basicAuth_def)
  next
    case (Some c)
    with st p have "c = d" "truthy_text (con_revokedAt c) = None" "verifySecret env (Some (con_secretHash c)) secret"
      by (auto simp: basicAuth_def Let_def split: if_splits)
    with by_user [OF assms(2) Some] AuthEvent p show ?thesis by auto
  qed
qed (use assms(1) in \<open>auto simp: access_step_def\<close>)

lemma locked_out:
  assumes "run_access env L cfg evs s = Inr (rs, s')" "inv s" "getConsumer L i s = Some c"
    and "truthy_text (con_revokedAt c) \<noteq> None" "\<forall>ev\<in>set evs. \<not> mints env i ev"
  shows "accepted i rs = [] \<and> (\<forall>d. AuthDone (Authenticated d) \<in> set rs \<longrightarrow> con_id d \<noteq> i) \<and>
    (\<exists>c'. getConsumer L i s' = Some c' \<and> con_revokedAt c' = con_revokedAt c)"
  using assms
proof (induction evs arbitrary: s c rs)
  case Nil
  then show ?case by (auto simp: accepted_def)
next
  case (Cons ev evs)
  from Cons.prems(1) obtain r s1 rs1 where 1: "access_step env L cfg ev s = Inr (r, s1)"
    "run_access env L cfg evs s1 = Inr (rs1, s')" and rs: "rs = r # rs1" by auto
  from access_ages [OF 1(1) Cons.prems(2,3)] Cons.prems(5) obtain c1 where c1: "inv s1" "getConsumer L i s1 = Some c1"
    "ages (length (accepted i [r])) c c1" "good_claims env cfg c (accepted i [r])" by auto
  have rev: "con_revokedAt c1 = con_revokedAt c"
    using c1(3) Cons.prems(4) by (auto simp: ages_def truthy_text_def split: option.splits)
  have "con_id d \<noteq> i" if "r = AuthDone (Authenticated d)" for d
    using auth_sound [OF 1(1) [unfolded that] Cons.prems(2)] Cons.prems(3,4) by auto
  moreover have "accepted i [r] = []" using c1(4) Cons.prems(4) by (auto simp: good_claims_def)
  then have "accepted i rs = accepted i rs1" by (simp add: rs accepted_def)
  moreover note Cons.IH [OF 1(2) c1(1,2)] 
  ultimately show ?case using rev Cons.prems(4,5) by (auto simp: rs)
qed

end

end
