(* ===== verification/AccessProofs.thy ===== *)
theory AccessProofs
  imports ConsumerProofs SqliteProofs
begin

text \<open>
  The life of a setup token, end to end on the SQLite ledger: hashing and the Basic header read back
  what was written, unique columns find the consumer that was stored, and so a minted token can be
  claimed and its credentials authenticate. The general facts on requests are stated for the ledgers.
\<close>

section \<open>Secrets and headers read back\<close>

definition scrypt_ok :: "access_env \<Rightarrow> bool" where
  "scrypt_ok env \<longleftrightarrow> (\<forall>p s. length (ae_scrypt env p s) = 32 \<and> (\<forall>b\<in>set (ae_scrypt env p s). b < 256))"

definition bytes_ok :: "nat list \<Rightarrow> bool" where
  "bytes_ok bs \<longleftrightarrow> bs \<noteq> [] \<and> (\<forall>b\<in>set bs. b < 256)"

lemma hash_verifies:
  assumes "scrypt_ok env" "bytes_ok salt"
  shows "verifySecret env (Some (hashSecret env salt secret)) secret"
proof -
  let ?hash = "ae_scrypt env (utf8 secret) salt"
  have h: "length ?hash = 32" "\<forall>b\<in>set ?hash. b < 256" "?hash \<noteq> []"
    using assms(1) unfolding scrypt_ok_def by (blast, blast, metis list.size(3) zero_neq_numeral)
  have s: "\<forall>b\<in>set salt. b < 256" "salt \<noteq> []" using assms(2) by (auto simp: bytes_ok_def)
  have no: "36 \<notin> set (base64 salt)" "36 \<notin> set (base64 ?hash)" using base64_chars s(1) h(2) by blast+
  have "split_on 36 (hashSecret env salt secret) = [js ''scrypt'', base64 salt, base64 ?hash]"
  proof -
    have "hashSecret env salt secret = js ''scrypt'' @ 36 # base64 salt @ 36 # base64 ?hash" by (simp add: hashSecret_def)
    moreover have "36 \<notin> set (js ''scrypt'')" by simp
    ultimately show ?thesis using no by (simp only: split_on_append split_on_no_sep not_False_eq_True)
  qed
  then show ?thesis
    using s h base64_not_Nil [of salt] base64_not_Nil [of ?hash]
    by (simp add: verifySecret_def truthy_text_def hashSecret_def Let_def base64_decode_base64 keyLength_def)
qed

lemma split_ws_word: "\<forall>c\<in>set q. \<not> is_space c \<Longrightarrow> split_ws q = [q]"
  by (induction q) auto

lemma split_ws_two:
  "\<forall>c\<in>set p. \<not> is_space c \<Longrightarrow> \<forall>c\<in>set q. \<not> is_space c \<Longrightarrow> q \<noteq> [] \<Longrightarrow> split_ws (p @ 32 # q) = [p, q]"
proof (induction p)
  case Nil
  then show ?case by (cases q) (auto simp: split_ws_word is_space_def [of 32])
qed simp

definition basic_header :: "jsstr \<Rightarrow> jsstr \<Rightarrow> jsstr" where
  "basic_header user secret = js ''Basic '' @ base64 (utf8 (user @ js '':'' @ secret))"

lemma header_parses:
  assumes "\<forall>c\<in>set user. c < 128" "\<forall>c\<in>set secret. c < 128" "user \<noteq> []" "58 \<notin> set user"
  shows "parseBasicAuth (Some (basic_header user secret)) = Some (user, secret)"
proof -
  let ?text = "user @ 58 # secret" and ?token = "base64 (utf8 (user @ 58 # secret))"
  have ascii: "\<forall>c\<in>set ?text. c < 128" using assms(1,2) by auto
  then have u: "utf8 ?text = ?text" by (intro utf8_ascii) auto
  have b: "\<forall>b\<in>set (utf8 ?text). b < 256"
  proof
    fix b assume "b \<in> set (utf8 ?text)"
    then have "b < 128" using ascii unfolding u by blast
    then show "b < 256" by simp
  qed
  have tok: "\<forall>c\<in>set ?token. \<not> is_space c" using base64_chars [OF b] by blast
  have ne: "?token \<noteq> []" using base64_not_Nil [of "utf8 ?text"] u by simp
  have "js_trim (js ''Basic'' @ 32 # ?token) = js ''Basic'' @ 32 # ?token"
    by (rule js_trim_same) (use ne tok in \<open>auto simp: is_space_def\<close>)
  moreover have "split_ws (js ''Basic'' @ 32 # ?token) = [js ''Basic'', ?token]"
    by (rule split_ws_two) (use ne tok in \<open>auto simp: is_space_def\<close>)
  moreover have "to_lower (js ''Basic'') = js ''basic''" by (simp add: to_lower_def lower_unit_def is_upper_def)
  moreover have "utf8_decode (base64_decode ?token) = ?text" using buffer_roundtrip [OF ascii] .
  moreover have "index_of 58 ?text = Some (length user)" using assms(4) by (rule index_of_append)
  moreover have "basic_header user secret = js ''Basic'' @ 32 # ?token" by (simp add: basic_header_def)
  ultimately show ?thesis
    using assms(3) ne by (simp add: parseBasicAuth_def truthy_text_def Let_def)
qed

section \<open>Unique columns\<close>

definition lone :: "consumer \<Rightarrow> sqlite_db \<Rightarrow> bool" where
  "lone d db \<longleftrightarrow> consumers_ok db \<and> sql_getConsumer (con_id d) db = Some d \<and>
     (\<forall>i x. sql_getConsumer i db = Some x \<longrightarrow> i \<noteq> con_id d \<longrightarrow>
        con_basicUser x \<noteq> con_basicUser d \<and> (con_claimId d \<noteq> None \<longrightarrow> con_claimId x \<noteq> con_claimId d))"

lemma table_member:
  assumes "consumers_ok db"
  shows "consumerParameters x \<in> set (db_consumers db) \<longleftrightarrow> sql_getConsumer (con_id x) db = Some x"
proof -
  from assms have wc: "consumers.well_coded (db_consumers db)" by (simp add: consumers_ok_def)
  then have "consumerParameters x \<in> set (db_consumers db) \<longleftrightarrow> x \<in> consumerFromRow ` set (db_consumers db)"
    by (auto simp: consumers.well_coded_def consumers.dec_enc image_image) (metis consumers.dec_enc)
  then show ?thesis unfolding sql_getConsumer_def using consumers.member_law [OF wc, of x] by blast
qed

lemma clash_iff:
  assumes "consumers_ok db"
  shows "consumer_clash (consumerParameters d) (db_consumers db) \<longleftrightarrow>
    (\<exists>x. sql_getConsumer (con_id x) db = Some x \<and> con_id x \<noteq> con_id d \<and>
       (con_basicUser x = con_basicUser d \<or> con_claimId d \<noteq> None \<and> con_claimId x = con_claimId d))"
proof -
  from assms obtain xs where xs: "db_consumers db = map consumerParameters xs"
    by (auto simp: consumers_ok_def consumers.well_coded_def)
  have mem: "x \<in> set xs \<longleftrightarrow> sql_getConsumer (con_id x) db = Some x" for x
    using table_member [OF assms, of x] consumers.dec_enc by (auto simp: xs) (metis consumers.dec_enc imageE)
  have null: "orNullText t = SNull \<longleftrightarrow> t = None" "orNullText t = orNullText u \<longleftrightarrow> t = u" for t u
    by (auto simp: orNullText_def split: option.splits)
  have "consumer_clash (consumerParameters d) (db_consumers db) \<longleftrightarrow>
    (\<exists>x\<in>set xs. con_id x \<noteq> con_id d \<and> (con_basicUser x = con_basicUser d \<or> con_claimId d \<noteq> None \<and> con_claimId x = con_claimId d))"
    by (simp add: consumer_clash_def unique_clash_def xs list_ex_iff consumers.same_key_coded consumer_cols null) metis
  then show ?thesis by (auto simp: mem)
qed

lemma lone_finds:
  assumes "lone d db"
  shows "sql_getConsumerByBasicUser (con_basicUser d) db = Some d"
    "con_claimId d = Some k \<Longrightarrow> sql_getConsumerByClaimId k db = Some d"
proof -
  from assms have ok: "consumers_ok db" and d: "sql_getConsumer (con_id d) db = Some d" by (auto simp: lone_def)
  then have wc: "consumers.well_coded (db_consumers db)" by (simp add: consumers_ok_def)
  have "consumerParameters d \<in> set (db_consumers db)" using table_member [OF ok] d by blast
  then have hit: "get_where c v (db_consumers db) \<noteq> None" if "col (consumerParameters d) c = Some (SText v)" for c v
    using that unfolding get_where_def find_None_iff by blast
  have only: "x = d" if "sql_getConsumer (con_id x) db = Some x"
    "con_basicUser x = con_basicUser d \<or> con_claimId d \<noteq> None \<and> con_claimId x = con_claimId d" for x
    using assms that d unfolding lone_def by (metis option.inject)
  show "sql_getConsumerByBasicUser (con_basicUser d) db = Some d"
  proof -
    obtain x where x: "map_option consumerFromRow (get_where ''basic_user'' (con_basicUser d) (db_consumers db)) = Some x"
      using hit [of "''basic_user''"] consumer_cols(2) [of d] by fastforce
    from consumers.other_column [OF wc x] only [of x] show ?thesis
      by (simp add: sql_getConsumerByBasicUser_def sql_getConsumer_def x consumer_cols)
  qed
  show "sql_getConsumerByClaimId k db = Some d" if k: "con_claimId d = Some k"
  proof -
    obtain x where x: "map_option consumerFromRow (get_where ''claim_id'' k (db_consumers db)) = Some x"
      using hit [of "''claim_id''" k] consumer_cols(1) [of d] k by (fastforce simp: orNullText_def)
    from consumers.other_column [OF wc x] only [of x] k show ?thesis
      by (simp add: sql_getConsumerByClaimId_def sql_getConsumer_def x consumer_cols orNullText_def split: option.splits)
  qed
qed

lemma lone_update:
  assumes "lone d db" "con_id e = con_id d" "con_basicUser e = con_basicUser d" "con_claimId e = con_claimId d"
  shows "\<exists>db'. sql_updateConsumer e db = Inr db' \<and> lone e db'"
proof -
  from assms(1) have ok: "consumers_ok db" by (simp add: lone_def)
  have "\<not> consumer_clash (consumerParameters e) (db_consumers db)"
  proof
    assume "consumer_clash (consumerParameters e) (db_consumers db)"
    then obtain x where x: "sql_getConsumer (con_id x) db = Some x" "con_id x \<noteq> con_id d"
      "con_basicUser x = con_basicUser d \<or> con_claimId d \<noteq> None \<and> con_claimId x = con_claimId d"
      unfolding clash_iff [OF ok] assms(2-4) by blast
    with assms(1) show False unfolding lone_def by blast
  qed
  then obtain db' where u: "sql_updateConsumer e db = Inr db'" by (simp add: sql_updateConsumer_def)
  then have u': "updateConsumer (sqlite_ledger undefined undefined) e db = Inr db'" by (simp add: sqlite_ledger_def)
  have "consumers_ok db'" using sql_con.update_inv [OF ok u'] .
  moreover have "sql_getConsumer i db' = (if i = con_id e then Some e else sql_getConsumer i db)" for i
    using sql_con.get_update [OF ok u', of i] by (simp add: sqlite_ledger_def)
  moreover have "con_basicUser x \<noteq> con_basicUser e \<and> (con_claimId e \<noteq> None \<longrightarrow> con_claimId x \<noteq> con_claimId e)"
    if "sql_getConsumer i db = Some x" "i \<noteq> con_id e" for i x
    using assms(1) that unfolding lone_def assms(2-4) by blast
  ultimately have "lone e db'" unfolding lone_def by auto
  with u show ?thesis by blast
qed

lemma lone_create:
  assumes "sql_createConsumer d db = Inr db'" "consumers_ok db"
  shows "lone d db'"
proof -
  have c': "createConsumer (sqlite_ledger undefined undefined) d db = Inr db'" using assms(1) by (simp add: sqlite_ledger_def)
  have get: "sql_getConsumer i db' = (if i = con_id d then Some d else sql_getConsumer i db)" for i
    using sql_con.get_create [OF assms(2) c', of i] by (simp add: sqlite_ledger_def)
  have "\<not> consumer_clash (consumerParameters d) (db_consumers db)"
    using assms(1) by (auto simp: sql_createConsumer_def split: if_splits)
  then have free: "sql_getConsumer (con_id x) db = Some x \<Longrightarrow> con_id x \<noteq> con_id d \<Longrightarrow>
      con_basicUser x \<noteq> con_basicUser d \<and> (con_claimId d \<noteq> None \<longrightarrow> con_claimId x \<noteq> con_claimId d)" for x
    unfolding clash_iff [OF assms(2)] by blast
  have ids: "sql_getConsumer i db = Some x \<Longrightarrow> con_id x = i" for i x
    using sql_con.get_id [OF assms(2), of undefined undefined i x] by (simp add: sqlite_ledger_def)
  have other: "con_basicUser x \<noteq> con_basicUser d \<and> (con_claimId d \<noteq> None \<longrightarrow> con_claimId x \<noteq> con_claimId d)"
    if "sql_getConsumer i db' = Some x" "i \<noteq> con_id d" for i x
  proof -
    from that get [of i] have x: "sql_getConsumer i db = Some x" by simp
    with ids [OF x] that(2) show ?thesis by (intro free) simp_all
  qed
  have "sql_getConsumer (con_id d) db' = Some d" using get [of "con_id d"] by simp
  with sql_con.create_inv [OF assms(2) c'] other show ?thesis unfolding lone_def by blast
qed

section \<open>A minted token works\<close>

lemma slug_chars: "c \<in> set (dash_runs s) \<Longrightarrow> slug_unit c \<or> c = 45"
  by (induction s rule: dash_runs.induct) (auto split: if_splits list.splits)

lemma consumerSlug_chars: "consumerSlug env label = Inr i \<Longrightarrow> i \<noteq> [] \<and> (\<forall>c\<in>set i. slug_unit c \<or> c = 45)"
proof -
  assume a: "consumerSlug env label = Inr i"
  have "set (strip_dashes s) \<subseteq> set s" for s
    unfolding strip_dashes_def by (auto dest!: set_dropWhileD)
  with a slug_chars show ?thesis by (auto simp: consumerSlug_def Let_def split: if_splits)
qed

lemma alnum_chars: "c \<in> set (randomLowerAlnum bs) \<Longrightarrow> slug_unit c"
proof -
  have "list_all slug_unit lower_alnum" by (simp add: lower_alnum_def slug_unit_def is_lower_def is_digit_def)
  moreover have "byte mod length lower_alnum < length lower_alnum" for byte
    by (rule mod_less_divisor) (simp add: lower_alnum_def)
  ultimately show "c \<in> set (randomLowerAlnum bs) \<Longrightarrow> slug_unit c"
    by (auto simp: randomLowerAlnum_def list_all_iff)
qed

lemma url_chars: "\<forall>b\<in>set bs. b < 256 \<Longrightarrow> c \<in> set (base64url bs) \<Longrightarrow> is_word c \<or> c = 45"
proof -
  assume "\<forall>b\<in>set bs. b < 256"
  from sextets_bound [OF this] show "c \<in> set (base64url bs) \<Longrightarrow> is_word c \<or> c = 45"
    by (auto simp: base64url_def b64_char_def is_word_def is_digit_def is_upper_def is_lower_def)
qed

lemma encode_plain: "\<forall>c\<in>set s. uri_unreserved c \<Longrightarrow> encodeURIComponent s = Inr s"
  by (induction s) simp_all

lemma plain_unit: "is_word c \<or> c = 45 \<Longrightarrow> uri_unreserved c \<and> c < 128 \<and> c \<noteq> 58"
  by (auto simp: uri_unreserved_def is_word_def is_digit_def is_upper_def is_lower_def)

lemma slug_plain: "slug_unit c \<or> c = 45 \<Longrightarrow> is_word c \<or> c = 45"
  by (auto simp: slug_unit_def is_word_def)

lemma base64url_not_Nil: "bs \<noteq> [] \<Longrightarrow> base64url bs \<noteq> []"
  by (cases bs rule: sextets.cases) (simp_all add: base64url_def)

text \<open>The credentials in an Access URL are the user and the secret, unchanged.\<close>

lemma minted_url:
  assumes "ae_url env (srv_publicUrl (cfg_server cfg)) = Some (protocol, host, path)"
    and "\<forall>c\<in>set (con_basicUser d). is_word c \<or> c = 45" "con_secretPlain d = Some secret"
    and "\<forall>c\<in>set secret. is_word c \<or> c = 45"
  shows "access_url_of env cfg d = Inr (protocol @ js ''//'' @ con_basicUser d @ js '':'' @ secret @ js ''@'' @ host
    @ strip_slashes path @ js ''/simplefin'')"
proof -
  have "encodeURIComponent (con_basicUser d) = Inr (con_basicUser d)" "encodeURIComponent secret = Inr secret"
    using assms(2,4) plain_unit by (intro encode_plain, blast)+
  with assms(1,3) show ?thesis by (simp add: access_url_of_def buildAccessUrl_def)
qed

lemma open_claim:
  assumes "con_revokedAt d = None" "con_claimExpiresAt d = Some (iso_of_time e)" "ok_time e" "now < e"
    and "con_claimCount d < con_maxClaims d" "con_secretPlain d = Some secret" "secret \<noteq> []"
  shows "rejectionReason (Some d) now = None"
proof -
  have "truthy_text (Some (iso_of_time e)) = Some (iso_of_time e)" by (simp add: truthy_text_def iso_of_time_def Let_def)
  then show ?thesis using assms date_parse_iso_of_time [of e] by (simp add: rejectionReason_def truthy_text_def)
qed

text \<open>
  C10: a minted setup token works. On the SQLite ledger, claiming the token of a new consumer before
  it expires returns the Access URL made of its user and its secret, and afterwards a request with exactly
  these credentials in a Basic header is authenticated as that consumer.
\<close>

theorem minted_token_works:
  assumes mint: "mintConsumerToken env (sqlite_ledger aenv pf) cfg label False draw t0 db = Inr (m, db1)"
    and ok: "consumers_ok db" "scrypt_ok env" "bytes_ok (draw_salt draw)" "bytes_ok (draw_secret draw)" "bytes_ok (draw_claim draw)"
    and url: "ae_url env (srv_publicUrl (cfg_server cfg)) = Some (protocol, host, path)"
    and time: "now < t0 + srv_claimTtlMinutes (cfg_server cfg) * 60000" "ok_time (t0 + srv_claimTtlMinutes (cfg_server cfg) * 60000)"
    and left: "0 < srv_maxClaims (cfg_server cfg)"
  defines "user \<equiv> con_basicUser (mint_consumer m)" and "secret \<equiv> base64url (draw_secret draw)"
  shows "\<exists>db2 log c db3. handleClaim env (sqlite_ledger aenv pf) cfg (base64url (draw_claim draw)) now db1 =
      Inr (ClaimOk (protocol @ js ''//'' @ user @ js '':'' @ secret @ js ''@'' @ host @ strip_slashes path @ js ''/simplefin''), log, db2) \<and>
    basicAuth env (sqlite_ledger aenv pf) (Some (basic_header user secret)) later db2 = Inr (Authenticated c, db3) \<and>
    con_id c = con_id (mint_consumer m)"
proof -
  define d where "d = mint_consumer m"
  note d = mint_stores [OF mint, folded d_def]
  have new: "getConsumer (sqlite_ledger aenv pf) (con_id d) db = None" using d(3) by blast
  then have "sql_createConsumer d db = Inr db1" using d(2) by (simp add: sqlite_ledger_def)
  from lone_create [OF this ok(1)] have lone1: "lone d db1" .
  have user: "user = con_id d @ js ''-'' @ randomLowerAlnum (draw_suffix draw)"
    using d(12) new by (simp add: user_def d_def [symmetric])
  have uc: "\<forall>c\<in>set user. is_word c \<or> c = 45"
    using consumerSlug_chars [OF d(1)] alnum_chars slug_plain by (auto simp: user)
  have sc: "\<forall>c\<in>set secret. is_word c \<or> c = 45" using url_chars ok(4) by (auto simp: secret_def bytes_ok_def)
  have sn: "secret \<noteq> []" and kn: "base64url (draw_claim draw) \<noteq> []"
    using base64url_not_Nil ok(4,5) by (auto simp: secret_def bytes_ok_def)
  have rej: "rejectionReason (Some d) now = None"
    by (rule open_claim [OF d(5) d(11) time(2,1)]) (use left d(8,9,4) sn in \<open>simp_all add: secret_def\<close>)
  have found: "(if base64url (draw_claim draw) = [] then None else getConsumerByClaimId (sqlite_ledger aenv pf) (base64url (draw_claim draw)) db1) = Some d"
    using lone_finds(2) [OF lone1 d(7)] kn by (simp add: sqlite_ledger_def)
  obtain db2 where up: "sql_updateConsumer (claimed_by now d) db1 = Inr db2" and lone2: "lone (claimed_by now d) db2"
    using lone_update [OF lone1, of "claimed_by now d"] by auto
  have au: "access_url_of env cfg d = Inr (protocol @ js ''//'' @ user @ js '':'' @ secret @ js ''@'' @ host @ strip_slashes path @ js ''/simplefin'')"
    unfolding user_def d_def [symmetric] by (rule minted_url [OF url _ _ sc]) (use uc d(4) in \<open>simp_all add: user_def d_def secret_def\<close>)
  have claim: "\<exists>log. handleClaim env (sqlite_ledger aenv pf) cfg (base64url (draw_claim draw)) now db1 =
      Inr (ClaimOk (protocol @ js ''//'' @ user @ js '':'' @ secret @ js ''@'' @ host @ strip_slashes path @ js ''/simplefin''), log, db2)"
    unfolding handleClaim_open [OF found rej] au using up by (simp add: sqlite_ledger_def)
  let ?c = "claimed_by now d"
  have same: "con_basicUser ?c = user" "con_secretHash ?c = con_secretHash d" "con_revokedAt ?c = None" "con_id ?c = con_id d"
    using d(5) by (simp_all add: user_def d_def)
  have parse: "parseBasicAuth (Some (basic_header user secret)) = Some (user, secret)"
    by (rule header_parses) (use uc sc plain_unit user in auto)
  have hash: "verifySecret env (Some (con_secretHash d)) secret"
    unfolding d(6) secret_def by (rule hash_verifies [OF ok(2,3)])
  have by_user: "sql_getConsumerByBasicUser user db2 = Some ?c" using lone_finds(1) [OF lone2] same(1) by simp
  let ?t = "?c\<lparr>con_lastSeenAt := Some (iso_of_time later),
    con_firstAuthenticatedAt := Some (default (con_firstAuthenticatedAt ?c) (iso_of_time later)),
    con_secretPlain := (if isClaimOpen ?c later then con_secretPlain ?c else None)\<rparr>"
  obtain db3 where "sql_updateConsumer ?t db2 = Inr db3" using lone_update [OF lone2, of ?t] by auto
  then have "touchConsumer (sqlite_ledger aenv pf) ?c later db2 = Inr db3"
    unfolding touchConsumer_def Let_def by (simp add: sqlite_ledger_def)
  with parse by_user hash same have "basicAuth env (sqlite_ledger aenv pf) (Some (basic_header user secret)) later db2 = Inr (Authenticated ?c, db3)"
    by (simp add: basicAuth_def sqlite_ledger_def truthy_text_def)
  with claim same(4) show ?thesis unfolding d_def by blast
qed

text \<open>A concrete environment and the mint of one consumer in an empty database.\<close>

definition example_access :: access_env where
  "example_access = \<lparr>ae_scrypt = (\<lambda>p s. replicate 32 7), ae_nfkd = (\<lambda>s. s),
     ae_url = (\<lambda>u. Some (js ''https:'', js ''bridge.example.com'', js ''/'')), ae_dummySalt = [1]\<rparr>"

definition example_draw :: mint_draw where
  "example_draw = \<lparr>draw_secret = [1, 2], draw_suffix = [3], draw_salt = [4], draw_claim = [5, 6]\<rparr>"

lemma example_access_ok: "scrypt_ok example_access" "bytes_ok (draw_salt example_draw)"
  "bytes_ok (draw_secret example_draw)" "bytes_ok (draw_claim example_draw)"
  by (simp_all add: scrypt_ok_def example_access_def bytes_ok_def example_draw_def)

lemma example_slug: "consumerSlug example_access (js ''Securo'') = Inr (js ''securo'')"
  by (simp add: consumerSlug_def example_access_def to_lower_def lower_unit_def is_upper_def slug_unit_def
      is_lower_def is_digit_def strip_dashes_def)

lemma example_mint:
  "\<exists>m db1. mintConsumerToken example_access (sqlite_ledger aenv pf) example_config (js ''Securo'') False example_draw 0 empty_db = Inr (m, db1)"
proof -
  have "getConsumer (sqlite_ledger aenv pf) (js ''securo'') empty_db = None"
    by (simp add: sqlite_ledger_def sql_getConsumer_def get_where_def empty_db_def)
  moreover have "createConsumer (sqlite_ledger aenv pf) c empty_db = Inr (empty_db\<lparr>db_consumers := [consumerParameters c]\<rparr>)" for c
    by (simp add: sqlite_ledger_def sql_createConsumer_def get_where_def empty_db_def consumer_clash_def unique_clash_def)
  ultimately show ?thesis
    unfolding mintConsumerToken_def example_slug
    by (simp add: freshClaim_def to_iso_string_def time_clip_def example_config_def
        example_server_def Let_def del: bindE_eq_Inr)
qed

theorem minted_token_works_witness:
  "\<exists>m db1 url db2 log c db3 user.
    mintConsumerToken example_access (sqlite_ledger example_env (\<lambda>_. [])) example_config (js ''Securo'') False example_draw 0 empty_db = Inr (m, db1) \<and>
    handleClaim example_access (sqlite_ledger example_env (\<lambda>_. [])) example_config (base64url [5, 6]) 0 db1 = Inr (ClaimOk url, log, db2) \<and>
    basicAuth example_access (sqlite_ledger example_env (\<lambda>_. [])) (Some (basic_header user (base64url [1, 2]))) 0 db2 = Inr (Authenticated c, db3)"
proof -
  obtain m db1 where m: "mintConsumerToken example_access (sqlite_ledger example_env (\<lambda>_. [])) example_config (js ''Securo'') False example_draw 0 empty_db = Inr (m, db1)"
    using example_mint by blast
  have "ae_url example_access (srv_publicUrl (cfg_server example_config)) = Some (js ''https:'', js ''bridge.example.com'', js ''/'')"
    by (simp only: example_access_def access_env.simps)
  from minted_token_works [OF m empty_tables(1) example_access_ok this, of 0 0] m show ?thesis
    by (simp add: example_config_def example_server_def ok_time_def example_draw_def) blast
qed

section \<open>Claims, revocation, sweeping\<close>

text \<open>
  C11: claims are bounded. Over any sequence of requests that does not mint a consumer anew, at most
  as many claims of it are accepted as it had left, and every accepted one returns the same Access URL.
\<close>

theorem claims_bounded_one_url:
  assumes "run_access env (sqlite_ledger aenv pf) cfg evs db = Inr (outcomes, db')" "consumers_ok db"
    and "sql_getConsumer i db = Some c" "\<forall>ev\<in>set evs. \<not> mints env i ev"
  shows "(accepted i outcomes \<noteq> [] \<longrightarrow> con_claimCount c + int (length (accepted i outcomes)) \<le> con_maxClaims c) \<and>
    (\<forall>url\<in>set (accepted i outcomes). access_url_of env cfg c = Inr url)"
proof -
  have "getConsumer (sqlite_ledger aenv pf) i db = Some c" using assms(3) by (simp add: sqlite_ledger_def)
  from sql_con.run_ages [OF assms(1,2) this assms(4)] show ?thesis by (simp add: good_claims_def)
qed

theorem claims_bounded_one_url_witness:
  "\<exists>db1 c outcomes. sql_getConsumer (js ''securo'') db1 = Some c \<and>
    run_access example_access (sqlite_ledger example_env (\<lambda>_. [])) example_config [AuthEvent None 0, ClaimEvent [] 0] db1 = Inr (outcomes, db1) \<and>
    (\<forall>url\<in>set (accepted (js ''securo'') outcomes). access_url_of example_access example_config c = Inr url)"
proof -
  obtain m db1 where m: "mintConsumerToken example_access (sqlite_ledger example_env (\<lambda>_. [])) example_config (js ''Securo'') False example_draw 0 empty_db = Inr (m, db1)"
    using example_mint by blast
  note st = mint_stores [OF m]
  have i: "con_id (mint_consumer m) = js ''securo''" using st(1) unfolding example_slug by simp
  have "getConsumer (sqlite_ledger example_env (\<lambda>_. [])) (con_id (mint_consumer m)) empty_db = None" using st(3) by blast
  then have "sql_createConsumer (mint_consumer m) empty_db = Inr db1" using st(2) by (simp add: sqlite_ledger_def)
  from lone_create [OF this empty_tables(1)] have l: "consumers_ok db1" "sql_getConsumer (js ''securo'') db1 = Some (mint_consumer m)"
    unfolding lone_def i by blast+
  have "run_access example_access (sqlite_ledger example_env (\<lambda>_. [])) example_config [AuthEvent None 0, ClaimEvent [] 0] db1 =
      Inr ([AuthDone (Forbidden ''missing_credentials'' None), ClaimDone (ClaimRefused 404) (LogRefused None ClaimUnknown)], db1)"
    by (simp add: access_step_def basicAuth_def parseBasicAuth_def truthy_text_def handleClaim_def)
  from claims_bounded_one_url [OF this l] this l(2) show ?thesis by (fastforce simp: mints_def)
qed

text \<open>
  C12: a revoked consumer stays locked out. After its revocation, whatever requests follow, as long
  as its token is not minted anew, no claim of it is accepted and no request authenticates as it.
\<close>

theorem revoked_stays_locked_out:
  assumes "revokeConsumer env (sqlite_ledger aenv pf) label now db = Inr (True, db1)" "consumerSlug env label = Inr i"
    and "run_access env (sqlite_ledger aenv pf) cfg evs db1 = Inr (outcomes, db2)" "consumers_ok db"
    and "\<forall>ev\<in>set evs. \<not> mints env i ev" "\<forall>c. sql_getConsumer i db = Some c \<longrightarrow> con_revokedAt c \<noteq> Some []"
  shows "accepted i outcomes = [] \<and> (\<forall>c. AuthDone (Authenticated c) \<in> set outcomes \<longrightarrow> con_id c \<noteq> i)"
proof -
  let ?L = "sqlite_ledger aenv pf"
  from assms(1,2) obtain c where c: "getConsumer ?L i db = Some c"
    and u: "updateConsumer ?L (c\<lparr>con_revokedAt := Some (default (con_revokedAt c) (iso_of_time now)), con_secretPlain := None\<rparr>) db = Inr db1"
    by (auto simp: revokeConsumer_def split: option.splits)
  let ?c = "c\<lparr>con_revokedAt := Some (default (con_revokedAt c) (iso_of_time now)), con_secretPlain := None\<rparr>"
  have i: "con_id c = i" using sql_con.get_id [OF assms(4) c] .
  have "iso_of_time now \<noteq> []" by (simp add: iso_of_time_def Let_def)
  moreover have "con_revokedAt c \<noteq> Some []" using assms(6) c by (simp add: sqlite_ledger_def)
  ultimately have "truthy_text (con_revokedAt ?c) \<noteq> None"
    by (cases "con_revokedAt c") (simp_all add: truthy_text_def)
  moreover have "consumers_ok db1" "getConsumer ?L i db1 = Some ?c"
    using sql_con.update_inv [OF assms(4) u] sql_con.get_update [OF assms(4) u, of i] i by simp_all
  ultimately show ?thesis using sql_con.locked_out [OF assms(3) _ _ _ assms(5), of ?c] by blast
qed

theorem revoked_stays_locked_out_witness:
  "\<exists>db1 db2 outcomes. revokeConsumer example_access (sqlite_ledger example_env (\<lambda>_. [])) (js ''Securo'') 0 db1 = Inr (True, db2) \<and>
    run_access example_access (sqlite_ledger example_env (\<lambda>_. [])) example_config [AuthEvent None 0, ClaimEvent [] 0] db2 = Inr (outcomes, db2) \<and>
    accepted (js ''securo'') outcomes = []"
proof -
  let ?L = "sqlite_ledger example_env (\<lambda>_. [])"
  obtain m db1 where m: "mintConsumerToken example_access ?L example_config (js ''Securo'') False example_draw 0 empty_db = Inr (m, db1)"
    using example_mint by blast
  note st = mint_stores [OF m]
  let ?d = "mint_consumer m"
  let ?e = "?d\<lparr>con_revokedAt := Some (default (con_revokedAt ?d) (iso_of_time 0)), con_secretPlain := None\<rparr>"
  have i: "con_id ?d = js ''securo''" using st(1) unfolding example_slug by simp
  have "getConsumer ?L (con_id ?d) empty_db = None" using st(3) by blast
  then have "sql_createConsumer ?d empty_db = Inr db1" using st(2) by (simp add: sqlite_ledger_def)
  from lone_create [OF this empty_tables(1)] have l: "lone ?d db1" .
  then have ok: "consumers_ok db1" "sql_getConsumer (js ''securo'') db1 = Some ?d" unfolding lone_def i by blast+
  obtain db2 where "sql_updateConsumer ?e db1 = Inr db2" using lone_update [OF l, of ?e] by auto
  then have r: "revokeConsumer example_access ?L (js ''Securo'') 0 db1 = Inr (True, db2)"
    using ok(2) unfolding revokeConsumer_def example_slug by (simp add: sqlite_ledger_def del: bindE_eq_Inr)
  have run: "run_access example_access ?L example_config [AuthEvent None 0, ClaimEvent [] 0] db2 =
      Inr ([AuthDone (Forbidden ''missing_credentials'' None), ClaimDone (ClaimRefused 404) (LogRefused None ClaimUnknown)], db2)"
    by (simp add: access_step_def basicAuth_def parseBasicAuth_def truthy_text_def handleClaim_def)
  from revoked_stays_locked_out [OF r example_slug run ok(1)] st(5) ok(2) r run show ?thesis by (fastforce simp: mints_def)
qed

lemma mem_sweep_returns:
  "\<exists>s'. foldE (sweep_step (memory_ledger env lc) now) cs (w, s) =
     Inr (w + length (filter (\<lambda>c. con_secretPlain c \<noteq> None \<and> \<not> isClaimOpen c now) cs), s')"
proof (induction cs arbitrary: w s)
  case (Cons c cs)
  have up: "updateConsumer (memory_ledger env lc) d s = Inr (s\<lparr>m_consumers := AList.update (con_id d) d (m_consumers s)\<rparr>)" for d
    by (simp add: memory_ledger_def mem_updateConsumer_def)
  show ?case
  proof (cases "con_secretPlain c = None \<or> isClaimOpen c now")
    case True
    with Cons.IH [of w s] show ?thesis by (auto simp: sweep_step_def)
  next
    case False
    then have st: "sweep_step (memory_ledger env lc) now c (w, s) =
        Inr (w + 1, s\<lparr>m_consumers := AList.update (con_id c) (c\<lparr>con_secretPlain := None\<rparr>) (m_consumers s)\<rparr>)"
      by (simp add: sweep_step_def up del: bindE_eq_Inr)
    from False obtain p where "con_secretPlain c = Some p" by auto
    with False Cons.IH [of "w + 1" "s\<lparr>m_consumers := AList.update (con_id c) (c\<lparr>con_secretPlain := None\<rparr>) (m_consumers s)\<rparr>"]
    show ?thesis by (simp add: st del: bindE_eq_Inr)
  qed
qed simp

text \<open>
  A sweep wipes exactly the plain secrets of closed claims. On the in-memory ledger it always
  returns, reports how many consumers it wiped, removes the plain secret of each consumer whose claim
  is closed, and leaves every other consumer as it was.
\<close>

theorem closed_claims_are_swept:
  assumes "mem_inv s"
  shows "\<exists>s'. sweepClosedClaims (memory_ledger env lc) now s =
      Inr (length (filter (\<lambda>c. con_secretPlain c \<noteq> None \<and> \<not> isClaimOpen c now) (mem_listConsumers s)), s') \<and>
    (\<forall>i. mem_getConsumer i s' = map_option
       (\<lambda>c. if con_secretPlain c = None \<or> isClaimOpen c now then c else c\<lparr>con_secretPlain := None\<rparr>) (mem_getConsumer i s))"
proof -
  obtain s' where s': "sweepClosedClaims (memory_ledger env lc) now s =
      Inr (length (filter (\<lambda>c. con_secretPlain c \<noteq> None \<and> \<not> isClaimOpen c now) (mem_listConsumers s)), s')"
    using mem_sweep_returns [of env lc now "mem_listConsumers s" 0 s] by (auto simp: sweepClosedClaims_def memory_ledger_def)
  from mem_con.sweep_exact [OF s' assms] have "getConsumer (memory_ledger env lc) i s' =
      map_option (swept now) (getConsumer (memory_ledger env lc) i s)" for i by blast
  then have "mem_getConsumer i s' = map_option (swept now) (mem_getConsumer i s)" for i by (simp add: memory_ledger_def)
  with s' show ?thesis unfolding swept_def [abs_def] by blast
qed

theorem closed_claims_are_swept_witness:
  "\<exists>s' :: mem_ledger. sweepClosedClaims (memory_ledger example_env cmp_of) 0 createMemoryLedger = Inr (0, s')"
  using closed_claims_are_swept [OF mem_inv_empty, of example_env cmp_of 0]
  by (auto simp: createMemoryLedger_def mem_listConsumers_def)

end
