(* ===== verification/JsInteger.thy ===== *)
theory JsInteger
  imports JsNumber JsString
begin

text \<open>Whole numbers below \<open>2 ^ 53\<close> are doubles, and \<^verbatim>\<open>Number\<close> reads them from their digits.\<close>

lemma fl_int:
  assumes "\<bar>n\<bar> < 2 ^ 53"
  shows "fl (of_int n) = of_int n"
proof (cases "n = 0")
  case False
  let ?x = "of_int n :: rat" and ?k = "ilog2 \<bar>of_int n\<bar>"
  have x: "0 < \<bar>?x\<bar>" using False by simp
  have "?k \<le> 52"
  proof (rule ccontr)
    assume "\<not> ?k \<le> 52"
    then have "(2 :: rat) powi 53 \<le> 2 powi ?k" by (intro power_int_increasing) auto
    also have "\<dots> \<le> \<bar>?x\<bar>" by (rule ilog2_bounds(1) [OF x])
    finally have "2 ^ 53 \<le> (of_int \<bar>n\<bar> :: rat)" by simp
    moreover have "(of_int \<bar>n\<bar> :: rat) < of_int (2 ^ 53)" using assms by (simp only: of_int_less_iff)
    ultimately show False by simp
  qed
  define e where "e = max (?k - 52) (- 1074)"
  have e: "e \<le> 0" using \<open>?k \<le> 52\<close> by (simp add: e_def)
  have p: "2 powi e * 2 powi (- e) = (1 :: rat)" by (simp flip: power_int_add)
  have "?x / 2 powi e = ?x * 2 powi (- e)" by (simp add: power_int_minus divide_inverse)
  also have "\<dots> = of_int (n * 2 ^ nat (- e))" using e by (simp add: power_int_def)
  finally have q: "?x / 2 powi e = of_int (n * 2 ^ nat (- e))" .
  have "fl ?x = of_int (round_even (?x / 2 powi e)) * 2 powi e"
    using False by (simp add: fl_def e_def Let_def)
  also have "\<dots> = ?x / 2 powi e * 2 powi e" unfolding q round_even_int ..
  finally show ?thesis by simp
qed simp

lemma ilog2_small: "n \<noteq> 0 \<Longrightarrow> \<bar>n\<bar> < 2 ^ 53 \<Longrightarrow> ilog2 \<bar>of_int n\<bar> < 1024"
proof (rule ccontr)
  assume n: "n \<noteq> 0" "\<bar>n\<bar> < 2 ^ 53" and "\<not> ilog2 \<bar>of_int n\<bar> < 1024"
  then have "(2 :: rat) powi 53 \<le> 2 powi ilog2 \<bar>of_int n\<bar>" by (intro power_int_increasing) auto
  also have "\<dots> \<le> \<bar>of_int n\<bar>" by (rule ilog2_bounds(1)) (use n(1) in simp)
  finally have "2 ^ 53 \<le> (of_int \<bar>n\<bar> :: rat)" by simp
  moreover have "(of_int \<bar>n\<bar> :: rat) < of_int (2 ^ 53)" using n(2) by (simp only: of_int_less_iff)
  ultimately show False by simp
qed

lemma to_double_int: "\<bar>n\<bar> < 2 ^ 53 \<Longrightarrow> to_double (of_int n) = Some (of_int n)"
  using ilog2_small [of n] by (auto simp: to_double_def fl_int Let_def)

lemma digits_not_space: "list_all is_digit s \<Longrightarrow> js_trim s = s"
proof -
  assume d: "list_all is_digit s"
  then have "dropWhile is_space s = s" "dropWhile is_space (rev s) = rev s"
    by (cases s, auto simp: is_digit_def is_space_def) (cases "rev s", auto simp: is_digit_def is_space_def list_all_iff dest!: arg_cong [of "rev s" _ set])
  then show ?thesis by (simp add: js_trim_def)
qed

lemma js_number_digits:
  assumes "s \<noteq> []" "list_all is_digit s" "digits_int s < 2 ^ 53"
  shows "js_number s = Some (of_int (digits_int s))"
proof -
  have all: "takeWhile is_digit s = s" "dropWhile is_digit s = []"
    using assms(2) by (auto simp: list_all_iff)
  have pos: "0 \<le> digits_int s" using digits_int_eq [OF assms(2)] by simp
  have u: "parse_unsigned s = Some (of_int (digits_int s))"
    using assms(1) by (simp add: parse_unsigned_def span_digits_def all)
  have t: "to_double (of_int (digits_int s)) = Some (of_int (digits_int s))"
    by (rule to_double_int) (use pos assms(3) in simp)
  obtain c r where s: "s = c # r" using assms(1) by (cases s) auto
  have c: "is_digit c" using assms(2) by (simp add: s)
  have no: "\<not> (c = 48 \<and> r \<noteq> [] \<and> prefix_base (hd r) \<noteq> None)"
    using assms(2) by (cases r) (auto simp: s prefix_base_def is_digit_def)
  have "js_number_trimmed s = to_double (of_int (digits_int s))"
    using c no u unfolding s by (auto simp: is_digit_def)
  then show ?thesis by (simp add: js_number_def digits_not_space [OF assms(2)] t)
qed

end
