(* ===== verification/SimplefinDates.thy ===== *)
theory SimplefinDates
  imports Archive IsoOrder JsInteger
begin

text \<open>
  \<^verbatim>\<open>src/simplefin/time.ts\<close>, \<^verbatim>\<open>transaction-date.ts\<close>, \<^verbatim>\<open>source-provenance.ts\<close> and \<^verbatim>\<open>orgs.ts\<close>: posted
  timestamps and windows, the date a transaction is shown under, and what identifies an institution.
  The lemmas show that a window bound picks exactly the calendar dates whose noon lies inside.
\<close>

record view_env =
  ve_hostname :: "jsstr \<Rightarrow> jsstr option"
  ve_cal :: "jsstr \<Rightarrow> jsstr \<Rightarrow> iso_day option"
  ve_isUuid :: "jsstr \<Rightarrow> bool"
  ve_lc :: "jsstr \<Rightarrow> jsstr \<Rightarrow> int"

section \<open>Posted timestamps and windows\<close>

text \<open>\<^verbatim>\<open>ToIntegerOrInfinity\<close> of a finite number.\<close>

definition to_integer :: "rat \<Rightarrow> int" where
  "to_integer r = (if r < 0 then - \<lfloor>- r\<rfloor> else \<lfloor>r\<rfloor>)"

text \<open>
  \<^verbatim>\<open>date.split('-').map(Number)\<close>: a component that is missing takes its default, one that is no number
  makes the result \<^verbatim>\<open>NaN\<close> (none).
\<close>

definition date_component :: "jsstr list \<Rightarrow> nat \<Rightarrow> rat \<Rightarrow> rat option" where
  "date_component parts n missing = (if n < length parts then js_number (parts ! n) else Some missing)"

definition postedEpoch :: "iso_day \<Rightarrow> int option" where
  "postedEpoch date =
     (let parts = split_on 45 date in
      case (date_component parts 0 1970, date_component parts 1 1, date_component parts 2 1) of
        (Some y, Some m, Some d) \<Rightarrow>
          map_option (\<lambda>t. t div 1000) (date_utc (to_integer y) (to_integer (m - 1)) (to_integer d) 12)
      | _ \<Rightarrow> None)"

definition dayIndexToDate :: "int \<Rightarrow> iso_day res" where
  "dayIndexToDate dayIndex = bindE (to_iso_string (time_clip (dayIndex * ms_per_day))) (\<lambda>s. Inr (take 10 s))"

text \<open>\<^verbatim>\<open>Math.ceil((epochSeconds - noonOffset) / secondsPerDay)\<close>.\<close>

definition windowStartDate :: "int \<Rightarrow> iso_day res" where
  "windowStartDate epochSeconds = dayIndexToDate (- ((43200 - epochSeconds) div 86400))"

definition windowEndDate :: "int \<Rightarrow> iso_day res" where
  "windowEndDate epochSeconds = windowStartDate epochSeconds"

text \<open>\<^verbatim>\<open>toEpochSeconds\<close> of a timestamp text and of a \<^verbatim>\<open>Date\<close>.\<close>

definition toEpochSeconds :: "iso_time \<Rightarrow> int option" where
  "toEpochSeconds value = map_option (\<lambda>ms. ms div 1000) (date_parse value)"

definition date_seconds :: "int \<Rightarrow> int option" where
  "date_seconds now = Some (now div 1000)"

section \<open>The date a transaction is shown under\<close>

datatype date_kind = KPurchase | KInstallmentOccurrence | KArchive

record transaction_date =
  td_date :: iso_day
  td_kind :: "date_kind option"
  td_chargeDate :: "iso_day option"

definition sourceDate :: "view_env \<Rightarrow> jsval \<Rightarrow> jsstr \<Rightarrow> iso_day option" where
  "sourceDate env v timezone =
     (case v of
        JStr s \<Rightarrow> if length s > 40 \<or> \<not> date_prefixed s then None
                  else (case toCalendarDate (ve_cal env) s timezone of Inl e \<Rightarrow> None | Inr d \<Rightarrow> Some d)
      | _ \<Rightarrow> None)"

definition transactionDate :: "view_env \<Rightarrow> ledger_tx \<Rightarrow> jsstr \<Rightarrow> bool \<Rightarrow> transaction_date" where
  "transactionDate env row timezone creditCard =
     (if \<not> creditCard \<or> tx_synthetic row
      then \<lparr>td_date = tx_bookedDate row, td_kind = None, td_chargeDate = tx_chargeDate row\<rparr>
      else
        let raw = js_object (tx_raw row);
            migration = js_object (js_prop raw ''archiveMigration'');
            chargeDate = orelse (sourceDate env (js_prop raw ''processedDate'') timezone)
              (if migration \<noteq> None
               then (if js_prop migration ''dateBasis'' = JStr (js ''source_processed_date'')
                     then sourceDate env (js_prop (js_object (js_prop migration ''sourceRecord'')) ''booked_date'') timezone
                     else None)
               else tx_chargeDate row)
        in case sourceDate env (js_prop raw ''date'') timezone of
             Some purchase \<Rightarrow>
               let installment = js_prop (js_object (js_prop raw ''installments'')) ''number'';
                   shifted = (tx_company row = js ''visaCal'' \<and> (case installment of JNum n \<Rightarrow> n > 1 | _ \<Rightarrow> False)) in
               \<lparr>td_date = purchase, td_kind = Some (if shifted then KInstallmentOccurrence else KPurchase), td_chargeDate = chargeDate\<rparr>
           | None \<Rightarrow>
               (case sourceDate env (js_prop migration ''purchaseOrEventDate'') timezone of
                  Some archived \<Rightarrow> \<lparr>td_date = archived, td_kind = Some KArchive, td_chargeDate = chargeDate\<rparr>
                | None \<Rightarrow> \<lparr>td_date = tx_bookedDate row, td_kind = None, td_chargeDate = chargeDate\<rparr>))"

section \<open>Provenance\<close>

text \<open>The origin and the identity of an archived row; the rest of the archive stays inside the ledger.\<close>

definition sourceProvenance :: "view_env \<Rightarrow> ledger_tx \<Rightarrow> (jsstr \<times> jsstr) option" where
  "sourceProvenance env row =
     (if tx_synthetic row then None
      else
        let migration = js_object (js_prop (js_object (tx_raw row)) ''archiveMigration'') in
        if migration = None \<or> \<not> is_origin (js_prop migration ''origin'') then None
        else case text_where (ve_isUuid env) (js_prop migration ''originRowId'') of
          None \<Rightarrow> None
        | Some originRowId \<Rightarrow>
            Some (if js_prop migration ''origin'' = JStr (js ''actual'') then js ''actual_archive'' else js ''sure_archive'',
                  to_lower originRowId))"

section \<open>Institutions\<close>

record org_info =
  org_display :: jsstr
  org_site :: jsstr

definition ORGS :: "(company_id \<times> org_info) list" where
  "ORGS =
    [(js ''hapoalim'', \<lparr>org_display = js ''Bank Hapoalim'', org_site = js ''https://www.bankhapoalim.co.il''\<rparr>),
     (js ''beinleumi'', \<lparr>org_display = js ''First International Bank (Beinleumi)'', org_site = js ''https://www.fibi.co.il''\<rparr>),
     (js ''union'', \<lparr>org_display = js ''Union Bank'', org_site = js ''https://www.unionbank.co.il''\<rparr>),
     (js ''amex'', \<lparr>org_display = js ''American Express Israel'', org_site = js ''https://www.americanexpress.co.il''\<rparr>),
     (js ''isracard'', \<lparr>org_display = js ''Isracard'', org_site = js ''https://www.isracard.co.il''\<rparr>),
     (js ''visaCal'', \<lparr>org_display = js ''Visa Cal'', org_site = js ''https://www.cal-online.co.il''\<rparr>),
     (js ''max'', \<lparr>org_display = js ''Max'', org_site = js ''https://www.max.co.il''\<rparr>),
     (js ''otsarHahayal'', \<lparr>org_display = js ''Bank Otsar Hahayal'', org_site = js ''https://www.bankotsar.co.il''\<rparr>),
     (js ''discount'', \<lparr>org_display = js ''Discount Bank'', org_site = js ''https://www.discountbank.co.il''\<rparr>),
     (js ''mercantile'', \<lparr>org_display = js ''Mercantile Bank'', org_site = js ''https://www.mercantile.co.il''\<rparr>),
     (js ''mizrahi'', \<lparr>org_display = js ''Mizrahi-Tefahot Bank'', org_site = js ''https://www.mizrahi-tefahot.co.il''\<rparr>),
     (js ''leumi'', \<lparr>org_display = js ''Bank Leumi'', org_site = js ''https://www.leumi.co.il''\<rparr>),
     (js ''massad'', \<lparr>org_display = js ''Bank Massad'', org_site = js ''https://www.bankmassad.co.il''\<rparr>),
     (js ''yahav'', \<lparr>org_display = js ''Bank Yahav'', org_site = js ''https://www.bank-yahav.co.il''\<rparr>),
     (js ''behatsdaa'', \<lparr>org_display = js ''Behatsdaa'', org_site = js ''https://www.behatsdaa.org.il''\<rparr>),
     (js ''beyahadBishvilha'', \<lparr>org_display = js ''Beyahad Bishvilha'', org_site = js ''https://www.hist.org.il''\<rparr>),
     (js ''oneZero'', \<lparr>org_display = js ''One Zero Digital Bank'', org_site = js ''https://www.onezerobank.com''\<rparr>),
     (js ''pagi'', \<lparr>org_display = js ''Bank Pagi'', org_site = js ''https://www.pagi.co.il''\<rparr>)]"

definition orgFor :: "company_id \<Rightarrow> org_info" where
  "orgFor company = default (map_of ORGS company)
     \<lparr>org_display = company, org_site = js ''https://github.com/eshaham/israeli-bank-scrapers''\<rparr>"

definition orgDomain :: "view_env \<Rightarrow> org_info \<Rightarrow> jsstr" where
  "orgDomain env info = default (ve_hostname env (org_site info)) (org_site info)"

section \<open>A window bound picks the dates whose noon is inside\<close>

lemma number_of_digits:
  "list_all is_digit [a, b] \<Longrightarrow> js_number [a, b] = Some (of_int (num2 a b))"
  "list_all is_digit [a, b, c, d] \<Longrightarrow> js_number [a, b, c, d] = Some (of_int (num4 a b c d))"
proof -
  have v: "digits_int [a, b] = num2 a b" "digits_int [a, b, c, d] = num4 a b c d" for a b c d
    by (simp_all add: digits_int_def num2_def num4_def)
  show "list_all is_digit [a, b] \<Longrightarrow> js_number [a, b] = Some (of_int (num2 a b))"
    by (subst js_number_digits) (auto simp: v num2_def is_digit_def)
  show "list_all is_digit [a, b, c, d] \<Longrightarrow> js_number [a, b, c, d] = Some (of_int (num4 a b c d))"
    by (subst js_number_digits) (auto simp: v num4_def num2_def is_digit_def)
qed

lemma split_date:
  assumes "date_of s c"
  shows "\<exists>y m d. split_on 45 s = [y, m, d] \<and> js_number y = Some (of_int (fst c)) \<and>
    js_number m = Some (of_int (fst (snd c))) \<and> js_number d = Some (of_int (snd (snd c)))"
proof -
  obtain y m d where c: "c = (int y, int m, int d)" and r: "y < 10000" "1 \<le> m" "m \<le> 12" "1 \<le> d" "d \<le> 31"
    and s: "s = [48 + y div 1000, 48 + y div 100 mod 10, 48 + y div 10 mod 10, 48 + y mod 10, 45,
          48 + m div 10, 48 + m mod 10, 45, 48 + d div 10, 48 + d mod 10]"
    using iso_date_units [OF assms] by metis
  have b: "y div 1000 < 10" "m div 10 < 10" "d div 10 < 10" using r by (auto simp: less_mult_imp_div_less)
  let ?y = "[48 + y div 1000, 48 + y div 100 mod 10, 48 + y div 10 mod 10, 48 + y mod 10]"
  let ?m = "[48 + m div 10, 48 + m mod 10]" and ?d = "[48 + d div 10, 48 + d mod 10]"
  have "split_on 45 (?y @ 45 # ?m @ 45 # ?d) = [?y, ?m, ?d]"
    using split_on_append [of 45 ?y "?m @ 45 # ?d"] split_on_append [of 45 ?m ?d] split_on_no_sep [of 45 ?d] by simp
  moreover have "js_number ?y = Some (of_int (int y))" "js_number ?m = Some (of_int (int m))" "js_number ?d = Some (of_int (int d))"
    using b by (subst number_of_digits; simp add: is_digit_48 num_of_digits)+
  ultimately show ?thesis by (simp add: s c)
qed

lemma postedEpoch_date:
  assumes "date_of s c" "100 \<le> fst c"
  shows "postedEpoch s = Some (day_of c * 86400 + 43200)"
proof -
  obtain y m d where c: "c = (y, m, d)" by (cases c)
  obtain ys ms ds where p: "split_on 45 s = [ys, ms, ds]" "js_number ys = Some (of_int y)" "js_number ms = Some (of_int m)"
    "js_number ds = Some (of_int d)" using split_date [OF assms(1)] by (auto simp: c)
  have v: "1 \<le> m" "1 \<le> d" using assms(1) by (auto simp: date_of_def c valid_date_def)
  have i: "to_integer (of_int k) = k" for k by (simp add: to_integer_def floor_minus)
  have m1: "to_integer (of_int m - 1) = m - 1" using i [of "m - 1"] by simp
  have "\<bar>day_of c * 86400000 + 43200000\<bar> \<le> 8640000000000000"
    using day_of_range [OF assms(1)] by linarith
  moreover have "(day_of c * 86400000 + 43200000) div 1000 = day_of c * 86400 + 43200"
    by (rule int_div_pos_eq [of _ _ _ 0]) simp_all
  ultimately show ?thesis
    using assms(2) by (simp add: postedEpoch_def Let_def p date_component_def i m1 c day_of_def date_utc_def time_clip_def ms_per_day_def)
qed

lemma windowStartDate_day:
  assumes "0 \<le> e" "e \<le> 253402257600"
  defines "n \<equiv> - ((43200 - e) div 86400)"
  shows "windowStartDate e = Inr (iso_date (civil n))" "date_of (iso_date (civil n)) (civil n)"
proof -
  have n: "0 \<le> n" "n < 2932897" using assms(1,2) div_bounds [of 86400 "43200 - e"] unfolding n_def by linarith+
  have t: "ok_time (n * ms_per_day)" using n by (simp add: ok_time_def ms_per_day_def)
  have "time_clip (n * ms_per_day) = Some (n * ms_per_day)" using n by (simp add: time_clip_def ms_per_day_def)
  then show "windowStartDate e = Inr (iso_date (civil n))"
    using iso_of_time_take10 [OF t] by (simp add: windowStartDate_def dayIndexToDate_def to_iso_string_def n_def [symmetric] ms_per_day_def)
  show "date_of (iso_date (civil n)) (civil n)" by (rule date_of_civil) (use n in simp_all)
qed

lemma window_exact:
  assumes "date_of s c" "100 \<le> fst c" "0 \<le> e" "e \<le> 253402257600"
  shows "\<exists>f p. windowStartDate e = Inr f \<and> postedEpoch s = Some p \<and> (f \<le> s \<longleftrightarrow> e \<le> p)"
proof -
  let ?n = "- ((43200 - e) div 86400)"
  have "iso_date (civil ?n) \<le> s \<longleftrightarrow> ?n \<le> day_of c"
    using date_of_le [OF windowStartDate_day(2) [OF assms(3,4)] assms(1)] by simp
  also have "\<dots> \<longleftrightarrow> e \<le> day_of c * 86400 + 43200"
    using div_bounds [of 86400 "43200 - e"] by linarith
  finally show ?thesis using windowStartDate_day(1) [OF assms(3,4)] postedEpoch_date [OF assms(1,2)] by blast
qed

text \<open>
  A window bound is exact. For every bound the query parser accepts, a calendar date is on or after
  the first date of the window exactly when its posted timestamp is at or after the bound; the same
  date, as exclusive end, leaves out exactly the dates posted at or after the bound.
\<close>

theorem window_bound_exact:
  assumes "date_of s c" "100 \<le> fst c" "0 \<le> e" "e \<le> 253402257600"
  shows "\<exists>f p. windowStartDate e = Inr f \<and> windowEndDate e = Inr f \<and> postedEpoch s = Some p \<and>
    (f \<le> s \<longleftrightarrow> e \<le> p) \<and> (s < f \<longleftrightarrow> p < e)"
  using window_exact [OF assms] by (auto simp: windowEndDate_def not_le [symmetric])

theorem window_bound_exact_witness:
  "\<exists>f p. windowStartDate 1709200000 = Inr f \<and> postedEpoch (js ''2024-02-29'') = Some p \<and> (f \<le> js ''2024-02-29'' \<longleftrightarrow> 1709200000 \<le> p)"
proof -
  have "iso_date (2024, 2, 29) = js ''2024-02-29''"
    using iso_date_pads [of 2024 2 29] pad4_digits [of 2024] pad2_digits [of 2] pad2_digits [of 29] by simp
  moreover have "valid_date 2024 2 29" by (simp add: valid_date_def month_start_def leap_def)
  ultimately have "date_of (js ''2024-02-29'') (2024, 2, 29)" by (simp add: date_of_def)
  from window_bound_exact [OF this, of 1709200000] show ?thesis by auto
qed

end
