(* ===== verification/SimplefinPayload.thy ===== *)
theory SimplefinPayload
  imports SimplefinDates LedgerContract
begin

text \<open>
  \<^verbatim>\<open>src/simplefin/payload.ts\<close>: the query of \<^verbatim>\<open>GET /simplefin/accounts\<close> and the response. The functions
  read any ledger. \<^verbatim>\<open>compact\<close> drops undefined properties, which are absent options or absent pairs
  here. Log calls are left out.
\<close>

section \<open>Messages and bounds\<close>

definition MSG_PARKED :: jsstr where
  "MSG_PARKED = js ''This bank connection is paused on the bridge and needs operator attention.''"

definition MSG_STALE :: jsstr where
  "MSG_STALE = js ''Bank data on the bridge is stale; the last successful refresh is older than expected.''"

definition MSG_BALANCE :: jsstr where
  "MSG_BALANCE = js ''The bank did not report a balance for this account; 0.00 is shown.''"

definition maxNameLength :: nat where
  "maxNameLength = 255"

definition maxDescriptionLength :: nat where
  "maxDescriptionLength = 500"

definition maxEpochSeconds :: rat where
  "maxEpochSeconds = 253402257600"

section \<open>Query parsing\<close>

text \<open>The decoded query string is a list of names and values; \<^verbatim>\<open>get\<close> is the first value of a name.\<close>

definition parseEpoch :: "jsstr option \<Rightarrow> int option" where
  "parseEpoch v =
     (case v of
        None \<Rightarrow> None
      | Some s \<Rightarrow>
          if js_trim s = [] then None
          else (case js_number s of
             None \<Rightarrow> None
           | Some n \<Rightarrow> if n \<ge> 0 \<and> n \<le> maxEpochSeconds then Some \<lfloor>n\<rfloor> else None))"

definition isTruthyFlag :: "jsstr option \<Rightarrow> bool" where
  "isTruthyFlag v =
     (case v of None \<Rightarrow> False
      | Some s \<Rightarrow> to_lower (js_trim s) \<in> {js ''1'', js ''true'', js ''yes''})"

definition parseAccountsQuery :: "(jsstr \<times> jsstr) list \<Rightarrow> accounts_query" where
  "parseAccountsQuery params =
     (let accountIds = filter (\<lambda>i. i \<noteq> []) (map (\<lambda>(k, v). js_trim v) (filter (\<lambda>(k, v). k = js ''account'') params))
      in \<lparr>aq_version = truthy_text (map_option js_trim (map_of params (js ''version''))),
          aq_startDate = parseEpoch (map_of params (js ''start-date'')),
          aq_endDate = parseEpoch (map_of params (js ''end-date'')),
          aq_pending = isTruthyFlag (map_of params (js ''pending'')),
          aq_balancesOnly = isTruthyFlag (map_of params (js ''balances-only'')),
          aq_accountIds = (if accountIds \<noteq> [] then Some accountIds else None)\<rparr>)"

definition opt_date :: "(int \<Rightarrow> iso_day res) \<Rightarrow> int option \<Rightarrow> iso_day option res" where
  "opt_date f v = (case v of None \<Rightarrow> Inr None | Some e \<Rightarrow> bindE (f e) (\<lambda>d. Inr (Some d)))"

definition windowDates :: "accounts_query \<Rightarrow> (iso_day option \<times> iso_day option) option res" where
  "windowDates q =
     (if aq_startDate q = None \<and> aq_endDate q = None then Inr None
      else bindE (opt_date windowStartDate (aq_startDate q)) (\<lambda>lo.
           bindE (opt_date windowEndDate (aq_endDate q)) (\<lambda>hi. Inr (Some (lo, hi)))))"

section \<open>Formatting\<close>

definition formatAmount :: "rat \<Rightarrow> jsstr" where
  "formatAmount v = (let f = to_fixed2 v in if f = js ''-0.00'' then js ''0.00'' else f)"

definition formatOptionalNumber :: "rat option \<Rightarrow> jsstr option" where
  "formatOptionalNumber v = map_option num_to_string v"

definition normalizeCurrency :: "jsstr \<Rightarrow> jsstr \<Rightarrow> jsstr" where
  "normalizeCurrency v fallback =
     (let trimmed = to_upper (js_trim v) in
      if length trimmed = 3 \<and> list_all is_upper trimmed then trimmed else fallback)"

definition truncate_text :: "jsstr \<Rightarrow> nat \<Rightarrow> jsstr" where
  "truncate_text v limit = (let trimmed = js_trim v in if length trimmed > limit then take limit trimmed else trimmed)"

definition or_text :: "jsstr \<Rightarrow> jsstr \<Rightarrow> jsstr" where
  "or_text a b = (if a = [] then b else a)"

definition compact :: "(jsstr \<times> jsval) list \<Rightarrow> (jsstr \<times> jsval) list" where
  "compact ps = filter (\<lambda>(k, v). v \<noteq> JUndef) ps"

section \<open>Rows\<close>

definition sfinUrl :: "config \<Rightarrow> jsstr" where
  "sfinUrl cfg = srv_publicUrl (cfg_server cfg) @ js ''/simplefin''"

definition connectionFor :: "company_id \<Rightarrow> company_config \<Rightarrow> config \<Rightarrow> simplefin_connection" where
  "connectionFor company cc cfg =
     (let info = orgFor company in
      \<lparr>conn_id = company, conn_name = truncate_text (or_text (co_label cc) (org_display info)) maxNameLength,
       conn_org_id = company, conn_org_url = org_site info, conn_sfin_url = sfinUrl cfg\<rparr>)"

definition orgObjectFor :: "view_env \<Rightarrow> company_id \<Rightarrow> company_config \<Rightarrow> config \<Rightarrow> simplefin_org" where
  "orgObjectFor env company cc cfg =
     (let info = orgFor company in
      \<lparr>org_id = company, org_name = truncate_text (or_text (co_label cc) (org_display info)) maxNameLength,
       org_domain = orgDomain env info, org_url = org_site info, org_sfinUrl = sfinUrl cfg\<rparr>)"

definition kind_label :: "date_kind \<Rightarrow> jsstr" where
  "kind_label k = (case k of KPurchase \<Rightarrow> js ''purchase'' | KInstallmentOccurrence \<Rightarrow> js ''installment_occurrence''
     | KArchive \<Rightarrow> js ''archive_purchase_or_occurrence'')"

definition provenance_value :: "(jsstr \<times> jsstr) option \<Rightarrow> jsval" where
  "provenance_value p = (case p of None \<Rightarrow> JUndef
     | Some (origin, i) \<Rightarrow> JObj [(js ''origin'', JStr origin), (js ''source_record_id'', JStr i)])"

definition toSimpleFinTransaction :: "view_env \<Rightarrow> ledger_tx \<Rightarrow> jsstr \<Rightarrow> transaction_date option \<Rightarrow> simplefin_transaction" where
  "toSimpleFinTransaction env row accountCurrency occurrence =
     (let pending = (tx_status row = Pending);
          bookedEpoch = postedEpoch (default (map_option td_date occurrence) (tx_bookedDate row));
          description = or_text (truncate_text (tx_description row) maxDescriptionLength) (js ''Transaction'');
          kind = Option.bind occurrence td_kind;
          installment = (case tx_installmentNumber row of None \<Rightarrow> JUndef
            | Some n \<Rightarrow> JObj [(js ''number'', JNum n), (js ''total'', opt_num (tx_installmentTotal row))])
      in \<lparr>sf_id = tx_id row,
          sf_posted = (if pending then Some 0 else bookedEpoch),
          sf_transacted_at = bookedEpoch,
          sf_amount = formatAmount (tx_amount row),
          sf_description = description,
          sf_payee = description,
          sf_memo = truthy_text (map_option js_trim (tx_memo row)),
          sf_pending = pending,
          sf_currency = normalizeCurrency (tx_currency row) accountCurrency,
          sf_extra = compact
            [(js ''identifier'', opt_text (tx_identifier row)),
             (js ''charge_date'', opt_text (case occurrence of Some o' \<Rightarrow> td_chargeDate o' | None \<Rightarrow> tx_chargeDate row)),
             (js ''transaction_date'', opt_text (if kind = None then None else map_option td_date occurrence)),
             (js ''transaction_date_kind'', opt_text (map_option kind_label kind)),
             (js ''source_provenance'', provenance_value (sourceProvenance env row)),
             (js ''installment'', installment),
             (js ''original_amount'', opt_text (formatOptionalNumber (tx_originalAmount row))),
             (js ''original_currency'', opt_text (tx_originalCurrency row)),
             (js ''category'', opt_text (tx_category row)),
             (js ''status'', JStr (status_text (tx_status row))),
             (js ''synthetic'', if tx_synthetic row then JBool True else JUndef)]\<rparr>)"

definition toSimpleFinHolding :: "ledger_holding \<Rightarrow> jsstr \<Rightarrow> simplefin_holding" where
  "toSimpleFinHolding row accountCurrency =
     \<lparr>sfh_id = hold_id row,
      sfh_market_value = formatAmount (hold_marketValue row),
      sfh_description = or_text (or_text (hold_description row) (default (hold_symbol row) [])) (hold_id row),
      sfh_symbol = hold_symbol row,
      sfh_currency = normalizeCurrency (hold_currency row) accountCurrency,
      sfh_shares = formatOptionalNumber (hold_shares row),
      sfh_purchase_price = formatOptionalNumber (hold_purchasePrice row),
      sfh_cost_basis = formatOptionalNumber (hold_costBasis row)\<rparr>"

section \<open>Which transactions are served\<close>

text \<open>\<^verbatim>\<open>Date.parse(value) / 1000\<close> compared with a bound: on milliseconds. \<^verbatim>\<open>NaN\<close> fails every test.\<close>

definition firstSeenInWindow :: "ledger_tx \<Rightarrow> accounts_query \<Rightarrow> bool" where
  "firstSeenInWindow row q =
     list_ex (\<lambda>v. case Option.bind v date_parse of
         None \<Rightarrow> False
       | Some seen \<Rightarrow>
           (case aq_startDate q of None \<Rightarrow> False | Some a \<Rightarrow> a * 1000 \<le> seen) \<and>
           (case aq_endDate q of None \<Rightarrow> True | Some b \<Rightarrow> seen < b * 1000))
       [Some (tx_firstSeen row), tx_postedSeenAt row]"

definition time_ge :: "int option \<Rightarrow> int option \<Rightarrow> bool" where
  "time_ge a b = (case (a, b) of (Some x, Some y) \<Rightarrow> y \<le> x | _ \<Rightarrow> False)"

definition isCurrentPending :: "ledger_tx \<Rightarrow> ledger_account \<Rightarrow> bool" where
  "isCurrentPending row account \<longleftrightarrow>
     tx_status row \<noteq> Pending \<or> time_ge (date_parse (tx_lastSeen row)) (date_parse (acc_lastSeen account))"

definition in_window :: "iso_day option \<Rightarrow> iso_day option \<Rightarrow> accounts_query \<Rightarrow> ledger_tx \<Rightarrow> iso_day \<Rightarrow> bool" where
  "in_window lo hi q row d \<longleftrightarrow>
     (case hi of None \<Rightarrow> True | Some t \<Rightarrow> d < t) \<and>
     (case lo of None \<Rightarrow> True | Some f \<Rightarrow> f \<le> d \<or> firstSeenInWindow row q)"

definition transactionsFor ::
  "view_env \<Rightarrow> 'l ledger_ops \<Rightarrow> config \<Rightarrow> accounts_query \<Rightarrow> ledger_account \<Rightarrow> jsstr \<Rightarrow> company_config \<Rightarrow> 'l \<Rightarrow>
   simplefin_transaction list res" where
  "transactionsFor env L cfg q account currency cc s =
     bindE (windowDates q) (\<lambda>window.
     case window of
       None \<Rightarrow> Inr []
     | Some (lo, hi) \<Rightarrow>
         if aq_balancesOnly q then Inr []
         else
           let rows = listTransactions L \<lparr>q_accountIds = Some [acc_id account], q_from = None, q_to = None,
                 q_includePending = aq_pending q \<and> co_includePending cc, q_includeSynthetic = True\<rparr> s;
               dated = map (\<lambda>row. (row, transactionDate env row (cfg_timezone cfg) (acc_kind account = CreditCard)))
                 (filter (\<lambda>row. isCurrentPending row account) rows);
               kept = filter (\<lambda>(row, occurrence). in_window lo hi q row (td_date occurrence)) dated
           in Inr (map (\<lambda>(row, occurrence). toSimpleFinTransaction env row currency (Some occurrence))
                (sort_by (\<lambda>a b. cmp_then (ve_lc env (td_date (snd a)) (td_date (snd b))) (ve_lc env (tx_id (fst a)) (tx_id (fst b)))) kept)))"

definition balanceSemantics :: "ledger_account \<Rightarrow> jsstr option" where
  "balanceSemantics account =
     (if acc_company account = js ''visaCal'' \<and> acc_kind account = CreditCard then Some (js ''next_statement_debit'')
      else if acc_company account = js ''hapoalim'' \<and> acc_kind account = Checking then Some (js ''balance'')
      else None)"

definition kind_name :: "account_kind \<Rightarrow> jsstr" where
  "kind_name k = (case k of Checking \<Rightarrow> js ''checking'' | CreditCard \<Rightarrow> js ''credit_card''
     | Savings \<Rightarrow> js ''savings'' | Investment \<Rightarrow> js ''investment'')"

text \<open>The account, and what it adds to the error list.\<close>

definition toSimpleFinAccount ::
  "view_env \<Rightarrow> 'l ledger_ops \<Rightarrow> config \<Rightarrow> accounts_query \<Rightarrow> int \<Rightarrow> company_config \<Rightarrow> ledger_account \<Rightarrow> 'l \<Rightarrow>
   (simplefin_account \<times> simplefin_error list) res" where
  "toSimpleFinAccount env L cfg q now cc account s =
     (let currency = normalizeCurrency (acc_currency account) (cfg_currency cfg);
          nameSuffix = (if acc_balance account = None then js '' (balance unavailable)'' else []);
          name = truncate_text (or_text (js_trim (acc_name account)) (acc_id account)) (maxNameLength - length nameSuffix);
          errs = (if acc_balance account = None
            then [\<lparr>err_code = js ''act.balance_unavailable'', err_msg = MSG_BALANCE, err_conn_id = None, err_account_id = Some (acc_id account)\<rparr>]
            else [])
      in bindE (transactionsFor env L cfg q account currency cc s) (\<lambda>transactions.
         Inr (\<lparr>sfa_id = acc_id account, sfa_name = name @ nameSuffix, sfa_conn_id = acc_company account,
               sfa_org = orgObjectFor env (acc_company account) cc cfg, sfa_currency = currency,
               sfa_balance = formatAmount (default (acc_balance account) 0),
               sfa_balance_date = (case acc_balanceAt account of Some t \<Rightarrow> toEpochSeconds t | None \<Rightarrow> date_seconds now),
               sfa_transactions = transactions,
               sfa_holdings = map (\<lambda>row. toSimpleFinHolding row currency) (listHoldings L (Some (acc_id account)) s),
               sfa_extra = compact
                 [(js ''kind'', JStr (kind_name (acc_kind account))), (js ''company'', JStr (acc_company account)),
                  (js ''accountNumber'', JStr (acc_accountNumber account)),
                  (js ''balance_semantics'', opt_text (balanceSemantics account))]\<rparr>, errs)))"

section \<open>Errors of a company\<close>

definition isStale :: "source_state option \<Rightarrow> config \<Rightarrow> int \<Rightarrow> bool" where
  "isStale state cfg now =
     (case Option.bind state (\<lambda>st. truthy_text (st_lastSuccessAt st)) of
        None \<Rightarrow> True
      | Some t \<Rightarrow> (case date_parse t of None \<Rightarrow> False | Some ms \<Rightarrow> now - ms > cfg_staleHours cfg * 3600000))"

definition companyErrors ::
  "'l ledger_ops \<Rightarrow> config \<Rightarrow> int \<Rightarrow> company_id \<Rightarrow> ledger_account list \<Rightarrow> 'l \<Rightarrow> simplefin_error list" where
  "companyErrors L cfg now company accounts s =
     (let state = getSourceState L company s in
      if (case state of Some st \<Rightarrow> st_parked st | None \<Rightarrow> False)
      then [\<lparr>err_code = js ''con.failed'', err_msg = MSG_PARKED, err_conn_id = Some company, err_account_id = None\<rparr>]
      else if isStale state cfg now
      then map (\<lambda>a. \<lparr>err_code = js ''act.failed'', err_msg = MSG_STALE, err_conn_id = Some company, err_account_id = Some (acc_id a)\<rparr>) accounts
      else [])"

section \<open>The response\<close>

definition enabledCompanies :: "config \<Rightarrow> (company_id \<times> company_config) list" where
  "enabledCompanies cfg =
     List.map_filter (\<lambda>(company, cc). case cc of Some c \<Rightarrow> if co_enabled c then Some (company, c) else None | None \<Rightarrow> None)
       (cfg_companies cfg)"

type_synonym payload_state = "simplefin_error list \<times> simplefin_connection list \<times> simplefin_account list"

definition account_step ::
  "view_env \<Rightarrow> 'l ledger_ops \<Rightarrow> config \<Rightarrow> accounts_query \<Rightarrow> int \<Rightarrow> company_config \<Rightarrow> 'l \<Rightarrow> ledger_account \<Rightarrow> payload_state \<Rightarrow>
   payload_state res" where
  "account_step env L cfg q now cc s account st =
     (case st of (errlist, connections, accounts) \<Rightarrow>
        bindE (toSimpleFinAccount env L cfg q now cc account s) (\<lambda>(a, errs). Inr (errlist @ errs, connections, accounts @ [a])))"

definition wanted_accounts :: "'l ledger_ops \<Rightarrow> accounts_query \<Rightarrow> company_id \<Rightarrow> 'l \<Rightarrow> ledger_account list" where
  "wanted_accounts L q company s =
     filter (\<lambda>a. case aq_accountIds q of None \<Rightarrow> True | Some ids \<Rightarrow> acc_id a \<in> set ids) (listAccounts L (Some company) s)"

definition company_step ::
  "view_env \<Rightarrow> 'l ledger_ops \<Rightarrow> config \<Rightarrow> accounts_query \<Rightarrow> int \<Rightarrow> 'l \<Rightarrow> company_id \<times> company_config \<Rightarrow> payload_state \<Rightarrow>
   payload_state res" where
  "company_step env L cfg q now s entry st =
     (case entry of (company, cc) \<Rightarrow>
      case st of (errlist, connections, accounts) \<Rightarrow>
        let selected = wanted_accounts L q company s in
        foldE (account_step env L cfg q now cc s) selected
          (errlist @ companyErrors L cfg now company selected s, connections @ [connectionFor company cc cfg], accounts))"

definition buildAccountsResponse ::
  "view_env \<Rightarrow> 'l ledger_ops \<Rightarrow> config \<Rightarrow> accounts_query \<Rightarrow> int \<Rightarrow> 'l \<Rightarrow> simplefin_response res" where
  "buildAccountsResponse env L cfg q now s =
     bindE (foldE (company_step env L cfg q now s) (enabledCompanies cfg) ([], [], [])) (\<lambda>(errlist, connections, accounts).
       Inr \<lparr>resp_errlist = errlist, resp_errors = map err_msg errlist, resp_connections = connections, resp_accounts = accounts\<rparr>)"

end
