(* ===== verification/Health.thy ===== *)
theory Health
  imports SimplefinPayload
begin

text \<open>\<^verbatim>\<open>src/health.ts\<close>: the health report, from the same source states the payload reads.\<close>

definition withinHours :: "iso_time option \<Rightarrow> int \<Rightarrow> int \<Rightarrow> bool" where
  "withinHours timestamp hours now =
     (case timestamp of None \<Rightarrow> False
      | Some t \<Rightarrow> (case date_parse t of None \<Rightarrow> False | Some ms \<Rightarrow> now - ms \<le> hours * 3600000))"

definition companyHealth ::
  "'l ledger_ops \<Rightarrow> config \<Rightarrow> int \<Rightarrow> 'l \<Rightarrow> company_id \<Rightarrow> company_config \<Rightarrow> source_state option \<Rightarrow> company_health" where
  "companyHealth L cfg now s company cc state =
     (let parked = (case state of Some st \<Rightarrow> st_parked st | None \<Rightarrow> False) in
      \<lparr>ch_company = company, ch_enabled = co_enabled cc,
       ch_healthy = (co_enabled cc \<and> \<not> parked \<and> withinHours (Option.bind state st_lastSuccessAt) (cfg_staleHours cfg) now),
       ch_parked = parked, ch_lastSuccessAt = Option.bind state st_lastSuccessAt,
       ch_lastErrorType = Option.bind state st_lastErrorType, ch_staleHours = cfg_staleHours cfg,
       ch_accounts = length (listAccounts L (Some company) s)\<rparr>)"

definition consumerHealth :: "consumer \<Rightarrow> consumer_health" where
  "consumerHealth c = \<lparr>cnh_label = con_label c, cnh_lastSeenAt = con_lastSeenAt c, cnh_claimed = (con_claimCount c > 0)\<rparr>"

text \<open>\<^verbatim>\<open>Number(undefined)\<close> is \<^verbatim>\<open>NaN\<close>, which is no safe integer.\<close>

definition stored_scheme :: "jsstr option \<Rightarrow> int" where
  "stored_scheme v = (case Option.bind v js_number of
       Some n \<Rightarrow> if is_safe_integer n then \<lfloor>n\<rfloor> else ID_SCHEME_VERSION
     | None \<Rightarrow> ID_SCHEME_VERSION)"

definition configured :: "config \<Rightarrow> (company_id \<times> company_config) list" where
  "configured cfg = List.map_filter (\<lambda>(company, cc). map_option (\<lambda>c. (company, c)) cc) (cfg_companies cfg)"

definition buildHealthReport :: "'l ledger_ops \<Rightarrow> config \<Rightarrow> int \<Rightarrow> 'l \<Rightarrow> health_report" where
  "buildHealthReport L cfg now s =
     (let companies = map (\<lambda>(company, cc). companyHealth L cfg now s company cc (getSourceState L company s)) (configured cfg);
          enabled = filter ch_enabled companies;
          consumers = map consumerHealth (filter (\<lambda>c. truthy_text (con_revokedAt c) = None) (listConsumers L s))
      in \<lparr>hr_ok = (enabled \<noteq> [] \<and> list_all ch_healthy enabled), hr_checkedAt = iso_of_time now,
          hr_companies = companies, hr_consumers = consumers,
          hr_idSchemeVersion = stored_scheme (getMeta L (js ''id_scheme_version'') s)\<rparr>)"

end
