(* ===== verification/SimplefinProofs.thy ===== *)
theory SimplefinProofs
  imports Health MemoryLedger Examples
begin

text \<open>
  What a SimpleFIN client may rely on: the shape of a response, which transactions a window returns, how
  an amount prints, and that a bridge that reports itself healthy serves no error but unknown balances.
\<close>

section \<open>Amounts\<close>

lemma cents_close:
  assumes "\<bar>c\<bar> < 2 ^ 52"
  shows "\<lfloor>\<bar>fl (of_int c / 100)\<bar> * 100 + 1 / 2\<rfloor> = \<bar>c\<bar>"
proof -
  let ?x = "fl (of_int c / 100)"
  have e: "\<bar>?x - of_int c / 100\<bar> < 1 / 200" by (rule fl_cents_error [OF assms])
  have "\<bar>\<bar>?x\<bar> - \<bar>of_int c / 100\<bar>\<bar> \<le> \<bar>?x - of_int c / 100\<bar>" by (rule abs_triangle_ineq3)
  with e have "\<bar>\<bar>?x\<bar> - of_int \<bar>c\<bar> / 100\<bar> < 1 / 200" by (simp add: abs_divide)
  then have "of_int \<bar>c\<bar> \<le> \<bar>?x\<bar> * 100 + 1 / 2" "\<bar>?x\<bar> * 100 + 1 / 2 < of_int \<bar>c\<bar> + 1"
    unfolding abs_less_iff by linarith+
  then show ?thesis by (intro floor_unique) simp_all
qed

lemma cents_sign:
  assumes "\<bar>c\<bar> < 2 ^ 52"
  shows "fl (of_int c / 100) < 0 \<longleftrightarrow> c < 0"
proof -
  have e: "\<bar>fl (of_int c / 100) - of_int c / 100\<bar> < 1 / 200" by (rule fl_cents_error [OF assms])
  show ?thesis
  proof (cases "c = 0")
    case False
    then have "of_int c / 100 \<le> (- 1 / 100 :: rat) \<or> 1 / 100 \<le> (of_int c / 100 :: rat)" by (cases "c < 0") (auto simp: field_simps)
    moreover have "of_int c / 100 < (0 :: rat) \<longleftrightarrow> c < 0" by (simp add: divide_less_0_iff)
    ultimately show ?thesis using e unfolding abs_less_iff by linarith
  qed simp
qed

lemma two_decimals_nat: "two_decimals (int n) = nat_str (n div 100) @ [46, 48 + n div 10 mod 10, 48 + n mod 10]"
proof (cases "n < 100")
  case True
  then have "pad_start 3 48 (nat_str n) = [48, 48 + n div 10, 48 + n mod 10]"
    using nat_str_rec [of n] nat_str_rec [of "n div 10"] by (auto simp: pad_start_def numeral_2_eq_2)
  moreover have "nat_str (n div 100) = [48]" using True nat_str_rec [of 0] by simp
  moreover have "n div 10 mod 10 = n div 10" using True by (simp add: less_mult_imp_div_less)
  ultimately show ?thesis by (simp add: two_decimals_def Let_def nat_str_def [symmetric])
next
  case False
  have "nat_str n = nat_str (n div 100) @ [48 + n div 10 mod 10, 48 + n mod 10]"
    using False nat_str_rec [of n] nat_str_rec [of "n div 10"] by (auto simp flip: div_mult2_eq)
  moreover have "0 < length (nat_str (n div 100))" by simp
  ultimately have "pad_start 3 48 (nat_str n) = nat_str (n div 100) @ [48 + n div 10 mod 10, 48 + n mod 10]"
    by (simp add: pad_start_def Suc_le_eq)
  then show ?thesis by (simp add: two_decimals_def Let_def nat_str_def [symmetric])
qed

lemma cents_print:
  assumes "\<bar>c\<bar> < 2 ^ 52"
  defines "n \<equiv> nat \<bar>c\<bar>"
  shows "formatAmount (fl (of_int c / 100)) =
    (if c < 0 then [45] else []) @ nat_str (n div 100) @ [46, 48 + n div 10 mod 10, 48 + n mod 10]"
proof -
  have n: "int n = \<bar>c\<bar>" by (simp add: n_def)
  have e: "\<bar>fl (of_int c / 100) - of_int c / 100\<bar> < 1 / 200" by (rule fl_cents_error [OF assms(1)])
  have "\<bar>fl (of_int c / 100)\<bar> < 10 ^ 21"
  proof -
    have "\<bar>of_int c\<bar> < (2 ^ 52 :: rat)" using assms(1) by (metis of_int_abs of_int_less_iff of_int_numeral of_int_power)
    then have "\<bar>of_int c / 100\<bar> < (2 ^ 52 :: rat)" by (simp add: abs_divide)
    with e have "\<bar>fl (of_int c / 100)\<bar> < 2 ^ 52 + 1" unfolding abs_less_iff by linarith
    then show ?thesis by (rule less_trans) simp
  qed
  then have "\<not> 10 ^ 21 \<le> \<bar>fl (of_int c / 100)\<bar>" by (simp only: not_le)
  then have f: "to_fixed2 (fl (of_int c / 100)) =
      (if c < 0 then [45] else []) @ nat_str (n div 100) @ [46, 48 + n div 10 mod 10, 48 + n mod 10]"
    unfolding to_fixed2_def Let_def cents_close [OF assms(1)] cents_sign [OF assms(1)] n [symmetric] two_decimals_nat
    by (simp only: if_False split: if_split) simp
  have "(if c < 0 then [45] else []) @ nat_str (n div 100) @ [46, 48 + n div 10 mod 10, 48 + n mod 10] \<noteq> js ''-0.00''"
  proof
    assume a: "(if c < 0 then [45] else []) @ nat_str (n div 100) @ [46, 48 + n div 10 mod 10, 48 + n mod 10] = js ''-0.00''"
    show False
    proof (cases "c < 0")
      case True
      with a have "nat_str (n div 100) @ [46, 48 + n div 10 mod 10, 48 + n mod 10] = [48, 46, 48, 48]" by simp
      then have z: "n div 100 = 0" "n div 10 mod 10 = 0" "n mod 10 = 0"
        using nat_str_inject [of "n div 100" 0] nat_str_rec [of 0] by (simp_all add: append_eq_Cons_conv)
      with mod_digits(2) [of n] have "n = 0" by simp
      with True n show False by simp
    next
      case False
      have "hd (nat_str (n div 100)) \<noteq> 45"
        using nat_str_digits [of "hd (nat_str (n div 100))" "n div 100"] by (auto simp: is_digit_def)
      with a False show False by (cases "nat_str (n div 100)") auto
    qed
  qed
  then show ?thesis unfolding formatAmount_def f Let_def by simp
qed

lemma small_prints_zero:
  assumes "\<bar>v\<bar> < 1 / 200"
  shows "formatAmount v = js ''0.00''"
proof -
  have cents: "\<lfloor>\<bar>v\<bar> * 100 + 1 / 2\<rfloor> = 0"
    using assms by (intro floor_unique) (simp_all add: abs_less_iff)
  have zero: "two_decimals 0 = js ''0.00''"
    using two_decimals_nat [of 0] nat_str_rec [of 0] by simp
  have small: "\<not> 10 ^ 21 \<le> \<bar>v\<bar>"
    using assms by (simp add: not_le)
  have "to_fixed2 v = (if v < 0 then js ''-0.00'' else js ''0.00'')"
    unfolding to_fixed2_def Let_def if_not_P [OF small] cents zero by simp
  then show ?thesis by (simp add: formatAmount_def)
qed

text \<open>
  C13: an amount prints its cents. The double nearest to a whole number of cents below \<open>2 ^ 52\<close> is served as exactly
  this number of cents, with two decimals and a sign only for amounts below zero; an amount below half a cent is served
  as zero without a sign, and no amount at all as minus zero.
\<close>

theorem amount_prints_cents:
  assumes "\<bar>c\<bar> < 2 ^ 52" "\<bar>v\<bar> < 1 / 200"
  defines "n \<equiv> nat \<bar>c\<bar>"
  shows "formatAmount (fl (of_int c / 100)) =
      (if c < 0 then [45] else []) @ nat_str (n div 100) @ [46, 48 + n div 10 mod 10, 48 + n mod 10] \<and>
    formatAmount v = js ''0.00'' \<and> formatAmount w \<noteq> js ''-0.00''"
proof -
  have "formatAmount w \<noteq> js ''-0.00''"
    by (simp add: formatAmount_def Let_def)
  with cents_print [OF assms(1)] small_prints_zero [OF assms(2)] show ?thesis
    by (simp add: n_def)
qed

theorem amount_prints_cents_witness:
  "formatAmount (fl (of_int (- 1250) / 100)) = js ''-12.50'' \<and> formatAmount (- 1 / 1000) = js ''0.00''"
  using amount_prints_cents [of "- 1250" "- 1 / 1000"] nat_str_rec [of 12] nat_str_rec [of 1] by simp

section \<open>The shape of a response\<close>

definition balance_errors :: "ledger_account \<Rightarrow> simplefin_error list" where
  "balance_errors a = (if acc_balance a = None
     then [\<lparr>err_code = js ''act.balance_unavailable'', err_msg = MSG_BALANCE, err_conn_id = None, err_account_id = Some (acc_id a)\<rparr>]
     else [])"

lemma account_parts:
  assumes "toSimpleFinAccount env L cfg q now cc a s = Inr (x, errs)"
  shows "sfa_id x = acc_id a" "errs = balance_errors a" "sfa_conn_id x = acc_company a"
    "transactionsFor env L cfg q a (normalizeCurrency (acc_currency a) (cfg_currency cfg)) cc s = Inr (sfa_transactions x)"
  using assms by (auto simp: toSimpleFinAccount_def Let_def balance_errors_def)

lemma account_step_eq:
  "account_step env L cfg q now cc s a (e, cs, as) =
     bindE (toSimpleFinAccount env L cfg q now cc a s) (\<lambda>(x, errs). Inr (e @ errs, cs, as @ [x]))"
  by (simp add: account_step_def)

lemma company_step_eq:
  "company_step env L cfg q now s (c, cc) (e, cs, as) =
     foldE (account_step env L cfg q now cc s) (wanted_accounts L q c s)
       (e @ companyErrors L cfg now c (wanted_accounts L q c s) s, cs @ [connectionFor c cc cfg], as)"
  by (simp add: company_step_def Let_def)

lemma accounts_fold:
  "foldE (account_step env L cfg q now cc s) sel (e, cs, as) = Inr (e', cs', as') \<Longrightarrow>
   e' = e @ concat (map balance_errors sel) \<and> cs' = cs \<and> (\<exists>xs. as' = as @ xs \<and>
     list_all2 (\<lambda>a x. \<exists>errs. toSimpleFinAccount env L cfg q now cc a s = Inr (x, errs)) sel xs)"
proof (induction sel arbitrary: e as)
  case Nil
  then show ?case by auto
next
  case (Cons a sel)
  from Cons.prems obtain x errs where x: "toSimpleFinAccount env L cfg q now cc a s = Inr (x, errs)"
    and r: "foldE (account_step env L cfg q now cc s) sel (e @ errs, cs, as @ [x]) = Inr (e', cs', as')"
    by (auto simp: account_step_eq)
  from Cons.IH [OF r] obtain xs where "e' = (e @ errs) @ concat (map balance_errors sel)" "cs' = cs" "as' = (as @ [x]) @ xs"
    "list_all2 (\<lambda>a x. \<exists>errs. toSimpleFinAccount env L cfg q now cc a s = Inr (x, errs)) sel xs" by blast
  with x account_parts(2) [OF x] show ?case by (intro conjI exI [of _ "x # xs"]) auto
qed

lemma companies_fold:
  "foldE (company_step env L cfg q now s) entries (e, cs, as) = Inr (e', cs', as') \<Longrightarrow>
   e' = e @ concat (map (\<lambda>(c, cc). companyErrors L cfg now c (wanted_accounts L q c s) s @
     concat (map balance_errors (wanted_accounts L q c s))) entries) \<and>
   cs' = cs @ map (\<lambda>(c, cc). connectionFor c cc cfg) entries \<and>
   (\<exists>xss. as' = as @ concat xss \<and> list_all2 (\<lambda>(c, cc). list_all2
     (\<lambda>a x. \<exists>errs. toSimpleFinAccount env L cfg q now cc a s = Inr (x, errs)) (wanted_accounts L q c s)) entries xss)"
proof (induction entries arbitrary: e cs as)
  case Nil
  then show ?case by auto
next
  case (Cons entry entries)
  obtain c cc where en: "entry = (c, cc)" by fastforce
  let ?sel = "wanted_accounts L q c s"
  from Cons.prems obtain e1 cs1 as1 where 1: "foldE (account_step env L cfg q now cc s) ?sel
      (e @ companyErrors L cfg now c ?sel s, cs @ [connectionFor c cc cfg], as) = Inr (e1, cs1, as1)"
    and r: "foldE (company_step env L cfg q now s) entries (e1, cs1, as1) = Inr (e', cs', as')"
    by (auto simp: company_step_eq en)
  from accounts_fold [OF 1] obtain xs where a: "e1 = (e @ companyErrors L cfg now c ?sel s) @ concat (map balance_errors ?sel)"
    "cs1 = cs @ [connectionFor c cc cfg]" "as1 = as @ xs"
    "list_all2 (\<lambda>a x. \<exists>errs. toSimpleFinAccount env L cfg q now cc a s = Inr (x, errs)) ?sel xs" by blast
  from Cons.IH [OF r] obtain xss where b: "as' = as1 @ concat xss" "list_all2 (\<lambda>(c, cc). list_all2
     (\<lambda>a x. \<exists>errs. toSimpleFinAccount env L cfg q now cc a s = Inr (x, errs)) (wanted_accounts L q c s)) entries xss"
    and c: "e' = e1 @ concat (map (\<lambda>(c, cc). companyErrors L cfg now c (wanted_accounts L q c s) s @
     concat (map balance_errors (wanted_accounts L q c s))) entries)" "cs' = cs1 @ map (\<lambda>(c, cc). connectionFor c cc cfg) entries" by blast
  show ?case
    by (intro conjI exI [of _ "xs # xss"]) (use a b c in \<open>simp_all add: en\<close>)
qed

lemma response_parts:
  assumes "buildAccountsResponse env L cfg q now s = Inr r"
  shows "resp_errors r = map err_msg (resp_errlist r)"
    "resp_errlist r = concat (map (\<lambda>(c, cc). companyErrors L cfg now c (wanted_accounts L q c s) s @
      concat (map balance_errors (wanted_accounts L q c s))) (enabledCompanies cfg))"
    "resp_connections r = map (\<lambda>(c, cc). connectionFor c cc cfg) (enabledCompanies cfg)"
    "\<exists>xss. resp_accounts r = concat xss \<and> list_all2 (\<lambda>(c, cc). list_all2
      (\<lambda>a x. \<exists>errs. toSimpleFinAccount env L cfg q now cc a s = Inr (x, errs)) (wanted_accounts L q c s)) (enabledCompanies cfg) xss"
proof -
  from assms obtain e cs as where f: "foldE (company_step env L cfg q now s) (enabledCompanies cfg) ([], [], []) = Inr (e, cs, as)"
    and r: "r = \<lparr>resp_errlist = e, resp_errors = map err_msg e, resp_connections = cs, resp_accounts = as\<rparr>"
    by (auto simp: buildAccountsResponse_def)
  note parts = companies_fold [OF f]
  show "resp_errors r = map err_msg (resp_errlist r)" by (simp add: r)
  show "resp_errlist r = concat (map (\<lambda>(c, cc). companyErrors L cfg now c (wanted_accounts L q c s) s @
      concat (map balance_errors (wanted_accounts L q c s))) (enabledCompanies cfg))"
    "resp_connections r = map (\<lambda>(c, cc). connectionFor c cc cfg) (enabledCompanies cfg)"
    "\<exists>xss. resp_accounts r = concat xss \<and> list_all2 (\<lambda>(c, cc). list_all2
      (\<lambda>a x. \<exists>errs. toSimpleFinAccount env L cfg q now cc a s = Inr (x, errs)) (wanted_accounts L q c s)) (enabledCompanies cfg) xss"
    using parts by (simp_all add: r)
qed

lemma list_all2_ids:
  "list_all2 (\<lambda>a x. \<exists>errs. toSimpleFinAccount env L cfg q now cc a s = Inr (x, errs)) sel xs \<Longrightarrow> map sfa_id xs = map acc_id sel"
  by (induction rule: list_all2_induct) (auto dest: account_parts(1))

lemma list_all2_id_lists:
  "list_all2 (\<lambda>(c, cc). list_all2 (\<lambda>a x. \<exists>errs. toSimpleFinAccount env L cfg q now cc a s = Inr (x, errs))
     (wanted_accounts L q c s)) entries xss \<Longrightarrow>
   map sfa_id (concat xss) = concat (map (\<lambda>(c, cc). map acc_id (wanted_accounts L q c s)) entries)"
  by (induction rule: list_all2_induct) (auto dest: list_all2_ids)

text \<open>
  The response is complete and in configuration order. One connection per enabled company, even
  without accounts; the requested accounts of these companies, company by company; the error list is
  each company's errors followed by its unknown balances, and \<^verbatim>\<open>errors\<close> repeats its messages.
\<close>

theorem response_in_config_order:
  assumes "buildAccountsResponse env L cfg q now s = Inr r"
  shows "resp_connections r = map (\<lambda>(c, cc). connectionFor c cc cfg) (enabledCompanies cfg) \<and>
    map sfa_id (resp_accounts r) = concat (map (\<lambda>(c, cc). map acc_id (wanted_accounts L q c s)) (enabledCompanies cfg)) \<and>
    resp_errlist r = concat (map (\<lambda>(c, cc). companyErrors L cfg now c (wanted_accounts L q c s) s @
      concat (map balance_errors (wanted_accounts L q c s))) (enabledCompanies cfg)) \<and>
    resp_errors r = map err_msg (resp_errlist r)"
proof -
  from response_parts(4) [OF assms] obtain xss where x: "resp_accounts r = concat xss" "list_all2 (\<lambda>(c, cc). list_all2
      (\<lambda>a x. \<exists>errs. toSimpleFinAccount env L cfg q now cc a s = Inr (x, errs)) (wanted_accounts L q c s)) (enabledCompanies cfg) xss"
    by blast
  show ?thesis unfolding x(1) list_all2_id_lists [OF x(2)] using response_parts(1-3) [OF assms] by simp
qed

lemma healthy_no_errors:
  assumes "ch_healthy (companyHealth L cfg now s c cc (getSourceState L c s))"
  shows "companyErrors L cfg now c accounts s = []"
  using assms
  by (cases "getSourceState L c s")
     (auto simp: companyHealth_def companyErrors_def isStale_def withinHours_def truthy_text_def Let_def date_parse_def
       split: option.splits if_splits)

lemma enabled_configured: "(c, cc) \<in> set (enabledCompanies cfg) \<longleftrightarrow> (c, cc) \<in> set (configured cfg) \<and> co_enabled cc"
proof -
  have "(c, cc) \<in> set (List.map_filter (\<lambda>(company, cc). case cc of Some c \<Rightarrow> if co_enabled c then Some (company, c) else None | None \<Rightarrow> None) xs)
      \<longleftrightarrow> (c, cc) \<in> set (List.map_filter (\<lambda>(company, cc). map_option (\<lambda>c. (company, c)) cc) xs) \<and> co_enabled cc" for xs
    by (induction xs) (auto simp: map_filter_simps split: option.splits if_splits)
  then show ?thesis by (simp add: enabledCompanies_def configured_def)
qed

lemma hr_companies_healthy:
  assumes "hr_ok (buildHealthReport L cfg now s)" "(c, cc) \<in> set (enabledCompanies cfg)"
  shows "ch_healthy (companyHealth L cfg now s c cc (getSourceState L c s))"
proof -
  let ?h = "companyHealth L cfg now s c cc (getSourceState L c s)"
  from assms(2) have "(c, cc) \<in> set (configured cfg)" "co_enabled cc" by (simp_all add: enabled_configured)
  then have "?h \<in> set (map (\<lambda>(company, cc). companyHealth L cfg now s company cc (getSourceState L company s)) (configured cfg))"
    "ch_enabled ?h" by (force, simp add: companyHealth_def Let_def)
  with assms(1) show ?thesis by (simp add: buildHealthReport_def Let_def list_all_iff)
qed

text \<open>
  Health and payload agree. When the health report says the bridge is in order, the payload
  carries no connection or staleness error, only unknown balances; a parked enabled company shows as
  a failed connection.
\<close>

theorem health_and_payload_agree:
  assumes "buildAccountsResponse env L cfg q now s = Inr r"
  shows "(hr_ok (buildHealthReport L cfg now s) \<longrightarrow> (\<forall>e\<in>set (resp_errlist r). err_code e = js ''act.balance_unavailable'')) \<and>
    (\<forall>(c, cc)\<in>set (enabledCompanies cfg). \<forall>st. getSourceState L c s = Some st \<and> st_parked st \<longrightarrow>
       (\<exists>e\<in>set (resp_errlist r). err_code e = js ''con.failed'' \<and> err_conn_id e = Some c))"
proof (intro conjI impI ballI)
  fix e assume ok: "hr_ok (buildHealthReport L cfg now s)" and "e \<in> set (resp_errlist r)"
  then obtain c cc where c: "(c, cc) \<in> set (enabledCompanies cfg)"
    and e: "e \<in> set (companyErrors L cfg now c (wanted_accounts L q c s) s) \<or> (\<exists>a. e \<in> set (balance_errors a))"
    by (fastforce simp: response_parts(2) [OF assms])
  from healthy_no_errors [OF hr_companies_healthy [OF ok c]] e show "err_code e = js ''act.balance_unavailable''"
    by (auto simp: balance_errors_def split: if_splits)
next
  fix entry assume "entry \<in> set (enabledCompanies cfg)"
  then show "case entry of (c, cc) \<Rightarrow> \<forall>st. getSourceState L c s = Some st \<and> st_parked st \<longrightarrow>
       (\<exists>e\<in>set (resp_errlist r). err_code e = js ''con.failed'' \<and> err_conn_id e = Some c)"
    unfolding response_parts(2) [OF assms]
    by (clarsimp, intro bexI [of _ entry]) (auto simp: companyErrors_def intro!: bexI)
qed

definition plain_query :: accounts_query where
  "plain_query = \<lparr>aq_version = None, aq_startDate = None, aq_endDate = None, aq_pending = False, aq_balancesOnly = False,
     aq_accountIds = None\<rparr>"

definition example_view :: view_env where
  "example_view = \<lparr>ve_hostname = (\<lambda>u. None), ve_cal = (\<lambda>v tz. Some (take 10 v)), ve_isUuid = (\<lambda>s. s \<noteq> []), ve_lc = cmp_of\<rparr>"

lemma example_response:
  "\<exists>r. buildAccountsResponse example_view (memory_ledger env cmp_of) example_config plain_query 0 createMemoryLedger = Inr r"
proof -
  have "wanted_accounts (memory_ledger env cmp_of) plain_query c createMemoryLedger = []" for c
    by (simp add: wanted_accounts_def memory_ledger_def mem_listAccounts_def createMemoryLedger_def)
  moreover have "enabledCompanies example_config = [(js ''cal'', example_company)]"
    by (simp add: enabledCompanies_def example_config_def example_company_def map_filter_simps)
  ultimately show ?thesis
    by (simp add: buildAccountsResponse_def company_step_eq del: bindE_eq_Inr)
qed

theorem response_in_config_order_witness:
  "\<exists>r. buildAccountsResponse example_view (memory_ledger example_env cmp_of) example_config plain_query 0 createMemoryLedger = Inr r \<and>
     length (resp_connections r) = 1 \<and> resp_errors r = map err_msg (resp_errlist r)"
proof -
  obtain r where r: "buildAccountsResponse example_view (memory_ledger example_env cmp_of) example_config plain_query 0 createMemoryLedger = Inr r"
    using example_response by blast
  have "length (enabledCompanies example_config) = 1"
    by (simp add: enabledCompanies_def example_config_def example_company_def map_filter_simps)
  with response_in_config_order [OF r] r show ?thesis by auto
qed

theorem health_and_payload_agree_witness:
  "\<exists>r. buildAccountsResponse example_view (memory_ledger example_env cmp_of) example_config plain_query 0 createMemoryLedger = Inr r \<and>
     (hr_ok (buildHealthReport (memory_ledger example_env cmp_of) example_config 0 createMemoryLedger) \<longrightarrow>
      (\<forall>e\<in>set (resp_errlist r). err_code e = js ''act.balance_unavailable''))"
proof -
  obtain r where r: "buildAccountsResponse example_view (memory_ledger example_env cmp_of) example_config plain_query 0 createMemoryLedger = Inr r"
    using example_response by blast
  from health_and_payload_agree [OF r] r show ?thesis by blast
qed

section \<open>The transactions of a window\<close>

definition account_rows :: "'l ledger_ops \<Rightarrow> accounts_query \<Rightarrow> company_config \<Rightarrow> ledger_account \<Rightarrow> 'l \<Rightarrow> ledger_tx list" where
  "account_rows L q cc account s = listTransactions L \<lparr>q_accountIds = Some [acc_id account], q_from = None, q_to = None,
     q_includePending = aq_pending q \<and> co_includePending cc, q_includeSynthetic = True\<rparr> s"

definition shown_date :: "view_env \<Rightarrow> config \<Rightarrow> ledger_account \<Rightarrow> ledger_tx \<Rightarrow> iso_day" where
  "shown_date env cfg account row = td_date (transactionDate env row (cfg_timezone cfg) (acc_kind account = CreditCard))"

definition served :: "view_env \<Rightarrow> config \<Rightarrow> accounts_query \<Rightarrow> int \<Rightarrow> int \<Rightarrow> ledger_account \<Rightarrow> ledger_tx \<Rightarrow> bool" where
  "served env cfg q a b account row \<longleftrightarrow> isCurrentPending row account \<and>
     (case postedEpoch (shown_date env cfg account row) of
        None \<Rightarrow> False
      | Some p \<Rightarrow> p < b \<and> (a \<le> p \<or> firstSeenInWindow row q))"

text \<open>The order of the served rows: by the date they are shown under, then by id, as the locale compares texts.\<close>

definition shown_before :: "view_env \<Rightarrow> config \<Rightarrow> ledger_account \<Rightarrow> ledger_tx \<Rightarrow> ledger_tx \<Rightarrow> bool" where
  "shown_before env cfg account x y \<longleftrightarrow>
     (let c = ve_lc env (shown_date env cfg account x) (shown_date env cfg account y) in c < 0 \<or> c = 0 \<and> ve_lc env (tx_id x) (tx_id y) \<le> 0)"

text \<open>
  C14: a window returns exactly its transactions, in order. Of the rows the ledger lists for an account, the
  payload serves those whose posted timestamp is before the end and either at or after the
  start or first seen inside the window, once each; a pending row only while the latest scrape of the account
  still reports it. They come by date and then by id. The shown dates are calendar dates from the year 100 on and the
  bounds lie before the year 10000.
\<close>

theorem window_serves_exactly:
  assumes "aq_startDate q = Some a" "aq_endDate q = Some b" "\<not> aq_balancesOnly q"
    and "0 \<le> a" "a \<le> 253402257600" "0 \<le> b" "b \<le> 253402257600"
    and "\<forall>row\<in>set (account_rows L q cc account s). \<exists>c. date_of (shown_date env cfg account row) c \<and> 100 \<le> fst c"
    and "consistent_compare (ve_lc env)"
  shows "\<exists>ts rows. transactionsFor env L cfg q account currency cc s = Inr ts \<and> map sf_id ts = map tx_id rows \<and>
    mset rows = mset (filter (served env cfg q a b account) (account_rows L q cc account s)) \<and>
    sorted_wrt (shown_before env cfg account) rows"
proof -
  let ?rows = "account_rows L q cc account s" and ?shown = "shown_date env cfg account"
  let ?occ = "\<lambda>row. transactionDate env row (cfg_timezone cfg) (acc_kind account = CreditCard)"
  obtain f where f: "windowStartDate a = Inr f" using windowStartDate_day(1) [OF assms(4,5)] by blast
  obtain t where t: "windowStartDate b = Inr t" using windowStartDate_day(1) [OF assms(6,7)] by blast
  have w: "windowDates q = Inr (Some (Some f, Some t))"
    using assms(1,2) f t by (simp add: windowDates_def opt_date_def windowEndDate_def del: bindE_eq_Inr)
  have keep: "isCurrentPending row account \<and> in_window (Some f) (Some t) q row (?shown row) \<longleftrightarrow> served env cfg q a b account row"
    if row: "row \<in> set ?rows" for row
  proof -
    from assms(8) row obtain c where c: "date_of (?shown row) c" "100 \<le> fst c" by blast
    from window_exact [OF c assms(4,5)] f obtain p where p: "postedEpoch (?shown row) = Some p" "f \<le> ?shown row \<longleftrightarrow> a \<le> p" by auto
    from window_exact [OF c assms(6,7)] t p(1) have "t \<le> ?shown row \<longleftrightarrow> b \<le> p" by auto
    then have "?shown row < t \<longleftrightarrow> p < b" by (metis linorder_not_le)
    with p show ?thesis by (simp add: served_def in_window_def)
  qed
  let ?kept = "filter (\<lambda>(row, occurrence). in_window (Some f) (Some t) q row (td_date occurrence))
    (map (\<lambda>row. (row, ?occ row)) (filter (\<lambda>row. isCurrentPending row account) ?rows))"
  have "map fst ?kept = filter (\<lambda>row. in_window (Some f) (Some t) q row (?shown row)) (filter (\<lambda>row. isCurrentPending row account) ?rows)"
    unfolding filter_map by (simp add: comp_def shown_date_def)
  also have "\<dots> = filter (served env cfg q a b account) ?rows" unfolding filter_filter by (rule filter_cong) (use keep in auto)
  finally have kept: "map fst ?kept = filter (served env cfg q a b account) ?rows" .
  let ?cmp = "\<lambda>a b. cmp_then (ve_lc env (td_date (snd a)) (td_date (snd b))) (ve_lc env (tx_id (fst a)) (tx_id (fst b)))"
  let ?ts = "map (\<lambda>(row, occurrence). toSimpleFinTransaction env row currency (Some occurrence)) (sort_by ?cmp ?kept)"
  have "transactionsFor env L cfg q account currency cc s = Inr ?ts"
    unfolding transactionsFor_def w bindE_simps option.case prod.case if_not_P [OF assms(3)] Let_def account_rows_def ..
  moreover have "map sf_id ?ts = map tx_id (map fst (sort_by ?cmp ?kept))"
    by (simp add: toSimpleFinTransaction_def Let_def split_beta)
  moreover have "mset (map fst (sort_by ?cmp ?kept)) = mset (filter (served env cfg q a b account) ?rows)"
    unfolding kept [symmetric] by (simp only: mset_map mset_sort_by)
  moreover have "sorted_wrt (shown_before env cfg account) (map fst (sort_by ?cmp ?kept))"
  proof -
    have "consistent_compare ?cmp"
      by (intro consistent_then consistent_pull [OF assms(9)])
    then have "sorted_wrt (\<lambda>x y. ?cmp x y \<le> 0) (sort_by ?cmp ?kept)"
      by (intro sorted_sort_by [of UNIV] consistent_comparator_on) simp_all
    moreover have "snd x = ?occ (fst x)" if "x \<in> set (sort_by ?cmp ?kept)" for x
      using that by (auto simp: set_sort_by)
    ultimately have "sorted_wrt (\<lambda>x y. shown_before env cfg account (fst x) (fst y)) (sort_by ?cmp ?kept)"
      by (elim sorted_wrt_mono_rel [rotated]) (auto simp: shown_before_def shown_date_def cmp_then_def Let_def split: if_splits)
    then show ?thesis by (simp add: sorted_wrt_map)
  qed
  ultimately show ?thesis by blast
qed

text \<open>A card with a purchase booked late, one booked on its day and one after the window.\<close>

definition window_row :: "jsstr \<Rightarrow> jsstr \<Rightarrow> jsval \<Rightarrow> ledger_tx" where
  "window_row i booked raw = (with_id (example_row (js ''cal:1'') None) i)\<lparr>tx_bookedDate := booked, tx_raw := raw\<rparr>"

definition window_rows :: "ledger_tx list" where
  "window_rows = [window_row (js ''a'') (js ''2024-01-20'') (JObj [(js ''date'', JStr (js ''2024-01-10''))]),
     window_row (js ''b'') (js ''2024-01-15'') JUndef, window_row (js ''c'') (js ''2024-09-01'') JUndef]"

definition window_ledger :: mem_ledger where
  "window_ledger = createMemoryLedger\<lparr>m_transactions := map (\<lambda>r. (tx_id r, r)) window_rows\<rparr>"

definition window_card :: ledger_account where
  "window_card = \<lparr>acc_id = js ''cal:1'', acc_company = js ''cal'', acc_accountNumber = js ''1'', acc_kind = CreditCard, acc_currency = js ''ILS'',
     acc_name = [], acc_balance = None, acc_balanceAt = None, acc_firstSeen = [], acc_lastSeen = [], acc_raw = JUndef\<rparr>"

definition window_query :: accounts_query where
  "window_query = plain_query\<lparr>aq_startDate := Some 1700000000, aq_endDate := Some 1710000000\<rparr>"

lemma window_shown:
  "shown_date example_view example_config window_card (window_rows ! 0) = js ''2024-01-10''"
  "shown_date example_view example_config window_card (window_rows ! 1) = js ''2024-01-15''"
  "shown_date example_view example_config window_card (window_rows ! 2) = js ''2024-09-01''"
  by code_simp+

lemma window_listed:
  "account_rows (memory_ledger example_env cmp_of) window_query example_company window_card window_ledger =
     [window_rows ! 1, window_rows ! 0, window_rows ! 2]"
  unfolding account_rows_def memory_ledger_def by code_simp

lemma window_days: "date_of (js ''2024-01-10'') (2024, 1, 10)" "date_of (js ''2024-01-15'') (2024, 1, 15)" "date_of (js ''2024-09-01'') (2024, 9, 1)"
  by (simp add: date_of_def valid_date_def leap_def month_start_def, code_simp)+

lemma window_posted:
  "postedEpoch (js ''2024-01-10'') = Some 1704888000" "postedEpoch (js ''2024-01-15'') = Some 1705320000"
  "postedEpoch (js ''2024-09-01'') = Some 1725192000"
proof -
  have "day_of (2024, 1, 10) = 19732" "day_of (2024, 1, 15) = 19737" "day_of (2024, 9, 1) = 19967"
    by (simp_all add: day_of_def make_day_def Let_def day_from_year_def month_start_def leap_def)
  then show "postedEpoch (js ''2024-01-10'') = Some 1704888000" "postedEpoch (js ''2024-01-15'') = Some 1705320000"
      "postedEpoch (js ''2024-09-01'') = Some 1725192000"
    using window_days [THEN postedEpoch_date] by simp_all
qed

lemma window_served:
  "filter (served example_view example_config window_query 1700000000 1710000000 window_card) [window_rows ! 1, window_rows ! 0, window_rows ! 2] =
     [window_rows ! 1, window_rows ! 0]"
proof -
  have "tx_status (window_rows ! 0) = Posted" "tx_status (window_rows ! 1) = Posted"
    by code_simp+
  then show ?thesis
    by (simp only: filter.simps served_def isCurrentPending_def window_shown window_posted option.case) simp
qed

lemma window_order:
  "\<not> shown_before example_view example_config window_card (window_rows ! 1) (window_rows ! 0)"
  "tx_id (window_rows ! 0) = js ''a''" "tx_id (window_rows ! 1) = js ''b''"
  by code_simp+

lemma two_rows: "mset xs = {#a, b#} \<Longrightarrow> xs = [a, b] \<or> xs = [b, a]"
proof -
  assume m: "mset xs = {#a, b#}"
  then have "length xs = 2" by (metis size_mset size_add_mset size_empty One_nat_def Suc_1)
  then obtain x y where "xs = [x, y]" by (auto simp: length_Suc_conv numeral_2_eq_2)
  with m show ?thesis by (auto simp: add_eq_conv_ex)
qed

theorem window_serves_exactly_witness:
  "\<exists>ts. transactionsFor example_view (memory_ledger example_env cmp_of) example_config window_query window_card (js ''ILS'') example_company window_ledger =
     Inr ts \<and> map sf_id ts = map js [''a'', ''b'']"
proof -
  have q: "aq_startDate window_query = Some 1700000000" "aq_endDate window_query = Some 1710000000" "\<not> aq_balancesOnly window_query"
    by (simp_all add: window_query_def plain_query_def)
  have "\<exists>c. date_of (shown_date example_view example_config window_card (window_rows ! 0)) c \<and> 100 \<le> fst c"
    unfolding window_shown by (rule exI [of _ "(2024, 1, 10)"]) (use window_days in simp)
  moreover have "\<exists>c. date_of (shown_date example_view example_config window_card (window_rows ! 1)) c \<and> 100 \<le> fst c"
    unfolding window_shown by (rule exI [of _ "(2024, 1, 15)"]) (use window_days in simp)
  moreover have "\<exists>c. date_of (shown_date example_view example_config window_card (window_rows ! 2)) c \<and> 100 \<le> fst c"
    unfolding window_shown by (rule exI [of _ "(2024, 9, 1)"]) (use window_days in simp)
  ultimately have dates: "\<forall>row\<in>set [window_rows ! 1, window_rows ! 0, window_rows ! 2].
      \<exists>c. date_of (shown_date example_view example_config window_card row) c \<and> 100 \<le> fst c"
    unfolding list.set ball_simps by blast
  have n: "0 \<le> (1700000000 :: int)" "1700000000 \<le> (253402257600 :: int)" "0 \<le> (1710000000 :: int)" "1710000000 \<le> (253402257600 :: int)"
    by simp_all
  have lc: "consistent_compare (ve_lc example_view)"
    by (simp add: example_view_def consistent_cmp_of)
  note serves = window_serves_exactly [OF q, where L = "memory_ledger example_env cmp_of" and cc = example_company and account = window_card
      and s = window_ledger and env = example_view and cfg = example_config and currency = "js ''ILS''", unfolded window_listed window_served]
  obtain ts rows where ts: "transactionsFor example_view (memory_ledger example_env cmp_of) example_config window_query window_card (js ''ILS'')
        example_company window_ledger = Inr ts"
      "map sf_id ts = map tx_id rows" "mset rows = mset [window_rows ! 1, window_rows ! 0]" "sorted_wrt (shown_before example_view example_config window_card) rows"
    using serves [OF n dates lc] by blast
  have "mset rows = {#window_rows ! 1, window_rows ! 0#}"
    using ts(3) by (simp only: mset.simps)
  from two_rows [OF this] show ?thesis
  proof
    assume "rows = [window_rows ! 1, window_rows ! 0]"
    with ts(4) window_order(1) show ?thesis by (simp only: sorted_wrt.simps list.set ball_simps simp_thms)
  next
    assume "rows = [window_rows ! 0, window_rows ! 1]"
    with ts(2) have "map sf_id ts = map js [''a'', ''b'']"
      by (simp only: list.map window_order(2,3))
    with ts(1) show ?thesis by blast
  qed
qed

end
