(* ===== verification/Csv.thy ===== *)
theory Csv
  imports SimplefinPayload MemoryLedger Examples
begin

text \<open>
  \<^verbatim>\<open>src/export/csv.ts\<close>, and a reader of RFC 4180 text as its specification: whatever the descriptions
  and memos contain, the exported text reads back as the exported fields.
\<close>

section \<open>The export\<close>

definition CSV_HEADER :: "jsstr list" where
  "CSV_HEADER = [js ''date'', js ''description'', js ''amount'', js ''type'', js ''currency'', js ''external_id'', js ''payee'', js ''notes'']"

definition needs_quotes :: "nat \<Rightarrow> bool" where
  "needs_quotes c \<longleftrightarrow> c = 10 \<or> c = 13 \<or> c = 34 \<or> c = 44"

definition double_quotes :: "jsstr \<Rightarrow> jsstr" where
  "double_quotes s = concat (map (\<lambda>c. if c = 34 then [34, 34] else [c]) s)"

definition csvField :: "jsstr \<Rightarrow> jsstr" where
  "csvField v = (if list_ex needs_quotes v then [34] @ double_quotes v @ [34] else v)"

definition csv_fields :: "ledger_tx \<Rightarrow> jsstr list" where
  "csv_fields row =
     (let description = js_trim (tx_description row) in
      [tx_bookedDate row, description, formatAmount \<bar>tx_amount row\<bar>,
       if tx_amount row < 0 then js ''debit'' else js ''credit'',
       tx_currency row, tx_id row, description, default (map_option js_trim (tx_memo row)) []])"

definition csvRow :: "ledger_tx \<Rightarrow> jsstr" where
  "csvRow row = join_with (js '','') (map csvField (csv_fields row))"

definition companyFor :: "config \<Rightarrow> company_id \<Rightarrow> company_config option" where
  "companyFor cfg company = default (map_of (cfg_companies cfg) company) None"

record csv_options =
  csv_accountIds :: "jsstr list option"
  csv_from :: "iso_day option"
  csv_to :: "iso_day option"

definition csv_exported :: "config \<Rightarrow> ledger_tx \<Rightarrow> bool" where
  "csv_exported cfg row \<longleftrightarrow>
     (case companyFor cfg (tx_company row) of
        None \<Rightarrow> False
      | Some cc \<Rightarrow> co_enabled cc \<and> (tx_status row \<noteq> Pending \<or> co_includePending cc))"

definition csv_rows :: "'l ledger_ops \<Rightarrow> config \<Rightarrow> csv_options \<Rightarrow> 'l \<Rightarrow> ledger_tx list" where
  "csv_rows L cfg options s = filter (csv_exported cfg)
     (listTransactions L \<lparr>q_accountIds = csv_accountIds options, q_from = csv_from options, q_to = csv_to options,
        q_includePending = True, q_includeSynthetic = True\<rparr> s)"

definition exportCsv :: "'l ledger_ops \<Rightarrow> config \<Rightarrow> csv_options \<Rightarrow> 'l \<Rightarrow> jsstr" where
  "exportCsv L cfg options s =
     (let lines = join_with (js '','') CSV_HEADER # map csvRow (csv_rows L cfg options s)
      in join_with [13, 10] lines @ [13, 10])"

section \<open>Reading RFC 4180\<close>

text \<open>A quoted field up to its closing quote, a field of either kind, a record, a file.\<close>

fun csv_quoted :: "jsstr \<Rightarrow> jsstr \<times> jsstr" where
  "csv_quoted [] = ([], [])"
| "csv_quoted [c] = (if c = 34 then ([], []) else ([c], []))"
| "csv_quoted (c # d # s) =
     (if c \<noteq> 34 then (let (v, r) = csv_quoted (d # s) in (c # v, r))
      else if d = 34 then (let (v, r) = csv_quoted s in (34 # v, r))
      else ([], d # s))"

definition csv_value :: "jsstr \<Rightarrow> jsstr \<times> jsstr" where
  "csv_value s = (case s of
     [] \<Rightarrow> ([], [])
   | c # r \<Rightarrow> if c = 34 then csv_quoted r else (takeWhile (\<lambda>c. \<not> needs_quotes c) s, dropWhile (\<lambda>c. \<not> needs_quotes c) s))"

lemma csv_quoted_length: "length (snd (csv_quoted s)) \<le> length s"
  by (induction s rule: csv_quoted.induct) (auto simp: split_beta)

lemma csv_value_length: "length (snd (csv_value s)) \<le> length s"
proof (cases s)
  case (Cons c r)
  then show ?thesis
    using csv_quoted_length [of r] length_dropWhile_le [of "\<lambda>c. \<not> needs_quotes c" s] by (simp add: csv_value_def)
qed (simp add: csv_value_def)

function csv_record :: "jsstr \<Rightarrow> (jsstr list \<times> jsstr) option" where
  "csv_record s =
     (let (v, rest) = csv_value s in
      case rest of
        [] \<Rightarrow> None
      | c # r \<Rightarrow>
          if c = 44 then map_option (\<lambda>(vs, r'). (v # vs, r')) (csv_record r)
          else if c = 13 \<and> r \<noteq> [] \<and> hd r = 10 then Some ([v], tl r) else None)"
  by pat_completeness auto
termination
proof (relation "measure length", goal_cases)
  case (2 s p v rest c r)
  then have "length (c # r) \<le> length s"
    using csv_value_length [of s] by (metis snd_conv)
  then show ?case
    by simp
qed simp

declare csv_record.simps [simp del]

lemma csv_record_length: "csv_record s = Some (vs, r) \<Longrightarrow> length r < length s"
proof (induction s arbitrary: vs r rule: csv_record.induct)
  case (1 s)
  obtain v rest where v: "csv_value s = (v, rest)"
    by fastforce
  show ?case
  proof (cases rest)
    case Nil
    with 1 v show ?thesis
      by (simp add: csv_record.simps)
  next
    case (Cons c t)
    have t: "length t < length s"
      using csv_value_length [of s] v Cons by simp
    show ?thesis
    proof (cases "c = 44")
      case True
      with 1(2) v Cons obtain vs' where "csv_record t = Some (vs', r)"
        by (auto simp: csv_record.simps [of s])
      then have "length r < length t"
        using 1(1) [OF v [symmetric] refl Cons True] by blast
      with t show ?thesis
        by simp
    next
      case False
      with 1(2) v Cons have "r = tl t"
        by (auto simp: csv_record.simps [of s] split: if_splits)
      with t show ?thesis
        by simp
    qed
  qed
qed

function csv_parse :: "jsstr \<Rightarrow> jsstr list list option" where
  "csv_parse s =
     (if s = [] then Some []
      else case csv_record s of
             None \<Rightarrow> None
           | Some (vs, r) \<Rightarrow> map_option (\<lambda>rs. vs # rs) (csv_parse r))"
  by pat_completeness auto
termination
  by (relation "measure length") (auto dest: csv_record_length)

declare csv_parse.simps [simp del]

section \<open>The export reads back\<close>

lemma csv_quoted_doubled: "r = [] \<or> hd r \<noteq> 34 \<Longrightarrow> csv_quoted (double_quotes v @ 34 # r) = (v, r)"
proof (induction v)
  case Nil
  then show ?case
    by (cases r) (auto simp: double_quotes_def)
next
  case (Cons c v)
  obtain d w where "double_quotes v @ 34 # r = d # w"
    by (cases "double_quotes v @ 34 # r") auto
  with Cons show ?case
    by (auto simp: double_quotes_def)
qed

lemma csv_value_field: "c = 44 \<or> c = 13 \<Longrightarrow> csv_value (csvField v @ c # r) = (v, c # r)"
proof (cases "list_ex needs_quotes v")
  case True
  assume "c = 44 \<or> c = 13"
  then show ?thesis
    using True csv_quoted_doubled [of "c # r" v] by (auto simp: csvField_def csv_value_def)
next
  case False
  assume c: "c = 44 \<or> c = 13"
  have plain: "\<forall>d \<in> set v. \<not> needs_quotes d"
    using False by (simp add: list_ex_iff)
  have stop: "needs_quotes c"
    using c by (auto simp: needs_quotes_def)
  show ?thesis
  proof (cases v)
    case Nil
    then show ?thesis
      using c by (auto simp: csvField_def csv_value_def needs_quotes_def)
  next
    case (Cons d w)
    then have "d \<noteq> 34"
      using plain by (auto simp: needs_quotes_def)
    with Cons show ?thesis
      using plain stop False by (simp add: csvField_def csv_value_def takeWhile_append2 dropWhile_append2)
  qed
qed

lemma csv_record_fields:
  "vs \<noteq> [] \<Longrightarrow> csv_record (join_with (js '','') (map csvField vs) @ 13 # 10 # r) = Some (vs, r)"
proof (induction vs rule: induct_list012)
  case (2 v)
  then show ?case
    by (simp add: csv_record.simps csv_value_field)
next
  case (3 v w vs)
  have "csv_value (csvField v @ 44 # join_with (js '','') (map csvField (w # vs)) @ 13 # 10 # r)
      = (v, 44 # join_with (js '','') (map csvField (w # vs)) @ 13 # 10 # r)"
    by (rule csv_value_field) simp
  with 3 show ?case
    by (simp add: csv_record.simps [of "csvField v @ _"])
qed simp

lemma join_lines: "ls \<noteq> [] \<Longrightarrow> join_with [13, 10] ls @ [13, 10] = concat (map (\<lambda>l. l @ [13, 10]) ls)"
  by (induction ls rule: induct_list012) auto

lemma csv_parse_records:
  assumes "\<forall>vs \<in> set rows. vs \<noteq> []"
  shows "csv_parse (concat (map (\<lambda>l. l @ [13, 10]) (map (\<lambda>vs. join_with (js '','') (map csvField vs)) rows))) = Some rows"
  using assms
proof (induction rows)
  case (Cons vs rows)
  then show ?case
    by (subst csv_parse.simps) (simp add: csv_record_fields [simplified])
qed (simp add: csv_parse.simps)

lemma header_fields: "map csvField CSV_HEADER = CSV_HEADER"
  by (simp add: CSV_HEADER_def csvField_def needs_quotes_def)

text \<open>
  C15: an export reads back exactly: whatever commas, quotes and line breaks the descriptions and memos contain,
  an RFC 4180 reader applied to the exported text returns the header and then, one record per exported row in
  the ledger's order, the eight fields of that row as they were before quoting.
\<close>

theorem csv_roundtrip:
  "csv_parse (exportCsv L cfg options s) = Some (CSV_HEADER # map csv_fields (csv_rows L cfg options s))"
proof -
  define records where "records = CSV_HEADER # map csv_fields (csv_rows L cfg options s)"
  have "exportCsv L cfg options s
      = concat (map (\<lambda>l. l @ [13, 10]) (map (\<lambda>vs. join_with (js '','') (map csvField vs)) records))"
    by (simp add: exportCsv_def csvRow_def records_def header_fields join_lines comp_def del: join_with.simps)
  moreover have "\<forall>vs \<in> set records. vs \<noteq> []"
    by (auto simp: records_def CSV_HEADER_def csv_fields_def Let_def)
  ultimately show ?thesis
    using csv_parse_records [of records] by (simp add: records_def)
qed

end
