(* ===== verification/ScrapeBasics.thy ===== *)
theory ScrapeBasics
  imports SimplefinDates SqliteLedger
begin

text \<open>
  \<^verbatim>\<open>src/scrape/errors.ts\<close> and \<^verbatim>\<open>src/scrape/dates.ts\<close>: the fixed vocabulary of scrape errors and the
  calendar arithmetic of the scrape side. The type names are those the ledger stores.
\<close>

section \<open>Errors\<close>

definition SCRAPE_ERROR_MESSAGES :: "scrape_error_type \<Rightarrow> jsstr" where
  "SCRAPE_ERROR_MESSAGES e = (case e of
     INVALID_PASSWORD \<Rightarrow> js ''Bank rejected the credentials''
   | CHANGE_PASSWORD \<Rightarrow> js ''Bank requires a password change''
   | ACCOUNT_BLOCKED \<Rightarrow> js ''Bank reports the account as blocked''
   | TIMEOUT \<Rightarrow> js ''Scrape exceeded its time limit''
   | GENERIC \<Rightarrow> js ''Scraper failed with a generic error''
   | GENERAL_ERROR \<Rightarrow> js ''Scraper failed with a general error''
   | TWO_FACTOR_RETRIEVER_MISSING \<Rightarrow> js ''Scraper needs a two-factor code retriever that is not configured''
   | OTP_REQUIRED \<Rightarrow> js ''Bank asked for a one-time code; run \"bridge login\" for this company''
   | BRIDGE_ERROR \<Rightarrow> js ''Bridge internal error'')"

definition error_types :: "scrape_error_type list" where
  "error_types = [INVALID_PASSWORD, CHANGE_PASSWORD, ACCOUNT_BLOCKED, TIMEOUT, GENERIC, GENERAL_ERROR,
     TWO_FACTOR_RETRIEVER_MISSING, OTP_REQUIRED, BRIDGE_ERROR]"

text \<open>The keys of the message table, as texts.\<close>

definition known_type :: "jsstr \<Rightarrow> scrape_error_type option" where
  "known_type s = List.find (\<lambda>e. error_type_text e = s) error_types"

text \<open>
  \<^verbatim>\<open>/\b..\b/i\<close> around a word of ASCII letters: without the unicode flag only ASCII letters match
  either case, and a word boundary lies between a word character and anything else.
\<close>

definition fold_case :: "nat \<Rightarrow> nat" where
  "fold_case c = (if is_upper c then c + 32 else c)"

fun has_word :: "jsstr \<Rightarrow> bool \<Rightarrow> jsstr \<Rightarrow> bool" where
  "has_word w inside [] \<longleftrightarrow> False"
| "has_word w inside (c # s) \<longleftrightarrow>
     (\<not> inside \<and> map fold_case (take (length w) (c # s)) = w \<and>
       (drop (length w) (c # s) = [] \<or> \<not> is_word (hd (drop (length w) (c # s))))) \<or>
     has_word w (is_word c) s"

definition looksLikeOtpChallenge :: "jsstr option \<Rightarrow> bool" where
  "looksLikeOtpChallenge t = (case t of None \<Rightarrow> False
     | Some s \<Rightarrow> has_word (js ''otp'') False s \<or> has_word (js ''sms'') False s)"

definition can_infer_otp :: "scrape_error_type \<Rightarrow> bool" where
  "can_infer_otp t \<longleftrightarrow> t \<in> {GENERIC, GENERAL_ERROR, TIMEOUT}"

definition mapScraperError :: "jsstr option \<Rightarrow> jsstr option \<Rightarrow> bool \<Rightarrow> scrape_error_type \<times> jsstr" where
  "mapScraperError errorType errorMessage observedOtpForm =
     (let type = default (Option.bind (truthy_text errorType) known_type) GENERIC in
      if can_infer_otp type \<and> (observedOtpForm \<or> looksLikeOtpChallenge errorMessage)
      then (OTP_REQUIRED, SCRAPE_ERROR_MESSAGES OTP_REQUIRED)
      else (type, SCRAPE_ERROR_MESSAGES type))"

section \<open>Dates\<close>

definition addDays :: "iso_day \<Rightarrow> int \<Rightarrow> iso_day res" where
  "addDays date days =
     (let parts = split_on 45 date;
          number = (\<lambda>n. if n < length parts then js_number (parts ! n) else None) in
      case (number 0, number 1, number 2) of
        (Some y, Some m, Some d) \<Rightarrow>
          bindE (to_iso_string (date_utc (to_integer y) (to_integer (m - 1)) (to_integer (d + of_int days)) 0)) (\<lambda>s. Inr (take 10 s))
      | _ \<Rightarrow> Inl InvalidTimeValue)"

text \<open>A \<^verbatim>\<open>Date\<close> object, \<open>None\<close> when it is invalid; an argument may be undefined. \<^verbatim>\<open>NaN > x\<close> is false.\<close>

type_synonym js_date = "int option"

definition later :: "js_date \<Rightarrow> js_date \<Rightarrow> bool" where
  "later a b = (case (a, b) of (Some x, Some y) \<Rightarrow> y < x | _ \<Rightarrow> False)"

definition max_step :: "js_date option \<Rightarrow> js_date option \<Rightarrow> js_date option" where
  "max_step date best =
     (case date of None \<Rightarrow> best
      | Some d \<Rightarrow> (case best of None \<Rightarrow> Some d | Some m \<Rightarrow> if later d m then Some d else Some m))"

definition maxDate :: "js_date option list \<Rightarrow> js_date option" where
  "maxDate dates = fold max_step dates None"

section \<open>What the definitions give\<close>

lemma known_type_text [simp]: "known_type (error_type_text e) = Some e"
  by (cases e) (simp_all add: known_type_def error_types_def error_type_text_def)

lemma known_type_some: "known_type s = Some e \<Longrightarrow> s = error_type_text e"
  unfolding known_type_def by (auto dest: find_Some_iff_in)

lemma addDays_day:
  assumes "date_of s c" "100 \<le> fst c" and n: "day_of c + n < 2932897" "0 \<le> day_of c + n"
  shows "addDays s n = Inr (iso_date (civil (day_of c + n)))"
proof -
  obtain y m d where c: "c = (y, m, d)" by (cases c)
  obtain ys ms ds where p: "split_on 45 s = [ys, ms, ds]" "js_number ys = Some (of_int y)" "js_number ms = Some (of_int m)"
    "js_number ds = Some (of_int d)"
    using split_date [OF assms(1)] by (auto simp: c)
  have i: "to_integer (of_int k) = k" for k
    by (simp add: to_integer_def floor_minus)
  have m1: "to_integer (of_int m - 1) = m - 1" and dn: "to_integer (of_int d + of_int n) = d + n"
    using i [of "m - 1"] i [of "d + n"] by simp_all
  have day: "make_day y (m - 1) (d + n) = day_of c + n"
    by (simp add: day_of_def c make_day_def Let_def)
  have t: "ok_time ((day_of c + n) * ms_per_day)"
    using n by (simp add: ok_time_def ms_per_day_def)
  have "\<bar>(day_of c + n) * ms_per_day\<bar> \<le> 8640000000000000"
    using n by (simp add: ms_per_day_def)
  then have "date_utc y (m - 1) (d + n) 0 = Some ((day_of c + n) * ms_per_day)"
    using assms(2) by (simp add: date_utc_def time_clip_def day c)
  then show ?thesis
    using iso_of_time_take10 [OF t]
    by (simp add: addDays_def Let_def p i m1 dn to_iso_string_def ms_per_day_def)
qed

end
