(* ===== verification/LedgerFrames.thy ===== *)
theory LedgerFrames
  imports MemoryProofs SqliteTables
begin

text \<open>
  What the writing operations leave alone: storing transactions writes only the transactions and the
  anomaly log, storing holdings only the holdings, in both ledgers.
\<close>

lemma mem_upsert_frame:
  assumes "mem_upsertTransactions env rows tz s = Inr (summary, s')"
  shows "\<exists>t a. s' = s\<lparr>m_transactions := t, m_anomalies := a\<rparr>"
proof -
  have step: "\<exists>t. snd (fold (mem_upsert_row env al) rows (sm, s)) = s\<lparr>m_transactions := t\<rparr>" for al sm
  proof (induction rows arbitrary: sm s)
    case Nil
    have "s = s\<lparr>m_transactions := m_transactions s\<rparr>"
      by simp
    then show ?case
      by (metis fold_simps(1) snd_conv)
  next
    case (Cons row rows)
    obtain sm1 s1 where s1: "mem_upsert_row env al row (sm, s) = (sm1, s1)"
      by fastforce
    have "\<exists>t. s1 = s\<lparr>m_transactions := t\<rparr>"
      using mem_upsert_row_state [of env al row sm s] s1 by (auto split: option.splits)
    with Cons.IH [of sm1 s1] s1 show ?case
      by auto
  qed
  obtain al where "s' = (snd (fold (mem_upsert_row env al) rows (empty_summary, s)))
      \<lparr>m_anomalies := m_anomalies (snd (fold (mem_upsert_row env al) rows (empty_summary, s))) @ sum_anomalies summary\<rparr>"
    using assms unfolding mem_upsertTransactions_def by (auto simp: Let_def case_prod_beta)
  moreover obtain t where "snd (fold (mem_upsert_row env al) rows (empty_summary, s)) = s\<lparr>m_transactions := t\<rparr>"
    using step by blast
  ultimately show ?thesis
    by (simp only: mem_ledger.simps) blast
qed

lemma mem_holdings_frame: "\<exists>h. mem_upsertHoldings rows s = s\<lparr>m_holdings := h\<rparr>"
proof (induction rows arbitrary: s)
  case Nil
  have "s = s\<lparr>m_holdings := m_holdings s\<rparr>"
    by simp
  then show ?case
    unfolding mem_upsertHoldings_def fold_simps(1) id_apply by blast
next
  case (Cons row rows)
  have "\<exists>h. mem_upsert_holding row s = s\<lparr>m_holdings := h\<rparr>"
    by (auto simp: mem_upsert_holding_def Let_def)
  with Cons.IH [of "mem_upsert_holding row s"] show ?case
    by (auto simp: mem_upsertHoldings_def)
qed

lemma sql_upsert_frame:
  assumes "sql_upsertTransactions env rows tz s = Inr (summary, s')"
  shows "\<exists>t a. s' = s\<lparr>db_transactions := t, db_anomalies := a\<rparr>"
proof -
  have step: "\<exists>t. snd (fold (sql_upsert_row env al) rows (sm, s)) = s\<lparr>db_transactions := t\<rparr>" for al sm
  proof (induction rows arbitrary: sm s)
    case Nil
    have "s = s\<lparr>db_transactions := db_transactions s\<rparr>"
      by simp
    then show ?case
      by (metis fold_simps(1) snd_conv)
  next
    case (Cons row rows)
    obtain sm1 s1 where s1: "sql_upsert_row env al row (sm, s) = (sm1, s1)"
      by fastforce
    have "\<exists>t. s1 = s\<lparr>db_transactions := t\<rparr>"
      using s1 by (auto simp: sql_upsert_row_def sql_insertTransaction_def refreshTransaction_def Let_def split: option.splits)
    with Cons.IH [of sm1 s1] s1 show ?case
      by auto
  qed
  obtain al where "s' = (snd (fold (sql_upsert_row env al) rows (empty_summary, s)))
      \<lparr>db_anomalies := db_anomalies (snd (fold (sql_upsert_row env al) rows (empty_summary, s))) @ map anomaly_row (sum_anomalies summary)\<rparr>"
    using assms unfolding sql_upsertTransactions_def by (auto simp: Let_def case_prod_beta)
  moreover obtain t where "snd (fold (sql_upsert_row env al) rows (empty_summary, s)) = s\<lparr>db_transactions := t\<rparr>"
    using step by blast
  ultimately show ?thesis
    by (simp only: sqlite_db.simps) blast
qed

lemma sql_holdings_frame: "\<exists>h. sql_upsertHoldings rows s = s\<lparr>db_holdings := h\<rparr>"
proof (induction rows arbitrary: s)
  case Nil
  have "s = s\<lparr>db_holdings := db_holdings s\<rparr>"
    by simp
  then show ?case
    unfolding sql_upsertHoldings_def fold_simps(1) id_apply by blast
next
  case (Cons row rows)
  from Cons.IH [of "s\<lparr>db_holdings := upsert_row ''id'' holding_columns (holding_row row) (db_holdings s)\<rparr>"] show ?case
    by (auto simp: sql_upsertHoldings_def)
qed

lemma mem_inv_frames [simp]:
  "mem_inv (s\<lparr>m_synthetic := p\<rparr>) = mem_inv s" "mem_inv (s\<lparr>m_holdings := h\<rparr>) = mem_inv s"
  "mem_inv (s\<lparr>m_runs := r\<rparr>) = mem_inv s" "mem_inv (s\<lparr>m_meta := m\<rparr>) = mem_inv s"
  by (simp_all add: mem_inv_def)

lemma mem_upsert_keeps_inv: "mem_upsertTransactions env rows tz s = Inr (summary, s') \<Longrightarrow> mem_inv s \<Longrightarrow> mem_inv s'"
  by (auto simp: batch_inv_def dest: mem_upsertTransactions_batch)

lemma mem_account_keeps_inv:
  assumes "mem_inv s"
  shows "mem_inv (mem_upsertAccount account s)"
proof -
  let ?a = "account\<lparr>acc_firstSeen := default (map_option acc_firstSeen (map_of (m_accounts s) (acc_id account))) (acc_firstSeen account)\<rparr>"
  have "keyed acc_id (AList.update (acc_id account) ?a (m_accounts s))"
    using assms keyed_update [of acc_id "m_accounts s" ?a] by (simp add: mem_inv_def)
  with assms show ?thesis
    by (simp add: mem_inv_def mem_upsertAccount_def Let_def)
qed

lemma mem_state_frames [simp]:
  "m_sourceStates (mem_upsertAccount account s) = m_sourceStates s"
  "m_sourceStates (mem_upsertHoldings rows s) = m_sourceStates s"
  "m_sourceStates (mem_recordRun run s) = m_sourceStates s"
  using mem_holdings_frame [of rows s] by (auto simp: mem_upsertAccount_def mem_recordRun_def Let_def)

lemma mem_keeps_inv: "mem_inv s \<Longrightarrow> mem_inv (mem_upsertHoldings rows s)" "mem_inv s \<Longrightarrow> mem_inv (mem_recordRun run s)"
  using mem_holdings_frame [of rows s] by (auto simp: mem_recordRun_def)

lemma sql_state_frames [simp]:
  "db_sourceStates (sql_upsertAccount account s) = db_sourceStates s"
  "db_sourceStates (sql_upsertHoldings rows s) = db_sourceStates s"
  "db_sourceStates (sql_recordRun run s) = db_sourceStates s"
  using sql_holdings_frame [of rows s] by (auto simp: sql_upsertAccount_def sql_recordRun_def)

end
