(* ===== verification/Effects.thy ===== *)
theory Effects
  imports Prelude
begin

text \<open>
  Operations that write and may throw. An exception does not undo what was written before it, so an
  operation returns its result, error or value, together with the state it reached. The rules show that
  an operation keeps an invariant on every exit, the exceptional ones included.
\<close>

type_synonym ('s, 'a) act = "'s \<Rightarrow> 'a res \<times> 's"

abbreviation liftA :: "'a res \<Rightarrow> ('s, 'a) act" where
  "liftA r \<equiv> Pair r"

abbreviation retA :: "'a \<Rightarrow> ('s, 'a) act" where
  "retA x \<equiv> liftA (Inr x)"

abbreviation throwA :: "js_error \<Rightarrow> ('s, 'a) act" where
  "throwA e \<equiv> liftA (Inl e)"

definition bindA :: "('s, 'a) act \<Rightarrow> ('a \<Rightarrow> ('s, 'b) act) \<Rightarrow> ('s, 'b) act" where
  "bindA f g = (\<lambda>s. case f s of (Inl e, s') \<Rightarrow> (Inl e, s') | (Inr x, s') \<Rightarrow> g x s')"

definition readA :: "('s \<Rightarrow> 'a) \<Rightarrow> ('s, 'a) act" where
  "readA f = (\<lambda>s. (Inr (f s), s))"

definition writeA :: "('s \<Rightarrow> 's) \<Rightarrow> ('s, unit) act" where
  "writeA f = (\<lambda>s. (Inr (), f s))"

text \<open>An operation that throws before it writes.\<close>

definition callA :: "('s \<Rightarrow> ('a \<times> 's) res) \<Rightarrow> ('s, 'a) act" where
  "callA f = (\<lambda>s. case f s of Inl e \<Rightarrow> (Inl e, s) | Inr (x, s') \<Rightarrow> (Inr x, s'))"

fun foldA :: "('x \<Rightarrow> 'b \<Rightarrow> ('s, 'b) act) \<Rightarrow> 'x list \<Rightarrow> 'b \<Rightarrow> ('s, 'b) act" where
  "foldA f [] b = retA b"
| "foldA f (x # xs) b = bindA (f x b) (foldA f xs)"

lemma act_simps [simp]:
  "readA f s = (Inr (f s), s)"
  "writeA u s = (Inr (), u s)"
  by (simp_all add: readA_def writeA_def)

lemma bindA_run:
  "f s = (Inr x, s') \<Longrightarrow> bindA f g s = g x s'"
  "f s = (Inl e, s') \<Longrightarrow> bindA f g s = (Inl e, s')"
  by (simp_all add: bindA_def)

lemma bindA_simps [simp]:
  "bindA (retA x) g1 = g1 x"
  "bindA (throwA e) g2 = throwA e"
  "bindA (readA h) g s = g (h s) s"
  "bindA (writeA u) k s = k () (u s)"
  by (simp_all add: bindA_def readA_def writeA_def fun_eq_iff)

lemma foldA_run: "foldA f (x # xs) b s = (case f x b s of (Inl e, t) \<Rightarrow> (Inl e, t) | (Inr c, t) \<Rightarrow> foldA f xs c t)"
  by (simp add: bindA_def)

lemma callA_run [simp]:
  "f s = Inr (x, s') \<Longrightarrow> callA f s = (Inr x, s')"
  "f s = Inl e \<Longrightarrow> callA f s = (Inl e, s)"
  by (simp_all add: callA_def)

lemma bindA_ok:
  "bindA f g s = (Inr y, s') \<longleftrightarrow> (\<exists>x t. f s = (Inr x, t) \<and> g x t = (Inr y, s'))"
  by (cases "f s") (auto simp: bindA_def split: sum.splits)

section \<open>Invariants of operations\<close>

text \<open>\<open>keeps R f\<close>: the state before and the state after, however the operation ends, are related.\<close>

definition keeps :: "('s \<Rightarrow> 's \<Rightarrow> bool) \<Rightarrow> ('s, 'a) act \<Rightarrow> bool" where
  "keeps R f \<longleftrightarrow> (\<forall>s. R s (snd (f s)))"

lemma keepsD: "keeps R f \<Longrightarrow> f s = (r, s') \<Longrightarrow> R s s'"
  by (auto simp: keeps_def dest: spec [of _ s])

lemma keeps_intros [intro]:
  assumes "reflp R"
  shows "keeps R (liftA r)" "keeps R (readA h)"
  using assms by (simp_all add: keeps_def reflpD)

lemma keeps_bind:
  assumes "transp R" "keeps R f" "\<And>x. keeps R (g x)"
  shows "keeps R (bindA f g)"
  unfolding keeps_def
proof
  fix s
  obtain r t where f: "f s = (r, t)"
    by fastforce
  show "R s (snd (bindA f g s))"
  proof (cases r)
    case (Inl e)
    then show ?thesis
      using keepsD [OF assms(2) f] f by (simp add: bindA_run)
  next
    case (Inr x)
    have "R t (snd (g x t))"
      using assms(3) [of x] by (simp add: keeps_def)
    then show ?thesis
      using keepsD [OF assms(2) f] f Inr transpD [OF assms(1)] by (auto simp: bindA_run)
  qed
qed

lemma keeps_foldA:
  assumes "reflp R" "transp R" "\<And>x b. x \<in> set xs \<Longrightarrow> keeps R (f x b)"
  shows "keeps R (foldA f xs b)"
  using assms(3)
proof (induction xs arbitrary: b)
  case Nil
  then show ?case
    using keeps_intros(1) [OF assms(1)] by simp
next
  case (Cons x xs)
  then show ?case
    by (auto intro!: keeps_bind [OF assms(2)])
qed

lemma keeps_call: "reflp R \<Longrightarrow> (\<And>s x s'. f s = Inr (x, s') \<Longrightarrow> R s s') \<Longrightarrow> keeps R (callA f)"
  by (auto simp: keeps_def callA_def reflp_def split: sum.splits)

lemma keeps_cases:
  "keeps R a \<Longrightarrow> keeps R b \<Longrightarrow> keeps R (if P then a else b)"
  "keeps R a \<Longrightarrow> (\<And>x. keeps R (f x)) \<Longrightarrow> keeps R (case v of None \<Rightarrow> a | Some x \<Rightarrow> f x)"
  "keeps R a \<Longrightarrow> (\<And>x xs. keeps R (h x xs)) \<Longrightarrow> keeps R (case l of [] \<Rightarrow> a | x # xs \<Rightarrow> h x xs)"
  "(\<And>x y. keeps R (k x y)) \<Longrightarrow> keeps R (case p of (x, y) \<Rightarrow> k x y)"
  "(\<And>e. keeps R (l1 e)) \<Longrightarrow> (\<And>x. keeps R (l2 x)) \<Longrightarrow> keeps R (case q of Inl e \<Rightarrow> l1 e | Inr x \<Rightarrow> l2 x)"
  by (simp_all split: option.split list.split prod.split sum.split)

lemma keeps_write: "(\<And>s. R s (f s)) \<Longrightarrow> keeps R (writeA f)"
  by (simp add: keeps_def)

lemma keeps_bind_result:
  assumes "transp R" "keeps R f" "\<And>s x t. f s = (Inr x, t) \<Longrightarrow> Q x" "\<And>x. Q x \<Longrightarrow> keeps R (g x)"
  shows "keeps R (bindA f g)"
  unfolding keeps_def
proof
  fix s
  obtain r t where f: "f s = (r, t)"
    by fastforce
  show "R s (snd (bindA f g s))"
  proof (cases r)
    case (Inl e)
    then show ?thesis
      using keepsD [OF assms(2) f] f by (simp add: bindA_run)
  next
    case (Inr x)
    have "R t (snd (g x t))"
      using assms(3) [of s x t] assms(4) [of x] f Inr by (simp add: keeps_def)
    then show ?thesis
      using keepsD [OF assms(2) f] f Inr transpD [OF assms(1)] by (auto simp: bindA_run)
  qed
qed

end
