(* ===== verification/Synthetic.thy ===== *)
theory Synthetic
  imports ScrapeBasics LedgerFrames Effects Examples IdBatch
begin

text \<open>
  \<^verbatim>\<open>src/scrape/synthetic.ts\<close>: the monthly payments of a card that the scrapers do not report. The
  function records a payment in the ledger for every row it returns, so it is an operation of the ledger
  state; the clock reading is an argument and log calls are left out.
\<close>

section \<open>The computation\<close>

definition SETTLE_DAYS :: int where
  "SETTLE_DAYS = 2"

definition PARTIAL_CYCLE_DAYS :: int where
  "PARTIAL_CYCLE_DAYS = 35"

type_synonym cycle = "iso_day \<times> rat \<times> nat"

definition charge_step :: "ledger_tx \<Rightarrow> cycle list \<Rightarrow> cycle list" where
  "charge_step row groups =
     (case truthy_text (tx_chargeDate row) of
        None \<Rightarrow> groups
      | Some d \<Rightarrow>
          let (ttl, cnt) = default (map_of groups d) (0, 0) in
          AList.update d (nadd ttl (tx_amount row), cnt + 1) groups)"

definition sumByChargeDate :: "ledger_tx list \<Rightarrow> cycle list" where
  "sumByChargeDate rows = fold charge_step rows []"

definition payment_row :: "ledger_account \<Rightarrow> company_config \<Rightarrow> iso_time \<Rightarrow> jsstr \<Rightarrow> iso_day \<Rightarrow> rat \<Rightarrow> nat \<Rightarrow> ledger_tx" where
  "payment_row account cc now i chargeDate amount cnt =
     with_id \<lparr>tx_accountId = acc_id account, tx_company = acc_company account, tx_identifier = None,
       tx_bookedDate = chargeDate, tx_chargeDate = Some chargeDate, tx_amount = amount,
       tx_currency = acc_currency account,
       tx_description = js ''Card payment '' @ co_label cc @ js '' '' @ chargeDate, tx_memo = None,
       tx_status = Posted, tx_postedSeenAt = None, tx_installmentNumber = None, tx_installmentTotal = None,
       tx_originalAmount = None, tx_originalCurrency = None, tx_category = None, tx_synthetic = True,
       tx_firstSeen = now, tx_lastSeen = now, tx_idSchemeVersion = ID_SCHEME_VERSION,
       tx_raw = JObj [(js ''synthetic'', JBool True), (js ''chargeDate'', JStr chargeDate), (js ''rows'', JNum (of_nat cnt))]\<rparr> i"

text \<open>The guards of the loop body, and the rounded amount.\<close>

definition payable :: "iso_day \<Rightarrow> iso_day list \<Rightarrow> iso_day option \<Rightarrow> cycle \<Rightarrow> bool" where
  "payable cutoff emitted partialUntil g \<longleftrightarrow>
     (case g of (chargeDate, ttl, cnt) \<Rightarrow>
       \<not> (cutoff < chargeDate \<or> chargeDate \<in> set emitted) \<and>
       \<not> (case partialUntil of None \<Rightarrow> False | Some u \<Rightarrow> chargeDate < u) \<and>
       \<not> \<bar>roundMoney (- ttl)\<bar> < fl (5 / 1000))"

definition payment_step ::
  "'l ledger_ops \<Rightarrow> ledger_account \<Rightarrow> company_config \<Rightarrow> iso_day \<Rightarrow> iso_day list \<Rightarrow> iso_day option \<Rightarrow> iso_time \<Rightarrow>
   cycle \<Rightarrow> ledger_tx list \<Rightarrow> ('l, ledger_tx list) act" where
  "payment_step L account cc cutoff emitted partialUntil now g created =
     (if \<not> payable cutoff emitted partialUntil g then retA created
      else case g of (chargeDate, ttl, cnt) \<Rightarrow>
        let amount = roundMoney (- ttl) in
        bindA (liftA (syntheticPaymentId (acc_company account) (acc_accountNumber account) chargeDate)) (\<lambda>i.
        bindA (callA (\<lambda>s. bindE (insertSyntheticPayment L \<lparr>syn_transactionId = i, syn_accountId = acc_id account,
            syn_chargeDate = chargeDate, syn_amount = amount, syn_emittedAt = now\<rparr> s) (\<lambda>s'. Inr ((), s')))) (\<lambda>_.
        retA (created @ [payment_row account cc now i chargeDate amount cnt]))))"

definition card_query :: "ledger_account \<Rightarrow> transaction_query" where
  "card_query account = \<lparr>q_accountIds = Some [acc_id account], q_from = None, q_to = None,
     q_includePending = False, q_includeSynthetic = False\<rparr>"

definition partial_bound :: "iso_day option \<Rightarrow> iso_day option res" where
  "partial_bound earliest =
     (case truthy_text earliest of None \<Rightarrow> Inr None
      | Some e \<Rightarrow> bindE (addDays e PARTIAL_CYCLE_DAYS) (\<lambda>u. Inr (Some u)))"

definition computeSyntheticPayments ::
  "(jsstr \<Rightarrow> jsstr \<Rightarrow> int) \<Rightarrow> 'l ledger_ops \<Rightarrow> ledger_account \<Rightarrow> company_config \<Rightarrow> iso_day \<Rightarrow> int \<Rightarrow> ('l, ledger_tx list) act" where
  "computeSyntheticPayments lc L account cc today now =
     (if \<not> co_synthesizePayments cc \<or> acc_kind account \<noteq> CreditCard then retA []
      else
        bindA (readA (listTransactions L (card_query account))) (\<lambda>rows.
        bindA (readA (\<lambda>s. map syn_chargeDate (listSyntheticPayments L (acc_id account) s))) (\<lambda>emitted.
        bindA (liftA (addDays today (- SETTLE_DAYS))) (\<lambda>cutoff.
        bindA (readA (earliestBookedDate L (acc_id account))) (\<lambda>earliest.
        bindA (liftA (partial_bound earliest)) (\<lambda>partialUntil.
        foldA (payment_step L account cc cutoff emitted partialUntil (iso_of_time now))
          (sort_by (\<lambda>a b. lc (fst a) (fst b)) (sumByChargeDate rows)) []))))))"

text \<open>The row and the payment of one cycle; the id exists when the cycle was paid.\<close>

definition cycle_id :: "ledger_account \<Rightarrow> iso_day \<Rightarrow> jsstr" where
  "cycle_id account d =
     (case syntheticPaymentId (acc_company account) (acc_accountNumber account) d of Inr i \<Rightarrow> i | Inl _ \<Rightarrow> [])"

definition cycle_row :: "ledger_account \<Rightarrow> company_config \<Rightarrow> iso_time \<Rightarrow> cycle \<Rightarrow> ledger_tx" where
  "cycle_row account cc now g =
     (case g of (d, ttl, cnt) \<Rightarrow> payment_row account cc now (cycle_id account d) d (roundMoney (- ttl)) cnt)"

definition cycle_payment :: "ledger_account \<Rightarrow> iso_time \<Rightarrow> cycle \<Rightarrow> synthetic_payment" where
  "cycle_payment account now g =
     (case g of (d, ttl, cnt) \<Rightarrow> \<lparr>syn_transactionId = cycle_id account d, syn_accountId = acc_id account,
        syn_chargeDate = d, syn_amount = roundMoney (- ttl), syn_emittedAt = now\<rparr>)"

text \<open>The posted total and number of rows of a charge date.\<close>

definition charged_on :: "iso_day \<Rightarrow> ledger_tx list \<Rightarrow> ledger_tx list" where
  "charged_on d rows = filter (\<lambda>r. truthy_text (tx_chargeDate r) = Some d) rows"

definition cycle_of :: "ledger_tx list \<Rightarrow> iso_day \<Rightarrow> rat \<times> nat" where
  "cycle_of rows d = (fold (\<lambda>r t. nadd t (tx_amount r)) (charged_on d rows) 0, length (charged_on d rows))"

definition due_cycles ::
  "(jsstr \<Rightarrow> jsstr \<Rightarrow> int) \<Rightarrow> ledger_tx list \<Rightarrow> synthetic_payment list \<Rightarrow> iso_day \<Rightarrow> iso_day option \<Rightarrow> cycle list" where
  "due_cycles lc rows paid cutoff partialUntil =
     filter (payable cutoff (map syn_chargeDate paid) partialUntil) (sort_by (\<lambda>a b. lc (fst a) (fst b)) (sumByChargeDate rows))"

lemma sumByChargeDate_snoc: "sumByChargeDate (rows @ [r]) = charge_step r (sumByChargeDate rows)"
  by (simp add: sumByChargeDate_def)

lemma sum_keys: "distinct (map fst (sumByChargeDate rows))"
  by (induction rows rule: rev_induct)
     (auto simp: sumByChargeDate_snoc charge_step_def Let_def distinct_update split: option.splits prod.splits, simp add: sumByChargeDate_def)

lemma sum_lookup: "map_of (sumByChargeDate rows) d = (if charged_on d rows = [] then None else Some (cycle_of rows d))"
proof (induction rows rule: rev_induct)
  case Nil
  then show ?case
    by (simp add: sumByChargeDate_def charged_on_def)
next
  case (snoc r rows)
  show ?case
  proof (cases "truthy_text (tx_chargeDate r)")
    case None
    with snoc show ?thesis
      by (simp add: sumByChargeDate_snoc charge_step_def cycle_of_def charged_on_def)
  next
    case (Some e)
    have old: "default (map_of (sumByChargeDate rows) d) (0, 0) = cycle_of rows d"
      by (simp add: snoc) (simp add: cycle_of_def)
    show ?thesis
    proof (cases "e = d")
      case True
      have "charged_on d (rows @ [r]) = charged_on d rows @ [r]"
        using Some True by (simp add: charged_on_def)
      with Some True old show ?thesis
        by (simp add: sumByChargeDate_snoc charge_step_def update_conv' cycle_of_def split_beta Let_def)
    next
      case False
      have "charged_on d (rows @ [r]) = charged_on d rows"
        using Some False by (simp add: charged_on_def)
      with Some False snoc show ?thesis
        by (simp add: sumByChargeDate_snoc charge_step_def update_conv' cycle_of_def split_beta Let_def)
    qed
  qed
qed

lemma due_cycles_facts:
  "distinct (map fst (due_cycles lc rows paid cutoff partialUntil))"
  "g \<in> set (due_cycles lc rows paid cutoff partialUntil) \<Longrightarrow>
    snd g = cycle_of rows (fst g) \<and> payable cutoff (map syn_chargeDate paid) partialUntil g"
proof -
  have d: "distinct (map fst (sort_by c (sumByChargeDate rows)))" for c
    using sum_keys [of rows] by (metis mset_map mset_sort_by distinct_count_atmost_1 mset_eq_imp_distinct_iff)
  show "distinct (map fst (due_cycles lc rows paid cutoff partialUntil))"
    unfolding due_cycles_def using d by (rule distinct_map_filter)
  show "g \<in> set (due_cycles lc rows paid cutoff partialUntil) \<Longrightarrow>
    snd g = cycle_of rows (fst g) \<and> payable cutoff (map syn_chargeDate paid) partialUntil g"
    using map_of_is_SomeI [OF sum_keys, of "fst g" "snd g" rows]
    by (auto simp: due_cycles_def sum_lookup split: if_splits)
qed

lemma filter_prefix: "filter P (take k xs) = take (length (filter P (take k xs))) (filter P xs)"
proof -
  have "filter P xs = filter P (take k xs) @ filter P (drop k xs)"
    by (metis append_take_drop_id filter_append)
  then show ?thesis
    by simp
qed

lemma payment_step_skip:
  "\<not> payable cutoff emitted partialUntil g \<Longrightarrow>
    payment_step L account cc cutoff emitted partialUntil now g created s = (Inr created, s)"
  by (simp add: payment_step_def)

lemma payment_step_pay:
  "payable cutoff emitted partialUntil (d, ttl, cnt) \<Longrightarrow>
    payment_step L account cc cutoff emitted partialUntil now (d, ttl, cnt) created s =
      (case syntheticPaymentId (acc_company account) (acc_accountNumber account) d of
         Inl e \<Rightarrow> (Inl e, s)
       | Inr i \<Rightarrow> (case insertSyntheticPayment L (cycle_payment account now (d, ttl, cnt)) s of
           Inl e \<Rightarrow> (Inl e, s)
         | Inr s' \<Rightarrow> (Inr (created @ [cycle_row account cc now (d, ttl, cnt)]), s')))"
  by (auto simp: payment_step_def cycle_payment_def cycle_row_def cycle_id_def callA_def bindA_def Let_def split: sum.splits)

section \<open>The stores it relies on\<close>

text \<open>
  A recorded payment is listed after the earlier ones of its account, and nothing the computation reads
  of the transactions changes.
\<close>

locale payment_store =
  fixes L :: "'l ledger_ops" and inv :: "'l \<Rightarrow> bool"
  assumes insert_inv: "inv s \<Longrightarrow> insertSyntheticPayment L p s = Inr s' \<Longrightarrow> inv s'"
    and list_insert: "inv s \<Longrightarrow> insertSyntheticPayment L p s = Inr s' \<Longrightarrow>
      listSyntheticPayments L a s' = listSyntheticPayments L a s @ (if syn_accountId p = a then [p] else [])"
    and insert_reads: "inv s \<Longrightarrow> insertSyntheticPayment L p s = Inr s' \<Longrightarrow>
      listTransactions L q s' = listTransactions L q s \<and> earliestBookedDate L a s' = earliestBookedDate L a s"
    and upsert_keeps: "inv s \<Longrightarrow> upsertTransactions L rows tz s = Inr (summary, s') \<Longrightarrow>
      inv s' \<and> listSyntheticPayments L a s' = listSyntheticPayments L a s"
begin

text \<open>What one cycle adds, and what a run over the cycles adds.\<close>

lemma fold_payments:
  assumes "foldA (payment_step L account cc cutoff emitted partialUntil now) gs created s = (r, s')" "inv s"
  shows "inv s' \<and> (\<forall>q a. listTransactions L q s' = listTransactions L q s \<and> earliestBookedDate L a s' = earliestBookedDate L a s) \<and>
    (\<exists>n \<le> length gs. let done = filter (payable cutoff emitted partialUntil) (take n gs) in
       (\<forall>a. listSyntheticPayments L a s' = listSyntheticPayments L a s @
          (if a = acc_id account then map (cycle_payment account now) done else [])) \<and>
       (\<forall>rows. r = Inr rows \<longrightarrow> n = length gs \<and> rows = created @ map (cycle_row account cc now) done))"
  using assms
proof (induction gs arbitrary: created s)
  case Nil
  then show ?case
    by auto
next
  case (Cons g gs)
  let ?P = "payable cutoff emitted partialUntil" and ?step = "payment_step L account cc cutoff emitted partialUntil now"
  obtain d ttl cnt where g: "g = (d, ttl, cnt)"
    by (cases g)
  show ?case
  proof (cases "?P g")
    case False
    then have "foldA ?step gs created s = (r, s')"
      using Cons.prems(1) by (simp add: foldA_run payment_step_skip del: foldA.simps)
    from Cons.IH [OF this Cons.prems(2)] obtain n where n: "n \<le> length gs" and
      rest: "inv s' \<and> (\<forall>q a. listTransactions L q s' = listTransactions L q s \<and> earliestBookedDate L a s' = earliestBookedDate L a s)"
        "\<forall>a. listSyntheticPayments L a s' = listSyntheticPayments L a s @
          (if a = acc_id account then map (cycle_payment account now) (filter ?P (take n gs)) else [])"
        "\<forall>rows. r = Inr rows \<longrightarrow> n = length gs \<and> rows = created @ map (cycle_row account cc now) (filter ?P (take n gs))"
      unfolding Let_def by blast
    show ?thesis
      unfolding Let_def by (intro conjI exI [of _ "Suc n"]) (use n rest False in auto)
  next
    case True
    let ?p = "cycle_payment account now g"
    have stop: ?thesis if "?step g created s = (Inl e, s)" for e
      using Cons.prems that by (auto simp: foldA_run Let_def intro: exI [of _ 0] simp del: foldA.simps)
    show ?thesis
    proof (cases "syntheticPaymentId (acc_company account) (acc_accountNumber account) d")
      case (Inl e)
      with True stop [of e] show ?thesis
        by (simp add: g payment_step_pay)
    next
      case id: (Inr i)
      show ?thesis
      proof (cases "insertSyntheticPayment L ?p s")
        case (Inl e)
        with True id stop [of e] show ?thesis
          by (simp add: g payment_step_pay)
      next
        case (Inr s1)
        then have "?step g created s = (Inr (created @ [cycle_row account cc now g]), s1)"
          using True id by (simp add: g payment_step_pay)
        then have "foldA ?step gs (created @ [cycle_row account cc now g]) s1 = (r, s')"
          using Cons.prems(1) by (simp add: foldA_run del: foldA.simps)
        from Cons.IH [OF this insert_inv [OF Cons.prems(2) Inr]] obtain n where n: "n \<le> length gs" and
          rest: "inv s' \<and> (\<forall>q a. listTransactions L q s' = listTransactions L q s1 \<and> earliestBookedDate L a s' = earliestBookedDate L a s1)"
            "\<forall>a. listSyntheticPayments L a s' = listSyntheticPayments L a s1 @
              (if a = acc_id account then map (cycle_payment account now) (filter ?P (take n gs)) else [])"
            "\<forall>rows. r = Inr rows \<longrightarrow> n = length gs \<and>
              rows = (created @ [cycle_row account cc now g]) @ map (cycle_row account cc now) (filter ?P (take n gs))"
          unfolding Let_def by blast
        have "listSyntheticPayments L a s1 = listSyntheticPayments L a s @ (if acc_id account = a then [?p] else [])" for a
          using list_insert [OF Cons.prems(2) Inr, of a] by (simp add: cycle_payment_def g)
        then show ?thesis
          unfolding Let_def by (intro conjI exI [of _ "Suc n"])
            (use n rest True insert_reads [OF Cons.prems(2) Inr] in auto)
      qed
    qed
  qed
qed

lemma compute_run:
  assumes "computeSyntheticPayments lc L account cc today now s = (r, s')" "inv s"
  shows "inv s' \<and> (\<forall>q. listTransactions L q s' = listTransactions L q s) \<and> (\<forall>a. earliestBookedDate L a s' = earliestBookedDate L a s) \<and>
    (\<exists>n cutoff partialUntil gs.
      gs = due_cycles lc (listTransactions L (card_query account) s) (listSyntheticPayments L (acc_id account) s) cutoff partialUntil \<and>
      (\<forall>a. listSyntheticPayments L a s' = listSyntheticPayments L a s @
        (if a = acc_id account then map (cycle_payment account (iso_of_time now)) (take n gs) else [])) \<and>
      (\<forall>rows. r = Inr rows \<longrightarrow> co_synthesizePayments cc \<longrightarrow> acc_kind account = CreditCard \<longrightarrow>
        addDays today (- SETTLE_DAYS) = Inr cutoff \<and> partial_bound (earliestBookedDate L (acc_id account) s) = Inr partialUntil \<and>
        rows = map (cycle_row account cc (iso_of_time now)) gs \<and> take n gs = gs))" (is ?thesis)
proof -
  have idle: ?thesis if "s' = s" "(\<exists>e. r = Inl e) \<or> \<not> co_synthesizePayments cc \<or> acc_kind account \<noteq> CreditCard"
    using assms(2) that by (intro conjI exI [of _ 0] exI) (rule refl | auto)+
  let ?rows = "listTransactions L (card_query account) s" and ?paid = "listSyntheticPayments L (acc_id account) s"
  show ?thesis
  proof (cases "\<not> co_synthesizePayments cc \<or> acc_kind account \<noteq> CreditCard")
    case True
    with assms(1) idle show ?thesis
      by (auto simp: computeSyntheticPayments_def)
  next
    case on: False
    show ?thesis
    proof (cases "addDays today (- SETTLE_DAYS)")
      case (Inl e)
      with assms(1) on idle show ?thesis
        by (auto simp: computeSyntheticPayments_def)
    next
      case cut: (Inr cutoff)
      show ?thesis
      proof (cases "partial_bound (earliestBookedDate L (acc_id account) s)")
        case (Inl e)
        with assms(1) on cut idle show ?thesis
          by (auto simp: computeSyntheticPayments_def)
      next
        case part: (Inr partialUntil)
        let ?sorted = "sort_by (\<lambda>a b. lc (fst a) (fst b)) (sumByChargeDate ?rows)"
        let ?P = "payable cutoff (map syn_chargeDate ?paid) partialUntil"
        have "foldA (payment_step L account cc cutoff (map syn_chargeDate ?paid) partialUntil (iso_of_time now)) ?sorted [] s = (r, s')"
          using assms(1) on cut part by (simp add: computeSyntheticPayments_def)
        from fold_payments [OF this assms(2)] obtain k where k: "inv s'"
          "\<forall>q a. listTransactions L q s' = listTransactions L q s \<and> earliestBookedDate L a s' = earliestBookedDate L a s"
          "k \<le> length ?sorted"
          "\<forall>a. listSyntheticPayments L a s' = listSyntheticPayments L a s @
            (if a = acc_id account then map (cycle_payment account (iso_of_time now)) (filter ?P (take k ?sorted)) else [])"
          "\<forall>rows. r = Inr rows \<longrightarrow> k = length ?sorted \<and>
            rows = [] @ map (cycle_row account cc (iso_of_time now)) (filter ?P (take k ?sorted))"
          unfolding Let_def by blast
        define gs where "gs = due_cycles lc ?rows ?paid cutoff partialUntil"
        define m where "m = length (filter ?P (take k ?sorted))"
        have gs: "gs = filter ?P ?sorted"
          by (simp add: gs_def due_cycles_def)
        have prefix: "filter ?P (take k ?sorted) = take m gs"
          unfolding gs m_def by (rule filter_prefix)
        have all: "take m gs = gs" if "r = Inr rows" for rows
          using k(5) that by (simp add: gs m_def)
        show ?thesis
        proof (intro conjI exI [of _ m] exI [of _ cutoff] exI [of _ partialUntil] exI [of _ gs])
          show "inv s'"
            by (rule k(1))
          show "\<forall>q. listTransactions L q s' = listTransactions L q s" "\<forall>a. earliestBookedDate L a s' = earliestBookedDate L a s"
            using k(2) by simp_all
          show "gs = due_cycles lc ?rows ?paid cutoff partialUntil"
            by (rule gs_def)
          show "\<forall>a. listSyntheticPayments L a s' = listSyntheticPayments L a s @
              (if a = acc_id account then map (cycle_payment account (iso_of_time now)) (take m gs) else [])"
            using k(4) unfolding prefix by simp
          show "\<forall>rows. r = Inr rows \<longrightarrow> co_synthesizePayments cc \<longrightarrow> acc_kind account = CreditCard \<longrightarrow>
              addDays today (- SETTLE_DAYS) = Inr cutoff \<and>
              partial_bound (earliestBookedDate L (acc_id account) s) = Inr partialUntil \<and>
              rows = map (cycle_row account cc (iso_of_time now)) gs \<and> take m gs = gs"
            using k(5) all cut part unfolding prefix append_Nil by (metis (no_types))
        qed
      qed
    qed
  qed
qed

lemma compute_once:
  assumes "computeSyntheticPayments lc L account cc today now s = (r, s')" "inv s"
  shows "inv s' \<and> (\<exists>ps. listSyntheticPayments L a s' = listSyntheticPayments L a s @ ps \<and> distinct (map syn_chargeDate ps) \<and>
    set (map syn_chargeDate ps) \<inter> set (map syn_chargeDate (listSyntheticPayments L a s)) = {})"
proof -
  from compute_run [OF assms] obtain n cutoff partialUntil gs where inv: "inv s'" and
    gs: "gs = due_cycles lc (listTransactions L (card_query account) s) (listSyntheticPayments L (acc_id account) s) cutoff partialUntil"
    and l: "\<And>a. listSyntheticPayments L a s' = listSyntheticPayments L a s @
      (if a = acc_id account then map (cycle_payment account (iso_of_time now)) (take n gs) else [])"
    by blast
  define ps where "ps = map (cycle_payment account (iso_of_time now)) (take n gs)"
  have dates: "map syn_chargeDate ps = map fst (take n gs)"
    by (auto simp: ps_def cycle_payment_def)
  have "distinct (map fst (take n gs))"
    using due_cycles_facts(1) unfolding gs by (metis distinct_take take_map)
  moreover have "fst g \<notin> set (map syn_chargeDate (listSyntheticPayments L (acc_id account) s))" if "g \<in> set (take n gs)" for g
    using due_cycles_facts(2) in_set_takeD [OF that] unfolding gs by (fastforce simp: payable_def)
  ultimately have new: "distinct (map syn_chargeDate ps)"
      "set (map syn_chargeDate ps) \<inter> set (map syn_chargeDate (listSyntheticPayments L (acc_id account) s)) = {}"
    unfolding dates by auto
  show ?thesis
  proof (cases "a = acc_id account")
    case True
    with l [of a] new inv show ?thesis
      by (auto simp add: ps_def [symmetric] simp del: set_map intro!: exI [of _ ps])
  next
    case False
    with l [of a] inv show ?thesis
      by (auto intro!: exI [of _ "[]"])
  qed
qed

end

interpretation mem_pay: payment_store "memory_ledger env lc" mem_inv for env lc
  by unfold_locales
     (auto simp: memory_ops mem_insertSyntheticPayment_def mem_listSyntheticPayments_def mem_listTransactions_def
       mem_earliestBookedDate_def dest: mem_upsert_keeps_inv mem_upsert_frame)

lemma payment_account_col: "col (synthetic_row p) ''account_id'' = Some (SText (syn_accountId p))"
  by (simp add: synthetic_row_def col_def)

interpretation sql_pay: payment_store "sqlite_ledger env printf2" "\<lambda>s. True" for env printf2
  by unfold_locales
     (auto simp: sqlite_ledger_def sql_insertSyntheticPayment_def sql_listSyntheticPayments_def sql_listTransactions_def
       sql_earliestBookedDate_def select_where_def payment_account_col split: if_splits
       dest: sql_upsert_frame)

section \<open>What is paid\<close>

lemma foldA_skip:
  "\<forall>g \<in> set gs. \<not> payable cutoff emitted partialUntil g \<Longrightarrow>
    foldA (payment_step L account cc cutoff emitted partialUntil now) gs created s = (Inr created, s)"
  by (induction gs) (simp_all add: foldA_run payment_step_skip del: foldA.simps(2))

lemma due_cycles_again:
  assumes "gs = due_cycles lc rows paid cutoff partialUntil" "g \<in> set (sort_by (\<lambda>a b. lc (fst a) (fst b)) (sumByChargeDate rows))"
  shows "\<not> payable cutoff (map syn_chargeDate (paid @ map (cycle_payment account now) gs)) partialUntil g"
proof
  assume p: "payable cutoff (map syn_chargeDate (paid @ map (cycle_payment account now) gs)) partialUntil g"
  then have "payable cutoff (map syn_chargeDate paid) partialUntil g"
    by (auto simp: payable_def)
  with assms have "g \<in> set gs"
    by (simp add: due_cycles_def)
  moreover have "syn_chargeDate (cycle_payment account now g) = fst g"
    by (cases g) (simp add: cycle_payment_def)
  moreover have "fst g \<notin> set (map syn_chargeDate (map (cycle_payment account now) gs))"
    using p by (auto simp: payable_def)
  ultimately show False
    by (metis image_eqI list.set_map)
qed

lemma fold_ids:
  "foldA (payment_step L account cc cutoff emitted partialUntil now) gs created s = (Inr rows, s') \<Longrightarrow> g \<in> set gs \<Longrightarrow>
    payable cutoff emitted partialUntil g \<Longrightarrow> syntheticPaymentId (acc_company account) (acc_accountNumber account) (fst g) = Inr (cycle_id account (fst g))"
proof (induction gs arbitrary: created s)
  case (Cons h gs)
  let ?step = "payment_step L account cc cutoff emitted partialUntil now"
  obtain r s1 where step: "?step h created s = (r, s1)" by fastforce
  with Cons.prems(1) obtain created1 where r: "r = Inr created1"
    by (cases r) (simp_all add: foldA_run del: foldA.simps)
  with Cons.prems(1) step have rest: "foldA ?step gs created1 s1 = (Inr rows, s')"
    by (simp add: foldA_run del: foldA.simps)
  show ?case
  proof (cases "g = h")
    case True
    obtain d ttl cnt where g: "g = (d, ttl, cnt)" by (cases g)
    from step [folded True] Cons.prems(3) show ?thesis
      unfolding g r by (cases "syntheticPaymentId (acc_company account) (acc_accountNumber account) d")
        (simp_all add: payment_step_pay cycle_id_def)
  next
    case False
    with Cons.IH [OF rest] Cons.prems(2,3) show ?thesis by simp
  qed
qed simp

text \<open>
  The rows of a card that are billed on a date, and the amount of the payment: their negated total, rounded to cents by
  the arithmetic of the code. The query is the posted rows of the account the bank reported.
\<close>

definition billed :: "ledger_account \<Rightarrow> sqlite_db \<Rightarrow> iso_day \<Rightarrow> ledger_tx list" where
  "billed account s d = charged_on d (sql_listTransactions
     \<lparr>q_accountIds = Some [acc_id account], q_from = None, q_to = None, q_includePending = False, q_includeSynthetic = False\<rparr> s)"

definition bill :: "ledger_account \<Rightarrow> sqlite_db \<Rightarrow> iso_day \<Rightarrow> rat" where
  "bill account s d = ndiv (of_int (math_round (nmul (- fold (\<lambda>r t. nadd t (tx_amount r)) (billed account s d) 0) 100))) 100"

text \<open>A date that is due: settled, not yet paid, past the first cycle, and with a total of at least half a cent.\<close>

definition due :: "ledger_account \<Rightarrow> sqlite_db \<Rightarrow> iso_day \<Rightarrow> iso_day \<Rightarrow> bool" where
  "due account s cutoff d \<longleftrightarrow> billed account s d \<noteq> [] \<and> d \<le> cutoff \<and>
     d \<notin> set (map syn_chargeDate (sql_listSyntheticPayments (acc_id account) s)) \<and>
     (\<forall>e u. truthy_text (sql_earliestBookedDate (acc_id account) s) = Some e \<and> addDays e 35 = Inr u \<longrightarrow> u \<le> d) \<and>
     fl (5 / 1000) \<le> \<bar>bill account s d\<bar>"

text \<open>The row of a payment, and its record in the ledger.\<close>

definition pays :: "ledger_account \<Rightarrow> sqlite_db \<Rightarrow> iso_day \<Rightarrow> ledger_tx \<Rightarrow> bool" where
  "pays account s d row \<longleftrightarrow> tx_accountId row = acc_id account \<and> tx_company row = acc_company account \<and>
     syntheticPaymentId (acc_company account) (acc_accountNumber account) d = Inr (tx_id row) \<and>
     tx_bookedDate row = d \<and> tx_chargeDate row = Some d \<and> tx_amount row = bill account s d \<and> tx_currency row = acc_currency account \<and>
     tx_status row = Posted \<and> tx_synthetic row"

definition payment_of :: "iso_time \<Rightarrow> ledger_tx \<Rightarrow> synthetic_payment" where
  "payment_of now row = \<lparr>syn_transactionId = tx_id row, syn_accountId = tx_accountId row, syn_chargeDate = tx_bookedDate row,
     syn_amount = tx_amount row, syn_emittedAt = now\<rparr>"

lemma due_payable:
  assumes "partial_bound (sql_earliestBookedDate (acc_id account) s) = Inr partialUntil"
  shows "d \<in> fst ` set (due_cycles lc (sql_listTransactions (card_query account) s) (sql_listSyntheticPayments (acc_id account) s) cutoff partialUntil)
    \<longleftrightarrow> due account s cutoff d"
proof -
  let ?rows = "sql_listTransactions (card_query account) s" and ?paid = "sql_listSyntheticPayments (acc_id account) s"
  have rows: "billed account s d = charged_on d ?rows" and amount: "bill account s d = roundMoney (- fst (cycle_of ?rows d))"
    by (simp_all add: billed_def bill_def card_query_def cycle_of_def roundMoney_def)
  have "d \<in> fst ` set (due_cycles lc ?rows ?paid cutoff partialUntil) \<longleftrightarrow>
      charged_on d ?rows \<noteq> [] \<and> payable cutoff (map syn_chargeDate ?paid) partialUntil (d, cycle_of ?rows d)"
  proof
    assume "d \<in> fst ` set (due_cycles lc ?rows ?paid cutoff partialUntil)"
    then obtain c where c: "(d, c) \<in> set (sumByChargeDate ?rows)" "payable cutoff (map syn_chargeDate ?paid) partialUntil (d, c)"
      by (auto simp: due_cycles_def)
    from map_of_is_SomeI [OF sum_keys c(1)] c(2) show "charged_on d ?rows \<noteq> [] \<and>
        payable cutoff (map syn_chargeDate ?paid) partialUntil (d, cycle_of ?rows d)"
      by (auto simp: sum_lookup split: if_splits)
  next
    assume p: "charged_on d ?rows \<noteq> [] \<and> payable cutoff (map syn_chargeDate ?paid) partialUntil (d, cycle_of ?rows d)"
    then have "map_of (sumByChargeDate ?rows) d = Some (cycle_of ?rows d)"
      by (simp add: sum_lookup)
    from map_of_SomeD [OF this] p show "d \<in> fst ` set (due_cycles lc ?rows ?paid cutoff partialUntil)"
      by (force simp: due_cycles_def)
  qed
  moreover have "(case partialUntil of None \<Rightarrow> False | Some u \<Rightarrow> d < u) \<longleftrightarrow>
      \<not> (\<forall>e u. truthy_text (sql_earliestBookedDate (acc_id account) s) = Some e \<and> addDays e 35 = Inr u \<longrightarrow> u \<le> d)"
    using assms by (auto simp: partial_bound_def PARTIAL_CYCLE_DAYS_def not_le split: option.splits)
  ultimately show ?thesis
    unfolding due_def rows amount by (cases "cycle_of ?rows d") (auto simp: payable_def not_less)
qed

text \<open>
  C19: the synthetic payments of a card are exact. On the SQLite ledger a successful computation returns one
  row per due date, in the order of the locale: a charge date at least two days ago, without a payment
  yet, at least 35 days after the first booked row, and whose posted rows do not cancel out. The amount is the negated
  total of exactly the posted rows of that charge date, rounded to cents; each payment is recorded once, and computing again
  the same day creates nothing and writes nothing.
\<close>

theorem synthetic_rows_exact:
  assumes run: "computeSyntheticPayments lc (sqlite_ledger env printf2) account cc today now s = (Inr rows, s')"
    and card: "co_synthesizePayments cc" "acc_kind account = CreditCard" and lc: "consistent_compare lc"
  shows "\<exists>cutoff days. addDays today (- 2) = Inr cutoff \<and>
    set days = {d. due account s cutoff d} \<and> distinct days \<and> sorted_wrt (\<lambda>d e. lc d e \<le> 0) days \<and>
    list_all2 (pays account s) days rows \<and>
    sql_listSyntheticPayments (acc_id account) s' =
      sql_listSyntheticPayments (acc_id account) s @ map (payment_of (iso_of_time now)) rows \<and>
    (\<forall>later. computeSyntheticPayments lc (sqlite_ledger env printf2) account cc today later s' = (Inr [], s'))"
proof -
  let ?L = "sqlite_ledger env printf2" and ?rows = "sql_listTransactions (card_query account) s"
  let ?paid = "sql_listSyntheticPayments (acc_id account) s"
  have ops: "listTransactions ?L = sql_listTransactions" "listSyntheticPayments ?L = sql_listSyntheticPayments"
    "earliestBookedDate ?L = sql_earliestBookedDate"
    by (simp_all add: sqlite_ledger_def)
  from sql_pay.compute_run [OF run TrueI] card obtain cutoff partialUntil gs where
    same: "\<forall>q. sql_listTransactions q s' = sql_listTransactions q s" "\<forall>a. sql_earliestBookedDate a s' = sql_earliestBookedDate a s"
    and gs: "gs = due_cycles lc ?rows ?paid cutoff partialUntil"
    and paid: "sql_listSyntheticPayments (acc_id account) s' = ?paid @ map (cycle_payment account (iso_of_time now)) gs"
    and rows: "addDays today (- SETTLE_DAYS) = Inr cutoff"
      "partial_bound (sql_earliestBookedDate (acc_id account) s) = Inr partialUntil" "rows = map (cycle_row account cc (iso_of_time now)) gs"
    unfolding ops by force
  have folded: "foldA (payment_step ?L account cc cutoff (map syn_chargeDate ?paid) partialUntil (iso_of_time now))
      (sort_by (\<lambda>a b. lc (fst a) (fst b)) (sumByChargeDate ?rows)) [] s = (Inr rows, s')"
    using run card rows(1,2) by (simp add: computeSyntheticPayments_def ops)
  have fact: "pays account s (fst g) (cycle_row account cc (iso_of_time now) g)" if "g \<in> set gs" for g
  proof -
    obtain d ttl cnt where g: "g = (d, ttl, cnt)" by (cases g)
    have total: "(ttl, cnt) = cycle_of ?rows d" and due: "payable cutoff (map syn_chargeDate ?paid) partialUntil g"
      using due_cycles_facts(2) that unfolding gs g by fastforce+
    have "g \<in> set (sort_by (\<lambda>a b. lc (fst a) (fst b)) (sumByChargeDate ?rows))"
      using that unfolding gs due_cycles_def by simp
    from fold_ids [OF folded this due] have "syntheticPaymentId (acc_company account) (acc_accountNumber account) d = Inr (cycle_id account d)"
      by (simp add: g)
    with total show ?thesis
      by (simp add: g pays_def cycle_row_def payment_row_def with_id_def ledger_tx.defs tx_row.defs bill_def billed_def card_query_def cycle_of_def roundMoney_def)
  qed
  have "payment_of (iso_of_time now) (cycle_row account cc (iso_of_time now) g) = cycle_payment account (iso_of_time now) g" for g
    by (cases g) (simp add: payment_of_def cycle_row_def cycle_payment_def payment_row_def with_id_def ledger_tx.defs tx_row.defs)
  then have recorded: "sql_listSyntheticPayments (acc_id account) s' = ?paid @ map (payment_of (iso_of_time now)) rows"
    using paid rows(3) by simp
  have "sorted_wrt (\<lambda>a b. lc (fst a) (fst b) \<le> 0) (sort_by (\<lambda>a b. lc (fst a) (fst b)) (sumByChargeDate ?rows))"
    using consistent_comparator_on [OF consistent_pull [OF lc, of fst], of UNIV] by (intro sorted_sort_by [of UNIV]) simp_all
  then have order: "sorted_wrt (\<lambda>d e. lc d e \<le> 0) (map fst gs)"
    unfolding gs due_cycles_def sorted_wrt_map by (rule sorted_wrt_filter)
  have again: "computeSyntheticPayments lc ?L account cc today later s' = (Inr [], s')" for later
    using card rows(1,2) same paid due_cycles_again [OF gs]
    by (simp add: computeSyntheticPayments_def ops foldA_skip)
  show ?thesis
  proof (intro exI conjI allI)
    show "addDays today (- 2) = Inr cutoff" using rows(1) by (simp add: SETTLE_DAYS_def)
    show "set (map fst gs) = {d. due account s cutoff d}"
      using due_payable [OF rows(2), of _ lc cutoff] unfolding gs by auto
    show "distinct (map fst gs)" unfolding gs by (rule due_cycles_facts(1))
    show "list_all2 (pays account s) (map fst gs) rows"
      using fact by (auto simp: rows(3) list_all2_map1 list_all2_map2 intro: list.rel_refl_strong)
  qed (rule order recorded again)+
qed

text \<open>A card with one posted purchase, billed on 2 July and computed on 10 July.\<close>

definition example_card :: ledger_account where
  "example_card = \<lparr>acc_id = js ''cal:1'', acc_company = js ''cal'', acc_accountNumber = js ''1'', acc_kind = CreditCard,
     acc_currency = js ''ILS'', acc_name = js ''Card'', acc_balance = None, acc_balanceAt = None,
     acc_firstSeen = js ''2024-05-02T06:00:00.000Z'', acc_lastSeen = js ''2024-05-02T06:00:00.000Z'', acc_raw = JUndef\<rparr>"

definition example_paid :: company_config where
  "example_paid = example_company\<lparr>co_synthesizePayments := True\<rparr>"

definition card_row :: ledger_tx where
  "card_row = with_id (example_row (js ''cal:1'') (Some (js ''2024-07-02''))) (js ''a'')"

definition charged :: sqlite_db where
  "charged = empty_db\<lparr>db_transactions := [transaction_row card_row]\<rparr>"

lemma example_amounts: "nadd 0 (-12) = -12" "roundMoney 12 = 12"
proof -
  have "\<lfloor>2401 / 2 :: rat\<rfloor> = 1200"
    by (simp add: floor_eq_iff)
  then show "nadd 0 (-12) = -12" "roundMoney 12 = 12"
    using fl_int [of 12] fl_int [of "-12"] fl_int [of 1200]
    by (simp_all add: roundMoney_def nadd_def nmul_def ndiv_def math_round_def)
qed

lemma half_cent: "fl (5 / 1000) < 12"
proof -
  have "(1 / 2 :: rat) ^ 1022 = (1 / 2) ^ 8 * (1 / 2) ^ 1014"
    by (simp only: power_add [symmetric]) simp
  moreover have "(1 / 2 :: rat) ^ 1014 \<le> 1"
    by (rule power_le_one) simp_all
  ultimately have "(2::rat) powi (- 1022) \<le> 1 / 200"
    by (simp add: power_int_def power_one_over)
  then have "\<bar>fl (5 / 1000) - 5 / 1000\<bar> \<le> \<bar>5 / 1000\<bar> / 2 ^ 53"
    using fl_error [of "5 / 1000"] by simp
  also have "\<bar>5 / 1000\<bar> / 2 ^ 53 \<le> (1 :: rat)"
    by simp
  finally show ?thesis
    unfolding abs_le_iff by linarith
qed

lemma example_days:
  "addDays (js ''2024-05-01'') 35 = Inr (js ''2024-06-05'')"
  "addDays (js ''2024-07-10'') (- 2) = Inr (js ''2024-07-08'')"
proof -
  note eval = day_of_def make_day_def Let_def day_from_year_def month_start_def leap_def civil_def year_from_day_def month_from_doy_def
  have "date_of (js ''2024-05-01'') (2024, 5, 1)" "date_of (js ''2024-07-10'') (2024, 7, 10)"
    by (simp add: date_of_def valid_date_def leap_def month_start_def, code_simp)+
  moreover have "day_of (2024, 5, 1) = 19844" "civil 19879 = (2024, 6, 5)" "day_of (2024, 7, 10) = 19914" "civil 19912 = (2024, 7, 8)"
    by (simp_all add: eval)
  moreover have "iso_date (2024, 6, 5) = js ''2024-06-05''" "iso_date (2024, 7, 8) = js ''2024-07-08''"
    by code_simp+
  ultimately show "addDays (js ''2024-05-01'') 35 = Inr (js ''2024-06-05'')"
    "addDays (js ''2024-07-10'') (- 2) = Inr (js ''2024-07-08'')"
    using addDays_day [of "js ''2024-05-01''" "(2024, 5, 1)" 35] addDays_day [of "js ''2024-07-10''" "(2024, 7, 10)" "- 2"]
    by (simp_all only: fst_conv) simp_all
qed

lemma example_reads:
  "sql_listTransactions (card_query example_card) charged = [card_row]"
  "sql_earliestBookedDate (js ''cal:1'') charged = Some (js ''2024-05-01'')"
  "sql_listSyntheticPayments (js ''cal:1'') charged = []"
  by code_simp+

lemma example_cycle_id: "syntheticPaymentId (js ''cal'') (js ''1'') (js ''2024-07-02'') = Inr (js ''cal:1:payment:2024-07-02'')"
  by (simp add: syntheticPaymentId_def id_eval)

lemma example_cycles: "sumByChargeDate [card_row] = [(js ''2024-07-02'', -12, 1)]"
proof -
  have "tx_chargeDate card_row = Some (js ''2024-07-02'')" "tx_amount card_row = -12"
    by (simp_all add: card_row_def example_row_def with_id_def tx_row.defs ledger_tx.defs)
  then show ?thesis
    using example_amounts(1) by (simp add: sumByChargeDate_def charge_step_def truthy_text_def)
qed

lemma example_cycle:
  "\<exists>s'. computeSyntheticPayments cmp_of (sqlite_ledger env printf2) example_card example_paid (js ''2024-07-10'') now charged =
    (Inr [cycle_row example_card example_paid (iso_of_time now) (js ''2024-07-02'', -12, 1)], s')"
proof -
  let ?L = "sqlite_ledger env printf2" and ?g = "(js ''2024-07-02'', -12, 1)"
  have card: "acc_id example_card = js ''cal:1''" "acc_company example_card = js ''cal''" "acc_accountNumber example_card = js ''1''"
    "acc_kind example_card = CreditCard" "co_synthesizePayments example_paid"
    by (simp_all add: example_card_def example_paid_def)
  have due: "payable (js ''2024-07-08'') [] (Some (js ''2024-06-05'')) ?g"
    using example_amounts half_cent by (simp add: payable_def)
  have pay: "insertSyntheticPayment ?L p charged = Inr (charged\<lparr>db_synthetic := [synthetic_row p]\<rparr>)" for p
    by (simp add: sqlite_ledger_def sql_insertSyntheticPayment_def charged_def empty_db_def get_where_def)
  have ops: "listTransactions ?L = sql_listTransactions" "listSyntheticPayments ?L = sql_listSyntheticPayments"
    "earliestBookedDate ?L = sql_earliestBookedDate"
    by (simp_all add: sqlite_ledger_def)
  have part: "partial_bound (Some (js ''2024-05-01'')) = Inr (Some (js ''2024-06-05''))"
    using example_days(1) by (simp add: partial_bound_def truthy_text_def PARTIAL_CYCLE_DAYS_def)
  have run: "computeSyntheticPayments cmp_of ?L example_card example_paid (js ''2024-07-10'') now charged =
      foldA (payment_step ?L example_card example_paid (js ''2024-07-08'') [] (Some (js ''2024-06-05'')) (iso_of_time now)) [?g] [] charged"
    unfolding computeSyntheticPayments_def ops SETTLE_DAYS_def
    using card(1,4,5) example_reads example_cycles example_days(2) part by simp
  show ?thesis
    unfolding run foldA_run payment_step_pay [OF due] card example_cycle_id pay by simp
qed

theorem synthetic_rows_exact_witness:
  "\<exists>row s'. computeSyntheticPayments cmp_of (sqlite_ledger example_env (\<lambda>a. [])) example_card example_paid (js ''2024-07-10'') 1720587600000 charged = (Inr [row], s') \<and>
    computeSyntheticPayments cmp_of (sqlite_ledger example_env (\<lambda>a. [])) example_card example_paid (js ''2024-07-10'') 1720591200000 s' = (Inr [], s')"
proof -
  obtain s' where run: "computeSyntheticPayments cmp_of (sqlite_ledger example_env (\<lambda>a. [])) example_card example_paid (js ''2024-07-10'') 1720587600000 charged =
      (Inr [cycle_row example_card example_paid (iso_of_time 1720587600000) (js ''2024-07-02'', -12, 1)], s')"
    using example_cycle by blast
  have "co_synthesizePayments example_paid" "acc_kind example_card = CreditCard"
    by (simp_all add: example_card_def example_paid_def)
  from synthetic_rows_exact [OF run this consistent_cmp_of] run show ?thesis
    by blast
qed

section \<open>Over the life of a ledger\<close>

text \<open>
  Any interleaving of scrapes and payment computations, for any accounts, in any order; a computation that
  fails half-way leaves what it wrote.
\<close>

datatype card_event =
    StoreRows "ledger_tx list" "jsstr option"
  | ComputePayments ledger_account company_config iso_day int

definition card_step :: "(jsstr \<Rightarrow> jsstr \<Rightarrow> int) \<Rightarrow> 'l ledger_ops \<Rightarrow> card_event \<Rightarrow> 'l \<Rightarrow> 'l" where
  "card_step lc L ev s =
     (case ev of
        StoreRows rows tz \<Rightarrow> (case upsertTransactions L rows tz s of Inl e \<Rightarrow> s | Inr (summary, s') \<Rightarrow> s')
      | ComputePayments account cc today now \<Rightarrow> snd (computeSyntheticPayments lc L account cc today now s))"

text \<open>Payments are only appended, and the new ones are for charge dates not paid before.\<close>

definition pays_once :: "'l ledger_ops \<Rightarrow> jsstr \<Rightarrow> 'l \<Rightarrow> 'l \<Rightarrow> bool" where
  "pays_once L a s s' \<longleftrightarrow>
     (\<exists>ps. listSyntheticPayments L a s' = listSyntheticPayments L a s @ ps \<and> distinct (map syn_chargeDate ps) \<and>
       set (map syn_chargeDate ps) \<inter> set (map syn_chargeDate (listSyntheticPayments L a s)) = {})"

lemma pays_once_refl: "listSyntheticPayments L a s' = listSyntheticPayments L a s \<Longrightarrow> pays_once L a s s'"
  by (simp add: pays_once_def)

lemma pays_once_trans: "pays_once L a s t \<Longrightarrow> pays_once L a t u \<Longrightarrow> pays_once L a s u"
  unfolding pays_once_def
  by (elim exE conjE, rule_tac x = "ps @ psa" in exI) (auto simp: disjoint_iff)

context payment_store
begin

lemma card_step_pays_once:
  assumes "inv s"
  shows "inv (card_step lc L ev s) \<and> pays_once L a s (card_step lc L ev s)"
proof (cases ev)
  case (StoreRows rows tz)
  then show ?thesis
    using assms upsert_keeps [OF assms, of rows tz]
    by (auto simp: card_step_def pays_once_refl split: sum.splits)
next
  case (ComputePayments account cc today now)
  obtain r s' where "computeSyntheticPayments lc L account cc today now s = (r, s')"
    by fastforce
  with compute_once [OF this assms, of a] ComputePayments show ?thesis
    by (simp add: card_step_def pays_once_def)
qed

lemma card_run_pays_once:
  assumes "inv s"
  shows "inv (fold (card_step lc L) evs s) \<and> pays_once L a s (fold (card_step lc L) evs s)"
  using assms
proof (induction evs arbitrary: s)
  case Nil
  then show ?case
    by (simp add: pays_once_refl)
next
  case (Cons ev evs)
  with card_step_pays_once [OF Cons.prems, of lc ev a] show ?case
    by (auto intro: pays_once_trans)
qed

end

text \<open>
  A card cycle is paid at most once and its amount is frozen. On the SQLite ledger, whatever scrapes and
  computations follow, for whatever accounts and also when some of them fail half-way, the payments already
  recorded for an account stay as they are, in order, and every payment added is for a charge date of that
  account without a payment, so that charge dates paid once each stay paid once each.
\<close>

theorem cycles_paid_once:
  assumes "distinct (map syn_chargeDate (sql_listSyntheticPayments a s))"
    and "s' = fold (card_step lc (sqlite_ledger env printf2)) evs s"
  shows "distinct (map syn_chargeDate (sql_listSyntheticPayments a s')) \<and>
    (\<exists>new. sql_listSyntheticPayments a s' = sql_listSyntheticPayments a s @ new)"
proof -
  have "listSyntheticPayments (sqlite_ledger env printf2) = sql_listSyntheticPayments"
    by (simp add: sqlite_ledger_def)
  with sql_pay.card_run_pays_once [OF TrueI, where a = a and s = s and lc = lc and evs = evs and env = env and ?printf2.0 = printf2] assms show ?thesis
    unfolding pays_once_def by (auto simp: disjoint_iff, metis image_eqI)
qed

theorem cycles_paid_once_witness:
  "distinct (map syn_chargeDate (sql_listSyntheticPayments (js ''cal:1'')
     (fold (card_step cmp_of (sqlite_ledger example_env (\<lambda>a. [])))
       [ComputePayments example_card example_paid (js ''2024-07-10'') 1720587600000, StoreRows [card_row] None,
        ComputePayments example_card example_paid (js ''2024-08-10'') 1723266000000] charged)))"
  by (rule cycles_paid_once [THEN conjunct1, OF _ refl]) (unfold example_reads(3), simp)

end
