(* ===== verification/Log.thy ===== *)
theory Log
  imports JsJson IsoTime
begin

text \<open>
  \<^verbatim>\<open>src/log.ts\<close>: the redaction list and the lines of the logger. The set of secrets is a list in
  insertion order; printing a line is returning it.
\<close>

section \<open>The redaction list\<close>

definition redact :: "jsstr option \<Rightarrow> jsstr list \<Rightarrow> jsstr list" where
  "redact v secrets =
     (case v of None \<Rightarrow> secrets
      | Some s \<Rightarrow> if length s \<ge> 4 \<and> s \<notin> set secrets then secrets @ [s] else secrets)"

text \<open>\<^verbatim>\<open>text.split(w).join(r)\<close> for a nonempty \<open>w\<close>: the leftmost occurrences are replaced, without overlap.\<close>

function replace_all :: "jsstr \<Rightarrow> jsstr \<Rightarrow> jsstr \<Rightarrow> jsstr" where
  "replace_all w r s =
     (if w = [] \<or> s = [] then s
      else if take (length w) s = w then r @ replace_all w r (drop (length w) s)
      else hd s # replace_all w r (tl s))"
  by pat_completeness auto
termination
  by (relation "measure (\<lambda>(w, r, s). length s)") (auto simp: diff_less_mono2)

declare replace_all.simps [simp del]

definition redacted :: jsstr where
  "redacted = js ''[redacted]''"

definition scrub :: "jsstr list \<Rightarrow> jsstr \<Rightarrow> jsstr" where
  "scrub secrets t = fold (\<lambda>secret out. replace_all secret redacted out) secrets t"

section \<open>Lines\<close>

definition pad_end :: "nat \<Rightarrow> nat \<Rightarrow> jsstr \<Rightarrow> jsstr" where
  "pad_end n c s = s @ replicate (n - length s) c"

definition log_line :: "jsstr list \<Rightarrow> int \<Rightarrow> jsstr \<Rightarrow> jsstr \<Rightarrow> jsstr \<Rightarrow> (jsstr \<times> jsval) list option \<Rightarrow> jsstr" where
  "log_line secrets now level scope message extra =
     (let suffix = (case extra of None \<Rightarrow> []
            | Some ps \<Rightarrow> if ps = [] then [] else js '' '' @ json_text (JObj ps))
      in scrub secrets (iso_of_time now @ js '' '' @ pad_end 5 32 level @ js '' ['' @ scope @ js ''] '' @ message @ suffix))"

text \<open>What the four methods print; a debug line only when the logger is verbose.\<close>

datatype log_level = LInfo | LWarn | LError | LDebug

definition log_call ::
  "bool \<Rightarrow> jsstr list \<Rightarrow> int \<Rightarrow> jsstr \<Rightarrow> log_level \<Rightarrow> jsstr \<Rightarrow> (jsstr \<times> jsval) list option \<Rightarrow> jsstr option" where
  "log_call verbose secrets now scope level message extra =
     (case level of
        LInfo \<Rightarrow> Some (log_line secrets now (js ''info'') scope message extra)
      | LWarn \<Rightarrow> Some (log_line secrets now (js ''warn'') scope message extra)
      | LError \<Rightarrow> Some (log_line secrets now (js ''error'') scope message extra)
      | LDebug \<Rightarrow> if verbose then Some (log_line secrets now (js ''debug'') scope message extra) else None)"

definition child_scope :: "jsstr \<Rightarrow> jsstr \<Rightarrow> jsstr" where
  "child_scope scope child = scope @ js '':'' @ child"

section \<open>A registered secret is in no line\<close>

fun occurs :: "jsstr \<Rightarrow> jsstr \<Rightarrow> bool" where
  "occurs w [] \<longleftrightarrow> w = []"
| "occurs w (c # s) \<longleftrightarrow> take (length w) (c # s) = w \<or> occurs w s"

text \<open>No overlap with the replacement text is possible.\<close>

definition bracket_free :: "jsstr \<Rightarrow> bool" where
  "bracket_free w \<longleftrightarrow> w \<noteq> [] \<and> 91 \<notin> set w \<and> 93 \<notin> set w \<and> \<not> occurs w (js ''redacted'')"

lemma occurs_drop: "occurs w (drop n s) \<Longrightarrow> occurs w s"
  by (induction s arbitrary: n) (auto simp: drop_Cons split: nat.splits)

lemma occurs_across:
  assumes "c \<notin> set w" "w \<noteq> []"
  shows "occurs w (a @ c # b) \<longleftrightarrow> occurs w a \<or> occurs w b"
proof (induction a)
  case Nil
  have "take (length w) (c # b) \<noteq> w"
    using assms by (cases w) auto
  then show ?case
    using assms(2) by simp
next
  case (Cons x a)
  have "take (length w) (x # a @ c # b) = w \<longleftrightarrow> take (length w) (x # a) = w"
  proof (cases "length w \<le> length (x # a)")
    case True
    then show ?thesis
      by (simp add: take_Cons split: nat.splits)
  next
    case False
    then have "length (x # a) < length w"
      by simp
    then obtain k where "length w = Suc (length (x # a) + k)"
      by (blast dest: less_imp_Suc_add)
    then have "c \<in> set (take (length w) ((x # a) @ c # b))"
      by simp
    moreover have "take (length w) (x # a) \<noteq> w"
      using False by auto
    ultimately show ?thesis
      using assms(1) by (metis append_Cons)
  qed
  with Cons show ?case
    by simp
qed

lemma occurs_redacted: "bracket_free w \<Longrightarrow> occurs w (redacted @ s) \<longleftrightarrow> occurs w s"
  using occurs_across [of 91 w "[]" "js ''redacted'' @ 93 # s"] occurs_across [of 93 w "js ''redacted''" s]
  by (auto simp: bracket_free_def redacted_def)

lemma replace_Nil [simp]: "replace_all w r [] = []"
  by (simp add: replace_all.simps)

lemma replace_Cons:
  "w \<noteq> [] \<Longrightarrow> replace_all w r (c # s) =
    (if take (length w) (c # s) = w then r @ replace_all w r (drop (length w) (c # s)) else c # replace_all w r s)"
  by (simp add: replace_all.simps [of w r "c # s"])

lemma replace_same_prefix:
  "91 \<notin> set (take n (replace_all v redacted s)) \<Longrightarrow> take n (replace_all v redacted s) = take n s"
proof (induction s arbitrary: n)
  case (Cons c s)
  show ?case
  proof (cases "v = []")
    case True
    then show ?thesis
      by (simp add: replace_all.simps)
  next
    case False
    with Cons show ?thesis
      by (cases n) (auto simp: replace_Cons redacted_def)
  qed
qed simp

text \<open>At the head of a replaced text an occurrence was there before.\<close>

lemma head_before:
  assumes "bracket_free w" "take (length w) (c # replace_all v redacted s) = w"
  shows "take (length w) (c # s) = w"
proof -
  obtain d u where w: "w = d # u"
    using assms(1) by (cases w) (auto simp: bracket_free_def)
  have u: "take (length u) (replace_all v redacted s) = u" and "d = c"
    using assms(2) by (auto simp: w)
  moreover have "91 \<notin> set u"
    using assms(1) by (simp add: bracket_free_def w)
  ultimately show ?thesis
    using replace_same_prefix [of "length u" v s] by (simp add: w)
qed

lemma replace_own: "bracket_free w \<Longrightarrow> \<not> occurs w (replace_all w redacted s)"
proof (induction s rule: length_induct)
  case (1 s)
  then have ne: "w \<noteq> []"
    by (simp add: bracket_free_def)
  show ?case
  proof (cases s)
    case Nil
    then show ?thesis
      using ne by simp
  next
    case (Cons c t)
    have "length (drop (length w) s) < length s" "length t < length s"
      using ne Cons by simp_all
    then have "\<not> occurs w (replace_all w redacted (drop (length w) s))" "\<not> occurs w (replace_all w redacted t)"
      using 1 by blast+
    then show ?thesis
      using head_before [OF 1(2), of c w t] 1(2) ne by (auto simp: Cons replace_Cons occurs_redacted)
  qed
qed

lemma replace_other: "bracket_free w \<Longrightarrow> \<not> occurs w s \<Longrightarrow> \<not> occurs w (replace_all v redacted s)"
proof (induction s rule: length_induct)
  case (1 s)
  show ?case
  proof (cases "v = [] \<or> s = []")
    case True
    then show ?thesis
      using 1(3) by (simp add: replace_all.simps)
  next
    case False
    then obtain c t where s: "s = c # t"
      by (cases s) auto
    have "length (drop (length v) s) < length s" "length t < length s"
      using False s by simp_all
    moreover have "\<not> occurs w (drop (length v) s)" "\<not> occurs w t"
      using 1(3) occurs_drop [of w "length v" s] by (auto simp: s)
    ultimately have "\<not> occurs w (replace_all v redacted (drop (length v) s))" "\<not> occurs w (replace_all v redacted t)"
      using 1(1,2) by blast+
    then show ?thesis
      using head_before [OF 1(2), of c v t] 1(2,3) False by (auto simp: s replace_Cons occurs_redacted)
  qed
qed

lemma scrub_absent: "bracket_free w \<Longrightarrow> \<not> occurs w t \<Longrightarrow> \<not> occurs w (scrub secrets t)"
  by (induction secrets arbitrary: t) (simp_all add: scrub_def replace_other)

lemma scrub_removes: "bracket_free w \<Longrightarrow> w \<in> set secrets \<Longrightarrow> \<not> occurs w (scrub secrets t)"
proof (induction secrets arbitrary: t)
  case (Cons v secrets)
  have step: "scrub (v # secrets) t = scrub secrets (replace_all v redacted t)"
    by (simp add: scrub_def)
  show ?case
  proof (cases "w = v")
    case True
    then show ?thesis
      using scrub_absent [OF Cons.prems(1) replace_own] Cons.prems(1) by (simp add: step)
  next
    case False
    then show ?thesis
      using Cons by (simp add: step)
  qed
qed simp

lemma log_line_clean: "bracket_free w \<Longrightarrow> w \<in> set secrets \<Longrightarrow> \<not> occurs w (log_line secrets now level scope message extra)"
  unfolding log_line_def Let_def by (rule scrub_removes)

text \<open>
  C20: a registered secret is in no log line. Whatever is logged, at whatever level, and however the secrets
  overlap each other in the text, no secret of at least four characters without square brackets that is
  not part of the word redacted occurs in a line printed after it was registered.
\<close>

theorem log_never_prints_secret:
  assumes "bracket_free secret" "length secret \<ge> 4"
    and "set (redact (Some secret) secrets) \<subseteq> set registered"
    and "log_call verbose registered now scope level message extra = Some line"
  shows "\<not> occurs secret line"
proof -
  have "secret \<in> set registered"
    using assms(2,3) by (auto simp: redact_def split: if_splits)
  with assms(1,4) show ?thesis
    by (auto simp: log_call_def log_line_clean split: log_level.splits if_splits)
qed

theorem log_never_prints_secret_witness:
  "\<exists>line. log_call False (redact (Some (js ''hunter2'')) []) 0 (js ''bridge'') LInfo (js ''password is hunter2'') None = Some line \<and>
    \<not> occurs (js ''hunter2'') line"
proof -
  have "bracket_free (js ''hunter2'')"
    by (simp add: bracket_free_def)
  moreover obtain line where "log_call False (redact (Some (js ''hunter2'')) []) 0 (js ''bridge'') LInfo (js ''password is hunter2'') None = Some line"
    by (simp add: log_call_def)
  moreover have "4 \<le> length (js ''hunter2'')"
    by simp
  ultimately show ?thesis
    using log_never_prints_secret [OF _ _ subset_refl] by blast
qed

end
