(* ===== verification/OnePassword.thy ===== *)
theory OnePassword
  imports Log JsInteger Ids Effects Normalize
begin

text \<open>
  \<^verbatim>\<open>src/secrets/onepassword.ts\<close>. The Connect server is a parameter that answers the n-th request of the
  process, so its answers may change over time; the token file is one too. The state holds the client,
  the cached vault list and item ids, the requests made and the redaction list. Calls are sequential.
\<close>

section \<open>References\<close>

definition OP_PREFIX :: jsstr where
  "OP_PREFIX = js ''op://''"

definition isOpReference :: "jsstr \<Rightarrow> bool" where
  "isOpReference v = starts_with v OP_PREFIX"

record op_reference =
  op_vault :: jsstr
  op_item :: jsstr
  op_field :: jsstr

definition parseOpReference :: "jsstr \<Rightarrow> op_reference option" where
  "parseOpReference reference =
     (if \<not> isOpReference reference then None
      else case split_on 47 (drop (length OP_PREFIX) reference) of
        [vault, item, field] \<Rightarrow>
          if list_ex (\<lambda>part. js_trim part = []) [vault, item, field] then None
          else Some \<lparr>op_vault = js_trim vault, op_item = js_trim item, op_field = js_trim field\<rparr>
      | _ \<Rightarrow> None)"

text \<open>\<^verbatim>\<open>JSON.stringify\<close> of the sorted entries, hashed.\<close>

definition credentialFingerprint :: "(nat list \<Rightarrow> jsstr) \<Rightarrow> (jsstr \<Rightarrow> jsstr \<Rightarrow> int) \<Rightarrow> (jsstr \<times> jsstr) list \<Rightarrow> jsstr" where
  "credentialFingerprint sha lc values =
     (let entries = sort_by (\<lambda>a b. lc (fst a) (fst b)) values in
      sha (utf8 (json_text (JArr (map (\<lambda>(k, v). JArr [JStr k, JStr v]) entries)))))"

section \<open>Items\<close>

record connect_vault =
  cv_vaultId :: jsstr
  cv_name :: jsstr

record connect_summary =
  cs_id :: jsstr
  cs_title :: jsstr

text \<open>The value of a field is whatever the server sent.\<close>

record connect_field =
  cf_id :: "jsstr option"
  cf_label :: "jsstr option"
  cf_purpose :: "jsstr option"
  cf_value :: jsval

definition selectField :: "connect_field list \<Rightarrow> jsstr \<Rightarrow> connect_field option" where
  "selectField candidates fieldReference =
     (let wanted = to_lower fieldReference in
      case List.find (\<lambda>f. map_option to_lower (cf_label f) = Some wanted) candidates of
        Some f \<Rightarrow> Some f
      | None \<Rightarrow>
         (case List.find (\<lambda>f. cf_id f = Some fieldReference) candidates of
            Some f \<Rightarrow> Some f
          | None \<Rightarrow>
              if wanted = js ''username'' then List.find (\<lambda>f. cf_purpose f = Some (js ''USERNAME'')) candidates
              else if wanted = js ''password'' then List.find (\<lambda>f. cf_purpose f = Some (js ''PASSWORD'')) candidates
              else None))"

section \<open>The Connect client and the resolver\<close>

text \<open>A request path is kept as its parts.\<close>

datatype connect_path = VaultsPath | ItemsPath jsstr jsstr | ItemPath jsstr jsstr

record op_env =
  oe_host :: "jsstr option"
  oe_tokenFile :: "jsstr option"
  oe_disabled :: bool
  oe_readFile :: "jsstr \<Rightarrow> jsstr res"
  oe_vaults :: "nat \<Rightarrow> connect_vault list res"
  oe_items :: "nat \<Rightarrow> jsstr \<Rightarrow> jsstr \<Rightarrow> connect_summary list res"
  oe_item :: "nat \<Rightarrow> jsstr \<Rightarrow> jsstr \<Rightarrow> connect_field list option res"

record op_state =
  os_client :: bool
  os_vaults :: "connect_vault list option"
  os_itemIds :: "((jsstr \<times> jsstr) \<times> jsstr) list"
  os_requests :: "connect_path list"
  os_secrets :: "jsstr list"

definition fresh_resolver :: "jsstr list \<Rightarrow> op_state" where
  "fresh_resolver secrets = \<lparr>os_client = False, os_vaults = None, os_itemIds = [], os_requests = [], os_secrets = secrets\<rparr>"

definition readToken :: "op_env \<Rightarrow> jsstr \<Rightarrow> (op_state, jsstr) act" where
  "readToken env tokenFile =
     bindA (liftA (oe_readFile env tokenFile)) (\<lambda>content.
       let token = js_trim content in
       if token = [] then throwA (OtherError ''token file is empty'')
       else bindA (writeA (\<lambda>s. s\<lparr>os_secrets := redact (Some token) (os_secrets s)\<rparr>)) (\<lambda>_. retA token))"

definition getClient :: "op_env \<Rightarrow> (op_state, unit) act" where
  "getClient env =
     bindA (readA os_client) (\<lambda>client.
       if client then retA ()
       else case (truthy_text (oe_host env), truthy_text (oe_tokenFile env)) of
         (Some host, Some tokenFile) \<Rightarrow>
           bindA (readToken env tokenFile) (\<lambda>_. writeA (\<lambda>s. s\<lparr>os_client := True\<rparr>))
       | _ \<Rightarrow> throwA (OtherError ''1Password Connect is not configured''))"

definition connect_get :: "connect_path \<Rightarrow> (nat \<Rightarrow> 'a res) \<Rightarrow> (op_state, 'a) act" where
  "connect_get path answer =
     bindA (readA (\<lambda>s. length (os_requests s))) (\<lambda>n.
     bindA (writeA (\<lambda>s. s\<lparr>os_requests := os_requests s @ [path]\<rparr>)) (\<lambda>_. liftA (answer n)))"

text \<open>A failed request is not cached.\<close>

definition resolveVaultId :: "op_env \<Rightarrow> jsstr \<Rightarrow> (op_state, jsstr) act" where
  "resolveVaultId env vaultReference =
     bindA (readA os_vaults) (\<lambda>cached.
     bindA (case cached of
         Some vaults \<Rightarrow> retA vaults
       | None \<Rightarrow>
           bindA (getClient env) (\<lambda>_.
           bindA (connect_get VaultsPath (oe_vaults env)) (\<lambda>vaults.
           bindA (writeA (\<lambda>s. s\<lparr>os_vaults := Some vaults\<rparr>)) (\<lambda>_. retA vaults)))) (\<lambda>vaults.
     case orelse (List.find (\<lambda>v. cv_vaultId v = vaultReference) vaults) (List.find (\<lambda>v. cv_name v = vaultReference) vaults) of
       None \<Rightarrow> throwA (OtherError ''1Password vault not found'')
     | Some vault \<Rightarrow> retA (cv_vaultId vault)))"

definition item_id_shape :: "jsstr \<Rightarrow> bool" where
  "item_id_shape s \<longleftrightarrow> length s = 26 \<and> list_all (\<lambda>c. is_digit c \<or> is_lower c) s"

definition lookupItemId :: "op_env \<Rightarrow> jsstr \<Rightarrow> jsstr \<Rightarrow> (op_state, jsstr) act" where
  "lookupItemId env vaultId itemReference =
     bindA (liftA (encodeURIComponent (js ''title eq '' @ [34] @ itemReference @ [34]))) (\<lambda>titleFilter.
     bindA (getClient env) (\<lambda>_.
     bindA (connect_get (ItemsPath vaultId titleFilter) (\<lambda>n. oe_items env n vaultId titleFilter)) (\<lambda>matches.
       case filter (\<lambda>i. cs_title i = itemReference) matches of
         [i] \<Rightarrow> retA (cs_id i)
       | [] \<Rightarrow> if item_id_shape itemReference then retA itemReference
               else throwA (OtherError ''1Password item not found'')
       | _ \<Rightarrow> throwA (OtherError ''1Password item is ambiguous''))))"

definition resolveItemId :: "op_env \<Rightarrow> jsstr \<Rightarrow> jsstr \<Rightarrow> (op_state, jsstr) act" where
  "resolveItemId env vaultId itemReference =
     bindA (readA (\<lambda>s. map_of (os_itemIds s) (vaultId, itemReference))) (\<lambda>cached.
       case cached of
         Some i \<Rightarrow> retA i
       | None \<Rightarrow>
           bindA (lookupItemId env vaultId itemReference) (\<lambda>i.
           bindA (writeA (\<lambda>s. s\<lparr>os_itemIds := ((vaultId, itemReference), i) # os_itemIds s\<rparr>)) (\<lambda>_. retA i)))"

text \<open>The items fetched by one call of \<^verbatim>\<open>resolveAll\<close>, by vault and item id.\<close>

type_synonym item_cache = "((jsstr \<times> jsstr) \<times> connect_field list option) list"

definition fetchItem :: "op_env \<Rightarrow> jsstr \<Rightarrow> jsstr \<Rightarrow> (op_state, connect_field list option) act" where
  "fetchItem env vaultId itemId =
     bindA (getClient env) (\<lambda>_. connect_get (ItemPath vaultId itemId) (\<lambda>n. oe_item env n vaultId itemId))"

definition cachedItem :: "op_env \<Rightarrow> jsstr \<Rightarrow> jsstr \<Rightarrow> item_cache \<Rightarrow> (op_state, connect_field list option \<times> item_cache) act" where
  "cachedItem env vaultId itemId cache =
     (case map_of cache (vaultId, itemId) of
        Some item \<Rightarrow> retA (item, cache)
      | None \<Rightarrow> bindA (fetchItem env vaultId itemId) (\<lambda>item. retA (item, ((vaultId, itemId), item) # cache)))"

definition resolveReference :: "op_env \<Rightarrow> jsstr \<Rightarrow> item_cache \<Rightarrow> (op_state, jsstr \<times> item_cache) act" where
  "resolveReference env reference cache =
     (if \<not> isOpReference reference then retA (reference, cache)
      else if oe_disabled env then throwA (OtherError ''OP_DISABLED is set but a 1Password reference was found'')
      else case parseOpReference reference of
        None \<Rightarrow> throwA (OtherError ''Malformed 1Password reference'')
      | Some parsed \<Rightarrow>
          bindA (resolveVaultId env (op_vault parsed)) (\<lambda>vaultId.
          bindA (resolveItemId env vaultId (op_item parsed)) (\<lambda>itemId.
          bindA (cachedItem env vaultId itemId cache) (\<lambda>(item, cache').
            case Option.bind (selectField (default item []) (op_field parsed))
                (\<lambda>f. case cf_value f of JStr v \<Rightarrow> truthy_text (Some v) | _ \<Rightarrow> None) of
              None \<Rightarrow> throwA (OtherError ''1Password item has no usable field'')
            | Some v \<Rightarrow> bindA (writeA (\<lambda>s. s\<lparr>os_secrets := redact (Some v) (os_secrets s)\<rparr>)) (\<lambda>_. retA (v, cache'))))))"

definition resolve_step ::
  "op_env \<Rightarrow> jsstr \<times> jsstr \<Rightarrow> (jsstr \<times> jsstr) list \<times> item_cache \<Rightarrow> (op_state, (jsstr \<times> jsstr) list \<times> item_cache) act" where
  "resolve_step env entry st =
     (case entry of (key, v) \<Rightarrow> case st of (resolved, cache) \<Rightarrow>
      bindA (resolveReference env v cache) (\<lambda>(r, cache'). retA (resolved @ [(key, r)], cache')))"

definition resolveAll :: "op_env \<Rightarrow> (jsstr \<times> jsstr) list \<Rightarrow> (op_state, (jsstr \<times> jsstr) list) act" where
  "resolveAll env values = bindA (foldA (resolve_step env) values ([], [])) (\<lambda>(resolved, cache). retA resolved)"

definition resolve :: "op_env \<Rightarrow> jsstr \<Rightarrow> (op_state, jsstr) act" where
  "resolve env reference = bindA (resolveReference env reference []) (\<lambda>(v, cache). retA v)"

section \<open>What a resolution does\<close>

text \<open>Secrets are only added; without Connect nothing changes at all.\<close>

definition learns :: "op_state \<Rightarrow> op_state \<Rightarrow> bool" where
  "learns s s' \<longleftrightarrow> set (os_secrets s) \<subseteq> set (os_secrets s')"

lemma learns_order [simp, intro]: "reflp learns" "transp learns"
  by (auto simp: learns_def reflp_def transp_def)

lemma redact_learns: "set secrets \<subseteq> set (redact v secrets)"
  by (auto simp: redact_def split: option.splits)

lemma learns_write: "(\<And>s. learns s (f s)) \<Longrightarrow> keeps learns (writeA f)"
  by (rule keeps_write)

lemma learns_basic: "keeps learns (liftA r)" "keeps learns (readA h)"
  by (auto intro: keeps_intros)

lemmas learns_rules = keeps_bind [OF learns_order(2)] learns_basic learns_write keeps_cases

lemma readToken_learns: "keeps learns (readToken env f)"
  unfolding readToken_def Let_def by (intro learns_rules) (simp add: learns_def redact_learns)

lemma getClient_learns: "keeps learns (getClient env)"
  unfolding getClient_def by (intro learns_rules readToken_learns) (simp add: learns_def)

lemma connect_get_learns: "keeps learns (connect_get path answer)"
  unfolding connect_get_def by (intro learns_rules) (simp add: learns_def)

lemma resolveVaultId_learns: "keeps learns (resolveVaultId env v)"
  unfolding resolveVaultId_def by (intro learns_rules getClient_learns connect_get_learns) (simp add: learns_def)

lemma resolveItemId_learns: "keeps learns (resolveItemId env v i)"
  unfolding resolveItemId_def lookupItemId_def by (intro learns_rules getClient_learns connect_get_learns) (simp add: learns_def)

lemma cachedItem_learns: "keeps learns (cachedItem env v i cache)"
  unfolding cachedItem_def fetchItem_def by (intro learns_rules getClient_learns connect_get_learns)

text \<open>A resolved reference is registered before it is returned.\<close>

lemma resolveReference_ok:
  assumes "resolveReference env reference cache s = (Inr (v, cache'), s')"
  shows "if isOpReference reference
    then learns s s' \<and> v \<noteq> [] \<and> (4 \<le> length v \<longrightarrow> v \<in> set (os_secrets s')) \<and> \<not> oe_disabled env \<and> parseOpReference reference \<noteq> None
    else v = reference \<and> s' = s"
proof (cases "isOpReference reference")
  case False
  with assms show ?thesis
    by (simp add: resolveReference_def)
next
  case True
  with assms obtain parsed where p: "\<not> oe_disabled env" "parseOpReference reference = Some parsed"
    by (auto simp: resolveReference_def split: if_splits option.splits)
  from assms True p obtain vaultId s1 itemId s2 item c s3 where
    r: "resolveVaultId env (op_vault parsed) s = (Inr vaultId, s1)" "resolveItemId env vaultId (op_item parsed) s1 = (Inr itemId, s2)"
      "cachedItem env vaultId itemId cache s2 = (Inr (item, c), s3)"
    and last: "(case Option.bind (selectField (default item []) (op_field parsed))
                (\<lambda>f. case cf_value f of JStr v \<Rightarrow> truthy_text (Some v) | _ \<Rightarrow> None) of
              None \<Rightarrow> throwA (OtherError ''1Password item has no usable field'')
            | Some v \<Rightarrow> bindA (writeA (\<lambda>s. s\<lparr>os_secrets := redact (Some v) (os_secrets s)\<rparr>)) (\<lambda>_. retA (v, c))) s3 = (Inr (v, cache'), s')"
    unfolding resolveReference_def by (auto simp: bindA_ok)
  have "learns s s3"
    using keepsD [OF resolveVaultId_learns r(1)] keepsD [OF resolveItemId_learns r(2)] keepsD [OF cachedItem_learns r(3)]
    by (auto simp: learns_def)
  moreover from last obtain f where f: "selectField (default item []) (op_field parsed) = Some f" "cf_value f = JStr v" "v \<noteq> []"
    and s': "s' = s3\<lparr>os_secrets := redact (Some v) (os_secrets s3)\<rparr>"
    by (auto simp: truthy_text_def split: option.splits bind_splits jsval.splits if_splits)
  ultimately show ?thesis
    using True p redact_learns [of "os_secrets s3" "Some v"] by (auto simp: learns_def redact_def)
qed

definition registered_as :: "op_state \<Rightarrow> jsstr \<times> jsstr \<Rightarrow> jsstr \<times> jsstr \<Rightarrow> bool" where
  "registered_as s entry out \<longleftrightarrow>
     fst out = fst entry \<and>
     (if isOpReference (snd entry) then snd out \<noteq> [] \<and> (4 \<le> length (snd out) \<longrightarrow> snd out \<in> set (os_secrets s))
      else snd out = snd entry)"

lemma registered_later: "learns s s' \<Longrightarrow> registered_as s e r \<Longrightarrow> registered_as s' e r"
  by (auto simp: registered_as_def learns_def split: if_splits)

lemma resolve_step_eq:
  "resolve_step env (k, v) (acc, cache) = bindA (resolveReference env v cache) (\<lambda>(r, c). retA (acc @ [(k, r)], c))"
  by (simp add: resolve_step_def)

lemma resolve_fold:
  "foldA (resolve_step env) entries (acc, cache) s = (Inr (out, cache'), s') \<Longrightarrow>
    \<exists>rs. out = acc @ rs \<and> list_all2 (registered_as s') entries rs \<and> learns s s'"
proof (induction entries arbitrary: acc cache s)
  case Nil
  then show ?case
    by (simp add: learns_def)
next
  case (Cons e entries)
  obtain k v where e: "e = (k, v)"
    by fastforce
  from Cons.prems obtain r c s1 where
    r: "resolveReference env v cache s = (Inr (r, c), s1)" "foldA (resolve_step env) entries (acc @ [(k, r)], c) s1 = (Inr (out, cache'), s')"
    by (auto simp: e resolve_step_eq bindA_ok)
  from Cons.IH [OF r(2)] obtain rs where rs: "out = (acc @ [(k, r)]) @ rs" "list_all2 (registered_as s') entries rs" "learns s1 s'"
    by blast
  have "learns s s1" "registered_as s1 e (k, r)"
    using resolveReference_ok [OF r(1)] by (auto simp: e registered_as_def learns_def split: if_splits)
  with rs registered_later [OF rs(3)] show ?case
    by (auto simp: learns_def)
qed

text \<open>
  A resolved credential is registered for redaction. A successful resolution returns the configured
  credentials key by key, a literal as it is and a reference as a nonempty value, and every value that came
  from 1Password and has at least four characters is in the redaction list when the call returns; the list
  never loses an entry.
\<close>

theorem resolved_secrets_registered:
  assumes "resolveAll env entries s = (Inr resolved, s')"
  shows "list_all2 (registered_as s') entries resolved \<and> set (os_secrets s) \<subseteq> set (os_secrets s')"
proof -
  from assms obtain cache where "foldA (resolve_step env) entries ([], []) s = (Inr (resolved, cache), s')"
    by (auto simp: resolveAll_def bindA_ok)
  from resolve_fold [OF this] show ?thesis
    by (auto simp: learns_def)
qed

text \<open>A server with one vault, one item and a changed password.\<close>

definition example_op :: op_env where
  "example_op = \<lparr>oe_host = Some (js ''http://connect''), oe_tokenFile = Some (js ''/token''), oe_disabled = False,
     oe_readFile = (\<lambda>f. Inr (js ''token-1'')),
     oe_vaults = (\<lambda>n. Inr [\<lparr>cv_vaultId = js ''v'', cv_name = js ''Banks''\<rparr>]),
     oe_items = (\<lambda>n v f. Inr [\<lparr>cs_id = js ''i'', cs_title = js ''Max''\<rparr>]),
     oe_item = (\<lambda>n v i. Inr (Some [\<lparr>cf_id = None, cf_label = Some (js ''Password''), cf_purpose = None, cf_value = JStr (js ''hunter2'')\<rparr>]))\<rparr>"

definition example_entries :: "(jsstr \<times> jsstr) list" where
  "example_entries = [(js ''username'', js ''me''), (js ''password'', js ''op://Banks/Max/password'')]"

lemma example_reference:
  "\<exists>c s'. resolveReference example_op (js ''op://Banks/Max/password'') [] s = (Inr (js ''hunter2'', c), s')" if "s = fresh_resolver []"
  by (simp add: that resolveReference_def parseOpReference_def isOpReference_def starts_with_def OP_PREFIX_def js_trim_def is_space_def
    resolveVaultId_def resolveItemId_def lookupItemId_def cachedItem_def fetchItem_def getClient_def readToken_def connect_get_def
    selectField_def to_lower_def lower_unit_def is_upper_def truthy_text_def fresh_resolver_def example_op_def
    uri_unreserved_def char_class_defs is_high_def is_low_def utf8_cp_def pct_def hex_char_def Let_def bindA_def)

theorem resolved_secrets_registered_witness:
  "\<exists>s'. resolveAll example_op example_entries (fresh_resolver []) =
      (Inr [(js ''username'', js ''me''), (js ''password'', js ''hunter2'')], s') \<and> js ''hunter2'' \<in> set (os_secrets s')"
proof -
  have ref: "isOpReference (js ''op://Banks/Max/password'')" "\<not> isOpReference (js ''me'')"
    by code_simp+
  obtain c s' where r: "resolveReference example_op (js ''op://Banks/Max/password'') [] (fresh_resolver []) = (Inr (js ''hunter2'', c), s')"
    using example_reference by blast
  have lit: "resolveReference example_op (js ''me'') [] (fresh_resolver []) = (Inr (js ''me'', []), fresh_resolver [])"
    using ref(2) unfolding resolveReference_def by simp
  have run: "resolveAll example_op example_entries (fresh_resolver []) = (Inr [(js ''username'', js ''me''), (js ''password'', js ''hunter2'')], s')"
    using r lit by (simp add: resolveAll_def example_entries_def resolve_step_eq bindA_def)
  have "js ''hunter2'' \<in> set (os_secrets s')"
    using resolved_secrets_registered [OF run] ref(1) by (simp add: example_entries_def registered_as_def)
  with run show ?thesis
    by blast
qed

section \<open>Without Connect\<close>

lemma literal_fold:
  "list_all (\<lambda>e. \<not> isOpReference (snd e)) entries \<Longrightarrow>
    foldA (resolve_step env) entries (acc, cache) s = (Inr (acc @ entries, cache), s)"
  by (induction entries arbitrary: acc) (auto simp: resolve_step_def resolveReference_def)

lemma disabled_fold:
  "oe_disabled env \<Longrightarrow> \<not> list_all (\<lambda>e. \<not> isOpReference (snd e)) entries \<Longrightarrow>
    \<exists>e. foldA (resolve_step env) entries (acc, cache) s = (Inl e, s)"
proof (induction entries arbitrary: acc)
  case (Cons x entries)
  obtain k v where "x = (k, v)"
    by fastforce
  with Cons show ?case
    by (cases "isOpReference v") (auto simp: resolve_step_def resolveReference_def bindA_def)
qed simp

text \<open>
  Without references, or with 1Password disabled, the resolver stays offline. Credentials that are all
  literals come back unchanged without a request, without reading the token file and without any change of
  the resolver; with 1Password disabled a configuration with a reference fails, again without any effect.
\<close>

theorem offline_without_references:
  assumes "oe_disabled env \<or> list_all (\<lambda>e. \<not> isOpReference (snd e)) entries"
  shows "snd (resolveAll env entries s) = s \<and>
    (if list_all (\<lambda>e. \<not> isOpReference (snd e)) entries then fst (resolveAll env entries s) = Inr entries
     else \<exists>e. fst (resolveAll env entries s) = Inl e)"
proof (cases "list_all (\<lambda>e. \<not> isOpReference (snd e)) entries")
  case True
  then show ?thesis
    by (simp add: resolveAll_def literal_fold bindA_def)
next
  case False
  with assms disabled_fold [of env entries "[]" "[]" s] show ?thesis
    by (auto simp: resolveAll_def bindA_def)
qed

theorem offline_without_references_witness:
  "resolveAll example_op [(js ''username'', js ''me'')] (fresh_resolver []) = (Inr [(js ''username'', js ''me'')], fresh_resolver [])"
proof -
  have "list_all (\<lambda>e. \<not> isOpReference (snd e)) [(js ''username'', js ''me'')]"
    by code_simp
  with offline_without_references [of example_op "[(js ''username'', js ''me'')]" "fresh_resolver []"] show ?thesis
    by (simp add: prod_eq_iff)
qed

end
