(* ===== verification/Scheduler.thy ===== *)
theory Scheduler
  imports Synthetic OnePassword
begin

text \<open>
  \<^verbatim>\<open>src/scrape/scheduler.ts\<close> on any ledger. What the outside world answers during one company's run,
  the clock readings, the credentials, the profile directory, the run id and the outcome of the bank
  scraper, is the input of that run. The calls of the scraper are recorded in the state, so that an attempt
  that ends in an exception is still visible. Log calls are left out; the cron timer only calls \<^verbatim>\<open>runNow\<close>.
\<close>

section \<open>Inputs and state\<close>

record run_options =
  ro_company :: "company_id option"
  ro_from :: "iso_day option"
  ro_backfillFrom :: "iso_day option"
  ro_force :: bool

record sched_env =
  se_calendar :: "int \<Rightarrow> jsstr \<Rightarrow> iso_day res"
  se_sha :: "nat list \<Rightarrow> jsstr"
  se_lc :: "jsstr \<Rightarrow> jsstr \<Rightarrow> int"

text \<open>\<open>None\<close> stands for a rejected promise.\<close>

record run_input =
  ri_runId :: jsstr
  ri_started :: int
  ri_guarded :: int
  ri_today :: int
  ri_computed :: "jsstr \<Rightarrow> int"
  ri_applied :: int
  ri_finished :: int
  ri_credentials :: "(jsstr \<times> jsstr) list option"
  ri_profileDir :: "jsstr res"
  ri_outcome :: "source_run_outcome option"

record run_context =
  rc_company :: company_id
  rc_config :: company_config
  rc_credentials :: "(jsstr \<times> jsstr) list"
  rc_startDate :: js_date
  rc_timezone :: jsstr
  rc_defaultCurrency :: jsstr
  rc_profileDir :: jsstr

record 'l sched =
  sd_ledger :: 'l
  sd_running :: bool
  sd_calls :: "run_context list"

definition onLedger :: "('l, 'a) act \<Rightarrow> ('l sched, 'a) act" where
  "onLedger f = (\<lambda>d. case f (sd_ledger d) of (r, s') \<Rightarrow> (r, d\<lparr>sd_ledger := s'\<rparr>))"

section \<open>Rules\<close>

definition BACKOFF_HOURS :: "int list" where
  "BACKOFF_HOURS = [1, 3]"

definition parking_error :: "scrape_error_type \<Rightarrow> bool" where
  "parking_error e \<longleftrightarrow>
     e \<in> {INVALID_PASSWORD, CHANGE_PASSWORD, ACCOUNT_BLOCKED, OTP_REQUIRED, TWO_FACTOR_RETRIEVER_MISSING}"

definition DEFAULT_LOOKBACK_DAYS :: int where
  "DEFAULT_LOOKBACK_DAYS = 365"

definition defaultSourceState :: "company_id \<Rightarrow> source_state" where
  "defaultSourceState company = \<lparr>st_company = company, st_lastRunAt = None, st_lastSuccessAt = None, st_lastErrorAt = None,
     st_lastErrorType = None, st_lastErrorMessage = None, st_consecutiveFailures = 0, st_parked = False,
     st_parkedReason = None, st_parkedAt = None, st_credentialFingerprint = None, st_nextAllowedAt = None,
     st_loginAttemptsDate = None, st_loginAttempts = 0, st_earliestScrapedDate = None\<rparr>"

definition unparked :: "source_state \<Rightarrow> source_state" where
  "unparked st = st\<lparr>st_parked := False, st_parkedReason := None, st_parkedAt := None, st_nextAllowedAt := None,
     st_consecutiveFailures := 0\<rparr>"

definition unparkCompany :: "'l ledger_ops \<Rightarrow> company_id \<Rightarrow> 'l \<Rightarrow> bool \<times> 'l" where
  "unparkCompany L company s =
     (case getSourceState L company s of
        None \<Rightarrow> (False, s)
      | Some st \<Rightarrow> (True, upsertSourceState L ((unparked st)\<lparr>st_loginAttempts := 0\<rparr>) s))"

definition day_start :: "iso_day \<Rightarrow> js_date" where
  "day_start d = date_parse (d @ js ''T00:00:00.000Z'')"

definition shifted :: "js_date \<Rightarrow> int \<Rightarrow> js_date" where
  "shifted t ms = Option.bind t (\<lambda>x. time_clip (x + ms))"

definition computeWindowStart ::
  "company_config \<Rightarrow> source_state \<Rightarrow> int \<Rightarrow> iso_day option \<Rightarrow> iso_day option \<Rightarrow> int \<Rightarrow> js_date res" where
  "computeWindowStart cc st overlapDays since backfillFrom now =
     (if truthy_text since \<noteq> None \<and> truthy_text backfillFrom \<noteq> None then Inl BoundsCombined
      else
        let configStart = map_option day_start (truthy_text (co_startDate cc));
            overlapStart = (if truthy_text backfillFrom = None
              then map_option (\<lambda>t. shifted (date_parse t) (- (overlapDays * ms_per_day))) (truthy_text (st_lastSuccessAt st)) else None);
            fromStart = map_option day_start (truthy_text (orelse backfillFrom since))
        in Inr (default (maxDate [configStart, overlapStart, fromStart]) (shifted (Some now) (- (DEFAULT_LOOKBACK_DAYS * ms_per_day)))))"

definition statusForError :: "scrape_error_type \<Rightarrow> run_status" where
  "statusForError e = (if parking_error e then RunLoginFailed else if e = TIMEOUT then RunTimeout else RunError)"

definition minDate :: "iso_day option \<Rightarrow> iso_day option \<Rightarrow> iso_day option" where
  "minDate a b =
     (case truthy_text a of None \<Rightarrow> b
      | Some x \<Rightarrow> (case truthy_text b of Some y \<Rightarrow> if y < x then b else a | None \<Rightarrow> a))"

type_synonym run_counts = "nat \<times> nat \<times> nat \<times> nat"

definition ZERO_COUNTS :: run_counts where
  "ZERO_COUNTS = (0, 0, 0, 0)"

section \<open>Records, guards, results\<close>

definition run_entry ::
  "run_input \<Rightarrow> company_id \<Rightarrow> run_status \<Rightarrow> scrape_error_type option \<Rightarrow> jsstr option \<Rightarrow> run_counts \<Rightarrow> run_record" where
  "run_entry ri company status errorType message counts =
     (case counts of (accounts, transactions, inserted, anomalies) \<Rightarrow>
      \<lparr>run_id = ri_runId ri, run_company = company, run_startedAt = iso_of_time (ri_started ri),
       run_finishedAt = iso_of_time (ri_finished ri), run_status = status, run_errorType = errorType,
       run_message = message, run_accountsSeen = accounts, run_transactionsSeen = transactions,
       run_transactionsNew = inserted, run_anomalies = anomalies\<rparr>)"

definition record_run :: "'l ledger_ops \<Rightarrow> run_record \<Rightarrow> ('l sched, run_record) act" where
  "record_run L run = bindA (onLedger (writeA (recordRun L run))) (\<lambda>_. retA run)"

text \<open>The skip message, and the state the guards leave; they change it also when the run is skipped.\<close>

definition guard_parking :: "source_state \<Rightarrow> jsstr \<Rightarrow> source_state" where
  "guard_parking st fingerprint =
     (let st' = (if st_parked st \<and> truthy_text (st_credentialFingerprint st) \<noteq> None \<and> st_credentialFingerprint st \<noteq> Some fingerprint
        then unparked st else st)
      in st'\<lparr>st_credentialFingerprint := Some fingerprint\<rparr>)"

definition guard_day :: "source_state \<Rightarrow> iso_day \<Rightarrow> source_state" where
  "guard_day st today =
     (if st_loginAttemptsDate st \<noteq> Some today then st\<lparr>st_loginAttemptsDate := Some today, st_loginAttempts := 0\<rparr> else st)"

definition guard ::
  "sched_env \<Rightarrow> config \<Rightarrow> source_state \<Rightarrow> jsstr \<Rightarrow> run_options \<Rightarrow> int \<Rightarrow> (jsstr option \<times> source_state) res" where
  "guard env cfg st0 fingerprint opts current =
     (let st = guard_parking st0 fingerprint in
      if st_parked st \<and> \<not> ro_force opts
      then Inr (Some (js ''Parked: '' @ default (st_parkedReason st) (js ''unknown reason'')), st)
      else if (case truthy_text (st_nextAllowedAt st) of None \<Rightarrow> False | Some t \<Rightarrow> later (date_parse t) (Some current)) \<and> \<not> ro_force opts
      then Inr (Some (js ''Backing off until '' @ default (st_nextAllowedAt st) []), st)
      else
        bindE (se_calendar env current (cfg_timezone cfg)) (\<lambda>today.
        let st' = guard_day st today in
        if int (st_loginAttempts st') \<ge> cfg_maxLoginAttemptsPerDay cfg
        then Inr (Some (js ''Login attempt cap reached ('' @ nat_str (st_loginAttempts st') @ js ''/''
               @ int_str (cfg_maxLoginAttemptsPerDay cfg) @ js '' today)''), st')
        else Inr (None, st')))"

definition synthesize_step ::
  "sched_env \<Rightarrow> 'l ledger_ops \<Rightarrow> company_config \<Rightarrow> run_input \<Rightarrow> iso_day \<Rightarrow> ledger_account \<Rightarrow> unit \<Rightarrow> ('l, unit) act" where
  "synthesize_step env L cc ri today account u =
     bindA (readA (\<lambda>s. default (getAccount L (acc_id account) s) account)) (\<lambda>stored.
     bindA (computeSyntheticPayments (se_lc env) L stored cc today (ri_computed ri (acc_id account))) (\<lambda>rows.
       if rows = [] then retA ()
       else bindA (callA (upsertTransactions L rows None)) (\<lambda>_. retA ())))"

definition applySuccess ::
  "sched_env \<Rightarrow> 'l ledger_ops \<Rightarrow> config \<Rightarrow> company_config \<Rightarrow> run_input \<Rightarrow> source_state \<Rightarrow> source_fetch_result \<Rightarrow>
   ('l, run_counts \<times> source_state) act" where
  "applySuccess env L cfg cc ri st result =
     bindA (writeA (fold (upsertAccount L) (res_accounts result))) (\<lambda>_.
     bindA (callA (upsertTransactions L (res_transactions result) (Some (cfg_timezone cfg)))) (\<lambda>summary.
     bindA (writeA (upsertHoldings L (res_holdings result))) (\<lambda>_.
     bindA (liftA (se_calendar env (ri_today ri) (cfg_timezone cfg))) (\<lambda>today.
     bindA (foldA (synthesize_step env L cc ri today) (res_accounts result) ()) (\<lambda>_.
     let earliest = fold (\<lambda>row e. minDate e (Some (tx_bookedDate row))) (res_transactions result) (st_earliestScrapedDate st) in
     retA ((length (res_accounts result), length (res_transactions result), sum_inserted summary, length (sum_anomalies summary)),
       st\<lparr>st_lastSuccessAt := Some (iso_of_time (ri_applied ri)), st_consecutiveFailures := 0, st_nextAllowedAt := None,
          st_lastErrorType := None, st_lastErrorMessage := None, st_earliestScrapedDate := earliest\<rparr>))))))"

definition applyFailure ::
  "company_id \<Rightarrow> source_state \<Rightarrow> scrape_error_type \<Rightarrow> jsstr \<Rightarrow> int \<Rightarrow> source_state res" where
  "applyFailure company st errorType message current =
     (let failures = st_consecutiveFailures st + 1;
          failed = st\<lparr>st_lastErrorAt := Some (iso_of_time current), st_lastErrorType := Some errorType,
            st_lastErrorMessage := Some message, st_consecutiveFailures := failures\<rparr> in
      if parking_error errorType
      then Inr (failed\<lparr>st_parked := True, st_parkedAt := Some (iso_of_time current),
        st_parkedReason := Some (if errorType = OTP_REQUIRED
          then message @ js '': run \"bridge login '' @ company @ js ''\", then \"bridge unpark '' @ company @ js ''\"'' else message),
        st_nextAllowedAt := None\<rparr>)
      else if failures - 1 < length BACKOFF_HOURS
      then bindE (to_iso_string (time_clip (current + BACKOFF_HOURS ! (failures - 1) * 3600000))) (\<lambda>t.
        Inr (failed\<lparr>st_nextAllowedAt := Some t\<rparr>))
      else Inr (failed\<lparr>st_nextAllowedAt := None\<rparr>))"

section \<open>One company\<close>

definition save_state :: "'l ledger_ops \<Rightarrow> source_state \<Rightarrow> ('l sched, unit) act" where
  "save_state L st = onLedger (writeA (upsertSourceState L st))"

definition call_source :: "run_context \<Rightarrow> source_run_outcome option \<Rightarrow> ('l sched, source_run_outcome) act" where
  "call_source ctx outcome =
     bindA (writeA (\<lambda>d. d\<lparr>sd_calls := sd_calls d @ [ctx]\<rparr>)) (\<lambda>_.
       retA (default outcome (RunFailed BRIDGE_ERROR (SCRAPE_ERROR_MESSAGES BRIDGE_ERROR))))"

definition finish_run ::
  "sched_env \<Rightarrow> 'l ledger_ops \<Rightarrow> config \<Rightarrow> company_id \<Rightarrow> company_config \<Rightarrow> run_input \<Rightarrow> source_state \<Rightarrow> source_run_outcome \<Rightarrow>
   ('l sched, run_record) act" where
  "finish_run env L cfg company cc ri st outcome =
     (case outcome of
        RunOk result \<Rightarrow>
          bindA (onLedger (applySuccess env L cfg cc ri st result)) (\<lambda>(counts, st').
          bindA (save_state L st') (\<lambda>_. record_run L (run_entry ri company RunSuccess None None counts)))
      | RunFailed errorType message \<Rightarrow>
          bindA (liftA (applyFailure company st errorType message (ri_applied ri))) (\<lambda>st'.
          bindA (save_state L st') (\<lambda>_.
          record_run L (run_entry ri company (statusForError errorType) (Some errorType) (Some message) ZERO_COUNTS))))"

definition attempt_run ::
  "sched_env \<Rightarrow> 'l ledger_ops \<Rightarrow> config \<Rightarrow> company_id \<Rightarrow> company_config \<Rightarrow> run_options \<Rightarrow> run_input \<Rightarrow> source_state \<Rightarrow>
   (jsstr \<times> jsstr) list \<Rightarrow> ('l sched, run_record) act" where
  "attempt_run env L cfg company cc opts ri st0 credentials =
     (let st = st0\<lparr>st_loginAttempts := st_loginAttempts st0 + 1, st_lastRunAt := Some (iso_of_time (ri_started ri))\<rparr> in
      bindA (save_state L st) (\<lambda>_.
      bindA (liftA (computeWindowStart cc st (cfg_overlapDays cfg) (ro_from opts) (ro_backfillFrom opts) (ri_started ri))) (\<lambda>startDate.
      bindA (liftA (ri_profileDir ri)) (\<lambda>profileDir.
      bindA (call_source \<lparr>rc_company = company, rc_config = cc, rc_credentials = credentials, rc_startDate = startDate,
          rc_timezone = cfg_timezone cfg, rc_defaultCurrency = cfg_currency cfg, rc_profileDir = profileDir\<rparr> (ri_outcome ri))
        (finish_run env L cfg company cc ri st)))))"

definition CREDENTIALS_FAILED :: jsstr where
  "CREDENTIALS_FAILED = js ''Credential resolution failed''"

definition runOne ::
  "sched_env \<Rightarrow> 'l ledger_ops \<Rightarrow> config \<Rightarrow> company_id \<Rightarrow> company_config \<Rightarrow> run_options \<Rightarrow> run_input \<Rightarrow> ('l sched, run_record) act" where
  "runOne env L cfg company cc opts ri =
     bindA (readA (\<lambda>d. default (getSourceState L company (sd_ledger d)) (defaultSourceState company))) (\<lambda>st.
     case ri_credentials ri of
       None \<Rightarrow>
         bindA (liftA (applyFailure company st BRIDGE_ERROR CREDENTIALS_FAILED (ri_applied ri))) (\<lambda>st'.
         bindA (save_state L (st'\<lparr>st_lastRunAt := Some (iso_of_time (ri_started ri))\<rparr>)) (\<lambda>_.
         record_run L (run_entry ri company RunError (Some BRIDGE_ERROR) (Some CREDENTIALS_FAILED) ZERO_COUNTS)))
     | Some credentials \<Rightarrow>
         bindA (liftA (guard env cfg st (credentialFingerprint (se_sha env) (se_lc env) credentials) opts (ri_guarded ri))) (\<lambda>(skip, st').
           case skip of
             Some message \<Rightarrow>
               bindA (save_state L st') (\<lambda>_. record_run L (run_entry ri company RunSkipped None (Some message) ZERO_COUNTS))
           | None \<Rightarrow> attempt_run env L cfg company cc opts ri st' credentials))"

section \<open>A run over the companies\<close>

definition wanted_company :: "run_options \<Rightarrow> company_id \<times> company_config \<Rightarrow> bool" where
  "wanted_company opts entry \<longleftrightarrow>
     co_enabled (snd entry) \<and> (case truthy_text (ro_company opts) of None \<Rightarrow> True | Some c \<Rightarrow> c = fst entry)"

text \<open>An entry without a configuration makes the loop throw.\<close>

definition run_step ::
  "sched_env \<Rightarrow> 'l ledger_ops \<Rightarrow> config \<Rightarrow> run_options \<Rightarrow> (company_id \<Rightarrow> run_input) \<Rightarrow> company_id \<times> company_config option \<Rightarrow>
   run_record list \<Rightarrow> ('l sched, run_record list) act" where
  "run_step env L cfg opts inputs entry records =
     (case entry of (company, cc) \<Rightarrow>
      case cc of None \<Rightarrow> throwA (OtherError ''company without configuration'')
      | Some c \<Rightarrow>
          if \<not> wanted_company opts (company, c) then retA records
          else bindA (runOne env L cfg company c opts (inputs company)) (\<lambda>r. retA (records @ [r])))"

definition runNow ::
  "sched_env \<Rightarrow> 'l ledger_ops \<Rightarrow> config \<Rightarrow> run_options \<Rightarrow> (company_id \<Rightarrow> run_input) \<Rightarrow> ('l sched, run_record list) act" where
  "runNow env L cfg opts inputs = (\<lambda>d.
     if truthy_text (ro_backfillFrom opts) \<noteq> None \<and> (truthy_text (ro_company opts) = None \<or> truthy_text (ro_from opts) \<noteq> None)
     then (Inl BackfillNeedsCompany, d)
     else if sd_running d then (Inr [], d)
     else case foldA (run_step env L cfg opts inputs) (cfg_companies cfg) [] (d\<lparr>sd_running := True\<rparr>) of
       (r, d') \<Rightarrow> (r, d'\<lparr>sd_running := False\<rparr>))"

end
