(* ===== verification/SchedulerProofs.thy ===== *)
theory SchedulerProofs
  imports Scheduler
begin

text \<open>
  What the scheduler guarantees on any ledger that keeps source states apart from everything else: the cap on
  bank logins per day, parking, backoff, the scrape window and the run records.
\<close>

section \<open>Attempts\<close>

text \<open>The login attempts a state counts for a day.\<close>

definition attempts_of :: "source_state \<Rightarrow> iso_day \<Rightarrow> nat" where
  "attempts_of st today = (if st_loginAttemptsDate st = Some today then st_loginAttempts st else 0)"

definition attempts_on :: "'l ledger_ops \<Rightarrow> company_id \<Rightarrow> iso_day \<Rightarrow> 'l \<Rightarrow> nat" where
  "attempts_on L c today s = (case getSourceState L c s of None \<Rightarrow> 0 | Some st \<Rightarrow> attempts_of st today)"

definition same_attempts :: "source_state \<Rightarrow> source_state \<Rightarrow> bool" where
  "same_attempts st st' \<longleftrightarrow> st_company st' = st_company st \<and> st_loginAttempts st' = st_loginAttempts st \<and>
     st_loginAttemptsDate st' = st_loginAttemptsDate st"

lemma same_attempts_of: "same_attempts st st' \<Longrightarrow> attempts_of st' d = attempts_of st d"
  by (simp add: same_attempts_def attempts_of_def)

lemma applyFailure_attempts: "applyFailure company st e m now = Inr st' \<Longrightarrow> same_attempts st st'"
  by (auto simp: applyFailure_def Let_def same_attempts_def split: if_splits)

lemma applySuccess_attempts: "applySuccess env L cfg cc ri st result s = (Inr (counts, st'), t) \<Longrightarrow> same_attempts st st'"
  by (auto simp: applySuccess_def Let_def same_attempts_def bindA_ok)

lemma guard_parking_attempts [simp]:
  "same_attempts st (guard_parking st f)" "attempts_of (guard_parking st f) d = attempts_of st d"
  by (simp_all add: guard_parking_def unparked_def same_attempts_def attempts_of_def Let_def)

lemma guard_day_attempts [simp]:
  "st_company (guard_day st d) = st_company st" "st_loginAttemptsDate (guard_day st d) = Some d"
  "st_loginAttempts (guard_day st d) = attempts_of st d"
  by (simp_all add: guard_day_def attempts_of_def)

lemma guard_attempts:
  assumes "guard env cfg st f opts now = Inr (skip, st')" "se_calendar env now (cfg_timezone cfg) = Inr today"
  shows "st_company st' = st_company st" "attempts_of st' today = attempts_of st today"
    "skip = None \<Longrightarrow> int (st_loginAttempts st') < cfg_maxLoginAttemptsPerDay cfg \<and> st_loginAttemptsDate st' = Some today"
  using assms guard_parking_attempts(1) [of st f]
  by (auto simp: guard_def Let_def same_attempts_def attempts_of_def guard_parking_attempts(2) [unfolded attempts_of_def] split: if_splits)

section \<open>The store it relies on\<close>

locale schedule_store = state_store +
  assumes run_frame: "inv s \<Longrightarrow> inv (recordRun L run s) \<and> getSourceState L c (recordRun L run s) = getSourceState L c s"
    and account_frame: "inv s \<Longrightarrow> inv (upsertAccount L a s) \<and> getSourceState L c (upsertAccount L a s) = getSourceState L c s"
    and holdings_frame: "inv s \<Longrightarrow> inv (upsertHoldings L hs s) \<and> getSourceState L c (upsertHoldings L hs s) = getSourceState L c s"
    and rows_frame: "inv s \<Longrightarrow> upsertTransactions L rows tz s = Inr (sm, s') \<Longrightarrow> inv s' \<and> getSourceState L c s' = getSourceState L c s"
    and payment_frame: "inv s \<Longrightarrow> insertSyntheticPayment L p s = Inr s' \<Longrightarrow> inv s' \<and> getSourceState L c s' = getSourceState L c s"
begin

text \<open>Operations that leave every source state alone, however they end.\<close>

definition states_kept :: "'a \<Rightarrow> 'a \<Rightarrow> bool" where
  "states_kept s s' \<longleftrightarrow> (inv s \<longrightarrow> inv s' \<and> (\<forall>c. getSourceState L c s' = getSourceState L c s))"

lemma kept_order: "reflp states_kept" "transp states_kept"
  by (auto simp: states_kept_def reflp_def transp_def)

lemma kept_basic: "keeps states_kept (liftA r)" "keeps states_kept (readA h)"
  by (rule keeps_intros [OF kept_order(1)])+

lemmas kept_rules = keeps_bind [OF kept_order(2)] kept_basic keeps_write keeps_cases keeps_foldA [OF kept_order]

lemma kept_accounts: "states_kept s (fold (upsertAccount L) as s)"
proof (induction as arbitrary: s)
  case (Cons a as)
  then show ?case
    using account_frame [where s = s and a = a] by (auto simp: states_kept_def)
qed (simp add: states_kept_def)

lemma kept_rows: "keeps states_kept (callA (upsertTransactions L rows tz))"
  by (rule keeps_call [OF kept_order(1)]) (auto simp: states_kept_def rows_frame)

lemma kept_payments: "keeps states_kept (computeSyntheticPayments lc L account cc today now)"
proof -
  have "keeps states_kept (payment_step L account cc cutoff emitted partialUntil t g created)" for cutoff emitted partialUntil t g created
    unfolding payment_step_def Let_def
    by (intro kept_rules keeps_call [OF kept_order(1)]) (auto simp: states_kept_def payment_frame)
  then show ?thesis
    unfolding computeSyntheticPayments_def by (intro kept_rules)
qed

lemma kept_success: "keeps states_kept (applySuccess env L cfg cc ri st result)"
proof -
  have "keeps states_kept (synthesize_step env L cc ri today account u)" for today account u
    unfolding synthesize_step_def by (intro kept_rules kept_payments kept_rows)
  then show ?thesis
    unfolding applySuccess_def Let_def
    by (intro kept_rules kept_rows kept_accounts) (auto simp: states_kept_def holdings_frame)
qed

text \<open>After the attempt was counted, the rest of a run changes no count and calls no bank.\<close>

definition counted :: "company_id \<Rightarrow> source_state \<Rightarrow> 'a sched \<Rightarrow> 'a sched \<Rightarrow> bool" where
  "counted company st d d' \<longleftrightarrow> (inv (sd_ledger d) \<longrightarrow> inv (sd_ledger d') \<and> sd_calls d' = sd_calls d \<and>
     (\<forall>c. c \<noteq> company \<longrightarrow> getSourceState L c (sd_ledger d') = getSourceState L c (sd_ledger d)) \<and>
     (getSourceState L company (sd_ledger d') = getSourceState L company (sd_ledger d) \<or>
      (\<exists>st'. getSourceState L company (sd_ledger d') = Some st' \<and> same_attempts st st')))"

lemma counted_order: "reflp (counted company st)" "transp (counted company st)"
  by (auto simp: counted_def reflp_def transp_def)

lemma counted_ledger: "keeps states_kept f \<Longrightarrow> keeps (counted company st) (onLedger f)"
  by (auto simp: keeps_def counted_def states_kept_def onLedger_def split_beta)

lemma counted_save: "same_attempts st st' \<Longrightarrow> st_company st = company \<Longrightarrow> keeps (counted company st) (save_state L st')"
  by (auto simp: keeps_def counted_def save_state_def onLedger_def get_state state_inv same_attempts_def)

lemma counted_record: "keeps (counted company st) (record_run L run)"
  unfolding record_run_def
  by (intro keeps_bind [OF counted_order(2)] counted_ledger keeps_write keeps_intros [OF counted_order(1)])
     (simp add: states_kept_def run_frame)

lemma counted_finish:
  assumes "st_company st = company"
  shows "keeps (counted company st) (finish_run env L cfg company cc ri st outcome)"
proof (cases outcome)
  case (RunOk result)
  have "keeps (counted company st) (bindA (save_state L st') (\<lambda>_. record_run L run))" if "same_attempts st st'" for st' run
    using that by (intro keeps_bind [OF counted_order(2)] counted_save counted_record assms)
  moreover have "same_attempts st (snd x)" if "onLedger (applySuccess env L cfg cc ri st result) d = (Inr x, d')" for d x d'
    using that applySuccess_attempts [of env L cfg cc ri st result] by (cases x) (auto simp: onLedger_def split: prod.splits)
  ultimately show ?thesis
    unfolding finish_run_def RunOk source_run_outcome.case
    by (intro keeps_bind_result [OF counted_order(2) counted_ledger [OF kept_success], where Q = "\<lambda>x. same_attempts st (snd x)"])
       (auto split: prod.split)
next
  case (RunFailed e m)
  show ?thesis
    unfolding finish_run_def RunFailed source_run_outcome.case
    by (intro keeps_bind_result [OF counted_order(2) keeps_intros(1) [OF counted_order(1)], where Q = "same_attempts st"]
        keeps_bind [OF counted_order(2)] counted_save counted_record assms) (auto dest: applyFailure_attempts)
qed

text \<open>What the run of one company may do to the counters: at most one call, paid for by one attempt.\<close>

definition run_bound :: "company_id \<Rightarrow> iso_day \<Rightarrow> nat \<Rightarrow> 'a sched \<Rightarrow> 'a sched \<Rightarrow> bool" where
  "run_bound c today cap d d' \<longleftrightarrow> (inv (sd_ledger d) \<longrightarrow> inv (sd_ledger d') \<and>
     (\<exists>new. sd_calls d' = sd_calls d @ new \<and>
       length (filter (\<lambda>x. rc_company x = c) new) + attempts_on L c today (sd_ledger d) \<le> attempts_on L c today (sd_ledger d')) \<and>
     attempts_on L c today (sd_ledger d') \<le> max cap (attempts_on L c today (sd_ledger d)))"

lemma run_bound_refl: "run_bound c today cap d d"
  by (auto simp: run_bound_def intro: exI [of _ "[]"])

lemma run_bound_trans:
  assumes "run_bound c today cap d t" "run_bound c today cap t u"
  shows "run_bound c today cap d u"
proof (cases "inv (sd_ledger d)")
  case True
  with assms obtain new1 new2 where "inv (sd_ledger u)" "sd_calls t = sd_calls d @ new1" "sd_calls u = sd_calls t @ new2"
    "length (filter (\<lambda>x. rc_company x = c) new1) + attempts_on L c today (sd_ledger d) \<le> attempts_on L c today (sd_ledger t)"
    "length (filter (\<lambda>x. rc_company x = c) new2) + attempts_on L c today (sd_ledger t) \<le> attempts_on L c today (sd_ledger u)"
    "attempts_on L c today (sd_ledger t) \<le> max cap (attempts_on L c today (sd_ledger d))"
    "attempts_on L c today (sd_ledger u) \<le> max cap (attempts_on L c today (sd_ledger t))"
    unfolding run_bound_def by blast
  then show ?thesis
    unfolding run_bound_def by (intro impI conjI exI [of _ "new1 @ new2"]) auto
qed (simp add: run_bound_def)

lemma run_bound_order: "reflp (run_bound c today cap)" "transp (run_bound c today cap)"
  by (auto intro: reflpI transpI run_bound_refl run_bound_trans)

text \<open>A state with the same count is stored, or nothing is.\<close>

lemma run_bound_counted:
  assumes "counted company st d d'" "c \<noteq> company \<or> (inv (sd_ledger d) \<longrightarrow> attempts_of st today = attempts_on L c today (sd_ledger d))"
  shows "run_bound c today cap d d'"
proof -
  have "attempts_on L c today (sd_ledger d') = attempts_on L c today (sd_ledger d)" if "inv (sd_ledger d)"
  proof (cases "c = company")
    case True
    with assms that show ?thesis
      by (auto simp: counted_def attempts_on_def dest: same_attempts_of [of st _ today])
  next
    case False
    with assms(1) that show ?thesis
      by (simp add: counted_def attempts_on_def)
  qed
  with assms(1) show ?thesis
    by (auto simp: run_bound_def counted_def intro: exI [of _ "[]"])
qed

lemma attempt_bound:
  assumes run: "attempt_run env L cfg company cc opts ri st credentials d = (r, d')"
    and ok: "inv (sd_ledger d)" and st: "st_company st = company"
    and cap: "c = company \<Longrightarrow> st_loginAttemptsDate st = Some today \<and> st_loginAttempts st < cap \<and>
      attempts_on L company today (sd_ledger d) = st_loginAttempts st"
  shows "run_bound c today cap d d'"
proof -
  define st1 where "st1 = st\<lparr>st_loginAttempts := st_loginAttempts st + 1, st_lastRunAt := Some (iso_of_time (ri_started ri))\<rparr>"
  define d1 where "d1 = d\<lparr>sd_ledger := upsertSourceState L st1 (sd_ledger d)\<rparr>"
  have st1: "st_company st1 = company" "c = company \<Longrightarrow> attempts_of st1 today = st_loginAttempts st + 1"
    using st cap by (simp_all add: st1_def attempts_of_def)
  have ok1: "inv (sd_ledger d1)"
    using ok by (simp add: d1_def state_inv)
  have at1: "attempts_on L c today (sd_ledger d1) = (if c = company then st_loginAttempts st + 1 else attempts_on L c today (sd_ledger d))"
    using get_state [OF ok, of c st1] st1 by (simp add: d1_def attempts_on_def)
  have saved: "bindA (save_state L st1) g d = g () d1" for g :: "unit \<Rightarrow> ('a sched, run_record) act"
    by (simp add: save_state_def onLedger_def d1_def bindA_def)
  have calls1: "sd_calls d1 = sd_calls d"
    by (simp add: d1_def)
  note run1 = run [unfolded attempt_run_def Let_def, folded st1_def, unfolded saved]
  have stop: ?thesis if "d' = d1"
    using that ok1 at1 cap calls1 by (auto simp: run_bound_def intro: exI [of _ "[]"])
  show ?thesis
  proof (cases "computeWindowStart cc st1 (cfg_overlapDays cfg) (ro_from opts) (ro_backfillFrom opts) (ri_started ri)")
    case (Inl e)
    with run1 show ?thesis
      by (intro stop) simp
  next
    case w: (Inr startDate)
    show ?thesis
    proof (cases "ri_profileDir ri")
      case (Inl e)
      with run1 w show ?thesis
        by (intro stop) simp
    next
      case p: (Inr profileDir)
      let ?ctx = "\<lparr>rc_company = company, rc_config = cc, rc_credentials = credentials, rc_startDate = startDate,
          rc_timezone = cfg_timezone cfg, rc_defaultCurrency = cfg_currency cfg, rc_profileDir = profileDir\<rparr>"
      define d2 where "d2 = d1\<lparr>sd_calls := sd_calls d @ [?ctx]\<rparr>"
      obtain outcome where "call_source ?ctx (ri_outcome ri) d1 = (Inr outcome, d2)"
        by (simp add: call_source_def d2_def calls1)
      then have "finish_run env L cfg company cc ri st1 outcome d2 = (r, d')"
        using run1 w p by (simp add: bindA_run)
      from keepsD [OF counted_finish [OF st1(1)] this] have tail: "counted company st1 d2 d'" .
      have "run_bound c today cap d d2"
        using ok1 at1 cap by (auto simp: run_bound_def d2_def intro!: exI [of _ "[?ctx]"])
      moreover have "run_bound c today cap d2 d'"
        using run_bound_counted [OF tail, of c today] at1 st1(2) by (simp add: d2_def)
      ultimately show ?thesis
        by (rule run_bound_trans)
    qed
  qed
qed

lemma runOne_bound:
  assumes "c = company \<Longrightarrow> se_calendar env (ri_guarded ri) (cfg_timezone cfg) = Inr today"
  shows "keeps (run_bound c today (nat (cfg_maxLoginAttemptsPerDay cfg))) (runOne env L cfg company cc opts ri)"
  unfolding keeps_def
proof
  fix d :: "'a sched"
  let ?cap = "nat (cfg_maxLoginAttemptsPerDay cfg)"
  define st where "st = default (getSourceState L company (sd_ledger d)) (defaultSourceState company)"
  obtain r d' where run: "runOne env L cfg company cc opts ri d = (r, d')"
    by fastforce
  have "run_bound c today ?cap d d'"
  proof (cases "inv (sd_ledger d)")
    case ok: True
    have st: "st_company st = company" "attempts_on L company today (sd_ledger d) = attempts_of st today"
      using state_company [OF ok] by (auto simp: st_def attempts_on_def attempts_of_def defaultSourceState_def default_def split: option.splits)
    note run1 = run [unfolded runOne_def bindA_simps, folded st_def]
    have saved: ?thesis if "same_attempts st st' \<or> c = company \<and> st_company st' = company \<and> attempts_of st' today = attempts_of st today
        \<or> c \<noteq> company \<and> st_company st' = company"
      and "bindA (save_state L st') (\<lambda>_. record_run L run) d = (r, d')" for st' run
    proof -
      have "st_company st' = company"
        using that(1) st(1) by (auto simp: same_attempts_def)
      then have "counted company st' d d'"
        using keepsD [OF keeps_bind [OF counted_order(2) counted_save counted_record] that(2)] by (simp add: same_attempts_def)
      then show ?thesis
        by (rule run_bound_counted) (use that(1) st(2) in \<open>auto dest: same_attempts_of\<close>)
    qed
    show ?thesis
    proof (cases "ri_credentials ri")
      case None
      show ?thesis
      proof (cases "applyFailure company st BRIDGE_ERROR CREDENTIALS_FAILED (ri_applied ri)")
        case (Inl e)
        with run1 None show ?thesis
          by (simp add: run_bound_refl)
      next
        case (Inr st')
        then have "same_attempts st (st'\<lparr>st_lastRunAt := Some (iso_of_time (ri_started ri))\<rparr>)"
          using applyFailure_attempts by (fastforce simp: same_attempts_def)
        then show ?thesis
          by (rule saved [OF disjI1]) (use run1 None Inr in simp)
      qed
    next
      case (Some credentials)
      let ?f = "credentialFingerprint (se_sha env) (se_lc env) credentials"
      show ?thesis
      proof (cases "guard env cfg st ?f opts (ri_guarded ri)")
        case (Inl e)
        with run1 Some show ?thesis
          by (simp add: run_bound_refl)
      next
        case g: (Inr res)
        obtain skip st' where res: "res = (skip, st')"
          by fastforce
        have company: "st_company st' = company"
          using g st(1) guard_parking_attempts(1) [of st ?f]
          by (auto simp: res guard_def Let_def same_attempts_def split: if_splits)
        have mine: "attempts_of st' today = attempts_of st today"
            "skip = None \<Longrightarrow> int (st_loginAttempts st') < cfg_maxLoginAttemptsPerDay cfg \<and> st_loginAttemptsDate st' = Some today"
          if "c = company"
          using guard_attempts [OF g [unfolded res] assms [OF that]] by auto
        show ?thesis
        proof (cases skip)
          case None
          have "attempt_run env L cfg company cc opts ri st' credentials d = (r, d')"
            using run1 Some g None by (simp add: res)
          then show ?thesis
            by (rule attempt_bound [OF _ ok company]) (use mine None st(2) in \<open>auto simp: attempts_of_def\<close>)
        next
          case (Some message)
          with run1 \<open>ri_credentials ri = Some credentials\<close> g company mine(1) saved show ?thesis
            by (simp add: res) blast
        qed
      qed
    qed
  qed (simp add: run_bound_def)
  then show "run_bound c today ?cap d (snd (runOne env L cfg company cc opts ri d))"
    by (simp add: run)
qed

lemma runNow_bound:
  assumes "se_calendar env (ri_guarded (inputs c)) (cfg_timezone cfg) = Inr today"
  shows "keeps (run_bound c today (nat (cfg_maxLoginAttemptsPerDay cfg))) (runNow env L cfg opts inputs)"
proof -
  let ?R = "run_bound c today (nat (cfg_maxLoginAttemptsPerDay cfg))"
  have "keeps ?R (run_step env L cfg opts inputs entry records)" for entry records
    unfolding run_step_def using assms
    by (intro keeps_cases keeps_intros [OF run_bound_order(1)] keeps_bind [OF run_bound_order(2)] runOne_bound) auto
  then have fold: "keeps ?R (foldA (run_step env L cfg opts inputs) cs records)" for cs records
    by (intro keeps_foldA [OF run_bound_order])
  show ?thesis
    unfolding keeps_def
  proof
    fix d :: "'a sched"
    obtain r d' where run: "foldA (run_step env L cfg opts inputs) (cfg_companies cfg) [] (d\<lparr>sd_running := True\<rparr>) = (r, d')"
      by fastforce
    then have "?R d (d'\<lparr>sd_running := False\<rparr>)"
      using keepsD [OF fold run] by (simp add: run_bound_def)
    then show "?R d (snd (runNow env L cfg opts inputs d))"
      using run_bound_refl run by (simp add: runNow_def)
  qed
qed

end

interpretation mem_sched: schedule_store "memory_ledger env lc" mem_inv for env lc
proof unfold_locales
  fix s s' :: mem_ledger and run c a hs rows tz sm p
  let ?L = "memory_ledger env lc"
  assume inv: "mem_inv s"
  note defs = memory_ops mem_getSourceState_def
  show "mem_inv (recordRun ?L run s) \<and> getSourceState ?L c (recordRun ?L run s) = getSourceState ?L c s"
    using inv by (simp add: defs mem_keeps_inv)
  show "mem_inv (upsertAccount ?L a s) \<and> getSourceState ?L c (upsertAccount ?L a s) = getSourceState ?L c s"
    using inv by (simp add: defs mem_account_keeps_inv)
  show "mem_inv (upsertHoldings ?L hs s) \<and> getSourceState ?L c (upsertHoldings ?L hs s) = getSourceState ?L c s"
    using inv by (simp add: defs mem_keeps_inv)
  show "upsertTransactions ?L rows tz s = Inr (sm, s') \<Longrightarrow> mem_inv s' \<and> getSourceState ?L c s' = getSourceState ?L c s"
    using inv by (auto simp: defs dest: mem_upsert_frame mem_upsert_keeps_inv)
  show "insertSyntheticPayment ?L p s = Inr s' \<Longrightarrow> mem_inv s' \<and> getSourceState ?L c s' = getSourceState ?L c s"
    using inv by (auto simp: defs mem_insertSyntheticPayment_def)
qed

interpretation sql_sched: schedule_store "sqlite_ledger env printf2" states_ok for env printf2
proof unfold_locales
  fix s s' :: sqlite_db and run c a hs rows tz sm p
  let ?L = "sqlite_ledger env printf2"
  assume inv: "states_ok s"
  note defs = sqlite_ledger_def sql_getSourceState_def states_ok_def
  show "states_ok (recordRun ?L run s) \<and> getSourceState ?L c (recordRun ?L run s) = getSourceState ?L c s"
    using inv by (simp add: defs)
  show "states_ok (upsertAccount ?L a s) \<and> getSourceState ?L c (upsertAccount ?L a s) = getSourceState ?L c s"
    using inv by (simp add: defs)
  show "states_ok (upsertHoldings ?L hs s) \<and> getSourceState ?L c (upsertHoldings ?L hs s) = getSourceState ?L c s"
    using inv by (simp add: defs)
  show "upsertTransactions ?L rows tz s = Inr (sm, s') \<Longrightarrow> states_ok s' \<and> getSourceState ?L c s' = getSourceState ?L c s"
    using inv by (auto simp: defs dest: sql_upsert_frame)
  show "insertSyntheticPayment ?L p s = Inr s' \<Longrightarrow> states_ok s' \<and> getSourceState ?L c s' = getSourceState ?L c s"
    using inv by (auto simp: defs sql_insertSyntheticPayment_def split: if_splits)
qed

section \<open>The login cap\<close>

text \<open>Triggers of the timer or of an operator, and the operator's unparking.\<close>

datatype sched_event = Trigger run_options "company_id \<Rightarrow> run_input" | Unpark company_id

definition sched_step :: "sched_env \<Rightarrow> 'l ledger_ops \<Rightarrow> config \<Rightarrow> sched_event \<Rightarrow> 'l sched \<Rightarrow> 'l sched" where
  "sched_step env L cfg ev d =
     (case ev of
        Trigger opts inputs \<Rightarrow> snd (runNow env L cfg opts inputs d)
      | Unpark company \<Rightarrow> d\<lparr>sd_ledger := snd (unparkCompany L company (sd_ledger d))\<rparr>)"

text \<open>All events happen on one calendar day of the configured timezone, and nobody resets the counter of \<open>c\<close>.\<close>

definition same_day :: "sched_env \<Rightarrow> config \<Rightarrow> company_id \<Rightarrow> iso_day \<Rightarrow> sched_event \<Rightarrow> bool" where
  "same_day env cfg c today ev =
     (case ev of
        Trigger opts inputs \<Rightarrow> se_calendar env (ri_guarded (inputs c)) (cfg_timezone cfg) = Inr today
      | Unpark company \<Rightarrow> company \<noteq> c)"

context schedule_store
begin

lemma sched_step_bound:
  assumes "same_day env cfg c today ev"
  shows "run_bound c today (nat (cfg_maxLoginAttemptsPerDay cfg)) d (sched_step env L cfg ev d)"
proof (cases ev)
  case (Trigger opts inputs)
  with assms runNow_bound [of env inputs c cfg today opts] show ?thesis
    by (simp add: sched_step_def same_day_def keeps_def)
next
  case (Unpark company)
  have "attempts_on L c today (snd (unparkCompany L company s)) = attempts_on L c today s \<and> inv (snd (unparkCompany L company s))"
    if "inv s" for s
    using that assms Unpark state_company [OF that, of company] get_state [OF that] state_inv [OF that]
    by (auto simp: unparkCompany_def attempts_on_def same_day_def unparked_def split: option.splits)
  with Unpark show ?thesis
    by (auto simp: sched_step_def run_bound_def intro: exI [of _ "[]"])
qed

lemma sched_run_bound:
  assumes "list_all (same_day env cfg c today) evs"
  shows "run_bound c today (nat (cfg_maxLoginAttemptsPerDay cfg)) d (fold (sched_step env L cfg) evs d)"
  using assms
proof (induction evs arbitrary: d)
  case Nil
  then show ?case
    by (simp add: run_bound_refl)
next
  case (Cons ev evs)
  then show ?case
    using sched_step_bound [of env cfg c today ev d] by (auto intro: run_bound_trans)
qed

end

text \<open>
  C17: the login cap holds. On the SQLite ledger, however often and with whatever options the scheduler is
  triggered on one calendar day, forced runs, history backfills, runs that throw and runs of other companies
  included, a bank is called at most as often as the daily cap still allows at the start: the cap less the
  attempts already stored for that day. Only unparking the company resets its counter.
\<close>

theorem login_cap:
  assumes "states_ok (sd_ledger d)" "list_all (same_day env cfg c today) evs"
    and "d' = fold (sched_step env (sqlite_ledger aenv printf2) cfg) evs d"
  shows "\<exists>new. sd_calls d' = sd_calls d @ new \<and>
    int (length (filter (\<lambda>x. rc_company x = c) new)) \<le>
      max 0 (cfg_maxLoginAttemptsPerDay cfg - int (attempts_on (sqlite_ledger aenv printf2) c today (sd_ledger d)))"
  using sql_sched.sched_run_bound [OF assms(2), where d = d] assms(1,3)
  unfolding sql_sched.run_bound_def by force

text \<open>A clock that always shows one day, and a bank that always times out.\<close>

definition example_sched :: sched_env where
  "example_sched = \<lparr>se_calendar = (\<lambda>t tz. Inr (js ''2024-07-10'')), se_sha = (\<lambda>b. js ''00ff''), se_lc = cmp_of\<rparr>"

definition example_input :: run_input where
  "example_input = \<lparr>ri_runId = js ''r'', ri_started = 1720587600000, ri_guarded = 1720587601000, ri_today = 1720587602000,
     ri_computed = (\<lambda>a. 1720587603000), ri_applied = 1720587604000, ri_finished = 1720587605000,
     ri_credentials = Some [(js ''username'', js ''me'')], ri_profileDir = Inr (js ''/chrome/cal''),
     ri_outcome = Some (RunFailed TIMEOUT (SCRAPE_ERROR_MESSAGES TIMEOUT))\<rparr>"

definition plain_run :: run_options where
  "plain_run = \<lparr>ro_company = None, ro_from = None, ro_backfillFrom = None, ro_force = False\<rparr>"

definition idle :: "'l \<Rightarrow> 'l sched" where
  "idle s = \<lparr>sd_ledger = s, sd_running = False, sd_calls = []\<rparr>"

theorem login_cap_witness:
  "\<exists>new. sd_calls (fold (sched_step example_sched (sqlite_ledger example_env (\<lambda>a. [])) example_config)
      (replicate 5 (Trigger (plain_run\<lparr>ro_force := True\<rparr>) (\<lambda>c. example_input))) (idle empty_db)) = new \<and>
    int (length (filter (\<lambda>x. rc_company x = js ''cal'') new)) \<le> 3"
proof -
  let ?evs = "replicate 5 (Trigger (plain_run\<lparr>ro_force := True\<rparr>) (\<lambda>c. example_input))"
  have "list_all (same_day example_sched example_config (js ''cal'') (js ''2024-07-10'')) ?evs"
    by (simp add: list_all_iff same_day_def example_sched_def)
  moreover have "states_ok (sd_ledger (idle empty_db))"
    by (simp add: idle_def)
  moreover have "attempts_on (sqlite_ledger example_env (\<lambda>a. [])) (js ''cal'') (js ''2024-07-10'') (sd_ledger (idle empty_db)) = 0"
    by (simp add: attempts_on_def sqlite_ledger_def sql_getSourceState_def get_where_def idle_def empty_db_def)
  moreover have "cfg_maxLoginAttemptsPerDay example_config = 3" "sd_calls (idle empty_db) = []"
    by (simp_all add: example_config_def idle_def)
  ultimately show ?thesis
    using login_cap [where d = "idle empty_db" and evs = ?evs and c = "js ''cal''" and today = "js ''2024-07-10''"
      and aenv = example_env and ?printf2.0 = "\<lambda>a. []", OF _ _ refl]
    by fastforce
qed

section \<open>Parking\<close>

definition locked :: "'l ledger_ops \<Rightarrow> company_id \<Rightarrow> jsstr \<Rightarrow> 'l \<Rightarrow> bool" where
  "locked L c f s \<longleftrightarrow> (\<exists>st. getSourceState L c s = Some st \<and> st_parked st \<and> st_credentialFingerprint st = Some f)"

text \<open>Unforced runs whose credentials for \<open>c\<close> cannot be read or have the fingerprint \<open>f\<close>; nobody unparks \<open>c\<close>.\<close>

definition unchanged_login :: "sched_env \<Rightarrow> company_id \<Rightarrow> jsstr \<Rightarrow> sched_event \<Rightarrow> bool" where
  "unchanged_login env c f ev =
     (case ev of
        Trigger opts inputs \<Rightarrow> \<not> ro_force opts \<and>
          (case ri_credentials (inputs c) of None \<Rightarrow> True
           | Some cs \<Rightarrow> credentialFingerprint (se_sha env) (se_lc env) cs = f)
      | Unpark company \<Rightarrow> company \<noteq> c)"

context schedule_store
begin

text \<open>The run of a company touches no other company's state and calls no other bank.\<close>

definition own_run :: "company_id \<Rightarrow> 'a sched \<Rightarrow> 'a sched \<Rightarrow> bool" where
  "own_run company d d' \<longleftrightarrow> (inv (sd_ledger d) \<longrightarrow> inv (sd_ledger d') \<and>
     (\<forall>c. c \<noteq> company \<longrightarrow> getSourceState L c (sd_ledger d') = getSourceState L c (sd_ledger d)) \<and>
     (\<exists>new. sd_calls d' = sd_calls d @ new \<and> (\<forall>x \<in> set new. rc_company x = company)))"

lemma own_order: "reflp (own_run company)" "transp (own_run company)"
proof -
  show "reflp (own_run company)"
    by (auto simp: own_run_def intro!: reflpI exI [of _ "[]"])
  show "transp (own_run company)"
  proof (rule transpI)
    fix d t u :: "'a sched"
    assume "own_run company d t" "own_run company t u"
    then show "own_run company d u"
      unfolding own_run_def by (fastforce simp: ball_Un)
  qed
qed

lemma own_counted: "keeps (counted company st) f \<Longrightarrow> keeps (own_run company) f"
  by (auto simp: keeps_def counted_def own_run_def intro!: exI [of _ "[]"])

lemmas own_rules = keeps_bind [OF own_order(2)] keeps_intros [OF own_order(1)] keeps_cases own_counted [OF counted_record]

lemma own_save: "st_company st = company \<Longrightarrow> keeps (own_run company) (save_state L st)"
  by (rule own_counted [OF counted_save [of st]]) (simp_all add: same_attempts_def)

lemma own_call: "rc_company ctx = company \<Longrightarrow> keeps (own_run company) (call_source ctx outcome)"
  by (auto simp: keeps_def own_run_def call_source_def)

lemma own_runOne: "keeps (own_run company) (runOne env L cfg company cc opts ri)"
  unfolding keeps_def
proof
  fix d :: "'a sched"
  define st where "st = default (getSourceState L company (sd_ledger d)) (defaultSourceState company)"
  show "own_run company d (snd (runOne env L cfg company cc opts ri d))"
  proof (cases "inv (sd_ledger d)")
    case ok: True
    have st: "st_company st = company"
      using state_company [OF ok] by (auto simp: st_def defaultSourceState_def default_def split: option.splits)
    have attempt: "keeps (own_run company) (attempt_run env L cfg company cc opts ri st' cs)" if "st_company st' = company" for st' cs
      unfolding attempt_run_def Let_def using that
      by (intro own_rules own_save own_call own_counted [OF counted_finish]) auto
    have skip: "keeps (own_run company) (case x of (skip, st') \<Rightarrow> (case skip of
          Some m \<Rightarrow> bindA (save_state L st') (\<lambda>_. record_run L (run_entry ri company RunSkipped None (Some m) ZERO_COUNTS))
        | None \<Rightarrow> attempt_run env L cfg company cc opts ri st' cs))" if "st_company (snd x) = company" for x cs
    proof -
      have "keeps (own_run company) (bindA (save_state L (snd x)) (\<lambda>_. record_run L run))" for run
        by (intro own_rules own_save that)
      with attempt [OF that] show ?thesis
        by (simp add: split_beta split: option.split)
    qed
    have failed: "keeps (own_run company) (bindA (liftA (applyFailure company st e m now)) (\<lambda>st'.
        bindA (save_state L (st'\<lparr>st_lastRunAt := t\<rparr>)) (\<lambda>_. record_run L run)))" for e m now t run
      by (intro keeps_bind_result [OF own_order(2) keeps_intros(1) [OF own_order(1)], where Q = "same_attempts st"]
          own_rules own_save) (use st in \<open>auto dest: applyFailure_attempts simp: same_attempts_def\<close>)
    have guarded: "keeps (own_run company) (bindA (liftA (guard env cfg st f opts now)) g)"
      if "\<And>x. st_company (snd x) = company \<Longrightarrow> keeps (own_run company) (g x)" for f now and g :: "jsstr option \<times> source_state \<Rightarrow> ('a sched, run_record) act"
    proof (rule keeps_bind_result [OF own_order(2) keeps_intros(1) [OF own_order(1)], where Q = "\<lambda>x. st_company (snd x) = company"])
      fix s :: "'a sched" and x t
      assume "(guard env cfg st f opts now, s) = (Inr x, t)"
      then show "st_company (snd x) = company"
        using st guard_parking_attempts(1) [of st f] by (auto simp: guard_def Let_def same_attempts_def split: if_splits)
    qed (rule that)
    have "keeps (own_run company) (case ri_credentials ri of
       None \<Rightarrow>
         bindA (liftA (applyFailure company st BRIDGE_ERROR CREDENTIALS_FAILED (ri_applied ri))) (\<lambda>st'.
         bindA (save_state L (st'\<lparr>st_lastRunAt := Some (iso_of_time (ri_started ri))\<rparr>)) (\<lambda>_.
         record_run L (run_entry ri company RunError (Some BRIDGE_ERROR) (Some CREDENTIALS_FAILED) ZERO_COUNTS)))
     | Some credentials \<Rightarrow>
         bindA (liftA (guard env cfg st (credentialFingerprint (se_sha env) (se_lc env) credentials) opts (ri_guarded ri))) (\<lambda>(skip, st').
           case skip of
             Some message \<Rightarrow>
               bindA (save_state L st') (\<lambda>_. record_run L (run_entry ri company RunSkipped None (Some message) ZERO_COUNTS))
           | None \<Rightarrow> attempt_run env L cfg company cc opts ri st' credentials))"
      by (cases "ri_credentials ri") (simp_all add: failed guarded skip)
    then show ?thesis
      unfolding keeps_def runOne_def bindA_simps st_def by blast
  qed (simp add: own_run_def)
qed

definition stays_locked :: "company_id \<Rightarrow> jsstr \<Rightarrow> 'a sched \<Rightarrow> 'a sched \<Rightarrow> bool" where
  "stays_locked c f d d' \<longleftrightarrow> (inv (sd_ledger d) \<longrightarrow> inv (sd_ledger d') \<and>
     (locked L c f (sd_ledger d) \<longrightarrow> locked L c f (sd_ledger d') \<and>
       (\<exists>new. sd_calls d' = sd_calls d @ new \<and> (\<forall>x \<in> set new. rc_company x \<noteq> c))))"

lemma locked_order: "reflp (stays_locked c f)" "transp (stays_locked c f)"
proof -
  show "reflp (stays_locked c f)"
    by (auto simp: stays_locked_def intro!: reflpI exI [of _ "[]"])
  show "transp (stays_locked c f)"
  proof (rule transpI)
    fix d t u :: "'a sched"
    assume "stays_locked c f d t" "stays_locked c f t u"
    then show "stays_locked c f d u"
      unfolding stays_locked_def by (fastforce simp: ball_Un)
  qed
qed

lemma other_locked: "company \<noteq> c \<Longrightarrow> own_run company d d' \<Longrightarrow> stays_locked c f d d'"
  unfolding own_run_def stays_locked_def locked_def by metis

lemma locked_save:
  "st_company st = c \<Longrightarrow> st_parked st \<Longrightarrow> st_credentialFingerprint st = Some f \<Longrightarrow> keeps (stays_locked c f) (save_state L st)"
  by (auto simp: keeps_def stays_locked_def locked_def save_state_def onLedger_def get_state state_inv)

lemma locked_record: "keeps (stays_locked c f) (record_run L run)"
  by (auto simp: keeps_def stays_locked_def locked_def record_run_def onLedger_def run_frame bindA_def)

lemma locked_runOne:
  assumes "\<not> ro_force opts" "case ri_credentials ri of None \<Rightarrow> True | Some cs \<Rightarrow> credentialFingerprint (se_sha env) (se_lc env) cs = f"
  shows "keeps (stays_locked c f) (runOne env L cfg c cc opts ri)"
  unfolding keeps_def
proof
  fix d :: "'a sched"
  show "stays_locked c f d (snd (runOne env L cfg c cc opts ri d))"
  proof (cases "inv (sd_ledger d) \<and> locked L c f (sd_ledger d)")
    case True
    then obtain st where st: "getSourceState L c (sd_ledger d) = Some st" "st_parked st" "st_credentialFingerprint st = Some f"
        "st_company st = c"
      using state_company by (auto simp: locked_def)
    have saved: "keeps (stays_locked c f) (bindA (save_state L st') (\<lambda>_. record_run L run))"
      if "st_company st' = c" "st_parked st'" "st_credentialFingerprint st' = Some f" for st' run
      by (intro keeps_bind [OF locked_order(2)] locked_save locked_record that)
    obtain r d' where run: "runOne env L cfg c cc opts ri d = (r, d')"
      by fastforce
    note run1 = run [unfolded runOne_def bindA_simps st(1) default_simps]
    have "stays_locked c f d d'"
    proof (cases "ri_credentials ri")
      case None
      show ?thesis
      proof (cases "applyFailure c st BRIDGE_ERROR CREDENTIALS_FAILED (ri_applied ri)")
        case (Inl e)
        with run1 None locked_order(1) show ?thesis
          by (simp add: reflp_def)
      next
        case (Inr st')
        have keep: "st_company st' = c" "st_parked st'" "st_credentialFingerprint st' = Some f"
          using Inr st(2-4) by (auto simp: applyFailure_def Let_def parking_error_def split: if_splits)
        show ?thesis
          by (rule keepsD [OF saved]) (use keep run1 None Inr in simp_all)
      qed
    next
      case (Some cs)
      then have fp: "credentialFingerprint (se_sha env) (se_lc env) cs = f"
        using assms(2) by simp
      have g: "guard env cfg st f opts (ri_guarded ri) = Inr (Some (js ''Parked: '' @ default (st_parkedReason st) (js ''unknown reason'')), st)"
        using st(2,3) assms(1) by (simp add: guard_def guard_parking_def Let_def)
      show ?thesis
        by (rule keepsD [OF saved [OF st(4,2,3)]]) (use run1 Some fp g in simp)
    qed
    then show ?thesis
      by (simp add: run)
  next
    case False
    then show ?thesis
      using own_runOne [of c env cfg cc opts ri] by (auto simp: stays_locked_def keeps_def own_run_def)
  qed
qed

lemma locked_step:
  assumes "unchanged_login env c f ev"
  shows "stays_locked c f d (sched_step env L cfg ev d)"
proof (cases ev)
  case (Trigger opts inputs)
  have one: "keeps (stays_locked c f) (runOne env L cfg company cc opts (inputs company))" for company cc
  proof (cases "company = c")
    case True
    with locked_runOne assms Trigger show ?thesis
      by (simp add: unchanged_login_def)
  next
    case False
    with own_runOne [of company env cfg cc opts "inputs company"] other_locked show ?thesis
      unfolding keeps_def by blast
  qed
  have "keeps (stays_locked c f) (run_step env L cfg opts inputs entry records)" for entry records
    unfolding run_step_def
    by (intro keeps_cases keeps_intros [OF locked_order(1)] keeps_bind [OF locked_order(2)] one)
  then have fold: "keeps (stays_locked c f) (foldA (run_step env L cfg opts inputs) cs records)" for cs records
    by (intro keeps_foldA [OF locked_order])
  obtain r d' where run: "foldA (run_step env L cfg opts inputs) (cfg_companies cfg) [] (d\<lparr>sd_running := True\<rparr>) = (r, d')"
    by fastforce
  then have "stays_locked c f d (d'\<lparr>sd_running := False\<rparr>)"
    using keepsD [OF fold run] by (simp add: stays_locked_def)
  then show ?thesis
    using locked_order(1) run Trigger by (simp add: sched_step_def runNow_def reflp_def)
next
  case (Unpark company)
  then have "inv s \<Longrightarrow> inv (snd (unparkCompany L company s)) \<and>
      getSourceState L c (snd (unparkCompany L company s)) = getSourceState L c s" for s
    using assms state_company [of s company] get_state [of s] state_inv [of s]
    by (auto simp: unparkCompany_def unchanged_login_def unparked_def split: option.splits)
  with Unpark show ?thesis
    by (auto simp: sched_step_def stays_locked_def locked_def intro!: exI [of _ "[]"])
qed

lemma locked_run:
  "list_all (unchanged_login env c f) evs \<Longrightarrow> stays_locked c f d (fold (sched_step env L cfg) evs d)"
proof (induction evs arbitrary: d)
  case Nil
  then show ?case
    using locked_order(1) by (simp add: reflp_def)
next
  case (Cons ev evs)
  then show ?case
    using locked_step [of env c f ev d cfg] transpD [OF locked_order(2)] by auto
qed

end

text \<open>
  C18: a parked company stays parked. On the SQLite ledger, as long as the credentials of a parked company are
  the ones it was parked with, or cannot be read, and nobody unparks it or forces a run, no trigger, however
  many there are and whatever else they do, calls its bank again, and it is still parked afterwards.
\<close>

theorem parked_stays_parked:
  assumes "states_ok (sd_ledger d)" "locked (sqlite_ledger aenv printf2) c f (sd_ledger d)"
    and "list_all (unchanged_login env c f) evs"
    and "d' = fold (sched_step env (sqlite_ledger aenv printf2) cfg) evs d"
  shows "locked (sqlite_ledger aenv printf2) c f (sd_ledger d') \<and>
    (\<exists>new. sd_calls d' = sd_calls d @ new \<and> (\<forall>x \<in> set new. rc_company x \<noteq> c))"
  using sql_sched.locked_run [OF assms(3), where d = d] assms(1,2,4)
  unfolding sql_sched.stays_locked_def by blast

text \<open>The state a rejected password leaves.\<close>

definition parked_db :: sqlite_db where
  "parked_db = sql_upsertSourceState ((defaultSourceState (js ''cal''))\<lparr>st_parked := True, st_credentialFingerprint := Some (js ''00ff'')\<rparr>) empty_db"

theorem parked_stays_parked_witness:
  "\<exists>new. sd_calls (fold (sched_step example_sched (sqlite_ledger example_env (\<lambda>a. [])) example_config)
      [Trigger plain_run (\<lambda>c. example_input), Unpark (js ''max''), Trigger plain_run (\<lambda>c. example_input)] (idle parked_db)) = new \<and>
    (\<forall>x \<in> set new. rc_company x \<noteq> js ''cal'')"
proof -
  let ?L = "sqlite_ledger example_env (\<lambda>a. [])"
  let ?st = "(defaultSourceState (js ''cal''))\<lparr>st_parked := True, st_credentialFingerprint := Some (js ''00ff'')\<rparr>"
  have db: "parked_db = upsertSourceState ?L ?st empty_db"
    by (simp add: parked_db_def sqlite_ledger_def)
  have ok: "states_ok (sd_ledger (idle parked_db))"
    using sql_state.state_inv [OF empty_tables(2)] by (simp add: idle_def db)
  have locked: "locked ?L (js ''cal'') (js ''00ff'') (sd_ledger (idle parked_db))"
    using sql_state.get_state [OF empty_tables(2), where st = ?st and c = "js ''cal''" and env = example_env and ?printf2.0 = "\<lambda>a. []"]
    by (simp add: locked_def idle_def db defaultSourceState_def)
  have events: "list_all (unchanged_login example_sched (js ''cal'') (js ''00ff''))
      [Trigger plain_run (\<lambda>c. example_input), Unpark (js ''max''), Trigger plain_run (\<lambda>c. example_input)]"
    by (simp add: unchanged_login_def plain_run_def example_input_def example_sched_def credentialFingerprint_def)
  have start: "sd_calls (idle parked_db) = []"
    by (simp add: idle_def)
  show ?thesis
    using parked_stays_parked [OF ok locked events refl, where cfg = example_config] unfolding start append_Nil
    by (elim conjE exE) (intro exI conjI)
qed

end
