(* ===== verification/BackoffProofs.thy ===== *)
theory BackoffProofs
  imports SchedulerProofs
begin

text \<open>
  What a failed attempt of the scheduler leaves behind and what the next trigger makes of it: parking after a
  credential problem, one and three hours of backoff after the first two other failures in a row.
\<close>

section \<open>What a failure writes\<close>

text \<open>The hours without attempts after the n-th failure in a row.\<close>

fun backoff_hours :: "nat \<Rightarrow> int option" where
  "backoff_hours (Suc 0) = Some 1"
| "backoff_hours (Suc (Suc 0)) = Some 3"
| "backoff_hours n = None"

text \<open>The state after a failure of the given kind at the given time.\<close>

definition failed_state :: "source_state \<Rightarrow> scrape_error_type \<Rightarrow> int \<Rightarrow> source_state \<Rightarrow> bool" where
  "failed_state st e now st' \<longleftrightarrow>
     st_company st' = st_company st \<and> st_credentialFingerprint st' = st_credentialFingerprint st \<and>
     st_consecutiveFailures st' = st_consecutiveFailures st + 1 \<and> st_lastErrorType st' = Some e \<and>
     (if parking_error e then st_parked st' \<and> st_nextAllowedAt st' = None
      else st_parked st' = st_parked st \<and>
        st_nextAllowedAt st' = map_option (\<lambda>h. iso_of_time (now + h * 3600000)) (backoff_hours (st_consecutiveFailures st')))"

lemma backoff_hours_nth: "n < length BACKOFF_HOURS \<Longrightarrow> backoff_hours (Suc n) = Some (BACKOFF_HOURS ! n)"
  by (cases n rule: backoff_hours.cases) (auto simp: BACKOFF_HOURS_def less_Suc_eq)

lemma backoff_hours_end: "\<not> n < length BACKOFF_HOURS \<Longrightarrow> backoff_hours (Suc n) = None"
  by (cases "Suc n" rule: backoff_hours.cases) (auto simp: BACKOFF_HOURS_def)

lemma applyFailure_state:
  assumes "applyFailure company st e m now = Inr st'"
  shows "failed_state st e now st'"
  using assms backoff_hours_nth [of "st_consecutiveFailures st"] backoff_hours_end [of "st_consecutiveFailures st"]
  by (auto simp: applyFailure_def failed_state_def Let_def to_iso_string_def time_clip_def split: if_splits)

section \<open>What the guards make of it\<close>

text \<open>A state that keeps an unforced run with these credentials away from the bank at this time.\<close>

definition held :: "source_state \<Rightarrow> jsstr \<Rightarrow> int \<Rightarrow> bool" where
  "held st fingerprint now \<longleftrightarrow> st_credentialFingerprint st = Some fingerprint \<and>
     (st_parked st \<or> (\<exists>t. ok_time t \<and> now < t \<and> st_nextAllowedAt st = Some (iso_of_time t)))"

lemma truthy_iso: "ok_time t \<Longrightarrow> truthy_text (Some (iso_of_time t)) = Some (iso_of_time t)"
  by (simp add: truthy_text_def iso_of_time_def Let_def)

lemma guard_held:
  assumes "held st f now" "\<not> ro_force opts"
  shows "\<exists>message. guard env cfg st f opts now = Inr (Some message, st)"
  using assms
  by (auto simp: held_def guard_def guard_parking_def Let_def truthy_iso date_parse_iso_of_time later_def)

lemma guard_keeps:
  assumes "guard env cfg st f opts now = Inr (skip, st')"
  shows guard_company: "st_company st' = st_company st" and guard_fingerprint: "st_credentialFingerprint st' = Some f"
    and guard_failures: "st_consecutiveFailures st' = st_consecutiveFailures (guard_parking st f)"
  using assms
  by (auto simp: guard_def guard_parking_def guard_day_def unparked_def Let_def split: if_splits)

context schedule_store
begin

lemma runOne_held:
  assumes "getSourceState L c (sd_ledger d) = Some st" "ri_credentials ri = Some credentials" "\<not> ro_force opts"
    and "held st (credentialFingerprint (se_sha env) (se_lc env) credentials) (ri_guarded ri)"
  shows "\<exists>r d'. runOne env L cfg c cc opts ri d = (Inr r, d') \<and> run_status r = RunSkipped \<and> sd_calls d' = sd_calls d"
proof -
  obtain message where "guard env cfg st (credentialFingerprint (se_sha env) (se_lc env) credentials) opts (ri_guarded ri) = Inr (Some message, st)"
    using guard_held [OF assms(4,3)] by blast
  with assms(1,2) show ?thesis
    by (simp add: runOne_def default_def save_state_def record_run_def onLedger_def bindA_def run_entry_def ZERO_COUNTS_def)
qed

text \<open>A run that reports an error went through the guards and ends with the state of that failure.\<close>

lemma finish_failed:
  assumes ok: "inv (sd_ledger d)" and run: "finish_run env L cfg c cc ri st outcome d = (Inr r, d')"
    and e: "run_errorType r = Some e" and c: "st_company st = c"
  shows "\<exists>st'. getSourceState L c (sd_ledger d') = Some st' \<and> failed_state st e (ri_applied ri) st'"
proof (cases outcome)
  case (RunOk result)
  with run e show ?thesis
    by (auto simp: finish_run_def bindA_ok record_run_def run_entry_def split: prod.splits)
next
  case (RunFailed e' m)
  from run obtain st' where st': "applyFailure c st e' m (ri_applied ri) = Inr st'"
    and tail: "bindA (save_state L st') (\<lambda>_. record_run L (run_entry ri c (statusForError e') (Some e') (Some m) ZERO_COUNTS)) d = (Inr r, d')"
    by (auto simp: finish_run_def RunFailed bindA_ok)
  have e': "e' = e"
    using tail e by (auto simp: bindA_ok record_run_def run_entry_def split: prod.splits)
  have "st_company st' = c"
    using applyFailure_state [OF st'] c by (simp add: failed_state_def)
  then have "getSourceState L c (sd_ledger d') = Some st'"
    using tail run_frame [OF state_inv [OF ok]] get_state [OF ok]
    by (auto simp: bindA_ok record_run_def save_state_def onLedger_def)
  with applyFailure_state [OF st'] e' show ?thesis
    by blast
qed

lemma attempt_failed:
  assumes ok: "inv (sd_ledger d)" and run: "attempt_run env L cfg c cc opts ri st credentials d = (Inr r, d')"
    and e: "run_errorType r = Some e" and c: "st_company st = c"
  shows "\<exists>st'. getSourceState L c (sd_ledger d') = Some st' \<and> failed_state st e (ri_applied ri) st'"
proof -
  define st1 where "st1 = st\<lparr>st_loginAttempts := st_loginAttempts st + 1, st_lastRunAt := Some (iso_of_time (ri_started ri))\<rparr>"
  define d1 where "d1 = d\<lparr>sd_ledger := upsertSourceState L st1 (sd_ledger d)\<rparr>"
  have saved: "bindA (save_state L st1) g d = g () d1" for g :: "unit \<Rightarrow> ('a sched, run_record) act"
    by (simp add: save_state_def onLedger_def d1_def bindA_def)
  from run [unfolded attempt_run_def Let_def, folded st1_def, unfolded saved]
  obtain d2 result where "finish_run env L cfg c cc ri st1 result d2 = (Inr r, d')" "sd_ledger d2 = sd_ledger d1"
    by (auto simp: bindA_ok call_source_def)
  moreover have "inv (sd_ledger d1)"
    using state_inv [OF ok] by (simp add: d1_def)
  ultimately have "inv (sd_ledger d2)" "finish_run env L cfg c cc ri st1 result d2 = (Inr r, d')"
    by simp_all
  from finish_failed [OF this e] c show ?thesis
    by (auto simp: st1_def failed_state_def)
qed

lemma runOne_failed:
  assumes ok: "inv (sd_ledger d)" and run: "runOne env L cfg c cc opts ri d = (Inr r, d')"
    and e: "run_errorType r = Some e" and creds: "ri_credentials ri = Some credentials"
  shows "\<exists>st st'. guard env cfg (default (getSourceState L c (sd_ledger d)) (defaultSourceState c))
      (credentialFingerprint (se_sha env) (se_lc env) credentials) opts (ri_guarded ri) = Inr (None, st) \<and>
    getSourceState L c (sd_ledger d') = Some st' \<and> failed_state st e (ri_applied ri) st'"
proof -
  let ?st = "default (getSourceState L c (sd_ledger d)) (defaultSourceState c)"
  let ?f = "credentialFingerprint (se_sha env) (se_lc env) credentials"
  have c: "st_company ?st = c"
    using state_company [OF ok] by (auto simp: default_def defaultSourceState_def split: option.splits)
  obtain skip st where g: "guard env cfg ?st ?f opts (ri_guarded ri) = Inr (skip, st)"
    using run creds by (cases "guard env cfg ?st ?f opts (ri_guarded ri)") (auto simp: runOne_def)
  have "skip = None"
    using run creds g e by (cases skip) (auto simp: runOne_def bindA_ok record_run_def run_entry_def split: prod.splits)
  moreover have "st_company st = c"
    using guard_company [OF g] c by simp
  ultimately show ?thesis
    using attempt_failed [OF ok _ e, of env cfg c cc opts ri st credentials d'] run creds g by (simp add: runOne_def)
qed

end

text \<open>
  C21: a failure schedules its own retry. On the SQLite ledger a run that ends in an error although its
  credentials could be read counts one more failure, from zero when changed credentials lifted a parking, and stores when the bank may be called again: a
  credential problem parks the company, the first other failure in a row holds it back for one hour, the
  second for three, and later ones set no delay of their own. Until then an unforced trigger with the same
  credentials records a skipped run and calls no bank.
\<close>

theorem failure_schedules_retry:
  assumes "states_ok (sd_ledger d)" "runOne env (sqlite_ledger aenv printf2) cfg c cc opts ri d = (Inr r, d')"
    and "run_errorType r = Some e" "ri_credentials ri = Some credentials"
  shows "\<exists>st'. sql_getSourceState c (sd_ledger d') = Some st' \<and> st_lastErrorType st' = Some e \<and>
    st_consecutiveFailures st' = st_consecutiveFailures
       (guard_parking (default (sql_getSourceState c (sd_ledger d)) (defaultSourceState c))
         (credentialFingerprint (se_sha env) (se_lc env) credentials)) + 1 \<and>
    (parking_error e \<longrightarrow> st_parked st') \<and>
    (\<not> parking_error e \<longrightarrow> st_nextAllowedAt st' =
       map_option (\<lambda>h. iso_of_time (ri_applied ri + h * 3600000)) (backoff_hours (st_consecutiveFailures st'))) \<and>
    (\<forall>cc' opts' ri' h. ri_credentials ri' = Some credentials \<and> \<not> ro_force opts' \<and>
       (parking_error e \<or> backoff_hours (st_consecutiveFailures st') = Some h \<and> ok_time (ri_applied ri + h * 3600000) \<and>
          ri_guarded ri' < ri_applied ri + h * 3600000) \<longrightarrow>
       (\<exists>r' d''. runOne env (sqlite_ledger aenv printf2) cfg c cc' opts' ri' d' = (Inr r', d'') \<and>
          run_status r' = RunSkipped \<and> sd_calls d'' = sd_calls d'))"
proof -
  let ?L = "sqlite_ledger aenv printf2" and ?f = "credentialFingerprint (se_sha env) (se_lc env) credentials"
  have get: "getSourceState ?L = sql_getSourceState"
    by (simp add: sqlite_ledger_def)
  obtain st st' where g: "guard env cfg (default (sql_getSourceState c (sd_ledger d)) (defaultSourceState c)) ?f opts (ri_guarded ri) = Inr (None, st)"
    and st': "sql_getSourceState c (sd_ledger d') = Some st'" "failed_state st e (ri_applied ri) st'"
    using sql_sched.runOne_failed [OF assms] unfolding get by blast
  have f: "st_credentialFingerprint st' = Some ?f"
    using st'(2) guard_fingerprint [OF g] by (simp add: failed_state_def)
  have later: "\<exists>r' d''. runOne env ?L cfg c cc' opts' ri' d' = (Inr r', d'') \<and> run_status r' = RunSkipped \<and> sd_calls d'' = sd_calls d'"
    if "ri_credentials ri' = Some credentials" "\<not> ro_force opts'"
      and due: "parking_error e \<or> backoff_hours (st_consecutiveFailures st') = Some h \<and> ok_time (ri_applied ri + h * 3600000) \<and>
          ri_guarded ri' < ri_applied ri + h * 3600000" for cc' opts' ri' h
  proof -
    have "held st' ?f (ri_guarded ri')"
      using due st'(2) f unfolding held_def failed_state_def by (auto split: if_splits)
    then show ?thesis
      using sql_sched.runOne_held [OF st'(1) [folded get] that(1,2)] by blast
  qed
  show ?thesis
  proof (intro exI [of _ st'] conjI allI impI)
    show "st_consecutiveFailures st' = st_consecutiveFailures (guard_parking (default (sql_getSourceState c (sd_ledger d)) (defaultSourceState c)) ?f) + 1"
      using st'(2) guard_failures [OF g] by (simp add: failed_state_def)
  next
    fix cc' :: company_config and opts' :: run_options and ri' :: run_input and h
    assume "ri_credentials ri' = Some credentials \<and> \<not> ro_force opts' \<and>
      (parking_error e \<or> backoff_hours (st_consecutiveFailures st') = Some h \<and> ok_time (ri_applied ri + h * 3600000) \<and>
       ri_guarded ri' < ri_applied ri + h * 3600000)"
    then show "\<exists>r' d''. runOne env ?L cfg c cc' opts' ri' d' = (Inr r', d'') \<and> run_status r' = RunSkipped \<and> sd_calls d'' = sd_calls d'"
      by (intro later [where h = h]) blast+
  qed (use st' in \<open>auto simp: failed_state_def\<close>)
qed

text \<open>A first run that times out, and one half an hour later.\<close>

lemma failing_run:
  assumes "ri_credentials ri = Some credentials" "ri_outcome ri = Some (RunFailed e m)" "ri_profileDir ri = Inr dir"
    and "guard env cfg (default (getSourceState L c (sd_ledger d)) (defaultSourceState c))
      (credentialFingerprint (se_sha env) (se_lc env) credentials) opts (ri_guarded ri) = Inr (None, st0)"
    and "\<And>st. \<exists>w. computeWindowStart cc st (cfg_overlapDays cfg) (ro_from opts) (ro_backfillFrom opts) (ri_started ri) = Inr w"
    and "\<And>st. \<exists>st'. applyFailure c st e m (ri_applied ri) = Inr st'"
  shows "\<exists>r d'. runOne env L cfg c cc opts ri d = (Inr r, d') \<and> run_errorType r = Some e"
proof -
  define st where "st = st0\<lparr>st_loginAttempts := st_loginAttempts st0 + 1, st_lastRunAt := Some (iso_of_time (ri_started ri))\<rparr>"
  obtain w where w: "computeWindowStart cc st (cfg_overlapDays cfg) (ro_from opts) (ro_backfillFrom opts) (ri_started ri) = Inr w"
    using assms(5) by blast
  obtain st' where st': "applyFailure c st e m (ri_applied ri) = Inr st'"
    using assms(6) by blast
  show ?thesis
    using assms(1-4) w [unfolded st_def] st' [unfolded st_def]
    by (simp add: runOne_def attempt_run_def Let_def save_state_def onLedger_def record_run_def call_source_def finish_run_def
        default_def bindA_def run_entry_def ZERO_COUNTS_def)
qed

lemma example_timeout:
  "\<exists>r d'. runOne example_sched (sqlite_ledger example_env (\<lambda>a. [])) example_config (js ''cal'') example_company plain_run example_input (idle empty_db)
     = (Inr r, d') \<and> run_errorType r = Some TIMEOUT"
proof -
  let ?f = "credentialFingerprint (se_sha example_sched) (se_lc example_sched) [(js ''username'', js ''me'')]"
  have none: "getSourceState (sqlite_ledger example_env (\<lambda>a. [])) (js ''cal'') (sd_ledger (idle empty_db)) = None"
    by (simp add: sqlite_ledger_def sql_getSourceState_def get_where_def idle_def empty_db_def)
  obtain st where st: "guard example_sched example_config (defaultSourceState (js ''cal'')) ?f plain_run (ri_guarded example_input) = Inr (None, st)"
    by (simp add: guard_def guard_parking_def guard_day_def Let_def defaultSourceState_def truthy_text_def example_sched_def example_config_def)
  have window: "\<exists>w. computeWindowStart example_company st n (ro_from plain_run) (ro_backfillFrom plain_run) t = Inr w" for st n t
    by (simp add: computeWindowStart_def plain_run_def truthy_text_def Let_def)
  have failure: "\<exists>st'. applyFailure (js ''cal'') st TIMEOUT m (ri_applied example_input) = Inr st'" for st m
    by (auto simp: applyFailure_def Let_def parking_error_def to_iso_string_def time_clip_def BACKOFF_HOURS_def example_input_def less_Suc_eq)
  have input: "ri_credentials example_input = Some [(js ''username'', js ''me'')]"
    "ri_outcome example_input = Some (RunFailed TIMEOUT (SCRAPE_ERROR_MESSAGES TIMEOUT))" "ri_profileDir example_input = Inr (js ''/chrome/cal'')"
    by (simp_all only: example_input_def run_input.simps)
  show ?thesis
    by (rule failing_run [OF input _ window failure, where ?st0.0 = st]) (unfold none default_def option.case, rule st)
qed

theorem failure_schedules_retry_witness:
  "\<exists>r d' st'. runOne example_sched (sqlite_ledger example_env (\<lambda>a. [])) example_config (js ''cal'') example_company plain_run example_input (idle empty_db)
     = (Inr r, d') \<and> sql_getSourceState (js ''cal'') (sd_ledger d') = Some st' \<and> st_lastErrorType st' = Some TIMEOUT"
proof -
  obtain r d' where run: "runOne example_sched (sqlite_ledger example_env (\<lambda>a. [])) example_config (js ''cal'') example_company plain_run example_input (idle empty_db)
     = (Inr r, d')" "run_errorType r = Some TIMEOUT"
    using example_timeout by blast
  have "states_ok (sd_ledger (idle empty_db))" "ri_credentials example_input = Some [(js ''username'', js ''me'')]"
    by (simp add: idle_def) (simp only: example_input_def run_input.simps)
  from failure_schedules_retry [OF this(1) run this(2)] run(1) show ?thesis
    by blast
qed

end
