(* ===== verification/InvTypes.thy ===== *)
theory InvTypes
  imports JsNumber JsUri IsoOrder
begin

text \<open>
  The investment data model: \<^verbatim>\<open>src/investments/schema.ts\<close>, \<^verbatim>\<open>types.ts\<close> and \<^verbatim>\<open>ids.ts\<close>. A zod schema is
  a trimming and a check: parsing returns the trimmed value or throws. The formats zod itself defines, calendar
  dates, timestamps and UUIDs, are parameters; every regular expression of the source is written out. A missing
  \<^verbatim>\<open>executions\<close> array is the empty one, as the source reads it.
\<close>

section \<open>Data\<close>

datatype inv_provider = Clal | BestInvest | Hapoalim
datatype product_kind = Pension | KerenHishtalmut | ProvidentFund | PlainInvestment
datatype liquidity_status = Restricted | Available | PartiallyAvailable | LiquidityUnknown
datatype coverage = CoverComplete | CoverPartial | CoverNone
datatype date_precision = Effective | Booking | ContributionMonth
datatype activity_kind =
    EmployeeContribution
  | EmployerContribution
  | SeveranceContribution
  | Withdrawal
  | TransferIn
  | TransferOut
  | ManagementFee
  | InsuranceCost
  | InvestmentReturn
  | ActuarialAdjustment
  | OtherActivity
datatype execution_kind =
    Buy
  | Sell
  | Dividend
  | Interest
  | Redemption
  | ExecutionIn
  | ExecutionOut
  | StockBonus
  | OtherExecution
datatype observation_basis = ArchiveCapture | ArchiveRead
datatype inv_error =
    InvOtpRequired
  | InvalidCredentials
  | InvAccountBlocked
  | InvTimeout
  | CredentialResolutionFailed
  | IncompleteResponse
  | InvalidResponse
  | CollectionFailed
datatype source_status = SourceOk | SourcePartial | SourceAuthRequired | SourceError | NeverSynced
datatype session_status = SessionUnknown | SessionActive | SessionAuthRequired | SessionError

record report_line =
  rl_label :: jsstr
  rl_amount :: jsstr

record report_summary =
  rp_id :: jsstr
  rp_title :: jsstr
  rp_fromDate :: "jsstr option"
  rp_toDate :: "jsstr option"
  rp_lines :: "report_line list"

record inv_product =
  ip_id :: jsstr
  ip_provider :: inv_provider
  ip_providerProductId :: jsstr
  ip_kind :: product_kind
  ip_name :: jsstr
  ip_currency :: jsstr
  ip_currentValuationId :: "jsstr option"
  ip_liquidity :: liquidity_status
  ip_availableFrom :: "jsstr option"
  ip_availableAmount :: "jsstr option"
  ip_valuations :: coverage
  ip_activities :: coverage
  ip_tracks :: coverage
  ip_executions :: "coverage option"
  ip_forecast :: "(jsstr \<times> jsstr \<times> jsstr option) option"
  ip_reports :: "report_summary list option"

record archive_provenance =
  av_sourceEntryId :: jsstr
  av_sourceAccountId :: jsstr
  av_sourceSha256 :: jsstr
  av_archiveObservedAt :: jsstr
  av_basis :: observation_basis
  av_sourceAmount :: jsstr

record inv_valuation =
  iv_id :: jsstr
  iv_productId :: jsstr
  iv_asOf :: "jsstr option"
  iv_observedAt :: jsstr
  iv_amount :: jsstr
  iv_currency :: jsstr
  iv_provenance :: "archive_provenance option"

record inv_activity =
  ia_id :: jsstr
  ia_productId :: jsstr
  ia_sourceId :: jsstr
  ia_date :: jsstr
  ia_dateKind :: date_precision
  ia_kind :: activity_kind
  ia_amount :: jsstr
  ia_currency :: jsstr
  ia_description :: jsstr
  ia_observedAt :: jsstr

record inv_track =
  it_id :: jsstr
  it_productId :: jsstr
  it_name :: jsstr
  it_allocationPercent :: "jsstr option"
  it_amount :: "jsstr option"
  it_currency :: jsstr
  it_asOf :: "jsstr option"
  it_observedAt :: jsstr

record inv_execution =
  ie_id :: jsstr
  ie_productId :: jsstr
  ie_sourceId :: jsstr
  ie_kind :: execution_kind
  ie_securityId :: jsstr
  ie_isin :: "jsstr option"
  ie_symbol :: "jsstr option"
  ie_name :: jsstr
  ie_tradeDate :: jsstr
  ie_valueDate :: "jsstr option"
  ie_settlementDate :: "jsstr option"
  ie_cancelDate :: "jsstr option"
  ie_cancelled :: bool
  ie_quantity :: "jsstr option"
  ie_unitPrice :: "jsstr option"
  ie_netCashAmount :: "jsstr option"
  ie_currency :: jsstr
  ie_settlementNetCashAmount :: "jsstr option"
  ie_settlementCurrency :: jsstr
  ie_sourceTradeType :: jsstr
  ie_sourceTransactionType :: jsstr
  ie_sourcePaymentType :: "jsstr option"
  ie_observedAt :: jsstr

record inv_source_state =
  io_provider :: inv_provider
  io_status :: source_status
  io_lastAttemptAt :: "jsstr option"
  io_lastSuccessAt :: "jsstr option"
  io_staleAfterHours :: int
  io_errorCode :: "inv_error option"
  io_inventoryComplete :: bool

record session_state =
  se_status :: session_status
  se_lastCheckedAt :: "jsstr option"
  se_lastRenewedAt :: "jsstr option"
  se_expiresAt :: "jsstr option"
  se_errorCode :: "inv_error option"

record inv_data =
  id_products :: "inv_product list"
  id_valuations :: "inv_valuation list"
  id_activities :: "inv_activity list"
  id_tracks :: "inv_track list"
  id_executions :: "inv_execution list"

record inv_snapshot = inv_data +
  sn_observedAt :: jsstr
  sn_complete :: bool
  sn_inventoryComplete :: bool

record inv_feed = inv_data +
  fd_generatedAt :: jsstr
  fd_source :: inv_source_state

record zod_env =
  ze_date :: "jsstr \<Rightarrow> bool"
  ze_datetime :: "jsstr \<Rightarrow> bool"
  ze_uuid :: "jsstr \<Rightarrow> bool"

section \<open>Texts\<close>

definition null_or :: "('a \<Rightarrow> bool) \<Rightarrow> 'a option \<Rightarrow> bool" where
  "null_or P v = (case v of None \<Rightarrow> True | Some x \<Rightarrow> P x)"

definition sized :: "nat \<Rightarrow> jsstr \<Rightarrow> bool" where
  "sized n s \<longleftrightarrow> s \<noteq> [] \<and> length s \<le> n"

definition currency_code :: "jsstr \<Rightarrow> bool" where
  "currency_code s \<longleftrightarrow> length s = 3 \<and> list_all is_upper s"

definition lower_hex :: "nat \<Rightarrow> bool" where
  "lower_hex c \<longleftrightarrow> is_digit c \<or> 97 \<le> c \<and> c \<le> 102"

text \<open>\<^verbatim>\<open>0|[1-9]\d*\<close>, and the same with a fraction of bounded length, which may be missing if it may be empty.\<close>

definition whole_number :: "jsstr \<Rightarrow> bool" where
  "whole_number s \<longleftrightarrow> s = [48] \<or> s \<noteq> [] \<and> hd s \<noteq> 48 \<and> list_all is_digit s"

definition decimal :: "nat \<Rightarrow> nat \<Rightarrow> jsstr \<Rightarrow> bool" where
  "decimal least most s =
     (case index_of 46 s of
        None \<Rightarrow> least = 0 \<and> whole_number s
      | Some i \<Rightarrow> whole_number (take i s) \<and> list_all is_digit (drop (Suc i) s) \<and>
          max 1 least \<le> length (drop (Suc i) s) \<and> length (drop (Suc i) s) \<le> most)"

definition money :: "jsstr \<Rightarrow> bool" where
  "money s \<longleftrightarrow> decimal 2 2 (if starts_with s (js ''-'') then tl s else s) \<and> s \<noteq> js ''-0.00''"

definition nonnegative_money :: "jsstr \<Rightarrow> bool" where
  "nonnegative_money s \<longleftrightarrow> money s \<and> \<not> starts_with s (js ''-'')"

definition valuation_money :: "jsstr \<Rightarrow> bool" where
  "valuation_money s \<longleftrightarrow> decimal 2 6 s \<and> length s \<le> 16 \<and>
     (case index_of 46 s of None \<Rightarrow> False | Some i \<Rightarrow>
        digits_val (take i s) * 1000000 + digits_val (drop (Suc i) s @ replicate (6 - length (drop (Suc i) s)) 48) \<le> 999999999990000)"

definition month_text :: "jsstr \<Rightarrow> bool" where
  "month_text s = (case s of [y1, y2, y3, y4, dash, m1, m2] \<Rightarrow>
       list_all is_digit [y1, y2, y3, y4, m1, m2] \<and> dash = 45 \<and> 1 \<le> num2 m1 m2 \<and> num2 m1 m2 \<le> 12
     | _ \<Rightarrow> False)"

definition percent :: "jsstr \<Rightarrow> bool" where
  "percent s \<longleftrightarrow> decimal 0 6 s \<and> (case js_number s of None \<Rightarrow> False | Some v \<Rightarrow> v \<le> 100)"

definition securityDecimal :: "jsstr \<Rightarrow> bool" where
  "securityDecimal s \<longleftrightarrow> length s \<le> 64 \<and> decimal 0 12 s"

definition isin_text :: "jsstr \<Rightarrow> bool" where
  "isin_text s \<longleftrightarrow> length s = 12 \<and> list_all is_upper (take 2 s) \<and>
     list_all (\<lambda>c. is_digit c \<or> is_upper c) (take 9 (drop 2 s)) \<and> is_digit (s ! 11)"

definition natural_key :: "jsstr \<Rightarrow> bool" where
  "natural_key s \<longleftrightarrow> starts_with s (js ''natural-key-v1:'') \<and> length s = 79 \<and> list_all lower_hex (drop 15 s)"

definition sha256_text :: "jsstr \<Rightarrow> bool" where
  "sha256_text s \<longleftrightarrow> length s = 64 \<and> list_all lower_hex s"

section \<open>Schemas\<close>

text \<open>What a schema trims, and what it then checks.\<close>

definition checked_by :: "('a \<Rightarrow> bool) \<Rightarrow> ('a \<Rightarrow> 'a) \<Rightarrow> 'a \<Rightarrow> 'a res" where
  "checked_by ok normal x = (if ok (normal x) then Inr (normal x) else Inl (OtherError ''ZodError''))"

definition trim_report :: "report_summary \<Rightarrow> report_summary" where
  "trim_report r = r\<lparr>rp_id := js_trim (rp_id r), rp_title := js_trim (rp_title r),
     rp_lines := map (\<lambda>l. l\<lparr>rl_label := js_trim (rl_label l)\<rparr>) (rp_lines r)\<rparr>"

definition report_ok :: "zod_env \<Rightarrow> report_summary \<Rightarrow> bool" where
  "report_ok env r \<longleftrightarrow> sized 255 (rp_id r) \<and> sized 255 (rp_title r) \<and> null_or (ze_date env) (rp_fromDate r) \<and>
     null_or (ze_date env) (rp_toDate r) \<and> list_all (\<lambda>l. sized 500 (rl_label l) \<and> money (rl_amount l)) (rp_lines r) \<and>
     (case (rp_fromDate r, rp_toDate r) of (Some a, Some b) \<Rightarrow> a \<le> b | _ \<Rightarrow> True)"

definition trim_product :: "inv_product \<Rightarrow> inv_product" where
  "trim_product p = p\<lparr>ip_id := js_trim (ip_id p), ip_providerProductId := js_trim (ip_providerProductId p),
     ip_name := js_trim (ip_name p), ip_currentValuationId := map_option js_trim (ip_currentValuationId p),
     ip_reports := map_option (map trim_report) (ip_reports p)\<rparr>"

definition product_ok :: "zod_env \<Rightarrow> inv_product \<Rightarrow> bool" where
  "product_ok env p \<longleftrightarrow> sized 255 (ip_id p) \<and> sized 255 (ip_providerProductId p) \<and> sized 255 (ip_name p) \<and>
     currency_code (ip_currency p) \<and> null_or (sized 255) (ip_currentValuationId p) \<and>
     null_or (ze_date env) (ip_availableFrom p) \<and> null_or nonnegative_money (ip_availableAmount p) \<and>
     null_or (\<lambda>(amount, currency, asOf). nonnegative_money amount \<and> currency_code currency \<and> null_or (ze_date env) asOf) (ip_forecast p) \<and>
     null_or (\<lambda>rs. list_all (report_ok env) rs \<and> distinct (map rp_id rs)) (ip_reports p)"

definition provenance_ok :: "zod_env \<Rightarrow> archive_provenance \<Rightarrow> bool" where
  "provenance_ok env a \<longleftrightarrow> ze_uuid env (av_sourceEntryId a) \<and> ze_uuid env (av_sourceAccountId a) \<and>
     sha256_text (av_sourceSha256 a) \<and> ze_datetime env (av_archiveObservedAt a) \<and> valuation_money (av_sourceAmount a)"

definition trim_valuation :: "inv_valuation \<Rightarrow> inv_valuation" where
  "trim_valuation v = v\<lparr>iv_id := js_trim (iv_id v), iv_productId := js_trim (iv_productId v)\<rparr>"

definition valuation_ok :: "zod_env \<Rightarrow> inv_valuation \<Rightarrow> bool" where
  "valuation_ok env v \<longleftrightarrow> sized 255 (iv_id v) \<and> sized 255 (iv_productId v) \<and> null_or (ze_date env) (iv_asOf v) \<and>
     ze_datetime env (iv_observedAt v) \<and> valuation_money (iv_amount v) \<and> currency_code (iv_currency v) \<and>
     null_or (provenance_ok env) (iv_provenance v)"

definition trim_activity :: "inv_activity \<Rightarrow> inv_activity" where
  "trim_activity a = a\<lparr>ia_id := js_trim (ia_id a), ia_productId := js_trim (ia_productId a),
     ia_sourceId := js_trim (ia_sourceId a), ia_description := js_trim (ia_description a)\<rparr>"

definition activity_ok :: "zod_env \<Rightarrow> inv_activity \<Rightarrow> bool" where
  "activity_ok env a \<longleftrightarrow> sized 255 (ia_id a) \<and> sized 255 (ia_productId a) \<and> sized 255 (ia_sourceId a) \<and> money (ia_amount a) \<and>
     currency_code (ia_currency a) \<and> sized 1000 (ia_description a) \<and> ze_datetime env (ia_observedAt a) \<and>
     (if ia_dateKind a = ContributionMonth then month_text (ia_date a) else ze_date env (ia_date a))"

definition trim_track :: "inv_track \<Rightarrow> inv_track" where
  "trim_track t = t\<lparr>it_id := js_trim (it_id t), it_productId := js_trim (it_productId t), it_name := js_trim (it_name t)\<rparr>"

definition track_ok :: "zod_env \<Rightarrow> inv_track \<Rightarrow> bool" where
  "track_ok env t \<longleftrightarrow> sized 255 (it_id t) \<and> sized 255 (it_productId t) \<and> sized 255 (it_name t) \<and>
     null_or percent (it_allocationPercent t) \<and> null_or nonnegative_money (it_amount t) \<and> currency_code (it_currency t) \<and>
     null_or (ze_date env) (it_asOf t) \<and> ze_datetime env (it_observedAt t)"

definition trim_execution :: "inv_execution \<Rightarrow> inv_execution" where
  "trim_execution e = e\<lparr>ie_id := js_trim (ie_id e), ie_productId := js_trim (ie_productId e), ie_securityId := js_trim (ie_securityId e),
     ie_symbol := map_option js_trim (ie_symbol e), ie_name := js_trim (ie_name e)\<rparr>"

definition execution_ok :: "zod_env \<Rightarrow> inv_execution \<Rightarrow> bool" where
  "execution_ok env e \<longleftrightarrow> sized 255 (ie_id e) \<and> sized 255 (ie_productId e) \<and> natural_key (ie_sourceId e) \<and> sized 255 (ie_securityId e) \<and>
     null_or isin_text (ie_isin e) \<and> null_or (sized 100) (ie_symbol e) \<and> sized 500 (ie_name e) \<and> ze_date env (ie_tradeDate e) \<and>
     null_or (ze_date env) (ie_valueDate e) \<and> null_or (ze_date env) (ie_settlementDate e) \<and> null_or (ze_date env) (ie_cancelDate e) \<and>
     null_or securityDecimal (ie_quantity e) \<and> null_or securityDecimal (ie_unitPrice e) \<and> null_or money (ie_netCashAmount e) \<and>
     currency_code (ie_currency e) \<and> null_or money (ie_settlementNetCashAmount e) \<and> currency_code (ie_settlementCurrency e) \<and>
     length (ie_sourceTradeType e) \<le> 400 \<and> length (ie_sourceTransactionType e) \<le> 400 \<and>
     null_or (\<lambda>s. length s \<le> 400) (ie_sourcePaymentType e) \<and> ze_datetime env (ie_observedAt e)"

definition source_state_ok :: "zod_env \<Rightarrow> inv_source_state \<Rightarrow> bool" where
  "source_state_ok env s \<longleftrightarrow> null_or (ze_datetime env) (io_lastAttemptAt s) \<and> null_or (ze_datetime env) (io_lastSuccessAt s) \<and>
     0 < io_staleAfterHours s"

definition session_state_ok :: "zod_env \<Rightarrow> session_state \<Rightarrow> bool" where
  "session_state_ok env s \<longleftrightarrow> null_or (ze_datetime env) (se_lastCheckedAt s) \<and> null_or (ze_datetime env) (se_lastRenewedAt s) \<and>
     null_or (ze_datetime env) (se_expiresAt s)"

definition trim_data :: "('a inv_data_scheme) \<Rightarrow> 'a inv_data_scheme" where
  "trim_data d = d\<lparr>id_products := map trim_product (id_products d), id_valuations := map trim_valuation (id_valuations d),
     id_activities := map trim_activity (id_activities d), id_tracks := map trim_track (id_tracks d),
     id_executions := map trim_execution (id_executions d)\<rparr>"

definition data_ok :: "zod_env \<Rightarrow> 'a inv_data_scheme \<Rightarrow> bool" where
  "data_ok env d \<longleftrightarrow> list_all (product_ok env) (id_products d) \<and> list_all (valuation_ok env) (id_valuations d) \<and>
     list_all (activity_ok env) (id_activities d) \<and> list_all (track_ok env) (id_tracks d) \<and> list_all (execution_ok env) (id_executions d)"

definition parse_snapshot :: "zod_env \<Rightarrow> inv_snapshot \<Rightarrow> inv_snapshot res" where
  "parse_snapshot env = checked_by (\<lambda>s. data_ok env s \<and> ze_datetime env (sn_observedAt s)) trim_data"

definition parse_feed :: "zod_env \<Rightarrow> inv_feed \<Rightarrow> inv_feed res" where
  "parse_feed env = checked_by (\<lambda>f. data_ok env f \<and> ze_datetime env (fd_generatedAt f) \<and> source_state_ok env (fd_source f)) trim_data"

definition parse_source_state :: "zod_env \<Rightarrow> inv_source_state \<Rightarrow> inv_source_state res" where
  "parse_source_state env = checked_by (source_state_ok env) id"

definition parse_session_state :: "zod_env \<Rightarrow> session_state \<Rightarrow> session_state res" where
  "parse_session_state env = checked_by (session_state_ok env) id"

section \<open>Identities\<close>

definition provider_text :: "inv_provider \<Rightarrow> jsstr" where
  "provider_text p = (case p of Clal \<Rightarrow> js ''clal'' | BestInvest \<Rightarrow> js ''hachshara_best_invest'' | Hapoalim \<Rightarrow> js ''hapoalim'')"

definition id_part :: "jsstr \<Rightarrow> jsstr res" where
  "id_part value = (let trimmed = js_trim value in
     if trimmed = [] then Inl (OtherError ''Investment identifiers must not be empty'') else encodeURIComponent trimmed)"

definition checked_id :: "jsstr \<Rightarrow> jsstr res" where
  "checked_id value = (if length value > 255 then Inl (OtherError ''Investment identifiers must not exceed 255 characters'') else Inr value)"

definition investmentProductId :: "jsstr \<Rightarrow> inv_provider \<Rightarrow> jsstr res" where
  "investmentProductId providerProductId provider =
     bindE (id_part providerProductId) (\<lambda>p. checked_id (provider_text provider @ js '':'' @ p))"

definition investmentValuationId :: "jsstr \<Rightarrow> jsstr option \<Rightarrow> jsstr res" where
  "investmentValuationId productId asOf = checked_id (productId @ js '':valuation:'' @ default asOf (js ''undated''))"

definition investmentActivityId :: "jsstr \<Rightarrow> jsstr \<Rightarrow> jsstr res" where
  "investmentActivityId productId sourceId = bindE (id_part sourceId) (\<lambda>p. checked_id (productId @ js '':activity:'' @ p))"

definition investmentTrackId :: "jsstr \<Rightarrow> jsstr \<Rightarrow> jsstr res" where
  "investmentTrackId productId sourceTrackId = bindE (id_part sourceTrackId) (\<lambda>p. checked_id (productId @ js '':track:'' @ p))"

definition investmentExecutionId :: "jsstr \<Rightarrow> jsstr \<Rightarrow> jsstr res" where
  "investmentExecutionId productId sourceId = bindE (id_part sourceId) (\<lambda>p. checked_id (productId @ js '':execution:'' @ p))"

section \<open>Timestamps\<close>

text \<open>
  \<^verbatim>\<open>Date.parse\<close> on the timestamps the schema admits: seconds and their fraction are optional, digits after the
  third of the fraction are dropped, the time is UTC.
\<close>

definition fraction_ms :: "jsstr \<Rightarrow> int" where
  "fraction_ms f = (case take 3 (f @ [48, 48]) of [a, b, c] \<Rightarrow> num3 a b c | _ \<Rightarrow> 0)"

fun parse_clock :: "jsstr \<Rightarrow> int option" where
  "parse_clock (t # h1 # h2 # c1 # i1 # i2 # rest) =
     (if list_all is_digit [h1, h2, i1, i2] \<and> t = 84 \<and> c1 = 58 \<and> num2 h1 h2 \<le> 23 \<and> num2 i1 i2 \<le> 59
      then (let minutes = num2 h1 h2 * 3600000 + num2 i1 i2 * 60000 in
        if rest = [90] then Some minutes
        else case rest of
            c2 # s1 # s2 # p # f \<Rightarrow>
              if \<not> (c2 = 58 \<and> list_all is_digit [s1, s2] \<and> num2 s1 s2 \<le> 59) then None
              else if p = 90 \<and> f = [] then Some (minutes + num2 s1 s2 * 1000)
              else if p = 46 \<and> f \<noteq> [] \<and> last f = 90 \<and> butlast f \<noteq> [] \<and> list_all is_digit (butlast f)
              then Some (minutes + num2 s1 s2 * 1000 + fraction_ms (butlast f))
              else None
          | _ \<Rightarrow> None)
      else None)"
| "parse_clock _ = None"

definition parse_stamp :: "jsstr \<Rightarrow> int option" where
  "parse_stamp s = (case parse_date_part s of
       None \<Rightarrow> None
     | Some (d, rest) \<Rightarrow> map_option (\<lambda>t. d * ms_per_day + t) (parse_clock rest))"

lemma parse_clock_time: "parse_time_part s = Some t \<Longrightarrow> parse_clock s = Some t"
  by (induction s rule: parse_time_part.induct) (auto simp: fraction_ms_def Let_def split: if_splits)

lemma parse_date_length: "parse_date_part s = Some (d, rest) \<Longrightarrow> length s = 10 + length rest"
  by (induction s rule: parse_date_part.induct) (auto split: if_splits)

lemma parse_stamp_iso:
  assumes "ok_time t"
  shows "parse_stamp (iso_of_time t) = Some t"
proof -
  have "- 719528 \<le> t div ms_per_day" "t div ms_per_day < 2932897"
    using assms div_bounds [of ms_per_day t] by (auto simp: ok_time_def ms_per_day_def)
  from iso_date_length [OF date_of_civil [OF this]] have "10 < length (iso_of_time t)"
    by (simp add: iso_of_time_def Let_def)
  moreover obtain d rest where "parse_date_part (iso_of_time t) = Some (d, rest)"
    using date_parse_iso_of_time [OF assms] by (auto simp: date_parse_def split: option.splits prod.splits)
  moreover from this have "length (iso_of_time t) = 10 + length rest"
    by (rule parse_date_length)
  ultimately show ?thesis
    using date_parse_iso_of_time [OF assms]
    by (auto simp: date_parse_def parse_stamp_def parse_clock_time split: option.splits)
qed

section \<open>Parsing is idempotent\<close>

lemma trims_idem [simp]:
  "trim_report (trim_report r) = trim_report r" "trim_product (trim_product p) = trim_product p"
  "trim_valuation (trim_valuation v) = trim_valuation v" "trim_activity (trim_activity a) = trim_activity a"
  "trim_track (trim_track t) = trim_track t" "trim_execution (trim_execution e) = trim_execution e"
  "trim_data (trim_data d) = trim_data d"
proof -
  have report: "trim_report (trim_report r) = trim_report r" for r
    by (simp add: trim_report_def js_trim_idem)
  have product: "trim_product (trim_product p) = trim_product p" for p
    by (simp add: trim_product_def js_trim_idem option.map_comp comp_def report)
  have rest: "trim_valuation (trim_valuation v) = trim_valuation v" "trim_activity (trim_activity a) = trim_activity a"
    "trim_track (trim_track t) = trim_track t" "trim_execution (trim_execution e) = trim_execution e" for v a t e
    by (simp_all add: trim_valuation_def trim_activity_def trim_track_def trim_execution_def js_trim_idem option.map_comp comp_def)
  have data: "trim_data (trim_data d) = trim_data d" for d :: "'a inv_data_scheme"
    by (simp add: trim_data_def product rest)
  show "trim_report (trim_report r) = trim_report r" "trim_product (trim_product p) = trim_product p"
    "trim_valuation (trim_valuation v) = trim_valuation v" "trim_activity (trim_activity a) = trim_activity a"
    "trim_track (trim_track t) = trim_track t" "trim_execution (trim_execution e) = trim_execution e"
    "trim_data (trim_data d) = trim_data d"
    by (rule report product rest data)+
qed

lemma checked_by_ok: "checked_by ok normal x = Inr y \<longleftrightarrow> ok (normal x) \<and> y = normal x"
  by (auto simp: checked_by_def)

lemma parse_snapshot_ok:
  assumes "parse_snapshot env s = Inr t"
  shows "parse_snapshot env t = Inr t" "trim_data t = t" "data_ok env t" "ze_datetime env (sn_observedAt t)"
    "sn_observedAt t = sn_observedAt s" "sn_complete t = sn_complete s" "sn_inventoryComplete t = sn_inventoryComplete s"
  using assms by (auto simp: parse_snapshot_def checked_by_ok trim_data_def [symmetric]) (simp_all add: trim_data_def)

end
