(* ===== verification/InvReports.thy ===== *)
theory InvReports
  imports InvTypes Types
begin

text \<open>
  \<^verbatim>\<open>src/investments/clal-reports.ts\<close>, the valuations a Clal report contributes, and the exact readers of
  money and dates of \<^verbatim>\<open>src/investments/clal-portfolio.ts\<close>. Every \<^verbatim>\<open>ClalCollectionError('INVALID_RESPONSE')\<close>
  is one error.
\<close>

section \<open>Reading provider values\<close>

definition invalid_response :: js_error where
  "invalid_response = OtherError ''INVALID_RESPONSE''"

definition clal_text :: "jsval \<Rightarrow> jsstr res" where
  "clal_text v = (case v of JStr s \<Rightarrow> if js_trim s = [] then Inl invalid_response else Inr (js_trim s) | _ \<Rightarrow> Inl invalid_response)"

text \<open>\<^verbatim>\<open>\d+\<close> or \<^verbatim>\<open>\d{1,3}(,\d{3})+\<close>, the first alternative tried first.\<close>

definition grouped_digits :: "jsstr \<Rightarrow> bool" where
  "grouped_digits s \<longleftrightarrow> s \<noteq> [] \<and> list_all is_digit s \<or>
     (case split_on 44 s of
        g # gs \<Rightarrow> gs \<noteq> [] \<and> list_all (list_all is_digit) (g # gs) \<and> 1 \<le> length g \<and> length g \<le> 3 \<and> list_all (\<lambda>x. length x = 3) gs
      | [] \<Rightarrow> False)"

definition clal_amount :: "jsstr \<Rightarrow> bool" where
  "clal_amount s =
     (case index_of 46 s of
        None \<Rightarrow> grouped_digits s
      | Some i \<Rightarrow> grouped_digits (take i s) \<and> list_all is_digit (drop (Suc i) s) \<and> drop (Suc i) s \<noteq> [] \<and> length (drop (Suc i) s) \<le> 2)"

text \<open>An unsigned amount, without its grouping commas, with two digits of cents.\<close>

definition normal_amount :: "jsstr \<Rightarrow> jsstr" where
  "normal_amount unsigned =
     (let plain = filter (\<lambda>c. c \<noteq> 44) unsigned;
          i = default (index_of 46 plain) (length plain);
          fraction = drop (Suc i) plain
      in nat_str (digits_val (take i plain)) @ js ''.'' @ fraction @ replicate (2 - length fraction) 48)"

definition parseClalMoney :: "jsval \<Rightarrow> jsstr res" where
  "parseClalMoney v = bindE (clal_text v) (\<lambda>input.
     let unsigned = (if starts_with input (js ''-'') then tl input else input); amount = normal_amount unsigned in
     if \<not> clal_amount unsigned then Inl invalid_response
     else Inr (if starts_with input (js ''-'') \<and> amount \<noteq> js ''0.00'' then js ''-'' @ amount else amount))"

definition day_first :: "jsstr \<Rightarrow> jsstr option" where
  "day_first s = (case s of [d1, d2, s1, m1, m2, s2, y1, y2, y3, y4] \<Rightarrow>
       if list_all is_digit [d1, d2, m1, m2, y1, y2, y3, y4] \<and> s1 = s2 \<and> (s1 = 46 \<or> s1 = 47)
       then Some [y1, y2, y3, y4, 45, m1, m2, 45, d1, d2] else None
     | _ \<Rightarrow> None)"

definition blank :: "jsval \<Rightarrow> bool" where
  "blank v = (case v of JUndef \<Rightarrow> True | JNull \<Rightarrow> True | JStr s \<Rightarrow> js_trim s = [] | _ \<Rightarrow> False)"

definition parseClalDate :: "zod_env \<Rightarrow> jsval \<Rightarrow> jsstr option res" where
  "parseClalDate env v =
     (if blank v then Inr None
      else bindE (clal_text v) (\<lambda>input.
        let candidate = default (day_first input) input
        in if ze_date env candidate then Inr (Some candidate) else Inl invalid_response))"

section \<open>Balances of a report\<close>

text \<open>The label fragments \<^verbatim>\<open>(opening)\<close>, \<^verbatim>\<open>funds balance\<close> and \<^verbatim>\<open>accumulated balance\<close>, in Hebrew.\<close>

definition OPENING :: jsstr where
  "OPENING = [40, 1508, 1514, 1497, 1495, 1492, 41]"

definition BALANCE_LABELS :: "jsstr list" where
  "BALANCE_LABELS = [[1497, 1514, 1512, 1514, 32, 1492, 1499, 1505, 1508, 1497, 1501], [1497, 1514, 1512, 1492, 32, 1510, 1489, 1493, 1512, 1492]]"

fun contains_text :: "jsstr \<Rightarrow> jsstr \<Rightarrow> bool" where
  "contains_text p [] = (p = [])"
| "contains_text p (c # s) = (starts_with (c # s) p \<or> contains_text p s)"

definition balance_label :: "jsstr \<Rightarrow> bool" where
  "balance_label label \<longleftrightarrow> list_ex (\<lambda>p. starts_with label p \<and>
     (case drop (length p) label of [] \<Rightarrow> True | c # rest \<Rightarrow> is_space c)) BALANCE_LABELS"

text \<open>The first \<^verbatim>\<open>\b\d{2}/\d{2}/\d{4}\b\<close> of a text; the flag tells whether a word character precedes.\<close>

definition slashed_date :: "jsstr \<Rightarrow> bool" where
  "slashed_date s = (case take 10 s of [d1, d2, s1, m1, m2, s2, y1, y2, y3, y4] \<Rightarrow>
       list_all is_digit [d1, d2, m1, m2, y1, y2, y3, y4] \<and> s1 = 47 \<and> s2 = 47 \<and>
       (case drop 10 s of [] \<Rightarrow> True | c # rest \<Rightarrow> \<not> is_word c)
     | _ \<Rightarrow> False)"

fun find_date :: "bool \<Rightarrow> jsstr \<Rightarrow> jsstr option" where
  "find_date after_word [] = None"
| "find_date after_word (c # s) = (if \<not> after_word \<and> slashed_date (c # s) then Some (take 10 (c # s)) else find_date (is_word c) s)"

definition text_value :: "jsstr option \<Rightarrow> jsval" where
  "text_value v = (case v of None \<Rightarrow> JUndef | Some s \<Rightarrow> JStr s)"

definition openingDate :: "zod_env \<Rightarrow> report_line list \<Rightarrow> jsstr option res" where
  "openingDate env rows =
     parseClalDate env (text_value (Option.bind (find (\<lambda>r. contains_text OPENING (rl_label r)) rows) (\<lambda>r. find_date False (rl_label r))))"

definition line_balance :: "zod_env \<Rightarrow> inv_product \<Rightarrow> inv_valuation \<Rightarrow> report_summary \<Rightarrow> report_line \<Rightarrow> inv_valuation list res" where
  "line_balance env product current report line =
     (if \<not> balance_label (rl_label line) \<or> starts_with (rl_amount line) (js ''-'') then Inr []
      else bindE (parseClalDate env (text_value (find_date False (rl_label line)))) (\<lambda>asOf.
        let opening = contains_text OPENING (rl_label line) in
        if asOf = None \<or> asOf \<noteq> (if opening then rp_fromDate report else rp_toDate report) then Inr []
        else bindE (investmentValuationId (ip_id product) asOf) (\<lambda>i.
          Inr [\<lparr>iv_id = i, iv_productId = ip_id product, iv_asOf = asOf, iv_observedAt = iv_observedAt current,
                iv_amount = rl_amount line, iv_currency = ip_currency product, iv_provenance = None\<rparr>])))"

definition reportBalances :: "zod_env \<Rightarrow> inv_product \<Rightarrow> inv_valuation \<Rightarrow> report_summary \<Rightarrow> inv_valuation list res" where
  "reportBalances env product current report =
     (case rp_toDate report of
        None \<Rightarrow> Inr []
      | Some toDate \<Rightarrow>
          if map_option (take 4) (rp_fromDate report) \<noteq> Some (take 4 toDate) \<or> take 10 (iv_observedAt current) < toDate then Inr []
          else bindE (mapE (line_balance env product current report) (rp_lines report)) (\<lambda>vs. Inr (concat vs)))"

definition add_candidate :: "inv_valuation list \<Rightarrow> inv_product \<Rightarrow> inv_valuation \<Rightarrow> inv_valuation list \<Rightarrow> inv_valuation list res" where
  "add_candidate observed product v valuations =
     (if list_ex (\<lambda>r. iv_productId r = ip_id product \<and> iv_asOf r = iv_asOf v) observed then Inr valuations
      else case find (\<lambda>r. iv_id r = iv_id v) valuations of
        None \<Rightarrow> Inr (valuations @ [v])
      | Some existing \<Rightarrow> if iv_amount existing \<noteq> iv_amount v then Inl invalid_response else Inr valuations)"

definition enrich_product :: "zod_env \<Rightarrow> inv_valuation list \<Rightarrow> inv_product \<Rightarrow> inv_valuation list \<Rightarrow> inv_valuation list res" where
  "enrich_product env observed product valuations =
     (case find (\<lambda>v. Some (iv_id v) = ip_currentValuationId product \<and> iv_productId v = ip_id product) observed of
        None \<Rightarrow> Inr valuations
      | Some current \<Rightarrow>
          if ip_provider product \<noteq> Clal then Inr valuations
          else bindE (mapE (reportBalances env product current) (default (ip_reports product) [])) (\<lambda>candidates.
            foldE (add_candidate observed product) (concat candidates) valuations))"

definition enrichClalReportValuations :: "zod_env \<Rightarrow> 'a inv_data_scheme \<Rightarrow> 'a inv_data_scheme res" where
  "enrichClalReportValuations env d =
     bindE (foldE (enrich_product env (id_valuations d)) (id_products d) (id_valuations d)) (\<lambda>vs.
       Inr (d\<lparr>id_valuations := vs\<rparr>))"

section \<open>What the reports add\<close>

text \<open>The balance a dated line of a report states for a product: the date is one the report itself covers.\<close>

definition stated_balance :: "inv_valuation list \<Rightarrow> inv_product \<Rightarrow> inv_valuation \<Rightarrow> bool" where
  "stated_balance observed p v \<longleftrightarrow> (\<exists>r l current d. r \<in> set (default (ip_reports p) []) \<and> l \<in> set (rp_lines r) \<and> current \<in> set observed \<and>
     Some (iv_id current) = ip_currentValuationId p \<and> balance_label (rl_label l) \<and> iv_amount v = rl_amount l \<and> \<not> starts_with (iv_amount v) (js ''-'') \<and>
     iv_productId v = ip_id p \<and> iv_asOf v = Some d \<and> (rp_fromDate r = Some d \<or> rp_toDate r = Some d) \<and>
     map_option (take 4) (rp_fromDate r) = map_option (take 4) (rp_toDate r) \<and> the (rp_toDate r) \<le> take 10 (iv_observedAt current) \<and>
     iv_observedAt v = iv_observedAt current \<and> (\<forall>o'\<in>set observed. iv_productId o' = ip_id p \<longrightarrow> iv_asOf o' \<noteq> iv_asOf v))"

lemma mapE_member: "mapE f xs = Inr ys \<Longrightarrow> y \<in> set ys \<Longrightarrow> \<exists>x\<in>set xs. f x = Inr y"
  by (induction xs arbitrary: ys) auto

lemma line_balance_cases:
  assumes "line_balance env p current r l = Inr vs" "v \<in> set vs"
  obtains d where "balance_label (rl_label l)" "iv_amount v = rl_amount l" "\<not> starts_with (rl_amount l) (js ''-'')" "iv_productId v = ip_id p"
    "iv_asOf v = Some d" "rp_fromDate r = Some d \<or> rp_toDate r = Some d" "iv_observedAt v = iv_observedAt current"
proof -
  let ?skip = "\<not> balance_label (rl_label l) \<or> starts_with (rl_amount l) (js ''-'')"
  have label: "\<not> ?skip"
    using assms by (cases ?skip) (simp_all add: line_balance_def)
  define own where "own = (if contains_text OPENING (rl_label l) then rp_fromDate r else rp_toDate r)"
  obtain asOf where asOf: "(if asOf = None \<or> asOf \<noteq> own then Inr []
      else bindE (investmentValuationId (ip_id p) asOf) (\<lambda>i.
        Inr [\<lparr>iv_id = i, iv_productId = ip_id p, iv_asOf = asOf, iv_observedAt = iv_observedAt current,
              iv_amount = rl_amount l, iv_currency = ip_currency p, iv_provenance = None\<rparr>])) = Inr vs"
    using assms(1) unfolding line_balance_def Let_def if_not_P [OF label] own_def [symmetric] bindE_eq_Inr by (elim exE conjE) (rule that)
  have dated: "\<not> (asOf = None \<or> asOf \<noteq> own)"
    using asOf assms(2) by (intro notI) (simp only: if_True sum.inject list.set empty_iff)
  from asOf obtain i where vs: "vs = [\<lparr>iv_id = i, iv_productId = ip_id p, iv_asOf = asOf, iv_observedAt = iv_observedAt current,
      iv_amount = rl_amount l, iv_currency = ip_currency p, iv_provenance = None\<rparr>]"
    unfolding if_not_P [OF dated] bindE_eq_Inr by blast
  obtain d where "asOf = Some d" "own = Some d"
    using dated by auto
  moreover from this have "rp_fromDate r = Some d \<or> rp_toDate r = Some d"
    by (auto simp: own_def split: if_splits)
  ultimately show ?thesis
    using assms(2) label vs that by simp
qed

lemma reportBalances_cases:
  assumes "reportBalances env p current r = Inr vs" "v \<in> set vs"
  obtains l d where "l \<in> set (rp_lines r)" "balance_label (rl_label l)" "iv_amount v = rl_amount l" "\<not> starts_with (rl_amount l) (js ''-'')" "iv_productId v = ip_id p"
    "iv_asOf v = Some d" "rp_fromDate r = Some d \<or> rp_toDate r = Some d" "iv_observedAt v = iv_observedAt current"
    "map_option (take 4) (rp_fromDate r) = map_option (take 4) (rp_toDate r)" "the (rp_toDate r) \<le> take 10 (iv_observedAt current)"
proof -
  from assms have "rp_toDate r \<noteq> None"
    by (cases "rp_toDate r") (simp_all add: reportBalances_def)
  then obtain e where e: "rp_toDate r = Some e"
    by blast
  let ?skip = "map_option (take 4) (rp_fromDate r) \<noteq> Some (take 4 e) \<or> take 10 (iv_observedAt current) < e"
  from assms e have used: "\<not> ?skip"
    by (cases ?skip) (simp_all add: reportBalances_def)
  obtain vss where r: "mapE (line_balance env p current r) (rp_lines r) = Inr vss" "vs = concat vss"
    using assms(1) unfolding reportBalances_def e option.case if_not_P [OF used] bindE_eq_Inr by blast
  with assms(2) obtain us where "us \<in> set vss" "v \<in> set us"
    unfolding r(2) set_concat by blast
  with mapE_member [OF r(1)] obtain l where l: "l \<in> set (rp_lines r)" "line_balance env p current r l = Inr us"
    by blast
  show ?thesis
    by (rule line_balance_cases [OF l(2) \<open>v \<in> set us\<close>], rule that [OF l(1)]) (use used e in \<open>simp_all add: not_less\<close>)
qed

lemma enrich_product_adds:
  assumes "enrich_product env observed p vs = Inr vs'"
  shows "\<exists>us. vs' = vs @ us \<and> (\<forall>v\<in>set us. stated_balance observed p v)"
proof (cases "find (\<lambda>v. Some (iv_id v) = ip_currentValuationId p \<and> iv_productId v = ip_id p) observed")
  case None
  with assms show ?thesis
    by (simp add: enrich_product_def)
next
  case (Some current)
  have current: "current \<in> set observed" "Some (iv_id current) = ip_currentValuationId p"
    using Some by (auto simp: find_Some_iff)
  show ?thesis
  proof (cases "ip_provider p = Clal")
    case False
    with assms Some show ?thesis
      by (simp add: enrich_product_def)
  next
    case True
    with assms Some obtain candidates where c: "mapE (reportBalances env p current) (default (ip_reports p) []) = Inr candidates"
        "foldE (add_candidate observed p) (concat candidates) vs = Inr vs'"
      by (auto simp: enrich_product_def)
    show ?thesis
    proof (rule foldE_invariant [OF c(2), where P = "\<lambda>vs'. \<exists>us. vs' = vs @ us \<and> (\<forall>v\<in>set us. stated_balance observed p v)"])
      fix v xs xs'
      assume v: "v \<in> set (concat candidates)" "\<exists>us. xs = vs @ us \<and> (\<forall>v\<in>set us. stated_balance observed p v)" "add_candidate observed p v xs = Inr xs'"
      obtain bs where "bs \<in> set candidates" "v \<in> set bs"
        using v(1) by auto
      moreover from mapE_member [OF c(1) this(1)] obtain r where "r \<in> set (default (ip_reports p) [])" "reportBalances env p current r = Inr bs"
        by blast
      ultimately have "stated_balance observed p v" if "\<forall>o'\<in>set observed. iv_productId o' = ip_id p \<longrightarrow> iv_asOf o' \<noteq> iv_asOf v"
        using current that reportBalances_cases [of env p current r bs v] unfolding stated_balance_def by metis
      with v(2,3) show "\<exists>us. xs' = vs @ us \<and> (\<forall>v\<in>set us. stated_balance observed p v)"
        by (auto simp: add_candidate_def list_ex_iff split: if_splits option.splits)
    qed simp
  qed
qed

lemma valuations_added:
  assumes "enrichClalReportValuations env d = Inr d'"
  shows "\<exists>us. d' = d\<lparr>id_valuations := id_valuations d @ us\<rparr> \<and> (\<forall>v\<in>set us. \<exists>p\<in>set (id_products d). stated_balance (id_valuations d) p v)"
proof -
  obtain vs where vs: "foldE (enrich_product env (id_valuations d)) (id_products d) (id_valuations d) = Inr vs" "d' = d\<lparr>id_valuations := vs\<rparr>"
    using assms by (auto simp: enrichClalReportValuations_def)
  have "\<exists>us. vs = id_valuations d @ us \<and> (\<forall>v\<in>set us. \<exists>p\<in>set (id_products d). stated_balance (id_valuations d) p v)"
    by (rule foldE_invariant [OF vs(1)]) (use enrich_product_adds in \<open>fastforce+\<close>)
  with vs(2) show ?thesis
    by auto
qed

end
