(* ===== verification/InvStore.thy ===== *)
theory InvStore
  imports InvReports
begin

text \<open>
  The investment store, \<^verbatim>\<open>src/investments/store.ts\<close>. A stored JSON text stands for the value it was made
  from: the rows hold records, the meta values the states and lists the source stores under their keys. Every
  operation runs in one transaction, so an error leaves the database as it was. \<^verbatim>\<open>backup\<close> and \<^verbatim>\<open>close\<close>
  are left out.
\<close>

section \<open>The database\<close>

datatype record_kind = Products | Valuations | Activities | Tracks | Executions

datatype inv_record =
    Product inv_product
  | Valuation inv_valuation
  | Activity inv_activity
  | Track inv_track
  | Execution inv_execution

datatype recovery_state = Starting | AwaitingCode | Verifying | RecoveryComplete | RecoveryFailed | RecoveryCanceled | RecoveryExpired
datatype recovery_error = OtpMissing | RecoveryCollectionFailed | CanceledByUser | OtpExpired | RecoveryInterrupted

record recovery_status =
  rs_challengeId :: jsstr
  rs_state :: recovery_state
  rs_expiresAt :: "jsstr option"
  rs_errorCode :: "recovery_error option"

record record_row =
  rr_kind :: record_kind
  rr_id :: jsstr
  rr_productId :: jsstr
  rr_json :: inv_record

record revision_row =
  rv_kind :: record_kind
  rv_id :: jsstr
  rv_replacedAt :: jsstr
  rv_json :: inv_record

record inv_db =
  im_schemaVersion :: "jsstr option"
  im_provider :: "inv_provider option"
  im_sourceState :: "inv_source_state option"
  im_sessionState :: "session_state option"
  im_automaticSms :: "jsstr list option"
  im_controlRefresh :: "jsstr list option"
  im_lastApplied :: "jsstr option"
  it_records :: "record_row list"
  it_revisions :: "revision_row list"
  it_evidence :: "(jsstr \<times> jsstr) list"
  it_recoveries :: "(jsstr \<times> jsstr \<times> recovery_status) list"

record store_env =
  so_zod :: zod_env
  so_lc :: "jsstr \<Rightarrow> jsstr \<Rightarrow> int"
  so_provider :: inv_provider

definition recordKinds :: "record_kind list" where
  "recordKinds = [Products, Valuations, Activities, Tracks, Executions]"

fun kind_of :: "inv_record \<Rightarrow> record_kind" where
  "kind_of (Product p) = Products"
| "kind_of (Valuation v) = Valuations"
| "kind_of (Activity a) = Activities"
| "kind_of (Track t) = Tracks"
| "kind_of (Execution e) = Executions"

fun record_id :: "inv_record \<Rightarrow> jsstr" where
  "record_id (Product p) = ip_id p"
| "record_id (Valuation v) = iv_id v"
| "record_id (Activity a) = ia_id a"
| "record_id (Track t) = it_id t"
| "record_id (Execution e) = ie_id e"

fun record_product :: "inv_record \<Rightarrow> jsstr" where
  "record_product (Product p) = ip_id p"
| "record_product (Valuation v) = iv_productId v"
| "record_product (Activity a) = ia_productId a"
| "record_product (Track t) = it_productId t"
| "record_product (Execution e) = ie_productId e"

definition rows_of :: "record_kind \<Rightarrow> 'a inv_data_scheme \<Rightarrow> inv_record list" where
  "rows_of k d = (case k of
       Products \<Rightarrow> map Product (id_products d)
     | Valuations \<Rightarrow> map Valuation (id_valuations d)
     | Activities \<Rightarrow> map Activity (id_activities d)
     | Tracks \<Rightarrow> map Track (id_tracks d)
     | Executions \<Rightarrow> map Execution (id_executions d))"

definition storeError :: "string \<Rightarrow> 'a res" where
  "storeError message = Inl (OtherError message)"

definition stamp_ms :: "zod_env \<Rightarrow> jsstr \<Rightarrow> int option res" where
  "stamp_ms env s = (if ze_datetime env s then Inr (parse_stamp s) else storeError ''ZodError'')"

text \<open>Comparisons of times that may be \<^verbatim>\<open>NaN\<close>.\<close>

definition after_time :: "int option \<Rightarrow> int option \<Rightarrow> bool" where
  "after_time a b = (case (a, b) of (Some x, Some y) \<Rightarrow> y < x | _ \<Rightarrow> False)"

definition minus_ms :: "int option \<Rightarrow> int \<Rightarrow> int option" where
  "minus_ms t ms = map_option (\<lambda>x. x - ms) t"

section \<open>Relations within a snapshot\<close>

definition product_relation :: "inv_provider \<Rightarrow> inv_snapshot \<Rightarrow> inv_product \<Rightarrow> unit \<Rightarrow> unit res" where
  "product_relation provider snapshot product u =
     (if ip_provider product \<noteq> provider then storeError ''Investment product identity does not match its provider identity''
      else bindE (investmentProductId (ip_providerProductId product) provider) (\<lambda>i.
        if ip_id product \<noteq> i then storeError ''Investment product identity does not match its provider identity''
        else if ip_valuations product \<noteq> CoverNone \<and> list_all (\<lambda>r. iv_productId r \<noteq> ip_id product) (id_valuations snapshot)
        then storeError ''Investment product declares valuations without a value''
        else if (case ip_currentValuationId product of None \<Rightarrow> False | Some c \<Rightarrow>
            c \<noteq> [] \<and> list_all (\<lambda>r. iv_productId r \<noteq> ip_id product \<or> iv_id r \<noteq> c) (id_valuations snapshot))
        then storeError ''Investment product current value does not identify one of its valuations''
        else Inr ()))"

definition product_of :: "inv_snapshot \<Rightarrow> jsstr \<Rightarrow> inv_product option" where
  "product_of snapshot i = find (\<lambda>p. ip_id p = i) (rev (id_products snapshot))"

definition currency_relation :: "inv_snapshot \<Rightarrow> jsstr \<times> jsstr \<Rightarrow> unit \<Rightarrow> unit res" where
  "currency_relation snapshot r u =
     (if map_option ip_currency (product_of snapshot (fst r)) = Some (snd r) then Inr ()
      else storeError ''Investment record has an unknown product or inconsistent currency'')"

definition valuation_relation :: "inv_provider \<Rightarrow> inv_snapshot \<Rightarrow> inv_valuation \<Rightarrow> unit \<Rightarrow> unit res" where
  "valuation_relation provider snapshot r u =
     (case iv_provenance r of
        Some a \<Rightarrow>
          if provider \<noteq> Hapoalim \<or> iv_id r \<noteq> js ''sure:entry:'' @ av_sourceEntryId a \<or> iv_asOf r = None
            \<or> iv_amount r \<noteq> av_sourceAmount a \<or> iv_observedAt r \<noteq> av_archiveObservedAt a
            \<or> Option.bind (product_of snapshot (iv_productId r)) ip_currentValuationId = Some (iv_id r)
          then storeError ''Archive valuation must preserve its identity, value and historical provenance''
          else Inr ()
      | None \<Rightarrow> bindE (investmentValuationId (iv_productId r) (iv_asOf r)) (\<lambda>i.
          if iv_id r \<noteq> i then storeError ''Investment valuation identity does not match its date'' else Inr ()))"

definition activity_relation :: "inv_activity \<Rightarrow> unit \<Rightarrow> unit res" where
  "activity_relation r u = bindE (investmentActivityId (ia_productId r) (ia_sourceId r)) (\<lambda>i.
     if ia_id r \<noteq> i then storeError ''Investment activity identity does not match its provider identity'' else Inr ())"

definition track_relation :: "inv_track \<Rightarrow> unit \<Rightarrow> unit res" where
  "track_relation r u =
     (if starts_with (it_id r) (it_productId r @ js '':track:'') then Inr ()
      else storeError ''Investment track identity does not match its product'')"

definition execution_relation :: "inv_provider \<Rightarrow> inv_snapshot \<Rightarrow> inv_execution \<Rightarrow> unit \<Rightarrow> unit res" where
  "execution_relation provider snapshot r u =
     (if provider \<noteq> Hapoalim \<or> product_of snapshot (ie_productId r) = None
      then storeError ''Investment execution identity does not match its provider product''
      else bindE (investmentExecutionId (ie_productId r) (ie_sourceId r)) (\<lambda>i.
        if ie_id r \<noteq> i then storeError ''Investment execution identity does not match its provider product'' else Inr ()))"

definition identity_relation :: "inv_snapshot \<Rightarrow> record_kind \<Rightarrow> unit \<Rightarrow> unit res" where
  "identity_relation snapshot k u =
     (if distinct (map record_id (rows_of k snapshot)) then Inr () else storeError ''Duplicate investment identities'')"

definition validateRelations :: "inv_snapshot \<Rightarrow> inv_provider \<Rightarrow> unit res" where
  "validateRelations snapshot provider =
     bindE (foldE (identity_relation snapshot) recordKinds ()) (\<lambda>_.
     bindE (foldE (product_relation provider snapshot) (id_products snapshot) ()) (\<lambda>_.
     bindE (foldE (currency_relation snapshot)
       (map (\<lambda>r. (iv_productId r, iv_currency r)) (id_valuations snapshot) @
        map (\<lambda>r. (ia_productId r, ia_currency r)) (id_activities snapshot) @
        map (\<lambda>r. (it_productId r, it_currency r)) (id_tracks snapshot)) ()) (\<lambda>_.
     bindE (foldE (valuation_relation provider snapshot) (id_valuations snapshot) ()) (\<lambda>_.
     bindE (foldE activity_relation (id_activities snapshot) ()) (\<lambda>_.
     bindE (foldE track_relation (id_tracks snapshot) ()) (\<lambda>_.
       foldE (execution_relation provider snapshot) (id_executions snapshot) ()))))))"

section \<open>Source state\<close>

definition initialState :: "inv_provider \<Rightarrow> inv_source_state" where
  "initialState provider = \<lparr>io_provider = provider, io_status = NeverSynced, io_lastAttemptAt = None, io_lastSuccessAt = None,
     io_staleAfterHours = 168, io_errorCode = None, io_inventoryComplete = False\<rparr>"

definition readState :: "store_env \<Rightarrow> inv_db \<Rightarrow> inv_source_state res" where
  "readState env db =
     bindE (case im_sourceState db of None \<Rightarrow> Inr (initialState (so_provider env)) | Some st \<Rightarrow> parse_source_state (so_zod env) st) (\<lambda>st.
       if io_provider st \<noteq> so_provider env then storeError ''Investment database belongs to another provider'' else Inr st)"

definition writeState :: "store_env \<Rightarrow> inv_source_state \<Rightarrow> inv_db \<Rightarrow> inv_db res" where
  "writeState env st db = bindE (parse_source_state (so_zod env) st) (\<lambda>st'. Inr (db\<lparr>im_sourceState := Some st'\<rparr>))"

definition createInvestmentStore :: "store_env \<Rightarrow> inv_db \<Rightarrow> inv_db res" where
  "createInvestmentStore env db =
     (if im_schemaVersion db \<noteq> None \<and> im_schemaVersion db \<noteq> Some (js ''1'') then storeError ''Unsupported investment database schema version''
      else
        let db' = db\<lparr>im_schemaVersion := Some (js ''1'')\<rparr> in
        if im_provider db' \<noteq> None \<and> im_provider db' \<noteq> Some (so_provider env)
        then storeError ''Investment database belongs to another provider''
        else bindE (readState env db') (\<lambda>_. Inr (db'\<lparr>im_provider := Some (so_provider env)\<rparr>)))"

definition empty_inv_db :: inv_db where
  "empty_inv_db = \<lparr>im_schemaVersion = None, im_provider = None, im_sourceState = None, im_sessionState = None, im_automaticSms = None,
     im_controlRefresh = None, im_lastApplied = None, it_records = [], it_revisions = [], it_evidence = [], it_recoveries = []\<rparr>"

definition recordFailure :: "store_env \<Rightarrow> source_status \<Rightarrow> jsstr \<Rightarrow> inv_error \<Rightarrow> inv_db \<Rightarrow> inv_db res" where
  "recordFailure env status attemptedAt errorCode db =
     bindE (readState env db) (\<lambda>st.
       if (case io_lastAttemptAt st of None \<Rightarrow> True | Some a \<Rightarrow> a = [] \<or> a \<le> attemptedAt)
       then writeState env (st\<lparr>io_status := status, io_lastAttemptAt := Some attemptedAt, io_errorCode := Some errorCode,
              io_inventoryComplete := False\<rparr>) db
       else Inr db)"

section \<open>Records\<close>

datatype upsert_outcome = Inserted | Updated | Unchanged

fun financialContent :: "inv_record \<Rightarrow> inv_record" where
  "financialContent (Product p) = Product p"
| "financialContent (Valuation v) = Valuation (v\<lparr>iv_observedAt := []\<rparr>)"
| "financialContent (Activity a) = Activity (a\<lparr>ia_observedAt := []\<rparr>)"
| "financialContent (Track t) = Track (t\<lparr>it_observedAt := []\<rparr>)"
| "financialContent (Execution e) = Execution (e\<lparr>ie_observedAt := []\<rparr>)"

definition recordQuery :: "record_kind \<Rightarrow> jsstr \<Rightarrow> inv_db \<Rightarrow> record_row option" where
  "recordQuery k i db = find (\<lambda>r. rr_kind r = k \<and> rr_id r = i) (it_records db)"

text \<open>\<^verbatim>\<open>INSERT OR REPLACE\<close> deletes the row with that key first.\<close>

definition saveRecord :: "record_kind \<Rightarrow> jsstr \<Rightarrow> jsstr \<Rightarrow> inv_record \<Rightarrow> inv_db \<Rightarrow> inv_db" where
  "saveRecord k i productId json db =
     db\<lparr>it_records := filter (\<lambda>r. \<not> (rr_kind r = k \<and> rr_id r = i)) (it_records db) @
       [\<lparr>rr_kind = k, rr_id = i, rr_productId = productId, rr_json = json\<rparr>]\<rparr>"

definition saveRevision :: "record_kind \<Rightarrow> jsstr \<Rightarrow> jsstr \<Rightarrow> inv_record \<Rightarrow> inv_db \<Rightarrow> inv_db" where
  "saveRevision k i replacedAt json db =
     db\<lparr>it_revisions := it_revisions db @ [\<lparr>rv_kind = k, rv_id = i, rv_replacedAt = replacedAt, rv_json = json\<rparr>]\<rparr>"

definition merge_reports :: "(jsstr \<Rightarrow> jsstr \<Rightarrow> int) \<Rightarrow> report_summary list option \<Rightarrow> report_summary list option \<Rightarrow> report_summary list option" where
  "merge_reports lc old new =
     (if old = None \<and> new = None then None
      else Some (sort_by (\<lambda>a b. lc (rp_id a) (rp_id b))
        (map snd (fold (\<lambda>r. AList.update (rp_id r) r) (default new []) (map (\<lambda>r. (rp_id r, r)) (default old []))))))"

definition kept_product :: "inv_provider \<Rightarrow> inv_product \<Rightarrow> inv_product \<Rightarrow> inv_product" where
  "kept_product provider old new =
     (if provider = Hapoalim
      then new\<lparr>ip_currentValuationId := orelse (ip_currentValuationId new) (ip_currentValuationId old),
        ip_valuations := (if ip_valuations new = CoverNone then ip_valuations old else ip_valuations new)\<rparr>
      else new)"

definition merged_product :: "store_env \<Rightarrow> inv_product \<Rightarrow> inv_product \<Rightarrow> inv_product" where
  "merged_product env old new = (kept_product (so_provider env) old new)\<lparr>ip_reports := merge_reports (so_lc env) (ip_reports old) (ip_reports new)\<rparr>"

definition merged_record :: "store_env \<Rightarrow> inv_record \<Rightarrow> inv_record \<Rightarrow> inv_record" where
  "merged_record env old new =
     (case (old, new) of (Product p, Product q) \<Rightarrow> Product (merged_product env p q) | _ \<Rightarrow> new)"

definition upsertRecord :: "store_env \<Rightarrow> record_kind \<Rightarrow> jsstr \<Rightarrow> inv_record \<Rightarrow> inv_db \<Rightarrow> upsert_outcome \<times> inv_db" where
  "upsertRecord env k observedAt row db =
     (case recordQuery k (record_id row) db of
        None \<Rightarrow> (Inserted, saveRecord k (record_id row) (record_product row) row db)
      | Some previous \<Rightarrow>
          let old = rr_json previous; row' = merged_record env old row in
          if financialContent old = financialContent row'
          then (Unchanged, saveRecord k (record_id row') (record_product row') row' db)
          else (Updated, saveRecord k (record_id row') (record_product row') row' (saveRevision k (record_id row') observedAt old db)))"

definition record_currency :: "inv_record \<Rightarrow> jsstr" where
  "record_currency r = (case r of Product p \<Rightarrow> ip_currency p | Valuation v \<Rightarrow> iv_currency v | Activity a \<Rightarrow> ia_currency a
     | Track t \<Rightarrow> it_currency t | Execution e \<Rightarrow> ie_currency e)"

definition appendArchiveRecord :: "store_env \<Rightarrow> record_kind \<Rightarrow> jsstr \<Rightarrow> inv_record \<Rightarrow> inv_db \<Rightarrow> (upsert_outcome \<times> inv_db) res" where
  "appendArchiveRecord env k observedAt row db =
     (case recordQuery k (record_id row) db of
        None \<Rightarrow> Inr (upsertRecord env k observedAt row db)
      | Some previous \<Rightarrow>
          case rr_json previous of
            Product p \<Rightarrow>
              if ip_provider p \<noteq> so_provider env \<or> ip_currency p \<noteq> record_currency row
              then storeError ''Archive product conflicts with existing source identity'' else Inr (Unchanged, db)
          | old \<Rightarrow>
              if financialContent old \<noteq> financialContent row
              then storeError ''Archive valuation conflicts with an existing record'' else Inr (Unchanged, db))"

record import_summary =
  im_applied :: bool
  im_inserted :: nat
  im_updated :: nat
  im_unchanged :: nat

definition no_import :: "bool \<Rightarrow> import_summary" where
  "no_import applied = \<lparr>im_applied = applied, im_inserted = 0, im_updated = 0, im_unchanged = 0\<rparr>"

fun tally :: "upsert_outcome \<Rightarrow> import_summary \<Rightarrow> import_summary" where
  "tally Inserted s = s\<lparr>im_inserted := im_inserted s + 1\<rparr>"
| "tally Updated s = s\<lparr>im_updated := im_updated s + 1\<rparr>"
| "tally Unchanged s = s\<lparr>im_unchanged := im_unchanged s + 1\<rparr>"

definition upsert_one :: "store_env \<Rightarrow> jsstr \<Rightarrow> inv_record \<Rightarrow> import_summary \<times> inv_db \<Rightarrow> import_summary \<times> inv_db" where
  "upsert_one env observedAt row acc =
     (case upsertRecord env (kind_of row) observedAt row (snd acc) of (outcome, db) \<Rightarrow> (tally outcome (fst acc), db))"

definition append_one :: "store_env \<Rightarrow> jsstr \<Rightarrow> inv_record \<Rightarrow> import_summary \<times> inv_db \<Rightarrow> (import_summary \<times> inv_db) res" where
  "append_one env observedAt row acc =
     bindE (appendArchiveRecord env (kind_of row) observedAt row (snd acc)) (\<lambda>(outcome, db). Inr (tally outcome (fst acc), db))"

section \<open>Operations\<close>

text \<open>One pass over the rows of a snapshot, kind by kind.\<close>

definition snapshot_rows :: "'a inv_data_scheme \<Rightarrow> inv_record list" where
  "snapshot_rows d = concat (map (\<lambda>k. rows_of k d) recordKinds)"

definition predates :: "store_env \<Rightarrow> inv_snapshot \<Rightarrow> inv_source_state \<Rightarrow> inv_db \<Rightarrow> bool res" where
  "predates env snapshot st db =
     (if so_provider env = Hapoalim
      then bindE (case im_lastApplied db of None \<Rightarrow> Inr None | Some a \<Rightarrow> if ze_datetime (so_zod env) a then Inr (Some a) else storeError ''ZodError'') (\<lambda>prior.
        let times = map parse_stamp (List.map_filter id [prior, io_lastAttemptAt st, io_lastSuccessAt st]) in
        Inr (None \<notin> set times \<and> list_ex (\<lambda>t. after_time t (parse_stamp (sn_observedAt snapshot))) times))
      else Inr False)"

definition current_values_complete :: "inv_provider \<Rightarrow> inv_snapshot \<Rightarrow> bool" where
  "current_values_complete provider snapshot \<longleftrightarrow> provider \<noteq> Hapoalim \<or>
     sn_inventoryComplete snapshot \<and> id_products snapshot \<noteq> [] \<and> list_all (\<lambda>p. ip_currentValuationId p \<noteq> None) (id_products snapshot)"

definition applied_state :: "inv_provider \<Rightarrow> inv_snapshot \<Rightarrow> inv_source_state \<Rightarrow> inv_source_state \<Rightarrow> inv_source_state" where
  "applied_state provider snapshot before st =
     (let valued = current_values_complete provider snapshot in
      st\<lparr>io_status := (if valued then SourceOk else SourcePartial), io_lastAttemptAt := Some (sn_observedAt snapshot),
        io_lastSuccessAt := (if valued then Some (sn_observedAt snapshot) else io_lastSuccessAt before),
        io_errorCode := (if valued then None else Some IncompleteResponse), io_inventoryComplete := sn_inventoryComplete snapshot\<rparr>)"

definition mark_applied :: "store_env \<Rightarrow> inv_snapshot \<Rightarrow> inv_db \<Rightarrow> inv_db res" where
  "mark_applied env snapshot db =
     (if so_provider env = Hapoalim
      then bindE (to_iso_string (Option.bind (parse_stamp (sn_observedAt snapshot)) time_clip)) (\<lambda>t. Inr (db\<lparr>im_lastApplied := Some t\<rparr>))
      else Inr db)"

definition apply_rows :: "store_env \<Rightarrow> inv_snapshot \<Rightarrow> inv_source_state \<Rightarrow> inv_db \<Rightarrow> (import_summary \<times> inv_db) res" where
  "apply_rows env snapshot st db =
     (case fold (upsert_one env (sn_observedAt snapshot)) (snapshot_rows snapshot) (no_import True, db) of (summary, db1) \<Rightarrow>
      bindE (readState env db1) (\<lambda>st1.
      bindE (writeState env (applied_state (so_provider env) snapshot st st1) db1) (\<lambda>db2.
      bindE (mark_applied env snapshot db2) (\<lambda>db3. Inr (summary, db3)))))"

definition applySnapshot :: "store_env \<Rightarrow> inv_snapshot \<Rightarrow> inv_db \<Rightarrow> (import_summary \<times> inv_db) res" where
  "applySnapshot env input db =
     bindE (parse_snapshot (so_zod env) input) (\<lambda>snapshot.
     if \<not> sn_complete snapshot \<or> (\<not> sn_inventoryComplete snapshot \<and> so_provider env \<noteq> Hapoalim)
     then bindE (recordFailure env SourcePartial (sn_observedAt snapshot) IncompleteResponse db) (\<lambda>db'. Inr (no_import False, db'))
     else
       bindE (validateRelations snapshot (so_provider env)) (\<lambda>_.
       bindE (readState env db) (\<lambda>st.
       bindE (predates env snapshot st db) (\<lambda>old.
         if old then Inr (no_import False, db)
         else if so_provider env \<noteq> Hapoalim \<and> (case io_lastSuccessAt st of None \<Rightarrow> False | Some t \<Rightarrow> sn_observedAt snapshot < t)
         then storeError ''Investment observation predates the last successful collection''
         else apply_rows env snapshot st db))))"

text \<open>The evidence is its serialized text; \<open>None\<close> is a manifest \<^verbatim>\<open>JSON.stringify\<close> has no text for.\<close>

definition seed_shape :: "store_env \<Rightarrow> inv_snapshot \<Rightarrow> bool" where
  "seed_shape env snapshot \<longleftrightarrow> so_provider env = Hapoalim \<and> id_activities snapshot = [] \<and> id_tracks snapshot = [] \<and>
     id_executions snapshot = [] \<and> length (id_products snapshot) = 1 \<and> id_valuations snapshot \<noteq> [] \<and>
     list_all (\<lambda>p. ip_currentValuationId p = None) (id_products snapshot) \<and>
     list_all (\<lambda>v. iv_provenance v \<noteq> None) (id_valuations snapshot)"

definition seedArchive :: "store_env \<Rightarrow> inv_snapshot \<Rightarrow> jsstr \<Rightarrow> jsstr option \<Rightarrow> inv_db \<Rightarrow> (import_summary \<times> inv_db) res" where
  "seedArchive env input sourceSha256 manifest db =
     bindE (parse_snapshot (so_zod env) input) (\<lambda>snapshot.
     if \<not> seed_shape env snapshot
     then storeError ''Archive seed requires one historical Hapoalim product and only provenanced valuations''
     else bindE (validateRelations snapshot (so_provider env)) (\<lambda>_.
       if \<not> sha256_text sourceSha256 \<or> list_ex (\<lambda>v. map_option av_sourceSha256 (iv_provenance v) \<noteq> Some sourceSha256) (id_valuations snapshot)
       then storeError ''Archive evidence does not match its valuation provenance''
       else case manifest of None \<Rightarrow> storeError ''Archive evidence is missing or exceeds the size limit''
       | Some evidenceJson \<Rightarrow>
         if evidenceJson = [] \<or> length evidenceJson > 20 * 1024 * 1024
         then storeError ''Archive evidence is missing or exceeds the size limit''
         else bindE (readState env db) (\<lambda>_.
           if map_of (it_evidence db) sourceSha256 \<notin> {None, Some evidenceJson}
           then storeError ''Archive evidence conflicts with its stored source hash''
           else
             let db1 = (if map_of (it_evidence db) sourceSha256 = None then db\<lparr>it_evidence := it_evidence db @ [(sourceSha256, evidenceJson)]\<rparr> else db) in
             foldE (append_one env (sn_observedAt snapshot)) (rows_of Products snapshot @ rows_of Valuations snapshot) (no_import True, db1))))"

subsection \<open>Allowances\<close>

definition stored_stamps :: "store_env \<Rightarrow> jsstr list option \<Rightarrow> jsstr list res" where
  "stored_stamps env v =
     (case v of None \<Rightarrow> Inr []
      | Some l \<Rightarrow> if length l \<le> 2 \<and> list_all (ze_datetime (so_zod env)) l then Inr l else storeError ''ZodError'')"

definition recent_stamps :: "int option \<Rightarrow> int \<Rightarrow> jsstr list \<Rightarrow> jsstr list" where
  "recent_stamps now window previous = filter (\<lambda>v. after_time (parse_stamp v) (minus_ms now window)) previous"

definition SMS_WINDOW :: int where "SMS_WINDOW = 86400000"

definition earliest :: "jsstr list \<Rightarrow> int" where
  "earliest stamps = Min (set (List.map_filter parse_stamp stamps))"

definition getAutomaticSmsNextAllowedAt :: "store_env \<Rightarrow> jsstr \<Rightarrow> inv_db \<Rightarrow> jsstr option res" where
  "getAutomaticSmsNextAllowedAt env stamp db =
     bindE (stamp_ms (so_zod env) stamp) (\<lambda>now.
     bindE (stored_stamps env (im_automaticSms db)) (\<lambda>previous.
       let recent = recent_stamps now SMS_WINDOW previous in
       if 2 \<le> length recent then bindE (to_iso_string (time_clip (earliest recent + SMS_WINDOW))) (\<lambda>t. Inr (Some t)) else Inr None))"

definition consumeAutomaticSmsAttempt :: "store_env \<Rightarrow> jsstr \<Rightarrow> inv_db \<Rightarrow> (bool \<times> inv_db) res" where
  "consumeAutomaticSmsAttempt env attemptedAt db =
     bindE (stamp_ms (so_zod env) attemptedAt) (\<lambda>now.
     bindE (stored_stamps env (im_automaticSms db)) (\<lambda>previous.
       let recent = recent_stamps now SMS_WINDOW previous in
       if length recent < 2 then Inr (True, db\<lparr>im_automaticSms := Some (recent @ [attemptedAt])\<rparr>) else Inr (False, db)))"

text \<open>\<^verbatim>\<open>Math.ceil\<close> of milliseconds in seconds.\<close>

definition consumeControlRefreshAttempt :: "store_env \<Rightarrow> jsstr \<Rightarrow> inv_db \<Rightarrow> ((bool \<times> int) \<times> inv_db) res" where
  "consumeControlRefreshAttempt env stamp db =
     bindE (stamp_ms (so_zod env) stamp) (\<lambda>now.
     bindE (stored_stamps env (im_controlRefresh db)) (\<lambda>previous.
       let recent = recent_stamps now 60000 previous in
       if length recent < 2 then Inr ((True, 0), db\<lparr>im_controlRefresh := Some (recent @ [stamp])\<rparr>)
       else Inr ((False, - ((default now 0 - earliest recent - 60000) div 1000)), db)))"

subsection \<open>Sessions\<close>

definition getSessionState :: "store_env \<Rightarrow> inv_db \<Rightarrow> session_state res" where
  "getSessionState env db =
     (case im_sessionState db of
        None \<Rightarrow> Inr \<lparr>se_status = SessionUnknown, se_lastCheckedAt = None, se_lastRenewedAt = None, se_expiresAt = None, se_errorCode = None\<rparr>
      | Some st \<Rightarrow> parse_session_state (so_zod env) st)"

definition newer_check :: "session_state option \<Rightarrow> session_state \<Rightarrow> bool" where
  "newer_check previous st =
     (case Option.bind previous se_lastCheckedAt of
        None \<Rightarrow> True
      | Some p \<Rightarrow> p = [] \<or> (case se_lastCheckedAt st of None \<Rightarrow> False | Some c \<Rightarrow> c \<noteq> [] \<and>
          (case (parse_stamp c, parse_stamp p) of (Some x, Some y) \<Rightarrow> y \<le> x | _ \<Rightarrow> False)))"

definition setSessionState :: "store_env \<Rightarrow> session_state \<Rightarrow> inv_db \<Rightarrow> inv_db res" where
  "setSessionState env st db =
     bindE (parse_session_state (so_zod env) st) (\<lambda>validated.
     bindE (case im_sessionState db of None \<Rightarrow> Inr None | Some p \<Rightarrow> bindE (parse_session_state (so_zod env) p) (\<lambda>x. Inr (Some x))) (\<lambda>previous.
       Inr (if newer_check previous validated then db\<lparr>im_sessionState := Some validated\<rparr> else db)))"

subsection \<open>Recovery requests\<close>

definition recovery_status_ok :: "zod_env \<Rightarrow> recovery_status \<Rightarrow> bool" where
  "recovery_status_ok env r \<longleftrightarrow> ze_uuid env (rs_challengeId r) \<and>
     rs_state r \<in> {RecoveryComplete, RecoveryFailed, RecoveryCanceled, RecoveryExpired} \<and> rs_expiresAt r = None"

definition parse_recovery :: "store_env \<Rightarrow> recovery_status \<Rightarrow> recovery_status res" where
  "parse_recovery env = checked_by (recovery_status_ok (so_zod env)) id"

definition uuid_only :: "store_env \<Rightarrow> jsstr \<Rightarrow> jsstr res" where
  "uuid_only env = checked_by (ze_uuid (so_zod env)) id"

definition getManualRecoveryRequest :: "store_env \<Rightarrow> jsstr \<Rightarrow> inv_db \<Rightarrow> recovery_status option res" where
  "getManualRecoveryRequest env requestId db =
     bindE (uuid_only env requestId) (\<lambda>i.
       case find (\<lambda>r. fst r = i) (it_recoveries db) of
         None \<Rightarrow> Inr None
       | Some (_, _, r) \<Rightarrow> bindE (parse_recovery env r) (\<lambda>x. Inr (Some x)))"

text \<open>The newest creation time, compared as bytes, and of those the row inserted last.\<close>

definition latest_recovery :: "(jsstr \<times> jsstr \<times> recovery_status) list \<Rightarrow> (jsstr \<times> jsstr \<times> recovery_status) option" where
  "latest_recovery rows = find (\<lambda>r. \<forall>x \<in> set rows. utf8 (fst (snd x)) \<le> utf8 (fst (snd r))) (rev rows)"

definition getLatestManualRecoveryRequest :: "store_env \<Rightarrow> inv_db \<Rightarrow> recovery_status option res" where
  "getLatestManualRecoveryRequest env db =
     (case latest_recovery (it_recoveries db) of
        None \<Rightarrow> Inr None
      | Some (_, _, r) \<Rightarrow> bindE (parse_recovery env r) (\<lambda>x. Inr (Some x)))"

definition reserveManualRecoveryRequest :: "store_env \<Rightarrow> jsstr \<Rightarrow> jsstr \<Rightarrow> inv_db \<Rightarrow> ((bool \<times> recovery_status) \<times> inv_db) res" where
  "reserveManualRecoveryRequest env requestId stamp db =
     bindE (uuid_only env requestId) (\<lambda>_.
     bindE (stamp_ms (so_zod env) stamp) (\<lambda>now.
       case find (\<lambda>r. fst r = requestId) (it_recoveries db) of
         Some (_, _, r) \<Rightarrow> bindE (parse_recovery env r) (\<lambda>x. Inr ((False, x), db))
       | None \<Rightarrow>
           let recovery = \<lparr>rs_challengeId = requestId, rs_state = RecoveryFailed, rs_expiresAt = None, rs_errorCode = Some RecoveryInterrupted\<rparr> in
           bindE (to_iso_string (Option.bind (minus_ms now 86400000) time_clip)) (\<lambda>limit.
             Inr ((True, recovery), db\<lparr>it_recoveries :=
               filter (\<lambda>r. \<not> utf8 (fst (snd r)) < utf8 limit) (it_recoveries db) @ [(requestId, stamp, recovery)]\<rparr>))))"

definition finishManualRecoveryRequest :: "store_env \<Rightarrow> recovery_status \<Rightarrow> inv_db \<Rightarrow> inv_db res" where
  "finishManualRecoveryRequest env recovery db =
     bindE (parse_recovery env recovery) (\<lambda>validated.
       Inr (db\<lparr>it_recoveries := map (\<lambda>r. if fst r = rs_challengeId validated then (fst r, fst (snd r), validated) else r) (it_recoveries db)\<rparr>))"

subsection \<open>The feed\<close>

definition stored_rows :: "record_kind \<Rightarrow> inv_db \<Rightarrow> inv_record list" where
  "stored_rows k db = map rr_json (sort_by (\<lambda>a b. cmp_of (utf8 (rr_id a)) (utf8 (rr_id b))) (filter (\<lambda>r. rr_kind r = k) (it_records db)))"

definition stored_data :: "inv_db \<Rightarrow> jsstr \<Rightarrow> inv_source_state \<Rightarrow> inv_feed" where
  "stored_data db generatedAt source =
     \<lparr>id_products = List.map_filter (\<lambda>r. case r of Product p \<Rightarrow> Some p | _ \<Rightarrow> None) (stored_rows Products db),
      id_valuations = List.map_filter (\<lambda>r. case r of Valuation v \<Rightarrow> Some v | _ \<Rightarrow> None) (stored_rows Valuations db),
      id_activities = List.map_filter (\<lambda>r. case r of Activity a \<Rightarrow> Some a | _ \<Rightarrow> None) (stored_rows Activities db),
      id_tracks = List.map_filter (\<lambda>r. case r of Track t \<Rightarrow> Some t | _ \<Rightarrow> None) (stored_rows Tracks db),
      id_executions = List.map_filter (\<lambda>r. case r of Execution e \<Rightarrow> Some e | _ \<Rightarrow> None) (stored_rows Executions db),
      fd_generatedAt = generatedAt, fd_source = source\<rparr>"

definition getFeed :: "store_env \<Rightarrow> int \<Rightarrow> int \<Rightarrow> inv_db \<Rightarrow> inv_feed res" where
  "getFeed env now staleAfterHours db =
     bindE (readState env db) (\<lambda>st.
     bindE (parse_feed (so_zod env) (stored_data db (iso_of_time now) (st\<lparr>io_staleAfterHours := staleAfterHours\<rparr>))) (\<lambda>feed.
     bindE (enrichClalReportValuations (so_zod env) feed) (parse_feed (so_zod env))))"

end
