(* ===== verification/InvAllowance.thy ===== *)
theory InvAllowance
  imports InvStore
begin

text \<open>
  The SMS allowance of the investment store: no day sees more than two automatic text messages, and the time
  the store announces for the next one is exact.
\<close>

section \<open>Timestamps\<close>

text \<open>What the timestamp format of zod admits, \<^verbatim>\<open>Date.parse\<close> reads.\<close>

definition stamps_parse :: "zod_env \<Rightarrow> bool" where
  "stamps_parse env \<longleftrightarrow> (\<forall>s. ze_datetime env s \<longrightarrow> parse_stamp s \<noteq> None)"

definition ms_of :: "jsstr \<Rightarrow> int" where
  "ms_of s = default (parse_stamp s) 0"

lemma ms_of_eq: "parse_stamp s \<noteq> None \<Longrightarrow> parse_stamp s = Some (ms_of s)"
  by (auto simp: ms_of_def)

definition recent_to :: "int \<Rightarrow> jsstr list \<Rightarrow> jsstr list" where
  "recent_to now stamps = filter (\<lambda>s. now - SMS_WINDOW < ms_of s) stamps"

lemma recent_stamps_eq:
  "list_all (\<lambda>s. parse_stamp s \<noteq> None) stamps \<Longrightarrow> recent_stamps (Some now) SMS_WINDOW stamps = recent_to now stamps"
  by (induction stamps) (auto simp: recent_stamps_def recent_to_def after_time_def minus_ms_def ms_of_def)

lemma recent_to_later: "now \<le> now' \<Longrightarrow> recent_to now' (recent_to now stamps) = recent_to now' stamps"
  by (auto simp: recent_to_def intro!: filter_cong)

lemma recent_to_snoc [simp]: "recent_to now (xs @ [s]) = recent_to now xs @ (if now - SMS_WINDOW < ms_of s then [s] else [])"
  by (simp add: recent_to_def)

section \<open>At most two messages a day\<close>

text \<open>The requests in a half-open window of 24 hours.\<close>

definition in_day :: "int \<Rightarrow> jsstr list \<Rightarrow> jsstr list" where
  "in_day t stamps = filter (\<lambda>s. t \<le> ms_of s \<and> ms_of s < t + SMS_WINDOW) stamps"

text \<open>A sequence of requests at the given times; a request the store refuses or fails on sends nothing.\<close>

fun sms_sent :: "store_env \<Rightarrow> jsstr list \<Rightarrow> inv_db \<Rightarrow> jsstr list" where
  "sms_sent env [] db = []"
| "sms_sent env (s # ss) db =
     (case consumeAutomaticSmsAttempt env s db of
        Inr (True, db') \<Rightarrow> s # sms_sent env ss db'
      | Inr (False, db') \<Rightarrow> sms_sent env ss db'
      | Inl e \<Rightarrow> sms_sent env ss db)"

text \<open>
  After the requests \<open>sent\<close>, the last at \<open>now\<close>, the store still knows every one that counts.
\<close>

definition remembers :: "store_env \<Rightarrow> int \<Rightarrow> jsstr list \<Rightarrow> inv_db \<Rightarrow> bool" where
  "remembers env now sent db \<longleftrightarrow> (\<exists>stored. stored_stamps env (im_automaticSms db) = Inr stored \<and>
     recent_to now stored = recent_to now sent) \<and> (\<forall>s \<in> set sent. ms_of s \<le> now) \<and> (\<forall>t. length (in_day t sent) \<le> 2)"

lemma in_day_snoc:
  assumes "\<forall>s \<in> set sent. ms_of s \<le> ms_of x" "\<forall>t. length (in_day t sent) \<le> 2" "length (recent_to (ms_of x) sent) < 2"
  shows "length (in_day t (sent @ [x])) \<le> 2"
proof (cases "t \<le> ms_of x \<and> ms_of x < t + SMS_WINDOW")
  case True
  have "filter (\<lambda>s. t \<le> ms_of s \<and> ms_of s < t + SMS_WINDOW) (recent_to (ms_of x) sent) = in_day t sent"
    using True by (auto simp: in_day_def recent_to_def intro!: filter_cong)
  then have "length (in_day t sent) \<le> length (recent_to (ms_of x) sent)"
    by (metis length_filter_le)
  with assms(3) show ?thesis
    by (simp add: in_day_def)
next
  case False
  with assms(2) show ?thesis
    by (auto simp: in_day_def)
qed

lemma consume_remembers:
  assumes env: "stamps_parse (so_zod env)" and rem: "remembers env now sent db" and le: "now \<le> ms_of x"
    and run: "consumeAutomaticSmsAttempt env x db = Inr (allowed, db')"
  shows "remembers env (ms_of x) (if allowed then sent @ [x] else sent) db'"
proof -
  obtain stored where stored: "stored_stamps env (im_automaticSms db) = Inr stored" "recent_to now stored = recent_to now sent"
    and bound: "\<forall>s \<in> set sent. ms_of s \<le> now" "\<forall>t. length (in_day t sent) \<le> 2"
    using rem unfolding remembers_def by blast
  have x: "ze_datetime (so_zod env) x" "parse_stamp x = Some (ms_of x)"
    using run env by (auto simp: consumeAutomaticSmsAttempt_def stamp_ms_def storeError_def stamps_parse_def ms_of_eq split: if_splits)
  have all: "list_all (ze_datetime (so_zod env)) stored" "list_all (\<lambda>s. parse_stamp s \<noteq> None) stored"
    using stored(1) env by (auto simp: stored_stamps_def storeError_def stamps_parse_def list_all_iff split: option.splits if_splits)
  have same: "recent_to (ms_of x) stored = recent_to (ms_of x) sent"
    using recent_to_later [OF le] stored(2) by metis
  have eqs: "recent_stamps (Some (ms_of x)) SMS_WINDOW stored = recent_to (ms_of x) sent"
    using recent_stamps_eq [OF all(2)] same by simp
  have sent: "\<forall>s \<in> set sent. ms_of s \<le> ms_of x"
    using bound(1) le by force
  from run have cases: "if length (recent_to (ms_of x) sent) < 2
      then allowed \<and> db' = db\<lparr>im_automaticSms := Some (recent_to (ms_of x) sent @ [x])\<rparr> else \<not> allowed \<and> db' = db"
    using x stored(1) eqs by (auto simp: consumeAutomaticSmsAttempt_def stamp_ms_def Let_def split: if_splits)
  show ?thesis
  proof (cases "length (recent_to (ms_of x) sent) < 2")
    case True
    have known: "set (recent_to (ms_of x) sent) \<subseteq> set stored"
      using same by (metis recent_to_def filter_is_subset)
    have "list_all (ze_datetime (so_zod env)) (recent_to (ms_of x) sent @ [x])"
      using all(1) x(1) known by (auto simp: list_all_iff)
    with True cases have "stored_stamps env (im_automaticSms db') = Inr (recent_to (ms_of x) sent @ [x])"
      by (simp add: stored_stamps_def)
    moreover have "recent_to (ms_of x) (recent_to (ms_of x) sent) = recent_to (ms_of x) sent"
      by (simp add: recent_to_def)
    ultimately show ?thesis
      using True cases sent in_day_snoc [OF sent bound(2) True] by (simp add: remembers_def)
  next
    case False
    with cases same stored(1) sent bound(2) show ?thesis
      by (simp add: remembers_def)
  qed
qed

lemma sms_sent_bound:
  assumes "stamps_parse (so_zod env)" "remembers env now sent db" "sorted (now # map ms_of stamps)"
  shows "length (in_day t (sent @ sms_sent env stamps db)) \<le> 2"
  using assms(2,3)
proof (induction stamps arbitrary: now sent db)
  case Nil
  then show ?case
    by (simp add: remembers_def)
next
  case (Cons s ss)
  show ?case
  proof (cases "consumeAutomaticSmsAttempt env s db")
    case (Inl e)
    with Cons show ?thesis
      by simp
  next
    case (Inr r)
    obtain allowed db' where r: "r = (allowed, db')"
      by fastforce
    from consume_remembers [OF assms(1) Cons.prems(1)] Inr r Cons.prems(2)
    have "remembers env (ms_of s) (if allowed then sent @ [s] else sent) db'"
      by simp
    from Cons.IH [OF this] Cons.prems(2) Inr r show ?thesis
      by (cases allowed) simp_all
  qed
qed

text \<open>A store remembers what it has on record, up to a time before the requests that follow.\<close>

lemma stored_remembers:
  assumes "stored_stamps env (im_automaticSms db) = Inr before" "sorted (map ms_of before @ later)"
  shows "\<exists>now. remembers env now before db \<and> sorted (now # later)"
proof -
  have two: "length before \<le> 2"
    using assms(1) by (auto simp: stored_stamps_def storeError_def split: option.splits if_splits)
  define now where "now = (if before = [] then (if later = [] then 0 else hd later) else ms_of (last before))"
  have past: "\<forall>s \<in> set before. ms_of s \<le> now"
  proof (cases before rule: rev_cases)
    case (snoc xs x)
    with assms(2) show ?thesis
      by (auto simp: now_def sorted_append)
  qed simp
  have "length (in_day t before) \<le> 2" for t
    using two by (auto simp: in_day_def intro: le_trans [OF length_filter_le])
  with past assms(1) have "remembers env now before db"
    by (simp add: remembers_def)
  moreover have "sorted (now # later)"
  proof (cases before rule: rev_cases)
    case Nil
    with assms(2) show ?thesis
      by (cases later) (auto simp: now_def)
  next
    case (snoc xs x)
    with assms(2) show ?thesis
      by (auto simp: now_def sorted_append)
  qed
  ultimately show ?thesis by blast
qed

text \<open>
  At most two automatic messages a day. If the timestamps the schema admits can be read and the clock does
  not run backwards, the requests the store grants, over any sequence of requests and together with those it
  has on record from before a restart, number at most two in every window of 24 hours.
\<close>

theorem sms_at_most_two_a_day:
  assumes "stamps_parse (so_zod env)" "stored_stamps env (im_automaticSms db) = Inr before"
    and "sorted (map ms_of (before @ stamps))"
  shows "length (in_day t (before @ sms_sent env stamps db)) \<le> 2"
proof -
  obtain now where "remembers env now before db" "sorted (now # map ms_of stamps)"
    using stored_remembers [OF assms(2)] assms(3) by fastforce
  from sms_sent_bound [OF assms(1) this] show ?thesis .
qed

text \<open>A zod that admits the timestamps \<^verbatim>\<open>toISOString\<close> writes, and three requests within three hours.\<close>

definition example_zod :: zod_env where
  "example_zod = \<lparr>ze_date = (\<lambda>s. case parse_date_part s of Some (d, []) \<Rightarrow> True | _ \<Rightarrow> False), ze_datetime = (\<lambda>s. case parse_stamp s of None \<Rightarrow> False | Some t \<Rightarrow> ok_time t), ze_uuid = (\<lambda>s. s \<noteq> [])\<rparr>"

definition example_store :: store_env where
  "example_store = \<lparr>so_zod = example_zod, so_lc = cmp_of, so_provider = Clal\<rparr>"

lemma example_stamps_parse: "stamps_parse (so_zod example_store)"
  by (simp add: stamps_parse_def example_store_def example_zod_def split: option.split)

definition example_requests :: "jsstr list" where
  "example_requests = map js [''2024-07-10T08:00:00.000Z'', ''2024-07-10T09:00:00.000Z'', ''2024-07-10T10:00:00.000Z'']"

lemma example_times: "map ms_of example_requests = [1720598400000, 1720602000000, 1720605600000]"
  unfolding example_requests_def ms_of_def by code_simp

theorem sms_at_most_two_a_day_witness:
  "length (in_day 1720598400000 (sms_sent example_store example_requests empty_inv_db)) \<le> 2"
  using sms_at_most_two_a_day [OF example_stamps_parse, of empty_inv_db "[]" example_requests 1720598400000]
  by (simp add: example_times stored_stamps_def empty_inv_db_def)

section \<open>The announced time\<close>

text \<open>The answer of the store to a request at a time.\<close>

definition sms_allowed :: "store_env \<Rightarrow> jsstr \<Rightarrow> inv_db \<Rightarrow> bool option" where
  "sms_allowed env s db = (case consumeAutomaticSmsAttempt env s db of Inr (a, db') \<Rightarrow> Some a | Inl e \<Rightarrow> None)"

lemma sms_allowed_eq:
  assumes "stamps_parse (so_zod env)" "ze_datetime (so_zod env) s" "stored_stamps env (im_automaticSms db) = Inr stored"
  shows "sms_allowed env s db = Some (length (recent_to (ms_of s) stored) < 2)"
proof -
  have "parse_stamp s = Some (ms_of s)"
    using assms(1,2) by (simp add: stamps_parse_def ms_of_eq)
  moreover have "list_all (\<lambda>s. parse_stamp s \<noteq> None) stored"
    using assms(1,3) by (auto simp: stored_stamps_def storeError_def stamps_parse_def list_all_iff split: option.splits if_splits)
  ultimately show ?thesis
    using assms(2,3) by (simp add: sms_allowed_def consumeAutomaticSmsAttempt_def stamp_ms_def recent_stamps_eq Let_def)
qed

lemma earliest_eq:
  assumes "list_all (\<lambda>s. parse_stamp s \<noteq> None) stamps"
  shows "earliest stamps = Min (ms_of ` set stamps)"
proof -
  have "List.map_filter parse_stamp stamps = map ms_of stamps"
    using assms by (induction stamps) (auto simp: List.map_filter_simps ms_of_def)
  then show ?thesis
    by (simp add: earliest_def)
qed

text \<open>With two stored requests, all in the window, the next one is due a day after the older.\<close>

lemma two_recent:
  assumes "length stored \<le> 2" "2 \<le> length (recent_to now stored)"
  shows "recent_to now stored = stored" "now \<le> later \<Longrightarrow>
    length (recent_to later stored) < 2 \<longleftrightarrow> Min (ms_of ` set stored) + SMS_WINDOW \<le> later"
proof -
  have "length (recent_to now stored) \<le> length stored"
    by (simp add: recent_to_def)
  with assms have len: "length (recent_to now stored) = length stored" "length stored = 2"
    by simp_all
  then show "recent_to now stored = stored"
    unfolding recent_to_def by (metis filter_id_conv length_filter_less nat_less_le)
  obtain a b where ab: "stored = [a, b]"
    using len(2) by (auto simp: length_Suc_conv numeral_2_eq_2)
  show "length (recent_to later stored) < 2 \<longleftrightarrow> Min (ms_of ` set stored) + SMS_WINDOW \<le> later" if "now \<le> later"
    by (auto simp: ab recent_to_def min_def)
qed

text \<open>
  C25: the announced time is exact. Without an announcement a request at that moment is granted; with one, the
  request is refused, and of all later requests, made before any other is granted, exactly those at or after
  the announced time are granted.
\<close>

theorem sms_next_time_exact:
  assumes "stamps_parse (so_zod env)" "getAutomaticSmsNextAllowedAt env s db = Inr next"
  shows "(next = None \<longleftrightarrow> sms_allowed env s db = Some True) \<and>
    (\<forall>n. next = Some n \<longrightarrow> sms_allowed env s db = Some False \<and>
      (\<exists>due. n = iso_of_time due \<and>
        (\<forall>s'. ze_datetime (so_zod env) s' \<and> ms_of s \<le> ms_of s' \<longrightarrow> sms_allowed env s' db = Some (due \<le> ms_of s'))))"
proof -
  obtain stored where s: "ze_datetime (so_zod env) s" and stored: "stored_stamps env (im_automaticSms db) = Inr stored"
    using assms(2) by (auto simp: getAutomaticSmsNextAllowedAt_def stamp_ms_def storeError_def split: if_splits)
  have parsed: "list_all (\<lambda>s. parse_stamp s \<noteq> None) stored" and two: "length stored \<le> 2"
    using assms(1) stored by (auto simp: stored_stamps_def storeError_def stamps_parse_def list_all_iff split: option.splits if_splits)
  have "parse_stamp s = Some (ms_of s)"
    using s assms(1) by (simp add: stamps_parse_def ms_of_eq)
  with assms(2) s stored parsed have "next = (if 2 \<le> length (recent_to (ms_of s) stored)
      then Some (iso_of_time (earliest (recent_to (ms_of s) stored) + SMS_WINDOW)) else None)"
    by (auto simp: getAutomaticSmsNextAllowedAt_def stamp_ms_def recent_stamps_eq Let_def to_iso_string_def time_clip_def split: if_splits)
  note next_eq = this
  show ?thesis
  proof (cases "2 \<le> length (recent_to (ms_of s) stored)")
    case True
    define due where "due = earliest stored + SMS_WINDOW"
    have all: "recent_to (ms_of s) stored = stored"
      using two_recent(1) [OF two True] .
    have now: "sms_allowed env s db = Some False"
      using sms_allowed_eq [OF assms(1) s stored] True by simp
    have other: "sms_allowed env s' db = Some (due \<le> ms_of s')" if "ze_datetime (so_zod env) s'" "ms_of s \<le> ms_of s'" for s'
      using sms_allowed_eq [OF assms(1) that(1) stored] two_recent(2) [OF two True that(2)] earliest_eq [OF parsed]
      by (simp add: due_def)
    from next_eq True all have "next = Some (iso_of_time due)"
      by (simp add: due_def)
    with now other show ?thesis
      by (intro conjI allI impI) auto
  next
    case False
    with next_eq sms_allowed_eq [OF assms(1) s stored] show ?thesis
      by simp
  qed
qed

text \<open>Two requests on record, a third one hour after the second.\<close>

theorem sms_next_time_exact_witness:
  "sms_allowed example_store (js ''2024-07-10T10:00:00.000Z'')
     (empty_inv_db\<lparr>im_automaticSms := Some (take 2 example_requests)\<rparr>) = Some False"
proof -
  let ?db = "empty_inv_db\<lparr>im_automaticSms := Some (take 2 example_requests)\<rparr>"
  have "getAutomaticSmsNextAllowedAt example_store (js ''2024-07-10T10:00:00.000Z'') ?db = Inr (Some (js ''2024-07-11T08:00:00.000Z''))"
    by code_simp
  from sms_next_time_exact [OF example_stamps_parse this] show ?thesis
    by simp
qed

end
