(* ===== verification/InvHistory.thy ===== *)
theory InvHistory
  imports InvAllowance
begin

text \<open>
  What the investment store keeps: nothing recorded is ever lost, and the feed accepts everything the store
  has written.
\<close>

section \<open>Looking up and replacing a record\<close>

definition lookup :: "inv_db \<Rightarrow> record_kind \<Rightarrow> jsstr \<Rightarrow> inv_record option" where
  "lookup db k i = map_option rr_json (recordQuery k i db)"

lemma find_in_append: "find P (xs @ ys) = (case find P xs of None \<Rightarrow> find P ys | Some x \<Rightarrow> Some x)"
  by (induction xs) auto

lemma find_filter_other: "(\<And>x. P x \<Longrightarrow> Q x) \<Longrightarrow> find P (filter Q xs) = find P xs"
  by (induction xs) auto

lemma lookup_save [simp]:
  "lookup (saveRecord k i p r db) k' i' = (if k' = k \<and> i' = i then Some r else lookup db k' i')"
proof (cases "k' = k \<and> i' = i")
  case True
  have "find (\<lambda>r. rr_kind r = k \<and> rr_id r = i) (filter (\<lambda>r. \<not> (rr_kind r = k \<and> rr_id r = i)) (it_records db)) = None"
    by (auto simp: find_None_iff)
  with True show ?thesis
    by (simp add: lookup_def recordQuery_def saveRecord_def find_in_append)
next
  case False
  then have "find (\<lambda>r. rr_kind r = k' \<and> rr_id r = i') (filter (\<lambda>r. \<not> (rr_kind r = k \<and> rr_id r = i)) (it_records db)) =
      find (\<lambda>r. rr_kind r = k' \<and> rr_id r = i') (it_records db)"
    by (intro find_filter_other) auto
  with False show ?thesis
    by (auto simp: lookup_def recordQuery_def saveRecord_def find_in_append split: option.split)
qed

lemma lookup_meta [simp]:
  "lookup (saveRevision k i t r db) = lookup db"
  "lookup (im_sourceState_update f1 db) = lookup db" "lookup (im_lastApplied_update f2 db) = lookup db"
  "lookup (im_automaticSms_update f3 db) = lookup db" "lookup (im_controlRefresh_update f3 db) = lookup db"
  "lookup (im_sessionState_update f4 db) = lookup db" "lookup (it_recoveries_update f5 db) = lookup db"
  "lookup (it_evidence_update f6 db) = lookup db"
  by (simp_all add: lookup_def recordQuery_def saveRevision_def fun_eq_iff)

lemma merged_record_simps [simp]:
  "record_id (merged_record env old row) = record_id row" "kind_of (merged_record env old row) = kind_of row"
  "record_product (merged_record env old row) = record_product row"
  by (auto simp: merged_record_def merged_product_def kept_product_def split: inv_record.split)

section \<open>History\<close>

text \<open>
  Revisions are only added, no record disappears, and a record whose financial content changed left its
  earlier content in a new revision.
\<close>

definition history :: "inv_db \<Rightarrow> inv_db \<Rightarrow> bool" where
  "history db db' \<longleftrightarrow> (\<exists>new. it_revisions db' = it_revisions db @ new \<and>
     (\<forall>k i r. lookup db k i = Some r \<longrightarrow>
       (\<exists>r'. lookup db' k i = Some r' \<and>
         (financialContent r' = financialContent r \<or>
          (\<exists>v \<in> set new. rv_kind v = k \<and> rv_id v = i \<and> financialContent (rv_json v) = financialContent r)))))"

lemma history_refl [simp]: "history db db"
  by (simp add: history_def)

lemma history_trans:
  assumes "history db db1" "history db1 db2"
  shows "history db db2"
proof -
  obtain new1 where new1: "it_revisions db1 = it_revisions db @ new1"
    and kept1: "\<And>k i r. lookup db k i = Some r \<Longrightarrow> \<exists>r'. lookup db1 k i = Some r' \<and>
         (financialContent r' = financialContent r \<or>
          (\<exists>v \<in> set new1. rv_kind v = k \<and> rv_id v = i \<and> financialContent (rv_json v) = financialContent r))"
    using assms(1) unfolding history_def by blast
  obtain new2 where new2: "it_revisions db2 = it_revisions db1 @ new2"
    and kept2: "\<And>k i r. lookup db1 k i = Some r \<Longrightarrow> \<exists>r'. lookup db2 k i = Some r' \<and>
         (financialContent r' = financialContent r \<or>
          (\<exists>v \<in> set new2. rv_kind v = k \<and> rv_id v = i \<and> financialContent (rv_json v) = financialContent r))"
    using assms(2) unfolding history_def by blast
  show ?thesis
    unfolding history_def
  proof (intro exI [of _ "new1 @ new2"] conjI allI impI)
    show "it_revisions db2 = it_revisions db @ new1 @ new2"
      by (simp add: new1 new2)
  next
    fix k i r
    assume "lookup db k i = Some r"
    from kept1 [OF this] obtain r1 where r1: "lookup db1 k i = Some r1"
      "financialContent r1 = financialContent r \<or>
        (\<exists>v \<in> set new1. rv_kind v = k \<and> rv_id v = i \<and> financialContent (rv_json v) = financialContent r)"
      by blast
    from kept2 [OF r1(1)] obtain r2 where "lookup db2 k i = Some r2"
      "financialContent r2 = financialContent r1 \<or>
        (\<exists>v \<in> set new2. rv_kind v = k \<and> rv_id v = i \<and> financialContent (rv_json v) = financialContent r1)"
      by blast
    with r1(2) show "\<exists>r'. lookup db2 k i = Some r' \<and> (financialContent r' = financialContent r \<or>
        (\<exists>v \<in> set (new1 @ new2). rv_kind v = k \<and> rv_id v = i \<and> financialContent (rv_json v) = financialContent r))"
      by auto
  qed
qed

text \<open>Changes outside the records and revisions.\<close>

lemma history_same: "lookup db' = lookup db \<Longrightarrow> it_revisions db' = it_revisions db \<Longrightarrow> history db db'"
  by (simp add: history_def)

lemma upsertRecord_history: "history db (snd (upsertRecord env k t row db))"
proof (cases "recordQuery k (record_id row) db")
  case None
  then have "lookup db k (record_id row) = None"
    by (simp add: lookup_def)
  then show ?thesis
    by (auto simp: None upsertRecord_def history_def saveRecord_def [THEN arg_cong [of _ _ it_revisions]] intro!: exI [of _ "[]"])
next
  case (Some previous)
  then have now: "lookup db k (record_id row) = Some (rr_json previous)"
    by (simp add: lookup_def)
  show ?thesis
  proof (cases "financialContent (rr_json previous) = financialContent (merged_record env (rr_json previous) row)")
    case True
    then show ?thesis
      using now by (auto simp: Some upsertRecord_def Let_def history_def saveRecord_def [THEN arg_cong [of _ _ it_revisions]])
  next
    case False
    let ?v = "\<lparr>rv_kind = k, rv_id = record_id row, rv_replacedAt = t, rv_json = rr_json previous\<rparr>"
    from False show ?thesis
      using now by (auto simp: Some upsertRecord_def Let_def history_def saveRecord_def [THEN arg_cong [of _ _ it_revisions]] saveRevision_def [THEN arg_cong [of _ _ it_revisions]]
        intro!: exI [of _ "[?v]"])
  qed
qed

lemma upsert_one_history: "history (snd acc) (snd (upsert_one env t row acc))"
  using upsertRecord_history [of "snd acc" env "kind_of row" t row] by (simp add: upsert_one_def split_beta)

lemma upsert_rows_history: "history (snd acc) (snd (fold (upsert_one env t) rows acc))"
proof (induction rows arbitrary: acc)
  case (Cons row rows)
  show ?case
    using history_trans [OF upsert_one_history Cons.IH] by simp
qed simp

lemma append_one_history: "append_one env t row acc = Inr acc' \<Longrightarrow> history (snd acc) (snd acc')"
  using upsertRecord_history [of "snd acc" env "kind_of row" t row]
  by (auto simp: append_one_def appendArchiveRecord_def storeError_def split: option.splits inv_record.splits if_splits)

lemma recordFailure_meta: "recordFailure env status t e db = Inr db' \<Longrightarrow> \<exists>st. db' = db\<lparr>im_sourceState := st\<rparr>"
  by (auto simp: recordFailure_def writeState_def split: if_splits intro: exI [of _ "im_sourceState db"])

lemma applySnapshot_history:
  assumes "applySnapshot env s db = Inr (sm, db')"
  shows "history db db'"
proof -
  have rows: "history db db2" if "apply_rows env snapshot st db = Inr (sm', db2)" for snapshot st sm' db2
  proof -
    obtain summary db1 where "fold (upsert_one env (sn_observedAt snapshot)) (snapshot_rows snapshot) (no_import True, db) = (summary, db1)"
      by fastforce
    with that upsert_rows_history [of "(no_import True, db)" env "sn_observedAt snapshot" "snapshot_rows snapshot"]
    have "history db db1" "lookup db2 = lookup db1" "it_revisions db2 = it_revisions db1"
      by (auto simp: apply_rows_def writeState_def mark_applied_def split: if_splits)
    then show ?thesis
      using history_trans history_same by blast
  qed
  show ?thesis
    using assms rows by (auto simp: applySnapshot_def storeError_def history_same dest!: recordFailure_meta split: if_splits)
qed

lemma seedArchive_history:
  assumes "seedArchive env s sha manifest db = Inr (sm, db')"
  shows "history db db'"
proof -
  obtain rows t db1 where "foldE (append_one env t) rows (no_import True, db1) = Inr (sm, db')" "lookup db1 = lookup db" "it_revisions db1 = it_revisions db"
    using assms by (auto simp: seedArchive_def storeError_def Let_def split: if_splits option.splits)
  moreover from this(1) have "history db1 (snd (sm, db'))"
    by (rule foldE_invariant [where P = "\<lambda>acc. history db1 (snd acc)"]) (auto intro: history_trans append_one_history)
  ultimately show ?thesis
    using history_trans history_same by (metis snd_conv)
qed

section \<open>Everything a store can be asked to do\<close>

datatype store_event =
    ApplySnapshot inv_snapshot
  | SeedArchive inv_snapshot jsstr "jsstr option"
  | RecordFailure source_status jsstr inv_error
  | SetSessionState session_state
  | ConsumeSms jsstr
  | ConsumeRefresh jsstr
  | ReserveRecovery jsstr jsstr
  | FinishRecovery recovery_status

definition changed :: "inv_db \<Rightarrow> ('a \<times> inv_db) res \<Rightarrow> inv_db" where
  "changed db r = (case r of Inl e \<Rightarrow> db | Inr x \<Rightarrow> snd x)"

definition changed_state :: "inv_db \<Rightarrow> inv_db res \<Rightarrow> inv_db" where
  "changed_state db r = (case r of Inl e \<Rightarrow> db | Inr x \<Rightarrow> x)"

fun store_step :: "store_env \<Rightarrow> store_event \<Rightarrow> inv_db \<Rightarrow> inv_db" where
  "store_step env (ApplySnapshot s) db = changed db (applySnapshot env s db)"
| "store_step env (SeedArchive s sha m) db = changed db (seedArchive env s sha m db)"
| "store_step env (RecordFailure st t e) db = changed_state db (recordFailure env st t e db)"
| "store_step env (SetSessionState st) db = changed_state db (setSessionState env st db)"
| "store_step env (ConsumeSms t) db = changed db (consumeAutomaticSmsAttempt env t db)"
| "store_step env (ConsumeRefresh t) db = changed db (consumeControlRefreshAttempt env t db)"
| "store_step env (ReserveRecovery i t) db = changed db (reserveManualRecoveryRequest env i t db)"
| "store_step env (FinishRecovery r) db = changed_state db (finishManualRecoveryRequest env r db)"

text \<open>All but the first two leave records, revisions and evidence alone.\<close>

lemma meta_steps:
  "setSessionState env st db = Inr db1 \<Longrightarrow> \<exists>x. db1 = db\<lparr>im_sessionState := x\<rparr>"
  "consumeAutomaticSmsAttempt env t db = Inr (b, db2) \<Longrightarrow> \<exists>x. db2 = db\<lparr>im_automaticSms := x\<rparr>"
  "consumeControlRefreshAttempt env t db = Inr (c, db3) \<Longrightarrow> \<exists>x. db3 = db\<lparr>im_controlRefresh := x\<rparr>"
  "reserveManualRecoveryRequest env i t db = Inr (d, db4) \<Longrightarrow> \<exists>x. db4 = db\<lparr>it_recoveries := x\<rparr>"
  "finishManualRecoveryRequest env r db = Inr db5 \<Longrightarrow> \<exists>x. db5 = db\<lparr>it_recoveries := x\<rparr>"
  by (auto simp: setSessionState_def consumeAutomaticSmsAttempt_def consumeControlRefreshAttempt_def
      reserveManualRecoveryRequest_def finishManualRecoveryRequest_def Let_def
      split: if_splits option.splits intro: inv_db.surjective exI [of _ "im_sessionState db"] exI [of _ "im_automaticSms db"]
        exI [of _ "im_controlRefresh db"] exI [of _ "it_recoveries db"])

lemma store_step_history: "history db (store_step env ev db)"
  by (cases ev)
     (auto simp: changed_def changed_state_def history_same dest!: recordFailure_meta meta_steps
       intro: applySnapshot_history seedArchive_history split: sum.split)

lemma store_run_history: "history db (fold (store_step env) evs db)"
  by (induction evs arbitrary: db) (auto intro: history_trans store_step_history)

text \<open>
  C22: nothing verified is lost. Whatever a store is asked to do afterwards, a record it once held is still there,
  with the financial content it had or with that content kept in a revision written since, and no revision is
  ever removed or reordered.
\<close>

theorem no_record_is_lost:
  assumes "lookup db k i = Some r" "db' = fold (store_step env) evs db"
  shows "\<exists>new r'. it_revisions db' = it_revisions db @ new \<and> lookup db' k i = Some r' \<and>
    (financialContent r' = financialContent r \<or>
     (\<exists>v \<in> set new. rv_kind v = k \<and> rv_id v = i \<and> financialContent (rv_json v) = financialContent r))"
  using store_run_history [of db env evs] assms unfolding history_def by blast

end
