(* ===== verification/InvFeed.thy ===== *)
theory InvFeed
  imports InvHistory
begin

text \<open>
  The type of the investment database: every row it ever holds passes the schema it is read back with, so the
  feed is what is stored, and for Clal the balances its reports state.
\<close>

section \<open>Well-formed rows\<close>

fun trim_record :: "inv_record \<Rightarrow> inv_record" where
  "trim_record (Product p) = Product (trim_product p)"
| "trim_record (Valuation v) = Valuation (trim_valuation v)"
| "trim_record (Activity a) = Activity (trim_activity a)"
| "trim_record (Track t) = Track (trim_track t)"
| "trim_record (Execution e) = Execution (trim_execution e)"

fun record_ok :: "store_env \<Rightarrow> inv_record \<Rightarrow> bool" where
  "record_ok env (Product p) = (product_ok (so_zod env) p \<and> ip_provider p = so_provider env)"
| "record_ok env (Valuation v) = valuation_ok (so_zod env) v"
| "record_ok env (Activity a) = activity_ok (so_zod env) a"
| "record_ok env (Track t) = track_ok (so_zod env) t"
| "record_ok env (Execution e) = execution_ok (so_zod env) e"

definition fine :: "store_env \<Rightarrow> inv_record \<Rightarrow> bool" where
  "fine env r \<longleftrightarrow> trim_record r = r \<and> record_ok env r"

definition row_ok :: "store_env \<Rightarrow> record_row \<Rightarrow> bool" where
  "row_ok env row \<longleftrightarrow> rr_kind row = kind_of (rr_json row) \<and> rr_id row = record_id (rr_json row) \<and>
     rr_productId row = record_product (rr_json row) \<and> fine env (rr_json row)"

text \<open>The invariant of a database that belongs to the store's provider.\<close>

definition typed :: "store_env \<Rightarrow> inv_db \<Rightarrow> bool" where
  "typed env db \<longleftrightarrow> list_all (row_ok env) (it_records db) \<and> distinct (map (\<lambda>r. (rr_kind r, rr_id r)) (it_records db)) \<and>
     (case im_sourceState db of None \<Rightarrow> True | Some st \<Rightarrow> source_state_ok (so_zod env) st \<and> io_provider st = so_provider env)"

section \<open>Merging keeps products well formed\<close>

lemma merge_keyed:
  assumes "distinct (map fst al)" "\<forall>x \<in> set al. fst x = rp_id (snd x) \<and> snd x \<in> S" "set new \<subseteq> S"
  shows "distinct (map fst (fold (\<lambda>r. AList.update (rp_id r) r) new al)) \<and>
    (\<forall>x \<in> set (fold (\<lambda>r. AList.update (rp_id r) r) new al). fst x = rp_id (snd x) \<and> snd x \<in> S)"
  using assms
proof (induction new arbitrary: al)
  case (Cons r new)
  have "\<forall>x \<in> set (AList.update (rp_id r) r al). fst x = rp_id (snd x) \<and> snd x \<in> S"
    using Cons.prems set_update_subset [of "rp_id r" r al] by auto
  with Cons.IH [of "AList.update (rp_id r) r al"] Cons.prems show ?case
    by (simp add: distinct_update)
qed simp

lemma merge_reports_ok:
  assumes "null_or (\<lambda>rs. list_all P rs \<and> distinct (map rp_id rs)) old" "null_or (\<lambda>rs. list_all P rs \<and> distinct (map rp_id rs)) new"
  shows "null_or (\<lambda>rs. list_all P rs \<and> distinct (map rp_id rs)) (merge_reports lc old new)"
proof -
  define al where "al = map (\<lambda>r. (rp_id r, r)) (default old [])"
  define ms where "ms = fold (\<lambda>r. AList.update (rp_id r) r) (default new []) al"
  have "distinct (map fst al)" "\<forall>x \<in> set al. fst x = rp_id (snd x) \<and> snd x \<in> {v. P v}" "set (default new []) \<subseteq> {v. P v}"
    using assms by (cases old; cases new; auto simp: al_def null_or_def list_all_iff comp_def)+
  from merge_keyed [OF this] have ms: "distinct (map fst ms)" "\<forall>x \<in> set ms. fst x = rp_id (snd x) \<and> P (snd x)"
    by (auto simp: ms_def)
  then have "map rp_id (map snd ms) = map fst ms"
    by simp
  then have "distinct (map rp_id (sort_by (\<lambda>a b. lc (rp_id a) (rp_id b)) (map snd ms)))"
    using ms(1) by (metis mset_map mset_sort_by mset_eq_imp_distinct_iff)
  moreover have "list_all P (map snd ms)"
    using ms(2) by (auto simp: list_all_iff)
  ultimately show ?thesis
    by (auto simp: merge_reports_def null_or_def list_all_iff ms_def [symmetric] al_def [symmetric])
qed

lemma map_same_iff: "map f xs = xs \<longleftrightarrow> list_all (\<lambda>x. f x = x) xs"
  by (induction xs) auto

lemma trim_product_iff:
  "trim_product p = p \<longleftrightarrow> js_trim (ip_id p) = ip_id p \<and> js_trim (ip_providerProductId p) = ip_providerProductId p \<and>
     js_trim (ip_name p) = ip_name p \<and> map_option js_trim (ip_currentValuationId p) = ip_currentValuationId p \<and>
     null_or (list_all (\<lambda>r. trim_report r = r)) (ip_reports p)"
  by (cases p) (auto simp: trim_product_def null_or_def map_same_iff split: option.splits)

lemma merged_product_fine:
  assumes "fine env (Product old)" "fine env (Product new)"
  shows "fine env (Product (merged_product env old new))"
proof -
  let ?P = "\<lambda>r. report_ok (so_zod env) r \<and> trim_report r = r"
  have reports: "null_or (\<lambda>rs. list_all ?P rs \<and> distinct (map rp_id rs)) (ip_reports p)" if "fine env (Product p)" for p
    using that by (cases "ip_reports p") (auto simp: fine_def product_ok_def trim_product_iff null_or_def list_all_iff)
  have merged: "null_or (\<lambda>rs. list_all ?P rs \<and> distinct (map rp_id rs)) (merge_reports (so_lc env) (ip_reports old) (ip_reports new))"
    using merge_reports_ok [OF reports [OF assms(1)] reports [OF assms(2)]] .
  have current: "null_or (sized 255) (orelse (ip_currentValuationId new) (ip_currentValuationId old))"
    "map_option js_trim (orelse (ip_currentValuationId new) (ip_currentValuationId old)) = orelse (ip_currentValuationId new) (ip_currentValuationId old)"
    using assms by (cases "ip_currentValuationId new"; simp add: fine_def product_ok_def trim_product_iff)+
  show ?thesis
    using assms(2) merged current
    by (cases "merge_reports (so_lc env) (ip_reports old) (ip_reports new)")
       (auto simp: fine_def trim_product_iff product_ok_def merged_product_def kept_product_def null_or_def list_all_iff)
qed

lemma merged_record_fine:
  assumes "fine env old" "fine env row"
  shows "fine env (merged_record env old row)"
  using assms merged_product_fine by (auto simp: merged_record_def split: inv_record.split)

section \<open>Every operation keeps the type\<close>

lemma saveRecord_typed:
  assumes "typed env db" "fine env r"
  shows "typed env (saveRecord (kind_of r) (record_id r) (record_product r) r db)"
  using assms by (auto simp: typed_def saveRecord_def row_ok_def list_all_iff distinct_map inj_on_def)

lemma typed_meta [simp]:
  "typed env (saveRevision k i t r db) = typed env db"
  "typed env (im_lastApplied_update f2 db) = typed env db"
  "typed env (im_automaticSms_update f3 db) = typed env db" "typed env (im_controlRefresh_update f3 db) = typed env db"
  "typed env (im_sessionState_update f4 db) = typed env db" "typed env (it_recoveries_update f5 db) = typed env db"
  "typed env (it_evidence_update f6 db) = typed env db"
  by (simp_all add: typed_def saveRevision_def)

lemma typed_found:
  assumes "typed env db" "recordQuery k i db = Some previous"
  shows "row_ok env previous \<and> rr_kind previous = k \<and> rr_id previous = i"
  using assms by (auto simp: typed_def recordQuery_def list_all_iff dest: find_Some_iff_in)

lemma upsertRecord_typed:
  assumes "typed env db" "fine env row"
  shows "typed env (snd (upsertRecord env (kind_of row) t row db))"
proof (cases "recordQuery (kind_of row) (record_id row) db")
  case None
  with saveRecord_typed [OF assms] show ?thesis
    by (simp add: upsertRecord_def)
next
  case (Some previous)
  have "fine env (merged_record env (rr_json previous) row)"
    using typed_found [OF assms(1) Some] assms(2) merged_record_fine by (auto simp: row_ok_def)
  from saveRecord_typed [OF assms(1) this] saveRecord_typed [OF _ this, of "saveRevision (kind_of row) (record_id row) t (rr_json previous) db"] assms(1)
  show ?thesis
    by (simp add: Some upsertRecord_def Let_def)
qed

lemma upsert_rows_typed:
  "typed env (snd acc) \<Longrightarrow> list_all (fine env) rows \<Longrightarrow> typed env (snd (fold (upsert_one env t) rows acc))"
proof (induction rows arbitrary: acc)
  case (Cons row rows)
  then show ?case
    using upsertRecord_typed [of env "snd acc" row t] by (simp add: upsert_one_def split_beta)
qed simp

text \<open>The rows of a validated snapshot.\<close>

lemma foldE_unit: "foldE f xs () = Inr u \<Longrightarrow> x \<in> set xs \<Longrightarrow> f x () = Inr ()"
  by (induction xs) auto

lemma snapshot_rows_fine:
  assumes "parse_snapshot (so_zod env) s = Inr t" "validateRelations t (so_provider env) = Inr u"
  shows "list_all (fine env) (snapshot_rows t)"
proof -
  have provider: "ip_provider p = so_provider env" if "p \<in> set (id_products t)" for p
    using assms(2) foldE_unit [OF _ that] by (fastforce simp: validateRelations_def product_relation_def storeError_def split: if_splits)
  have "trim_data t = t" "data_ok (so_zod env) t"
    using parse_snapshot_ok [OF assms(1)] by simp_all
  note t = this
  have trimmed: "map trim_product (id_products t) = id_products t" "map trim_valuation (id_valuations t) = id_valuations t"
    "map trim_activity (id_activities t) = id_activities t" "map trim_track (id_tracks t) = id_tracks t"
    "map trim_execution (id_executions t) = id_executions t"
    using arg_cong [OF t(1), of id_products] arg_cong [OF t(1), of id_valuations] arg_cong [OF t(1), of id_activities]
      arg_cong [OF t(1), of id_tracks] arg_cong [OF t(1), of id_executions] by (simp_all add: trim_data_def)
  from t(2) trimmed provider show ?thesis
    by (auto simp: snapshot_rows_def recordKinds_def rows_of_def fine_def data_ok_def map_same_iff list_all_iff)
qed

lemma writeState_typed:
  assumes "writeState env st db = Inr db'" "typed env db" "io_provider st = so_provider env"
  shows "typed env db'"
  using assms by (auto simp: writeState_def parse_source_state_def checked_by_ok typed_def)

lemma readState_provider: "readState env db = Inr st \<Longrightarrow> io_provider st = so_provider env"
  by (auto simp: readState_def storeError_def split: if_splits)

lemma recordFailure_typed:
  assumes "recordFailure env status t e db = Inr db'" "typed env db"
  shows "typed env db'"
proof -
  let ?failed = "\<lambda>st. st\<lparr>io_status := status, io_lastAttemptAt := Some t, io_errorCode := Some e, io_inventoryComplete := False\<rparr>"
  obtain st where st: "readState env db = Inr st" and cases: "db' = db \<or> writeState env (?failed st) db = Inr db'"
    using assms(1) by (auto simp: recordFailure_def split: if_splits)
  have "io_provider (?failed st) = so_provider env"
    using readState_provider [OF st] by simp
  with cases assms(2) writeState_typed show ?thesis
    by blast
qed

lemma applySnapshot_typed:
  assumes "applySnapshot env s db = Inr (sm, db')" "typed env db"
  shows "typed env db'"
proof -
  have rows: "typed env db2" if fine: "list_all (fine env) (snapshot_rows snapshot)"
    and run: "apply_rows env snapshot st db = Inr (sm', db2)" for snapshot st sm' db2
  proof -
    obtain summary db1 where up: "fold (upsert_one env (sn_observedAt snapshot)) (snapshot_rows snapshot) (no_import True, db) = (summary, db1)"
      by fastforce
    then have "typed env db1"
      using upsert_rows_typed [OF _ fine, of "(no_import True, db)" "sn_observedAt snapshot"] assms(2) by simp
    moreover obtain st1 db3 where "readState env db1 = Inr st1" "writeState env (applied_state (so_provider env) snapshot st st1) db1 = Inr db3"
      "mark_applied env snapshot db3 = Inr db2"
      using run up by (auto simp: apply_rows_def)
    moreover from this(1) have "io_provider (applied_state (so_provider env) snapshot st st1) = so_provider env"
      using readState_provider by (simp add: applied_state_def Let_def)
    ultimately have "typed env db3"
      using writeState_typed by blast
    then show ?thesis
      using \<open>mark_applied env snapshot db3 = Inr db2\<close> by (auto simp: mark_applied_def split: if_splits)
  qed
  show ?thesis
    using assms rows snapshot_rows_fine [of env s]
    by (auto simp: applySnapshot_def storeError_def intro: recordFailure_typed split: if_splits)
qed

lemma append_one_typed:
  assumes "append_one env t row acc = Inr acc'" "typed env (snd acc)" "fine env row"
  shows "typed env (snd acc')"
  using assms upsertRecord_typed [OF assms(2,3), of t]
  by (auto simp: append_one_def appendArchiveRecord_def storeError_def split: option.splits inv_record.splits if_splits)

lemma seedArchive_typed:
  assumes "seedArchive env s sha manifest db = Inr (sm, db')" "typed env db"
  shows "typed env db'"
proof -
  obtain t u db1 where t: "parse_snapshot (so_zod env) s = Inr t" "validateRelations t (so_provider env) = Inr u"
    and run: "foldE (append_one env (sn_observedAt t)) (rows_of Products t @ rows_of Valuations t) (no_import True, db1) = Inr (sm, db')"
    and db1: "typed env db1"
    using assms by (auto simp: seedArchive_def storeError_def Let_def split: if_splits option.splits)
  have "list_all (fine env) (rows_of Products t @ rows_of Valuations t)"
    using snapshot_rows_fine [OF t] by (simp add: snapshot_rows_def recordKinds_def)
  with run db1 have "typed env (snd (sm, db'))"
    by (intro foldE_invariant [where P = "\<lambda>acc. typed env (snd acc)", OF run]) (auto simp: list_all_iff intro: append_one_typed)
  then show ?thesis
    by simp
qed

lemma store_step_typed: "typed env db \<Longrightarrow> typed env (store_step env ev db)"
  by (cases ev)
     (auto simp: changed_def changed_state_def dest!: meta_steps
       intro: applySnapshot_typed seedArchive_typed recordFailure_typed split: sum.split)

lemma store_run_typed: "typed env db \<Longrightarrow> typed env (fold (store_step env) evs db)"
  by (induction evs arbitrary: db) (auto intro: store_step_typed)

lemma created_typed: "createInvestmentStore env empty_inv_db = Inr db \<Longrightarrow> typed env db"
  by (auto simp: createInvestmentStore_def empty_inv_db_def storeError_def typed_def Let_def split: if_splits)

section \<open>The feed\<close>

lemma typed_readState:
  "typed env db \<Longrightarrow> readState env db = Inr (default (im_sourceState db) (initialState (so_provider env)))"
  by (auto simp: typed_def readState_def parse_source_state_def checked_by_def initialState_def split: option.splits)

lemma stored_rows_fine:
  assumes "typed env db" "r \<in> set (stored_rows k db)"
  shows "kind_of r = k \<and> fine env r"
  using assms by (auto simp: typed_def stored_rows_def row_ok_def list_all_iff)

lemma map_filter_all: "(\<And>y. y \<in> set (List.map_filter f xs) \<Longrightarrow> P y) \<Longrightarrow> list_all P (List.map_filter f xs)"
  by (simp add: list_all_iff)

lemma stored_data_ok:
  assumes "typed env db"
  shows "trim_data (stored_data db t src) = stored_data db t src" "data_ok (so_zod env) (stored_data db t src)"
    "list_all (\<lambda>p. ip_provider p = so_provider env) (id_products (stored_data db t src))"
proof -
  note fine = stored_rows_fine [OF assms]
  have parts: "list_all (\<lambda>p. trim_product p = p \<and> product_ok (so_zod env) p \<and> ip_provider p = so_provider env) (id_products (stored_data db t src))"
    "list_all (\<lambda>v. trim_valuation v = v \<and> valuation_ok (so_zod env) v) (id_valuations (stored_data db t src))"
    "list_all (\<lambda>a. trim_activity a = a \<and> activity_ok (so_zod env) a) (id_activities (stored_data db t src))"
    "list_all (\<lambda>x. trim_track x = x \<and> track_ok (so_zod env) x) (id_tracks (stored_data db t src))"
    "list_all (\<lambda>e. trim_execution e = e \<and> execution_ok (so_zod env) e) (id_executions (stored_data db t src))"
    using fine [of _ Products] fine [of _ Valuations] fine [of _ Activities] fine [of _ Tracks] fine [of _ Executions]
    by (force simp: stored_data_def list_all_iff fine_def List.map_filter_def split: inv_record.splits)+
  then show "trim_data (stored_data db t src) = stored_data db t src" "data_ok (so_zod env) (stored_data db t src)"
    "list_all (\<lambda>p. ip_provider p = so_provider env) (id_products (stored_data db t src))"
    by (simp_all add: trim_data_def data_ok_def list_all_iff map_idI)
qed

lemma enrich_other: 
  assumes "list_all (\<lambda>p. ip_provider p \<noteq> Clal) (id_products d)"
  shows "enrichClalReportValuations env d = Inr d"
proof -
  have "foldE (enrich_product env obs) ps vs = Inr vs" if "list_all (\<lambda>p. ip_provider p \<noteq> Clal) ps" for ps obs vs
    using that by (induction ps) (auto simp: enrich_product_def split: option.split)
  then show ?thesis
    using assms by (simp add: enrichClalReportValuations_def)
qed

text \<open>
  C23: the investment database is well typed. Whatever a store that was created on an empty database is asked to
  do, and whichever of it fails, every row reads back through its schema unchanged and keeps its key, and the state
  belongs to the store's provider. For a provider other than Clal the feed can always be read and is exactly the stored rows. For Clal a
  feed that is answered holds every stored row unchanged, and beside them only valuations: balances that a report of a stored
  product states under a date it covers, for which no value is stored, in the form the schema gives them.
\<close>

theorem feed_reads_back:
  assumes "createInvestmentStore env empty_inv_db = Inr start" "db = fold (store_step env) evs start"
    and "ze_datetime (so_zod env) (iso_of_time now)" "0 < staleAfterHours"
  shows "typed env db \<and> (\<exists>st feed. readState env db = Inr st \<and>
    feed = stored_data db (iso_of_time now) (st\<lparr>io_staleAfterHours := staleAfterHours\<rparr>) \<and>
    (so_provider env \<noteq> Clal \<longrightarrow> getFeed env now staleAfterHours db = Inr feed) \<and>
    (\<forall>answer. getFeed env now staleAfterHours db = Inr answer \<longrightarrow>
      (\<exists>added. answer = feed\<lparr>id_valuations := id_valuations feed @ map trim_valuation added\<rparr> \<and>
        (\<forall>v\<in>set added. \<exists>p\<in>set (id_products feed). stated_balance (id_valuations feed) p v))))"
proof -
  have typed: "typed env db"
    using assms(1,2) created_typed store_run_typed by blast
  define st where "st = default (im_sourceState db) (initialState (so_provider env))"
  define feed where "feed = stored_data db (iso_of_time now) (st\<lparr>io_staleAfterHours := staleAfterHours\<rparr>)"
  have st: "readState env db = Inr st"
    using typed_readState [OF typed] by (simp add: st_def)
  note ok = stored_data_ok [OF typed, of "iso_of_time now" "st\<lparr>io_staleAfterHours := staleAfterHours\<rparr>", folded feed_def]
  have "source_state_ok (so_zod env) (st\<lparr>io_staleAfterHours := staleAfterHours\<rparr>)"
    using typed assms(4) by (auto simp: st_def typed_def source_state_ok_def initialState_def null_or_def split: option.splits)
  with ok(1,2) assms(3) have parsed: "parse_feed (so_zod env) feed = Inr feed"
    by (simp add: parse_feed_def checked_by_def feed_def) (simp add: stored_data_def)
  then have get: "getFeed env now staleAfterHours db = bindE (enrichClalReportValuations (so_zod env) feed) (parse_feed (so_zod env))"
    using st by (simp add: getFeed_def feed_def [symmetric])
  have "getFeed env now staleAfterHours db = Inr feed" if "so_provider env \<noteq> Clal"
    using ok(3) that enrich_other [of feed "so_zod env"] parsed get by (simp add: list_all_iff)
  moreover have "\<exists>added. answer = feed\<lparr>id_valuations := id_valuations feed @ map trim_valuation added\<rparr> \<and>
      (\<forall>v\<in>set added. \<exists>p\<in>set (id_products feed). stated_balance (id_valuations feed) p v)"
    if answered: "getFeed env now staleAfterHours db = Inr answer" for answer
  proof -
    obtain d where d: "enrichClalReportValuations (so_zod env) feed = Inr d" "parse_feed (so_zod env) d = Inr answer"
      using answered get by auto
    from valuations_added [OF d(1)] obtain us where us: "d = feed\<lparr>id_valuations := id_valuations feed @ us\<rparr>"
        "\<forall>v\<in>set us. \<exists>p\<in>set (id_products feed). stated_balance (id_valuations feed) p v"
      by blast
    have "answer = trim_data d"
      using d(2) by (simp add: parse_feed_def checked_by_ok)
    moreover have "trim_data d = feed\<lparr>id_valuations := id_valuations feed @ map trim_valuation us\<rparr>"
      using ok(1) unfolding us(1) by (cases feed) (simp add: trim_data_def)
    ultimately show ?thesis using us(2) by blast
  qed
  ultimately show ?thesis
    using typed st unfolding feed_def by blast
qed

end
