(* ===== verification/InvReimport.thy ===== *)
theory InvReimport
  imports InvFeed
begin

text \<open>
  Importing the same snapshot twice: the second import finds every record unchanged and writes no revision.
\<close>

section \<open>Merging again\<close>

lemma sort_by_sorted: "sorted_wrt (\<lambda>a b. c a b \<le> 0) xs \<Longrightarrow> sort_by c xs = xs"
proof (induction xs)
  case (Cons x xs)
  then show ?case
    by (cases xs) auto
qed simp

lemma sort_by_idem:
  assumes "consistent_compare lc"
  shows "sort_by (\<lambda>a b. lc (f a) (f b)) (sort_by (\<lambda>a b. lc (f a) (f b)) xs) = sort_by (\<lambda>a b. lc (f a) (f b)) xs"
proof (rule sort_by_sorted, rule sorted_sort_by)
  show "comparator_on UNIV (\<lambda>a b. lc (f a) (f b))"
    using consistent_compareD(2,3) [OF assms] unfolding comparator_on_def by blast
qed simp

abbreviation put_reports :: "report_summary list \<Rightarrow> (jsstr \<times> report_summary) list \<Rightarrow> (jsstr \<times> report_summary) list" where
  "put_reports \<equiv> fold (\<lambda>r. AList.update (rp_id r) r)"

abbreviation keyed_reports :: "report_summary list \<Rightarrow> (jsstr \<times> report_summary) list" where
  "keyed_reports \<equiv> map (\<lambda>r. (rp_id r, r))"

lemma update_same: "map_of al k = Some v \<Longrightarrow> AList.update k v al = al"
  by (induction al) (auto split: if_splits)

lemma put_same: "\<forall>r \<in> set rs. map_of al (rp_id r) = Some r \<Longrightarrow> put_reports rs al = al"
  by (induction rs) (simp_all add: update_same)

lemma put_lookup: "distinct (map rp_id rs) \<Longrightarrow> r \<in> set rs \<Longrightarrow> map_of (put_reports rs al) (rp_id r) = Some r"
proof (induction rs arbitrary: al)
  case (Cons x xs)
  have "map_of (put_reports xs bl) k = map_of bl k" if "k \<notin> rp_id ` set xs" for k bl
    using that by (induction xs arbitrary: bl) (auto simp: update_conv')
  with Cons show ?case
    by (auto simp: update_conv')
qed simp

lemma keyed_report: "distinct (map rp_id rs) \<Longrightarrow> r \<in> set rs \<Longrightarrow> map_of (keyed_reports rs) (rp_id r) = Some r"
  by (simp add: map_of_eq_Some_iff comp_def)

text \<open>Merging the same reports into their own merge changes nothing.\<close>

lemma merge_reports_again:
  assumes lc: "consistent_compare lc"
    and old: "null_or (\<lambda>rs. distinct (map rp_id rs)) old" and new: "null_or (\<lambda>rs. distinct (map rp_id rs)) new"
  shows "merge_reports lc (merge_reports lc old new) new = merge_reports lc old new"
proof (cases "old = None \<and> new = None")
  case True
  then show ?thesis
    by (simp add: merge_reports_def)
next
  case False
  let ?c = "\<lambda>a b. lc (rp_id a) (rp_id b)"
  define ms where "ms = put_reports (default new []) (keyed_reports (default old []))"
  define rs where "rs = sort_by ?c (map snd ms)"
  have dist: "distinct (map rp_id (default old []))" "distinct (map rp_id (default new []))"
    using old new by (auto simp: null_or_def default_def split: option.splits)
  have "distinct (map fst (keyed_reports (default old [])))"
    using dist(1) by (simp add: comp_def)
  then have ms: "distinct (map fst ms)" "\<forall>x \<in> set ms. fst x = rp_id (snd x)"
    using merge_keyed [of "keyed_reports (default old [])" UNIV "default new []"] by (auto simp: ms_def)
  have "map rp_id (map snd ms) = map fst ms"
    using ms(2) by simp
  then have distinct: "distinct (map rp_id rs)"
    using ms(1) unfolding rs_def by (metis mset_map mset_sort_by mset_eq_imp_distinct_iff)
  have "map_of (keyed_reports rs) (rp_id r) = Some r" if "r \<in> set (default new [])" for r
  proof -
    have "map_of ms (rp_id r) = Some r"
      using put_lookup [OF dist(2) that] by (simp add: ms_def)
    then have "r \<in> set rs"
      by (force simp: rs_def dest: map_of_SomeD)
    from keyed_report [OF distinct this] show ?thesis .
  qed
  then have "put_reports (default new []) (keyed_reports rs) = keyed_reports rs"
    using put_same by blast
  moreover have "merge_reports lc old new = Some rs"
    using False by (simp add: merge_reports_def rs_def ms_def)
  moreover have "sort_by ?c rs = rs"
    using sort_by_idem [OF lc] by (simp add: rs_def)
  ultimately show ?thesis
    by (simp add: merge_reports_def comp_def)
qed

lemma merge_reports_self:
  assumes "null_or (\<lambda>rs. distinct (map rp_id rs) \<and> sort_by (\<lambda>a b. lc (rp_id a) (rp_id b)) rs = rs) reports"
  shows "merge_reports lc reports reports = reports"
proof (cases reports)
  case (Some rs)
  with assms have rs: "distinct (map rp_id rs)" "sort_by (\<lambda>a b. lc (rp_id a) (rp_id b)) rs = rs"
    by (simp_all add: null_or_def)
  have "put_reports rs (keyed_reports rs) = keyed_reports rs"
    using keyed_report [OF rs(1)] put_same by blast
  with rs(2) Some show ?thesis
    by (simp add: merge_reports_def comp_def)
qed (simp add: merge_reports_def)

text \<open>Reports arrive in the order the merge keeps them in.\<close>

definition reports_in_order :: "store_env \<Rightarrow> inv_record \<Rightarrow> bool" where
  "reports_in_order env r = (case r of Product p \<Rightarrow>
     null_or (\<lambda>rs. sort_by (\<lambda>a b. so_lc env (rp_id a) (rp_id b)) rs = rs) (ip_reports p) | _ \<Rightarrow> True)"

lemma merged_again:
  assumes "consistent_compare (so_lc env)" "fine env old" "fine env row" "kind_of old = kind_of row"
  shows "merged_record env (merged_record env old row) row = merged_record env old row"
proof -
  have ids: "null_or (\<lambda>rs. distinct (map rp_id rs)) (ip_reports p)" if "fine env (Product p)" for p
    using that by (cases "ip_reports p") (auto simp: fine_def product_ok_def null_or_def)
  show ?thesis
  proof (cases "\<exists>p q. old = Product p \<and> row = Product q")
    case True
    then obtain p q where pq: "old = Product p" "row = Product q"
      by blast
    have "merge_reports (so_lc env) (merge_reports (so_lc env) (ip_reports p) (ip_reports q)) (ip_reports q) =
        merge_reports (so_lc env) (ip_reports p) (ip_reports q)"
      using merge_reports_again [OF assms(1) ids ids] assms(2,3) pq by simp
    then show ?thesis
      by (cases "ip_currentValuationId q") (simp_all add: pq merged_record_def merged_product_def kept_product_def)
  next
    case False
    with assms(4) have "merged_record env old row = row" "merged_record env row row = row"
      by (cases old; cases row; simp add: merged_record_def)+
    then show ?thesis
      by simp
  qed
qed

lemma merged_self:
  assumes "fine env row" "reports_in_order env row"
  shows "merged_record env row row = row"
proof (cases row)
  case (Product p)
  with assms have "merge_reports (so_lc env) (ip_reports p) (ip_reports p) = ip_reports p"
    by (intro merge_reports_self) (cases "ip_reports p", auto simp: fine_def product_ok_def null_or_def reports_in_order_def)
  then show ?thesis
    by (cases "ip_currentValuationId p"; cases p) (auto simp: Product merged_record_def merged_product_def kept_product_def)
qed (simp_all add: merged_record_def)

section \<open>The second import\<close>

definition rows_apart :: "inv_record list \<Rightarrow> bool" where
  "rows_apart rows \<longleftrightarrow> distinct (map (\<lambda>r. (kind_of r, record_id r)) rows)"

lemma upsert_one_lookup:
  "lookup (snd (upsert_one env t row acc)) k i =
     (if k = kind_of row \<and> i = record_id row
      then Some (case lookup (snd acc) k i of None \<Rightarrow> row | Some old \<Rightarrow> merged_record env old row)
      else lookup (snd acc) k i)"
  by (cases "recordQuery (kind_of row) (record_id row) (snd acc)")
     (auto simp: upsert_one_def upsertRecord_def Let_def split_beta lookup_def [of "snd acc"])

text \<open>After an import every row of the snapshot is stored, merged with what was there.\<close>

lemma imported_lookup:
  assumes "rows_apart rows"
  shows "lookup (snd (fold (upsert_one env t) rows acc)) k i =
    (case find (\<lambda>r. kind_of r = k \<and> record_id r = i) rows of
       None \<Rightarrow> lookup (snd acc) k i
     | Some row \<Rightarrow> Some (case lookup (snd acc) k i of None \<Rightarrow> row | Some old \<Rightarrow> merged_record env old row))"
  using assms
proof (induction rows arbitrary: acc)
  case (Cons row rows)
  have apart: "rows_apart rows" "find (\<lambda>r. kind_of r = kind_of row \<and> record_id r = record_id row) rows = None"
    using Cons.prems by (auto simp: rows_apart_def find_None_iff image_iff)
  from Cons.IH [OF apart(1), of "upsert_one env t row acc"] apart(2) show ?case
    by (cases "find (\<lambda>r. kind_of r = k \<and> record_id r = i) rows") (auto simp: upsert_one_lookup)
qed simp

text \<open>An import whose every row is already stored in its merged form.\<close>

lemma settled_import:
  assumes "\<forall>row \<in> set rows. \<exists>old. lookup (snd acc) (kind_of row) (record_id row) = Some old \<and> merged_record env old row = old"
  shows "fst (fold (upsert_one env t) rows acc) = (fst acc)\<lparr>im_unchanged := im_unchanged (fst acc) + length rows\<rparr> \<and>
    lookup (snd (fold (upsert_one env t) rows acc)) = lookup (snd acc) \<and>
    it_revisions (snd (fold (upsert_one env t) rows acc)) = it_revisions (snd acc) \<and>
    im_sourceState (snd (fold (upsert_one env t) rows acc)) = im_sourceState (snd acc)"
  using assms
proof (induction rows arbitrary: acc)
  case (Cons row rows)
  define acc1 where "acc1 = upsert_one env t row acc"
  obtain old where old: "lookup (snd acc) (kind_of row) (record_id row) = Some old" "merged_record env old row = old"
    using Cons.prems by auto
  then obtain previous where previous: "recordQuery (kind_of row) (record_id row) (snd acc) = Some previous" "rr_json previous = old"
    by (auto simp: lookup_def)
  have step: "acc1 = (tally Unchanged (fst acc), saveRecord (kind_of row) (record_id row) (record_product row) old (snd acc))"
    using previous old(2) merged_record_simps [of env old row] by (simp add: acc1_def upsert_one_def upsertRecord_def Let_def)
  have same: "lookup (snd acc1) = lookup (snd acc)"
    using old by (auto simp: step fun_eq_iff)
  have "it_revisions (snd acc1) = it_revisions (snd acc)" "im_sourceState (snd acc1) = im_sourceState (snd acc)"
    "fst acc1 = (fst acc)\<lparr>im_unchanged := im_unchanged (fst acc) + 1\<rparr>"
    by (simp_all add: step saveRecord_def)
  moreover have "\<forall>row \<in> set rows. \<exists>old. lookup (snd acc1) (kind_of row) (record_id row) = Some old \<and> merged_record env old row = old"
    using Cons.prems same by simp
  ultimately show ?case
    using Cons.IH [of acc1] same by (simp add: acc1_def [symmetric])
qed (cases acc, simp)

lemma snapshot_rows_apart:
  assumes "validateRelations t provider = Inr u"
  shows "rows_apart (snapshot_rows t)"
proof -
  have "distinct (map record_id (rows_of k t))" for k
  proof -
    have "foldE (identity_relation t) recordKinds () = Inr ()"
      using assms by (auto simp: validateRelations_def)
    moreover have "k \<in> set recordKinds"
      by (cases k) (simp_all add: recordKinds_def)
    ultimately show ?thesis
      using foldE_unit by (fastforce simp: identity_relation_def storeError_def split: if_splits)
  qed
  note each = this [of Products] this [of Valuations] this [of Activities] this [of Tracks] this [of Executions]
  have kinds: "kind_of r = k" if "r \<in> set (rows_of k t)" for r k
    using that by (auto simp: rows_of_def split: record_kind.splits)
  have part: "distinct (map (\<lambda>r. (kind_of r, record_id r)) (rows_of k t))" if "distinct (map record_id (rows_of k t))" for k
    using that by (auto simp: distinct_map inj_on_def)
  show ?thesis
    unfolding rows_apart_def snapshot_rows_def recordKinds_def
    using part [OF each(1)] part [OF each(2)] part [OF each(3)] part [OF each(4)] part [OF each(5)]
    by (auto dest!: kinds)
qed

text \<open>The timestamps zod admits are those of the years 0 to 9999, and \<^verbatim>\<open>toISOString\<close> writes such ones.\<close>

definition stamps_canonical :: "zod_env \<Rightarrow> bool" where
  "stamps_canonical env \<longleftrightarrow> (\<forall>s. ze_datetime env s \<longrightarrow> (\<exists>t. parse_stamp s = Some t \<and> ok_time t)) \<and>
     (\<forall>t. ok_time t \<longrightarrow> ze_datetime env (iso_of_time t))"

lemma applied_state_again: "applied_state provider t (applied_state provider t st st1) (applied_state provider t st st1) = applied_state provider t st st1"
  by (simp add: applied_state_def Let_def)

text \<open>What a completed import leaves, apart from the records.\<close>

lemma apply_rows_ok:
  assumes "apply_rows env t st db = Inr (sm, db')" "typed env db" "readState env db = Inr st" "list_all (fine env) (snapshot_rows t)"
    and "fold (upsert_one env (sn_observedAt t)) (snapshot_rows t) (no_import True, db) = (summary, db1)"
  shows "sm = summary" "lookup db' = lookup db1" "it_revisions db' = it_revisions db1"
    "im_sourceState db' = Some (applied_state (so_provider env) t st st)"
    "so_provider env = Hapoalim \<Longrightarrow> \<exists>ms. parse_stamp (sn_observedAt t) = Some ms \<and> im_lastApplied db' = Some (iso_of_time ms)"
proof -
  have state: "im_sourceState (snd (fold (upsert_one env o') rows acc)) = im_sourceState (snd acc)" for o' rows acc
    by (induction rows arbitrary: acc)
       (auto simp: upsert_one_def upsertRecord_def saveRecord_def saveRevision_def Let_def split_beta split: option.split)
  have "im_sourceState db1 = im_sourceState db"
    using state [of "sn_observedAt t" "snapshot_rows t" "(no_import True, db)"] assms(5) by simp
  then have "readState env db1 = Inr st"
    using assms(3) by (simp add: readState_def)
  with assms(1,5) show "sm = summary" "lookup db' = lookup db1" "it_revisions db' = it_revisions db1"
    "im_sourceState db' = Some (applied_state (so_provider env) t st st)"
    "so_provider env = Hapoalim \<Longrightarrow> \<exists>ms. parse_stamp (sn_observedAt t) = Some ms \<and> im_lastApplied db' = Some (iso_of_time ms)"
    by (auto simp: apply_rows_def writeState_def parse_source_state_def checked_by_ok mark_applied_def to_iso_string_def time_clip_def
        split: if_splits option.splits bind_splits)
qed

text \<open>The snapshot does not predate itself.\<close>

lemma predates_itself:
  assumes env: "stamps_canonical (so_zod env)" and t: "ze_datetime (so_zod env) (sn_observedAt t)"
    and first: "predates env t st db = Inr False" and ok: "source_state_ok (so_zod env) st"
    and last: "so_provider env = Hapoalim \<Longrightarrow> \<exists>ms. parse_stamp (sn_observedAt t) = Some ms \<and> im_lastApplied db' = Some (iso_of_time ms)"
  shows "predates env t (applied_state (so_provider env) t st st) db' = Inr False"
proof (cases "so_provider env = Hapoalim")
  case True
  obtain ms where ms: "parse_stamp (sn_observedAt t) = Some ms" "ok_time ms" "im_lastApplied db' = Some (iso_of_time ms)"
    using last [OF True] env t unfolding stamps_canonical_def by force
  have iso: "ze_datetime (so_zod env) (iso_of_time ms)" "parse_stamp (iso_of_time ms) = Some ms"
    using env ms(2) by (simp_all add: stamps_canonical_def parse_stamp_iso)
  have "\<not> after_time (parse_stamp a) (Some ms)" if a: "io_lastSuccessAt st = Some a" for a
  proof -
    define prior where "prior = im_lastApplied db"
    have prior: "case prior of None \<Rightarrow> True | Some p \<Rightarrow> ze_datetime (so_zod env) p"
      using first True by (cases "im_lastApplied db") (simp_all add: prior_def predates_def storeError_def split: if_splits)
    have old: "None \<notin> set (map parse_stamp (List.map_filter id [prior, io_lastAttemptAt st, io_lastSuccessAt st])) \<longrightarrow>
        \<not> list_ex (\<lambda>x. after_time x (parse_stamp (sn_observedAt t))) (map parse_stamp (List.map_filter id [prior, io_lastAttemptAt st, io_lastSuccessAt st]))"
      using first True by (cases "im_lastApplied db") (simp_all add: prior_def predates_def storeError_def Let_def split: if_splits, blast+)
    have "list_all (ze_datetime (so_zod env)) (List.map_filter id [prior, io_lastAttemptAt st, io_lastSuccessAt st])"
      using prior ok by (auto simp: source_state_ok_def null_or_def List.map_filter_def split: option.splits)
    then have "None \<notin> set (map parse_stamp (List.map_filter id [prior, io_lastAttemptAt st, io_lastSuccessAt st]))"
      using env by (fastforce simp: stamps_canonical_def list_all_iff)
    moreover have "a \<in> set (List.map_filter id [prior, io_lastAttemptAt st, io_lastSuccessAt st])"
      using a by (simp add: List.map_filter_def)
    ultimately show ?thesis
      using old ms(1) by (auto simp: list_ex_iff)
  qed
  then show ?thesis
    using True ms iso
    by (auto simp: predates_def List.map_filter_simps applied_state_def Let_def after_time_def split: option.splits)
next
  case False
  then show ?thesis
    by (simp add: predates_def)
qed

lemma find_apart: "rows_apart rows \<Longrightarrow> row \<in> set rows \<Longrightarrow>
    find (\<lambda>r. kind_of r = kind_of row \<and> record_id r = record_id row) rows = Some row"
  by (induction rows) (auto simp: rows_apart_def image_iff)

lemma time_clip_ok: "ok_time t \<Longrightarrow> time_clip t = Some t"
  by (auto simp: ok_time_def time_clip_def)

lemma mark_applied_ok:
  assumes "stamps_canonical (so_zod env)" "ze_datetime (so_zod env) (sn_observedAt t)"
  shows "\<exists>x. mark_applied env t db = Inr (db\<lparr>im_lastApplied := x\<rparr>)"
proof -
  obtain ms where "parse_stamp (sn_observedAt t) = Some ms" "ok_time ms"
    using assms unfolding stamps_canonical_def by blast
  then show ?thesis
    by (auto simp: mark_applied_def to_iso_string_def time_clip_ok intro: exI [of _ "im_lastApplied db"])
qed

text \<open>
  C24: importing a snapshot again changes nothing. On a well-typed store, with a consistent locale comparison
  and canonical timestamps, after a snapshot was applied, applying the same snapshot again succeeds, counts
  every row as unchanged, writes no revision and leaves every record and the source state as they are. One
  condition is on the snapshot: a product the store did not hold yet brings its report summaries in
  the order of their ids. The first import stores such a product as it came, the second sorts its summaries, and
  store.ts then counts an update and writes a revision; a product already held needs no condition.
\<close>

theorem reimport_changes_nothing:
  assumes "applySnapshot env s db = Inr (sm, db')" "im_applied sm" "typed env db"
    and "consistent_compare (so_lc env)" "stamps_canonical (so_zod env)"
    and "\<forall>row \<in> set (snapshot_rows (trim_data s)). lookup db (kind_of row) (record_id row) = None \<longrightarrow> reports_in_order env row"
  shows "\<exists>db''. applySnapshot env s db' = Inr ((no_import True)\<lparr>im_unchanged := length (snapshot_rows s)\<rparr>, db'') \<and>
    it_revisions db'' = it_revisions db' \<and> im_sourceState db'' = im_sourceState db' \<and> (\<forall>k i. lookup db'' k i = lookup db' k i)"
proof -
  have parse: "parse_snapshot (so_zod env) s = Inr (trim_data s)"
    using assms(1) by (auto simp: applySnapshot_def parse_snapshot_def checked_by_ok)
  define t where "t = trim_data s"
  obtain u st where rel: "validateRelations t (so_provider env) = Inr u" and st: "readState env db = Inr st"
    and whole: "sn_complete t" "sn_inventoryComplete t \<or> so_provider env = Hapoalim"
    and fresh: "predates env t st db = Inr False" and rows: "apply_rows env t st db = Inr (sm, db')"
    using assms(1,2) parse by (auto simp: applySnapshot_def t_def [symmetric] no_import_def storeError_def split: if_splits)
  note fine = snapshot_rows_fine [OF parse, folded t_def, OF rel] and apart = snapshot_rows_apart [OF rel]
  obtain summary db1 where up: "fold (upsert_one env (sn_observedAt t)) (snapshot_rows t) (no_import True, db) = (summary, db1)"
    by fastforce
  note first = apply_rows_ok [OF rows assms(3) st fine up]
  have settled: "\<exists>old. lookup db' (kind_of row) (record_id row) = Some old \<and> merged_record env old row = old" if "row \<in> set (snapshot_rows t)" for row
  proof -
    have now: "lookup db' (kind_of row) (record_id row) =
        Some (case lookup db (kind_of row) (record_id row) of None \<Rightarrow> row | Some old \<Rightarrow> merged_record env old row)"
      using imported_lookup [OF apart, of env "sn_observedAt t" "(no_import True, db)" "kind_of row" "record_id row"]
        find_apart [OF apart that] up first(2) by simp
    have row: "fine env row" "lookup db (kind_of row) (record_id row) = None \<longrightarrow> reports_in_order env row"
      using fine assms(6) that by (auto simp: list_all_iff t_def)
    show ?thesis
    proof (cases "lookup db (kind_of row) (record_id row)")
      case None
      with now row merged_self [OF row(1)] show ?thesis
        by simp
    next
      case (Some old)
      then have "fine env old" "kind_of old = kind_of row"
        by (auto simp: lookup_def row_ok_def dest!: typed_found [OF assms(3)])
      with Some now merged_again [OF assms(4) _ row(1)] show ?thesis
        by simp
    qed
  qed
  define st' where "st' = applied_state (so_provider env) t st st"
  have typed: "typed env db'"
    using applySnapshot_typed [OF assms(1,3)] .
  have st': "readState env db' = Inr st'" "source_state_ok (so_zod env) st'"
    using typed_readState [OF typed] typed first(4) by (simp_all add: st'_def typed_def)
  have observed: "ze_datetime (so_zod env) (sn_observedAt t)"
    using parse_snapshot_ok(4) [OF parse] by (simp add: t_def)
  have ok: "source_state_ok (so_zod env) st"
    using typed_readState [OF assms(3)] st assms(3)
    by (auto simp: typed_def source_state_ok_def initialState_def null_or_def split: option.splits)
  have again: "predates env t st' db' = Inr False"
    unfolding st'_def by (rule predates_itself [OF assms(5) observed fresh ok first(5)])
  obtain db2 where up2: "fold (upsert_one env (sn_observedAt t)) (snapshot_rows t) (no_import True, db') =
      ((no_import True)\<lparr>im_unchanged := length (snapshot_rows t)\<rparr>, db2)"
    and db2: "lookup db2 = lookup db'" "it_revisions db2 = it_revisions db'" "im_sourceState db2 = im_sourceState db'"
    using settled_import [of "snapshot_rows t" "(no_import True, db')" env "sn_observedAt t"] settled
    by (cases "fold (upsert_one env (sn_observedAt t)) (snapshot_rows t) (no_import True, db')") (auto simp: no_import_def)
  have state2: "readState env db2 = Inr st'"
    using st'(1) db2(3) by (simp add: readState_def)
  define db3 where "db3 = db2\<lparr>im_sourceState := Some st'\<rparr>"
  obtain x where mark: "mark_applied env t db3 = Inr (db3\<lparr>im_lastApplied := x\<rparr>)"
    using mark_applied_ok [OF assms(5) observed] by blast
  have "apply_rows env t st' db' = Inr ((no_import True)\<lparr>im_unchanged := length (snapshot_rows t)\<rparr>, db3\<lparr>im_lastApplied := x\<rparr>)"
    using up2 state2 mark st'(2) applied_state_again [of "so_provider env" t st st]
    by (simp add: apply_rows_def writeState_def parse_source_state_def checked_by_def st'_def [symmetric] db3_def)
  moreover have "\<not> (so_provider env \<noteq> Hapoalim \<and> (case io_lastSuccessAt st' of None \<Rightarrow> False | Some x \<Rightarrow> sn_observedAt t < x))"
    by (auto simp: st'_def applied_state_def current_values_complete_def)
  moreover have "\<not> (\<not> sn_complete t \<or> (\<not> sn_inventoryComplete t \<and> so_provider env \<noteq> Hapoalim))"
    using whole by blast
  ultimately have "applySnapshot env s db' = Inr ((no_import True)\<lparr>im_unchanged := length (snapshot_rows t)\<rparr>, db3\<lparr>im_lastApplied := x\<rparr>)"
    using parse rel st'(1) again unfolding applySnapshot_def t_def [symmetric] by (simp only: bindE_simps if_False)
  moreover have "length (snapshot_rows t) = length (snapshot_rows s)"
    by (simp add: snapshot_rows_def recordKinds_def rows_of_def t_def trim_data_def)
  ultimately show ?thesis
    using db2 first(4) by (intro exI [of _ "db3\<lparr>im_lastApplied := x\<rparr>"]) (simp add: db3_def st'_def)
qed

end
