(* ===== verification/InvExample.thy ===== *)
theory InvExample
  imports InvReimport
begin

text \<open>
  One pension product with one valuation: the investment store created, filled and asked again, as the witness
  of its properties.
\<close>

definition example_product :: inv_product where
  "example_product = \<lparr>ip_id = js ''clal:1'', ip_provider = Clal, ip_providerProductId = js ''1'', ip_kind = Pension, ip_name = js ''Pension'',
     ip_currency = js ''ILS'', ip_currentValuationId = Some (js ''clal:1:valuation:2024-07-01''), ip_liquidity = Restricted,
     ip_availableFrom = None, ip_availableAmount = None, ip_valuations = CoverComplete, ip_activities = CoverNone, ip_tracks = CoverNone,
     ip_executions = None, ip_forecast = None, ip_reports = None\<rparr>"

definition example_valuation :: "jsstr \<Rightarrow> inv_valuation" where
  "example_valuation amount = \<lparr>iv_id = js ''clal:1:valuation:2024-07-01'', iv_productId = js ''clal:1'', iv_asOf = Some (js ''2024-07-01''),
     iv_observedAt = js ''2024-07-10T08:00:00.000Z'', iv_amount = amount, iv_currency = js ''ILS'', iv_provenance = None\<rparr>"

definition example_snapshot :: "jsstr \<Rightarrow> inv_snapshot" where
  "example_snapshot amount = \<lparr>id_products = [example_product], id_valuations = [example_valuation amount], id_activities = [], id_tracks = [],
     id_executions = [], sn_observedAt = js ''2024-07-10T08:00:00.000Z'', sn_complete = True, sn_inventoryComplete = True\<rparr>"

definition created :: inv_db where
  "created = empty_inv_db\<lparr>im_schemaVersion := Some (js ''1''), im_provider := Some Clal\<rparr>"

lemma example_created: "createInvestmentStore example_store empty_inv_db = Inr created"
  by code_simp

definition stored_example :: inv_db where
  "stored_example = created\<lparr>im_sourceState := Some \<lparr>io_provider = Clal, io_status = SourceOk, io_lastAttemptAt = Some (js ''2024-07-10T08:00:00.000Z''),
     io_lastSuccessAt = Some (js ''2024-07-10T08:00:00.000Z''), io_staleAfterHours = 168, io_errorCode = None, io_inventoryComplete = True\<rparr>,
   it_records := [\<lparr>rr_kind = Products, rr_id = js ''clal:1'', rr_productId = js ''clal:1'', rr_json = Product example_product\<rparr>,
     \<lparr>rr_kind = Valuations, rr_id = js ''clal:1:valuation:2024-07-01'', rr_productId = js ''clal:1'', rr_json = Valuation (example_valuation (js ''10.00''))\<rparr>]\<rparr>"

lemma example_trimmed:
  "trim_product example_product = example_product" "trim_valuation (example_valuation a) = example_valuation a"
  "trim_data (example_snapshot a) = example_snapshot a"
proof -
  show product: "trim_product example_product = example_product"
    by (simp add: trim_product_def example_product_def js_trim_def is_space_def)
  show valuation: "trim_valuation (example_valuation a) = example_valuation a"
    by (simp add: trim_valuation_def example_valuation_def js_trim_def is_space_def)
  show "trim_data (example_snapshot a) = example_snapshot a"
    by (simp add: trim_data_def example_snapshot_def product valuation)
qed

lemma example_amount: "valuation_money (js ''10.00'')"
proof -
  have "decimal 2 6 (js ''10.00'')" and i: "index_of 46 (js ''10.00'') = Some 2" and "digits_val (take 2 (js ''10.00'')) = 10"
    and "digits_val (drop (Suc 2) (js ''10.00'') @ replicate 4 48) = 0"
    by code_simp+
  then show ?thesis
    unfolding valuation_money_def i option.case by simp
qed

lemma example_ok:
  "product_ok example_zod example_product" "valuation_ok example_zod (example_valuation (js ''10.00''))"
proof -
  show "product_ok example_zod example_product"
    by (simp add: product_ok_def example_product_def sized_def null_or_def currency_code_def is_upper_def)
  have "ze_date example_zod (js ''2024-07-01'')" and "parse_stamp (js ''2024-07-10T08:00:00.000Z'') = Some 1720598400000"
    by code_simp+
  then have "ze_date example_zod (js ''2024-07-01'')" "ze_datetime example_zod (js ''2024-07-10T08:00:00.000Z'')"
    by (simp_all add: example_zod_def ok_time_def)
  with example_amount show "valuation_ok example_zod (example_valuation (js ''10.00''))"
    unfolding valuation_ok_def example_valuation_def null_or_def inv_valuation.select_convs option.case
    by (intro conjI) (simp_all add: sized_def currency_code_def is_upper_def)
qed

lemma example_identities:
  "investmentProductId (js ''1'') Clal = Inr (js ''clal:1'')"
  "investmentValuationId (js ''clal:1'') (Some (js ''2024-07-01'')) = Inr (js ''clal:1:valuation:2024-07-01'')"
  by (simp_all add: investmentProductId_def investmentValuationId_def id_part_def js_trim_def checked_id_def provider_text_def
      uri_unreserved_def char_class_defs)

lemma example_observed: "ze_datetime example_zod (js ''2024-07-10T08:00:00.000Z'')"
  using example_ok(2) by (simp add: valuation_ok_def example_valuation_def)

lemma example_parse: "parse_snapshot example_zod (example_snapshot (js ''10.00'')) = Inr (example_snapshot (js ''10.00''))"
  using example_ok example_observed
  by (simp add: parse_snapshot_def checked_by_def example_trimmed) (simp add: data_ok_def example_snapshot_def)

lemma example_relations: "validateRelations (example_snapshot (js ''10.00'')) Clal = Inr ()"
  using example_identities
  by (simp add: validateRelations_def identity_relation_def recordKinds_def rows_of_def product_relation_def currency_relation_def
      valuation_relation_def product_of_def example_snapshot_def example_product_def example_valuation_def del: bindE_eq_Inr)

lemma example_import:
  "fold (upsert_one example_store (js ''2024-07-10T08:00:00.000Z'')) (snapshot_rows (example_snapshot (js ''10.00''))) (no_import True, created) =
     ((no_import True)\<lparr>im_inserted := 2\<rparr>, created\<lparr>it_records := it_records stored_example\<rparr>)"
  by (simp add: snapshot_rows_def recordKinds_def rows_of_def upsert_one_def upsertRecord_def recordQuery_def saveRecord_def
      example_snapshot_def example_product_def example_valuation_def created_def stored_example_def empty_inv_db_def no_import_def)

lemma example_applied:
  "applySnapshot example_store (example_snapshot (js ''10.00'')) created = Inr ((no_import True)\<lparr>im_inserted := 2\<rparr>, stored_example)"
proof -
  let ?t = "example_snapshot (js ''10.00'')" and ?db = "created\<lparr>it_records := it_records stored_example\<rparr>"
  have env: "so_zod example_store = example_zod" "so_provider example_store = Clal"
    by (simp_all add: example_store_def)
  have t: "sn_observedAt ?t = js ''2024-07-10T08:00:00.000Z''" "sn_complete ?t" "sn_inventoryComplete ?t"
    by (simp_all add: example_snapshot_def)
  have state: "readState example_store created = Inr (initialState Clal)" "readState example_store ?db = Inr (initialState Clal)"
    by (simp_all add: readState_def env created_def empty_inv_db_def initialState_def)
  have fresh: "predates example_store ?t (initialState Clal) created = Inr False" "io_lastSuccessAt (initialState Clal) = None"
    by (simp_all add: predates_def env initialState_def)
  have saved: "writeState example_store (applied_state Clal ?t (initialState Clal) (initialState Clal)) ?db = Inr stored_example"
    using example_observed unfolding applied_state_def t Let_def
    by (simp add: writeState_def parse_source_state_def checked_by_def source_state_ok_def null_or_def env
        current_values_complete_def initialState_def example_snapshot_def stored_example_def created_def empty_inv_db_def)
  have "apply_rows example_store ?t (initialState Clal) created = Inr ((no_import True)\<lparr>im_inserted := 2\<rparr>, stored_example)"
    unfolding apply_rows_def t(1) example_import prod.case env state(2) bindE_simps saved by (simp add: mark_applied_def env)
  with t(2,3) fresh state(1) example_parse example_relations show ?thesis
    by (simp add: applySnapshot_def env del: bindE_eq_Inr)
qed

section \<open>Witnesses\<close>

theorem reimport_changes_nothing_witness:
  "\<exists>db. applySnapshot example_store (example_snapshot (js ''10.00'')) stored_example = Inr ((no_import True)\<lparr>im_unchanged := 2\<rparr>, db) \<and>
    it_revisions db = []"
proof -
  have lc: "consistent_compare (so_lc example_store)"
    by (simp add: example_store_def consistent_cmp_of)
  have env: "stamps_canonical (so_zod example_store)"
    by (auto simp: stamps_canonical_def example_store_def example_zod_def parse_stamp_iso split: option.splits)
  have order: "\<forall>row \<in> set (snapshot_rows (trim_data (example_snapshot (js ''10.00'')))).
      lookup created (kind_of row) (record_id row) = None \<longrightarrow> reports_in_order example_store row"
    unfolding example_trimmed
    by (simp add: snapshot_rows_def recordKinds_def rows_of_def reports_in_order_def example_snapshot_def example_product_def null_or_def)
  have applied: "im_applied ((no_import True)\<lparr>im_inserted := 2\<rparr>)" and two: "length (snapshot_rows (example_snapshot (js ''10.00''))) = 2"
    and none: "it_revisions stored_example = []"
    by (simp_all add: no_import_def snapshot_rows_def recordKinds_def rows_of_def example_snapshot_def stored_example_def created_def empty_inv_db_def)
  from reimport_changes_nothing [OF example_applied applied created_typed [OF example_created] lc env order]
  show ?thesis
    unfolding two none by blast
qed

theorem no_record_is_lost_witness:
  "\<exists>new r'. it_revisions (fold (store_step example_store) [ApplySnapshot (example_snapshot (js ''12.50''))] stored_example) = it_revisions stored_example @ new \<and>
    lookup (fold (store_step example_store) [ApplySnapshot (example_snapshot (js ''12.50''))] stored_example) Products (js ''clal:1'') = Some r'"
proof -
  have "lookup stored_example Products (js ''clal:1'') = Some (Product example_product)"
    by (simp add: lookup_def recordQuery_def stored_example_def)
  from no_record_is_lost [OF this refl, where evs = "[ApplySnapshot (example_snapshot (js ''12.50''))]" and env = example_store] show ?thesis
    by blast
qed

theorem feed_reads_back_witness:
  "typed example_store (fold (store_step example_store) [ApplySnapshot (example_snapshot (js ''10.00'')), ConsumeSms (js ''2024-07-10T08:00:00.000Z'')] created)"
proof -
  have "ze_datetime (so_zod example_store) (iso_of_time 1720598400000)"
    using parse_stamp_iso [of 1720598400000] by (simp add: example_store_def example_zod_def ok_time_def)
  then show ?thesis
    by (rule feed_reads_back [OF example_created refl, where staleAfterHours = 168, THEN conjunct1]) simp
qed

end
