(* ===== verification/InvRecovery.thy ===== *)
theory InvRecovery
  imports InvStore
begin

text \<open>
  A manual verification, \<^verbatim>\<open>src/investments/manual-recovery.ts\<close>: one code, typed by the user, handed to one
  waiting login. The promise a login waits on, the timer and the abort listeners are flags of the state; what
  the machine does to the outside, storing a status, aborting the collection, handing over the code or failing
  the wait, is appended to a list of effects.
\<close>

section \<open>State\<close>

datatype recovery_effect =
    Persist recovery_status
  | AbortCollection
  | Deliver jsstr
  | RejectRead

datatype recovery_refusal = RecoveryInProgress | RecoveryNotFound | RecoveryNotWaiting | RecoveryWasExpired

record recovery =
  mr_provider :: jsstr
  mr_current :: recovery_status
  mr_prepared :: bool
  mr_pending :: bool
  mr_timer :: bool
  mr_listening :: bool
  mr_leases :: "jsstr list"
  mr_effects :: "recovery_effect list"

definition terminalStates :: "recovery_state set" where
  "terminalStates = {RecoveryComplete, RecoveryFailed, RecoveryCanceled, RecoveryExpired}"

definition terminal :: "recovery \<Rightarrow> bool" where
  "terminal m \<longleftrightarrow> rs_state (mr_current m) \<in> terminalStates"

definition challengeLifetime :: int where
  "challengeLifetime = 180000"

definition hasManualRecoveryLease :: "jsstr \<Rightarrow> jsstr list \<Rightarrow> bool" where
  "hasManualRecoveryLease provider leases \<longleftrightarrow> provider \<in> set leases"

definition emit :: "recovery_effect \<Rightarrow> recovery \<Rightarrow> recovery" where
  "emit e m = m\<lparr>mr_effects := mr_effects m @ [e]\<rparr>"

section \<open>Operations\<close>

text \<open>\<open>None\<close>: another verification of the provider is under way. The lease is taken before the rest.\<close>

definition createManualRecovery :: "jsstr \<Rightarrow> jsstr \<Rightarrow> int \<Rightarrow> jsstr list \<Rightarrow> recovery option res" where
  "createManualRecovery provider requestId now leases =
     (if hasManualRecoveryLease provider leases then Inr None
      else bindE (to_iso_string (time_clip (now + challengeLifetime))) (\<lambda>expires.
        Inr (Some \<lparr>mr_provider = provider,
          mr_current = \<lparr>rs_challengeId = requestId, rs_state = Starting, rs_expiresAt = Some expires, rs_errorCode = None\<rparr>,
          mr_prepared = False, mr_pending = False, mr_timer = True, mr_listening = False, mr_leases = provider # leases, mr_effects = []\<rparr>)))"

definition release :: "recovery \<Rightarrow> recovery" where
  "release m =
     (let m' = (if mr_pending m then emit RejectRead m else m)
      in m'\<lparr>mr_timer := False, mr_listening := False, mr_pending := False, mr_leases := removeAll (mr_provider m) (mr_leases m)\<rparr>)"

definition end_recovery :: "recovery_state \<Rightarrow> recovery_error option \<Rightarrow> recovery \<Rightarrow> recovery" where
  "end_recovery state errorCode m =
     (if terminal m then m
      else
        let m' = release (m\<lparr>mr_current := (mr_current m)\<lparr>rs_state := state, rs_expiresAt := None, rs_errorCode := errorCode\<rparr>\<rparr>)
        in emit (Persist (mr_current m')) m')"

definition timer_fires :: "recovery \<Rightarrow> recovery" where
  "timer_fires m = (if mr_timer m then emit AbortCollection (end_recovery RecoveryExpired (Some OtpExpired) (m\<lparr>mr_timer := False\<rparr>)) else m)"

definition source_prepare :: "bool \<Rightarrow> recovery \<Rightarrow> recovery res" where
  "source_prepare aborted m =
     (if mr_prepared m \<or> terminal m \<or> aborted then Inl (OtherError ''OTP_REQUIRED'') else Inr (m\<lparr>mr_prepared := True\<rparr>))"

definition source_read :: "bool \<Rightarrow> recovery \<Rightarrow> recovery res" where
  "source_read aborted m =
     (if rs_state (mr_current m) \<noteq> Starting \<or> aborted then Inl (OtherError ''OTP_REQUIRED'')
      else Inr (m\<lparr>mr_current := (mr_current m)\<lparr>rs_state := AwaitingCode\<rparr>, mr_pending := True, mr_listening := True\<rparr>))"

text \<open>A signal the waiting login listens to is aborted.\<close>

definition signal_aborts :: "recovery \<Rightarrow> recovery" where
  "signal_aborts m = (if mr_listening m then end_recovery RecoveryCanceled (Some CanceledByUser) m else m)"

definition source_cancel :: "recovery \<Rightarrow> recovery" where
  "source_cancel m = (if rs_state (mr_current m) \<in> {Starting, AwaitingCode} then end_recovery RecoveryFailed (Some OtpMissing) m else m)"

definition six_digits :: "jsstr \<Rightarrow> bool" where
  "six_digits code \<longleftrightarrow> length code = 6 \<and> list_all is_digit code"

definition expire_due :: "int \<Rightarrow> recovery \<Rightarrow> recovery" where
  "expire_due now m =
     (case rs_expiresAt (mr_current m) of
        None \<Rightarrow> m
      | Some e \<Rightarrow> if (case date_parse e of None \<Rightarrow> False | Some t \<Rightarrow> t \<le> now)
          then emit AbortCollection (end_recovery RecoveryExpired (Some OtpExpired) m) else m)"

definition submit_code :: "jsstr \<Rightarrow> int \<Rightarrow> recovery \<Rightarrow> (recovery_refusal + recovery_status) \<times> recovery" where
  "submit_code code now m0 =
     (let m = expire_due now m0 in
      if rs_state (mr_current m) = RecoveryExpired then (Inl RecoveryWasExpired, m)
      else if rs_state (mr_current m) \<noteq> AwaitingCode \<or> \<not> mr_pending m \<or> \<not> six_digits code then (Inl RecoveryNotWaiting, m)
      else
        let m' = emit (Deliver code) (m\<lparr>mr_pending := False, mr_timer := False, mr_listening := False,
          mr_current := (mr_current m)\<lparr>rs_state := Verifying, rs_expiresAt := None\<rparr>\<rparr>)
        in (Inr (mr_current m'), m'))"

definition cancel_recovery :: "recovery \<Rightarrow> (recovery_refusal + recovery_status) \<times> recovery" where
  "cancel_recovery m =
     (if rs_state (mr_current m) = RecoveryExpired then (Inl RecoveryWasExpired, m)
      else if terminal m \<and> rs_state (mr_current m) \<noteq> RecoveryCanceled then (Inl RecoveryNotWaiting, m)
      else
        let m' = emit AbortCollection (end_recovery RecoveryCanceled (Some CanceledByUser) m)
        in (Inr (mr_current m'), m'))"

definition finish_recovery :: "bool \<Rightarrow> recovery_error \<Rightarrow> recovery \<Rightarrow> recovery" where
  "finish_recovery success errorCode m =
     end_recovery (if success then RecoveryComplete else RecoveryFailed) (if success then None else Some errorCode) m"

section \<open>Runs\<close>

datatype recovery_event =
    TimerFires
  | Prepare bool
  | Read bool
  | SignalAborts
  | SourceCancel
  | Submit jsstr int
  | Cancel
  | Finish bool recovery_error

text \<open>A login reads the code from what \<^verbatim>\<open>prepare\<close> returned.\<close>

fun recovery_step :: "recovery_event \<Rightarrow> recovery \<Rightarrow> recovery" where
  "recovery_step TimerFires m = timer_fires m"
| "recovery_step (Prepare aborted) m = (case source_prepare aborted m of Inl e \<Rightarrow> m | Inr m' \<Rightarrow> m')"
| "recovery_step (Read aborted) m = (if mr_prepared m then case source_read aborted m of Inl e \<Rightarrow> m | Inr m' \<Rightarrow> m' else m)"
| "recovery_step SignalAborts m = signal_aborts m"
| "recovery_step SourceCancel m = (if mr_prepared m then source_cancel m else m)"
| "recovery_step (Submit code now) m = snd (submit_code code now m)"
| "recovery_step Cancel m = snd (cancel_recovery m)"
| "recovery_step (Finish success errorCode) m = finish_recovery success errorCode m"

inductive recovery_reach :: "jsstr \<Rightarrow> jsstr \<Rightarrow> int \<Rightarrow> jsstr list \<Rightarrow> recovery \<Rightarrow> bool"
  for provider requestId now leases where
  created: "createManualRecovery provider requestId now leases = Inr (Some m) \<Longrightarrow> recovery_reach provider requestId now leases m"
| stepped: "recovery_reach provider requestId now leases m \<Longrightarrow> recovery_reach provider requestId now leases (recovery_step ev m)"

definition persisted :: "recovery \<Rightarrow> recovery_status list" where
  "persisted m = List.map_filter (\<lambda>e. case e of Persist r \<Rightarrow> Some r | _ \<Rightarrow> None) (mr_effects m)"

definition delivered :: "recovery \<Rightarrow> jsstr list" where
  "delivered m = List.map_filter (\<lambda>e. case e of Deliver c \<Rightarrow> Some c | _ \<Rightarrow> None) (mr_effects m)"

lemma effects_emit [simp]:
  "persisted (emit e m) = persisted m @ (case e of Persist r \<Rightarrow> [r] | _ \<Rightarrow> [])"
  "delivered (emit e m) = delivered m @ (case e of Deliver c \<Rightarrow> [c] | _ \<Rightarrow> [])"
  by (auto simp: persisted_def delivered_def emit_def List.map_filter_def split: recovery_effect.splits)

lemma effects_update [simp]:
  "persisted (mr_current_update f1 m) = persisted m" "persisted (mr_prepared_update f2 m) = persisted m"
  "persisted (mr_pending_update f2 m) = persisted m" "persisted (mr_timer_update f2 m) = persisted m"
  "persisted (mr_listening_update f2 m) = persisted m" "persisted (mr_leases_update f3 m) = persisted m"
  "delivered (mr_current_update f1 m) = delivered m" "delivered (mr_prepared_update f2 m) = delivered m"
  "delivered (mr_pending_update f2 m) = delivered m" "delivered (mr_timer_update f2 m) = delivered m"
  "delivered (mr_listening_update f2 m) = delivered m" "delivered (mr_leases_update f3 m) = delivered m"
  by (simp_all add: persisted_def delivered_def)

lemma emit_fields [simp]:
  "mr_current (emit e m) = mr_current m" "mr_pending (emit e m) = mr_pending m" "mr_timer (emit e m) = mr_timer m"
  "mr_listening (emit e m) = mr_listening m" "mr_leases (emit e m) = mr_leases m" "mr_provider (emit e m) = mr_provider m"
  "mr_prepared (emit e m) = mr_prepared m"
  by (simp_all add: emit_def)

text \<open>What holds in every reachable state.\<close>

definition recovery_inv :: "int \<Rightarrow> recovery \<Rightarrow> bool" where
  "recovery_inv now m \<longleftrightarrow>
     (if terminal m then persisted m = [mr_current m] \<and> mr_provider m \<notin> set (mr_leases m) \<and> \<not> mr_pending m \<and> \<not> mr_timer m \<and>
        \<not> mr_listening m \<and> length (delivered m) \<le> 1
      else persisted m = [] \<and> mr_provider m \<in> set (mr_leases m) \<and> mr_pending m = (rs_state (mr_current m) = AwaitingCode) \<and>
        (if rs_state (mr_current m) = Verifying then length (delivered m) = 1 \<and> rs_expiresAt (mr_current m) = None
         else delivered m = [] \<and> rs_expiresAt (mr_current m) = Some (iso_of_time (now + challengeLifetime)))) \<and>
     list_all six_digits (delivered m) \<and> (terminal m \<longrightarrow> rs_expiresAt (mr_current m) = None)"

lemma terminal_simps [simp]:
  "terminal (emit e m) = terminal m" "terminal (mr_prepared_update f2 m) = terminal m" "terminal (mr_pending_update f2 m) = terminal m"
  "terminal (mr_timer_update f2 m) = terminal m" "terminal (mr_listening_update f2 m) = terminal m" "terminal (mr_leases_update f3 m) = terminal m"
  by (simp_all add: terminal_def)

lemma end_recovery_facts:
  assumes "recovery_inv now m" "state \<in> terminalStates"
  shows "recovery_inv now (end_recovery state e m)" "terminal (end_recovery state e m)"
  using assms by (auto simp: recovery_inv_def end_recovery_def release_def Let_def terminal_def split: if_splits)

lemma recovery_inv_abort: "recovery_inv now (emit AbortCollection m) = recovery_inv now m"
  by (simp add: recovery_inv_def)

lemma recovery_inv_timer: "recovery_inv now m \<Longrightarrow> recovery_inv now (m\<lparr>mr_timer := False\<rparr>)"
  by (auto simp: recovery_inv_def)

lemma expire_due_inv: "recovery_inv now m \<Longrightarrow> recovery_inv now (expire_due t m)"
  by (auto simp: expire_due_def recovery_inv_abort terminalStates_def intro!: end_recovery_facts split: option.split)

lemma recovery_step_inv:
  assumes "recovery_inv now m"
  shows "recovery_inv now (recovery_step ev m)"
proof (cases ev)
  case (Submit code t)
  have "recovery_inv now (expire_due t m)"
    using expire_due_inv [OF assms] .
  with Submit show ?thesis
    by (auto simp: submit_code_def Let_def recovery_inv_def terminal_def terminalStates_def)
next
  case (Read aborted)
  with assms show ?thesis
    by (auto simp: source_read_def recovery_inv_def terminal_def terminalStates_def)
next
  case (Prepare aborted)
  with assms show ?thesis
    by (auto simp: source_prepare_def recovery_inv_def)
qed (auto simp: assms timer_fires_def signal_aborts_def source_cancel_def cancel_recovery_def finish_recovery_def Let_def terminalStates_def
    recovery_inv_abort recovery_inv_timer intro!: end_recovery_facts)

lemma recovery_reach_inv: "recovery_reach provider requestId now leases m \<Longrightarrow> recovery_inv now m"
proof (induction rule: recovery_reach.induct)
  case (created m)
  then show ?case
    by (auto simp: createManualRecovery_def recovery_inv_def terminal_def terminalStates_def persisted_def delivered_def to_iso_string_def
        time_clip_def split: if_splits option.splits)
qed (rule recovery_step_inv)

lemma recovery_provider: "recovery_reach provider requestId now leases m \<Longrightarrow> mr_provider m = provider"
proof (induction rule: recovery_reach.induct)
  case (created m)
  then show ?case
    by (auto simp: createManualRecovery_def split: if_splits)
next
  case (stepped m ev)
  have ends: "mr_provider (end_recovery state e m) = mr_provider m" for state e m
    by (simp add: end_recovery_def release_def Let_def)
  have "mr_provider (recovery_step ev m) = mr_provider m"
    by (cases ev) (auto simp: ends timer_fires_def source_prepare_def source_read_def signal_aborts_def source_cancel_def submit_code_def
        expire_due_def cancel_recovery_def finish_recovery_def Let_def split: option.split)
  with stepped.IH show ?case
    by simp
qed

lemma terminal_final:
  assumes "recovery_inv now m" "terminal m"
  shows "mr_current (recovery_step ev m) = mr_current m"
proof -
  have over: "end_recovery state e m = m" for state e
    using assms(2) by (simp add: end_recovery_def)
  have off: "\<not> mr_timer m" "\<not> mr_listening m" "rs_expiresAt (mr_current m) = None" "rs_state (mr_current m) \<notin> {Starting, AwaitingCode, Verifying}"
    using assms by (auto simp: recovery_inv_def terminal_def terminalStates_def)
  then have "expire_due t m = m" for t
    by (simp add: expire_due_def)
  with off show ?thesis
    by (cases ev) (auto simp: over timer_fires_def source_prepare_def source_read_def signal_aborts_def source_cancel_def submit_code_def
        cancel_recovery_def finish_recovery_def Let_def)
qed

text \<open>An accepted code came while the login waited and before the challenge expired.\<close>

lemma submit_in_time:
  assumes inv: "recovery_inv now m" and run: "submit_code code t m = (Inr r, m')" and ok: "ok_time (now + challengeLifetime)"
  shows "rs_state (mr_current m) = AwaitingCode \<and> t < now + challengeLifetime"
proof -
  have waiting: "rs_state (mr_current (expire_due t m)) = AwaitingCode"
    using run by (auto simp: submit_code_def Let_def split: if_splits)
  have stays: "expire_due t m = m"
  proof (rule ccontr)
    assume "expire_due t m \<noteq> m"
    then have "expire_due t m = emit AbortCollection (end_recovery RecoveryExpired (Some OtpExpired) m)"
      by (auto simp: expire_due_def split: option.splits if_splits)
    moreover have "terminal (end_recovery RecoveryExpired (Some OtpExpired) m)"
      by (rule end_recovery_facts [OF inv]) (simp add: terminalStates_def)
    ultimately show False
      using waiting by (simp add: terminal_def terminalStates_def)
  qed
  with waiting have state: "rs_state (mr_current m) = AwaitingCode"
    by simp
  with inv have expires: "rs_expiresAt (mr_current m) = Some (iso_of_time (now + challengeLifetime))"
    by (auto simp: recovery_inv_def terminal_def terminalStates_def)
  have "t < now + challengeLifetime"
  proof (rule ccontr)
    assume "\<not> t < now + challengeLifetime"
    then have "expire_due t m = emit AbortCollection (end_recovery RecoveryExpired (Some OtpExpired) m)"
      using expires date_parse_iso_of_time [OF ok] by (simp add: expire_due_def)
    from arg_cong [OF this, of "\<lambda>m. rs_state (mr_current m)"] stays state show False
      by (simp add: end_recovery_def release_def terminal_def terminalStates_def Let_def split: if_splits)
  qed
  with state show ?thesis
    by blast
qed

text \<open>
  C31: a manual verification hands over one code and ends once. In every state a verification can reach, whatever
  is submitted, cancelled, aborted or timed out and in whatever order, at most one code has been handed to the
  login, of six digits, accepted while the login waited and before three minutes were over. Until it ends it
  holds the provider's lease and stores nothing; when it ends it stores exactly its outcome, gives the lease
  back, and nothing that follows changes the outcome.
\<close>

theorem recovery_hands_over_one_code:
  assumes "recovery_reach provider requestId now leases m" "ok_time (now + challengeLifetime)"
  shows "length (delivered m) \<le> 1 \<and> list_all six_digits (delivered m) \<and>
    (if terminal m then persisted m = [mr_current m] \<and> \<not> hasManualRecoveryLease provider (mr_leases m) \<and>
       (\<forall>ev. mr_current (recovery_step ev m) = mr_current m)
     else persisted m = [] \<and> hasManualRecoveryLease provider (mr_leases m)) \<and>
    (\<forall>code t r m'. submit_code code t m = (Inr r, m') \<longrightarrow> rs_state (mr_current m) = AwaitingCode \<and> t < now + challengeLifetime)"
proof -
  note inv = recovery_reach_inv [OF assms(1)] and provider = recovery_provider [OF assms(1)]
  have "length (delivered m) \<le> 1"
    using inv by (auto simp: recovery_inv_def split: if_splits)
  moreover have "list_all six_digits (delivered m)"
    using inv by (simp add: recovery_inv_def)
  ultimately show ?thesis
    using inv provider terminal_final [OF inv] submit_in_time [OF inv _ assms(2)]
    by (auto simp: recovery_inv_def hasManualRecoveryLease_def)
qed

text \<open>A verification whose login waits, and a code entered a minute after the start.\<close>

definition example_recovery :: "recovery_event list \<Rightarrow> recovery option" where
  "example_recovery evs = (case createManualRecovery (js ''clal'') (js ''request'') 1720598400000 [] of
     Inr (Some m) \<Rightarrow> Some (fold recovery_step evs m) | _ \<Rightarrow> None)"

lemma recovery_run_reach: "recovery_reach p i now ls m \<Longrightarrow> recovery_reach p i now ls (fold recovery_step evs m)"
  by (induction evs arbitrary: m) (auto intro: recovery_reach.stepped)

theorem recovery_hands_over_one_code_witness:
  "\<exists>m. example_recovery [Prepare False, Read False, Submit (js ''123456'') 1720598460000, Finish True RecoveryCollectionFailed] = Some m \<and>
    terminal m \<and> delivered m = [js ''123456''] \<and> persisted m = [mr_current m]"
proof -
  let ?evs = "[Prepare False, Read False, Submit (js ''123456'') 1720598460000, Finish True RecoveryCollectionFailed]"
  obtain m0 where m0: "createManualRecovery (js ''clal'') (js ''request'') 1720598400000 [] = Inr (Some m0)"
    by (auto simp: createManualRecovery_def hasManualRecoveryLease_def to_iso_string_def time_clip_def challengeLifetime_def)
  define m where "m = fold recovery_step ?evs m0"
  have reach: "recovery_reach (js ''clal'') (js ''request'') 1720598400000 [] m"
    unfolding m_def by (intro recovery_run_reach recovery_reach.created m0)
  have m: "terminal m" "delivered m = [js ''123456'']"
  proof -
    have later: "ok_time 1720598580000"
      by (simp add: ok_time_def)
    have "m0 = \<lparr>mr_provider = js ''clal'',
          mr_current = \<lparr>rs_challengeId = js ''request'', rs_state = Starting, rs_expiresAt = Some (iso_of_time 1720598580000), rs_errorCode = None\<rparr>,
          mr_prepared = False, mr_pending = False, mr_timer = True, mr_listening = False, mr_leases = [js ''clal''], mr_effects = []\<rparr>"
      using m0 by (simp add: createManualRecovery_def hasManualRecoveryLease_def to_iso_string_def time_clip_def challengeLifetime_def)
    then show "terminal m" "delivered m = [js ''123456'']"
      by (simp_all add: m_def source_prepare_def source_read_def submit_code_def expire_due_def date_parse_iso_of_time [OF later] six_digits_def
          is_digit_def finish_recovery_def end_recovery_def release_def terminal_def terminalStates_def emit_def Let_def delivered_def List.map_filter_simps)
  qed
  have "ok_time (1720598400000 + challengeLifetime)"
    by (simp add: ok_time_def challengeLifetime_def)
  from recovery_hands_over_one_code [OF reach this] m(1) have "persisted m = [mr_current m]"
    by simp
  with m m0 show ?thesis
    by (intro exI [of _ m]) (simp add: example_recovery_def m_def)
qed

end
