(* ===== verification/InvRuntime.thy ===== *)
theory InvRuntime
  imports InvRecovery
begin

text \<open>
  The investment runtime of one provider, \<^verbatim>\<open>src/investments/runtime.ts\<close>: which collection runs when. An
  asynchronous function is cut at its \<^verbatim>\<open>await\<close>s; each piece is one operation on the state, and the outcome an
  awaited promise settles with is the input of the piece that follows. One clock reading serves a piece. The store and the collector are present;
  opening the store, resolving tokens, the cron library and the status report are left out.
\<close>

section \<open>State\<close>

datatype collection_status = ColOk | ColPartial | ColAuthRequired | ColError | ColSkipped


record maintenance =
  ma_checkedAt :: int
  ma_aborted :: bool

record scheduled_attempt =
  sa_id :: nat
  sa_generation :: nat
  sa_deadline :: int
  sa_timer :: "int option"

text \<open>A run remembers the scheduled attempt that waits for it.\<close>

record inv_run =
  ru_generation :: nat
  ru_aborted :: bool
  ru_manual :: bool
  ru_collecting :: bool
  ru_attempt :: "scheduled_attempt option"

record inv_runtime =
  rt_closed :: bool
  rt_generation :: nat
  rt_db :: inv_db
  rt_running :: "inv_run option"
  rt_lastResult :: "collection_status option"
  rt_lastStartedAt :: "jsstr option"
  rt_lastFinishedAt :: "jsstr option"
  rt_maintaining :: "maintenance option"
  rt_scheduled :: "scheduled_attempt option"
  rt_attempts :: nat
  rt_recovery :: "recovery option"
  rt_collects :: nat

record runtime_env =
  rn_store :: store_env
  rn_enabled :: bool
  rn_manualVerification :: bool
  rn_staleHours :: int

definition recoveryLease :: "runtime_env \<Rightarrow> inv_runtime \<Rightarrow> bool" where
  "recoveryLease env st = (case rt_recovery st of None \<Rightarrow> False
     | Some m \<Rightarrow> hasManualRecoveryLease (provider_text (so_provider (rn_store env))) (mr_leases m))"

section \<open>Effects of a verification\<close>

definition abort_run :: "inv_runtime \<Rightarrow> inv_runtime" where
  "abort_run st = st\<lparr>rt_running := map_option (\<lambda>r. r\<lparr>ru_aborted := True\<rparr>) (rt_running st)\<rparr>"

text \<open>An outcome that cannot be stored is logged and dropped.\<close>

definition run_effect :: "runtime_env \<Rightarrow> recovery_effect \<Rightarrow> inv_runtime \<Rightarrow> inv_runtime" where
  "run_effect env e st =
     (case e of
        Persist r \<Rightarrow> (case finishManualRecoveryRequest (rn_store env) r (rt_db st) of Inl x \<Rightarrow> st | Inr db \<Rightarrow> st\<lparr>rt_db := db\<rparr>)
      | AbortCollection \<Rightarrow> abort_run st
      | _ \<Rightarrow> st)"

definition set_recovery :: "runtime_env \<Rightarrow> recovery \<Rightarrow> recovery \<Rightarrow> inv_runtime \<Rightarrow> inv_runtime" where
  "set_recovery env old new st =
     fold (run_effect env) (drop (length (mr_effects old)) (mr_effects new)) (st\<lparr>rt_recovery := Some new\<rparr>)"

definition with_recovery :: "runtime_env \<Rightarrow> (recovery \<Rightarrow> recovery) \<Rightarrow> inv_runtime \<Rightarrow> inv_runtime" where
  "with_recovery env f st = (case rt_recovery st of None \<Rightarrow> st | Some m \<Rightarrow> set_recovery env m (f m) st)"

section \<open>The end of a scheduled attempt\<close>

definition retryDelay :: int where "retryDelay = 30000"
definition retryWindow :: int where "retryWindow = 600000"

text \<open>What follows the collection of an attempt, or its refusal.\<close>

definition attempt_done :: "scheduled_attempt \<Rightarrow> collection_status option \<Rightarrow> int \<Rightarrow> inv_runtime \<Rightarrow> inv_runtime" where
  "attempt_done a status now st =
     (if rt_closed st \<or> map_option sa_id (rt_scheduled st) \<noteq> Some (sa_id a) \<or> rt_generation st \<noteq> sa_generation a then st
      else if status \<noteq> None \<and> status \<noteq> Some ColSkipped then st\<lparr>rt_scheduled := None\<rparr>
      else if now + retryDelay > sa_deadline a then st\<lparr>rt_scheduled := None\<rparr>
      else st\<lparr>rt_scheduled := Some (a\<lparr>sa_timer := Some (now + retryDelay)\<rparr>)\<rparr>)"

definition attempt_threw :: "scheduled_attempt \<Rightarrow> inv_runtime \<Rightarrow> inv_runtime" where
  "attempt_threw a st = (if map_option sa_id (rt_scheduled st) = Some (sa_id a) then st\<lparr>rt_scheduled := None\<rparr> else st)"

section \<open>Collections\<close>

text \<open>The end of \<^verbatim>\<open>runNow\<close>; a rejected promise keeps the last result and fails a waiting verification.\<close>

definition settle_run :: "runtime_env \<Rightarrow> collection_status option res \<Rightarrow> int \<Rightarrow> inv_runtime \<Rightarrow> inv_runtime" where
  "settle_run env result now st =
     (case rt_running st of
        None \<Rightarrow> st
      | Some r \<Rightarrow>
          let finish = (\<lambda>success code st. if ru_manual r then with_recovery env (finish_recovery success code) st else st);
              finished = (\<lambda>st. st\<lparr>rt_lastFinishedAt := Some (iso_of_time now), rt_running := None\<rparr>);
              resume = (\<lambda>f st. case ru_attempt r of None \<Rightarrow> st | Some a \<Rightarrow> f a st) in
          case result of
            Inr status \<Rightarrow> resume (\<lambda>a. attempt_done a status now)
              (finished (finish (status \<in> {Some ColOk, Some ColPartial})
                (if status = Some ColAuthRequired then OtpMissing else RecoveryCollectionFailed) (st\<lparr>rt_lastResult := status\<rparr>)))
          | Inl e \<Rightarrow> resume attempt_threw (finish False RecoveryCollectionFailed (finished st)))"

text \<open>After a maintenance that was under way: the reserved collection starts, or gives up.\<close>

definition begin_collect :: "runtime_env \<Rightarrow> int \<Rightarrow> inv_runtime \<Rightarrow> inv_runtime" where
  "begin_collect env now st =
     (case rt_running st of
        None \<Rightarrow> st
      | Some r \<Rightarrow>
          if rt_closed st \<or> ru_aborted r \<or> rt_generation st \<noteq> ru_generation r then settle_run env (Inr None) now st
          else st\<lparr>rt_running := Some (r\<lparr>ru_collecting := True\<rparr>), rt_collects := rt_collects st + 1\<rparr>)"

definition run_now :: "runtime_env \<Rightarrow> bool \<Rightarrow> scheduled_attempt option \<Rightarrow> int \<Rightarrow> inv_runtime \<Rightarrow> bool \<times> inv_runtime" where
  "run_now env manual attempt now st =
     (if rt_closed st \<or> rt_running st \<noteq> None \<or> (\<not> manual \<and> recoveryLease env st) then (False, st)
      else
        let st' = st\<lparr>rt_lastStartedAt := Some (iso_of_time now),
          rt_running := Some \<lparr>ru_generation = rt_generation st, ru_aborted = False, ru_manual = manual, ru_collecting = False,
            ru_attempt = attempt\<rparr>\<rparr>
        in (True, if rt_maintaining st = None then begin_collect env now st' else st'))"

datatype collect_outcome = Collected collection_status | CollectThrew

definition collect_settles :: "runtime_env \<Rightarrow> collect_outcome \<Rightarrow> int \<Rightarrow> inv_runtime \<Rightarrow> inv_runtime" where
  "collect_settles env outcome now st =
     (case rt_running st of
        None \<Rightarrow> st
      | Some r \<Rightarrow>
          if \<not> ru_collecting r then st
          else case outcome of
            Collected status \<Rightarrow> settle_run env (Inr (Some status)) now st
          | CollectThrew \<Rightarrow>
              if ru_aborted r then settle_run env (Inr (Some ColError)) now st
              else case recordFailure (rn_store env) SourceError (iso_of_time now) CollectionFailed (rt_db st) of
                Inl e \<Rightarrow> settle_run env (Inl e) now st
              | Inr db \<Rightarrow> settle_run env (Inr (Some ColError)) now (st\<lparr>rt_db := db\<rparr>))"

section \<open>Session maintenance\<close>

datatype renewal = Renewed int | ProfileBusy | RenewalFailed inv_error

definition maintain_begin :: "runtime_env \<Rightarrow> bool \<Rightarrow> int \<Rightarrow> inv_runtime \<Rightarrow> inv_runtime" where
  "maintain_begin env scheduled now st =
     (if rt_closed st \<or> rt_running st \<noteq> None \<or> rt_maintaining st \<noteq> None then st
      else case getSessionState (rn_store env) (rt_db st) of
        Inl e \<Rightarrow> st
      | Inr previous \<Rightarrow>
          if scheduled \<and> se_status previous = SessionAuthRequired then st
          else st\<lparr>rt_maintaining := Some \<lparr>ma_checkedAt = now, ma_aborted = False\<rparr>\<rparr>)"

definition renewed_session :: "int \<Rightarrow> int \<Rightarrow> session_state res" where
  "renewed_session checkedAt seconds = bindE (to_iso_string (time_clip (checkedAt + seconds * 1000))) (\<lambda>expires.
     Inr \<lparr>se_status = SessionActive, se_lastCheckedAt = Some (iso_of_time checkedAt), se_lastRenewedAt = Some (iso_of_time checkedAt),
       se_expiresAt = Some expires, se_errorCode = None\<rparr>)"

definition failed_session :: "int \<Rightarrow> inv_error \<Rightarrow> session_state \<Rightarrow> session_state" where
  "failed_session checkedAt code previous = previous\<lparr>
     se_status := (if code = InvOtpRequired then SessionAuthRequired else SessionError), se_lastCheckedAt := Some (iso_of_time checkedAt),
     se_errorCode := Some code, se_expiresAt := (if code = InvOtpRequired then None else se_expiresAt previous)\<rparr>"

definition renewal_failure :: "runtime_env \<Rightarrow> int \<Rightarrow> inv_error \<Rightarrow> inv_db \<Rightarrow> inv_db res" where
  "renewal_failure env checkedAt code db =
     bindE (getSessionState (rn_store env) db) (\<lambda>previous. setSessionState (rn_store env) (failed_session checkedAt code previous) db)"

definition session_after :: "runtime_env \<Rightarrow> maintenance \<Rightarrow> renewal \<Rightarrow> inv_db \<Rightarrow> inv_db" where
  "session_after env ma outcome db =
     (let failed = (\<lambda>code. case renewal_failure env (ma_checkedAt ma) code db of Inl e \<Rightarrow> db | Inr db' \<Rightarrow> db') in
      case outcome of
        Renewed seconds \<Rightarrow>
          if seconds \<le> 0 \<or> 9007199254740991 < seconds then failed InvalidResponse
          else (case bindE (renewed_session (ma_checkedAt ma) seconds) (\<lambda>st. setSessionState (rn_store env) st db) of
              Inl e \<Rightarrow> failed CollectionFailed | Inr db' \<Rightarrow> db')
      | ProfileBusy \<Rightarrow> db
      | RenewalFailed code \<Rightarrow> failed code)"

definition maintain_settles :: "runtime_env \<Rightarrow> renewal \<Rightarrow> int \<Rightarrow> inv_runtime \<Rightarrow> inv_runtime" where
  "maintain_settles env outcome now st =
     (case rt_maintaining st of
        None \<Rightarrow> st
      | Some ma \<Rightarrow>
          let st' = st\<lparr>rt_maintaining := None, rt_db := (if ma_aborted ma \<or> rt_closed st then rt_db st else session_after env ma outcome (rt_db st))\<rparr> in
          case rt_running st' of
            Some r \<Rightarrow> if ru_collecting r then st' else begin_collect env now st'
          | None \<Rightarrow> st')"

section \<open>Scheduled collections\<close>

definition attempt_scheduled :: "runtime_env \<Rightarrow> scheduled_attempt \<Rightarrow> int \<Rightarrow> inv_runtime \<Rightarrow> inv_runtime" where
  "attempt_scheduled env a now st =
     (if rt_closed st \<or> map_option sa_id (rt_scheduled st) \<noteq> Some (sa_id a) \<or> rt_generation st \<noteq> sa_generation a then st
      else if sa_deadline a < now then st\<lparr>rt_scheduled := None\<rparr>
      else case run_now env False (Some a) now st of
        (True, st') \<Rightarrow> st'
      | (False, st') \<Rightarrow> attempt_done a None now st')"

definition run_scheduled :: "runtime_env \<Rightarrow> int \<Rightarrow> inv_runtime \<Rightarrow> inv_runtime" where
  "run_scheduled env now st =
     (if rt_closed st \<or> rt_scheduled st \<noteq> None then st
      else
        let a = \<lparr>sa_id = rt_attempts st, sa_generation = rt_generation st, sa_deadline = now + retryWindow, sa_timer = None\<rparr>
        in attempt_scheduled env a now (st\<lparr>rt_scheduled := Some a, rt_attempts := rt_attempts st + 1\<rparr>))"

text \<open>The timer holds the time it was set for; it does not fire earlier.\<close>

definition retry_due :: "int \<Rightarrow> inv_runtime \<Rightarrow> scheduled_attempt option" where
  "retry_due now st =
     (case rt_scheduled st of
        None \<Rightarrow> None
      | Some a \<Rightarrow> (case sa_timer a of None \<Rightarrow> None | Some due \<Rightarrow> if due \<le> now then Some (a\<lparr>sa_timer := None\<rparr>) else None))"

definition retry_fires :: "runtime_env \<Rightarrow> int \<Rightarrow> inv_runtime \<Rightarrow> inv_runtime" where
  "retry_fires env now st =
     (case retry_due now st of None \<Rightarrow> st | Some a \<Rightarrow> attempt_scheduled env a now (st\<lparr>rt_scheduled := Some a\<rparr>))"

section \<open>Stopping\<close>

definition stop_runtime :: "runtime_env \<Rightarrow> inv_runtime \<Rightarrow> inv_runtime" where
  "stop_runtime env st =
     (let st1 = st\<lparr>rt_generation := rt_generation st + 1, rt_scheduled := None,
            rt_maintaining := map_option (\<lambda>m. m\<lparr>ma_aborted := True\<rparr>) (rt_maintaining st)\<rparr>;
          st2 = with_recovery env (if rt_running st1 = None then id else signal_aborts) (abort_run st1)
      in with_recovery env (\<lambda>m. snd (cancel_recovery m)) st2)"

definition close_runtime :: "runtime_env \<Rightarrow> inv_runtime \<Rightarrow> inv_runtime" where
  "close_runtime env st = (if rt_closed st then st else stop_runtime env (st\<lparr>rt_closed := True\<rparr>))"

section \<open>Control requests\<close>

datatype control_error =
    SourceIdentityMismatch
  | ControlUnavailable
  | RefreshRateLimited int
  | Refused recovery_refusal

datatype refresh_result = RefreshStarted | AlreadyRunning

definition provider_of :: "runtime_env \<Rightarrow> jsstr" where
  "provider_of env = provider_text (so_provider (rn_store env))"

text \<open>An exception of the store reaches the router, which answers that the control is unavailable.\<close>

definition controlRefresh :: "runtime_env \<Rightarrow> jsstr \<Rightarrow> int \<Rightarrow> inv_runtime \<Rightarrow> (control_error + refresh_result) res \<times> inv_runtime" where
  "controlRefresh env requested now st =
     (if rt_closed st \<or> \<not> rn_enabled env then (Inr (Inl ControlUnavailable), st)
      else case getFeed (rn_store env) now (rn_staleHours env) (rt_db st) of
        Inl e \<Rightarrow> (Inl e, st)
      | Inr feed \<Rightarrow>
          if requested \<noteq> provider_text (io_provider (fd_source feed)) then (Inr (Inl SourceIdentityMismatch), st)
          else if rt_running st \<noteq> None then (Inr (Inr AlreadyRunning), st)
          else case consumeControlRefreshAttempt (rn_store env) (iso_of_time now) (rt_db st) of
            Inl e \<Rightarrow> (Inl e, st)
          | Inr ((allowed, wait), db) \<Rightarrow>
              if \<not> allowed then (Inr (Inl (RefreshRateLimited wait)), st\<lparr>rt_db := db\<rparr>)
              else (Inr (Inr RefreshStarted), snd (run_now env False None now (st\<lparr>rt_db := db\<rparr>))))"

definition recoveryAvailability :: "runtime_env \<Rightarrow> jsstr \<Rightarrow> inv_runtime \<Rightarrow> control_error option" where
  "recoveryAvailability env requested st =
     (if rt_closed st \<or> \<not> rn_manualVerification env then Some ControlUnavailable
      else if requested = provider_of env then None else Some SourceIdentityMismatch)"

definition current_challenge :: "inv_runtime \<Rightarrow> jsstr option" where
  "current_challenge st = map_option (\<lambda>m. rs_challengeId (mr_current m)) (rt_recovery st)"

definition start_reserved :: "runtime_env \<Rightarrow> jsstr \<Rightarrow> int \<Rightarrow> inv_runtime \<Rightarrow> (control_error + recovery_status) res \<times> inv_runtime" where
  "start_reserved env requestId now st =
     (case createManualRecovery (provider_of env) requestId now (case rt_recovery st of None \<Rightarrow> [] | Some m \<Rightarrow> mr_leases m) of
        Inl e \<Rightarrow> (Inl e, st)
      | Inr None \<Rightarrow> (Inr (Inl (Refused RecoveryInProgress)), st)
      | Inr (Some m) \<Rightarrow> (Inr (Inr (mr_current m)), snd (run_now env True None now (st\<lparr>rt_recovery := Some m\<rparr>))))"

definition controlStartRecovery :: "runtime_env \<Rightarrow> jsstr \<Rightarrow> jsstr \<Rightarrow> int \<Rightarrow> inv_runtime \<Rightarrow> (control_error + recovery_status) res \<times> inv_runtime" where
  "controlStartRecovery env requested requestId now st =
     (case recoveryAvailability env requested st of
        Some e \<Rightarrow> (Inr (Inl e), st)
      | None \<Rightarrow>
          if current_challenge st = Some requestId
          then (Inr (Inr (mr_current (the (rt_recovery st)))), st)
          else case getManualRecoveryRequest (rn_store env) requestId (rt_db st) of
            Inl e \<Rightarrow> (Inl e, st)
          | Inr (Some previous) \<Rightarrow> (Inr (Inr previous), st)
          | Inr None \<Rightarrow>
              if rt_running st \<noteq> None \<or> recoveryLease env st then (Inr (Inl (Refused RecoveryInProgress)), st)
              else case consumeControlRefreshAttempt (rn_store env) (iso_of_time now) (rt_db st) of
                Inl e \<Rightarrow> (Inl e, st)
              | Inr ((allowed, wait), db) \<Rightarrow>
                  if \<not> allowed then (Inr (Inl (RefreshRateLimited wait)), st\<lparr>rt_db := db\<rparr>)
                  else case reserveManualRecoveryRequest (rn_store env) requestId (iso_of_time now) db of
                    Inl e \<Rightarrow> (Inl e, st\<lparr>rt_db := db\<rparr>)
                  | Inr ((created, reserved), db') \<Rightarrow>
                      if \<not> created then (Inr (Inr reserved), st\<lparr>rt_db := db'\<rparr>)
                      else start_reserved env requestId now (st\<lparr>rt_db := db'\<rparr>))"

definition recovery_outcome :: "(recovery_refusal + recovery_status) \<Rightarrow> control_error + recovery_status" where
  "recovery_outcome r = (case r of Inl e \<Rightarrow> Inl (Refused e) | Inr x \<Rightarrow> Inr x)"

definition stored_action :: "runtime_env \<Rightarrow> jsstr \<Rightarrow> jsstr option \<Rightarrow> inv_runtime \<Rightarrow> (control_error + recovery_status) res \<times> inv_runtime" where
  "stored_action env requestId code st =
     (case getManualRecoveryRequest (rn_store env) requestId (rt_db st) of
        Inl e \<Rightarrow> (Inl e, st)
      | Inr None \<Rightarrow> (Inr (Inl (Refused RecoveryNotFound)), st)
      | Inr (Some previous) \<Rightarrow>
          if rs_state previous = RecoveryCanceled \<and> code = None then (Inr (Inr previous), st)
          else (Inr (Inl (Refused (if rs_state previous = RecoveryExpired then RecoveryWasExpired else RecoveryNotWaiting))), st))"

text \<open>A code submits it, none cancels.\<close>

definition controlRecoveryAction :: "runtime_env \<Rightarrow> jsstr \<Rightarrow> jsstr \<Rightarrow> jsstr option \<Rightarrow> int \<Rightarrow> inv_runtime \<Rightarrow> (control_error + recovery_status) res \<times> inv_runtime" where
  "controlRecoveryAction env requested requestId code now st =
     (case recoveryAvailability env requested st of
        Some e \<Rightarrow> (Inr (Inl e), st)
      | None \<Rightarrow>
          case rt_recovery st of
            Some m \<Rightarrow>
              if rs_challengeId (mr_current m) = requestId
              then (case (case code of None \<Rightarrow> cancel_recovery m | Some c \<Rightarrow> submit_code c now m) of
                (r, m') \<Rightarrow> (Inr (recovery_outcome r), set_recovery env m m' st))
              else stored_action env requestId code st
          | None \<Rightarrow> stored_action env requestId code st)"

section \<open>Events\<close>

datatype runtime_event =
    RunNow
  | CollectSettles collect_outcome
  | MaintainSession bool
  | MaintainSettles renewal
  | CronFires
  | RetryFires
  | Refresh jsstr
  | StartRecovery jsstr jsstr
  | RecoveryAction jsstr jsstr "jsstr option"
  | LoginStep recovery_event
  | StopRuntime
  | CloseRuntime

fun runtime_step :: "runtime_env \<Rightarrow> int \<times> runtime_event \<Rightarrow> inv_runtime \<Rightarrow> inv_runtime" where
  "runtime_step env (now, RunNow) st = snd (run_now env False None now st)"
| "runtime_step env (now, CollectSettles outcome) st = collect_settles env outcome now st"
| "runtime_step env (now, MaintainSession scheduled) st = maintain_begin env scheduled now st"
| "runtime_step env (now, MaintainSettles outcome) st = maintain_settles env outcome now st"
| "runtime_step env (now, CronFires) st = run_scheduled env now st"
| "runtime_step env (now, RetryFires) st = retry_fires env now st"
| "runtime_step env (now, Refresh requested) st = snd (controlRefresh env requested now st)"
| "runtime_step env (now, StartRecovery requested requestId) st = snd (controlStartRecovery env requested requestId now st)"
| "runtime_step env (now, RecoveryAction requested requestId code) st = snd (controlRecoveryAction env requested requestId code now st)"
| "runtime_step env (now, LoginStep ev) st = with_recovery env (recovery_step ev) st"
| "runtime_step env (now, StopRuntime) st = stop_runtime env st"
| "runtime_step env (now, CloseRuntime) st = close_runtime env st"

definition initial_runtime :: "inv_db \<Rightarrow> inv_runtime" where
  "initial_runtime db = \<lparr>rt_closed = False, rt_generation = 0, rt_db = db, rt_running = None, rt_lastResult = None, rt_lastStartedAt = None,
     rt_lastFinishedAt = None, rt_maintaining = None, rt_scheduled = None, rt_attempts = 0, rt_recovery = None, rt_collects = 0\<rparr>"

end
