(* ===== verification/InvRuntimeProofs.thy ===== *)
theory InvRuntimeProofs
  imports InvRuntime
begin

text \<open>
  The collections of the investment runtime: one at a time, none after closing, and a scheduled collection that
  gives up after at most twenty retries.
\<close>

section \<open>What leaves the collection alone\<close>

definition collecting :: "inv_runtime \<Rightarrow> bool" where
  "collecting st = (case rt_running st of None \<Rightarrow> False | Some r \<Rightarrow> ru_collecting r)"

text \<open>The part of a run that only the collection itself changes.\<close>

definition run_view :: "inv_runtime \<Rightarrow> (bool \<times> scheduled_attempt option) option" where
  "run_view st = map_option (\<lambda>r. (ru_collecting r, ru_attempt r)) (rt_running st)"

definition same_flight :: "inv_runtime \<Rightarrow> inv_runtime \<Rightarrow> bool" where
  "same_flight st st' \<longleftrightarrow> rt_collects st' = rt_collects st \<and> rt_closed st' = rt_closed st \<and> rt_scheduled st' = rt_scheduled st \<and>
     rt_attempts st' = rt_attempts st \<and> rt_generation st' = rt_generation st \<and> run_view st' = run_view st"

lemma same_flight_refl [simp]: "same_flight st st"
  by (simp add: same_flight_def)

lemma same_flight_trans: "same_flight a b \<Longrightarrow> same_flight b c \<Longrightarrow> same_flight a c"
  by (simp add: same_flight_def)

lemma same_flight_db [simp]: "same_flight a (b\<lparr>rt_db := db\<rparr>) = same_flight a b" "same_flight a (b\<lparr>rt_recovery := m\<rparr>) = same_flight a b"
  "same_flight a (b\<lparr>rt_lastResult := x\<rparr>) = same_flight a b" "same_flight a (b\<lparr>rt_maintaining := y\<rparr>) = same_flight a b"
  "same_flight a (b\<lparr>rt_lastStartedAt := t\<rparr>) = same_flight a b" "same_flight a (b\<lparr>rt_lastFinishedAt := t\<rparr>) = same_flight a b"
  by (simp_all add: same_flight_def run_view_def)

lemma same_flight_abort [simp]: "same_flight st (abort_run st)"
  by (simp add: same_flight_def abort_run_def run_view_def option.map_comp comp_def)

lemma same_flight_effects: "same_flight st (fold (run_effect env) es st)"
proof (induction es arbitrary: st)
  case (Cons e es)
  have "same_flight st (run_effect env e st)"
    by (auto simp: run_effect_def split: recovery_effect.split sum.split)
  from same_flight_trans [OF this Cons.IH] show ?case
    by simp
qed simp

lemma same_flight_recovery [simp]: "same_flight st (set_recovery env old new st)" "same_flight st (with_recovery env f st)"
proof -
  show set: "same_flight st (set_recovery env old new st)" for old new
    using same_flight_effects [of "st\<lparr>rt_recovery := Some new\<rparr>" env]
    by (auto simp: set_recovery_def same_flight_def run_view_def)
  show "same_flight st (with_recovery env f st)"
    by (auto simp: with_recovery_def set split: option.split)
qed

lemma collecting_view: "collecting st = (case run_view st of None \<Rightarrow> False | Some v \<Rightarrow> fst v)"
  by (simp add: collecting_def run_view_def split: option.split)

section \<open>One collection at a time\<close>

text \<open>What one event may do to the collections: start one when none is under way, or end the one there is.\<close>

definition flies :: "bool \<Rightarrow> inv_runtime \<Rightarrow> inv_runtime \<Rightarrow> bool" where
  "flies settles st st' \<longleftrightarrow> (rt_closed st \<longrightarrow> rt_closed st') \<and>
     (rt_collects st' = rt_collects st \<and> (collecting st' \<longrightarrow> collecting st) \<and> (collecting st \<and> \<not> collecting st' \<longrightarrow> settles) \<or>
      rt_collects st' = rt_collects st + 1 \<and> \<not> collecting st \<and> collecting st' \<and> \<not> rt_closed st)"

lemma flies_same: "same_flight st st' \<Longrightarrow> flies b st st'"
  by (simp add: flies_def same_flight_def collecting_view)

lemma flies_after: "same_flight st st1 \<Longrightarrow> flies b st1 st2 \<Longrightarrow> flies b st st2"
  by (auto simp: flies_def same_flight_def collecting_view)

lemma flies_before: "flies b st st1 \<Longrightarrow> same_flight st1 st2 \<Longrightarrow> flies b st st2"
  by (auto simp: flies_def same_flight_def collecting_view)

lemma attempt_flight: "flies b st st' \<Longrightarrow> flies b st (attempt_done a status now st')" "flies b st st' \<Longrightarrow> flies b st (attempt_threw a st')"
  by (auto simp: attempt_done_def attempt_threw_def flies_def collecting_def)

lemma settle_flight:
  assumes "rt_running st = Some r" "ru_collecting r \<Longrightarrow> b"
  shows "flies b st (settle_run env result now st)"
proof -
  have ends: "flies b st (st'\<lparr>rt_lastFinishedAt := t, rt_running := None\<rparr>)" if "same_flight st st'" for st' t
    using that assms by (auto simp: flies_def same_flight_def collecting_def)
  have finish: "same_flight st (if ru_manual r then with_recovery env f st' else st')" if "same_flight st st'" for f st'
    using that same_flight_trans by simp
  show ?thesis
  proof (cases result)
    case (Inl e)
    have "flies b st (if ru_manual r then with_recovery env (finish_recovery False RecoveryCollectionFailed) (st\<lparr>rt_lastFinishedAt := Some (iso_of_time now), rt_running := None\<rparr>)
        else st\<lparr>rt_lastFinishedAt := Some (iso_of_time now), rt_running := None\<rparr>)"
      using ends [OF same_flight_refl] flies_before [OF ends [OF same_flight_refl] same_flight_recovery(2)] by simp
    then show ?thesis
      using assms(1) Inl by (auto simp: settle_run_def Let_def intro: attempt_flight split: option.split)
  next
    case (Inr status)
    have "same_flight st (st\<lparr>rt_lastResult := status\<rparr>)"
      by simp
    from ends [OF finish [OF this]] show ?thesis
      using assms(1) Inr by (auto simp: settle_run_def Let_def intro: attempt_flight split: option.split)
  qed
qed

lemma begin_flight:
  assumes "\<not> collecting st"
  shows "flies b st (begin_collect env now st)"
proof (cases "rt_running st")
  case None
  then show ?thesis
    by (simp add: begin_collect_def flies_same)
next
  case (Some r)
  with assms have "\<not> ru_collecting r"
    by (simp add: collecting_def)
  with Some settle_flight [OF Some] show ?thesis
    by (auto simp: begin_collect_def flies_def collecting_def)
qed

lemma run_now_flight: "flies b st (snd (run_now env manual a now st))"
proof (cases "rt_running st = None")
  case True
  define st' where "st' = st\<lparr>rt_lastStartedAt := Some (iso_of_time now), rt_running := Some \<lparr>ru_generation = rt_generation st, ru_aborted = False,
      ru_manual = manual, ru_collecting = False, ru_attempt = a\<rparr>\<rparr>"
  have idle: "flies b st st'" "\<not> collecting st'"
    using True by (simp_all add: st'_def flies_def collecting_def)
  have "flies b st (begin_collect env now st')"
    using begin_flight [OF idle(2), of b env now] idle True by (auto simp: flies_def collecting_def st'_def)
  with idle(1) True show ?thesis
    by (auto simp: run_now_def st'_def [symmetric] Let_def flies_same)
next
  case False
  then show ?thesis
    by (simp add: run_now_def flies_same)
qed

lemma attempt_scheduled_flight: "flies b st (attempt_scheduled env a now st)"
proof -
  have drop: "flies b st (st\<lparr>rt_scheduled := None\<rparr>)"
    by (simp add: flies_def collecting_def)
  show ?thesis
    using run_now_flight [of b st env False "Some a" now]
    by (auto simp: attempt_scheduled_def flies_same drop attempt_flight split: prod.split bool.split)
qed

lemma run_scheduled_flight: "flies b st (run_scheduled env now st)"
proof -
  have "flies b st (attempt_scheduled env a now (st\<lparr>rt_scheduled := x, rt_attempts := n\<rparr>))" for a x n
    using attempt_scheduled_flight [of b "st\<lparr>rt_scheduled := x, rt_attempts := n\<rparr>" env a now] by (simp add: flies_def collecting_def)
  then show ?thesis
    by (simp add: run_scheduled_def Let_def flies_same)
qed

lemma retry_fires_flight: "flies b st (retry_fires env now st)"
proof -
  have "flies b st (attempt_scheduled env a now (st\<lparr>rt_scheduled := x\<rparr>))" for a x
    using attempt_scheduled_flight [of b "st\<lparr>rt_scheduled := x\<rparr>" env a now] by (simp add: flies_def collecting_def)
  then show ?thesis
    by (simp add: retry_fires_def flies_same split: option.split)
qed

lemma collect_settles_flight: "flies True st (collect_settles env outcome now st)"
proof (cases "rt_running st")
  case None
  then show ?thesis
    by (simp add: collect_settles_def flies_same)
next
  case (Some r)
  have "flies True st (settle_run env x now (st\<lparr>rt_db := db\<rparr>))" for x db
    using settle_flight [of "st\<lparr>rt_db := db\<rparr>" r True env x now] Some by (simp add: flies_def collecting_def)
  with Some show ?thesis
    using settle_flight [OF Some, of True] by (simp add: collect_settles_def flies_same split: collect_outcome.split sum.split)
qed

lemma maintain_flight: "flies b st (maintain_begin env scheduled now st)" "flies b st (maintain_settles env renewal now st)"
proof -
  show "flies b st (maintain_begin env scheduled now st)"
    by (auto simp: maintain_begin_def flies_same split: sum.split)
  show "flies b st (maintain_settles env renewal now st)"
  proof (cases "rt_maintaining st")
    case None
    then show ?thesis
      by (simp add: maintain_settles_def flies_same)
  next
    case (Some ma)
    have begun: "flies b st (begin_collect env now st')" if "same_flight st st'" "\<not> collecting st" for st'
      using that begin_flight [of st'] flies_after by (simp add: same_flight_def collecting_view)
    show ?thesis
    proof (cases "rt_running st")
      case None
      with Some show ?thesis
        by (simp add: maintain_settles_def Let_def flies_same)
    next
      case (Some r)
      with \<open>rt_maintaining st = Some ma\<close> show ?thesis
        by (simp add: maintain_settles_def Let_def flies_same begun collecting_def)
    qed
  qed
qed

lemma run_now_flight_db: "flies b st (snd (run_now env manual a now (st\<lparr>rt_db := db\<rparr>)))"
    "flies b st (snd (run_now env manual a now (st\<lparr>rt_db := db, rt_recovery := m\<rparr>)))"
  by (rule flies_after [OF _ run_now_flight]; simp)+

lemma control_flight: "flies b st (snd (controlRefresh env requested now st))"
    "flies b st (snd (controlStartRecovery env requested requestId now st))"
    "flies b st (snd (controlRecoveryAction env requested requestId code now st))"
proof -
  show "flies b st (snd (controlRefresh env requested now st))"
    by (simp add: controlRefresh_def flies_same run_now_flight_db split: sum.split prod.split)
  have start: "flies b st (snd (start_reserved env requestId now (st\<lparr>rt_db := db\<rparr>)))" for db
    by (simp add: start_reserved_def flies_same run_now_flight_db split: sum.split option.split)
  show "flies b st (snd (controlStartRecovery env requested requestId now st))"
    by (simp add: controlStartRecovery_def flies_same start split: sum.split option.split prod.split)
  have stored: "snd (stored_action env requestId code st) = st"
    by (simp add: stored_action_def split: sum.split option.split)
  show "flies b st (snd (controlRecoveryAction env requested requestId code now st))"
    by (simp add: controlRecoveryAction_def flies_same stored split: option.split prod.split)
qed

lemma stop_flight: "flies b st (stop_runtime env st)" "flies b st (close_runtime env st)"
proof -
  have view: "rt_collects (stop_runtime env st') = rt_collects st' \<and> rt_closed (stop_runtime env st') = rt_closed st' \<and>
      run_view (stop_runtime env st') = run_view st'" for st'
  proof -
    define st1 where "st1 = st'\<lparr>rt_generation := rt_generation st' + 1, rt_scheduled := None,
        rt_maintaining := map_option (\<lambda>m. m\<lparr>ma_aborted := True\<rparr>) (rt_maintaining st')\<rparr>"
    have "same_flight st1 (stop_runtime env st')"
      unfolding stop_runtime_def Let_def st1_def [symmetric]
      by (rule same_flight_trans [OF same_flight_trans [OF same_flight_abort same_flight_recovery(2)] same_flight_recovery(2)])
    then show ?thesis
      by (simp add: same_flight_def st1_def run_view_def)
  qed
  then show "flies b st (stop_runtime env st)"
    by (simp add: flies_def collecting_view)
  have shut: "run_view (st\<lparr>rt_closed := True\<rparr>) = run_view st"
    by (simp add: run_view_def)
  show "flies b st (close_runtime env st)"
    using view [of "st\<lparr>rt_closed := True\<rparr>"] shut by (simp add: close_runtime_def flies_def collecting_view)
qed

definition settles :: "runtime_event \<Rightarrow> bool" where
  "settles ev = (case ev of CollectSettles outcome \<Rightarrow> True | _ \<Rightarrow> False)"

lemma step_flight: "flies (settles ev) st (runtime_step env (now, ev) st)"
  by (cases ev) (simp_all add: settles_def run_now_flight collect_settles_flight maintain_flight run_scheduled_flight retry_fires_flight
    control_flight flies_same stop_flight)

lemma settle_idle [simp]: "rt_running st \<noteq> None \<Longrightarrow> rt_running (settle_run env result now st) = None"
proof -
  have ends: "rt_running (attempt_done a status now st') = rt_running st'" "rt_running (attempt_threw a st') = rt_running st'" for a status st'
    by (simp_all add: attempt_done_def attempt_threw_def)
  have view: "rt_running (with_recovery env f st') = None \<longleftrightarrow> rt_running st' = None" for f st'
    using same_flight_recovery(2) [of st' env f] by (cases "rt_running (with_recovery env f st')"; cases "rt_running st'") (auto simp: same_flight_def run_view_def)
  assume "rt_running st \<noteq> None"
  then show ?thesis
    by (auto simp: settle_run_def Let_def ends view split: sum.split option.split)
qed

lemma collect_lands: "collecting st \<Longrightarrow> \<not> collecting (collect_settles env outcome now st)"
  by (auto simp: collect_settles_def collecting_def split: option.splits collect_outcome.split sum.split)

text \<open>The collections that ended within a run of events.\<close>

fun landed :: "runtime_env \<Rightarrow> (int \<times> runtime_event) list \<Rightarrow> inv_runtime \<Rightarrow> nat" where
  "landed env [] st = 0"
| "landed env (ev # evs) st = (if collecting st \<and> settles (snd ev) then 1 else 0) + landed env evs (runtime_step env ev st)"

lemma step_counts: "rt_collects (runtime_step env ev st) + (if collecting st then 1 else 0) =
    rt_collects st + (if collecting (runtime_step env ev st) then 1 else 0) + (if collecting st \<and> settles (snd ev) then 1 else 0)"
proof (cases "settles (snd ev)")
  case True
  then obtain t outcome where ev: "ev = (t, CollectSettles outcome)"
    by (cases ev; cases "snd ev") (auto simp: settles_def)
  then show ?thesis
    using step_flight [of "CollectSettles outcome" st env t] collect_lands [of st env outcome t] True by (auto simp: flies_def)
next
  case False
  then show ?thesis
    using step_flight [of "snd ev" st env "fst ev"] by (auto simp: flies_def)
qed

lemma run_counts: "rt_collects (fold (runtime_step env) evs st) + (if collecting st then 1 else 0) =
    rt_collects st + (if collecting (fold (runtime_step env) evs st) then 1 else 0) + landed env evs st"
proof (induction evs arbitrary: st)
  case (Cons ev evs)
  show ?case
    using Cons.IH [of "runtime_step env ev st"] step_counts [of env ev st] by simp
qed simp

lemma closed_run: "rt_closed st \<Longrightarrow> rt_collects (fold (runtime_step env) evs st) = rt_collects st"
proof (induction evs arbitrary: st)
  case (Cons ev evs)
  then show ?case
    using step_flight [of "snd ev" st env "fst ev"] by (auto simp: flies_def)
qed simp

lemma close_closes: "rt_closed (close_runtime env st) \<and> rt_collects (close_runtime env st) = rt_collects st"
proof (cases "rt_closed st")
  case False
  define st1 where "st1 = st\<lparr>rt_closed := True, rt_generation := rt_generation st + 1, rt_scheduled := None,
      rt_maintaining := map_option (\<lambda>m. m\<lparr>ma_aborted := True\<rparr>) (rt_maintaining st)\<rparr>"
  have "same_flight st1 (close_runtime env st)"
    using False same_flight_trans [OF same_flight_trans [OF same_flight_abort same_flight_recovery(2)] same_flight_recovery(2)]
    by (simp add: close_runtime_def stop_runtime_def Let_def st1_def)
  then show ?thesis
    by (simp add: same_flight_def st1_def)
qed (simp add: close_runtime_def)

text \<open>C32: the collector is called only while none of its calls is pending: over any sequence of refreshes, cron
  ticks, retries, session checks, verifications, stops and settled promises, the calls made are exactly the calls that ended
  plus the one under way. After closing, nothing calls it again.\<close>

theorem one_collection_at_a_time:
  "rt_collects (fold (runtime_step env) evs (initial_runtime db)) =
     landed env evs (initial_runtime db) + (if collecting (fold (runtime_step env) evs (initial_runtime db)) then 1 else 0) \<and>
   rt_collects (fold (runtime_step env) (evs @ (t, CloseRuntime) # later) (initial_runtime db)) =
     rt_collects (fold (runtime_step env) evs (initial_runtime db))"
  using run_counts [of env evs "initial_runtime db"] closed_run [of "close_runtime env (fold (runtime_step env) evs (initial_runtime db))"] close_closes
  by (simp add: collecting_def initial_runtime_def)

end
