(* ===== verification/InvRetries.thy ===== *)
theory InvRetries
  imports InvRuntimeProofs InvAllowance
begin

text \<open>
  A scheduled collection that finds the profile busy is tried again every thirty seconds for ten minutes: the
  retries of one occurrence are bounded, by a potential that every event lowers or keeps.
\<close>

section \<open>The attempt and the run that serves it\<close>

definition attempt_ok :: "scheduled_attempt \<Rightarrow> inv_runtime \<Rightarrow> bool" where
  "attempt_ok a st \<longleftrightarrow> sa_id a < rt_attempts st \<and> sa_timer a = None \<and> (\<forall>b. rt_scheduled st = Some b \<longrightarrow> sa_id b = sa_id a \<longrightarrow> b = a)"

definition timer_ok :: "inv_runtime \<Rightarrow> bool" where
  "timer_ok st \<longleftrightarrow> (\<forall>b d. rt_scheduled st = Some b \<longrightarrow> sa_id b < rt_attempts st \<and> (sa_timer b = Some d \<longrightarrow> d \<le> sa_deadline b))"

definition retry_inv :: "inv_runtime \<Rightarrow> bool" where
  "retry_inv st \<longleftrightarrow> timer_ok st \<and> (\<forall>r a. rt_running st = Some r \<longrightarrow> ru_attempt r = Some a \<longrightarrow> attempt_ok a st)"

text \<open>How many retries the occurrence \<^term>\<open>n\<close> still has at a time.\<close>

definition retries_left :: "nat \<Rightarrow> int \<Rightarrow> inv_runtime \<Rightarrow> int" where
  "retries_left n now st =
     (if rt_attempts st \<le> n then 20
      else case rt_scheduled st of
        None \<Rightarrow> 0
      | Some a \<Rightarrow>
          if sa_id a \<noteq> n then 0
          else case sa_timer a of
            None \<Rightarrow> max 0 ((sa_deadline a - now) div 30000)
          | Some due \<Rightarrow> 1 + (sa_deadline a - due) div 30000)"

definition wanes :: "nat \<Rightarrow> int \<Rightarrow> inv_runtime \<Rightarrow> inv_runtime \<Rightarrow> bool" where
  "wanes n now st st' \<longleftrightarrow> (retry_inv st \<longrightarrow> retry_inv st' \<and> retries_left n now st' \<le> retries_left n now st)"

lemma wanes_trans: "wanes n now a b \<Longrightarrow> wanes n now b c \<Longrightarrow> wanes n now a c"
  by (auto simp: wanes_def)

lemma attempt_ok_same: "same_flight st st' \<Longrightarrow> attempt_ok a st' = attempt_ok a st"
  by (simp add: attempt_ok_def same_flight_def)

lemma run_attempt_view: "(\<exists>r. rt_running st = Some r \<and> ru_attempt r = Some a) \<longleftrightarrow> (\<exists>c. run_view st = Some (c, Some a))"
  by (auto simp: run_view_def)

lemma retry_inv_view: "retry_inv st \<longleftrightarrow> timer_ok st \<and> (\<forall>c a. run_view st = Some (c, Some a) \<longrightarrow> attempt_ok a st)"
  using run_attempt_view unfolding retry_inv_def by blast

lemma wanes_same: "same_flight st st' \<Longrightarrow> wanes n now st st'"
  by (simp add: wanes_def retry_inv_view attempt_ok_same) (simp add: same_flight_def timer_ok_def retries_left_def)

lemma retries_left_nonneg: "timer_ok st \<Longrightarrow> 0 \<le> retries_left n now st"
  by (auto simp: retries_left_def timer_ok_def pos_imp_zdiv_nonneg_iff split: option.split)

lemma drop_scheduled: "wanes n now st (st\<lparr>rt_scheduled := None\<rparr>)"
  using retries_left_nonneg [of st n now]
  by (auto simp: wanes_def retry_inv_def timer_ok_def attempt_ok_def retries_left_def)

definition free_of :: "scheduled_attempt \<Rightarrow> inv_runtime \<Rightarrow> bool" where
  "free_of a st \<longleftrightarrow> (\<forall>r b. rt_running st = Some r \<longrightarrow> ru_attempt r = Some b \<longrightarrow> sa_id b \<noteq> sa_id a)"

lemma attempt_threw_wanes: "wanes n now st (attempt_threw a st)"
  using drop_scheduled by (simp add: attempt_threw_def wanes_same)

lemma attempt_waits:
  assumes "attempt_ok a st" "free_of a st" "rt_scheduled st = Some a" "now + retryDelay \<le> sa_deadline a"
  shows "wanes n now st (st\<lparr>rt_scheduled := Some (a\<lparr>sa_timer := Some (now + retryDelay)\<rparr>)\<rparr>)" (is "wanes n now st ?st")
proof -
  have fewer: "1 + (sa_deadline a - (now + 30000)) div 30000 = (sa_deadline a - now) div 30000"
    using div_add_self2 [of 30000 "sa_deadline a - (now + 30000)"] by simp
  have left: "retries_left n now ?st \<le> retries_left n now st"
    using assms fewer by (simp add: retries_left_def retryDelay_def attempt_ok_def)
  have timer: "timer_ok ?st"
    using assms by (simp add: timer_ok_def attempt_ok_def)
  have "attempt_ok b ?st" if "rt_running st = Some r" "ru_attempt r = Some b" "retry_inv st" for r b
    using that assms by (auto simp: retry_inv_def attempt_ok_def free_of_def)
  with timer left show ?thesis
    by (simp add: wanes_def retry_inv_def)
qed

lemma attempt_done_wanes:
  assumes "attempt_ok a st" "free_of a st"
  shows "wanes n now st (attempt_done a status now st)"
proof -
  have current: "rt_scheduled st = Some a" if "map_option sa_id (rt_scheduled st) = Some (sa_id a)"
    using that assms(1) by (auto simp: attempt_ok_def)
  show ?thesis
    using attempt_waits [OF assms current] drop_scheduled [of n now st] by (auto simp: attempt_done_def wanes_same)
qed

section \<open>Every event\<close>

lemma with_recovery_fields [simp]: "rt_scheduled (with_recovery env g st) = rt_scheduled st" "rt_attempts (with_recovery env g st) = rt_attempts st"
    "(rt_running (with_recovery env g st) = None) = (rt_running st = None)"
  using same_flight_recovery(2) [of st env g]
  by (cases "rt_running (with_recovery env g st)"; cases "rt_running st"; auto simp: same_flight_def run_view_def)+

lemma settle_wanes:
  "wanes n now st (settle_run env result now st)"
proof (cases "rt_running st")
  case None
  then show ?thesis
    by (simp add: settle_run_def wanes_same)
next
  case (Some r)
  have rests: "wanes n now st st' \<and> (\<forall>a. ru_attempt r = Some a \<longrightarrow> wanes n now st (attempt_done a x now st') \<and> wanes n now st (attempt_threw a st'))"
    if flight: "rt_scheduled st' = rt_scheduled st" "rt_attempts st' = rt_attempts st" "rt_running st' = None" for st' x
  proof (cases "retry_inv st")
    case True
    have still: "wanes n now st st'"
      using True flight by (simp add: wanes_def retry_inv_def timer_ok_def retries_left_def)
    have "attempt_ok a st' \<and> free_of a st'" if "ru_attempt r = Some a" for a
      using that True flight Some by (simp add: retry_inv_def attempt_ok_def free_of_def)
    with still show ?thesis
      by (blast intro: wanes_trans attempt_done_wanes attempt_threw_wanes)
  qed (simp add: wanes_def)
  show ?thesis
    using Some rests by (cases result; cases "ru_attempt r") (simp_all add: settle_run_def Let_def)
qed

lemma begin_wanes: "wanes n now st (begin_collect env now st)"
proof (cases "rt_running st")
  case None
  then show ?thesis
    by (simp add: begin_collect_def wanes_same)
next
  case (Some r)
  have "wanes n now st (st\<lparr>rt_running := Some (r\<lparr>ru_collecting := True\<rparr>), rt_collects := rt_collects st + 1\<rparr>)"
    using Some by (simp add: wanes_def retry_inv_def timer_ok_def attempt_ok_def retries_left_def)
  with Some show ?thesis
    by (simp add: begin_collect_def settle_wanes)
qed

lemma run_now_wanes:
  assumes "\<And>a. attempt = Some a \<Longrightarrow> attempt_ok a st"
  shows "wanes n now st (snd (run_now env manual attempt now st))"
proof (cases "rt_running st = None")
  case True
  define st' where "st' = st\<lparr>rt_lastStartedAt := Some (iso_of_time now), rt_running := Some \<lparr>ru_generation = rt_generation st, ru_aborted = False,
      ru_manual = manual, ru_collecting = False, ru_attempt = attempt\<rparr>\<rparr>"
  have "wanes n now st st'"
    using True assms by (simp add: wanes_def st'_def retry_inv_def timer_ok_def attempt_ok_def retries_left_def)
  from this wanes_trans [OF this begin_wanes] show ?thesis
    by (simp add: run_now_def st'_def [symmetric] Let_def wanes_same)
next
  case False
  then show ?thesis
    by (simp add: run_now_def wanes_same)
qed

lemma run_now_refused: "\<not> fst (run_now env manual attempt now st) \<Longrightarrow> snd (run_now env manual attempt now st) = st"
  by (auto simp: run_now_def Let_def split: if_splits)

lemma attempt_scheduled_wanes:
  assumes "attempt_ok a st" "free_of a st"
  shows "wanes n now st (attempt_scheduled env a now st)"
proof (cases "run_now env False (Some a) now st")
  case (Pair started st')
  then show ?thesis
    using run_now_wanes [of "Some a" st n now env False] run_now_refused [of env False "Some a" now st] attempt_done_wanes [OF assms] assms(1)
      drop_scheduled
    by (cases started) (simp_all add: attempt_scheduled_def wanes_same)
qed

lemma run_scheduled_wanes: "wanes n now st (run_scheduled env now st)"
proof (cases "rt_closed st \<or> rt_scheduled st \<noteq> None")
  case True
  then show ?thesis
    by (auto simp: run_scheduled_def wanes_same)
next
  case False
  define a where "a = \<lparr>sa_id = rt_attempts st, sa_generation = rt_generation st, sa_deadline = now + retryWindow, sa_timer = None\<rparr>"
  define st1 where "st1 = st\<lparr>rt_scheduled := Some a, rt_attempts := rt_attempts st + 1\<rparr>"
  have run: "run_scheduled env now st = attempt_scheduled env a now st1"
    using False by (simp add: run_scheduled_def Let_def a_def st1_def)
  show ?thesis
  proof (cases "retry_inv st")
    case True
    have old: "sa_id c < rt_attempts st \<and> sa_timer c = None" if "rt_running st = Some r" "ru_attempt r = Some c" for r c
      using that True by (simp add: retry_inv_def attempt_ok_def)
    have "attempt_ok a st1" "free_of a st1" "timer_ok st1"
      using old by (force simp: st1_def a_def timer_ok_def attempt_ok_def free_of_def)+
    moreover from this have "retry_inv st1"
      using old by (force simp: st1_def a_def retry_inv_def attempt_ok_def)
    moreover have "retries_left n now st1 \<le> retries_left n now st"
      using False by (simp add: st1_def a_def retries_left_def retryWindow_def)
    ultimately show ?thesis
      using attempt_scheduled_wanes [of a st1 n now env] by (auto simp: run wanes_def)
  qed (simp add: wanes_def)
qed

text \<open>The retry of the occurrence that an event fires, if it fires one.\<close>

definition retries :: "nat \<Rightarrow> (int \<times> runtime_event) \<Rightarrow> inv_runtime \<Rightarrow> bool" where
  "retries n ev st = (snd ev = RetryFires \<and> map_option sa_id (retry_due (fst ev) st) = Some n)"

lemma retry_fires_wanes:
  assumes "retry_inv st"
  shows "retry_inv (retry_fires env now st) \<and>
    retries_left n now (retry_fires env now st) + (if retries n (now, RetryFires) st then 1 else 0) \<le> retries_left n now st"
proof (cases "retry_due now st")
  case None
  with assms show ?thesis
    by (simp add: retry_fires_def retries_def)
next
  case (Some a)
  then obtain b due where b: "rt_scheduled st = Some b" "sa_timer b = Some due" "due \<le> now" "a = b\<lparr>sa_timer := None\<rparr>"
    by (auto simp: retry_due_def split: option.splits if_splits)
  define st1 where "st1 = st\<lparr>rt_scheduled := Some a\<rparr>"
  have fires: "retry_fires env now st = attempt_scheduled env a now st1"
    using Some by (simp add: retry_fires_def st1_def)
  have other: "sa_id c \<noteq> sa_id b" if "rt_running st = Some r" "ru_attempt r = Some c" for r c
    using that assms b by (auto simp: retry_inv_def attempt_ok_def)
  have ok: "retry_inv st1" "attempt_ok a st1" "free_of a st1"
    using assms b other by (auto simp: st1_def retry_inv_def timer_ok_def attempt_ok_def free_of_def)
  have id: "sa_id b < rt_attempts st" "due \<le> sa_deadline b"
    using assms b by (simp_all add: retry_inv_def timer_ok_def)
  have "(sa_deadline b - now) div 30000 \<le> (sa_deadline b - due) div 30000"
    using b(3) by (intro zdiv_mono1) simp_all
  moreover have "0 \<le> (sa_deadline b - due) div 30000"
    using id by (simp add: pos_imp_zdiv_nonneg_iff)
  ultimately have "retries_left n now st1 + (if retries n (now, RetryFires) st then 1 else 0) \<le> retries_left n now st"
    using b id Some by (simp add: st1_def retries_left_def retries_def)
  with ok attempt_scheduled_wanes [OF ok(2,3), of n now env] show ?thesis
    by (simp add: fires wanes_def)
qed

lemma maintain_wanes: "wanes n now st (maintain_begin env scheduled now st)" "wanes n now st (maintain_settles env renewal now st)"
proof -
  show "wanes n now st (maintain_begin env scheduled now st)"
    by (auto simp: maintain_begin_def wanes_same split: sum.split)
  have begun: "wanes n now st (begin_collect env now st')" if "same_flight st st'" for st'
    using that by (rule wanes_trans [OF wanes_same begin_wanes])
  show "wanes n now st (maintain_settles env renewal now st)"
    by (simp add: maintain_settles_def Let_def wanes_same begun split: option.split)
qed

lemma collect_settles_wanes: "wanes n now st (collect_settles env outcome now st)"
proof -
  have "wanes n now st (settle_run env x now (st\<lparr>rt_db := db\<rparr>))" for x db
    by (rule wanes_trans [OF wanes_same settle_wanes]) simp
  then show ?thesis
    by (simp add: collect_settles_def wanes_same settle_wanes split: option.split collect_outcome.split sum.split)
qed

lemma run_now_wanes_after: "same_flight st st' \<Longrightarrow> wanes n now st (snd (run_now env manual None now st'))"
  by (rule wanes_trans [OF wanes_same run_now_wanes]) simp_all

lemma control_wanes: "wanes n now st (snd (controlRefresh env requested now st))"
    "wanes n now st (snd (controlStartRecovery env requested requestId now st))"
    "wanes n now st (snd (controlRecoveryAction env requested requestId code now st))"
proof -
  show "wanes n now st (snd (controlRefresh env requested now st))"
    by (simp add: controlRefresh_def wanes_same run_now_wanes_after split: sum.split prod.split)
  have start: "wanes n now st (snd (start_reserved env requestId now (st\<lparr>rt_db := db\<rparr>)))" for db
    by (simp add: start_reserved_def wanes_same run_now_wanes_after split: sum.split option.split)
  show "wanes n now st (snd (controlStartRecovery env requested requestId now st))"
    by (simp add: controlStartRecovery_def wanes_same start split: sum.split option.split prod.split)
  have stored: "snd (stored_action env requestId code st) = st"
    by (simp add: stored_action_def split: sum.split option.split)
  show "wanes n now st (snd (controlRecoveryAction env requested requestId code now st))"
    by (simp add: controlRecoveryAction_def wanes_same stored split: option.split prod.split)
qed

lemma stop_wanes: "wanes n now st (stop_runtime env st)" "wanes n now st (close_runtime env st)"
proof -
  have stop: "wanes n now st' (stop_runtime env st')" for st'
  proof -
    define st1 where "st1 = st'\<lparr>rt_generation := rt_generation st' + 1, rt_scheduled := None,
        rt_maintaining := map_option (\<lambda>m. m\<lparr>ma_aborted := True\<rparr>) (rt_maintaining st')\<rparr>"
    have "same_flight st1 (stop_runtime env st')"
      unfolding stop_runtime_def Let_def st1_def [symmetric]
      by (rule same_flight_trans [OF same_flight_trans [OF same_flight_abort same_flight_recovery(2)] same_flight_recovery(2)])
    moreover have "wanes n now st' st1"
    proof (cases "retry_inv st'")
      case True
      then have "retries_left n now st1 \<le> retries_left n now st'"
        using retries_left_nonneg [of st' n now] by (simp add: retry_inv_def st1_def retries_left_def split: if_splits)
      moreover have "retry_inv st1"
        using True by (simp add: st1_def retry_inv_def timer_ok_def attempt_ok_def)
      ultimately show ?thesis
        by (simp add: wanes_def)
    qed (simp add: wanes_def)
    ultimately show ?thesis
      by (blast intro: wanes_trans wanes_same)
  qed
  then show "wanes n now st (stop_runtime env st)" .
  have "wanes n now st (st\<lparr>rt_closed := True\<rparr>)"
    by (simp add: wanes_def retry_inv_def timer_ok_def attempt_ok_def retries_left_def)
  with stop show "wanes n now st (close_runtime env st)"
    by (auto simp: close_runtime_def wanes_same intro: wanes_trans)
qed

lemma step_wanes:
  assumes "retry_inv st"
  shows "retry_inv (runtime_step env (now, ev) st) \<and>
    retries_left n now (runtime_step env (now, ev) st) + (if retries n (now, ev) st then 1 else 0) \<le> retries_left n now st"
proof (cases "ev = RetryFires")
  case True
  with retry_fires_wanes [OF assms] show ?thesis
    by simp
next
  case False
  then have "wanes n now st (runtime_step env (now, ev) st)"
    by (cases ev) (simp_all add: run_now_wanes_after collect_settles_wanes maintain_wanes run_scheduled_wanes control_wanes stop_wanes wanes_same)
  with assms False show ?thesis
    by (simp add: wanes_def retries_def)
qed

section \<open>Every run\<close>

text \<open>How often an occurrence was retried within a run of events.\<close>

fun retried :: "nat \<Rightarrow> runtime_env \<Rightarrow> (int \<times> runtime_event) list \<Rightarrow> inv_runtime \<Rightarrow> nat" where
  "retried n env [] st = 0"
| "retried n env (ev # evs) st = (if retries n ev st then 1 else 0) + retried n env evs (runtime_step env ev st)"

lemma retries_left_later: "now \<le> later \<Longrightarrow> retries_left n later st \<le> retries_left n now st"
  by (auto simp: retries_left_def intro!: max.mono zdiv_mono1 split: option.split)

lemma retried_left:
  "\<lbrakk>retry_inv st; sorted (map fst evs); \<forall>ev\<in>set evs. now \<le> fst ev\<rbrakk> \<Longrightarrow> int (retried n env evs st) \<le> retries_left n now st"
proof (induction evs arbitrary: st now)
  case Nil
  then show ?case
    by (simp add: retry_inv_def retries_left_nonneg)
next
  case (Cons ev evs)
  obtain t e where ev: "ev = (t, e)"
    by (cases ev)
  from step_wanes [OF Cons.prems(1), of env t e n]
  have step: "retry_inv (runtime_step env ev st)"
      "retries_left n t (runtime_step env ev st) + (if retries n ev st then 1 else 0) \<le> retries_left n t st"
    by (simp_all add: ev)
  have "int (retried n env evs (runtime_step env ev st)) \<le> retries_left n t (runtime_step env ev st)"
    using Cons.prems step(1) by (intro Cons.IH) (simp_all add: ev)
  moreover have "retries_left n t st \<le> retries_left n now st"
    using Cons.prems(3) by (intro retries_left_later) (simp add: ev)
  ultimately show ?case
    using step(2) by (simp add: ev split: if_splits)
qed

text \<open>C33: the deferral of a scheduled collection ends: however long the profile stays busy, and whatever refreshes,
  verifications, session checks, stops and further cron ticks happen meanwhile, one occurrence is retried at most twenty times, as long as the
  clock does not go back.\<close>

theorem scheduled_retries_end:
  assumes "sorted (map fst evs)"
  shows "retried n env evs (initial_runtime db) \<le> 20"
proof (cases evs)
  case (Cons ev rest)
  have "retry_inv (initial_runtime db)" "\<And>now. retries_left n now (initial_runtime db) = 20"
    by (simp_all add: retry_inv_def timer_ok_def initial_runtime_def retries_left_def)
  with retried_left [OF this(1) assms, of "fst ev" n env] assms Cons show ?thesis
    by simp
qed simp

text \<open>A cron tick finds the profile busy, is retried half a minute later and then collects.\<close>

definition example_runtime :: runtime_env where
  "example_runtime = \<lparr>rn_store = example_store, rn_enabled = True, rn_manualVerification = True, rn_staleHours = 48\<rparr>"

definition example_events :: "(int \<times> runtime_event) list" where
  "example_events = [(0, CronFires), (5000, CollectSettles (Collected ColSkipped)), (20000, RetryFires), (35000, RetryFires),
     (40000, CollectSettles (Collected ColOk)), (70000, RetryFires)]"

lemma scheduled_retries_end_witness:
  "sorted (map fst example_events) \<and> retried 0 example_runtime example_events (initial_runtime empty_inv_db) = 1 \<and>
   retried 0 example_runtime example_events (initial_runtime empty_inv_db) \<le> 20"
proof -
  have ordered: "sorted (map fst example_events)"
    by (simp add: example_events_def)
  have "retried 0 example_runtime example_events (initial_runtime empty_inv_db) = 1"
    by (simp add: example_events_def initial_runtime_def run_scheduled_def attempt_scheduled_def run_now_def begin_collect_def collect_settles_def
      settle_run_def attempt_done_def retry_fires_def retry_due_def retries_def recoveryLease_def retryWindow_def retryDelay_def Let_def)
  with ordered scheduled_retries_end [OF ordered, of 0 example_runtime empty_inv_db] show ?thesis
    by simp
qed

end
