(* ===== verification/App.thy ===== *)
theory App
  imports AccessProofs SimplefinProofs Csv
begin

text \<open>
  The bank routes of the HTTP application, \<^verbatim>\<open>src/simplefin/app.ts\<close>: what each request answers, what it logs
  and what it leaves in the ledger. Which registered route a request matches is the library's decision and comes
  with the request; an exception of a handler reaches the application's error handler, after what the handler already wrote.
\<close>

section \<open>Requests and answers\<close>

datatype app_route =
    ClaimRoute jsstr
  | InfoRoute
  | AccountsRoute
  | HealthRoute
  | ExportRoute
  | NoRoute

record app_request =
  rq_method :: jsstr
  rq_path :: jsstr
  rq_route :: app_route
  rq_authorization :: "jsstr option"
  rq_query :: "(jsstr \<times> jsstr) list"

datatype app_body =
    ErrorBody jsstr
  | AccessUrlBody jsstr
  | VersionsBody "jsstr list"
  | AccountsBody simplefin_response
  | HealthBody health_report
  | CsvBody jsstr

record app_response =
  rsp_status :: nat
  rsp_headers :: "(jsstr \<times> jsstr) list"
  rsp_body :: app_body

datatype app_log =
    AuthFailed string "jsstr option" jsstr
  | UnhandledError jsstr jsstr
  | RequestServed jsstr jsstr nat
  | ClaimLogged claim_log

record 'l app_env =
  ap_access :: access_env
  ap_view :: view_env
  ap_config :: config
  ap_ledger :: "'l ledger_ops"

definition wwwAuthenticate :: jsstr where
  "wwwAuthenticate = js ''Basic realm=\"simplefin\", charset=\"UTF-8\"''"

definition plain_response :: "nat \<Rightarrow> app_body \<Rightarrow> app_response" where
  "plain_response status body = \<lparr>rsp_status = status, rsp_headers = [], rsp_body = body\<rparr>"

definition error_response :: "nat \<Rightarrow> jsstr \<Rightarrow> app_response" where
  "error_response status code = plain_response status (ErrorBody code)"

definition forbidden_response :: app_response where
  "forbidden_response = \<lparr>rsp_status = 403, rsp_headers = [(js ''WWW-Authenticate'', wwwAuthenticate)], rsp_body = ErrorBody (js ''forbidden'')\<rparr>"

section \<open>Paths and parameters\<close>

definition claim_prefix :: jsstr where
  "claim_prefix = js ''/simplefin/claim/''"

text \<open>The claim id, the part of the path up to the next slash, is masked.\<close>

definition loggablePath :: "jsstr \<Rightarrow> jsstr" where
  "loggablePath path =
     (let rest = drop (length claim_prefix) path in
      if starts_with path claim_prefix \<and> takeWhile (\<lambda>c. c \<noteq> 47) rest \<noteq> []
      then claim_prefix @ js '':claimId'' @ dropWhile (\<lambda>c. c \<noteq> 47) rest
      else path)"

definition isoDatePattern :: "jsstr \<Rightarrow> bool" where
  "isoDatePattern s \<longleftrightarrow> length s = 10 \<and> (\<forall>i\<in>{0..<10}. if i = 4 \<or> i = 7 then s ! i = 45 else is_digit (s ! i))"

definition parseDateParameter :: "jsstr option \<Rightarrow> jsstr option" where
  "parseDateParameter v = (case v of None \<Rightarrow> None | Some s \<Rightarrow> if isoDatePattern s then Some s else None)"

definition export_options :: "(jsstr \<times> jsstr) list \<Rightarrow> csv_options" where
  "export_options params =
     (let accounts = filter (\<lambda>v. v \<noteq> []) (map snd (filter (\<lambda>(k, v). k = js ''account'') params)) in
      \<lparr>csv_accountIds = (if accounts \<noteq> [] then Some accounts else None),
       csv_from = parseDateParameter (map_of params (js ''from'')), csv_to = parseDateParameter (map_of params (js ''to''))\<rparr>)"

section \<open>The handlers\<close>

text \<open>An answer is what the handler logs and its response, or the exception it throws.\<close>

type_synonym ('l, 'a) handler = "'l \<Rightarrow> (app_log list \<times> 'a res) \<times> 'l"

definition claim_handler :: "'l app_env \<Rightarrow> jsstr \<Rightarrow> int \<Rightarrow> ('l, app_response) handler" where
  "claim_handler env claimId now s =
     (case handleClaim (ap_access env) (ap_ledger env) (ap_config env) claimId now s of
        Inl e \<Rightarrow> (([], Inl e), s)
      | Inr (result, entry, s') \<Rightarrow>
          (([ClaimLogged entry], Inr (case result of
              ClaimOk url \<Rightarrow> plain_response 200 (AccessUrlBody url)
            | ClaimRefused status \<Rightarrow> error_response status (if status = 404 then js ''not_found'' else js ''claim_refused''))), s'))"

definition authenticated :: "'l app_env \<Rightarrow> app_request \<Rightarrow> int \<Rightarrow> ('l \<Rightarrow> app_response res) \<Rightarrow> ('l, app_response) handler" where
  "authenticated env rq now handler s =
     (case basicAuth (ap_access env) (ap_ledger env) (rq_authorization rq) now s of
        Inl e \<Rightarrow> (([], Inl e), s)
      | Inr (Forbidden reason user, s') \<Rightarrow> (([AuthFailed reason user (loggablePath (rq_path rq))], Inr forbidden_response), s')
      | Inr (Authenticated c, s') \<Rightarrow> (([], handler s'), s'))"

definition accounts_handler :: "'l app_env \<Rightarrow> app_request \<Rightarrow> int \<Rightarrow> 'l \<Rightarrow> app_response res" where
  "accounts_handler env rq now s =
     bindE (buildAccountsResponse (ap_view env) (ap_ledger env) (ap_config env) (parseAccountsQuery (rq_query rq)) now s) (\<lambda>r.
       Inr (plain_response 200 (AccountsBody r)))"

definition health_handler :: "'l app_env \<Rightarrow> int \<Rightarrow> 'l \<Rightarrow> app_response" where
  "health_handler env now s =
     (let report = buildHealthReport (ap_ledger env) (ap_config env) now s
      in plain_response (if hr_ok report then 200 else 503) (HealthBody report))"

definition export_handler :: "'l app_env \<Rightarrow> app_request \<Rightarrow> 'l \<Rightarrow> app_response" where
  "export_handler env rq s = \<lparr>rsp_status = 200,
     rsp_headers = [(js ''Content-Type'', js ''text/csv; charset=utf-8''), (js ''Content-Disposition'', js ''attachment; filename=\"transactions.csv\"'')],
     rsp_body = CsvBody (exportCsv (ap_ledger env) (ap_config env) (export_options (rq_query rq)) s)\<rparr>"

definition app_handler :: "'l app_env \<Rightarrow> app_request \<Rightarrow> int \<Rightarrow> ('l, app_response) handler" where
  "app_handler env rq now s =
     (case rq_route rq of
        ClaimRoute claimId \<Rightarrow> claim_handler env claimId now s
      | InfoRoute \<Rightarrow> (([], Inr (plain_response 200 (VersionsBody [js ''1'', js ''2'']))), s)
      | AccountsRoute \<Rightarrow> authenticated env rq now (accounts_handler env rq now) s
      | HealthRoute \<Rightarrow> (([], Inr (health_handler env now s)), s)
      | ExportRoute \<Rightarrow> authenticated env rq now (\<lambda>s'. Inr (export_handler env rq s')) s
      | NoRoute \<Rightarrow> (([], Inr (error_response 404 (js ''not_found''))), s))"

text \<open>\<^verbatim>\<open>onError\<close>, then the request log.\<close>

definition app_answer :: "'l app_env \<Rightarrow> app_request \<Rightarrow> int \<Rightarrow> 'l \<Rightarrow> app_response \<times> app_log list \<times> 'l" where
  "app_answer env rq now s =
     (let ((logs, result), s') = app_handler env rq now s;
          path = loggablePath (rq_path rq);
          (response, failed) = (case result of
              Inl e \<Rightarrow> (error_response 500 (js ''internal_error''), [UnhandledError (rq_method rq) path])
            | Inr r \<Rightarrow> (r, []))
      in (response, logs @ failed @ [RequestServed (rq_method rq) path (rsp_status response)], s'))"

section \<open>Who reads bank data\<close>

text \<open>The credentials of a request: they name a live consumer and prove its secret.\<close>

definition credentials_of :: "'l app_env \<Rightarrow> app_request \<Rightarrow> 'l \<Rightarrow> consumer option" where
  "credentials_of env rq s =
     (case parseBasicAuth (rq_authorization rq) of
        None \<Rightarrow> None
      | Some (user, secret) \<Rightarrow>
          (case getConsumerByBasicUser (ap_ledger env) user s of
             None \<Rightarrow> None
           | Some c \<Rightarrow> if truthy_text (con_revokedAt c) = None \<and> verifySecret (ap_access env) (Some (con_secretHash c)) secret
               then Some c else None))"

definition bank_data :: "app_body \<Rightarrow> bool" where
  "bank_data body = (case body of AccountsBody r \<Rightarrow> True | CsvBody t \<Rightarrow> True | _ \<Rightarrow> False)"

definition protected :: "app_route \<Rightarrow> bool" where
  "protected r \<longleftrightarrow> r = AccountsRoute \<or> r = ExportRoute"

lemma basicAuth_credentials:
  "basicAuth (ap_access env) (ap_ledger env) (rq_authorization rq) now s =
     (case credentials_of env rq s of
        Some c \<Rightarrow> bindE (touchConsumer (ap_ledger env) c now s) (\<lambda>s'. Inr (Authenticated c, s'))
      | None \<Rightarrow> basicAuth (ap_access env) (ap_ledger env) (rq_authorization rq) now s)"
  by (simp add: basicAuth_def credentials_of_def Let_def split: option.split)

lemma basicAuth_refused:
  assumes "credentials_of env rq s = None"
  obtains reason user where "basicAuth (ap_access env) (ap_ledger env) (rq_authorization rq) now s = Inr (Forbidden reason user, s)"
proof (cases "parseBasicAuth (rq_authorization rq)")
  case None
  then show ?thesis
    using that by (simp add: basicAuth_def)
next
  case (Some p)
  show ?thesis
  proof (cases "getConsumerByBasicUser (ap_ledger env) (fst p) s")
    case None
    with Some show ?thesis
      using that by (simp add: basicAuth_def split_beta)
  next
    case found: (Some c)
    with Some assms show ?thesis
      using that by (cases "truthy_text (con_revokedAt c)") (simp_all add: basicAuth_def credentials_of_def split_beta split: if_splits)
  qed
qed

lemma authenticated_refused: "credentials_of env rq s = None \<Longrightarrow>
    \<exists>reason user. authenticated env rq now h s = (([AuthFailed reason user (loggablePath (rq_path rq))], Inr forbidden_response), s)"
  by (rule basicAuth_refused [of env rq s now]) (auto simp: authenticated_def)

lemma masked_path:
  assumes "claimId \<noteq> []" "47 \<notin> set claimId" "rest = [] \<or> hd rest = 47"
  shows "loggablePath (claim_prefix @ claimId @ rest) = claim_prefix @ js '':claimId'' @ rest"
proof -
  have "takeWhile (\<lambda>c. c \<noteq> 47) (claimId @ rest) = claimId" "dropWhile (\<lambda>c. c \<noteq> 47) (claimId @ rest) = rest"
    using assms(2,3) by (simp_all add: takeWhile_append dropWhile_append takeWhile_eq_Nil_iff dropWhile_eq_self_iff)
  moreover have "drop (length claim_prefix) (claim_prefix @ claimId @ rest) = claimId @ rest" "starts_with (claim_prefix @ claimId @ rest) claim_prefix"
    by (simp_all add: starts_with_def)
  ultimately show ?thesis
    using assms(1) unfolding loggablePath_def Let_def by (simp only: if_True simp_thms)
qed

lemma refusal_uniform:
  assumes "protected (rq_route rq)" "credentials_of env rq s = None"
  shows "\<exists>logs. app_answer env rq now s = (forbidden_response, logs, s)"
proof -
  have "snd (authenticated env rq now h s) = s" "snd (fst (authenticated env rq now h s)) = Inr forbidden_response" for h
    using authenticated_refused [OF assms(2), of now h] by auto
  with assms(1) show ?thesis
    by (auto simp: app_answer_def app_handler_def protected_def split_beta Let_def split: app_route.splits)
qed

lemma no_credentials: "credentials_of env (rq\<lparr>rq_authorization := None\<rparr>) s = None"
  by (simp add: credentials_of_def parseBasicAuth_def truthy_text_def)

text \<open>
  C16: bank data leaves the bridge only for valid credentials. A response carries accounts or a CSV export only if
  the request came to one of these two routes with the name of a consumer of the ledger that is not revoked and with
  its secret. Without such credentials these routes refuse the request as they refuse the same request without any credentials, at
  any time and whatever the ledger holds, so that a refusal tells nothing about what is wrong with them, and change nothing in the ledger.
\<close>

theorem bank_data_needs_credentials:
  assumes "app_answer env rq now s = (response, logs, s')"
  shows "(bank_data (rsp_body response) \<longrightarrow> protected (rq_route rq) \<and> credentials_of env rq s \<noteq> None) \<and>
    (protected (rq_route rq) \<and> credentials_of env rq s = None \<longrightarrow>
      400 \<le> rsp_status response \<and> rsp_status response < 500 \<and>
      response = fst (app_answer env (rq\<lparr>rq_authorization := None\<rparr>) later t) \<and> s' = s)"
proof (cases "credentials_of env rq s")
  case None
  have bare: "fst (app_answer env (rq\<lparr>rq_authorization := None\<rparr>) later t) = forbidden_response" if "protected (rq_route rq)"
    using refusal_uniform [OF _ no_credentials, of rq env later t] that by auto
  show ?thesis
  proof (cases "protected (rq_route rq)")
    case True
    from refusal_uniform [OF True None, of now] assms bare [OF True] show ?thesis
      by (auto simp: forbidden_response_def bank_data_def)
  next
    case False
    with assms show ?thesis
      by (auto simp: app_answer_def app_handler_def protected_def split_beta bank_data_def claim_handler_def health_handler_def
        plain_response_def error_response_def Let_def split: app_route.splits sum.splits claim_result.splits)
  qed
next
  case (Some c)
  then show ?thesis
    using assms
    by (auto simp: app_answer_def app_handler_def protected_def split_beta bank_data_def claim_handler_def health_handler_def
      plain_response_def error_response_def Let_def split: app_route.splits sum.splits claim_result.splits)
qed

definition example_app :: "sqlite_db app_env" where
  "example_app = \<lparr>ap_access = example_access, ap_view = example_view, ap_config = example_config, ap_ledger = sqlite_ledger example_env (\<lambda>_. [])\<rparr>"

definition example_request :: app_request where
  "example_request = \<lparr>rq_method = js ''GET'', rq_path = js ''/simplefin/accounts'', rq_route = AccountsRoute, rq_authorization = None, rq_query = []\<rparr>"

text \<open>A request with the credentials of nobody.\<close>

theorem bank_data_needs_credentials_witness:
  "\<exists>response logs. app_answer example_app (example_request\<lparr>rq_authorization := Some (js ''Basic QTpC'')\<rparr>) 0 empty_db = (response, logs, empty_db) \<and>
     \<not> bank_data (rsp_body response) \<and> response = fst (app_answer example_app example_request 1 empty_db)"
proof -
  let ?rq = "example_request\<lparr>rq_authorization := Some (js ''Basic QTpC'')\<rparr>"
  obtain response logs s' where answer: "app_answer example_app ?rq 0 empty_db = (response, logs, s')"
    by (cases "app_answer example_app ?rq 0 empty_db") auto
  have none: "credentials_of example_app ?rq empty_db = None"
    by (auto simp: credentials_of_def example_app_def sqlite_ledger_def sql_getConsumerByBasicUser_def get_where_def empty_db_def split: option.split)
  have guarded: "protected (rq_route ?rq)" and bare: "?rq\<lparr>rq_authorization := None\<rparr> = example_request"
    by (simp_all add: example_request_def protected_def)
  note refused = bank_data_needs_credentials [OF answer, of 1 empty_db, unfolded bare]
  from refused none guarded have "\<not> bank_data (rsp_body response)" "response = fst (app_answer example_app example_request 1 empty_db)" "s' = empty_db"
    by blast+
  with answer show ?thesis by blast
qed

end
