(* ===== verification/InvPortfolio.thy ===== *)
theory InvPortfolio
  imports InvReports Normalize
begin

text \<open>
  \<^verbatim>\<open>src/investments/clal-portfolio.ts\<close>: the portal's raw answers become one snapshot. A failed reconciliation
  makes the snapshot incomplete, a malformed answer is an error.
\<close>

section \<open>Reading the portal's answers\<close>

record clal_env =
  cl_zod :: zod_env
  cl_today :: "jsstr \<Rightarrow> jsstr"

record api_response =
  ar_status :: jsval
  ar_data :: jsval

record portfolio_input =
  pf_portfolio :: api_response
  pf_dailyBalances :: "api_response option"
  pf_pensionDetails :: "api_response list"
  pf_gemelDetails :: "api_response list"
  pf_observedAt :: jsstr

type_synonym fields = "(jsstr \<times> jsval) list"

abbreviation invalid :: "'a res" where
  "invalid \<equiv> Inl invalid_response"

definition field :: "fields \<Rightarrow> string \<Rightarrow> jsval" where
  "field r k = js_prop (Some r) k"

definition clalRecord :: "jsval \<Rightarrow> fields res" where
  "clalRecord v = (case v of JObj r \<Rightarrow> Inr r | _ \<Rightarrow> invalid)"

definition clalArray :: "jsval \<Rightarrow> jsval list res" where
  "clalArray v = (case v of JArr vs \<Rightarrow> Inr vs | _ \<Rightarrow> invalid)"

definition requireClalSuccess :: "jsval \<Rightarrow> fields res" where
  "requireClalSuccess v = bindE (clalRecord v) (\<lambda>r.
     if field r ''IsSuccess'' \<noteq> JBool True \<or>
        list_ex (\<lambda>flag. field r flag \<noteq> JUndef \<and> field r flag \<noteq> JBool False) [''IsGeneralError'', ''ResponseIsAppErrorIsAppError'', ''GetDailyBalanceItemFailed'']
     then invalid else Inr r)"

definition responseData :: "api_response \<Rightarrow> fields res" where
  "responseData response =
     (case ar_status response of
        JNum n \<Rightarrow> if is_safe_integer n \<and> 200 \<le> n \<and> n \<le> 299 then requireClalSuccess (ar_data response) else invalid
      | _ \<Rightarrow> invalid)"

definition js_or :: "jsval \<Rightarrow> jsval \<Rightarrow> jsval" where
  "js_or a b = (if a \<in> {JUndef, JNull, JBool False, JNum 0, JStr []} then b else a)"

definition absent :: "jsval \<Rightarrow> bool" where
  "absent v \<longleftrightarrow> v \<in> {JNull, JUndef, JStr []}"

datatype clal_family = PensionFamily | HishtalmutFamily

definition family_text :: "clal_family \<Rightarrow> jsstr" where
  "family_text f = (case f of PensionFamily \<Rightarrow> js ''pension'' | HishtalmutFamily \<Rightarrow> js ''hishtalmut'')"

text \<open>The id and the provider's own id.\<close>

definition clalProductIdentity :: "clal_family \<Rightarrow> jsval \<Rightarrow> (jsstr \<times> jsstr) res" where
  "clalProductIdentity f v = bindE (clal_text v) (\<lambda>t.
     let providerProductId = family_text f @ js '':'' @ t in
     bindE (investmentProductId providerProductId Clal) (\<lambda>i. Inr (i, providerProductId)))"

section \<open>Money\<close>

definition nonnegativeMoney :: "jsval \<Rightarrow> jsstr res" where
  "nonnegativeMoney v = bindE (parseClalMoney v) (\<lambda>amount. if starts_with amount (js ''-'') then invalid else Inr amount)"

text \<open>\<^verbatim>\<open>BigInt(value.replace('.', ''))\<close> of an amount.\<close>

definition cents :: "jsstr \<Rightarrow> int" where
  "cents amount =
     (let digits = remove1 46 amount in
      if starts_with digits (js ''-'') then - int (digits_val (tl digits)) else int (digits_val digits))"

section \<open>One product\<close>

definition new_product :: "clal_family \<Rightarrow> jsval \<Rightarrow> jsval \<Rightarrow> inv_product res" where
  "new_product f rawId name = bindE (clalProductIdentity f rawId) (\<lambda>(i, providerProductId).
     bindE (clal_text name) (\<lambda>n. Inr
       \<lparr>ip_id = i, ip_provider = Clal, ip_providerProductId = providerProductId,
        ip_kind = (if f = PensionFamily then Pension else KerenHishtalmut), ip_name = n, ip_currency = js ''ILS'',
        ip_currentValuationId = None, ip_liquidity = LiquidityUnknown, ip_availableFrom = None, ip_availableAmount = None,
        ip_valuations = CoverNone, ip_activities = CoverNone, ip_tracks = CoverNone, ip_executions = None, ip_forecast = None, ip_reports = None\<rparr>))"

text \<open>The product that is being read is the last of the snapshot; it is passed beside it.\<close>

type_synonym reading = "inv_snapshot \<times> inv_product"

definition currentValue :: "clal_env \<Rightarrow> jsval \<Rightarrow> jsval \<Rightarrow> reading \<Rightarrow> reading res" where
  "currentValue env rawAmount rawDate = (\<lambda>(s, p).
     if absent rawAmount then Inr (s\<lparr>sn_complete := False\<rparr>, p)
     else bindE (nonnegativeMoney rawAmount) (\<lambda>amount. bindE (parseClalDate (cl_zod env) rawDate) (\<lambda>asOf.
       bindE (investmentValuationId (ip_id p) asOf) (\<lambda>i.
         Inr (s\<lparr>id_valuations := id_valuations s @ [\<lparr>iv_id = i, iv_productId = ip_id p, iv_asOf = asOf, iv_observedAt = sn_observedAt s,
                iv_amount = amount, iv_currency = js ''ILS'', iv_provenance = None\<rparr>]\<rparr>,
              p\<lparr>ip_currentValuationId := Some i, ip_valuations := CoverPartial\<rparr>)))))"

definition verifyCurrentValue :: "clal_env \<Rightarrow> jsval \<Rightarrow> jsval \<Rightarrow> inv_product \<Rightarrow> inv_snapshot \<Rightarrow> inv_snapshot res" where
  "verifyCurrentValue env rawAmount rawDate p s = bindE (nonnegativeMoney rawAmount) (\<lambda>amount.
     case find (\<lambda>v. Some (iv_id v) = ip_currentValuationId p) (id_valuations s) of
       None \<Rightarrow> Inr (s\<lparr>sn_complete := False\<rparr>)
     | Some v \<Rightarrow>
         if iv_amount v \<noteq> amount then Inr (s\<lparr>sn_complete := False\<rparr>)
         else bindE (parseClalDate (cl_zod env) rawDate) (\<lambda>asOf. Inr (if iv_asOf v = asOf then s else s\<lparr>sn_complete := False\<rparr>)))"

definition coverage_forecast :: "inv_product \<Rightarrow> fields \<Rightarrow> inv_product res" where
  "coverage_forecast p coverages =
     (if absent (field coverages ''PensiaPrisha'') then Inr p
      else bindE (nonnegativeMoney (field coverages ''PensiaPrisha'')) (\<lambda>amount. Inr (p\<lparr>ip_forecast := Some (amount, js ''ILS'', None)\<rparr>)))"

definition forecast_of :: "fields \<Rightarrow> inv_product \<Rightarrow> inv_product res" where
  "forecast_of data p =
     (if field data ''hasPolicyInsCoverages'' = JBool True
      then bindE (clalRecord (field data ''PolicyInsCoverages'')) (coverage_forecast p) else Inr p)"

definition track_row :: "inv_snapshot \<Rightarrow> inv_product \<Rightarrow> jsstr \<Rightarrow> jsstr \<Rightarrow> jsstr option \<Rightarrow> jsstr option \<Rightarrow> inv_track" where
  "track_row s p i name amount asOf =
     \<lparr>it_id = i, it_productId = ip_id p, it_name = name, it_allocationPercent = None, it_amount = amount, it_currency = js ''ILS'',
      it_asOf = asOf, it_observedAt = sn_observedAt s\<rparr>"

definition pension_track :: "inv_product \<Rightarrow> jsval \<Rightarrow> inv_snapshot \<Rightarrow> inv_snapshot res" where
  "pension_track p raw s = bindE (clalRecord raw) (\<lambda>row.
     bindE (clal_text (field row ''TrackNum'')) (\<lambda>number. bindE (investmentTrackId (ip_id p) number) (\<lambda>i.
       bindE (clal_text (field row ''TrackName'')) (\<lambda>name. Inr (s\<lparr>id_tracks := id_tracks s @ [track_row s p i name None None]\<rparr>)))))"

definition pensionMetadata :: "clal_env \<Rightarrow> fields \<Rightarrow> reading \<Rightarrow> reading res" where
  "pensionMetadata env data = (\<lambda>(s, p).
     bindE (clalRecord (field data ''PolicyDetails'')) (\<lambda>details.
     bindE (clalRecord (field data ''PeriodBalance'')) (\<lambda>period.
     bindE (verifyCurrentValue env (field details ''BalanceTotal'') (field period ''Date'') p s) (\<lambda>s1.
     bindE (forecast_of data p) (\<lambda>p1.
     bindE (clalRecord (field data ''InvestmentTracks'')) (\<lambda>tracks.
     bindE (clalArray (field tracks ''InvestmentTracksRows'')) (\<lambda>rows.
     bindE (foldE (pension_track p) rows s1) (\<lambda>s2.
       Inr (s2, p1\<lparr>ip_tracks := (if rows \<noteq> [] then CoverPartial else CoverNone)\<rparr>)))))))))"

text \<open>A two-digit year needs a full date of the same year.\<close>

definition short_date :: "jsstr \<Rightarrow> (jsstr \<times> jsstr \<times> jsstr) option" where
  "short_date s = (case s of [d1, d2, s1, m1, m2, s2, y1, y2] \<Rightarrow>
       if list_all is_digit [d1, d2, m1, m2, y1, y2] \<and> s1 = 47 \<and> s2 = 47 then Some ([d1, d2], [m1, m2], [y1, y2]) else None
     | _ \<Rightarrow> None)"

definition trackDate :: "clal_env \<Rightarrow> jsval \<Rightarrow> jsstr option \<Rightarrow> jsstr option res" where
  "trackDate env v referenceDate =
     (case (case v of JStr s \<Rightarrow> short_date (js_trim s) | _ \<Rightarrow> None) of
        Some (day, month, shortYear) \<Rightarrow>
          (case referenceDate of
             None \<Rightarrow> Inr None
           | Some r \<Rightarrow>
               if take 2 (drop 2 r) \<noteq> shortYear then Inr None
               else parseClalDate (cl_zod env) (JStr (day @ js ''/'' @ month @ js ''/'' @ take 4 r)))
      | None \<Rightarrow> parseClalDate (cl_zod env) v)"

text \<open>The routes read so far and the sum of all of them, idle routes of no value included.\<close>

definition gemel_track :: "clal_env \<Rightarrow> inv_snapshot \<Rightarrow> inv_product \<Rightarrow> jsstr option \<Rightarrow> jsval \<Rightarrow> inv_track list \<times> int \<Rightarrow> (inv_track list \<times> int) res" where
  "gemel_track env s p date raw = (\<lambda>(parsed, total).
     bindE (clalRecord raw) (\<lambda>row. bindE (nonnegativeMoney (field row ''CurrentBalance'')) (\<lambda>amount.
       if amount = js ''0.00'' then Inr (parsed, total + cents amount)
       else bindE (mapE (\<lambda>k. bindE (clal_text (field row k)) encodeURIComponent) [''ConfirmationCode'', ''ProductCode'', ''KupaCode'']) (\<lambda>codes.
         bindE (investmentTrackId (ip_id p) (join_with (js '':'') codes)) (\<lambda>i. bindE (clal_text (field row ''Name'')) (\<lambda>name.
         bindE (trackDate env (field row ''ValidateDate'') date) (\<lambda>asOf.
           Inr (parsed @ [track_row s p i name (Some amount) asOf], total + cents amount))))))))"

definition liquidity_of :: "clal_env \<Rightarrow> inv_snapshot \<Rightarrow> jsstr option \<Rightarrow> inv_product \<Rightarrow> inv_product" where
  "liquidity_of env s availableFrom p =
     (case availableFrom of
        None \<Rightarrow> p
      | Some d \<Rightarrow> p\<lparr>ip_liquidity := (if d \<le> cl_today env (sn_observedAt s) then Available else Restricted),
          ip_availableFrom := Some d, ip_availableAmount := None\<rparr>)"

text \<open>Routes that do not add up to the balance are left out, and the snapshot is incomplete.\<close>

definition gemel_result :: "fields \<Rightarrow> jsstr \<Rightarrow> inv_track list \<Rightarrow> int \<Rightarrow> reading \<Rightarrow> reading res" where
  "gemel_result tab balance parsed added = (\<lambda>(s, p).
     if added \<noteq> cents balance then Inr (s\<lparr>sn_complete := False\<rparr>, p)
     else bindE (nonnegativeMoney (field tab ''BalanceSum'')) (\<lambda>reported.
       if reported \<noteq> balance then Inr (s\<lparr>sn_complete := False\<rparr>, p)
       else Inr (s\<lparr>id_tracks := id_tracks s @ parsed\<rparr>, p\<lparr>ip_tracks := (if parsed \<noteq> [] then CoverPartial else CoverNone)\<rparr>)))"

definition gemelMetadata :: "clal_env \<Rightarrow> fields \<Rightarrow> reading \<Rightarrow> reading res" where
  "gemelMetadata env data = (\<lambda>(s, p).
     if field data ''IsHishtalmut'' \<noteq> JBool True \<or> field data ''IsGemelDailyBalanceSuccess'' \<noteq> JBool True then invalid
     else
     bindE (clalRecord (field data ''FundDetails'')) (\<lambda>details.
     bindE (parseClalDate (cl_zod env) (field details ''ProfitUpdateDate'')) (\<lambda>date.
     bindE (nonnegativeMoney (field details ''Balance'')) (\<lambda>balance.
     bindE (verifyCurrentValue env (JStr balance) (case date of None \<Rightarrow> JNull | Some d \<Rightarrow> JStr d) p s) (\<lambda>s1.
     bindE (parseClalDate (cl_zod env) (field details ''DateNazil1'')) (\<lambda>availableFrom.
     bindE (clalRecord (field data ''MaslulimTab'')) (\<lambda>tab.
     bindE (clalArray (field tab ''Maslulim'')) (\<lambda>rows.
     bindE (foldE (gemel_track env s1 p date) rows ([], 0)) (\<lambda>(parsed, added).
       gemel_result tab balance parsed added (s1, liquidity_of env s1 availableFrom p))))))))))"

section \<open>The snapshot\<close>

type_synonym details_index = "(jsstr \<times> fields) list"

definition index_detail :: "clal_family \<Rightarrow> api_response \<Rightarrow> details_index \<Rightarrow> details_index res" where
  "index_detail f response m = bindE (responseData response) (\<lambda>data.
     bindE (clalRecord (field data (if f = PensionFamily then ''PolicyDetails'' else ''FundDetails''))) (\<lambda>detail.
     bindE (clalProductIdentity f (field detail (if f = PensionFamily then ''PolicyId'' else ''FundNumber''))) (\<lambda>(i, _).
       if map_of m i \<noteq> None then invalid else Inr (m @ [(i, data)]))))"

definition indexDetails :: "clal_family \<Rightarrow> api_response list \<Rightarrow> details_index res" where
  "indexDetails f responses = foldE (index_detail f) responses []"

definition hishtalmut_rows :: "jsval list \<Rightarrow> fields list res" where
  "hishtalmut_rows vs = bindE (mapE clalRecord vs) (\<lambda>rows.
     bindE (mapE (\<lambda>row. case field row ''IsHishtalmut'' of JBool b \<Rightarrow> Inr (row, b) | _ \<Rightarrow> invalid) rows) (\<lambda>flagged.
       Inr (map fst (filter snd flagged))))"

definition daily_item :: "jsval \<Rightarrow> details_index \<Rightarrow> details_index res" where
  "daily_item raw m = bindE (clalRecord raw) (\<lambda>row. bindE (clalProductIdentity HishtalmutFamily (field row ''InsuranceNumber'')) (\<lambda>(i, _).
     if map_of m i \<noteq> None then invalid else Inr (m @ [(i, row)])))"

definition dailyItems :: "api_response option \<Rightarrow> inv_snapshot \<Rightarrow> (details_index \<times> inv_snapshot) res" where
  "dailyItems balances s =
     (case balances of
        None \<Rightarrow> Inr ([], s)
      | Some response \<Rightarrow> bindE (responseData response) (\<lambda>daily.
          let s1 = (if field daily ''AllPoliciesFoundInCache'' \<noteq> JBool True then s\<lparr>sn_complete := False\<rparr> else s) in
          bindE (requireClalSuccess (field daily ''GemelDailyBalanceData'')) (\<lambda>data.
          bindE (clalArray (field data ''Items'')) (\<lambda>items.
          bindE (foldE daily_item items []) (\<lambda>m. Inr (m, s1))))))"

text \<open>The details that are left, and the snapshot.\<close>

type_synonym portfolio_state = "details_index \<times> inv_snapshot"

definition with_detail :: "(fields \<Rightarrow> reading \<Rightarrow> reading res) \<Rightarrow> details_index \<Rightarrow> reading \<Rightarrow> portfolio_state res" where
  "with_detail metadata m = (\<lambda>(s, p).
     case map_of m (ip_id p) of
       None \<Rightarrow> Inr (m, s\<lparr>sn_complete := False, id_products := id_products s @ [p]\<rparr>)
     | Some data \<Rightarrow> bindE (metadata data (s, p)) (\<lambda>(s', p').
         Inr (filter (\<lambda>(i, _). i \<noteq> ip_id p) m, s'\<lparr>id_products := id_products s' @ [p']\<rparr>)))"

definition pension_step :: "clal_env \<Rightarrow> jsval \<Rightarrow> portfolio_state \<Rightarrow> portfolio_state res" where
  "pension_step env raw = (\<lambda>(m, s). bindE (clalRecord raw) (\<lambda>row.
     bindE (new_product PensionFamily (field row ''PolicyId'') (js_or (field row ''PensionPlanName'') (field row ''FoundationName''))) (\<lambda>p.
     bindE (currentValue env (field row ''BalanceTotal'') (field row ''ValidationDate'') (s, p)) (\<lambda>r.
       with_detail (pensionMetadata env) m r))))"

definition gemel_step :: "clal_env \<Rightarrow> details_index \<Rightarrow> fields \<Rightarrow> portfolio_state \<Rightarrow> portfolio_state res" where
  "gemel_step env daily row = (\<lambda>(m, s).
     bindE (new_product HishtalmutFamily (field row ''InsuranceNumber'') (js_or (field row ''InsuranceName'') (field row ''InsuranceTypeName''))) (\<lambda>p.
     let item = map_of daily (ip_id p); of_item = (\<lambda>k. js_prop item k) in
     bindE (currentValue env (of_item ''Balance'') (of_item ''ProfitUpdateDate'') (s, p)) (\<lambda>r.
       with_detail (gemelMetadata env) m r)))"

definition empty_snapshot :: "jsstr \<Rightarrow> inv_snapshot" where
  "empty_snapshot observedAt = \<lparr>id_products = [], id_valuations = [], id_activities = [], id_tracks = [], id_executions = [],
     sn_observedAt = observedAt, sn_complete = True, sn_inventoryComplete = True\<rparr>"

definition unique_ids :: "inv_snapshot \<Rightarrow> bool" where
  "unique_ids s \<longleftrightarrow> distinct (map ip_id (id_products s)) \<and> distinct (map iv_id (id_valuations s)) \<and> distinct (map it_id (id_tracks s))"

text \<open>A snapshot the schema refuses is an invalid response.\<close>

definition validated :: "zod_env \<Rightarrow> inv_snapshot \<Rightarrow> inv_snapshot res" where
  "validated env s = (case parse_snapshot env s of Inl e \<Rightarrow> invalid | Inr t \<Rightarrow> Inr t)"

definition parseClalPortfolioSnapshot :: "clal_env \<Rightarrow> portfolio_input \<Rightarrow> inv_snapshot res" where
  "parseClalPortfolioSnapshot env input =
     (if \<not> ze_datetime (cl_zod env) (pf_observedAt input) then invalid
      else
      bindE (responseData (pf_portfolio input)) (\<lambda>home.
      bindE (indexDetails PensionFamily (pf_pensionDetails input)) (\<lambda>pensions.
      bindE (indexDetails HishtalmutFamily (pf_gemelDetails input)) (\<lambda>gemels.
      bindE (clalArray (field home ''PortfolioDataPensionFundation'')) (\<lambda>pensionRows.
      bindE (bindE (clalArray (field home ''PortfolioDataGemelHichudList'')) hishtalmut_rows) (\<lambda>hishtalmutRows.
      bindE (dailyItems (pf_dailyBalances input) (empty_snapshot (pf_observedAt input))) (\<lambda>(daily, s).
      bindE (foldE (pension_step env) pensionRows (pensions, s)) (\<lambda>(pensions', s1).
      bindE (foldE (gemel_step env daily) hishtalmutRows (gemels, s1)) (\<lambda>(gemels', s2).
        if pensions' \<noteq> [] \<or> gemels' \<noteq> [] \<or> id_products s2 = [] \<or> \<not> unique_ids s2 then invalid
        else validated (cl_zod env) (s2\<lparr>sn_inventoryComplete := sn_complete s2\<rparr>))))))))))"

end
