(* ===== verification/InvMoney.thy ===== *)
theory InvMoney
  imports InvPortfolio
begin

text \<open>The amounts the readers of provider money return: their shape, their cents, and reading them again.\<close>

definition cent_text :: "nat \<Rightarrow> jsstr \<Rightarrow> jsstr" where
  "cent_text n f = nat_str n @ 46 # f"

definition two_digits :: "jsstr \<Rightarrow> bool" where
  "two_digits f \<longleftrightarrow> length f = 2 \<and> list_all is_digit f"

lemma is_digit_not [simp]: "is_digit c \<Longrightarrow> c \<noteq> 44" "is_digit c \<Longrightarrow> c \<noteq> 45" "is_digit c \<Longrightarrow> c \<noteq> 46" "is_digit c \<Longrightarrow> \<not> is_space c"
  by (auto simp: is_digit_def is_space_def)

lemma digits_not_in: "list_all is_digit s \<Longrightarrow> 44 \<notin> set s" "list_all is_digit s \<Longrightarrow> 46 \<notin> set s" "list_all is_digit s \<Longrightarrow> 45 \<notin> set s"
  by (auto simp: list_all_iff is_digit_def)

lemma filter_digits: "list_all is_digit s \<Longrightarrow> filter (\<lambda>c. c \<noteq> 44) s = s"
  by (auto simp: list_all_iff is_digit_def filter_id_conv)

lemma normal_amount_form:
  assumes "clal_amount unsigned"
  obtains n f where "normal_amount unsigned = cent_text n f" "two_digits f"
proof (cases "index_of 46 unsigned")
  case None
  then have "index_of 46 (filter (\<lambda>c. c \<noteq> 44) unsigned) = None"
    by (simp add: index_of_None)
  then show ?thesis
    by (intro that [of "digits_val (filter (\<lambda>c. c \<noteq> 44) unsigned)" "[48, 48]"])
      (simp_all add: normal_amount_def cent_text_def two_digits_def is_digit_def Let_def numeral_2_eq_2)
next
  case (Some j)
  define f where "f = drop (Suc j) unsigned"
  define g where "g = filter (\<lambda>c. c \<noteq> 44) (take j unsigned)"
  have f: "list_all is_digit f" "f \<noteq> []" "length f \<le> 2"
    using assms Some by (simp_all add: clal_amount_def f_def)
  have at: "j < length unsigned" "unsigned ! j = 46" "46 \<notin> set (take j unsigned)"
    using index_of_Some [OF Some] by auto
  then have "unsigned = take j unsigned @ 46 # f"
    using id_take_nth_drop [of j unsigned] by (simp add: f_def)
  then have "filter (\<lambda>c. c \<noteq> 44) unsigned = filter (\<lambda>c. c \<noteq> 44) (take j unsigned @ 46 # f)"
    by simp
  then have plain: "filter (\<lambda>c. c \<noteq> 44) unsigned = g @ 46 # f"
    using filter_digits [OF f(1)] by (simp add: g_def)
  moreover have "46 \<notin> set g"
    using at(3) by (simp add: g_def)
  ultimately have "normal_amount unsigned = cent_text (digits_val g) (f @ replicate (2 - length f) 48)"
    by (simp add: normal_amount_def index_of_append cent_text_def Let_def)
  moreover have "two_digits (f @ replicate (2 - length f) 48)"
    using f by (auto simp: two_digits_def list_all_iff is_digit_def)
  ultimately show ?thesis
    by (rule that)
qed

lemma normal_amount_again:
  assumes "two_digits f"
  shows "clal_amount (cent_text n f)" "normal_amount (cent_text n f) = cent_text n f"
proof -
  have digits: "list_all is_digit (nat_str n)" "list_all is_digit f" "length f = 2"
    using assms by (simp_all add: two_digits_def nat_str_all_digits)
  note free = digits_not_in [OF digits(1)] digits_not_in [OF digits(2)]
  have "index_of 46 (cent_text n f) = Some (length (nat_str n))"
    using free by (simp add: cent_text_def index_of_append)
  then show "clal_amount (cent_text n f)"
    using digits by (auto simp: clal_amount_def cent_text_def grouped_digits_def)
  have "filter (\<lambda>c. c \<noteq> 44) (cent_text n f) = cent_text n f"
    using filter_digits [OF digits(1)] filter_digits [OF digits(2)] by (simp add: cent_text_def)
  then show "normal_amount (cent_text n f) = cent_text n f"
    using \<open>index_of 46 (cent_text n f) = _\<close> digits(3) by (simp add: normal_amount_def Let_def) (simp add: cent_text_def)
qed

lemma cent_text_plain:
  assumes "two_digits f"
  shows "js_trim (cent_text n f) = cent_text n f" "cent_text n f \<noteq> []" "\<not> starts_with (cent_text n f) (js ''-'')"
proof -
  have "is_digit (hd (cent_text n f))" "is_digit (last (cent_text n f))"
    using assms nat_str_digits [OF hd_in_set [OF nat_str_not_Nil]] last_in_set [of f]
    by (auto simp: cent_text_def two_digits_def list_all_iff)
  then show "js_trim (cent_text n f) = cent_text n f" "cent_text n f \<noteq> []"
    by (auto simp: cent_text_def intro!: js_trim_same)
  show "\<not> starts_with (cent_text n f) (js ''-'')"
    using \<open>is_digit (hd (cent_text n f))\<close> by (cases "nat_str n") (auto simp: starts_with_def cent_text_def is_digit_def)
qed

lemma parseClalMoney_amount:
  assumes "parseClalMoney v = Inr amount"
  obtains u where "clal_amount u" "amount = normal_amount u \<or> amount = js ''-'' @ normal_amount u"
proof -
  obtain input where input: "clal_text v = Inr input"
    using assms by (auto simp: parseClalMoney_def)
  define u where "u = (if starts_with input (js ''-'') then tl input else input)"
  have "clal_amount u \<and> (amount = normal_amount u \<or> amount = js ''-'' @ normal_amount u)"
    using assms unfolding parseClalMoney_def input bindE_simps Let_def u_def [symmetric] by (auto split: if_splits)
  with that show ?thesis
    by blast
qed

text \<open>An amount that is not negative.\<close>

lemma nonnegativeMoney_form:
  assumes "nonnegativeMoney v = Inr amount"
  obtains n f where "amount = cent_text n f" "two_digits f"
proof -
  have "parseClalMoney v = Inr amount" "\<not> starts_with amount (js ''-'')"
    using assms by (auto simp: nonnegativeMoney_def split: if_splits)
  moreover have "starts_with (js ''-'' @ x) (js ''-'')" for x
    by (simp add: starts_with_def)
  ultimately have "\<exists>u. clal_amount u \<and> amount = normal_amount u"
    using parseClalMoney_amount by blast
  with that show ?thesis
    using normal_amount_form by metis
qed

lemma nonnegativeMoney_again:
  assumes "nonnegativeMoney v = Inr amount"
  shows "nonnegativeMoney (JStr amount) = Inr amount"
proof -
  obtain n f where form: "amount = cent_text n f" "two_digits f"
    using nonnegativeMoney_form [OF assms] .
  note plain = cent_text_plain [OF form(2), of n]
  have "clal_text (JStr amount) = Inr amount"
    using plain by (simp add: clal_text_def form)
  then show ?thesis
    using plain(3) normal_amount_again [OF form(2), of n] by (simp add: nonnegativeMoney_def parseClalMoney_def form(1) Let_def)
qed

lemma cents_zero [simp]: "cents [48, 46, 48, 48] = 0"
  by (simp add: cents_def starts_with_def digits_val_def Let_def)

end
