(* ===== verification/InvReconcile.thy ===== *)
theory InvReconcile
  imports InvMoney
begin

text \<open>
  Only reconciled data of the portal replaces saved data: in a complete snapshot the routes of every study fund add
  up to the current value of the fund.
\<close>

section \<open>Identities are trimmed\<close>

definition ends_well :: "jsstr \<Rightarrow> bool" where
  "ends_well r \<longleftrightarrow> r \<noteq> [] \<and> \<not> is_space (last r)"

lemma ends_well_append: "ends_well u \<Longrightarrow> r = [] \<or> ends_well r \<Longrightarrow> ends_well (u @ r)" "r \<noteq> [] \<Longrightarrow> ends_well r \<Longrightarrow> ends_well (u @ r)"
  by (auto simp: ends_well_def)

lemma ends_well_pct: "ends_well (pct b)"
proof -
  have "b mod 16 < 16"
    by simp
  then have "\<not> is_space (hex_char (b mod 16))"
    unfolding hex_char_def is_space_def by auto
  then show ?thesis
    by (simp add: ends_well_def pct_def)
qed

lemma ends_well_utf8: "ends_well (concat (map pct (utf8_cp c)))"
  using ends_well_pct by (simp add: utf8_cp_def ends_well_append)

lemma ends_well_unreserved: "uri_unreserved c \<Longrightarrow> ends_well [c]"
  by (auto simp: ends_well_def uri_unreserved_def is_word_def is_digit_def is_upper_def is_lower_def is_space_def)

lemma encode_ends: "encodeURIComponent s = Inr r \<Longrightarrow> s = [] \<and> r = [] \<or> ends_well r"
proof (induction s arbitrary: r rule: encodeURIComponent.induct)
  case (2 c s)
  show ?case
  proof (cases "uri_unreserved c")
    case True
    with 2 obtain x where "encodeURIComponent s = Inr x" "r = [c] @ x"
      by auto
    with 2(1) [OF True] ends_well_append(1) [OF ends_well_unreserved [OF True], of x] show ?thesis
      by auto
  next
    case plain: False
    show ?thesis
    proof (cases "is_high c")
      case True
      with plain 2(4) obtain d s' x where s: "s = d # s'" "is_low d" "encodeURIComponent s' = Inr x" "r = concat (map pct (utf8_cp (pair_cp c d))) @ x"
        "\<not> is_low c"
        by (auto split: if_splits list.splits)
      have "s' = [] \<and> x = [] \<or> ends_well x"
        by (rule 2(2) [OF plain s(5) True s(1,2,3)])
      with s(4) ends_well_append(1) [OF ends_well_utf8, of x] show ?thesis
        by auto
    next
      case False
      with plain 2(4) obtain x where "encodeURIComponent s = Inr x" "r = concat (map pct (utf8_cp c)) @ x" "\<not> is_low c"
        by (auto split: if_splits)
      with 2(3) [OF plain] False ends_well_append(1) [OF ends_well_utf8, of x] show ?thesis
        by auto
    qed
  qed
qed simp

lemma product_id_trimmed:
  assumes "investmentProductId providerProductId provider = Inr i"
  shows "js_trim i = i"
proof -
  obtain enc where enc: "encodeURIComponent (js_trim providerProductId) = Inr enc" "js_trim providerProductId \<noteq> []" "i = provider_text provider @ js '':'' @ enc"
    using assms by (auto simp: investmentProductId_def id_part_def checked_id_def Let_def split: if_splits)
  have "ends_well i"
    using encode_ends [OF enc(1)] enc(2) by (simp add: enc(3) ends_well_append ends_well_def)
  moreover have "\<not> is_space (hd i)"
    by (cases provider) (simp_all add: enc(3) provider_text_def is_space_def)
  ultimately show ?thesis
    by (simp add: ends_well_def js_trim_same)
qed

section \<open>One product\<close>

definition amounts :: "inv_track list \<Rightarrow> int" where
  "amounts ts = sum_list (map (\<lambda>t. case it_amount t of None \<Rightarrow> 0 | Some a \<Rightarrow> cents a) ts)"

lemma amounts_append [simp]: "amounts (a @ b) = amounts a + amounts b" "amounts [] = 0"
  by (simp_all add: amounts_def)

text \<open>A piece of the snapshot after a product was read: more valuations and routes of that product, and no gain of completeness.\<close>

definition reads :: "inv_product \<Rightarrow> inv_snapshot \<Rightarrow> inv_snapshot \<Rightarrow> inv_track list \<Rightarrow> bool" where
  "reads p s s' ts \<longleftrightarrow> id_products s' = id_products s \<and> id_tracks s' = id_tracks s @ ts \<and> (\<forall>t\<in>set ts. it_productId t = ip_id p) \<and>
     (\<exists>vs. id_valuations s' = id_valuations s @ vs) \<and> (sn_complete s' \<longrightarrow> sn_complete s)"

definition same_product :: "inv_product \<Rightarrow> inv_product \<Rightarrow> bool" where
  "same_product p q \<longleftrightarrow> ip_id q = ip_id p \<and> ip_kind q = ip_kind p \<and> ip_currentValuationId q = ip_currentValuationId p"

lemma same_product_refl [simp]: "same_product p p"
  by (simp add: same_product_def)

lemma found_member: "find P xs = Some x \<Longrightarrow> x \<in> set xs \<and> P x"
  by (auto simp: find_Some_iff)

lemma verify_cases:
  assumes "verifyCurrentValue env a d p s = Inr s'"
  obtains "s' = s\<lparr>sn_complete := False\<rparr>"
  | v where "s' = s" "v \<in> set (id_valuations s)" "Some (iv_id v) = ip_currentValuationId p" "nonnegativeMoney a = Inr (iv_amount v)"
proof (cases "find (\<lambda>v. Some (iv_id v) = ip_currentValuationId p) (id_valuations s)")
  case None
  with assms that show ?thesis
    by (auto simp: verifyCurrentValue_def)
next
  case (Some v)
  note member = found_member [OF Some]
  show ?thesis
  proof (cases "s' = s\<lparr>sn_complete := False\<rparr>")
    case False
    with assms Some have "s' = s" "nonnegativeMoney a = Inr (iv_amount v)"
      by (auto simp: verifyCurrentValue_def split: if_splits)
    with member that(2) show ?thesis
      by blast
  qed (rule that)
qed

lemma reads_verify: "verifyCurrentValue env a d p s = Inr s' \<Longrightarrow> reads p s s' []"
  by (erule verify_cases) (simp_all add: reads_def)

lemma reads_trans: "reads p s s1 ts \<Longrightarrow> reads p s1 s2 us \<Longrightarrow> reads p s s2 (ts @ us)"
  by (auto simp: reads_def)

lemma gemel_rows:
  assumes "foldE (gemel_track env s p date) rows ([], 0) = Inr (parsed, added)"
  shows "(\<forall>t\<in>set parsed. it_productId t = ip_id p) \<and> added = amounts parsed"
proof -
  let ?P = "\<lambda>(ts, n). (\<forall>t\<in>set ts. it_productId t = ip_id p) \<and> n = amounts ts"
  have "?P (parsed, added)"
  proof (rule foldE_invariant [OF assms, where P = ?P])
    fix raw st st'
    assume "?P st" "gemel_track env s p date raw st = Inr st'"
    then show "?P st'"
      by (cases st; cases st') (auto simp: gemel_track_def track_row_def amounts_def split: if_splits)
  qed (simp add: amounts_def)
  then show ?thesis
    by simp
qed

lemma liquidity_same: "same_product p (liquidity_of env s d p)"
  by (simp add: liquidity_of_def same_product_def split: option.split)

lemma gemel_result_cases:
  assumes "gemel_result tab balance parsed added (s, p) = Inr (s', q)"
  obtains "s' = s\<lparr>sn_complete := False\<rparr>" "same_product p q"
  | "added = cents balance" "s' = s\<lparr>id_tracks := id_tracks s @ parsed\<rparr>" "same_product p q"
  using assms by (auto simp: gemel_result_def same_product_def split: if_splits)

lemma gemel_parts:
  assumes "gemelMetadata env data (s, p) = Inr (s', q)"
  obtains balance s1 parsed added tab availableFrom a d v where "nonnegativeMoney a = Inr balance" "verifyCurrentValue env (JStr balance) d p s = Inr s1"
    "(\<forall>t\<in>set parsed. it_productId t = ip_id p) \<and> added = amounts parsed"
    "gemel_result tab balance parsed added (s1, liquidity_of env s1 availableFrom p) = Inr (s', q)"
proof -
  have "field data ''IsHishtalmut'' = JBool True \<and> field data ''IsGemelDailyBalanceSuccess'' = JBool True"
    using assms by (simp add: gemelMetadata_def split: if_splits)
  then show ?thesis
    using assms gemel_rows
    unfolding gemelMetadata_def prod.case bindE_eq_Inr by (simp only: not_True_eq_False if_False simp_thms bindE_eq_Inr split_paired_Ex prod.case) (blast intro: that)
qed

lemma gemel_reads:
  assumes "gemelMetadata env data (s, p) = Inr (s', q)"
  obtains ts where "reads p s s' ts" "same_product p q"
    "sn_complete s' \<Longrightarrow> \<exists>v\<in>set (id_valuations s'). Some (iv_id v) = ip_currentValuationId p \<and> amounts ts = cents (iv_amount v)"
proof -
  obtain balance s1 parsed added tab availableFrom a d where
    m: "nonnegativeMoney a = Inr balance" "verifyCurrentValue env (JStr balance) d p s = Inr s1"
      "(\<forall>t\<in>set parsed. it_productId t = ip_id p) \<and> added = amounts parsed"
    and result: "gemel_result tab balance parsed added (s1, liquidity_of env s1 availableFrom p) = Inr (s', q)"
    using gemel_parts [OF assms] .
  note first = reads_verify [OF m(2)] and kept = liquidity_same [of p env s1 availableFrom]
  from result show ?thesis
  proof (cases rule: gemel_result_cases)
    case 1
    with first kept that [of "[]"] show ?thesis
      by (simp add: reads_def same_product_def)
  next
    case 2
    have "reads p s s' parsed"
      using first m(3) by (auto simp: 2 reads_def)
    moreover have "\<exists>v\<in>set (id_valuations s'). Some (iv_id v) = ip_currentValuationId p \<and> amounts parsed = cents (iv_amount v)" if "sn_complete s'"
      using m(2)
    proof (cases rule: verify_cases)
      case 1
      with that 2 show ?thesis
        by simp
    next
      case (2 v)
      with nonnegativeMoney_again [OF m(1)] m(3) \<open>added = _\<close> \<open>s' = _\<close> show ?thesis
        by auto
    qed
    ultimately show ?thesis
      using 2 kept that by (simp add: same_product_def)
  qed
qed

lemma pension_tracks:
  assumes "foldE (pension_track p) rows s = Inr s'"
  shows "\<exists>ts. reads p s s' ts"
proof (rule foldE_invariant [OF assms, where P = "\<lambda>s'. \<exists>ts. reads p s s' ts"])
  show "\<exists>ts. reads p s s ts"
    by (rule exI [of _ "[]"]) (simp add: reads_def)
next
  fix raw t t'
  assume "\<exists>ts. reads p s t ts" "pension_track p raw t = Inr t'"
  moreover from this(2) have "\<exists>us. reads p t t' us"
    by (auto simp: pension_track_def reads_def track_row_def)
  ultimately show "\<exists>ts. reads p s t' ts"
    by (blast intro: reads_trans)
qed

lemma coverage_same: "coverage_forecast p coverages = Inr q \<Longrightarrow> same_product p q"
  by (cases "absent (field coverages ''PensiaPrisha'')") (auto simp: coverage_forecast_def same_product_def)

lemma forecast_same: "forecast_of data p = Inr q \<Longrightarrow> same_product p q"
  by (cases "field data ''hasPolicyInsCoverages'' = JBool True") (auto simp: forecast_of_def coverage_same)

lemma pension_reads:
  assumes "pensionMetadata env data (s, p) = Inr (s', q)"
  obtains ts where "reads p s s' ts" "same_product p q"
proof -
  obtain a d s1 p1 rows where m: "verifyCurrentValue env a d p s = Inr s1" "forecast_of data p = Inr p1" "foldE (pension_track p) rows s1 = Inr s'"
    "q = p1\<lparr>ip_tracks := (if rows \<noteq> [] then CoverPartial else CoverNone)\<rparr>"
    using assms by (auto simp: pensionMetadata_def)
  with reads_verify [OF m(1)] pension_tracks [OF m(3)] forecast_same [OF m(2)] show ?thesis
    by (auto simp: same_product_def intro: that dest: reads_trans)
qed

lemma current_reads:
  assumes "currentValue env a d (s, p) = Inr (s', q)"
  shows "reads p s s' []" "ip_id q = ip_id p" "ip_kind q = ip_kind p"
  using assms by (auto simp: currentValue_def reads_def split: if_splits)

section \<open>All products\<close>

text \<open>What reading one product does to the snapshot.\<close>

definition adds_product :: "inv_snapshot \<Rightarrow> inv_snapshot \<Rightarrow> bool" where
  "adds_product s s' \<longleftrightarrow> (\<exists>p ts. id_products s' = id_products s @ [p] \<and> js_trim (ip_id p) = ip_id p \<and> id_tracks s' = id_tracks s @ ts \<and>
     (\<forall>t\<in>set ts. it_productId t = ip_id p) \<and> (\<exists>vs. id_valuations s' = id_valuations s @ vs) \<and> (sn_complete s' \<longrightarrow> sn_complete s) \<and>
     (sn_complete s' \<and> ip_kind p = KerenHishtalmut \<longrightarrow>
       (\<exists>v\<in>set (id_valuations s'). Some (iv_id v) = ip_currentValuationId p \<and> amounts ts = cents (iv_amount v))))"

lemma product_added:
  assumes "reads p s s1 []" "reads q s1 s2 ts" "ip_id q = ip_id p" "same_product q r" "js_trim (ip_id p) = ip_id p"
    "sn_complete s2 \<Longrightarrow> ip_kind q = KerenHishtalmut \<Longrightarrow>
       \<exists>v\<in>set (id_valuations s2). Some (iv_id v) = ip_currentValuationId q \<and> amounts ts = cents (iv_amount v)"
  shows "adds_product s (s2\<lparr>id_products := id_products s2 @ [r]\<rparr>)"
proof -
  have vs: "\<exists>vs. id_valuations s2 = id_valuations s @ vs"
    using assms(1,2) by (auto simp: reads_def)
  have first: "id_products s1 = id_products s" "id_tracks s1 = id_tracks s" "sn_complete s1 \<longrightarrow> sn_complete s"
    using assms(1) by (simp_all add: reads_def)
  have second: "id_products s2 = id_products s1" "id_tracks s2 = id_tracks s1 @ ts" "\<forall>t\<in>set ts. it_productId t = ip_id r" "sn_complete s2 \<longrightarrow> sn_complete s1"
    using assms(2,4) by (simp_all add: reads_def same_product_def)
  have kept: "ip_id r = ip_id q" "ip_kind r = ip_kind q" "ip_currentValuationId r = ip_currentValuationId q"
    using assms(4) by (simp_all add: same_product_def)
  show ?thesis
    unfolding adds_product_def
    by (rule exI [of _ r], rule exI [of _ ts]) (use vs first second kept assms(3,5,6) in simp)
qed

lemma without_detail:
  assumes "reads p s s1 []" "ip_id q = ip_id p" "js_trim (ip_id p) = ip_id p"
  shows "adds_product s (s1\<lparr>sn_complete := False, id_products := id_products s1 @ [q]\<rparr>)"
  using assms unfolding adds_product_def reads_def by (intro exI [of _ q] exI [of _ "[]"]) auto

lemma new_product_facts: "new_product f a b = Inr p \<Longrightarrow>
    js_trim (ip_id p) = ip_id p \<and> (ip_kind p = KerenHishtalmut \<longleftrightarrow> f = HishtalmutFamily)"
  by (cases f) (auto simp: new_product_def clalProductIdentity_def Let_def product_id_trimmed)

lemma step_adds:
  assumes "new_product f a b = Inr p" "currentValue env c d (s, p) = Inr (s1, q)" "with_detail metadata m (s1, q) = Inr (m', s')"
    and metadata: "\<And>data s2 r. metadata data (s1, q) = Inr (s2, r) \<Longrightarrow> \<exists>ts. reads q s1 s2 ts \<and> same_product q r \<and>
      (sn_complete s2 \<longrightarrow> f = HishtalmutFamily \<longrightarrow> (\<exists>v\<in>set (id_valuations s2). Some (iv_id v) = ip_currentValuationId q \<and> amounts ts = cents (iv_amount v)))"
  shows "adds_product s s'"
proof -
  note new = new_product_facts [OF assms(1)] and current = current_reads [OF assms(2)]
  show ?thesis
  proof (cases "map_of m (ip_id q)")
    case None
    with assms(3) have "s' = s1\<lparr>sn_complete := False, id_products := id_products s1 @ [q]\<rparr>"
      by (simp add: with_detail_def)
    with without_detail [OF current(1,2)] new show ?thesis
      by simp
  next
    case (Some data)
    with assms(3) obtain s2 r where step: "metadata data (s1, q) = Inr (s2, r)" "s' = s2\<lparr>id_products := id_products s2 @ [r]\<rparr>"
      by (auto simp: with_detail_def)
    obtain ts where "reads q s1 s2 ts" "same_product q r"
        "sn_complete s2 \<longrightarrow> f = HishtalmutFamily \<longrightarrow> (\<exists>v\<in>set (id_valuations s2). Some (iv_id v) = ip_currentValuationId q \<and> amounts ts = cents (iv_amount v))"
      using metadata [OF step(1)] by blast
    with new current show ?thesis
      unfolding step(2) by (intro product_added [OF current(1)]) auto
  qed
qed

lemma pension_adds:
  assumes "pension_step env raw (m, s) = Inr (m', s')"
  shows "adds_product s s'"
proof -
  obtain row p s1 q where step: "new_product PensionFamily (field row ''PolicyId'') (js_or (field row ''PensionPlanName'') (field row ''FoundationName'')) = Inr p"
      "currentValue env (field row ''BalanceTotal'') (field row ''ValidationDate'') (s, p) = Inr (s1, q)"
      "with_detail (pensionMetadata env) m (s1, q) = Inr (m', s')"
    using assms by (auto simp: pension_step_def)
  show ?thesis
    by (rule step_adds [OF step]) (metis pension_reads clal_family.distinct(1))
qed

lemma gemel_adds:
  assumes "gemel_step env daily row (m, s) = Inr (m', s')"
  shows "adds_product s s'"
proof -
  obtain p s1 q where step: "new_product HishtalmutFamily (field row ''InsuranceNumber'') (js_or (field row ''InsuranceName'') (field row ''InsuranceTypeName'')) = Inr p"
      "currentValue env (js_prop (map_of daily (ip_id p)) ''Balance'') (js_prop (map_of daily (ip_id p)) ''ProfitUpdateDate'') (s, p) = Inr (s1, q)"
      "with_detail (gemelMetadata env) m (s1, q) = Inr (m', s')"
    using assms by (auto simp: gemel_step_def Let_def)
  show ?thesis
    by (rule step_adds [OF step]) (metis gemel_reads)
qed

definition track_cents :: "'a inv_data_scheme \<Rightarrow> jsstr \<Rightarrow> int" where
  "track_cents s i = amounts (filter (\<lambda>t. it_productId t = i) (id_tracks s))"

definition reconciled :: "'a inv_data_scheme \<Rightarrow> inv_product \<Rightarrow> bool" where
  "reconciled s p \<longleftrightarrow> (\<exists>v\<in>set (id_valuations s). Some (iv_id v) = ip_currentValuationId p \<and> track_cents s (ip_id p) = cents (iv_amount v))"

definition well_read :: "inv_snapshot \<Rightarrow> bool" where
  "well_read s \<longleftrightarrow> (\<forall>t\<in>set (id_tracks s). it_productId t \<in> ip_id ` set (id_products s)) \<and>
     (\<forall>p\<in>set (id_products s). js_trim (ip_id p) = ip_id p) \<and>
     (sn_complete s \<and> distinct (map ip_id (id_products s)) \<longrightarrow> (\<forall>p\<in>set (id_products s). ip_kind p = KerenHishtalmut \<longrightarrow> reconciled s p))"

lemma filter_owned: "\<forall>t\<in>set ts. it_productId t = i \<Longrightarrow> filter (\<lambda>t. it_productId t = j) ts = (if i = j then ts else [])"
  by (induction ts) auto

lemma well_read_step:
  assumes "well_read s" "adds_product s s'"
  shows "well_read s'"
proof -
  obtain p ts vs where s': "id_products s' = id_products s @ [p]" "js_trim (ip_id p) = ip_id p" "id_tracks s' = id_tracks s @ ts"
      "\<forall>t\<in>set ts. it_productId t = ip_id p" "id_valuations s' = id_valuations s @ vs" "sn_complete s' \<longrightarrow> sn_complete s"
      "sn_complete s' \<and> ip_kind p = KerenHishtalmut \<longrightarrow> (\<exists>v\<in>set (id_valuations s'). Some (iv_id v) = ip_currentValuationId p \<and> amounts ts = cents (iv_amount v))"
    using assms(2) unfolding adds_product_def by blast
  have owned: "\<forall>t\<in>set (id_tracks s). it_productId t \<in> ip_id ` set (id_products s)"
    using assms(1) by (simp add: well_read_def)
  have "reconciled s' q" if "sn_complete s'" "distinct (map ip_id (id_products s'))" "q \<in> set (id_products s')" "ip_kind q = KerenHishtalmut" for q
  proof -
    have fresh: "ip_id p \<notin> ip_id ` set (id_products s)" "distinct (map ip_id (id_products s))"
      using that(2) s'(1) by auto
    show ?thesis
    proof (cases "q = p")
      case True
      have "it_productId t \<noteq> ip_id p" if "t \<in> set (id_tracks s)" for t
        using bspec [OF owned that] fresh(1) by metis
      then have "filter (\<lambda>t. it_productId t = ip_id p) (id_tracks s) = []"
        by (simp add: filter_empty_conv)
      with s'(3,4,7) that(1,4) True show ?thesis
        by (simp add: reconciled_def track_cents_def filter_owned)
    next
      case False
      with that s'(1) have q: "q \<in> set (id_products s)"
        by simp
      with fresh(1) have "ip_id p \<noteq> ip_id q"
        by auto
      moreover have "reconciled s q"
        using assms(1) that(1,4) s'(6) fresh(2) q by (simp add: well_read_def)
      ultimately show ?thesis
        using s'(3,4,5) by (auto simp: reconciled_def track_cents_def filter_owned)
    qed
  qed
  moreover have "\<forall>t\<in>set (id_tracks s'). it_productId t \<in> ip_id ` set (id_products s')" "\<forall>p\<in>set (id_products s'). js_trim (ip_id p) = ip_id p"
    using owned assms(1) s'(1,2,3,4) by (auto simp: well_read_def)
  ultimately show ?thesis
    by (simp add: well_read_def)
qed

lemma well_read_fold:
  assumes "foldE f xs (m, s) = Inr (m', s')" "well_read s"
    and "\<And>x m s m' s'. f x (m, s) = Inr (m', s') \<Longrightarrow> adds_product s s'"
  shows "well_read s'"
proof -
  have "well_read (snd (m', s'))"
  proof (rule foldE_invariant [OF assms(1), where P = "\<lambda>st. well_read (snd st)"])
    show "well_read (snd (m, s))"
      using assms(2) by simp
    show "well_read (snd st)" if "well_read (snd st0)" "f x st0 = Inr st" for x st0 st
      using that assms(3) [of x "fst st0" "snd st0" "fst st" "snd st"] well_read_step by simp
  qed
  then show ?thesis
    by simp
qed

lemma well_read_empty: "id_products s = [] \<Longrightarrow> id_tracks s = [] \<Longrightarrow> well_read s"
  by (simp add: well_read_def)

text \<open>Trimming by the schema leaves the identities alone.\<close>

lemma track_cents_trim:
  assumes "\<forall>t\<in>set (id_tracks s). js_trim (it_productId t) = it_productId t"
  shows "track_cents (trim_data s) i = track_cents s i"
proof -
  have "amounts (filter (\<lambda>t. it_productId t = i) (map trim_track ts)) = amounts (filter (\<lambda>t. it_productId t = i) ts)"
    if "\<forall>t\<in>set ts. js_trim (it_productId t) = it_productId t" for ts
    using that by (induction ts) (auto simp: trim_track_def amounts_def)
  with assms show ?thesis
    by (simp add: track_cents_def trim_data_def)
qed

lemma reconciled_trim:
  assumes "well_read s" "p \<in> set (id_products s)" "reconciled s p"
  shows "reconciled (trim_data s) (trim_product p)"
proof -
  obtain v where v: "v \<in> set (id_valuations s)" "Some (iv_id v) = ip_currentValuationId p" "track_cents s (ip_id p) = cents (iv_amount v)"
    using assms(3) by (auto simp: reconciled_def)
  have "\<forall>t\<in>set (id_tracks s). js_trim (it_productId t) = it_productId t"
    using assms(1) by (auto simp: well_read_def)
  moreover have "js_trim (ip_id p) = ip_id p"
    using assms(1,2) by (simp add: well_read_def)
  moreover have "trim_valuation v \<in> set (id_valuations (trim_data s))" "map_option js_trim (ip_currentValuationId p) = Some (js_trim (iv_id v))"
    using v by (auto simp: trim_data_def dest: sym)
  ultimately show ?thesis
    using v(3) by (auto simp: reconciled_def track_cents_trim trim_product_def trim_valuation_def intro!: bexI [of _ "trim_valuation v"])
qed

lemma validated_facts:
  assumes "validated env s = Inr t"
  shows "t = trim_data s"
  using assms by (auto simp: validated_def parse_snapshot_def checked_by_def split: sum.splits if_splits)

lemma portfolio_parts:
  assumes "parseClalPortfolioSnapshot env input = Inr s"
  shows "\<exists>pensions gemels rows1 rows2 daily s0 m1 s1 m2 s2. id_products s0 = [] \<and> id_tracks s0 = [] \<and>
      foldE (pension_step env) rows1 (pensions, s0) = Inr (m1, s1) \<and> foldE (gemel_step env daily) rows2 (gemels, s1) = Inr (m2, s2) \<and>
      unique_ids s2 \<and> validated (cl_zod env) (s2\<lparr>sn_inventoryComplete := sn_complete s2\<rparr>) = Inr s"
proof -
  have daily: "id_products s0 = [] \<and> id_tracks s0 = []" if "dailyItems b (empty_snapshot at0) = Inr (m, s0)" for b at0 m s0
    using that by (cases b) (auto simp: dailyItems_def empty_snapshot_def Let_def split: if_splits)
  have "ze_datetime (cl_zod env) (pf_observedAt input)"
    using assms by (auto simp: parseClalPortfolioSnapshot_def split: if_splits)
  then obtain pensions gemels rows1 rows2 daily s0 m1 s1 m2 s2 where "dailyItems (pf_dailyBalances input) (empty_snapshot (pf_observedAt input)) = Inr (daily, s0)"
      "foldE (pension_step env) rows1 (pensions, s0) = Inr (m1, s1)" "foldE (gemel_step env daily) rows2 (gemels, s1) = Inr (m2, s2)"
      "(if m1 \<noteq> [] \<or> m2 \<noteq> [] \<or> id_products s2 = [] \<or> \<not> unique_ids s2 then invalid
        else validated (cl_zod env) (s2\<lparr>sn_inventoryComplete := sn_complete s2\<rparr>)) = Inr s"
    using assms unfolding parseClalPortfolioSnapshot_def
    by (simp only: not_True_eq_False if_False bindE_eq_Inr split_paired_Ex prod.case) (blast intro: that)
  moreover from this(4) have "unique_ids s2" "validated (cl_zod env) (s2\<lparr>sn_inventoryComplete := sn_complete s2\<rparr>) = Inr s"
    by (simp_all split: if_splits)
  ultimately show ?thesis
    using daily by blast
qed

text \<open>
  C26: a study fund's routes add up. When the raw answers of the Clal portal are read without an error and the
  snapshot counts as complete, so that it may replace saved data, every study fund in it has a current value, and the
  amounts of its routes add up, to the cent, to that value.
\<close>

theorem complete_funds_add_up:
  assumes "parseClalPortfolioSnapshot env input = Inr s" "sn_complete s" "p \<in> set (id_products s)" "ip_kind p = KerenHishtalmut"
  shows "\<exists>v\<in>set (id_valuations s). Some (iv_id v) = ip_currentValuationId p \<and> track_cents s (ip_id p) = cents (iv_amount v)"
proof -
  obtain pensions gemels rows1 rows2 daily s0 m1 s1 m2 s2 where steps: "id_products s0 = []" "id_tracks s0 = []"
      "foldE (pension_step env) rows1 (pensions, s0) = Inr (m1, s1)" "foldE (gemel_step env daily) rows2 (gemels, s1) = Inr (m2, s2)"
      "unique_ids s2" "validated (cl_zod env) (s2\<lparr>sn_inventoryComplete := sn_complete s2\<rparr>) = Inr s"
    using portfolio_parts [OF assms(1)] by (elim exE conjE) (rule that)
  have "well_read s1"
    by (rule well_read_fold [OF steps(3) well_read_empty [OF steps(1,2)] pension_adds])
  from well_read_fold [OF steps(4) this gemel_adds] have "well_read s2" .
  then have read: "well_read (s2\<lparr>sn_inventoryComplete := sn_complete s2\<rparr>)"
    by (simp add: well_read_def reconciled_def track_cents_def)
  have s: "s = trim_data (s2\<lparr>sn_inventoryComplete := sn_complete s2\<rparr>)"
    using validated_facts [OF steps(6)] .
  then obtain q where q: "q \<in> set (id_products s2)" "p = trim_product q"
    using assms(3) by (auto simp: trim_data_def)
  have "reconciled (s2\<lparr>sn_inventoryComplete := sn_complete s2\<rparr>) q"
    using read q assms(2,4) steps(5) s by (simp add: well_read_def unique_ids_def trim_data_def trim_product_def)
  from reconciled_trim [OF read _ this] q s show ?thesis
    by (simp add: reconciled_def)
qed

end
