(* ===== verification/InvReconcileExample.thy ===== *)
theory InvReconcileExample
  imports InvReconcile InvExample
begin

text \<open>A study fund of one route, read from the portal's answers.\<close>

definition clal_answer :: "fields \<Rightarrow> api_response" where
  "clal_answer fs = \<lparr>ar_status = JNum 200, ar_data = JObj ((js ''IsSuccess'', JBool True) # fs)\<rparr>"

definition example_clal :: clal_env where
  "example_clal = \<lparr>cl_zod = example_zod, cl_today = take 10\<rparr>"

definition example_fund :: fields where
  "example_fund = [(js ''IsHishtalmut'', JBool True), (js ''InsuranceNumber'', JStr (js ''7'')), (js ''InsuranceName'', JStr (js ''Fund''))]"

definition example_route :: jsval where
  "example_route = JObj [(js ''CurrentBalance'', JStr (js ''1.50'')), (js ''ConfirmationCode'', JStr (js ''1'')), (js ''ProductCode'', JStr (js ''2'')),
     (js ''KupaCode'', JStr (js ''3'')), (js ''Name'', JStr (js ''Shares''))]"

definition example_details :: fields where
  "example_details = [(js ''IsHishtalmut'', JBool True), (js ''IsGemelDailyBalanceSuccess'', JBool True),
     (js ''FundDetails'', JObj [(js ''FundNumber'', JStr (js ''7'')), (js ''Balance'', JStr (js ''1.5''))]),
     (js ''MaslulimTab'', JObj [(js ''Maslulim'', JArr [example_route]), (js ''BalanceSum'', JStr (js ''1.50''))])]"

definition example_portfolio :: portfolio_input where
  "example_portfolio = \<lparr>pf_portfolio = clal_answer [(js ''PortfolioDataPensionFundation'', JArr []), (js ''PortfolioDataGemelHichudList'', JArr [JObj example_fund])],
     pf_dailyBalances = Some (clal_answer [(js ''AllPoliciesFoundInCache'', JBool True), (js ''GemelDailyBalanceData'',
       JObj [(js ''IsSuccess'', JBool True), (js ''Items'', JArr [JObj [(js ''InsuranceNumber'', JStr (js ''7'')), (js ''Balance'', JStr (js ''1.50''))]])])]),
     pf_pensionDetails = [], pf_gemelDetails = [clal_answer example_details], pf_observedAt = js ''2024-07-10T08:00:00.000Z''\<rparr>"

lemma example_texts:
  "clal_text (JStr (js ''7'')) = Inr (js ''7'')" "clal_text (JStr (js ''Fund'')) = Inr (js ''Fund'')" "clal_text (JStr (js ''Shares'')) = Inr (js ''Shares'')"
  "nonnegativeMoney (JStr (js ''1.50'')) = Inr (js ''1.50'')" "nonnegativeMoney (JStr (js ''1.5'')) = Inr (js ''1.50'')"
  by (simp_all add: clal_text_def js_trim_def is_space_def nonnegativeMoney_def parseClalMoney_def starts_with_def normal_amount_def clal_amount_def
    grouped_digits_def is_digit_def nat_str_rec digits_val_def Let_def)

lemma example_fund_id: "investmentProductId (js ''hishtalmut:7'') Clal = Inr (js ''clal:hishtalmut%3A7'')"
  by (simp add: investmentProductId_def id_part_def js_trim_def is_space_def uri_unreserved_def is_word_def is_digit_def is_upper_def is_lower_def
   is_low_def is_high_def utf8_cp_def pct_def hex_char_def checked_id_def provider_text_def)

lemma example_identity: "clalProductIdentity HishtalmutFamily (JStr (js ''7'')) = Inr (js ''clal:hishtalmut%3A7'', js ''hishtalmut:7'')"
  using example_fund_id example_texts(1) by (simp add: clalProductIdentity_def family_text_def)

lemma example_answers:
  "responseData (clal_answer example_details) = Inr ((js ''IsSuccess'', JBool True) # example_details)"
  "responseData (pf_portfolio example_portfolio) = Inr [(js ''IsSuccess'', JBool True), (js ''PortfolioDataPensionFundation'', JArr []), (js ''PortfolioDataGemelHichudList'', JArr [JObj example_fund])]"
  "indexDetails HishtalmutFamily [clal_answer example_details] = Inr [(js ''clal:hishtalmut%3A7'', (js ''IsSuccess'', JBool True) # example_details)]"
  "dailyItems (pf_dailyBalances example_portfolio) s = Inr ([(js ''clal:hishtalmut%3A7'', [(js ''InsuranceNumber'', JStr (js ''7'')), (js ''Balance'', JStr (js ''1.50''))])], s)"
proof -
  note ev = responseData_def clal_answer_def is_safe_integer_def requireClalSuccess_def clalRecord_def clalArray_def field_def js_prop_def
  show 1: "responseData (clal_answer example_details) = Inr ((js ''IsSuccess'', JBool True) # example_details)"
    by (simp add: ev example_details_def)
  show "responseData (pf_portfolio example_portfolio) = Inr [(js ''IsSuccess'', JBool True), (js ''PortfolioDataPensionFundation'', JArr []), (js ''PortfolioDataGemelHichudList'', JArr [JObj example_fund])]"
    by (simp add: ev example_portfolio_def)
  show "indexDetails HishtalmutFamily [clal_answer example_details] = Inr [(js ''clal:hishtalmut%3A7'', (js ''IsSuccess'', JBool True) # example_details)]"
    using 1 example_identity by (simp add: indexDetails_def index_detail_def clalRecord_def field_def js_prop_def example_details_def)
  show "dailyItems (pf_dailyBalances example_portfolio) s = Inr ([(js ''clal:hishtalmut%3A7'', [(js ''InsuranceNumber'', JStr (js ''7'')), (js ''Balance'', JStr (js ''1.50''))])], s)"
    using example_identity by (simp add: dailyItems_def daily_item_def ev example_portfolio_def)
qed

definition example_product_read :: inv_product where
  "example_product_read = \<lparr>ip_id = js ''clal:hishtalmut%3A7'', ip_provider = Clal, ip_providerProductId = js ''hishtalmut:7'', ip_kind = KerenHishtalmut,
     ip_name = js ''Fund'', ip_currency = js ''ILS'', ip_currentValuationId = Some (js ''clal:hishtalmut%3A7:valuation:undated''), ip_liquidity = LiquidityUnknown,
     ip_availableFrom = None, ip_availableAmount = None, ip_valuations = CoverPartial, ip_activities = CoverNone, ip_tracks = CoverPartial,
     ip_executions = None, ip_forecast = None, ip_reports = None\<rparr>"

definition example_snapshot_read :: inv_snapshot where
  "example_snapshot_read = (empty_snapshot (js ''2024-07-10T08:00:00.000Z''))\<lparr>id_products := [example_product_read],
     id_valuations := [\<lparr>iv_id = js ''clal:hishtalmut%3A7:valuation:undated'', iv_productId = js ''clal:hishtalmut%3A7'', iv_asOf = None,
       iv_observedAt = js ''2024-07-10T08:00:00.000Z'', iv_amount = js ''1.50'', iv_currency = js ''ILS'', iv_provenance = None\<rparr>],
     id_tracks := [\<lparr>it_id = js ''clal:hishtalmut%3A7:track:1%3A2%3A3'', it_productId = js ''clal:hishtalmut%3A7'', it_name = js ''Shares'', it_allocationPercent = None,
       it_amount = Some (js ''1.50''), it_currency = js ''ILS'', it_asOf = None, it_observedAt = js ''2024-07-10T08:00:00.000Z''\<rparr>]\<rparr>"

lemma example_step:
  "gemel_step example_clal [(js ''clal:hishtalmut%3A7'', [(js ''InsuranceNumber'', JStr (js ''7'')), (js ''Balance'', JStr (js ''1.50''))])] example_fund
     ([(js ''clal:hishtalmut%3A7'', (js ''IsSuccess'', JBool True) # example_details)], empty_snapshot (js ''2024-07-10T08:00:00.000Z'')) = Inr ([], example_snapshot_read)"
proof -
  have track: "gemel_track example_clal s p None example_route ([], 0) = Inr ([track_row s p (js ''clal:hishtalmut%3A7:track:1%3A2%3A3'') (js ''Shares'') (Some (js ''1.50'')) None], 150)"
    if "ip_id p = js ''clal:hishtalmut%3A7''" for s p
    using that example_texts
    by (simp add: gemel_track_def example_route_def clalRecord_def field_def js_prop_def clal_text_def js_trim_def is_space_def uri_unreserved_def is_word_def is_digit_def
      investmentTrackId_def id_part_def is_upper_def is_lower_def is_low_def is_high_def utf8_cp_def pct_def hex_char_def checked_id_def trackDate_def parseClalDate_def blank_def
      cents_def starts_with_def digits_val_def)
  show ?thesis
    using example_identity example_texts track
    by (simp add: gemel_step_def new_product_def example_fund_def field_def js_prop_def js_or_def currentValue_def absent_def parseClalDate_def blank_def
      investmentValuationId_def checked_id_def empty_snapshot_def with_detail_def gemelMetadata_def gemel_result_def example_details_def clalRecord_def clalArray_def
      verifyCurrentValue_def liquidity_of_def cents_def starts_with_def digits_val_def del: bindE_eq_Inr)
      (simp add: example_snapshot_read_def example_product_read_def empty_snapshot_def track_row_def)
qed

lemma example_read: "parseClalPortfolioSnapshot example_clal example_portfolio = Inr example_snapshot_read"
proof -
  note stamp = example_observed
  have zeros: "replicate 4 48 = [48, 48, 48, 48 :: nat]"
    by (simp add: numeral_eq_Suc)
  have "validated example_zod example_snapshot_read = Inr example_snapshot_read"
    using stamp zeros
    by (simp add: validated_def parse_snapshot_def checked_by_def data_ok_def trim_data_def example_snapshot_read_def empty_snapshot_def example_product_read_def
      trim_product_def product_ok_def trim_valuation_def valuation_ok_def trim_track_def track_ok_def sized_def currency_code_def nonnegative_money_def money_def decimal_def
      valuation_money_def js_trim_def is_space_def starts_with_def is_digit_def is_upper_def null_or_def whole_number_def digits_val_def)
  moreover have "hishtalmut_rows [JObj example_fund] = Inr [example_fund]"
    by (simp add: hishtalmut_rows_def clalRecord_def example_fund_def field_def js_prop_def)
  moreover have "example_snapshot_read\<lparr>sn_inventoryComplete := sn_complete example_snapshot_read\<rparr> = example_snapshot_read" "unique_ids example_snapshot_read" "id_products example_snapshot_read \<noteq> []"
    by (simp_all add: example_snapshot_read_def empty_snapshot_def unique_ids_def)
  moreover have "pf_observedAt example_portfolio = js ''2024-07-10T08:00:00.000Z''" "pf_pensionDetails example_portfolio = []"
      "pf_gemelDetails example_portfolio = [clal_answer example_details]" "cl_zod example_clal = example_zod"
    by (simp_all add: example_portfolio_def example_clal_def)
  ultimately show ?thesis
    using example_answers example_step stamp
    by (simp add: parseClalPortfolioSnapshot_def indexDetails_def [of PensionFamily] field_def js_prop_def clalArray_def del: bindE_eq_Inr)
qed

theorem complete_funds_add_up_witness:
  "\<exists>s p v. parseClalPortfolioSnapshot example_clal example_portfolio = Inr s \<and> p \<in> set (id_products s) \<and> v \<in> set (id_valuations s) \<and>
     Some (iv_id v) = ip_currentValuationId p \<and> track_cents s (ip_id p) = cents (iv_amount v) \<and> id_tracks s \<noteq> []"
proof -
  have "sn_complete example_snapshot_read" "example_product_read \<in> set (id_products example_snapshot_read)" "ip_kind example_product_read = KerenHishtalmut"
      "id_tracks example_snapshot_read \<noteq> []"
    by (simp_all add: example_snapshot_read_def empty_snapshot_def example_product_read_def)
  with complete_funds_add_up [OF example_read this(1-3)] example_read show ?thesis
    by blast
qed

end
