(* ===== verification/InvActivities.thy ===== *)
theory InvActivities
  imports InvPortfolio JsJson
begin

text \<open>
  \<^verbatim>\<open>src/investments/clal-activities.ts\<close>: the deposits of the portal's history become activities, one for each
  group of rows that agree in everything but the amount.
\<close>

section \<open>Reading\<close>

record deposit_env = clal_env +
  cl_sha256 :: "jsstr \<Rightarrow> jsstr"
  cl_lc :: "jsstr \<Rightarrow> jsstr \<Rightarrow> int"

record deposit_component =
  dc_column :: string
  dc_kind :: activity_kind
  dc_label :: jsstr

record dimensions =
  dm_productId :: jsstr
  dm_employerId :: "jsstr option"
  dm_employerName :: "jsstr option"
  dm_bookingDate :: "jsstr option"
  dm_salaryMonth :: "jsstr option"
  dm_description :: jsstr
  dm_track :: "jsstr option"

record deposit_group =
  dg_activity :: inv_activity
  dg_cents :: int

definition pensionComponents :: "deposit_component list" where
  "pensionComponents =
     [\<lparr>dc_column = ''TigmulimAmit'', dc_kind = EmployeeContribution, dc_label = js ''Employee contribution''\<rparr>,
      \<lparr>dc_column = ''TigmulimMaasik'', dc_kind = EmployerContribution, dc_label = js ''Employer contribution''\<rparr>,
      \<lparr>dc_column = ''Compensation'', dc_kind = SeveranceContribution, dc_label = js ''Severance contribution''\<rparr>]"

definition gemelComponents :: "deposit_component list" where
  "gemelComponents =
     [\<lparr>dc_column = ''TotalSumEmployee'', dc_kind = EmployeeContribution, dc_label = js ''Employee contribution''\<rparr>,
      \<lparr>dc_column = ''TotalSumEmployer'', dc_kind = EmployerContribution, dc_label = js ''Employer contribution''\<rparr>,
      \<lparr>dc_column = ''TotalSumCompensation'', dc_kind = SeveranceContribution, dc_label = js ''Severance contribution''\<rparr>,
      \<lparr>dc_column = ''TotalSumSelfEmployed'', dc_kind = OtherActivity, dc_label = js ''Self-employed contribution''\<rparr>]"

definition optionalText :: "jsval \<Rightarrow> jsstr option res" where
  "optionalText v =
     (if absent v then Inr None
      else case v of JStr s \<Rightarrow> Inr (if js_trim s = [] then None else Some (js_trim s)) | _ \<Rightarrow> invalid)"

definition read_cents :: "jsval \<Rightarrow> int res" where
  "read_cents v = bindE (parseClalMoney v) (\<lambda>amount. Inr (cents amount))"

definition money_text :: "int \<Rightarrow> jsstr" where
  "money_text value =
     (let absolute = nat \<bar>value\<bar> in
      (if value < 0 then js ''-'' else []) @ nat_str (absolute div 100) @ js ''.'' @ pad_start 2 48 (nat_str (absolute mod 100)))"

definition yearText :: "jsval \<Rightarrow> jsstr res" where
  "yearText v = bindE (optionalText v) (\<lambda>t. case t of
       Some y \<Rightarrow> if length y = 4 \<and> list_all is_digit y then Inr y else invalid
     | None \<Rightarrow> invalid)"

definition month_digits :: "nat \<Rightarrow> nat \<Rightarrow> bool" where
  "month_digits a b \<longleftrightarrow> a = 48 \<and> 49 \<le> b \<and> b \<le> 57 \<or> a = 49 \<and> 48 \<le> b \<and> b \<le> 50"

definition month_first :: "jsstr \<Rightarrow> jsstr option" where
  "month_first s = (case s of [m1, m2, sl, y1, y2, y3, y4] \<Rightarrow>
       if month_digits m1 m2 \<and> sl = 47 \<and> list_all is_digit [y1, y2, y3, y4] then Some [y1, y2, y3, y4, 45, m1, m2] else None
     | _ \<Rightarrow> None)"

definition year_month :: "jsstr \<Rightarrow> bool" where
  "year_month s = (case s of [y1, y2, y3, y4, d, m1, m2] \<Rightarrow> list_all is_digit [y1, y2, y3, y4] \<and> d = 45 \<and> month_digits m1 m2 | _ \<Rightarrow> False)"

definition salaryMonth :: "jsval \<Rightarrow> jsstr option res" where
  "salaryMonth v = bindE (optionalText v) (\<lambda>t. case t of
       None \<Rightarrow> Inr None
     | Some s \<Rightarrow> (case month_first s of Some m \<Rightarrow> Inr (Some m) | None \<Rightarrow> if year_month s then Inr (Some s) else invalid))"

definition null_text :: "jsstr option \<Rightarrow> jsval" where
  "null_text t = (case t of None \<Rightarrow> JNull | Some s \<Rightarrow> JStr s)"

definition bookingDate :: "deposit_env \<Rightarrow> jsval \<Rightarrow> jsstr \<Rightarrow> jsstr option res" where
  "bookingDate env v year = bindE (optionalText v) (\<lambda>t.
     case Option.bind t short_date of
       Some (day, month, short) \<Rightarrow>
         if short \<noteq> slice_last 2 year then invalid
         else parseClalDate (cl_zod env) (JStr (day @ js ''/'' @ month @ js ''/'' @ year))
     | None \<Rightarrow> bindE (parseClalDate (cl_zod env) (null_text t)) (\<lambda>parsed.
         case parsed of None \<Rightarrow> Inr None | Some d \<Rightarrow> if starts_with d (year @ js ''-'') then Inr (Some d) else invalid))"

definition componentAmounts :: "fields \<Rightarrow> deposit_component list \<Rightarrow> string \<Rightarrow> int list res" where
  "componentAmounts row components totalColumn =
     bindE (mapE (\<lambda>c. read_cents (field row (dc_column c))) components) (\<lambda>amounts.
     bindE (read_cents (field row totalColumn)) (\<lambda>rowTotal. if sum_list amounts \<noteq> rowTotal then invalid else Inr amounts))"

section \<open>Groups\<close>

type_synonym deposit_groups = "(jsstr \<times> deposit_group) list"

definition kind_text :: "activity_kind \<Rightarrow> jsstr" where
  "kind_text k = (case k of
       EmployeeContribution \<Rightarrow> js ''employee_contribution'' | EmployerContribution \<Rightarrow> js ''employer_contribution''
     | SeveranceContribution \<Rightarrow> js ''severance_contribution'' | Withdrawal \<Rightarrow> js ''withdrawal'' | TransferIn \<Rightarrow> js ''transfer_in''
     | TransferOut \<Rightarrow> js ''transfer_out'' | ManagementFee \<Rightarrow> js ''management_fee'' | InsuranceCost \<Rightarrow> js ''insurance_cost''
     | InvestmentReturn \<Rightarrow> js ''investment_return'' | ActuarialAdjustment \<Rightarrow> js ''actuarial_adjustment'' | OtherActivity \<Rightarrow> js ''other'')"

text \<open>The amount is no part of the key.\<close>

definition group_key :: "dimensions \<Rightarrow> deposit_component \<Rightarrow> jsstr" where
  "group_key d c = json_text (JArr [JStr (js ''clal-deposit-source-group-v1''), JStr (dm_productId d), null_text (dm_employerId d),
     null_text (dm_employerName d), null_text (dm_bookingDate d), null_text (dm_salaryMonth d), JStr (dm_description d), null_text (dm_track d),
     JStr (js (dc_column c)), JStr (kind_text (dc_kind c))])"

definition group_source :: "deposit_env \<Rightarrow> dimensions \<Rightarrow> deposit_component \<Rightarrow> jsstr" where
  "group_source env d c = js ''source-group-v1:'' @ cl_sha256 env (group_key d c)"

definition group_description :: "dimensions \<Rightarrow> deposit_component \<Rightarrow> jsstr" where
  "group_description d c = join_with (js ''; '') (filter (\<lambda>s. s \<noteq> [])
     [dc_label c, default (dm_employerName d) [], dm_description d,
      (case dm_salaryMonth d of None \<Rightarrow> [] | Some m \<Rightarrow> js ''Salary month '' @ m),
      (case dm_track d of None \<Rightarrow> [] | Some t \<Rightarrow> js ''Track '' @ t), js ''Source group''])"

definition add_group :: "deposit_env \<Rightarrow> dimensions \<Rightarrow> jsstr \<Rightarrow> jsstr \<Rightarrow> deposit_component \<times> int \<Rightarrow> deposit_groups \<Rightarrow> deposit_groups res" where
  "add_group env d date observedAt = (\<lambda>(c, amount) groups.
     let sourceId = group_source env d c in
     case map_of groups sourceId of
       Some g \<Rightarrow> Inr (AList.update sourceId (g\<lparr>dg_cents := dg_cents g + amount\<rparr>) groups)
     | None \<Rightarrow> bindE (investmentActivityId (dm_productId d) sourceId) (\<lambda>i.
         Inr (groups @ [(sourceId, \<lparr>dg_activity = \<lparr>ia_id = i, ia_productId = dm_productId d, ia_sourceId = sourceId, ia_date = date,
           ia_dateKind = (if dm_bookingDate d \<noteq> None then Booking else ContributionMonth), ia_kind = dc_kind c, ia_amount = js ''0.00'',
           ia_currency = js ''ILS'', ia_description = group_description d c, ia_observedAt = observedAt\<rparr>, dg_cents = amount\<rparr>)])))"

definition addGroups :: "deposit_env \<Rightarrow> dimensions \<Rightarrow> deposit_component list \<Rightarrow> int list \<Rightarrow> jsstr \<Rightarrow> deposit_groups \<Rightarrow> deposit_groups res" where
  "addGroups env d components amounts observedAt groups =
     (case orelse (dm_bookingDate d) (dm_salaryMonth d) of
        None \<Rightarrow> invalid
      | Some date \<Rightarrow> foldE (add_group env d date observedAt) (zip components amounts) groups)"

definition checkAnnualTotals :: "int \<Rightarrow> int list \<Rightarrow> int list option \<Rightarrow> unit res" where
  "checkAnnualTotals yearTotal columns subtotal =
     (if sum_list columns \<noteq> yearTotal \<or> (case subtotal of None \<Rightarrow> False | Some ss \<Rightarrow> list_ex (\<lambda>(a, b). a \<noteq> b) (zip ss columns)) then invalid else Inr ())"

section \<open>A year of deposits\<close>

text \<open>The columns so far, the subtotal row if one was met, and the groups.\<close>

type_synonym year_state = "int list \<times> int list option \<times> deposit_groups"

definition add_sums :: "int list \<Rightarrow> int list \<Rightarrow> int list" where
  "add_sums columns amounts = map2 (+) columns amounts"

definition pension_row :: "deposit_env \<Rightarrow> jsstr \<Rightarrow> jsstr \<Rightarrow> jsstr \<Rightarrow> jsval \<Rightarrow> year_state \<Rightarrow> year_state res" where
  "pension_row env observedAt productId year raw = (\<lambda>(columns, subtotal, groups).
     bindE (clalRecord raw) (\<lambda>row.
     bindE (componentAmounts row pensionComponents ''Total'') (\<lambda>amounts.
     bindE (optionalText (field row ''CompanyName'')) (\<lambda>companyName.
     bindE (salaryMonth (field row ''SalaryDate'')) (\<lambda>salary.
     bindE (bookingDate env (field row ''DepositingDate'') year) (\<lambda>booked.
       if map_option to_lower companyName = Some (js ''all'') \<and> booked = None \<and> salary = None
       then (if subtotal \<noteq> None then invalid else Inr (columns, Some amounts, groups))
       else case companyName of
         None \<Rightarrow> invalid
       | Some name \<Rightarrow>
           bindE (addGroups env \<lparr>dm_productId = productId, dm_employerId = None, dm_employerName = Some name, dm_bookingDate = booked,
               dm_salaryMonth = salary, dm_description = js ''Deposit'', dm_track = None\<rparr> pensionComponents amounts observedAt groups) (\<lambda>groups'.
             Inr (add_sums columns amounts, subtotal, groups'))))))))"

text \<open>The years met so far, and the groups.\<close>

type_synonym history_state = "jsstr list \<times> deposit_groups"

definition pension_year :: "deposit_env \<Rightarrow> jsstr \<Rightarrow> jsstr \<Rightarrow> jsval \<Rightarrow> history_state \<Rightarrow> history_state res" where
  "pension_year env observedAt productId raw = (\<lambda>(years, groups).
     bindE (clalRecord raw) (\<lambda>block.
     bindE (yearText (field block ''BeginYear'')) (\<lambda>year.
       if year \<in> set years then invalid
       else bindE (bindE (requireClalSuccess (field block ''TransactionsData'')) (\<lambda>r. clalArray (field r ''DepositingPerMonthList''))) (\<lambda>rows.
         bindE (foldE (pension_row env observedAt productId year) rows (map (\<lambda>_. 0) pensionComponents, None, groups)) (\<lambda>(columns, subtotal, groups').
         bindE (read_cents (field block ''Total'')) (\<lambda>yearTotal.
         bindE (checkAnnualTotals yearTotal columns subtotal) (\<lambda>_. Inr (year # years, groups'))))))))"

definition pensionHistory :: "deposit_env \<Rightarrow> jsstr \<Rightarrow> fields \<Rightarrow> deposit_groups \<Rightarrow> (jsstr \<times> deposit_groups) res" where
  "pensionHistory env observedAt data groups =
     bindE (clalRecord (field data ''PolicyDetails'')) (\<lambda>details.
     bindE (clalProductIdentity PensionFamily (field details ''PolicyId'')) (\<lambda>(productId, _).
     bindE (clalArray (field data ''NDepositingList'')) (\<lambda>blocks.
     bindE (foldE (pension_year env observedAt productId) blocks ([], groups)) (\<lambda>(_, groups'). Inr (productId, groups')))))"

text \<open>The one verified label of a deposit, in Hebrew.\<close>

definition DEPOSIT :: jsstr where
  "DEPOSIT = [1492, 1508, 1511, 1491, 1492]"

definition gemel_row :: "deposit_env \<Rightarrow> jsstr \<Rightarrow> jsstr \<Rightarrow> fields \<Rightarrow> jsstr \<Rightarrow> jsval \<Rightarrow> year_state \<Rightarrow> year_state res" where
  "gemel_row env observedAt productId details year raw = (\<lambda>(columns, subtotal, groups).
     bindE (clalRecord raw) (\<lambda>row.
     bindE (componentAmounts row gemelComponents ''TotalSum'') (\<lambda>amounts.
     bindE (optionalText (field row ''TransactionDescription'')) (\<lambda>description.
     bindE (salaryMonth (field row ''SalaryMonth'')) (\<lambda>salary.
     bindE (bookingDate env (field row ''TransactionDate'') year) (\<lambda>booked.
     bindE (optionalText (field row ''Maslul'')) (\<lambda>track.
       if description = Some (js ''Total'') \<and> booked = None \<and> salary = None \<and> track = None
       then (if subtotal \<noteq> None then invalid else Inr (columns, Some amounts, groups))
       else if description \<noteq> Some DEPOSIT then invalid
       else bindE (optionalText (field details ''EmployerNum'')) (\<lambda>employerId.
         bindE (optionalText (field details ''EmployerName'')) (\<lambda>employerName.
         bindE (addGroups env \<lparr>dm_productId = productId, dm_employerId = employerId, dm_employerName = employerName, dm_bookingDate = booked,
             dm_salaryMonth = salary, dm_description = DEPOSIT, dm_track = track\<rparr> gemelComponents amounts observedAt groups) (\<lambda>groups'.
           Inr (add_sums columns amounts, subtotal, groups')))))))))))"

definition gemel_year :: "deposit_env \<Rightarrow> jsstr \<Rightarrow> jsstr \<Rightarrow> fields \<Rightarrow> jsval \<Rightarrow> history_state \<Rightarrow> history_state res" where
  "gemel_year env observedAt productId details raw = (\<lambda>(years, groups).
     bindE (clalRecord raw) (\<lambda>block.
     bindE (clalRecord (field block ''TransactionsData'')) (\<lambda>transactionData.
     bindE (clalArray (field transactionData ''GetFundTransPerYearList'')) (\<lambda>rows.
       if field block ''Year'' = JNull \<and> rows = [] then Inr (years, groups)
       else bindE (yearText (field block ''Year'')) (\<lambda>year.
         if year \<in> set years then invalid
         else bindE (requireClalSuccess (JObj transactionData)) (\<lambda>_.
           bindE (clalArray (field transactionData ''GetFundTransPerYearNotIncludedList'')) (\<lambda>excluded.
             if excluded \<noteq> [] then invalid
             else bindE (foldE (gemel_row env observedAt productId details year) rows (map (\<lambda>_. 0) gemelComponents, None, groups)) (\<lambda>(columns, subtotal, groups').
               bindE (read_cents (field block ''Sum'')) (\<lambda>yearTotal.
               bindE (checkAnnualTotals yearTotal columns subtotal) (\<lambda>_. Inr (year # years, groups')))))))))))"

definition gemelHistory :: "deposit_env \<Rightarrow> jsstr \<Rightarrow> fields \<Rightarrow> deposit_groups \<Rightarrow> (jsstr \<times> deposit_groups) res" where
  "gemelHistory env observedAt data groups =
     (if field data ''IsHishtalmut'' \<noteq> JBool True then invalid
      else
      bindE (clalRecord (field data ''FundDetails'')) (\<lambda>details.
      bindE (clalProductIdentity HishtalmutFamily (field details ''FundNumber'')) (\<lambda>(productId, _).
      bindE (bindE (clalRecord (field data ''TransactionsTab'')) (\<lambda>tab. clalArray (field tab ''TransactionsList''))) (\<lambda>blocks.
      bindE (foldE (gemel_year env observedAt productId details) blocks ([], groups)) (\<lambda>(_, groups'). Inr (productId, groups'))))))"

section \<open>The enriched snapshot\<close>

text \<open>The products covered so far, and the groups.\<close>

definition add_history :: "deposit_env \<Rightarrow> inv_snapshot \<Rightarrow> clal_family \<times> api_response \<Rightarrow> jsstr list \<times> deposit_groups \<Rightarrow> (jsstr list \<times> deposit_groups) res" where
  "add_history env s = (\<lambda>(f, response) (covered, groups).
     bindE (responseData response) (\<lambda>data.
     bindE ((if f = PensionFamily then pensionHistory else gemelHistory) env (sn_observedAt s) data groups) (\<lambda>(productId, groups').
       if productId \<in> set covered \<or> list_all (\<lambda>p. ip_id p \<noteq> productId) (id_products s) then invalid
       else Inr (productId # covered, groups'))))"

definition group_activity :: "deposit_group \<Rightarrow> inv_activity" where
  "group_activity g = (dg_activity g)\<lparr>ia_amount := money_text (dg_cents g)\<rparr>"

text \<open>A map by id: a later activity takes the place of an earlier one.\<close>

definition by_id :: "inv_activity list \<Rightarrow> (jsstr \<times> inv_activity) list" where
  "by_id as = fold (\<lambda>a. AList.update (ia_id a) a) as []"

definition enrichClalActivities :: "deposit_env \<Rightarrow> inv_snapshot \<Rightarrow> api_response list \<Rightarrow> api_response list \<Rightarrow> inv_snapshot res" where
  "enrichClalActivities env s pensionDetails gemelDetails =
     bindE (foldE (add_history env s) (map (Pair PensionFamily) pensionDetails @ map (Pair HishtalmutFamily) gemelDetails) ([], [])) (\<lambda>(covered, groups).
       parse_snapshot (cl_zod env) (s\<lparr>
         id_activities := sort_by (\<lambda>a b. cl_lc env (ia_id a) (ia_id b)) (map snd (by_id (id_activities s @ map (group_activity \<circ> snd) groups))),
         id_products := map (\<lambda>p. if ip_id p \<in> set covered then p\<lparr>ip_activities := CoverPartial\<rparr> else p) (id_products s)\<rparr>))"

end
