(* ===== verification/InvDeposits.thy ===== *)
theory InvDeposits
  imports InvActivities
begin

text \<open>Deposits are conserved: the activities of a history add up to the annual totals the portal states.\<close>

section \<open>Printing cents\<close>

lemma cents_digits:
  fixes n :: nat
  defines "digits \<equiv> nat_str (n div 100) @ pad_start 2 48 (nat_str (n mod 100))"
  shows "digits_val digits = n" "\<not> starts_with digits (js ''-'')"
    "remove1 46 (nat_str (n div 100) @ js ''.'' @ pad_start 2 48 (nat_str (n mod 100))) = digits"
proof -
  have "length (nat_str (n mod 100)) \<le> 2"
    by (rule length_nat_str) simp_all
  then have "length (pad_start 2 48 (nat_str (n mod 100))) = 2"
    by (rule length_pad_start)
  then obtain x y where xy: "pad_start 2 48 (nat_str (n mod 100)) = [x, y]"
    by (auto simp: numeral_2_eq_2 length_Suc_conv)
  have "digits_val (pad_start 2 48 (nat_str (n mod 100))) = n mod 100"
    by simp
  then have "digits_val digits = 100 * (n div 100) + n mod 100"
    unfolding digits_def xy using digits_val_snoc [of "nat_str (n div 100) @ [x]" y] digits_val_snoc [of "nat_str (n div 100)" x] digits_val_snoc [of "[x]" y]
      digits_val_snoc [of "[]" x] by simp
  then show "digits_val digits = n"
    by simp
  have digit: "is_digit (hd digits)" "digits \<noteq> []"
    using nat_str_digits [OF hd_in_set [OF nat_str_not_Nil]] by (simp_all add: digits_def)
  then show "\<not> starts_with digits (js ''-'')"
    by (cases digits) (auto simp: starts_with_def is_digit_def)
  have "46 \<notin> set (nat_str (n div 100))"
    using nat_str_digits by (fastforce simp: is_digit_def)
  then show "remove1 46 (nat_str (n div 100) @ js ''.'' @ pad_start 2 48 (nat_str (n mod 100))) = digits"
    by (simp add: digits_def remove1_append)
qed

lemma cents_money_text [simp]: "cents (money_text v) = v"
proof -
  define n where "n = nat \<bar>v\<bar>"
  note digits = cents_digits [of n]
  show ?thesis
  proof (cases "v < 0")
    case True
    then have "remove1 46 (money_text v) = 45 # nat_str (n div 100) @ pad_start 2 48 (nat_str (n mod 100))"
      using digits(3) by (simp add: money_text_def n_def Let_def)
    with digits(1) True show ?thesis
      by (simp add: cents_def starts_with_def n_def Let_def)
  next
    case False
    then have "remove1 46 (money_text v) = nat_str (n div 100) @ pad_start 2 48 (nat_str (n mod 100))"
      using digits(3) by (simp add: money_text_def n_def Let_def)
    with digits(1,2) False show ?thesis
      by (simp add: cents_def n_def Let_def)
  qed
qed

section \<open>The sum of the groups\<close>

definition group_sum :: "deposit_groups \<Rightarrow> int" where
  "group_sum groups = sum_list (map (dg_cents \<circ> snd) groups)"

lemma group_sum_simps [simp]: "group_sum [] = 0" "group_sum (g # gs) = dg_cents (snd g) + group_sum gs" "group_sum (xs @ ys) = group_sum xs + group_sum ys"
  by (simp_all add: group_sum_def)

lemma group_sum_update: "map_of groups k = Some g \<Longrightarrow> group_sum (AList.update k h groups) = group_sum groups - dg_cents g + dg_cents h"
  by (induction groups) (auto split: if_splits)

lemma add_group_sum: "add_group env d date observedAt (c, amount) groups = Inr groups' \<Longrightarrow> group_sum groups' = group_sum groups + amount"
  by (auto simp: add_group_def Let_def group_sum_update split: option.splits)

section \<open>Every group has its own activity\<close>

text \<open>A group's activity carries the group's hash at the end of its id.\<close>

definition hash_keyed :: "deposit_groups \<Rightarrow> bool" where
  "hash_keyed groups \<longleftrightarrow> distinct (map fst groups) \<and>
     (\<forall>(k, g)\<in>set groups. \<exists>i h. length h = 64 \<and> k = js ''source-group-v1:'' @ h \<and> ia_id (dg_activity g) = i @ h)"

lemma encode_unreserved: "list_all uri_unreserved h \<Longrightarrow> encodeURIComponent h = Inr h"
  by (induction h) auto

lemma sha_unreserved: "sha256_text h \<Longrightarrow> list_all uri_unreserved h"
  by (auto simp: sha256_text_def list_all_iff lower_hex_def uri_unreserved_def is_word_def is_lower_def)

lemma source_part:
  assumes "sha256_text h"
  shows "investmentActivityId p (js ''source-group-v1:'' @ h) = checked_id (p @ js '':activity:source-group-v1%3A'' @ h)"
proof -
  have "h \<noteq> []" "lower_hex (last h)"
    using assms last_in_set [of h] by (cases "h = []"; simp add: sha256_text_def list_all_iff)+
  then have "js_trim (js ''source-group-v1:'' @ h) = js ''source-group-v1:'' @ h"
    by (intro js_trim_same) (auto simp: is_space_def lower_hex_def is_digit_def)
  moreover have "encodeURIComponent (js ''source-group-v1:'' @ h) = Inr (js ''source-group-v1%3A'' @ h)"
    using encode_unreserved [OF sha_unreserved [OF assms]]
    by (simp add: uri_unreserved_def is_word_def is_digit_def is_lower_def is_upper_def is_low_def is_high_def utf8_cp_def pct_def hex_char_def)
  ultimately show ?thesis
    by (simp add: investmentActivityId_def id_part_def Let_def)
qed

lemma source_id:
  assumes "sha256_text h" "investmentActivityId p (js ''source-group-v1:'' @ h) = Inr i"
  shows "\<exists>j. i = j @ h"
proof -
  have "i = (p @ js '':activity:source-group-v1%3A'') @ h"
    using assms(2) unfolding source_part [OF assms(1)] by (simp add: checked_id_def split: if_splits)
  then show ?thesis
    by blast
qed

lemma update_keys: "map_of groups k = Some g \<Longrightarrow> map fst (AList.update k h groups) = map fst groups"
  by (induction groups) (auto split: if_splits)

lemma update_entries: "x \<in> set (AList.update k h groups) \<Longrightarrow> x = (k, h) \<or> x \<in> set groups"
  by (induction groups) (auto split: if_splits)

lemma hash_keyed_update:
  assumes "hash_keyed groups" "map_of groups k = Some g"
  shows "hash_keyed (AList.update k (g\<lparr>dg_cents := c\<rparr>) groups)"
  unfolding hash_keyed_def
proof (intro conjI ballI)
  show "distinct (map fst (AList.update k (g\<lparr>dg_cents := c\<rparr>) groups))"
    using assms(1) by (simp add: update_keys [OF assms(2)] hash_keyed_def)
  fix x
  assume "x \<in> set (AList.update k (g\<lparr>dg_cents := c\<rparr>) groups)"
  then have "x = (k, g\<lparr>dg_cents := c\<rparr>) \<or> x \<in> set groups"
    by (rule update_entries)
  then have "\<exists>h. (fst x, h) \<in> set groups \<and> dg_activity (snd x) = dg_activity h"
    using map_of_SomeD [OF assms(2)] by (auto intro: exI [of _ "snd x"])
  then show "case x of (k, g) \<Rightarrow> \<exists>i h. length h = 64 \<and> k = js ''source-group-v1:'' @ h \<and> ia_id (dg_activity g) = i @ h"
    using assms(1) by (fastforce simp: hash_keyed_def split_beta)
qed

text \<open>Groups that grow by an amount, and stay apart when the hash function returns hexadecimal hashes.\<close>

definition grows :: "deposit_env \<Rightarrow> int \<Rightarrow> deposit_groups \<Rightarrow> deposit_groups \<Rightarrow> bool" where
  "grows env n groups groups' \<longleftrightarrow> group_sum groups' = group_sum groups + n \<and>
     ((\<forall>x. sha256_text (cl_sha256 env x)) \<longrightarrow> hash_keyed groups \<longrightarrow> hash_keyed groups')"

lemma grows_refl: "grows env 0 groups groups"
  by (simp add: grows_def)

lemma grows_trans: "grows env m a b \<Longrightarrow> grows env n b c \<Longrightarrow> grows env (m + n) a c"
  by (simp add: grows_def)

lemma fold_grows:
  assumes "foldE f xs s = Inr s'" and "\<And>x t t'. f x t = Inr t' \<Longrightarrow> grows env (w x) (g t) (g t')"
  shows "grows env (sum_list (map w xs)) (g s) (g s')"
  using assms(1)
proof (induction xs arbitrary: s)
  case (Cons x xs)
  then obtain t where "f x s = Inr t" "foldE f xs t = Inr s'"
    by auto
  with grows_trans [OF assms(2) [OF this(1)] Cons.IH [OF this(2)]] show ?case
    by simp
qed (simp add: grows_refl)

lemma add_group_grows:
  assumes "add_group env d date observedAt ca groups = Inr groups'"
  shows "grows env (snd ca) groups groups'"
proof -
  obtain c n where ca: "ca = (c, n)"
    by (cases ca)
  let ?k = "group_source env d c"
  show ?thesis
  proof (cases "map_of groups ?k")
    case None
    obtain act where new: "investmentActivityId (dm_productId d) ?k = Inr (ia_id act)"
        "groups' = groups @ [(?k, \<lparr>dg_activity = act, dg_cents = n\<rparr>)]"
    proof -
      from None assms obtain i where i: "investmentActivityId (dm_productId d) ?k = Inr i"
          "\<exists>act. ia_id act = i \<and> groups' = groups @ [(?k, \<lparr>dg_activity = act, dg_cents = n\<rparr>)]"
        by (auto simp: ca add_group_def Let_def)
      with that show ?thesis
        by blast
    qed
    have "hash_keyed groups'" if sha: "sha256_text (cl_sha256 env (group_key d c))" "hash_keyed groups"
    proof -
      obtain j where "ia_id act = j @ cl_sha256 env (group_key d c)"
        using source_id [OF sha(1) new(1) [unfolded group_source_def]] by blast
      moreover have "?k \<notin> fst ` set groups"
        using None by (simp add: map_of_eq_None_iff)
      ultimately show ?thesis
        using sha new(2) by (auto simp: hash_keyed_def group_source_def sha256_text_def)
    qed
    with new(2) show ?thesis
      by (simp add: grows_def ca)
  next
    case (Some g)
    with assms have "groups' = AList.update ?k (g\<lparr>dg_cents := dg_cents g + n\<rparr>) groups"
      by (simp add: ca add_group_def Let_def)
    with hash_keyed_update [OF _ Some] group_sum_update [OF Some] show ?thesis
      by (simp add: grows_def ca)
  qed
qed

lemma addGroups_grows:
  assumes "addGroups env d components parts observedAt groups = Inr groups'" "length parts = length components"
  shows "grows env (sum_list parts) groups groups'"
proof -
  obtain date where "foldE (add_group env d date observedAt) (zip components parts) groups = Inr groups'"
    using assms(1) by (auto simp: addGroups_def split: option.splits)
  from fold_grows [OF this, where w = snd and g = id and env = env] add_group_grows assms(2) show ?thesis
    by simp
qed

section \<open>A year\<close>

lemma componentAmounts_length: "componentAmounts row components k = Inr amounts \<Longrightarrow> length amounts = length components"
  by (auto simp: componentAmounts_def mapE_length split: if_splits)

lemma add_sums_sum: "length a = length b \<Longrightarrow> sum_list (add_sums a b) = sum_list a + sum_list b \<and> length (add_sums a b) = length a"
  by (induction a b rule: list_induct2) (auto simp: add_sums_def)

text \<open>A row is a subtotal, which changes neither the columns nor the groups, or a deposit, which adds the same to both.\<close>

definition row_effect :: "deposit_env \<Rightarrow> nat \<Rightarrow> year_state \<Rightarrow> year_state \<Rightarrow> bool" where
  "row_effect env n st st' \<longleftrightarrow> (\<exists>parts. (parts = replicate n 0 \<and> fst st' = fst st \<or> fst st' = add_sums (fst st) parts) \<and> length parts = n \<and>
     grows env (sum_list parts) (snd (snd st)) (snd (snd st')))"

lemma row_result:
  assumes "(if total_row then (if subtotal \<noteq> None then invalid else Inr (columns, Some parts, groups)) else rest) = Inr st'"
    and "componentAmounts row components k = Inr parts"
    and "rest = Inr st' \<Longrightarrow> \<exists>d groups'. addGroups env d components parts observedAt groups = Inr groups' \<and> st' = (add_sums columns parts, subtotal, groups')"
  shows "row_effect env (length components) (columns, subtotal, groups) st'"
proof (cases total_row)
  case True
  with assms(1) show ?thesis
    by (auto simp: row_effect_def sum_list_replicate grows_refl intro!: exI [of _ "replicate (length components) 0"] split: if_splits)
next
  case False
  with assms(1,3) obtain d groups' where "addGroups env d components parts observedAt groups = Inr groups'" "st' = (add_sums columns parts, subtotal, groups')"
    by auto
  with addGroups_grows [OF this(1) componentAmounts_length [OF assms(2)]] componentAmounts_length [OF assms(2)] show ?thesis
    by (auto simp: row_effect_def intro!: exI [of _ parts])
qed

lemma pension_row_effect:
  assumes "pension_row env observedAt productId year raw st = Inr st'"
  shows "row_effect env (length pensionComponents) st st'"
proof -
  obtain columns subtotal groups where st: "st = (columns, subtotal, groups)"
    by (cases st)
  show ?thesis
    using assms unfolding st pension_row_def prod.case bindE_eq_Inr
    apply (elim exE conjE)
    apply (rule row_result, assumption, assumption)
    apply (simp only: bindE_eq_Inr split: option.split_asm)
    apply auto
    done
qed

lemma gemel_row_effect:
  assumes "gemel_row env observedAt productId details year raw st = Inr st'"
  shows "row_effect env (length gemelComponents) st st'"
proof -
  obtain columns subtotal groups where st: "st = (columns, subtotal, groups)"
    by (cases st)
  show ?thesis
    using assms unfolding st gemel_row_def prod.case bindE_eq_Inr
    apply (elim exE conjE)
    apply (rule row_result, assumption, assumption)
    apply (simp only: bindE_eq_Inr split: if_split_asm)
    apply auto
    done
qed

lemma year_rows:
  assumes "foldE f rows (map (\<lambda>_. 0) (components :: deposit_component list), None, groups) = Inr (columns, subtotal, groups')"
    and "\<And>raw st st'. f raw st = Inr st' \<Longrightarrow> row_effect env (length components) st st'"
    and "checkAnnualTotals yearTotal columns subtotal = Inr u"
  shows "grows env yearTotal groups groups'"
proof -
  let ?P = "\<lambda>st. length (fst st) = length components \<and> grows env (sum_list (fst st)) groups (snd (snd st))"
  have "?P (columns, subtotal, groups')"
  proof (rule foldE_invariant [OF assms(1), where P = ?P])
    show "?P (map (\<lambda>_. 0) components, None, groups)"
      by (simp add: map_replicate_const sum_list_replicate grows_refl)
    fix raw st st'
    assume P: "?P st" "f raw st = Inr st'"
    then obtain parts where "(parts = replicate (length components) 0 \<and> fst st' = fst st) \<or> fst st' = add_sums (fst st) parts" "length parts = length components"
        "grows env (sum_list parts) (snd (snd st)) (snd (snd st'))"
      using assms(2) [OF P(2)] by (auto simp: row_effect_def)
    with P(1) grows_trans [OF conjunct2 [OF P(1)] this(3)] add_sums_sum [of "fst st" parts] show "?P st'"
      by (auto simp: sum_list_replicate)
  qed
  moreover have "sum_list columns = yearTotal"
    using assms(3) by (auto simp: checkAnnualTotals_def split: if_splits)
  ultimately show ?thesis
    by simp
qed

section \<open>What the portal states\<close>

text \<open>The annual totals of one answer; the undated template of a fund counts for nothing.\<close>

definition money_field :: "fields \<Rightarrow> string \<Rightarrow> int" where
  "money_field r k = (case read_cents (field r k) of Inr c \<Rightarrow> c | Inl e \<Rightarrow> 0)"

definition rows_in :: "jsval \<Rightarrow> string \<Rightarrow> jsval list" where
  "rows_in v k = (case v of JObj r \<Rightarrow> (case field r k of JArr vs \<Rightarrow> vs | _ \<Rightarrow> []) | _ \<Rightarrow> [])"

definition stated_year :: "clal_family \<Rightarrow> jsval \<Rightarrow> int" where
  "stated_year f block = (case block of
       JObj r \<Rightarrow>
         if f = PensionFamily then money_field r ''Total''
         else if field r ''Year'' = JNull \<and> rows_in (field r ''TransactionsData'') ''GetFundTransPerYearList'' = [] then 0
         else money_field r ''Sum''
     | _ \<Rightarrow> 0)"

definition stated_total :: "clal_family \<Rightarrow> api_response \<Rightarrow> int" where
  "stated_total f response = sum_list (map (stated_year f) (case ar_data response of
       JObj r \<Rightarrow> if f = PensionFamily then rows_in (JObj r) ''NDepositingList'' else rows_in (field r ''TransactionsTab'') ''TransactionsList''
     | _ \<Rightarrow> []))"

lemma clalRecord_iff [simp]: "clalRecord v = Inr r \<longleftrightarrow> v = JObj r"
  by (auto simp: clalRecord_def split: jsval.splits)

lemma clalArray_iff [simp]: "clalArray v = Inr vs \<longleftrightarrow> v = JArr vs"
  by (auto simp: clalArray_def split: jsval.splits)

lemma pension_year_grows:
  assumes "pension_year env observedAt productId raw st = Inr st'"
  shows "grows env (stated_year PensionFamily raw) (snd st) (snd st')"
proof -
  obtain block year rows columns subtotal yearTotal u where b: "raw = JObj block" "read_cents (field block ''Total'') = Inr yearTotal"
      "foldE (pension_row env observedAt productId year) rows (map (\<lambda>_. 0) pensionComponents, None, snd st) = Inr (columns, subtotal, snd st')"
      "checkAnnualTotals yearTotal columns subtotal = Inr u"
    using assms by (cases st) (auto simp: pension_year_def simp del: list.map split: if_splits)
  from year_rows [OF b(3) pension_row_effect b(4)] b(1,2) show ?thesis
    by (simp add: stated_year_def money_field_def)
qed

lemma gemel_year_grows:
  assumes "gemel_year env observedAt productId details raw st = Inr st'"
  shows "grows env (stated_year HishtalmutFamily raw) (snd st) (snd st')"
proof -
  obtain block data rows where b: "raw = JObj block" "field block ''TransactionsData'' = JObj data" "field data ''GetFundTransPerYearList'' = JArr rows"
    using assms by (cases st) (auto simp: gemel_year_def)
  show ?thesis
  proof (cases "field block ''Year'' = JNull \<and> rows = []")
    case True
    with assms b show ?thesis
      by (cases st) (simp add: gemel_year_def stated_year_def rows_in_def grows_refl)
  next
    case False
    then obtain year columns subtotal yearTotal u where c: "read_cents (field block ''Sum'') = Inr yearTotal"
        "foldE (gemel_row env observedAt productId details year) rows (map (\<lambda>_. 0) gemelComponents, None, snd st) = Inr (columns, subtotal, snd st')"
        "checkAnnualTotals yearTotal columns subtotal = Inr u"
      using assms b by (cases st) (auto simp: gemel_year_def simp del: list.map split: if_splits)
    from year_rows [OF c(2) gemel_row_effect c(3)] c(1) b False show ?thesis
      by (auto simp: stated_year_def money_field_def rows_in_def)
  qed
qed

section \<open>The whole history\<close>

lemma responseData_data: "responseData response = Inr data \<Longrightarrow> ar_data response = JObj data"
  by (auto simp: responseData_def requireClalSuccess_def split: jsval.splits if_splits)

lemma pension_history_grows:
  assumes "pensionHistory env observedAt data groups = Inr (productId, groups')" "ar_data response = JObj data"
  shows "grows env (stated_total PensionFamily response) groups groups'"
proof -
  obtain blocks years where b: "field data ''NDepositingList'' = JArr blocks" "foldE (pension_year env observedAt productId) blocks ([], groups) = Inr (years, groups')"
    using assms(1) by (auto simp: pensionHistory_def)
  from fold_grows [where g = snd, OF b(2) pension_year_grows] b(1) assms(2) show ?thesis
    by (simp add: stated_total_def rows_in_def)
qed

lemma gemel_history_grows:
  assumes "gemelHistory env observedAt data groups = Inr (productId, groups')" "ar_data response = JObj data"
  shows "grows env (stated_total HishtalmutFamily response) groups groups'"
proof -
  obtain details tab blocks years where b: "field data ''TransactionsTab'' = JObj tab" "field tab ''TransactionsList'' = JArr blocks"
      "foldE (gemel_year env observedAt productId details) blocks ([], groups) = Inr (years, groups')"
    using assms(1) by (auto simp: gemelHistory_def split: if_splits)
  from fold_grows [where g = snd, OF b(3) gemel_year_grows] b(1,2) assms(2) show ?thesis
    by (simp add: stated_total_def rows_in_def)
qed

lemma add_history_grows:
  assumes "add_history env s r st = Inr st'"
  shows "grows env (case r of (f, response) \<Rightarrow> stated_total f response) (snd st) (snd st')"
proof -
  obtain f response data productId where d: "r = (f, response)" "responseData response = Inr data"
      "(if f = PensionFamily then pensionHistory else gemelHistory) env (sn_observedAt s) data (snd st) = Inr (productId, snd st')"
    using assms by (cases r; cases st) (auto simp: add_history_def split: if_splits)
  show ?thesis
    using d(1,3) pension_history_grows [OF _ responseData_data [OF d(2)]] gemel_history_grows [OF _ responseData_data [OF d(2)]] by (cases f) auto
qed

lemma hash_keyed_ids: "hash_keyed groups \<Longrightarrow> distinct (map (ia_id \<circ> dg_activity \<circ> snd) groups)"
proof -
  assume keyed: "hash_keyed groups"
  have "fst x = fst y" if pair: "x \<in> set groups" "y \<in> set groups" "ia_id (dg_activity (snd x)) = ia_id (dg_activity (snd y))" for x y
  proof -
    have hash: "\<exists>i h. length h = 64 \<and> fst z = js ''source-group-v1:'' @ h \<and> ia_id (dg_activity (snd z)) = i @ h" if "z \<in> set groups" for z
      using keyed that by (auto simp: hash_keyed_def split_beta)
    from hash [OF pair(1)] obtain i h where x: "length h = 64" "fst x = js ''source-group-v1:'' @ h" "ia_id (dg_activity (snd x)) = i @ h"
      by (elim exE conjE)
    from hash [OF pair(2)] obtain j k where y: "length k = 64" "fst y = js ''source-group-v1:'' @ k" "ia_id (dg_activity (snd y)) = j @ k"
      by (elim exE conjE)
    have "h = k"
      using pair(3) x(1,3) y(1,3) by simp
    then show ?thesis
      by (simp add: x(2) y(2))
  qed
  moreover have apart: "distinct groups" "inj_on fst (set groups)"
    using keyed by (simp_all add: hash_keyed_def distinct_map)
  ultimately have "inj_on (ia_id \<circ> dg_activity \<circ> snd) (set groups)"
    by (intro inj_onI) (metis comp_apply inj_onD [OF apart(2)])
  with apart(1) show ?thesis
    by (simp add: distinct_map)
qed

lemma by_id_distinct: "distinct (map ia_id as) \<Longrightarrow> map snd (by_id as) = as"
proof -
  assume distinct: "distinct (map ia_id as)"
  have "fold (\<lambda>a. AList.update (ia_id a) a) as al = al @ map (\<lambda>a. (ia_id a, a)) as"
    if "distinct (map fst al @ map ia_id as)" for al
    using that
  proof (induction as arbitrary: al)
    case (Cons a as)
    have "AList.update (ia_id a) a al = al @ [(ia_id a, a)]"
      using Cons.prems by (induction al) auto
    with Cons.IH [of "al @ [(ia_id a, a)]"] Cons.prems show ?case
      by simp
  qed simp
  from this [of "[]"] distinct show ?thesis
    by (simp add: by_id_def comp_def)
qed

definition activity_cents :: "inv_activity list \<Rightarrow> int" where
  "activity_cents as = sum_list (map (cents \<circ> ia_amount) as)"

lemma activity_cents_mset: "mset as = mset bs \<Longrightarrow> activity_cents as = activity_cents bs"
  by (simp add: activity_cents_def mset_map flip: sum_mset_sum_list)

lemma activity_cents_groups: "activity_cents (map (group_activity \<circ> snd) groups) = group_sum groups"
  by (induction groups) (simp_all add: activity_cents_def group_activity_def)

text \<open>
  C27: deposits are conserved. When the history of the Clal portal is read without an error, the amounts of the
  activities it yields add up, to the cent, to the annual totals the portal itself states, over all answers, products and years:
  no deposit row is lost, counted twice or confused with a subtotal, for any hash function that returns hexadecimal SHA-256 texts.
\<close>

theorem deposits_conserved:
  assumes "enrichClalActivities env s pensionDetails gemelDetails = Inr t" "id_activities s = []" "\<And>x. sha256_text (cl_sha256 env x)"
  shows "activity_cents (id_activities t) = sum_list (map (stated_total PensionFamily) pensionDetails) + sum_list (map (stated_total HishtalmutFamily) gemelDetails)"
proof -
  let ?responses = "map (Pair PensionFamily) pensionDetails @ map (Pair HishtalmutFamily) gemelDetails"
  obtain covered groups where g: "foldE (add_history env s) ?responses ([], []) = Inr (covered, groups)"
      "id_activities t = map trim_activity (sort_by (\<lambda>a b. cl_lc env (ia_id a) (ia_id b)) (map snd (by_id (map (group_activity \<circ> snd) groups))))"
    using assms(1,2) by (auto simp: enrichClalActivities_def parse_snapshot_def checked_by_def trim_data_def split: if_splits)
  have "grows env (sum_list (map (\<lambda>(f, response). stated_total f response) ?responses)) [] groups"
    using fold_grows [where g = snd, OF g(1) add_history_grows] by simp
  then have grown: "group_sum groups = sum_list (map (stated_total PensionFamily) pensionDetails) + sum_list (map (stated_total HishtalmutFamily) gemelDetails)"
      "hash_keyed groups"
    using assms(3) by (simp_all add: grows_def hash_keyed_def comp_def)
  have "ia_id \<circ> (group_activity \<circ> snd) = ia_id \<circ> dg_activity \<circ> snd"
    by (simp add: group_activity_def fun_eq_iff)
  then have "distinct (map ia_id (map (group_activity \<circ> snd) groups))"
    unfolding map_map using hash_keyed_ids [OF grown(2)] by metis
  then have "map snd (by_id (map (group_activity \<circ> snd) groups)) = map (group_activity \<circ> snd) groups"
    by (rule by_id_distinct)
  moreover have "activity_cents (map trim_activity as) = activity_cents as" for as
    by (simp add: activity_cents_def trim_activity_def comp_def)
  ultimately have "activity_cents (id_activities t) = activity_cents (map (group_activity \<circ> snd) groups)"
    unfolding g(2) by (simp add: activity_cents_mset [OF mset_sort_by])
  with grown(1) show ?thesis
    by (simp add: activity_cents_groups)
qed

end
