(* ===== verification/InvDepositsExample.thy ===== *)
theory InvDepositsExample
  imports InvDeposits InvExample
begin

text \<open>The history of a pension with one monthly deposit of three parts.\<close>

definition example_deposits :: deposit_env where
  "example_deposits = \<lparr>cl_zod = example_zod, cl_today = take 10, cl_sha256 = (\<lambda>k. replicate 63 48 @ [48 + length k mod 10]), cl_lc = cmp_of\<rparr>"

definition example_deposit_row :: jsval where
  "example_deposit_row = JObj [(js ''TigmulimAmit'', JStr (js ''1'')), (js ''TigmulimMaasik'', JStr (js ''2'')), (js ''Compensation'', JStr (js ''3'')),
     (js ''Total'', JStr (js ''6'')), (js ''CompanyName'', JStr (js ''Acme'')), (js ''SalaryDate'', JStr (js ''01/2024''))]"

definition example_year :: jsval where
  "example_year = JObj [(js ''BeginYear'', JStr (js ''2024'')), (js ''Total'', JStr (js ''6.00'')),
     (js ''TransactionsData'', JObj [(js ''IsSuccess'', JBool True), (js ''DepositingPerMonthList'', JArr [example_deposit_row])])]"

definition example_history :: api_response where
  "example_history = \<lparr>ar_status = JNum 200, ar_data = JObj [(js ''IsSuccess'', JBool True),
     (js ''PolicyDetails'', JObj [(js ''PolicyId'', JStr (js ''7''))]), (js ''NDepositingList'', JArr [example_year])]\<rparr>"

definition example_pension :: inv_product where
  "example_pension = example_product\<lparr>ip_id := js ''clal:pension%3A7'', ip_providerProductId := js ''pension:7'', ip_currentValuationId := None\<rparr>"

definition example_pension_snapshot :: inv_snapshot where
  "example_pension_snapshot = (empty_snapshot (js ''2024-07-10T08:00:00.000Z''))\<lparr>id_products := [example_pension]\<rparr>"

lemma example_deposit_texts:
  "clal_text (JStr (js ''7'')) = Inr (js ''7'')"
  "optionalText (JStr (js ''Acme'')) = Inr (Some (js ''Acme''))" "optionalText (JStr (js ''2024'')) = Inr (Some (js ''2024''))"
  "salaryMonth (JStr (js ''01/2024'')) = Inr (Some (js ''2024-01''))" "yearText (JStr (js ''2024'')) = Inr (js ''2024'')"
  "read_cents (JStr (js ''1'')) = Inr 100" "read_cents (JStr (js ''2'')) = Inr 200" "read_cents (JStr (js ''3'')) = Inr 300" "read_cents (JStr (js ''6'')) = Inr 600"
  "read_cents (JStr (js ''6.00'')) = Inr 600"
  by (simp_all add: clal_text_def js_trim_def is_space_def optionalText_def absent_def salaryMonth_def month_first_def month_digits_def yearText_def is_digit_def
    read_cents_def parseClalMoney_def starts_with_def normal_amount_def clal_amount_def grouped_digits_def nat_str_rec digits_val_def Let_def cents_def
    numeral_2_eq_2)

lemma example_pension_id: "clalProductIdentity PensionFamily (JStr (js ''7'')) = Inr (js ''clal:pension%3A7'', js ''pension:7'')"
  using example_deposit_texts(1)
  by (simp add: clalProductIdentity_def family_text_def investmentProductId_def id_part_def js_trim_def is_space_def uri_unreserved_def is_word_def is_digit_def
   is_upper_def is_lower_def is_low_def is_high_def utf8_cp_def pct_def hex_char_def checked_id_def provider_text_def)

lemma example_components: "componentAmounts [(js ''TigmulimAmit'', JStr (js ''1'')), (js ''TigmulimMaasik'', JStr (js ''2'')), (js ''Compensation'', JStr (js ''3'')),
     (js ''Total'', JStr (js ''6'')), (js ''CompanyName'', JStr (js ''Acme'')), (js ''SalaryDate'', JStr (js ''01/2024''))] pensionComponents ''Total'' = Inr [100, 200, 300]"
  using example_deposit_texts by (simp add: componentAmounts_def pensionComponents_def field_def js_prop_def del: bindE_eq_Inr)

definition example_dimensions :: dimensions where
  "example_dimensions = \<lparr>dm_productId = js ''clal:pension%3A7'', dm_employerId = None, dm_employerName = Some (js ''Acme''), dm_bookingDate = None,
     dm_salaryMonth = Some (js ''2024-01''), dm_description = js ''Deposit'', dm_track = None\<rparr>"

text \<open>A text without quotes, backslashes and control characters is its own JSON.\<close>

definition plain_unit :: "nat \<Rightarrow> bool" where
  "plain_unit c \<longleftrightarrow> 32 \<le> c \<and> c < 127 \<and> c \<noteq> 34 \<and> c \<noteq> 92"

lemma json_units_plain: "list_all plain_unit s \<Longrightarrow> json_units s = s"
  by (induction s rule: json_units.induct) (auto simp: plain_unit_def json_escape_def is_surrogate_def is_high_def is_low_def)

lemma json_plain_length: "list_all plain_unit s \<Longrightarrow> length (json_text (JStr s)) = length s + 2"
  by (simp add: json_string_def json_units_plain)

lemma example_keys:
  "map (\<lambda>c. length (group_key example_dimensions c) mod 10) pensionComponents = [2, 4, 3]"
  by (simp add: group_key_def example_dimensions_def pensionComponents_def null_text_def kind_text_def json_string_def json_units_plain plain_unit_def del: json_units.simps)

definition example_hash :: "nat \<Rightarrow> jsstr" where
  "example_hash d = replicate 63 48 @ [48 + d]"

lemma example_sha: "d < 10 \<Longrightarrow> sha256_text (example_hash d)"
  by (simp add: sha256_text_def example_hash_def lower_hex_def is_digit_def list_all_iff)

definition example_group :: "nat \<Rightarrow> nat \<Rightarrow> jsstr \<times> deposit_group" where
  "example_group n d = (js ''source-group-v1:'' @ example_hash d, \<lparr>dg_activity = \<lparr>ia_id = js ''clal:pension%3A7'' @ js '':activity:source-group-v1%3A'' @ example_hash d,
     ia_productId = js ''clal:pension%3A7'', ia_sourceId = js ''source-group-v1:'' @ example_hash d, ia_date = js ''2024-01'', ia_dateKind = ContributionMonth,
     ia_kind = dc_kind (pensionComponents ! n), ia_amount = js ''0.00'', ia_currency = js ''ILS'',
     ia_description = group_description example_dimensions (pensionComponents ! n), ia_observedAt = js ''2024-07-10T08:00:00.000Z''\<rparr>, dg_cents = 100 * int (Suc n)\<rparr>)"

lemma example_source:
  "n < 3 \<Longrightarrow> group_source example_deposits example_dimensions (pensionComponents ! n) = js ''source-group-v1:'' @ example_hash ([2, 4, 3] ! n)"
proof -
  assume "n < 3"
  then have "map (\<lambda>c. length (group_key example_dimensions c) mod 10) pensionComponents ! n = length (group_key example_dimensions (pensionComponents ! n)) mod 10"
    by (intro nth_map) (simp add: pensionComponents_def)
  then have "length (group_key example_dimensions (pensionComponents ! n)) mod 10 = [2, 4, 3] ! n"
    unfolding example_keys by simp
  then show ?thesis
    by (simp add: group_source_def example_deposits_def example_hash_def)
qed

lemma example_add:
  assumes "n < 3" "map_of gs (fst (example_group n ([2, 4, 3] ! n))) = None"
  shows "add_group example_deposits example_dimensions (js ''2024-01'') (js ''2024-07-10T08:00:00.000Z'') (pensionComponents ! n, 100 * int (Suc n)) gs =
    Inr (gs @ [example_group n ([2, 4, 3] ! n)])"
proof -
  have "[2, 4, 3] ! n < (10 :: nat)"
    using assms(1) by (auto simp: less_Suc_eq numeral_3_eq_3)
  then have sha: "sha256_text (example_hash ([2, 4, 3] ! n))"
    by (rule example_sha)
  have "investmentActivityId (js ''clal:pension%3A7'') (js ''source-group-v1:'' @ example_hash ([2, 4, 3] ! n)) =
      Inr (js ''clal:pension%3A7'' @ js '':activity:source-group-v1%3A'' @ example_hash ([2, 4, 3] ! n))"
    unfolding source_part [OF sha] by (simp add: checked_id_def example_hash_def)
  then show ?thesis
    using assms(2) unfolding add_group_def prod.case example_source [OF assms(1)] Let_def
    by (simp add: example_group_def) (simp add: example_dimensions_def)
qed

lemma example_fold:
  "addGroups example_deposits example_dimensions pensionComponents [100, 200, 300] (js ''2024-07-10T08:00:00.000Z'') [] =
     Inr [example_group 0 2, example_group 1 4, example_group 2 3]"
proof -
  have names: "fst (example_group n d) = js ''source-group-v1:'' @ example_hash d" for n d
    by (simp add: example_group_def)
  have parts: "zip pensionComponents [100, 200, 300] = [(pensionComponents ! 0, 100 * int (Suc 0)), (pensionComponents ! 1, 100 * int (Suc 1)), (pensionComponents ! 2, 100 * int (Suc 2))]"
    by (simp add: pensionComponents_def)
  have date: "orelse (dm_bookingDate example_dimensions) (dm_salaryMonth example_dimensions) = Some (js ''2024-01'')"
    by (simp add: example_dimensions_def)
  have lookup: "map_of [(example_group n d)] (fst (example_group m e)) = None" if "d \<noteq> e" for n d m e
    using that by (simp add: example_group_def example_hash_def)
  have lookup2: "map_of [example_group 0 2, example_group 1 4] (fst (example_group 2 3)) = None"
    by (simp add: example_group_def example_hash_def)
  note steps = example_add [of 0 "[]"] example_add [of 1 "[example_group 0 2]"] example_add [of 2 "[example_group 0 2, example_group 1 4]"]
  show ?thesis
    unfolding addGroups_def date option.case parts foldE.simps
    using steps lookup [of 2 4 0 1] lookup2 by (simp del: One_nat_def map_of.simps(2))
qed

lemma example_year_read:
  "pension_year example_deposits (js ''2024-07-10T08:00:00.000Z'') (js ''clal:pension%3A7'') example_year ([], []) =
     Inr ([js ''2024''], [example_group 0 2, example_group 1 4, example_group 2 3])"
proof -
  have row: "pension_row example_deposits (js ''2024-07-10T08:00:00.000Z'') (js ''clal:pension%3A7'') (js ''2024'') example_deposit_row ([0, 0, 0], None, []) =
      Inr ([100, 200, 300], None, [example_group 0 2, example_group 1 4, example_group 2 3])"
    using example_fold example_components example_deposit_texts
    by (simp add: pension_row_def clalRecord_def example_deposit_row_def field_def js_prop_def bookingDate_def optionalText_def [of JUndef] absent_def null_text_def
      parseClalDate_def blank_def to_lower_def lower_unit_def example_dimensions_def add_sums_def del: bindE_eq_Inr)
  have zeros: "map (\<lambda>_. 0) pensionComponents = [0, 0, 0 :: int]"
    by (simp add: pensionComponents_def)
  show ?thesis
    unfolding pension_year_def prod.case zeros
    using row example_deposit_texts
    by (simp add: example_year_def clalRecord_def clalArray_def field_def js_prop_def requireClalSuccess_def checkAnnualTotals_def del: bindE_eq_Inr)
qed

lemma example_trims:
  assumes "d < 10"
  shows "js_trim (ia_id (dg_activity (snd (example_group n d)))) = ia_id (dg_activity (snd (example_group n d)))"
    "js_trim (ia_sourceId (dg_activity (snd (example_group n d)))) = ia_sourceId (dg_activity (snd (example_group n d)))"
    "js_trim (ia_productId (dg_activity (snd (example_group n d)))) = ia_productId (dg_activity (snd (example_group n d)))"
proof -
  show "js_trim (ia_id (dg_activity (snd (example_group n d)))) = ia_id (dg_activity (snd (example_group n d)))"
    by (rule js_trim_same) (use assms in \<open>auto simp: example_group_def example_hash_def is_space_def\<close>)
  show "js_trim (ia_sourceId (dg_activity (snd (example_group n d)))) = ia_sourceId (dg_activity (snd (example_group n d)))"
    by (rule js_trim_same) (use assms in \<open>auto simp: example_group_def example_hash_def is_space_def\<close>)
  show "js_trim (ia_productId (dg_activity (snd (example_group n d)))) = ia_productId (dg_activity (snd (example_group n d)))"
    by (simp add: example_group_def js_trim_def is_space_def)
qed

lemma example_description:
  assumes "n < 3"
  shows "sized 1000 (js_trim (group_description example_dimensions (pensionComponents ! n)))"
proof -
  note ev = pensionComponents_def group_description_def example_dimensions_def sized_def js_trim_def is_space_def
  have "sized 1000 (js_trim (group_description example_dimensions (pensionComponents ! 0)))"
    "sized 1000 (js_trim (group_description example_dimensions (pensionComponents ! 1)))"
    "sized 1000 (js_trim (group_description example_dimensions (pensionComponents ! 2)))"
    by (simp_all add: ev)
  moreover have "n = 0 \<or> n = 1 \<or> n = 2"
    using assms by auto
  ultimately show ?thesis
    by auto
qed

lemma example_money: "n < 3 \<Longrightarrow> money (money_text (100 * int (Suc n)))"
proof -
  have "money_text 100 = js ''1.00''" "money_text 200 = js ''2.00''" "money_text 300 = js ''3.00''"
    by (simp_all add: money_text_def nat_str_rec pad_start_def Let_def numeral_2_eq_2)
  moreover have "money (js ''1.00'')" "money (js ''2.00'')" "money (js ''3.00'')"
    by (simp_all add: money_def decimal_def whole_number_def is_digit_def starts_with_def)
  moreover assume "n < 3"
  then have "n = 0 \<or> n = 1 \<or> n = 2"
    by auto
  ultimately show ?thesis
    by auto
qed

lemma example_activity_ok:
  assumes "n < 3" "d < 10"
  shows "activity_ok example_zod (trim_activity (group_activity (snd (example_group n d))))"
proof -
  have "trim_activity (group_activity (snd (example_group n d))) =
      (group_activity (snd (example_group n d)))\<lparr>ia_description := js_trim (group_description example_dimensions (pensionComponents ! n))\<rparr>"
    using example_trims [OF assms(2), of n] by (simp add: trim_activity_def group_activity_def) (simp add: example_group_def)
  moreover have "month_text (js ''2024-01'')"
    by (simp add: month_text_def is_digit_def num2_def)
  ultimately show ?thesis
    using example_description [OF assms(1)] example_money [OF assms(1)] example_observed
    by (simp add: activity_ok_def group_activity_def example_group_def sized_def example_hash_def currency_code_def is_upper_def)
qed

lemma example_enriched:
  "\<exists>t. enrichClalActivities example_deposits example_pension_snapshot [example_history] [] = Inr t \<and> length (id_activities t) = 3"
proof -
  let ?gs = "[example_group 0 2, example_group 1 4, example_group 2 3]"
  let ?as = "map (group_activity \<circ> snd) ?gs"
  have history: "add_history example_deposits example_pension_snapshot (PensionFamily, example_history) ([], []) = Inr ([js ''clal:pension%3A7''], ?gs)"
    using example_year_read example_pension_id
    by (simp add: add_history_def clalRecord_def clalArray_def example_history_def responseData_def is_safe_integer_def requireClalSuccess_def pensionHistory_def field_def js_prop_def
      example_pension_snapshot_def empty_snapshot_def example_pension_def del: bindE_eq_Inr)
  have "distinct (map ia_id ?as)"
    by (simp add: group_activity_def example_group_def example_hash_def)
  from by_id_distinct [OF this] have ids: "map snd (by_id ?as) = ?as" .
  define t where "t = example_pension_snapshot\<lparr>id_activities := sort_by (\<lambda>a b. cl_lc example_deposits (ia_id a) (ia_id b)) ?as,
      id_products := [example_pension\<lparr>ip_activities := CoverPartial\<rparr>]\<rparr>"
  have enriched: "enrichClalActivities example_deposits example_pension_snapshot [example_history] [] = parse_snapshot example_zod t"
    using history ids
    by (simp add: enrichClalActivities_def example_pension_snapshot_def empty_snapshot_def t_def example_pension_def example_deposits_def del: bindE_eq_Inr)
  have "list_all (activity_ok example_zod) (map trim_activity (id_activities t))"
    using example_activity_ok [of 0 2] example_activity_ok [of 1 4] example_activity_ok [of 2 3]
    by (simp add: t_def list_all_iff)
  moreover have "list_all (product_ok example_zod) (map trim_product (id_products t))"
    using example_ok(1)
    by (simp add: t_def example_pension_def example_product_def trim_product_def product_ok_def sized_def js_trim_def is_space_def null_or_def)
  ultimately have "parse_snapshot example_zod t = Inr (trim_data t)"
    using example_observed
    by (simp add: parse_snapshot_def checked_by_def data_ok_def trim_data_def t_def example_pension_snapshot_def empty_snapshot_def)
  with enriched show ?thesis
    by (simp add: trim_data_def t_def)
qed

theorem deposits_conserved_witness:
  "\<exists>t. enrichClalActivities example_deposits example_pension_snapshot [example_history] [] = Inr t \<and> length (id_activities t) = 3 \<and>
     activity_cents (id_activities t) = 600"
proof -
  obtain t where t: "enrichClalActivities example_deposits example_pension_snapshot [example_history] [] = Inr t" "length (id_activities t) = 3"
    using example_enriched by blast
  have empty: "id_activities example_pension_snapshot = []" "sha256_text (cl_sha256 example_deposits x)" for x
    using example_sha [of "length x mod 10"] by (simp_all add: example_pension_snapshot_def empty_snapshot_def example_deposits_def example_hash_def)
  have "stated_total PensionFamily example_history = 600"
    using example_deposit_texts by (simp add: stated_total_def example_history_def rows_in_def field_def js_prop_def stated_year_def example_year_def money_field_def)
  with deposits_conserved [OF t(1) empty] t show ?thesis
    by auto
qed

end
