(* ===== verification/InvClalReports.thy ===== *)
theory InvClalReports
  imports InvActivities
begin

text \<open>
  The readers of \<^verbatim>\<open>src/investments/clal-reports.ts\<close>, and the composition of the three readers of the portal's
  answers that \<^verbatim>\<open>readClalSnapshot\<close> of \<^verbatim>\<open>src/investments/reader.ts\<close> applies to the responses it captured.
\<close>

section \<open>The lines of a report\<close>

text \<open>The placeholders a portal prints instead of a total: nothing, a hyphen and an em dash.\<close>

definition NO_TOTAL :: "jsstr list" where
  "NO_TOTAL = [[], [45], [8212]]"

definition has_total :: "fields \<Rightarrow> bool" where
  "has_total row = (case field row ''Total'' of JNull \<Rightarrow> False | JUndef \<Rightarrow> False | JStr s \<Rightarrow> js_trim s \<notin> set NO_TOTAL | _ \<Rightarrow> True)"

definition report_line_of :: "fields \<Rightarrow> report_line res" where
  "report_line_of row = bindE (clal_text (field row ''Title'')) (\<lambda>label.
     bindE (parseClalMoney (field row ''Total'')) (\<lambda>amount. Inr \<lparr>rl_label = label, rl_amount = amount\<rparr>))"

definition report_lines :: "jsval \<Rightarrow> report_line list res" where
  "report_lines v = bindE (clalArray v) (\<lambda>raws. bindE (mapE clalRecord raws) (\<lambda>rows.
     mapE report_line_of (filter has_total rows)))"

section \<open>The reports of a product\<close>

definition REPORT_TITLE :: jsstr where
  "REPORT_TITLE = [1514, 1504, 1493, 1506, 1493, 1514, 32, 1493, 1497, 1514, 1512, 1493, 1514]"

definition report_keys :: "clal_family \<Rightarrow> string list" where
  "report_keys f = (if f = PensionFamily then [''PeriodBalance'', ''PeriodBalanceLastYear''] else [''DeposMonthlyBalance''])"

definition read_report :: "zod_env \<Rightarrow> clal_family \<Rightarrow> fields \<Rightarrow> string \<Rightarrow> report_summary res" where
  "read_report env f data key =
     bindE (clalRecord (field data key)) (\<lambda>block.
     bindE (report_lines (field block (if f = PensionFamily then ''PeriodBalanceRows'' else ''DeposMonthlyList''))) (\<lambda>rows.
     bindE (if f = PensionFamily then openingDate env rows else parseClalDate env (field block ''StartYear'')) (\<lambda>fromDate.
     bindE (parseClalDate env (field block (if f = PensionFamily then ''Date'' else ''EndYear''))) (\<lambda>toDate.
       Inr \<lparr>rp_id = js key @ js '':'' @ default fromDate (js ''unknown'') @ js '':'' @ default toDate (js ''unknown''),
            rp_title = REPORT_TITLE, rp_fromDate = fromDate, rp_toDate = toDate, rp_lines = rows\<rparr>))))"

text \<open>The first product of an id is the one whose reports are replaced.\<close>

fun set_reports :: "jsstr \<Rightarrow> report_summary list \<Rightarrow> inv_product list \<Rightarrow> inv_product list" where
  "set_reports i rs [] = []"
| "set_reports i rs (p # ps) = (if ip_id p = i then p\<lparr>ip_reports := Some rs\<rparr> # ps else p # set_reports i rs ps)"

definition add_reports :: "zod_env \<Rightarrow> clal_family \<times> api_response \<Rightarrow> inv_product list \<Rightarrow> inv_product list res" where
  "add_reports env = (\<lambda>(f, response) products.
     if ar_status response \<noteq> JNum 200 then invalid
     else
     bindE (requireClalSuccess (ar_data response)) (\<lambda>data.
     bindE (clalRecord (field data (if f = PensionFamily then ''PolicyDetails'' else ''FundDetails''))) (\<lambda>details.
     bindE (clalProductIdentity f (field details (if f = PensionFamily then ''PolicyId'' else ''FundNumber''))) (\<lambda>(i, _).
       if list_all (\<lambda>p. ip_id p \<noteq> i) products then invalid
       else bindE (mapE (read_report env f data) (filter (\<lambda>k. field data k \<noteq> JNull \<and> field data k \<noteq> JUndef) (report_keys f))) (\<lambda>reports.
         Inr (set_reports i reports products))))))"

definition enrichClalReports :: "zod_env \<Rightarrow> inv_snapshot \<Rightarrow> api_response list \<Rightarrow> api_response list \<Rightarrow> inv_snapshot res" where
  "enrichClalReports env s pensionDetails gemelDetails =
     bindE (foldE (add_reports env) (map (Pair PensionFamily) pensionDetails @ map (Pair HishtalmutFamily) gemelDetails) (id_products s)) (\<lambda>products.
     bindE (enrichClalReportValuations env (s\<lparr>id_products := products\<rparr>)) (\<lambda>t. parse_snapshot env t))"

text \<open>The snapshot of all captured responses.\<close>

definition read_snapshot :: "deposit_env \<Rightarrow> portfolio_input \<Rightarrow> inv_snapshot res" where
  "read_snapshot env input =
     bindE (parseClalPortfolioSnapshot (clal_env.truncate env) input) (\<lambda>s.
     bindE (enrichClalActivities env s (pf_pensionDetails input) (pf_gemelDetails input)) (\<lambda>t.
       enrichClalReports (cl_zod env) t (pf_pensionDetails input) (pf_gemelDetails input)))"

section \<open>History from reports\<close>

text \<open>
  C28: history comes from dated balances only. When the reports of the Clal portal are read without an error, every
  valuation of the snapshot is one it already had or a balance some report line states, under a date the report itself
  opens or closes on, within one calendar year, no later than the day of observation, not negative, and for a day on which the
  portal stated no value itself. No period flow becomes a valuation.
\<close>

theorem report_history_dated:
  assumes "enrichClalReports env s pensionDetails gemelDetails = Inr t" "v \<in> set (id_valuations t)"
  shows "v \<in> trim_valuation ` set (id_valuations s) \<or>
    (\<exists>p u. trim_product p \<in> set (id_products t) \<and> stated_balance (id_valuations s) p u \<and> v = trim_valuation u)"
proof -
  obtain products d where d: "enrichClalReportValuations env (s\<lparr>id_products := products\<rparr>) = Inr d" "parse_snapshot env d = Inr t"
    using assms(1) by (auto simp: enrichClalReports_def)
  with valuations_added [OF d(1)] obtain us where us: "d = s\<lparr>id_products := products, id_valuations := id_valuations s @ us\<rparr>"
      "\<forall>v\<in>set us. \<exists>p\<in>set products. stated_balance (id_valuations s) p v"
    by auto
  have "t = trim_data d"
    using d(2) by (simp add: parse_snapshot_def checked_by_ok)
  with us assms(2) show ?thesis
    by (fastforce simp: trim_data_def)
qed

end
