(* ===== verification/InvClalReportsExample.thy ===== *)
theory InvClalReportsExample
  imports InvClalReports InvReconcileExample
begin

text \<open>A study fund whose report states the balance it closed with.\<close>

definition example_label :: jsstr where
  "example_label = hd BALANCE_LABELS @ js '' 01/07/2024''"

definition example_report :: fields where
  "example_report = [(js ''FundDetails'', JObj [(js ''FundNumber'', JStr (js ''7''))]),
     (js ''DeposMonthlyBalance'', JObj [(js ''StartYear'', JStr (js ''01/01/2024'')), (js ''EndYear'', JStr (js ''01/07/2024'')),
       (js ''DeposMonthlyList'', JArr [JObj [(js ''Title'', JStr example_label), (js ''Total'', JStr (js ''5''))]])])]"

definition example_summary :: report_summary where
  "example_summary = \<lparr>rp_id = js ''DeposMonthlyBalance:2024-01-01:2024-07-01'', rp_title = REPORT_TITLE, rp_fromDate = Some (js ''2024-01-01''),
     rp_toDate = Some (js ''2024-07-01''), rp_lines = [\<lparr>rl_label = example_label, rl_amount = js ''5.00''\<rparr>]\<rparr>"

lemma example_dates:
  "parseClalDate example_zod (JStr (js ''01/01/2024'')) = Inr (Some (js ''2024-01-01''))"
  "parseClalDate example_zod (JStr (js ''01/07/2024'')) = Inr (Some (js ''2024-07-01''))"
proof -
  have "ze_date example_zod (js ''2024-01-01'')" "ze_date example_zod (js ''2024-07-01'')"
    by code_simp+
  then show "parseClalDate example_zod (JStr (js ''01/01/2024'')) = Inr (Some (js ''2024-01-01''))"
    "parseClalDate example_zod (JStr (js ''01/07/2024'')) = Inr (Some (js ''2024-07-01''))"
    by (simp_all add: parseClalDate_def blank_def clal_text_def js_trim_def is_space_def day_first_def is_digit_def)
qed

lemma example_label_text: "clal_text (JStr example_label) = Inr example_label"
  by (simp add: clal_text_def example_label_def BALANCE_LABELS_def js_trim_def is_space_def)

lemma example_five: "parseClalMoney (JStr (js ''5'')) = Inr (js ''5.00'')"
  by (simp add: clal_text_def js_trim_def is_space_def parseClalMoney_def starts_with_def normal_amount_def clal_amount_def
    grouped_digits_def is_digit_def nat_str_rec digits_val_def Let_def numeral_2_eq_2)

lemma example_report_read: "read_report example_zod HishtalmutFamily example_report ''DeposMonthlyBalance'' = Inr example_summary"
  using example_dates example_label_text example_five
  by (simp add: read_report_def example_report_def field_def js_prop_def clalRecord_def clalArray_def report_lines_def has_total_def NO_TOTAL_def
    report_line_of_def example_summary_def js_trim_def is_space_def del: bindE_eq_Inr)

lemma example_find: "find_date False example_label = Some (js ''01/07/2024'')" "balance_label example_label" "\<not> contains_text OPENING example_label"
  by (simp_all add: example_label_def BALANCE_LABELS_def balance_label_def find_date.simps slashed_date_def is_digit_def is_word_def is_upper_def is_lower_def OPENING_def starts_with_def is_space_def)

definition example_reported :: inv_product where
  "example_reported = example_product_read\<lparr>ip_reports := Some [example_summary]\<rparr>"

definition example_history_row :: inv_valuation where
  "example_history_row = \<lparr>iv_id = js ''clal:hishtalmut%3A7:valuation:2024-07-01'', iv_productId = js ''clal:hishtalmut%3A7'', iv_asOf = Some (js ''2024-07-01''),
     iv_observedAt = js ''2024-07-10T08:00:00.000Z'', iv_amount = js ''5.00'', iv_currency = js ''ILS'', iv_provenance = None\<rparr>"

definition example_enriched :: inv_snapshot where
  "example_enriched = example_snapshot_read\<lparr>id_products := [example_reported], id_valuations := id_valuations example_snapshot_read @ [example_history_row]\<rparr>"

lemma example_added: "add_reports example_zod (HishtalmutFamily, clal_answer example_report) [example_product_read] = Inr [example_reported]"
proof -
  define data where "data = (js ''IsSuccess'', JBool True) # example_report"
  have "requireClalSuccess (ar_data (clal_answer example_report)) = Inr data" "ar_status (clal_answer example_report) = JNum 200"
    by (simp_all add: clal_answer_def requireClalSuccess_def clalRecord_def field_def js_prop_def example_report_def data_def)
  moreover have "field data ''FundDetails'' = JObj [(js ''FundNumber'', JStr (js ''7''))]" "field data ''DeposMonthlyBalance'' \<noteq> JNull"
      "field data ''DeposMonthlyBalance'' \<noteq> JUndef" "field [(js ''FundNumber'', JStr (js ''7''))] ''FundNumber'' = JStr (js ''7'')"
    by (simp_all add: data_def example_report_def field_def js_prop_def)
  moreover have "read_report example_zod HishtalmutFamily data ''DeposMonthlyBalance'' = Inr example_summary"
    using example_report_read by (simp add: data_def read_report_def field_def js_prop_def)
  moreover have "ip_id example_product_read = js ''clal:hishtalmut%3A7''"
    by (simp add: example_product_read_def)
  ultimately show ?thesis
    using example_identity by (simp add: add_reports_def report_keys_def example_reported_def clalRecord_def del: bindE_eq_Inr)
qed

lemma example_valued: "enrichClalReportValuations example_zod (example_snapshot_read\<lparr>id_products := [example_reported]\<rparr>) = Inr example_enriched"
  using example_find example_dates
  by (simp add: enrichClalReportValuations_def enrich_product_def example_snapshot_read_def empty_snapshot_def example_reported_def example_product_read_def
    example_summary_def reportBalances_def line_balance_def text_value_def starts_with_def investmentValuationId_def checked_id_def add_candidate_def
    example_enriched_def example_history_row_def del: bindE_eq_Inr)

lemma example_parsed: "parse_snapshot example_zod example_enriched = Inr example_enriched"
proof -
  have zeros: "replicate 4 48 = [48, 48, 48, 48 :: nat]"
    by (simp add: numeral_eq_Suc)
  have dates: "ze_date example_zod (js ''2024-01-01'')" "ze_date example_zod (js ''2024-07-01'')"
    by code_simp+
  have report: "trim_report example_summary = example_summary" "report_ok example_zod example_summary"
    using dates
    by (simp_all add: trim_report_def report_ok_def example_summary_def example_label_def BALANCE_LABELS_def REPORT_TITLE_def js_trim_def is_space_def sized_def
      null_or_def money_def decimal_def whole_number_def starts_with_def is_digit_def)
  have product: "trim_product example_reported = example_reported" "product_ok example_zod example_reported"
    using report by (simp_all add: example_reported_def example_product_read_def trim_product_def product_ok_def js_trim_def is_space_def sized_def
      currency_code_def is_upper_def null_or_def)
  show ?thesis
    using example_observed zeros dates product
    by (simp add: parse_snapshot_def checked_by_def data_ok_def trim_data_def example_enriched_def example_snapshot_read_def empty_snapshot_def example_history_row_def
      trim_valuation_def valuation_ok_def trim_track_def track_ok_def sized_def currency_code_def nonnegative_money_def money_def decimal_def
      valuation_money_def js_trim_def is_space_def starts_with_def is_digit_def is_upper_def null_or_def whole_number_def digits_val_def)
qed

theorem report_history_dated_witness:
  "enrichClalReports example_zod example_snapshot_read [] [clal_answer example_report] = Inr example_enriched \<and>
   example_history_row \<in> set (id_valuations example_enriched) \<and>
   (\<exists>p u. trim_product p \<in> set (id_products example_enriched) \<and> stated_balance (id_valuations example_snapshot_read) p u \<and> example_history_row = trim_valuation u)"
proof -
  have "id_products example_snapshot_read = [example_product_read]"
    by (simp add: example_snapshot_read_def)
  then have run: "enrichClalReports example_zod example_snapshot_read [] [clal_answer example_report] = Inr example_enriched"
    using example_added example_valued example_parsed by (simp add: enrichClalReports_def del: bindE_eq_Inr)
  have row: "example_history_row \<in> set (id_valuations example_enriched)"
    by (simp add: example_enriched_def)
  have "example_history_row \<notin> trim_valuation ` set (id_valuations example_snapshot_read)"
    by (simp add: example_history_row_def example_snapshot_read_def trim_valuation_def)
  with run row report_history_dated [OF run row] show ?thesis
    by blast
qed

end
