(* ===== verification/JsonParse.thy ===== *)
theory JsonParse
  imports JsJson
begin

text \<open>
  \<^verbatim>\<open>JSON.parse\<close> on lists of code units, with the reading of a number as an argument so that a reader that
  keeps number literals can be compared with it. \<open>None\<close> is the \<^verbatim>\<open>SyntaxError\<close>. The fuel bounds the calls on a
  path of the recursion; \<open>json_fuel_enough\<close> shows that twice the length of the text is enough.
\<close>

section \<open>Lexical structure\<close>

definition json_space :: "nat \<Rightarrow> bool" where
  "json_space c \<longleftrightarrow> c = 32 \<or> c = 9 \<or> c = 10 \<or> c = 13"

definition skip :: "jsstr \<Rightarrow> jsstr" where
  "skip s = dropWhile json_space s"

text \<open>\<^verbatim>\<open>(?:\.\d+)?\<close> and \<^verbatim>\<open>(?:e[+-]?\d+)?\<close>.\<close>

definition fraction_part :: "jsstr \<Rightarrow> jsstr \<times> jsstr" where
  "fraction_part s =
     (case s of
        [] \<Rightarrow> ([], [])
      | c # t \<Rightarrow>
          let ds = takeWhile is_digit t in
          if c = 46 \<and> ds \<noteq> [] then (c # ds, dropWhile is_digit t) else ([], s))"

definition exponent_sign :: "jsstr \<Rightarrow> jsstr" where
  "exponent_sign s = (case s of [] \<Rightarrow> [] | c # t \<Rightarrow> if c = 43 \<or> c = 45 then [c] else [])"

definition exponent_part :: "jsstr \<Rightarrow> jsstr \<times> jsstr" where
  "exponent_part s =
     (case s of
        [] \<Rightarrow> ([], [])
      | c # t \<Rightarrow>
          let sign = exponent_sign t; u = drop (length sign) t; ds = takeWhile is_digit u in
          if (c = 101 \<or> c = 69) \<and> ds \<noteq> [] then (c # sign @ ds, dropWhile is_digit u) else ([], s))"

text \<open>\<^verbatim>\<open>0|[1-9]\d*\<close>.\<close>

definition integer_part :: "jsstr \<Rightarrow> (jsstr \<times> jsstr) option" where
  "integer_part s =
     (case s of
        [] \<Rightarrow> None
      | c # t \<Rightarrow>
          if c = 48 then Some ([c], t)
          else if is_digit c then Some (takeWhile is_digit s, dropWhile is_digit s) else None)"

definition sign_part :: "jsstr \<Rightarrow> jsstr" where
  "sign_part s = (case s of [] \<Rightarrow> [] | c # t \<Rightarrow> if c = 45 then [c] else [])"

text \<open>The longest number at the head of a text, and what follows it.\<close>

definition number_lexeme :: "jsstr \<Rightarrow> (jsstr \<times> jsstr) option" where
  "number_lexeme s =
     (case integer_part (drop (length (sign_part s)) s) of
        None \<Rightarrow> None
      | Some (whole, t) \<Rightarrow>
          let (fraction, u) = fraction_part t; (ex, r) = exponent_part u in Some (sign_part s @ whole @ fraction @ ex, r))"

definition hex_value :: "nat \<Rightarrow> nat option" where
  "hex_value c =
     (if is_digit c then Some (c - 48) else if 97 \<le> c \<and> c \<le> 102 then Some (c - 87)
      else if 65 \<le> c \<and> c \<le> 70 then Some (c - 55) else None)"

fun hex_unit :: "jsstr \<Rightarrow> nat option" where
  "hex_unit [a, b, c, d] =
     (case (hex_value a, hex_value b, hex_value c, hex_value d) of
        (Some w, Some x, Some y, Some z) \<Rightarrow> Some (((w * 16 + x) * 16 + y) * 16 + z)
      | _ \<Rightarrow> None)"
| "hex_unit _ = None"

definition escape_value :: "nat \<Rightarrow> nat option" where
  "escape_value c =
     (if c = 34 \<or> c = 92 \<or> c = 47 then Some c
      else if c = 98 then Some 8 else if c = 102 then Some 12 else if c = 110 then Some 10
      else if c = 114 then Some 13 else if c = 116 then Some 9 else None)"

definition push :: "nat \<Rightarrow> (jsstr \<times> jsstr) option \<Rightarrow> (jsstr \<times> jsstr) option" where
  "push c r = map_option (apfst (Cons c)) r"

text \<open>The rest of a string literal after its opening quote, and what follows the closing one.\<close>

function json_chars :: "jsstr \<Rightarrow> (jsstr \<times> jsstr) option" where
  "json_chars [] = None"
| "json_chars (c # s) =
     (if c = 34 then Some ([], s)
      else if c = 92 then
        (case s of
           [] \<Rightarrow> None
         | e # t \<Rightarrow>
             if e = 117 then (case hex_unit (take 4 t) of None \<Rightarrow> None | Some u \<Rightarrow> push u (json_chars (drop 4 t)))
             else (case escape_value e of None \<Rightarrow> None | Some u \<Rightarrow> push u (json_chars t)))
      else if c < 32 then None
      else push c (json_chars s))"
  by pat_completeness auto
termination by (relation "measure length") auto

section \<open>Values\<close>

text \<open>A repeated key keeps its place and takes the last value; array indices come first in an object.\<close>

definition enumeration_order :: "jsstr \<times> 'a \<Rightarrow> jsstr \<times> 'a \<Rightarrow> int" where
  "enumeration_order a b =
     (if index_key (fst a) \<and> index_key (fst b) then cmp_of (digits_int (fst a)) (digits_int (fst b))
      else if index_key (fst a) then -1
      else if index_key (fst b) then 1
      else 0)"

definition object_entries :: "(jsstr \<times> 'a) list \<Rightarrow> (jsstr \<times> 'a) list" where
  "object_entries ps = sort_by enumeration_order (foldl (\<lambda>acc (k, v). AList.update k v acc) [] ps)"

definition json_keyword :: "jsstr \<Rightarrow> (jsval \<times> jsstr) option" where
  "json_keyword s =
     (if starts_with s (js ''true'') then Some (JBool True, drop 4 s)
      else if starts_with s (js ''false'') then Some (JBool False, drop 5 s)
      else if starts_with s (js ''null'') then Some (JNull, drop 4 s) else None)"

fun json_value :: "(jsstr \<Rightarrow> jsval) \<Rightarrow> nat \<Rightarrow> jsstr \<Rightarrow> (jsval \<times> jsstr) option"
  and json_elements :: "(jsstr \<Rightarrow> jsval) \<Rightarrow> nat \<Rightarrow> jsstr \<Rightarrow> (jsval list \<times> jsstr) option"
  and json_members :: "(jsstr \<Rightarrow> jsval) \<Rightarrow> nat \<Rightarrow> jsstr \<Rightarrow> ((jsstr \<times> jsval) list \<times> jsstr) option" where
  "json_value num 0 s = None"
| "json_value num (Suc n) s =
     (case skip s of
        [] \<Rightarrow> None
      | c # t \<Rightarrow>
          if c = 34 then map_option (apfst JStr) (json_chars t)
          else if c = 91 then
            (case skip t of
               [] \<Rightarrow> None
             | d # u \<Rightarrow> if d = 93 then Some (JArr [], u) else map_option (apfst JArr) (json_elements num n (d # u)))
          else if c = 123 then
            (case skip t of
               [] \<Rightarrow> None
             | d # u \<Rightarrow> if d = 125 then Some (JObj [], u)
                 else map_option (apfst (\<lambda>ps. JObj (object_entries ps))) (json_members num n (d # u)))
          else if c = 45 \<or> is_digit c then map_option (apfst num) (number_lexeme (c # t))
          else json_keyword (c # t))"
| "json_elements num 0 s = None"
| "json_elements num (Suc n) s =
     (case json_value num n s of
        None \<Rightarrow> None
      | Some (v, r) \<Rightarrow>
          (case skip r of
             [] \<Rightarrow> None
           | c # t \<Rightarrow>
               if c = 44 then map_option (apfst (Cons v)) (json_elements num n t)
               else if c = 93 then Some ([v], t) else None))"
| "json_members num 0 s = None"
| "json_members num (Suc n) s =
     (case skip s of
        [] \<Rightarrow> None
      | c # t \<Rightarrow>
          if c \<noteq> 34 then None
          else (case json_chars t of
            None \<Rightarrow> None
          | Some (k, r) \<Rightarrow>
              (case skip r of
                 [] \<Rightarrow> None
               | d # u \<Rightarrow>
                   if d \<noteq> 58 then None
                   else (case json_value num n u of
                     None \<Rightarrow> None
                   | Some (v, w) \<Rightarrow>
                       (case skip w of
                          [] \<Rightarrow> None
                        | e # x \<Rightarrow>
                            if e = 44 then map_option (apfst (Cons (k, v))) (json_members num n x)
                            else if e = 125 then Some ([(k, v)], x) else None)))))"

definition json_fuel :: "jsstr \<Rightarrow> nat" where
  "json_fuel s = 2 * length s + 1"

definition json_parse_with :: "(jsstr \<Rightarrow> jsval) \<Rightarrow> jsstr \<Rightarrow> jsval option" where
  "json_parse_with num s =
     (case json_value num (json_fuel s) s of
        None \<Rightarrow> None
      | Some (v, r) \<Rightarrow> if skip r = [] then Some v else None)"

text \<open>\<^verbatim>\<open>JSON.parse\<close>: a number is the nearest double.\<close>

definition number_value :: "jsstr \<Rightarrow> jsval" where
  "number_value s = (case js_number s of Some x \<Rightarrow> JNum x | None \<Rightarrow> JNonFinite)"

definition json_parse :: "jsstr \<Rightarrow> jsval option" where
  "json_parse s = json_parse_with number_value s"

section \<open>Enough fuel\<close>

lemma skip_length: "length (skip s) \<le> length s"
  by (simp add: skip_def length_dropWhile_le)

lemma skip_Cons_length: "skip s = c # t \<Longrightarrow> length t < length s"
  using skip_length [of s] by simp

lemma dropWhile_shorter: "length (dropWhile P s) \<le> length s"
  by (simp add: length_dropWhile_le)

lemma fraction_append: "fraction_part s = (a, r) \<Longrightarrow> s = a @ r"
  by (auto simp: fraction_part_def Let_def split: list.splits if_splits)

lemma sign_append: "exponent_sign s @ drop (length (exponent_sign s)) s = s"
  by (auto simp: exponent_sign_def split: list.splits)

lemma exponent_append: "exponent_part s = (a, r) \<Longrightarrow> s = a @ r"
proof (cases s)
  case (Cons c t)
  let ?u = "drop (length (exponent_sign t)) t"
  assume a: "exponent_part s = (a, r)"
  have "exponent_sign t @ takeWhile is_digit ?u @ dropWhile is_digit ?u = t"
    by (simp add: sign_append)
  with a Cons show ?thesis
    by (auto simp: exponent_part_def Let_def split: if_splits)
qed (simp add: exponent_part_def)

lemma integer_append: "integer_part s = Some (a, r) \<Longrightarrow> s = a @ r \<and> a \<noteq> []"
  by (auto simp: integer_part_def split: list.splits if_splits)

lemma lexeme_append: "number_lexeme s = Some (l, r) \<Longrightarrow> s = l @ r \<and> l \<noteq> []"
  by (auto simp: number_lexeme_def sign_part_def Let_def split: option.splits prod.splits list.splits if_splits
      dest!: integer_append fraction_append exponent_append)

text \<open>What a reader leaves is shorter than the text it was given.\<close>

definition shrinks :: "jsstr \<Rightarrow> ('a \<times> jsstr) option \<Rightarrow> bool" where
  "shrinks s x \<longleftrightarrow> (\<forall>v r. x = Some (v, r) \<longrightarrow> length r < length s)"

lemma shrinks_simps [simp]:
  "shrinks s None"
  "shrinks s (Some (v, r)) \<longleftrightarrow> length r < length s"
  "shrinks s (map_option (apfst f) x) \<longleftrightarrow> shrinks s x"
  "shrinks s (push c y) \<longleftrightarrow> shrinks s y"
  by (auto simp: shrinks_def push_def)

lemma shrinks_mono: "shrinks t x \<Longrightarrow> length t \<le> length s \<Longrightarrow> shrinks s x"
  by (fastforce simp: shrinks_def)

lemma shrinks_Cons: "shrinks t x \<Longrightarrow> shrinks (c # t) x"
  by (erule shrinks_mono) simp

lemma shrinks_skip: "skip s = c # t \<Longrightarrow> shrinks (c # t) x \<Longrightarrow> shrinks s x"
  using skip_length [of s] shrinks_mono by fastforce

lemma shrinks_dest: "shrinks s x \<Longrightarrow> x = Some (v, r) \<Longrightarrow> length r < length s"
  by (simp add: shrinks_def)

lemma json_chars_shrinks: "shrinks s (json_chars s)"
proof (induction s rule: json_chars.induct)
  case (2 c s)
  have short: "length (drop 4 t) \<le> length (c # e # t)" for e t by simp
  show ?case
  proof (cases "c = 92")
    case True
    have "shrinks (c # e # t) (push u (json_chars (drop 4 t)))" if "s = e # t" "e = 117" "hex_unit (take 4 t) = Some u" for e t u
      using 2(1) [OF _ True that] True shrinks_mono [OF _ short] by simp
    moreover have "shrinks (c # e # t) (push u (json_chars t))" if "s = e # t" "e \<noteq> 117" "escape_value e = Some u" for e t u
      using shrinks_mono [OF 2(2) [OF _ True that], of "c # e # t"] True by simp
    ultimately show ?thesis
      using True by (simp split: list.split option.split)
  next
    case False
    with 2(3) show ?thesis
      using shrinks_mono [of s "json_chars s" "c # s"] by auto
  qed
qed simp

lemma keyword_shrinks: "shrinks s (json_keyword s)"
  by (auto simp: json_keyword_def starts_with_def shrinks_def split: if_splits dest!: arg_cong [where f = length])

lemma lexeme_shrinks: "shrinks s (number_lexeme s)"
  using lexeme_append by (fastforce simp: shrinks_def)

lemma json_shrinks: "shrinks s (json_value num n s) \<and> shrinks s (json_elements num n s) \<and> shrinks s (json_members num n s)"
proof (induction n arbitrary: s)
  case (Suc n)
  have "shrinks s (json_value num (Suc n) s)"
  proof (cases "skip s")
    case (Cons c t)
    have "shrinks (c # t) (json_chars t)"
      by (rule shrinks_Cons [OF json_chars_shrinks])
    moreover have "length u < length (c # t)" if "skip t = d # u" for d u
      using skip_Cons_length [OF that] by simp
    moreover have "shrinks (c # t) (json_elements num n (d # u))" "shrinks (c # t) (json_members num n (d # u))" if "skip t = d # u" for d u
      using Suc.IH [of "d # u"] shrinks_skip [OF that] by (auto intro!: shrinks_Cons)
    ultimately have "shrinks (c # t) (json_value num (Suc n) s)"
      using Cons lexeme_shrinks [of "c # t"] keyword_shrinks [of "c # t"] by (cases "skip t") auto
    then show ?thesis by (rule shrinks_skip [OF Cons])
  qed simp
  moreover have "shrinks s (json_elements num (Suc n) s)"
  proof (cases "json_value num n s")
    case (Some p)
    obtain v r where p: "p = (v, r)" by (cases p)
    have r: "length r < length s"
      using Suc.IH [of s] Some p by (auto dest: shrinks_dest)
    show ?thesis
    proof (cases "skip r")
      case (Cons c t)
      have t: "length t < length s"
        using skip_Cons_length [OF Cons] r by simp
      have "shrinks s (json_elements num n t)"
        using shrinks_mono [of t "json_elements num n t" s] Suc.IH [of t] t by simp
      with t show ?thesis using Some p Cons by simp
    qed (simp add: Some p)
  qed simp
  moreover have "shrinks s (json_members num (Suc n) s)"
  proof (cases "\<exists>t k r u v w e x. skip s = 34 # t \<and> json_chars t = Some (k, r) \<and> skip r = 58 # u \<and>
      json_value num n u = Some (v, w) \<and> skip w = e # x")
    case True
    then obtain t k r u v w e x where m: "skip s = 34 # t" "json_chars t = Some (k, r)" "skip r = 58 # u"
        "json_value num n u = Some (v, w)" "skip w = e # x"
      by blast
    have "length x < length w" "length w < length u" "length u < length r" "length r < length t" "length t < length s"
      using m skip_Cons_length Suc.IH [of u] json_chars_shrinks [of t] by (auto dest: shrinks_dest)
    then have x: "length x < length s" by simp
    have "shrinks s (json_members num n x)"
      using shrinks_mono [of x "json_members num n x" s] Suc.IH [of x] x by simp
    with x show ?thesis using m by simp
  next
    case False
    then show ?thesis by (auto split: list.split option.split)
  qed
  ultimately show ?case by blast
qed simp

text \<open>A result stays when there is more fuel, and twice the length of the text decides it.\<close>

definition kept :: "'a option \<Rightarrow> 'a option \<Rightarrow> bool" where
  "kept x y \<longleftrightarrow> x = None \<or> y = x"

lemma kept_simps [simp]: "kept None y" "kept x x" "kept (Some v) y \<longleftrightarrow> y = Some v"
  by (auto simp: kept_def)

lemma kept_map: "kept x y \<Longrightarrow> kept (map_option f x) (map_option f y)"
  by (auto simp: kept_def)

declare json_value.simps(2) [simp del] json_elements.simps(2) [simp del] json_members.simps(2) [simp del]

lemma json_more_fuel:
  "kept (json_value num n s) (json_value num (Suc n) s) \<and> kept (json_elements num n s) (json_elements num (Suc n) s) \<and>
   kept (json_members num n s) (json_members num (Suc n) s)"
proof (induction n arbitrary: s)
  case (Suc n)
  note v = Suc.IH [THEN conjunct1] and e = Suc.IH [THEN conjunct2, THEN conjunct1] and m = Suc.IH [THEN conjunct2, THEN conjunct2]
  have val: "kept (json_value num (Suc n) s) (json_value num (Suc (Suc n)) s)"
    by (auto simp: json_value.simps(2) [of num n s] json_value.simps(2) [of num "Suc n" s] split: list.split intro: kept_map [OF e] kept_map [OF m])
  have ele: "kept (json_elements num (Suc n) s) (json_elements num (Suc (Suc n)) s)"
  proof (cases "json_value num n s")
    case (Some p)
    with v [of s] have "json_value num (Suc n) s = Some p" by simp
    with Some show ?thesis
      by (auto simp: json_elements.simps(2) [of num n s] json_elements.simps(2) [of num "Suc n" s] split: list.split prod.split intro: kept_map [OF e])
  qed (simp add: json_elements.simps(2) [of num n s])
  have mem: "kept (json_members num (Suc n) s) (json_members num (Suc (Suc n)) s)"
  proof (cases "\<exists>t k r u p. skip s = 34 # t \<and> json_chars t = Some (k, r) \<and> skip r = 58 # u \<and> json_value num n u = Some p")
    case True
    then obtain t k r u p where q: "skip s = 34 # t" "json_chars t = Some (k, r)" "skip r = 58 # u" "json_value num n u = Some p"
      by blast
    with v [of u] have "json_value num (Suc n) u = Some p" by simp
    with q show ?thesis
      by (auto simp: json_members.simps(2) [of num n s] json_members.simps(2) [of num "Suc n" s] split: list.split prod.split intro: kept_map [OF m])
  next
    case False
    then have "json_members num (Suc n) s = None" by (auto simp: json_members.simps(2) split: list.split option.split)
    then show ?thesis by simp
  qed
  from val ele mem show ?case by blast
qed simp

lemma json_value_fuel:
  assumes "n \<le> m" "json_value num n s = Some x"
  shows "json_value num m s = Some x"
  using assms(1)
proof (induction m rule: dec_induct)
  case (step k)
  then show ?case using json_more_fuel [of num k s] by simp
qed (rule assms(2))

lemma json_decided:
  "(2 * length s < n \<longrightarrow> json_value num (Suc n) s = json_value num n s) \<and>
   (2 * length s + 1 < n \<longrightarrow> json_elements num (Suc n) s = json_elements num n s \<and> json_members num (Suc n) s = json_members num n s)"
proof (induction n arbitrary: s)
  case (Suc n)
  note v = Suc.IH [THEN conjunct1, rule_format] and em = Suc.IH [THEN conjunct2, rule_format]
  have val: "json_value num (Suc (Suc n)) s = json_value num (Suc n) s" if l: "2 * length s < Suc n"
  proof (cases "skip s")
    case (Cons c t)
    have "2 * length (d # u) + 1 < n" if "skip t = d # u" for d u
      using skip_Cons_length [OF Cons] skip_length [of t] that l by simp
    with Cons show ?thesis
      using em by (cases "skip t") (simp_all add: json_value.simps(2) [of num n s] json_value.simps(2) [of num "Suc n" s])
  qed (simp add: json_value.simps(2) [of num n s] json_value.simps(2) [of num "Suc n" s])
  have ele: "json_elements num (Suc (Suc n)) s = json_elements num (Suc n) s" if l: "2 * length s + 1 < Suc n"
  proof (cases "json_value num n s")
    case (Some p)
    obtain x r where p: "p = (x, r)" by (cases p)
    have r: "length r < length s"
      using json_shrinks [of s num n] Some p by (auto dest: shrinks_dest)
    have "2 * length t + 1 < n" if "skip r = c # t" for c t
      using skip_Cons_length [OF that] r l by simp
    with Some p show ?thesis
      using v [of s] l em by (cases "skip r") (simp_all add: json_elements.simps(2) [of num n s] json_elements.simps(2) [of num "Suc n" s])
  next
    case None
    then show ?thesis using v [of s] l by (simp add: json_elements.simps(2) [of num n s] json_elements.simps(2) [of num "Suc n" s])
  qed
  have mem: "json_members num (Suc (Suc n)) s = json_members num (Suc n) s" if l: "2 * length s + 1 < Suc n"
  proof (cases "\<exists>t k r u. skip s = 34 # t \<and> json_chars t = Some (k, r) \<and> skip r = 58 # u")
    case True
    then obtain t k r u where q: "skip s = 34 # t" "json_chars t = Some (k, r)" "skip r = 58 # u"
      by blast
    have len: "length t < length s" "length r < length t" "length u < length r"
      using q skip_Cons_length json_chars_shrinks [of t] by (auto dest: shrinks_dest)
    have u: "json_value num (Suc n) u = json_value num n u"
      using v [of u] len l by simp
    have "2 * length x + 1 < n" if "json_value num n u = Some (y, w)" "skip w = e # x" for y w e x
    proof -
      have "length w < length u"
        using json_shrinks [of u num n] that(1) by (auto dest: shrinks_dest)
      with skip_Cons_length [OF that(2)] len l show ?thesis by simp
    qed
    then show ?thesis
      using q u em by (auto simp: json_members.simps(2) [of num n s] json_members.simps(2) [of num "Suc n" s] split: option.split list.split)
  next
    case False
    then have "json_members num k s = None" for k
      by (cases k) (auto simp: json_members.simps(2) split: list.split option.split)
    then show ?thesis by simp
  qed
  from val ele mem show ?case by blast
qed simp

lemma json_fuel_enough: "json_fuel s \<le> n \<Longrightarrow> json_value num n s = json_value num (json_fuel s) s"
proof (induction n rule: dec_induct)
  case (step k)
  then show ?case using json_decided [of s k num] by (simp add: json_fuel_def)
qed auto

end
