(* ===== verification/BestParser.thy ===== *)
theory BestParser
  imports InvPortfolio
begin

text \<open>
  \<^verbatim>\<open>src/investments/best-invest/parser.ts\<close>: the captured policies of the Best Invest portal become one snapshot. The
  diagnostic codes handed to \<^verbatim>\<open>onIncomplete\<close> are collected in a list beside the snapshot; \<^verbatim>\<open>incomplete\<close> adds to it
  and clears the flag. The readers of texts, records and cents are those of the Clal parser.
\<close>

section \<open>Reading\<close>

datatype incomplete_reason =
    InventoryIncomplete
  | PoliciesEmpty
  | PolicyDetailsMissing
  | PolicyIdMissing
  | PolicyNameMissing
  | ValuationAmountMissing
  | TrackAccumulationMissing
  | TrackAllocationMissing
  | TrackRowsInvalid
  | TrackAllocationRowsInvalid
  | TrackTotalMissing
  | TrackAmountMissing
  | TrackMappingMissing
  | TrackMappingAmbiguous
  | TrackIdMissing
  | TrackSumMismatch
  | TrackTotalMismatch
  | DepositsMissing
  | DepositRowsInvalid
  | DepositsTotalMissing
  | DepositAmountMissing
  | DepositsSumMismatch

record captured_policy =
  cp_details :: jsval
  cp_deposits :: jsval
  cp_depositsYear :: jsval
  cp_expectedPolicyId :: "jsstr option"

record best_input =
  bi_observedAt :: jsstr
  bi_policies :: "captured_policy list"
  bi_inventoryComplete :: bool

definition identity :: "jsval \<Rightarrow> jsstr res" where
  "identity v = (case v of JNum n \<Rightarrow> if is_safe_integer n \<and> 0 \<le> n then Inr (num_to_string n) else clal_text v | _ \<Rightarrow> clal_text v)"

text \<open>The sign is optional, either way.\<close>

definition unsigned_of :: "jsstr \<Rightarrow> jsstr" where
  "unsigned_of input = (if starts_with input (js ''-'') \<or> starts_with input (js ''+'') then tl input else input)"

definition parseBestInvestMoney :: "jsval \<Rightarrow> jsstr res" where
  "parseBestInvestMoney v =
     bindE (case v of JNum n \<Rightarrow> if is_safe_integer n then Inr (num_to_string n) else clal_text v | _ \<Rightarrow> clal_text v) (\<lambda>input.
       let amount = normal_amount (unsigned_of input) in
       if \<not> clal_amount (unsigned_of input) then invalid
       else Inr (if starts_with input (js ''-'') \<and> amount \<noteq> js ''0.00'' then js ''-'' @ amount else amount))"

text \<open>\<^verbatim>\<open>T(?:[01]\d|2[0-3]):[0-5]\d:[0-5]\d(?:\.\d+)?(?:Z|[+-](?:[01]\d|2[0-3]):[0-5]\d)?\<close> after the date.\<close>

definition clock_text :: "nat \<Rightarrow> nat \<Rightarrow> nat \<Rightarrow> nat \<Rightarrow> bool" where
  "clock_text h1 h2 m1 m2 \<longleftrightarrow> list_all is_digit [h1, h2, m1, m2] \<and> num2 h1 h2 \<le> 23 \<and> num2 m1 m2 \<le> 59"

definition offset_text :: "jsstr \<Rightarrow> bool" where
  "offset_text s = (case s of [] \<Rightarrow> True
     | [z] \<Rightarrow> z = 90
     | [sign, h1, h2, c, m1, m2] \<Rightarrow> (sign = 43 \<or> sign = 45) \<and> c = 58 \<and> clock_text h1 h2 m1 m2
     | _ \<Rightarrow> False)"

definition after_seconds :: "jsstr \<Rightarrow> bool" where
  "after_seconds s =
     (if starts_with s (js ''.'')
      then takeWhile is_digit (tl s) \<noteq> [] \<and> offset_text (dropWhile is_digit (tl s))
      else offset_text s)"

definition time_suffix :: "jsstr \<Rightarrow> bool" where
  "time_suffix s = (case s of t # h1 # h2 # c1 # m1 # m2 # c2 # s1 # s2 # rest \<Rightarrow>
       t = 84 \<and> c1 = 58 \<and> c2 = 58 \<and> clock_text h1 h2 m1 m2 \<and> list_all is_digit [s1, s2] \<and> num2 s1 s2 \<le> 59 \<and> after_seconds rest
     | _ \<Rightarrow> False)"

definition dashed_date :: "jsstr \<Rightarrow> bool" where
  "dashed_date s = (case s of [y1, y2, y3, y4, d1, m1, m2, d2, a1, a2] \<Rightarrow>
       list_all is_digit [y1, y2, y3, y4, m1, m2, a1, a2] \<and> d1 = 45 \<and> d2 = 45 | _ \<Rightarrow> False)"

definition unset_date :: "jsstr \<Rightarrow> bool" where
  "unset_date s \<longleftrightarrow> s = js ''0001-01-01'' \<or> starts_with s (js ''0001-01-01T'')"

text \<open>The provider's calendar date, whatever its offset.\<close>

definition parseBestInvestDate :: "zod_env \<Rightarrow> jsval \<Rightarrow> jsstr option res" where
  "parseBestInvestDate env v =
     (if blank v then Inr None
      else bindE (clal_text v) (\<lambda>input.
        let dayFirst = day_first input; candidate = default dayFirst (take 10 input) in
        if unset_date input then Inr None
        else if ze_date env candidate \<and> (dayFirst \<noteq> None \<or> input = candidate \<or> dashed_date (take 10 input) \<and> time_suffix (drop 10 input))
        then Inr (Some candidate) else invalid))"

definition best_nonnegative :: "jsval \<Rightarrow> jsstr res" where
  "best_nonnegative v = bindE (parseBestInvestMoney v) (\<lambda>amount. if starts_with amount (js ''-'') then invalid else Inr amount)"

definition from_cents :: "int \<Rightarrow> jsstr" where
  "from_cents value =
     (let unsigned = pad_start 3 48 (nat_str (nat \<bar>value\<bar>)) in
      (if value < 0 then js ''-'' else []) @ take (length unsigned - 2) unsigned @ js ''.'' @ drop (length unsigned - 2) unsigned)"

section \<open>One policy\<close>

text \<open>The snapshot, the product that is being read and the codes reported so far.\<close>

type_synonym best_state = "inv_snapshot \<times> inv_product \<times> incomplete_reason list"

definition incomplete :: "incomplete_reason \<Rightarrow> best_state \<Rightarrow> best_state" where
  "incomplete reason = (\<lambda>(s, p, rs). (s\<lparr>sn_complete := False\<rparr>, p, rs @ [reason]))"

definition policyProduct :: "fields \<Rightarrow> inv_product res" where
  "policyProduct details = bindE (identity (field details ''PolicyId'')) (\<lambda>providerProductId.
     bindE (investmentProductId providerProductId BestInvest) (\<lambda>i.
     bindE (clal_text (field details ''ProductName'')) (\<lambda>name. Inr
       \<lparr>ip_id = i, ip_provider = BestInvest, ip_providerProductId = providerProductId, ip_kind = PlainInvestment, ip_name = name,
        ip_currency = js ''ILS'', ip_currentValuationId = None, ip_liquidity = LiquidityUnknown, ip_availableFrom = None, ip_availableAmount = None,
        ip_valuations = CoverNone, ip_activities = CoverNone, ip_tracks = CoverNone, ip_executions = None, ip_forecast = None, ip_reports = Some []\<rparr>)))"

definition house_and_route :: "jsstr \<Rightarrow> jsstr \<Rightarrow> fields \<Rightarrow> bool res" where
  "house_and_route house route candidate = bindE (clal_text (field candidate ''BeitHashkaotName'')) (\<lambda>h.
     if h \<noteq> house then Inr False else bindE (clal_text (field candidate ''Maslul'')) (\<lambda>r. Inr (r = route)))"

definition matching :: "jsstr \<Rightarrow> jsstr \<Rightarrow> fields list \<Rightarrow> fields list res" where
  "matching house route allocations = bindE (mapE (house_and_route house route) allocations) (\<lambda>bs.
     Inr (map fst (filter snd (zip allocations bs))))"

definition NAME_SEPARATOR :: jsstr where
  "NAME_SEPARATOR = [32, 8212, 32]"

definition best_track :: "inv_snapshot \<Rightarrow> inv_product \<Rightarrow> jsstr option \<Rightarrow> jsstr \<Rightarrow> jsstr \<Rightarrow> jsstr \<Rightarrow> fields \<Rightarrow> inv_track res" where
  "best_track s p asOf house route amount match =
     bindE (mapE (\<lambda>k. bindE (identity (field match k)) encodeURIComponent) [''BeitHashkaotId'', ''MaslulId'']) (\<lambda>codes.
     bindE (investmentTrackId (ip_id p) (join_with (js '':'') codes)) (\<lambda>i.
       Inr (track_row s p i (house @ NAME_SEPARATOR @ route) (Some amount) asOf)))"

text \<open>
  The rows of the accumulation table: the routes with a value and the sum of all rows, or the reason why they cannot
  be used.
\<close>

fun best_rows :: "inv_snapshot \<Rightarrow> inv_product \<Rightarrow> jsstr option \<Rightarrow> fields list \<Rightarrow> jsval list \<Rightarrow> inv_track list \<times> int \<Rightarrow>
    (incomplete_reason + inv_track list \<times> int) res" where
  "best_rows s p asOf allocations [] (tracks, added) = Inr (Inr (tracks, added))"
| "best_rows s p asOf allocations (raw # rows) (tracks, added) =
     bindE (clalRecord raw) (\<lambda>row.
       if blank (field row ''TotalTzvira'') then Inr (Inl TrackAmountMissing)
       else bindE (best_nonnegative (field row ''TotalTzvira'')) (\<lambda>amount.
         if amount = js ''0.00'' then best_rows s p asOf allocations rows (tracks, added + cents amount)
         else
         bindE (clal_text (field row ''BeitHashkaot'')) (\<lambda>house.
         bindE (clal_text (field row ''Maslul'')) (\<lambda>route.
         bindE (matching house route allocations) (\<lambda>matches.
           case matches of
             [match] \<Rightarrow>
               if blank (field match ''BeitHashkaotId'') \<or> blank (field match ''MaslulId'') then Inr (Inl TrackIdMissing)
               else bindE (best_track s p asOf house route amount match) (\<lambda>t.
                 best_rows s p asOf allocations rows (tracks @ [t], added + cents amount))
           | [] \<Rightarrow> Inr (Inl TrackMappingMissing)
           | _ \<Rightarrow> Inr (Inl TrackMappingAmbiguous))))))"

definition reconcile_tracks :: "jsstr \<Rightarrow> fields \<Rightarrow> inv_track list \<Rightarrow> int \<Rightarrow> best_state \<Rightarrow> best_state res" where
  "reconcile_tracks balance accumulation tracks added st =
     (if \<not> distinct (map it_id tracks) then invalid
      else if added \<noteq> cents balance then Inr (incomplete TrackSumMismatch st)
      else bindE (best_nonnegative (field accumulation ''TotalTzviraMaslulim'')) (\<lambda>reported.
        if reported \<noteq> balance then Inr (incomplete TrackTotalMismatch st)
        else case st of (s, p, rs) \<Rightarrow> Inr (s\<lparr>id_tracks := id_tracks s @ tracks\<rparr>, p\<lparr>ip_tracks := CoverComplete\<rparr>, rs)))"

definition array_of :: "jsval \<Rightarrow> jsval list option" where
  "array_of v = (case v of JArr vs \<Rightarrow> Some vs | _ \<Rightarrow> None)"

definition use_rows :: "jsstr option \<Rightarrow> jsstr \<Rightarrow> fields \<Rightarrow> jsval list \<Rightarrow> jsval list \<Rightarrow> best_state \<Rightarrow> best_state res" where
  "use_rows asOf balance accumulation rows raws st =
     bindE (mapE clalRecord raws) (\<lambda>allocations.
     bindE (best_rows (fst st) (fst (snd st)) asOf allocations rows ([], 0)) (\<lambda>r.
       case r of
         Inl reason \<Rightarrow> Inr (incomplete reason st)
       | Inr (tracks, added) \<Rightarrow> reconcile_tracks balance accumulation tracks added st))"

definition use_tables :: "jsstr option \<Rightarrow> jsstr \<Rightarrow> fields \<Rightarrow> fields \<Rightarrow> best_state \<Rightarrow> best_state res" where
  "use_tables asOf balance accumulation investment st =
     (case (array_of (field accumulation ''Pidyon''), array_of (field investment ''Investments'')) of
        (None, _) \<Rightarrow> Inr (incomplete TrackRowsInvalid st)
      | (Some _, None) \<Rightarrow> Inr (incomplete TrackAllocationRowsInvalid st)
      | (Some rows, Some raws) \<Rightarrow>
          if blank (field accumulation ''TotalTzviraMaslulim'') then Inr (incomplete TrackTotalMissing st)
          else use_rows asOf balance accumulation rows raws st)"

definition addTracks :: "fields \<Rightarrow> jsstr option \<Rightarrow> jsstr \<Rightarrow> best_state \<Rightarrow> best_state res" where
  "addTracks details asOf balance st =
     (if blank (field details ''PidyonTzvira'') then Inr (incomplete TrackAccumulationMissing st)
      else if blank (field details ''InvestmentPolicy'') then Inr (incomplete TrackAllocationMissing st)
      else
      bindE (clalRecord (field details ''PidyonTzvira'')) (\<lambda>accumulation.
      bindE (clalRecord (field details ''InvestmentPolicy'')) (\<lambda>investment.
        use_tables asOf balance accumulation investment st)))"

text \<open>The sum of the deposits, unless an amount is missing.\<close>

fun deposit_sum :: "jsval list \<Rightarrow> int \<Rightarrow> int option res" where
  "deposit_sum [] added = Inr (Some added)"
| "deposit_sum (raw # rows) added = bindE (clalRecord raw) (\<lambda>row.
     if blank (field row ''Amount'') then Inr None
     else bindE (parseBestInvestMoney (field row ''Amount'')) (\<lambda>amount. deposit_sum rows (added + cents amount)))"

definition DEPOSITS_TITLE :: jsstr where
  "DEPOSITS_TITLE = [1492, 1508, 1511, 1491, 1493, 1514, 32, 1513, 1491, 1493, 1493, 1495, 1493, 32, 1500, 1513, 1504, 1514, 32]"

definition DEPOSITS_LABEL :: jsstr where
  "DEPOSITS_LABEL = [1505, 1498, 32, 1492, 1508, 1511, 1491, 1493, 1514, 32, 1513, 1491, 1493, 1493, 1495, 1493]"

definition deposit_report :: "inv_product \<Rightarrow> rat \<Rightarrow> int \<Rightarrow> report_summary" where
  "deposit_report p year added =
     \<lparr>rp_id = ip_id p @ js '':deposits:'' @ num_to_string year, rp_title = DEPOSITS_TITLE @ num_to_string year,
      rp_fromDate = None, rp_toDate = None, rp_lines = [\<lparr>rl_label = DEPOSITS_LABEL, rl_amount = from_cents added\<rparr>]\<rparr>"

definition captured_year :: "jsval \<Rightarrow> rat res" where
  "captured_year v = (case v of JNum n \<Rightarrow> if is_safe_integer n \<and> 1900 \<le> n \<and> n \<le> 9999 then Inr n else invalid | _ \<Rightarrow> invalid)"

definition deposit_result :: "rat \<Rightarrow> fields \<Rightarrow> best_state \<Rightarrow> int option \<Rightarrow> best_state res" where
  "deposit_result year data st added =
     (case added of
        None \<Rightarrow> Inr (incomplete DepositAmountMissing st)
      | Some whole \<Rightarrow>
          bindE (parseBestInvestMoney (field data ''TotalAmount'')) (\<lambda>reported.
            if from_cents whole \<noteq> reported then Inr (incomplete DepositsSumMismatch st)
            else case st of (s, p, rs) \<Rightarrow> Inr (s, p\<lparr>ip_reports := Some [deposit_report p year whole]\<rparr>, rs)))"

definition deposit_table :: "rat \<Rightarrow> fields \<Rightarrow> best_state \<Rightarrow> best_state res" where
  "deposit_table year data st =
     (case array_of (field data ''Deposits'') of
        None \<Rightarrow> Inr (incomplete DepositRowsInvalid st)
      | Some rows \<Rightarrow>
          if blank (field data ''TotalAmount'') then Inr (incomplete DepositsTotalMissing st)
          else bindE (deposit_sum rows 0) (deposit_result year data st))"

definition addDepositSummary :: "captured_policy \<Rightarrow> best_state \<Rightarrow> best_state res" where
  "addDepositSummary capture st =
     (if cp_deposits capture = JUndef then Inr st
      else bindE (captured_year (cp_depositsYear capture)) (\<lambda>year.
        if cp_deposits capture = JNull then Inr (incomplete DepositsMissing st)
        else bindE (clalRecord (cp_deposits capture)) (\<lambda>data. deposit_table year data st)))"

section \<open>The snapshot\<close>

text \<open>A policy whose value is missing stays in the snapshot without one.\<close>

definition best_value :: "zod_env \<Rightarrow> captured_policy \<Rightarrow> fields \<Rightarrow> best_state \<Rightarrow> best_state res" where
  "best_value env capture details = (\<lambda>(s, p, rs).
     if blank (field details ''TotalSavings'') then Inr (incomplete ValuationAmountMissing (s, p, rs))
     else
     bindE (best_nonnegative (field details ''TotalSavings'')) (\<lambda>amount.
     bindE (if blank (field details ''PidyonTzvira'') then Inr JUndef
            else bindE (clalRecord (field details ''PidyonTzvira'')) (\<lambda>accumulation. Inr (field accumulation ''AppraislDate''))) (\<lambda>rawDate.
     bindE (parseBestInvestDate env (if rawDate = JStr (js ''0001-01-01T00:00:00'') then field details ''UpdatedToDate'' else rawDate)) (\<lambda>asOf.
     bindE (investmentValuationId (ip_id p) asOf) (\<lambda>i.
     bindE (addTracks details asOf amount
       (s\<lparr>id_valuations := id_valuations s @ [\<lparr>iv_id = i, iv_productId = ip_id p, iv_asOf = asOf, iv_observedAt = sn_observedAt s,
          iv_amount = amount, iv_currency = js ''ILS'', iv_provenance = None\<rparr>]\<rparr>,
        p\<lparr>ip_currentValuationId := Some i, ip_valuations := CoverPartial\<rparr>, rs)) (\<lambda>st.
       addDepositSummary capture st))))))"

definition same_policy :: "captured_policy \<Rightarrow> inv_product \<Rightarrow> bool res" where
  "same_policy capture p = (case cp_expectedPolicyId capture of None \<Rightarrow> Inr True
     | Some e \<Rightarrow> bindE (identity (JStr e)) (\<lambda>i. Inr (i = ip_providerProductId p)))"

definition best_policy :: "zod_env \<Rightarrow> captured_policy \<Rightarrow> inv_snapshot \<times> incomplete_reason list \<Rightarrow> (inv_snapshot \<times> incomplete_reason list) res" where
  "best_policy env capture = (\<lambda>(s, rs).
     let skip = (\<lambda>reason. Inr (s\<lparr>sn_complete := False\<rparr>, rs @ [reason])) in
     if blank (cp_details capture) then skip PolicyDetailsMissing
     else
     bindE (clalRecord (cp_details capture)) (\<lambda>details.
       if blank (field details ''PolicyId'') then skip PolicyIdMissing
       else if blank (field details ''ProductName'') then skip PolicyNameMissing
       else
       bindE (policyProduct details) (\<lambda>p.
       bindE (same_policy capture p) (\<lambda>same.
         if \<not> same \<or> list_ex (\<lambda>q. ip_id q = ip_id p) (id_products s) then invalid
         else bindE (best_value env capture details (s, p, rs)) (\<lambda>(s', p', rs').
           Inr (s'\<lparr>id_products := id_products s' @ [p']\<rparr>, rs'))))))"

definition best_initial :: "best_input \<Rightarrow> inv_snapshot \<times> incomplete_reason list" where
  "best_initial input =
     ((empty_snapshot (bi_observedAt input))\<lparr>sn_complete := bi_inventoryComplete input \<and> bi_policies input \<noteq> [], sn_inventoryComplete := bi_inventoryComplete input\<rparr>,
      (if bi_inventoryComplete input then [] else [InventoryIncomplete]) @ (if bi_policies input = [] then [PoliciesEmpty] else []))"

definition buildBestInvestSnapshot :: "zod_env \<Rightarrow> best_input \<Rightarrow> (inv_snapshot \<times> incomplete_reason list) res" where
  "buildBestInvestSnapshot env input =
     (if \<not> ze_datetime env (bi_observedAt input) then invalid
      else bindE (foldE (best_policy env) (bi_policies input) (best_initial input)) (\<lambda>(s, rs).
        bindE (validated env (s\<lparr>sn_inventoryComplete := bi_inventoryComplete input \<and> sn_complete s\<rparr>)) (\<lambda>t. Inr (t, rs))))"

end
