(* ===== verification/BestJson.thy ===== *)
theory BestJson
  imports JsonParse BestParser
begin

text \<open>
  \<^verbatim>\<open>parseBestInvestJson\<close> of \<^verbatim>\<open>src/investments/best-invest/parser.ts\<close>: every number outside a string literal is put in quotes
  before \<^verbatim>\<open>JSON.parse\<close> sees the text, so amounts and identifiers arrive as the texts the portal wrote.
\<close>

section \<open>Definitions\<close>

text \<open>The loop over the characters, with \<^verbatim>\<open>quoted\<close> and \<^verbatim>\<open>escaped\<close>. \<open>None\<close>: a sign without a number.\<close>

function quote_numbers :: "bool \<Rightarrow> bool \<Rightarrow> jsstr \<Rightarrow> jsstr option" where
  "quote_numbers quoted escaped [] = Some []"
| "quote_numbers quoted escaped (c # s) =
     (if quoted then
        map_option (Cons c) (if escaped then quote_numbers True False s
          else if c = 92 then quote_numbers True True s
          else if c = 34 then quote_numbers False False s
          else quote_numbers True False s)
      else if c = 34 then map_option (Cons c) (quote_numbers True False s)
      else if c = 45 \<or> is_digit c then
        (case number_lexeme (c # s) of
           None \<Rightarrow> None
         | Some (l, r) \<Rightarrow> map_option (append (json_string l)) (quote_numbers False False r))
      else map_option (Cons c) (quote_numbers False False s))"
  by pat_completeness auto
termination by (relation "measure (\<lambda>(_, _, s). length s)") (auto dest: shrinks_dest [OF lexeme_shrinks])

definition parseBestInvestJson :: "jsstr \<Rightarrow> jsval res" where
  "parseBestInvestJson input =
     (case quote_numbers False False input of
        None \<Rightarrow> invalid
      | Some result \<Rightarrow> (case json_parse result of None \<Rightarrow> invalid | Some v \<Rightarrow> Inr v))"

declare quote_numbers.simps(2) [simp del]

section \<open>Pieces of a text\<close>

text \<open>The head of a text becomes \<open>p\<close>, whatever becomes of the rest.\<close>

definition quotes :: "jsstr \<Rightarrow> jsstr \<Rightarrow> jsstr \<Rightarrow> bool" where
  "quotes s p r \<longleftrightarrow> (\<forall>w. quote_numbers False False r = Some w \<longrightarrow> quote_numbers False False s = Some (p @ w))"

lemma quotes_trans: "quotes s p t \<Longrightarrow> quotes t q r \<Longrightarrow> quotes s (p @ q) r"
  by (simp add: quotes_def)

lemma quotes_char: "c \<noteq> 34 \<Longrightarrow> c \<noteq> 45 \<Longrightarrow> \<not> is_digit c \<Longrightarrow> quotes (c # t) [c] t"
  by (simp add: quotes_def quote_numbers.simps(2))

lemma space_plain: "json_space c \<Longrightarrow> c \<noteq> 34 \<and> c \<noteq> 45 \<and> \<not> is_digit c"
  by (auto simp: json_space_def is_digit_def)

lemma quotes_skip: "quotes s (takeWhile json_space s) (skip s)"
proof (induction s)
  case (Cons c s)
  show ?case
  proof (cases "json_space c")
    case True
    from quotes_trans [OF quotes_char Cons] space_plain [OF True] True show ?thesis by (simp add: skip_def)
  qed (simp add: skip_def quotes_def)
qed (simp add: skip_def quotes_def)

lemma skip_skip [simp]: "skip (skip s) = skip s"
  by (simp add: skip_def dropWhile_idem')

lemma skip_spaces [simp]: "skip (takeWhile json_space s @ t) = skip t"
  by (simp add: skip_def)
    (metis (no_types, lifting) dropWhile_append2 set_takeWhileD)

lemma skip_char [simp]: "\<not> json_space c \<Longrightarrow> skip (c # t) = c # t"
  by (simp add: skip_def)

lemma skip_head: "skip s = c # t \<Longrightarrow> \<not> json_space c"
  by (metis skip_def hd_dropWhile list.sel(1) list.distinct(1))

text \<open>A string literal passes unchanged.\<close>

lemma quoted_step:
  "c \<noteq> 34 \<Longrightarrow> c \<noteq> 92 \<Longrightarrow> quote_numbers True False (c # s) = map_option (Cons c) (quote_numbers True False s)"
  "quote_numbers True False (34 # s) = map_option (Cons 34) (quote_numbers False False s)"
  "quote_numbers True False (92 # e # s) = map_option (\<lambda>w. 92 # e # w) (quote_numbers True False s)"
  by (simp_all add: quote_numbers.simps(2) option.map_comp comp_def)

lemma hex_digit: "hex_value c = Some v \<Longrightarrow> c \<noteq> 34 \<and> c \<noteq> 92"
  by (auto simp: hex_value_def is_digit_def split: if_splits)

lemma hex_four: "hex_unit t = Some u \<Longrightarrow> length t = 4 \<and> 34 \<notin> set t \<and> 92 \<notin> set t"
  by (cases t rule: hex_unit.cases) (auto split: option.splits dest: hex_digit)

lemma quoted_plain: "34 \<notin> set p \<Longrightarrow> 92 \<notin> set p \<Longrightarrow> quote_numbers True False (p @ s) = map_option (append p) (quote_numbers True False s)"
proof (induction p)
  case Nil
  then show ?case by (cases "quote_numbers True False s") simp_all
next
  case (Cons c p)
  then show ?case by (simp add: quoted_step option.map_comp comp_def)
qed

lemma quoted_chars:
  "json_chars s = Some (k, r) \<Longrightarrow>
   \<exists>p. (\<forall>w. json_chars (p @ w) = Some (k, w)) \<and> (\<forall>w. quote_numbers False False r = Some w \<longrightarrow> quote_numbers True False s = Some (p @ w))"
proof (induction s arbitrary: k rule: json_chars.induct)
  case (2 c s)
  consider "c = 34" | e t where "c = 92" "s = e # t" | "c \<noteq> 34" "c \<noteq> 92" "\<not> c < 32"
    using "2.prems" by (cases "c = 34"; cases "c = 92"; cases s) (auto split: if_splits)
  then show ?case
  proof cases
    case 1
    with "2.prems" have "k = []" "r = s" by auto
    then show ?thesis
      using 1 by (intro exI [of _ "[34]"]) (simp add: quoted_step)
  next
    case (2 e t)
    show ?thesis
    proof (cases "e = 117")
      case True
      with "2.prems" 2 obtain u k' where u: "hex_unit (take 4 t) = Some u" "json_chars (drop 4 t) = Some (k', r)" "k = u # k'"
        by (auto simp: push_def split: option.splits)
      obtain p where p: "\<And>w. json_chars (p @ w) = Some (k', w)"
          "\<And>w. quote_numbers False False r = Some w \<Longrightarrow> quote_numbers True False (drop 4 t) = Some (p @ w)"
        using "2.IH"(1) [OF _ 2(1) 2(2) True u(1,2)] 2(1) by auto
      have h: "length (take 4 t) = 4" "34 \<notin> set (take 4 t)" "92 \<notin> set (take 4 t)"
        using hex_four [OF u(1)] by simp_all
      have "quote_numbers True False t = Some (take 4 t @ p @ w)" if "quote_numbers False False r = Some w" for w
        using quoted_plain [OF h(2,3), of "drop 4 t"] p(2) [OF that] by simp
      moreover have "json_chars (92 # e # take 4 t @ p @ w) = Some (k, w)" for w
        using True u p(1) h(1) by (simp add: push_def min_def split: if_splits)
      ultimately show ?thesis
        using 2 by (intro exI [of _ "92 # e # take 4 t @ p"]) (simp add: quoted_step)
    next
      case False
      with "2.prems" 2 obtain u k' where u: "escape_value e = Some u" "json_chars t = Some (k', r)" "k = u # k'"
        by (auto simp: push_def split: option.splits)
      obtain p where "\<And>w. json_chars (p @ w) = Some (k', w)"
          "\<And>w. quote_numbers False False r = Some w \<Longrightarrow> quote_numbers True False t = Some (p @ w)"
        using "2.IH"(2) [OF _ 2(1) 2(2) False u(1,2)] 2(1) by auto
      then show ?thesis
        using 2 False u by (intro exI [of _ "92 # e # p"]) (simp add: quoted_step push_def)
    qed
  next
    case 3
    with "2.prems" obtain k' where k: "json_chars s = Some (k', r)" "k = c # k'"
      by (auto simp: push_def)
    obtain p where "\<And>w. json_chars (p @ w) = Some (k', w)"
        "\<And>w. quote_numbers False False r = Some w \<Longrightarrow> quote_numbers True False s = Some (p @ w)"
      using "2.IH"(3) [OF _ _ _ k(1)] 3 by auto
    then show ?thesis
      using 3 k by (intro exI [of _ "c # p"]) (simp add: quoted_step push_def)
  qed
qed simp

text \<open>A number becomes the string literal of its own characters.\<close>

definition number_char :: "nat \<Rightarrow> bool" where
  "number_char c \<longleftrightarrow> is_digit c \<or> c = 43 \<or> c = 45 \<or> c = 46 \<or> c = 69 \<or> c = 101"

lemma digits_number_chars: "list_all number_char (takeWhile is_digit s)"
  by (auto simp: list_all_iff number_char_def dest: set_takeWhileD)

lemma fraction_chars: "fraction_part s = (a, r) \<Longrightarrow> list_all number_char a"
  using digits_number_chars by (auto simp: fraction_part_def Let_def number_char_def split: list.splits if_splits)

lemma exponent_chars: "exponent_part s = (a, r) \<Longrightarrow> list_all number_char a"
  using digits_number_chars
  by (auto simp: exponent_part_def exponent_sign_def Let_def number_char_def split: list.splits if_splits)

lemma integer_chars: "integer_part s = Some (a, r) \<Longrightarrow> list_all number_char a"
  using digits_number_chars by (auto simp: integer_part_def number_char_def is_digit_def split: list.splits if_splits)

lemma lexeme_chars: "number_lexeme s = Some (l, r) \<Longrightarrow> list_all number_char l"
  by (auto simp: number_lexeme_def sign_part_def Let_def number_char_def [of 45] split: option.splits prod.splits list.splits if_splits
      dest!: integer_chars fraction_chars exponent_chars)

lemma number_char_plain: "number_char c \<Longrightarrow> 32 \<le> c \<and> c < 128 \<and> c \<noteq> 34 \<and> c \<noteq> 92"
  by (auto simp: number_char_def is_digit_def)

lemma plain_units: "list_all number_char l \<Longrightarrow> json_units l = l"
proof (induction l rule: json_units.induct)
  case (2 c)
  then show ?case using number_char_plain [of c] by (simp add: is_surrogate_def is_high_def is_low_def json_escape_def)
next
  case (3 c d s)
  then have "number_char c" "number_char d" by simp_all
  with 3 show ?case using number_char_plain [of c] number_char_plain [of d]
    by (simp add: is_surrogate_def is_high_def is_low_def json_escape_def)
qed simp

lemma plain_chars: "list_all number_char l \<Longrightarrow> json_chars (l @ 34 # w) = Some (l, w)"
proof (induction l)
  case (Cons c l)
  then show ?case using number_char_plain [of c] by (simp add: push_def)
qed simp

lemma quotes_number:
  assumes "number_lexeme (c # t) = Some (l, r)" "c = 45 \<or> is_digit c"
  shows "quotes (c # t) (json_string l) r"
  using assms plain_units [OF lexeme_chars [OF assms(1)]] by (auto simp: quotes_def quote_numbers.simps(2) is_digit_def json_string_def)

section \<open>Values\<close>

text \<open>What a reader of the original text takes off its head, and the same reader on the quoted one.\<close>

definition carried :: "(jsstr \<Rightarrow> ('a \<times> jsstr) option) \<Rightarrow> (jsstr \<Rightarrow> ('b \<times> jsstr) option) \<Rightarrow> (jsstr \<Rightarrow> ('b \<times> jsstr) option) \<Rightarrow> jsstr \<Rightarrow> bool" where
  "carried original literal quoted s \<longleftrightarrow>
     (\<forall>v r. original s = Some (v, r) \<longrightarrow> (\<exists>p x. literal s = Some (x, r) \<and> quotes s p r \<and> (\<forall>w. quoted (p @ w) = Some (x, w))))"

lemma carriedI:
  assumes "\<And>v r. original s = Some (v, r) \<Longrightarrow> \<exists>p x. literal s = Some (x, r) \<and> quotes s p r \<and> (\<forall>w. quoted (p @ w) = Some (x, w))"
  shows "carried original literal quoted s"
  using assms by (simp add: carried_def)

lemma carriedE:
  assumes "carried original literal quoted s" "original s = Some (v, r)"
  obtains p x where "literal s = Some (x, r)" "quotes s p r" "\<And>w. quoted (p @ w) = Some (x, w)"
  using assms by (auto simp: carried_def)

definition KEYWORDS :: "(jsstr \<times> jsval) list" where
  "KEYWORDS = [(js ''true'', JBool True), (js ''false'', JBool False), (js ''null'', JNull)]"

lemma starts_split: "starts_with s p \<Longrightarrow> s = p @ drop (length p) s"
  unfolding starts_with_def by (metis append_take_drop_id)

lemma keyword_split:
  assumes "json_keyword s = Some (v, r)"
  shows "\<exists>p. (p, v) \<in> set KEYWORDS \<and> s = p @ r"
proof -
  have q: "(starts_with s (js ''true'') \<and> v = JBool True \<and> r = drop 4 s) \<or>
      (starts_with s (js ''false'') \<and> v = JBool False \<and> r = drop 5 s) \<or>
      (starts_with s (js ''null'') \<and> v = JNull \<and> r = drop 4 s)"
    using assms unfolding json_keyword_def by (simp split: if_splits)
  have n: "length (js ''true'') = 4" "length (js ''false'') = 5" "length (js ''null'') = 4"
    by simp_all
  note d = starts_split [of s "js ''true''", unfolded n(1)] starts_split [of s "js ''false''", unfolded n(2)]
    starts_split [of s "js ''null''", unfolded n(3)]
  from q d show ?thesis
    unfolding KEYWORDS_def set_simps by blast
qed

lemma keyword_read: "(p, v) \<in> set KEYWORDS \<Longrightarrow> json_keyword (p @ w) = Some (v, w)"
  by (auto simp: KEYWORDS_def json_keyword_def starts_with_def)

lemma keyword_lower: "(p, v) \<in> set KEYWORDS \<Longrightarrow> p \<noteq> [] \<and> list_all (\<lambda>c. 97 \<le> c \<and> c < 122) p"
  by (auto simp: KEYWORDS_def)

lemma quotes_lower: "list_all (\<lambda>c. 97 \<le> c \<and> c < 122) p \<Longrightarrow> quotes (p @ r) p r"
proof (induction p)
  case (Cons c p)
  then have "quotes (c # p @ r) ([c] @ p) r"
    by (intro quotes_trans [OF quotes_char]) (auto simp: is_digit_def)
  then show ?case by simp
qed (simp add: quotes_def)

text \<open>The readers skip white space first.\<close>

lemma reads_skip:
  assumes "skip a = skip b"
  shows "json_value num n a = json_value num n b" "json_members num n a = json_members num n b" "json_elements num n a = json_elements num n b"
proof -
  have v: "json_value num n a = json_value num n b" for n
    using assms by (cases n) (simp_all add: json_value.simps(2))
  show "json_value num n a = json_value num n b" by (rule v)
  show "json_members num n a = json_members num n b"
    using assms by (cases n) (simp_all add: json_members.simps(2))
  show "json_elements num n a = json_elements num n b"
    using v by (cases n) (simp_all add: json_elements.simps(2))
qed

lemma value_head: "json_value num n s \<noteq> None \<Longrightarrow> \<exists>c t. skip s = c # t \<and> c \<noteq> 93"
  by (cases n; cases "skip s") (auto simp: json_value.simps(2) json_keyword_def starts_with_def is_digit_def split: if_splits)

lemma elements_head: "json_elements num n s \<noteq> None \<Longrightarrow> \<exists>c t. skip s = c # t \<and> c \<noteq> 93"
proof -
  assume a: "json_elements num n s \<noteq> None"
  then obtain m where "n = Suc m" by (cases n) auto
  with a have "json_value num m s \<noteq> None"
    by (cases "json_value num m s") (auto simp: json_elements.simps(2))
  then show ?thesis by (rule value_head)
qed

lemma members_head: "json_members num n s \<noteq> None \<Longrightarrow> \<exists>t. skip s = 34 # t"
  by (cases n) (auto simp: json_members.simps(2) split: option.splits list.splits if_splits)

lemma array_value:
  assumes "skip s = 91 # t" "json_elements num n t = Some (vs, r)"
  shows "json_value num (Suc n) s = Some (JArr vs, r)"
proof -
  obtain d u where "skip t = d # u" "d \<noteq> 93"
    using elements_head assms(2) by fastforce
  with assms reads_skip(3) [of t "d # u"] show ?thesis
    by (simp add: json_value.simps(2) skip_head)
qed

lemma object_value:
  assumes "skip s = 123 # t" "json_members num n t = Some (ps, r)"
  shows "json_value num (Suc n) s = Some (JObj (object_entries ps), r)"
proof -
  obtain u where "skip t = 34 # u"
    using members_head assms(2) by fastforce
  with assms reads_skip(2) [of t "34 # u"] show ?thesis
    by (simp add: json_value.simps(2) json_space_def)
qed

lemma carried_skip:
  assumes "carried f g h (skip s)" and same: "\<And>a b. skip a = skip b \<Longrightarrow> f a = f b \<and> g a = g b \<and> h a = h b"
  shows "carried f g h s"
proof (rule carriedI)
  fix v r
  assume "f s = Some (v, r)"
  then have "f (skip s) = Some (v, r)"
    using same [of "skip s" s] by simp
  then obtain p x where p: "g (skip s) = Some (x, r)" "quotes (skip s) p r" "\<And>w. h (p @ w) = Some (x, w)"
    using carriedE [OF assms(1)] by metis
  have "g s = Some (x, r)"
    using p(1) same [of "skip s" s] by simp
  moreover have "quotes s (takeWhile json_space s @ p) r"
    by (rule quotes_trans [OF quotes_skip p(2)])
  moreover have "h ((takeWhile json_space s @ p) @ w) = Some (x, w)" for w
    using p(3) same [of "takeWhile json_space s @ p @ w" "p @ w"] by simp
  ultimately show "\<exists>p x. g s = Some (x, r) \<and> quotes s p r \<and> (\<forall>w. h (p @ w) = Some (x, w))"
    by blast
qed

text \<open>The empty array and the empty object.\<close>

lemma empty_carried:
  assumes "skip t = d # u" "d = 93 \<or> d = 125" "c = 91 \<or> c = 123"
  shows "quotes (c # t) (c # takeWhile json_space t @ [d]) u" "skip (takeWhile json_space t @ d # w) = d # w"
proof -
  have "quotes (d # u) [d] u" "quotes (c # t) [c] t"
    using assms(2,3) by (auto simp: is_digit_def intro!: quotes_char)
  with quotes_skip [of t] assms(1) have "quotes (c # t) ([c] @ takeWhile json_space t @ [d]) u"
    by (metis quotes_trans)
  then show "quotes (c # t) (c # takeWhile json_space t @ [d]) u" by simp
  show "skip (takeWhile json_space t @ d # w) = d # w"
    using assms(2) by (auto simp: json_space_def)
qed

lemma string_carried:
  assumes "json_chars t = Some (k, r)"
  obtains p where "quotes (34 # t) (34 # p) r" "\<And>w. json_chars (p @ w) = Some (k, w)"
proof -
  obtain p where p: "\<And>w. json_chars (p @ w) = Some (k, w)"
      "\<And>w. quote_numbers False False r = Some w \<Longrightarrow> quote_numbers True False t = Some (p @ w)"
    using quoted_chars [OF assms] by blast
  show thesis
    by (rule that [of p]) (simp_all add: p quotes_def quote_numbers.simps(2))
qed

abbreviation carried_values :: "(jsstr \<Rightarrow> jsval) \<Rightarrow> nat \<Rightarrow> jsstr \<Rightarrow> bool" where
  "carried_values num n \<equiv> carried (json_value num n) (json_value JStr n) (json_value num n)"

abbreviation carried_elements :: "(jsstr \<Rightarrow> jsval) \<Rightarrow> nat \<Rightarrow> jsstr \<Rightarrow> bool" where
  "carried_elements num n \<equiv> carried (json_elements num n) (json_elements JStr n) (json_elements num n)"

abbreviation carried_members :: "(jsstr \<Rightarrow> jsval) \<Rightarrow> nat \<Rightarrow> jsstr \<Rightarrow> bool" where
  "carried_members num n \<equiv> carried (json_members num n) (json_members JStr n) (json_members num n)"

lemma value_carried:
  assumes e: "\<And>s. carried_elements num n s" and m: "\<And>s. carried_members num n s" and c: "\<not> json_space c"
  shows "carried_values num (Suc n) (c # t)"
proof (rule carriedI)
  fix v r
  assume read: "json_value num (Suc n) (c # t) = Some (v, r)"
  let ?goal = "\<exists>p x. json_value JStr (Suc n) (c # t) = Some (x, r) \<and> quotes (c # t) p r \<and> (\<forall>w. json_value num (Suc n) (p @ w) = Some (x, w))"
  note step = json_value.simps(2)
  consider "c = 34" | u where "c = 91" "skip t = 93 # u" | vs where "c = 91" "v = JArr vs" "json_elements num n t = Some (vs, r)"
    | u where "c = 123" "skip t = 125 # u" | ps where "c = 123" "v = JObj (object_entries ps)" "json_members num n t = Some (ps, r)"
    | "c \<noteq> 34" "c \<noteq> 91" "c \<noteq> 123" "c = 45 \<or> is_digit c"
    | "c \<noteq> 34" "c \<noteq> 91" "c \<noteq> 123" "c \<noteq> 45" "\<not> is_digit c"
    using read c reads_skip(2,3) [of t "skip t" num n]
    by (auto simp: step split: list.splits if_splits)
  then show ?goal
  proof cases
    case 1
    with read obtain k where k: "json_chars t = Some (k, r)" "v = JStr k"
      by (auto simp: step json_space_def)
    from string_carried [OF k(1)] obtain p where "quotes (34 # t) (34 # p) r" "\<And>w. json_chars (p @ w) = Some (k, w)" by metis
    with 1 k show ?thesis
      by (intro exI [of _ "34 # p"] exI [of _ "JStr k"]) (simp add: step json_space_def)
  next
    case (2 u)
    with read have "v = JArr []" "r = u" by (auto simp: step json_space_def)
    with 2 empty_carried [of t 93 u 91] show ?thesis
      by (intro exI [of _ "91 # takeWhile json_space t @ [93]"] exI [of _ "JArr []"]) (simp add: step json_space_def)
  next
    case (3 vs)
    obtain p x where p: "json_elements JStr n t = Some (x, r)" "quotes t p r" "\<And>w. json_elements num n (p @ w) = Some (x, w)"
      using carriedE [OF e 3(3)] by metis
    have "quotes (91 # t) ([91] @ p) r"
      by (rule quotes_trans [OF quotes_char p(2)]) (auto simp: is_digit_def)
    moreover have "json_value JStr (Suc n) (91 # t) = Some (JArr x, r)" "json_value num (Suc n) (([91] @ p) @ w) = Some (JArr x, w)" for w
      using array_value [OF _ p(1)] array_value [OF _ p(3)] by (simp_all add: json_space_def)
    ultimately show ?thesis
      using 3(1) by blast
  next
    case (4 u)
    with read have "v = JObj []" "r = u" by (auto simp: step json_space_def)
    with 4 empty_carried [of t 125 u 123] show ?thesis
      by (intro exI [of _ "123 # takeWhile json_space t @ [125]"] exI [of _ "JObj []"]) (simp add: step json_space_def)
  next
    case (5 ps)
    obtain p x where p: "json_members JStr n t = Some (x, r)" "quotes t p r" "\<And>w. json_members num n (p @ w) = Some (x, w)"
      using carriedE [OF m 5(3)] by metis
    have "quotes (123 # t) ([123] @ p) r"
      by (rule quotes_trans [OF quotes_char p(2)]) (auto simp: is_digit_def)
    moreover have "json_value JStr (Suc n) (123 # t) = Some (JObj (object_entries x), r)" "json_value num (Suc n) (([123] @ p) @ w) = Some (JObj (object_entries x), w)" for w
      using object_value [OF _ p(1)] object_value [OF _ p(3)] by (simp_all add: json_space_def)
    ultimately show ?thesis
      using 5(1) by blast
  next
    case 6
    with read c obtain l where l: "number_lexeme (c # t) = Some (l, r)"
      by (auto simp: step split: if_splits)
    with 6 c have "json_value JStr (Suc n) (c # t) = Some (JStr l, r)"
      by (auto simp: step is_digit_def)
    moreover have "json_value num (Suc n) (json_string l @ w) = Some (JStr l, w)" for w
      using plain_units [OF lexeme_chars [OF l]] plain_chars [OF lexeme_chars [OF l]] by (simp add: step json_string_def json_space_def)
    ultimately show ?thesis
      using quotes_number [OF l 6(4)] by blast
  next
    case 7
    with read c have k: "json_keyword (c # t) = Some (v, r)" by (simp add: step)
    then obtain p where p: "(p, v) \<in> set KEYWORDS" "c # t = p @ r"
      using keyword_split by blast
    then obtain q where q: "p = c # q"
      using keyword_lower by (cases p) fastforce+
    have "json_value num (Suc n) (p @ w) = Some (v, w)" for w
      using keyword_read [OF p(1), of w] 7 c by (simp add: step q)
    moreover have "json_value JStr (Suc n) (c # t) = Some (v, r)"
      using 7 c k by (simp add: step)
    moreover have "quotes (c # t) p r"
      unfolding p(2) by (rule quotes_lower) (use keyword_lower [OF p(1)] in simp)
    ultimately show ?thesis by blast
  qed
qed

lemma elements_carried:
  assumes v: "\<And>s. carried_values num n s" and e: "\<And>s. carried_elements num n s"
  shows "carried_elements num (Suc n) s"
proof (rule carriedI)
  fix vs r
  assume read: "json_elements num (Suc n) s = Some (vs, r)"
  note step = json_elements.simps(2)
  obtain y r1 where y: "json_value num n s = Some (y, r1)"
    using read by (auto simp: step split: option.splits)
  obtain p1 x where p1: "json_value JStr n s = Some (x, r1)" "quotes s p1 r1" "\<And>w. json_value num n (p1 @ w) = Some (x, w)"
    using carriedE [OF v y] by metis
  define sp where "sp = takeWhile json_space r1"
  have sp: "quotes r1 sp (skip r1)" "skip (sp @ t) = skip t" for t
    by (simp_all add: sp_def quotes_skip)
  consider "skip r1 = 93 # r" "vs = [y]" | t ys where "skip r1 = 44 # t" "json_elements num n t = Some (ys, r)"
    using read y by (auto simp: step split: list.splits if_splits)
  then show "\<exists>p x. json_elements JStr (Suc n) s = Some (x, r) \<and> quotes s p r \<and> (\<forall>w. json_elements num (Suc n) (p @ w) = Some (x, w))"
  proof cases
    case 1
    have "quotes (93 # r) [93] r" by (rule quotes_char) (simp_all add: is_digit_def)
    with p1(2) sp(1) 1 have "quotes s (p1 @ sp @ [93]) r"
      by (metis quotes_trans)
    with 1 p1 sp(2) show ?thesis
      by (intro exI [of _ "p1 @ sp @ [93]"] exI [of _ "[x]"]) (simp add: step json_space_def)
  next
    case (2 t ys)
    obtain p2 xs where p2: "json_elements JStr n t = Some (xs, r)" "quotes t p2 r" "\<And>w. json_elements num n (p2 @ w) = Some (xs, w)"
      using carriedE [OF e 2(2)] by metis
    have "quotes (44 # t) [44] t" by (rule quotes_char) (simp_all add: is_digit_def)
    with p1(2) sp(1) 2 p2(2) have "quotes s (p1 @ sp @ [44] @ p2) r"
      by (metis quotes_trans)
    with 2 p1 p2 sp(2) show ?thesis
      by (intro exI [of _ "p1 @ sp @ [44] @ p2"] exI [of _ "x # xs"]) (simp add: step json_space_def)
  qed
qed

lemma members_carried:
  assumes v: "\<And>s. carried_values num n s" and m: "\<And>s. carried_members num n s"
  shows "carried_members num (Suc n) (34 # t)"
proof (rule carriedI)
  fix ps r
  assume read: "json_members num (Suc n) (34 # t) = Some (ps, r)"
  note step = json_members.simps(2)
  obtain k r1 where k: "json_chars t = Some (k, r1)"
    using read by (auto simp: step json_space_def split: option.splits)
  obtain u where u: "skip r1 = 58 # u"
    using read k by (auto simp: step json_space_def split: list.splits if_splits)
  obtain y r2 where y: "json_value num n u = Some (y, r2)"
    using read k u by (auto simp: step json_space_def split: option.splits)
  obtain p1 where p1: "quotes (34 # t) (34 # p1) r1" "\<And>w. json_chars (p1 @ w) = Some (k, w)"
    using string_carried [OF k] by metis
  obtain p2 x where p2: "json_value JStr n u = Some (x, r2)" "quotes u p2 r2" "\<And>w. json_value num n (p2 @ w) = Some (x, w)"
    using carriedE [OF v y] by metis
  define sp where "sp = takeWhile json_space r1"
  define sq where "sq = takeWhile json_space r2"
  have sp: "quotes r1 sp (skip r1)" "skip (sp @ t) = skip t" "quotes r2 sq (skip r2)" "skip (sq @ t) = skip t" for t
    by (simp_all add: sp_def sq_def quotes_skip)
  have char: "quotes (c # z) [c] z" if "c = 44 \<or> c = 58 \<or> c = 125" for c z
    using that by (auto intro!: quotes_char simp: is_digit_def)
  let ?head = "(34 # p1) @ sp @ [58] @ p2 @ sq"
  have head: "quotes (34 # t) ?head (skip r2)"
    using quotes_trans [OF p1(1) quotes_trans [OF sp(1) [unfolded u] quotes_trans [OF char quotes_trans [OF p2(2) sp(3)]]]] by simp
  consider "skip r2 = 125 # r" | z qs where "skip r2 = 44 # z" "json_members num n z = Some (qs, r)"
    using read k u y by (auto simp: step json_space_def split: list.splits if_splits)
  then show "\<exists>p x. json_members JStr (Suc n) (34 # t) = Some (x, r) \<and> quotes (34 # t) p r \<and> (\<forall>w. json_members num (Suc n) (p @ w) = Some (x, w))"
  proof cases
    case 1
    have "quotes (34 # t) (?head @ [125]) r"
      by (rule quotes_trans [OF head]) (simp add: 1 char)
    with 1 k u p1 p2 sp show ?thesis
      by (intro exI [of _ "?head @ [125]"] exI [of _ "[(k, x)]"]) (simp add: step json_space_def)
  next
    case (2 z qs)
    obtain p3 xs where p3: "json_members JStr n z = Some (xs, r)" "quotes z p3 r" "\<And>w. json_members num n (p3 @ w) = Some (xs, w)"
      using carriedE [OF m 2(2)] by metis
    have "quotes (34 # t) (?head @ [44] @ p3) r"
      by (rule quotes_trans [OF head], unfold 2, rule quotes_trans [OF char p3(2)]) simp
    with 2 k u p1 p2 p3 sp show ?thesis
      by (intro exI [of _ "?head @ [44] @ p3"] exI [of _ "(k, x) # xs"]) (simp add: step json_space_def)
  qed
qed

lemma all_carried: "carried_values num n s \<and> carried_elements num n s \<and> carried_members num n s"
proof (induction n arbitrary: s)
  case 0
  then show ?case by (simp add: carried_def)
next
  case (Suc n)
  have v: "carried_values num n s" and e: "carried_elements num n s" and m: "carried_members num n s" for s
    using Suc.IH by blast+
  have "carried_values num (Suc n) s"
  proof (rule carried_skip)
    show "carried_values num (Suc n) (skip s)"
    proof (cases "skip s")
      case Nil
      have "json_value num (Suc n) [] = None"
        by (simp add: json_value.simps(2) skip_def)
      then show ?thesis by (simp add: carried_def Nil)
    next
      case (Cons c t)
      then show ?thesis using value_carried [OF e m skip_head [OF Cons]] by simp
    qed
  qed (use reads_skip(1) in blast)
  moreover have "carried_members num (Suc n) s"
  proof (rule carried_skip)
    show "carried_members num (Suc n) (skip s)"
    proof (cases "json_members num (Suc n) (skip s)")
      case (Some p)
      then obtain t where "skip s = 34 # t"
        using members_head [of num "Suc n" "skip s"] by auto
      then show ?thesis
        using members_carried [OF v m, of t] by simp
    qed (simp add: carried_def)
  qed (use reads_skip(2) in blast)
  ultimately show ?case
    using elements_carried [OF v e] by blast
qed

section \<open>Numbers keep their literal\<close>

text \<open>
  C29: on every text \<^verbatim>\<open>JSON.parse\<close> accepts, \<^verbatim>\<open>parseBestInvestJson\<close> succeeds, and it returns what \<^verbatim>\<open>JSON.parse\<close>
  returns except that each number comes as the text of its literal, digit for digit.
\<close>

theorem numbers_keep_their_literal:
  assumes "json_parse t = Some v"
  shows "\<exists>x. json_parse_with JStr t = Some x \<and> parseBestInvestJson t = Inr x"
proof -
  obtain r where read: "json_value number_value (json_fuel t) t = Some (v, r)" "skip r = []"
    using assms by (auto simp: json_parse_def json_parse_with_def split: option.splits if_splits)
  obtain p x where p: "json_value JStr (json_fuel t) t = Some (x, r)" "quotes t p r"
      "\<And>w. json_value number_value (json_fuel t) (p @ w) = Some (x, w)"
    using carriedE [OF conjunct1 [OF all_carried] read(1)] by metis
  have "quote_numbers False False (skip r) = Some []"
    by (simp add: read(2))
  with quotes_skip [of r] have "quote_numbers False False r = Some r"
    using read(2) by (simp add: quotes_def skip_def)
  with p(2) have q: "quote_numbers False False t = Some (p @ r)"
    by (simp add: quotes_def)
  have "json_value number_value (max (json_fuel t) (json_fuel (p @ r))) (p @ r) = Some (x, r)"
    by (rule json_value_fuel [OF _ p(3)]) simp
  then have "json_value number_value (json_fuel (p @ r)) (p @ r) = Some (x, r)"
    using json_fuel_enough [of "p @ r" "max (json_fuel t) (json_fuel (p @ r))"] by simp
  with q p(1) read(2) show ?thesis
    by (simp add: json_parse_def json_parse_with_def parseBestInvestJson_def)
qed

text \<open>A policy whose number is above \<open>2 ^ 53\<close>, and an amount with a trailing zero.\<close>

definition example_text :: jsstr where
  "example_text = js ''{'' @ [34] @ js ''Id'' @ [34] @ js '': 9007199254740993, '' @ [34] @ js ''Sum'' @ [34] @ js '':[-12.30 , null]}''"

lemmas json_run = json_value.simps(2) json_elements.simps(2) json_members.simps(2) skip_def json_space_def push_def is_digit_def number_lexeme_def
  integer_part_def fraction_part_def exponent_part_def exponent_sign_def sign_part_def json_keyword_def starts_with_def
  object_entries_def enumeration_order_def index_key_def

lemma best_json_parsed:
  "json_parse_with num example_text =
     Some (JObj [(js ''Id'', num (js ''9007199254740993'')), (js ''Sum'', JArr [num (js ''-12.30''), JNull])])"
proof -
  have "json_value num (Suc (Suc (Suc (Suc (Suc (Suc (Suc 0))))))) example_text =
      Some (JObj [(js ''Id'', num (js ''9007199254740993'')), (js ''Sum'', JArr [num (js ''-12.30''), JNull])], [])"
    by (simp add: example_text_def json_run)
  then have "json_value num (json_fuel example_text) example_text =
      Some (JObj [(js ''Id'', num (js ''9007199254740993'')), (js ''Sum'', JArr [num (js ''-12.30''), JNull])], [])"
    by (rule json_value_fuel [rotated]) (simp add: json_fuel_def example_text_def)
  then show ?thesis by (simp add: json_parse_with_def skip_def)
qed

theorem numbers_keep_their_literal_witness:
  "parseBestInvestJson example_text =
     Inr (JObj [(js ''Id'', JStr (js ''9007199254740993'')), (js ''Sum'', JArr [JStr (js ''-12.30''), JNull])])"
  using numbers_keep_their_literal [OF best_json_parsed [of number_value, folded json_parse_def]] best_json_parsed [of JStr] by auto

end
