(* ===== verification/BestReconcile.thy ===== *)
theory BestReconcile
  imports BestParser InvReconcile
begin

text \<open>
  A complete snapshot of the Best Invest portal holds every captured policy, and each policy's routes add up to its value.
\<close>

section \<open>One policy\<close>

text \<open>Reading part of a policy adds routes of the product and codes; any code clears the flag.\<close>

definition took :: "best_state \<Rightarrow> best_state \<Rightarrow> inv_track list \<Rightarrow> incomplete_reason list \<Rightarrow> bool" where
  "took st st' ts us \<longleftrightarrow> (case (st, st') of ((s, p, rs), (s', p', rs')) \<Rightarrow>
     id_products s' = id_products s \<and> id_valuations s' = id_valuations s \<and> id_tracks s' = id_tracks s @ ts \<and> (\<forall>t\<in>set ts. it_productId t = ip_id p) \<and>
     rs' = rs @ us \<and> (sn_complete s' \<longleftrightarrow> sn_complete s \<and> us = []) \<and> ip_id p' = ip_id p \<and> ip_currentValuationId p' = ip_currentValuationId p)"

lemma took_incomplete: "took st (incomplete r st) [] [r]"
  by (cases st) (simp add: took_def incomplete_def)

lemma took_refl: "took st st [] []"
  by (cases st) (simp add: took_def)

lemma took_trans: "took a b ts us \<Longrightarrow> took b c ts' us' \<Longrightarrow> took a c (ts @ ts') (us @ us')"
  by (cases a; cases b; cases c) (auto simp: took_def)

lemma best_track_facts: "best_track s p asOf house route amount m = Inr t \<Longrightarrow> it_productId t = ip_id p \<and> it_amount t = Some amount"
  by (auto simp: best_track_def track_row_def)

lemma best_rows_sum:
  assumes "best_rows s p asOf allocations rows (ts, n) = Inr (Inr (ts', n'))"
  shows "\<exists>us. ts' = ts @ us \<and> (\<forall>t\<in>set us. it_productId t = ip_id p) \<and> n' = n + amounts us"
  using assms
proof (induction rows arbitrary: ts n)
  case (Cons raw rows)
  obtain row where row: "clalRecord raw = Inr row" "\<not> blank (field row ''TotalTzvira'')"
    using Cons.prems by (cases "clalRecord raw") (auto split: if_splits)
  obtain amount where amount: "best_nonnegative (field row ''TotalTzvira'') = Inr amount"
    using Cons.prems row by (cases "best_nonnegative (field row ''TotalTzvira'')") simp_all
  show ?case
  proof (cases "amount = js ''0.00''")
    case True
    then have "best_rows s p asOf allocations rows (ts, n + cents amount) = Inr (Inr (ts', n'))"
      using Cons.prems row amount by simp
    with Cons.IH True show ?thesis
      by fastforce
  next
    case False
    with Cons.prems row amount obtain house route matches where m: "matching house route allocations = Inr matches"
        "(case matches of
             [match] \<Rightarrow>
               if blank (field match ''BeitHashkaotId'') \<or> blank (field match ''MaslulId'') then Inr (Inl TrackIdMissing)
               else bindE (best_track s p asOf house route amount match) (\<lambda>t.
                 best_rows s p asOf allocations rows (ts @ [t], n + cents amount))
           | [] \<Rightarrow> Inr (Inl TrackMappingMissing)
           | _ \<Rightarrow> Inr (Inl TrackMappingAmbiguous)) = Inr (Inr (ts', n'))"
      by auto
    then obtain match t where t: "best_track s p asOf house route amount match = Inr t"
        "best_rows s p asOf allocations rows (ts @ [t], n + cents amount) = Inr (Inr (ts', n'))"
      by (auto split: list.splits if_splits)
    from Cons.IH [OF t(2)] obtain us where "ts' = (ts @ [t]) @ us" "\<forall>t\<in>set us. it_productId t = ip_id p" "n' = n + cents amount + amounts us"
      by blast
    with best_track_facts [OF t(1)] show ?thesis
      by (intro exI [of _ "t # us"]) (simp add: amounts_def)
  qed
qed simp

lemma reconcile_cases:
  assumes "reconcile_tracks balance accumulation ts n st = Inr st'" "\<forall>t\<in>set ts. it_productId t = ip_id (fst (snd st))" "n = amounts ts"
  shows "\<exists>ts us. took st st' ts us \<and> (us = [] \<longrightarrow> amounts ts = cents balance)"
proof -
  consider r where "st' = incomplete r st" | "n = cents balance" "st' = (case st of (s, p, rs) \<Rightarrow> (s\<lparr>id_tracks := id_tracks s @ ts\<rparr>, p\<lparr>ip_tracks := CoverComplete\<rparr>, rs))"
    using assms(1) by (cases st) (auto simp: reconcile_tracks_def split: if_splits)
  then show ?thesis
  proof cases
    case 1
    with took_incomplete [of st] show ?thesis
      by blast
  next
    case 2
    with assms(2,3) show ?thesis
      by (intro exI [of _ ts] exI [of _ "[]"]) (auto simp: took_def split: prod.splits)
  qed
qed

text \<open>A step that ends in a code, and the others.\<close>

definition took_some :: "best_state \<Rightarrow> best_state \<Rightarrow> int \<Rightarrow> bool" where
  "took_some st st' value \<longleftrightarrow> (\<exists>ts us. took st st' ts us \<and> (us = [] \<longrightarrow> amounts ts = value))"

lemma took_some_incomplete [simp]: "took_some st (incomplete r st) value"
  using took_incomplete by (fastforce simp: took_some_def)

lemma use_rows_took:
  assumes "use_rows asOf balance accumulation rows raws st = Inr st'"
  shows "took_some st st' (cents balance)"
proof -
  obtain allocations r where r: "best_rows (fst st) (fst (snd st)) asOf allocations rows ([], 0) = Inr r"
      "(case r of Inl reason \<Rightarrow> Inr (incomplete reason st) | Inr (tracks, added) \<Rightarrow> reconcile_tracks balance accumulation tracks added st) = Inr st'"
    using assms by (auto simp: use_rows_def)
  show ?thesis
  proof (cases r)
    case (Inl reason)
    with r(2) show ?thesis
      by auto
  next
    case (Inr tn)
    obtain ts n where tn: "tn = (ts, n)"
      by fastforce
    from best_rows_sum [OF r(1) [unfolded Inr tn]] have "\<forall>t\<in>set ts. it_productId t = ip_id (fst (snd st))" "n = amounts ts"
      by auto
    with reconcile_cases [of balance accumulation ts n st st'] r(2) Inr tn show ?thesis
      by (simp add: took_some_def)
  qed
qed

lemma use_tables_took: "use_tables asOf balance accumulation investment st = Inr st' \<Longrightarrow> took_some st st' (cents balance)"
  by (auto simp: use_tables_def use_rows_took split: option.splits if_splits)

lemma addTracks_took: "addTracks details asOf balance st = Inr st' \<Longrightarrow> took_some st st' (cents balance)"
  by (auto simp: addTracks_def use_tables_took split: if_splits)

definition took_none :: "best_state \<Rightarrow> best_state \<Rightarrow> bool" where
  "took_none st st' \<longleftrightarrow> (\<exists>us. took st st' [] us)"

lemma took_none_simps [simp]: "took_none st (incomplete r st)" "took_none st st"
  using took_incomplete [of st] took_refl [of st] by (auto simp: took_none_def simp del: split_paired_All)

lemma deposit_result_took: "deposit_result year data st added = Inr st' \<Longrightarrow> took_none st st'"
  by (cases st; cases added) (auto simp: deposit_result_def took_none_def took_def incomplete_def split: if_splits)

lemma deposit_table_took: "deposit_table year data st = Inr st' \<Longrightarrow> took_none st st'"
  by (auto simp: deposit_table_def deposit_result_took split: option.splits if_splits)

lemma addDepositSummary_took: "addDepositSummary capture st = Inr st' \<Longrightarrow> took_none st st'"
  by (auto simp: addDepositSummary_def deposit_table_took split: if_splits)

text \<open>A policy with a value: the value comes with it, and its routes add up unless a code was reported.\<close>

lemma best_value_reads:
  assumes "best_value env capture details (s, p, rs) = Inr (s', p', rs')"
  shows "\<exists>ts vs us. id_products s' = id_products s \<and> id_valuations s' = id_valuations s @ vs \<and> id_tracks s' = id_tracks s @ ts \<and>
     (\<forall>t\<in>set ts. it_productId t = ip_id p) \<and> rs' = rs @ us \<and> (sn_complete s' \<longleftrightarrow> sn_complete s \<and> us = []) \<and> ip_id p' = ip_id p \<and>
     (us = [] \<longrightarrow> (\<exists>v\<in>set vs. Some (iv_id v) = ip_currentValuationId p' \<and> amounts ts = cents (iv_amount v)))"
proof (cases "blank (field details ''TotalSavings'')")
  case True
  with assms show ?thesis
    by (intro exI [of _ "[]"] exI [of _ "[ValuationAmountMissing]"]) (auto simp: best_value_def incomplete_def)
next
  case False
  with assms obtain amount asOf i st where m: "addTracks details asOf amount
       (s\<lparr>id_valuations := id_valuations s @ [\<lparr>iv_id = i, iv_productId = ip_id p, iv_asOf = asOf, iv_observedAt = sn_observedAt s,
          iv_amount = amount, iv_currency = js ''ILS'', iv_provenance = None\<rparr>]\<rparr>,
        p\<lparr>ip_currentValuationId := Some i, ip_valuations := CoverPartial\<rparr>, rs) = Inr st" "addDepositSummary capture st = Inr (s', p', rs')"
    unfolding best_value_def prod.case if_not_P [OF False] bindE_eq_Inr by blast
  from addTracks_took [OF m(1)] obtain ts us where t: "took (s\<lparr>id_valuations := id_valuations s @ [\<lparr>iv_id = i, iv_productId = ip_id p, iv_asOf = asOf, iv_observedAt = sn_observedAt s,
          iv_amount = amount, iv_currency = js ''ILS'', iv_provenance = None\<rparr>]\<rparr>,
        p\<lparr>ip_currentValuationId := Some i, ip_valuations := CoverPartial\<rparr>, rs) st ts us" "us = [] \<longrightarrow> amounts ts = cents amount"
    by (auto simp: took_some_def)
  from addDepositSummary_took [OF m(2)] obtain us' where d: "took st (s', p', rs') [] us'"
    by (auto simp: took_none_def)
  have "took (s\<lparr>id_valuations := id_valuations s @ [\<lparr>iv_id = i, iv_productId = ip_id p, iv_asOf = asOf, iv_observedAt = sn_observedAt s,
          iv_amount = amount, iv_currency = js ''ILS'', iv_provenance = None\<rparr>]\<rparr>,
        p\<lparr>ip_currentValuationId := Some i, ip_valuations := CoverPartial\<rparr>, rs) (s', p', rs') ts (us @ us')"
    using took_trans [OF t(1) d] by simp
  with t(2) show ?thesis
    by (intro exI [of _ ts] exI [of _ "[\<lparr>iv_id = i, iv_productId = ip_id p, iv_asOf = asOf, iv_observedAt = sn_observedAt s,
          iv_amount = amount, iv_currency = js ''ILS'', iv_provenance = None\<rparr>]"] exI [of _ "us @ us'"]) (simp add: took_def)
qed

section \<open>All policies\<close>

definition best_read :: "nat \<Rightarrow> inv_snapshot \<times> incomplete_reason list \<Rightarrow> bool" where
  "best_read n = (\<lambda>(s, rs). (\<forall>t\<in>set (id_tracks s). it_productId t \<in> ip_id ` set (id_products s)) \<and>
     (\<forall>p\<in>set (id_products s). js_trim (ip_id p) = ip_id p) \<and> (sn_complete s \<longleftrightarrow> rs = []) \<and>
     (rs = [] \<longrightarrow> length (id_products s) = n \<and> (\<forall>p\<in>set (id_products s). reconciled s p)))"

lemma reconciled_extend:
  assumes "reconciled s q" "ip_id p \<noteq> ip_id q" "id_tracks s' = id_tracks s @ ts" "\<forall>t\<in>set ts. it_productId t = ip_id p" "id_valuations s' = id_valuations s @ vs"
  shows "reconciled s' q"
  using assms by (auto simp: reconciled_def track_cents_def filter_owned)

lemma reconciled_new:
  assumes "\<forall>t\<in>set (id_tracks s). it_productId t \<noteq> ip_id p" "id_tracks s' = id_tracks s @ ts" "\<forall>t\<in>set ts. it_productId t = ip_id p"
    "v \<in> set (id_valuations s')" "Some (iv_id v) = ip_currentValuationId p" "amounts ts = cents (iv_amount v)"
  shows "reconciled s' p"
proof -
  have "filter (\<lambda>t. it_productId t = ip_id p) (id_tracks s) = []"
    using assms(1) by (simp add: filter_empty_conv)
  with assms show ?thesis
    by (auto simp: reconciled_def track_cents_def filter_owned)
qed

lemma policyProduct_trimmed: "policyProduct details = Inr p \<Longrightarrow> js_trim (ip_id p) = ip_id p"
  by (auto simp: policyProduct_def product_id_trimmed)

lemma best_policy_cases:
  assumes "best_policy env capture (s, rs) = Inr (s', rs')"
  obtains reason where "s' = s\<lparr>sn_complete := False\<rparr>" "rs' = rs @ [reason]"
  | details p s1 p1 where "js_trim (ip_id p) = ip_id p" "ip_id p \<notin> ip_id ` set (id_products s)" "best_value env capture details (s, p, rs) = Inr (s1, p1, rs')"
      "s' = s1\<lparr>id_products := id_products s1 @ [p1]\<rparr>"
proof (cases "\<exists>reason. s' = s\<lparr>sn_complete := False\<rparr> \<and> rs' = rs @ [reason]")
  case False
  have given: "\<not> blank (cp_details capture)"
    using assms False by (auto simp: best_policy_def Let_def)
  with assms obtain details where details: "(if blank (field details ''PolicyId'') then Inr (s\<lparr>sn_complete := False\<rparr>, rs @ [PolicyIdMissing])
       else if blank (field details ''ProductName'') then Inr (s\<lparr>sn_complete := False\<rparr>, rs @ [PolicyNameMissing])
       else
       bindE (policyProduct details) (\<lambda>p.
       bindE (same_policy capture p) (\<lambda>same.
         if \<not> same \<or> list_ex (\<lambda>q. ip_id q = ip_id p) (id_products s) then invalid
         else bindE (best_value env capture details (s, p, rs)) (\<lambda>(s', p', rs').
           Inr (s'\<lparr>id_products := id_products s' @ [p']\<rparr>, rs'))))) = Inr (s', rs')"
    unfolding best_policy_def prod.case Let_def if_not_P [OF given] bindE_eq_Inr by blast
  have named: "\<not> blank (field details ''PolicyId'')" "\<not> blank (field details ''ProductName'')"
    using details False by (auto split: if_splits)
  obtain p same s1 p1 where m: "policyProduct details = Inr p" "\<not> (\<not> same \<or> list_ex (\<lambda>q. ip_id q = ip_id p) (id_products s))"
      "best_value env capture details (s, p, rs) = Inr (s1, p1, rs')" "s' = s1\<lparr>id_products := id_products s1 @ [p1]\<rparr>"
    using details unfolding if_not_P [OF named(1)] if_not_P [OF named(2)] by (auto split: if_splits)
  have "ip_id p \<notin> ip_id ` set (id_products s)"
    using m(2) by (auto simp: list_ex_iff)
  then show ?thesis
    by (rule that(2) [OF policyProduct_trimmed [OF m(1)] _ m(3,4)])
qed (use that(1) in blast)

lemma best_policy_reads:
  assumes "best_policy env capture (s, rs) = Inr (s', rs')" "best_read n (s, rs)"
  shows "best_read (Suc n) (s', rs')"
  using assms(1)
proof (cases rule: best_policy_cases)
  case (1 reason)
  with assms(2) show ?thesis
    by (simp add: best_read_def)
next
  case (2 details p s1 p1)
  obtain ts vs us where r: "id_products s1 = id_products s" "id_valuations s1 = id_valuations s @ vs" "id_tracks s1 = id_tracks s @ ts"
      "\<forall>t\<in>set ts. it_productId t = ip_id p1" "rs' = rs @ us" "sn_complete s1 \<longleftrightarrow> sn_complete s \<and> us = []" "ip_id p1 = ip_id p"
      "us = [] \<longrightarrow> (\<exists>v\<in>set vs. Some (iv_id v) = ip_currentValuationId p1 \<and> amounts ts = cents (iv_amount v))"
    using best_value_reads [OF 2(3)] by metis
  have owned: "\<forall>t\<in>set (id_tracks s). it_productId t \<in> ip_id ` set (id_products s)"
    using assms(2) by (simp add: best_read_def)
  have "reconciled s' q" if "rs' = []" "q \<in> set (id_products s')" for q
  proof (cases "q = p1")
    case True
    from r(5,8) that(1) obtain v where "v \<in> set vs" "Some (iv_id v) = ip_currentValuationId p1" "amounts ts = cents (iv_amount v)"
      by auto
    moreover have "\<forall>t\<in>set (id_tracks s). it_productId t \<noteq> ip_id p1"
      using owned 2(2) r(7) by metis
    ultimately show ?thesis
      using reconciled_new [of s p1 s' ts v] r(2-4) 2(4) True by simp
  next
    case False
    with that 2(4) r(1) have q: "q \<in> set (id_products s)"
      by simp
    then have "reconciled s q" "ip_id p1 \<noteq> ip_id q"
      using assms(2) that(1) r(5,7) 2(2) by (auto simp: best_read_def)
    with reconciled_extend [of s q p1 s' ts vs] r(2-4) 2(4) show ?thesis
      by simp
  qed
  with assms(2) r 2(1,4) owned show ?thesis
    by (auto simp: best_read_def)
qed

lemma best_policies_read:
  assumes "foldE (best_policy env) captures st = Inr st'" "best_read n st"
  shows "best_read (n + length captures) st'"
  using assms
proof (induction captures arbitrary: n st)
  case (Cons c captures)
  then obtain t where t: "best_policy env c st = Inr t" "foldE (best_policy env) captures t = Inr st'"
    by auto
  have "best_read (Suc n) t"
    using best_policy_reads [of env c "fst st" "snd st" "fst t" "snd t" n] t(1) Cons.prems(2) by simp
  with Cons.IH [OF t(2)] show ?case
    by fastforce
qed simp

text \<open>
  C30: a complete Best Invest snapshot is the whole portfolio, to the cent. When the captured policies are read without an
  error, the snapshot counts as complete exactly when no diagnostic code was reported; then it holds one product for each captured
  policy, and each product has a current value to which the amounts of its routes add up.
\<close>

theorem complete_policies_add_up:
  assumes "buildBestInvestSnapshot env input = Inr (s, rs)"
  shows "(sn_complete s \<longleftrightarrow> rs = []) \<and> (rs = [] \<longrightarrow> length (id_products s) = length (bi_policies input) \<and>
    (\<forall>p\<in>set (id_products s). \<exists>v\<in>set (id_valuations s). Some (iv_id v) = ip_currentValuationId p \<and> track_cents s (ip_id p) = cents (iv_amount v)))"
proof -
  obtain s0 where s0: "foldE (best_policy env) (bi_policies input) (best_initial input) = Inr (s0, rs)"
      "validated env (s0\<lparr>sn_inventoryComplete := bi_inventoryComplete input \<and> sn_complete s0\<rparr>) = Inr s"
    using assms by (auto simp: buildBestInvestSnapshot_def split: if_splits)
  have "best_read 0 (best_initial input)"
    by (simp add: best_read_def best_initial_def empty_snapshot_def)
  from best_policies_read [OF s0(1) this] have read: "best_read (length (bi_policies input)) (s0, rs)"
    by simp
  have s: "id_products s = map trim_product (id_products s0)" "sn_complete s = sn_complete s0"
    using validated_facts [OF s0(2)] by (simp_all add: trim_data_def)
  have "reconciled s (trim_product q)" if "rs = []" "q \<in> set (id_products s0)" for q
  proof -
    have "well_read (s0\<lparr>sn_inventoryComplete := bi_inventoryComplete input \<and> sn_complete s0\<rparr>)"
      using read that(1) by (simp add: best_read_def well_read_def reconciled_def track_cents_def)
    moreover have "reconciled (s0\<lparr>sn_inventoryComplete := bi_inventoryComplete input \<and> sn_complete s0\<rparr>) q"
      using read that by (simp add: best_read_def reconciled_def track_cents_def)
    ultimately show ?thesis
      using reconciled_trim that(2) validated_facts [OF s0(2)] by simp
  qed
  with read s show ?thesis
    by (auto simp: best_read_def reconciled_def)
qed

end
