(* ===== verification/BestExample.thy ===== *)
theory BestExample
  imports BestReconcile InvExample
begin

text \<open>One Best Invest policy with one route.\<close>

definition example_row :: fields where
  "example_row = [(js ''TotalTzvira'', JStr (js ''10'')), (js ''BeitHashkaot'', JStr (js ''House'')), (js ''Maslul'', JStr (js ''Shares''))]"

definition example_allocation :: fields where
  "example_allocation = [(js ''BeitHashkaotName'', JStr (js ''House'')), (js ''Maslul'', JStr (js ''Shares'')), (js ''BeitHashkaotId'', JStr (js ''1'')), (js ''MaslulId'', JStr (js ''2''))]"

definition example_accumulation :: fields where
  "example_accumulation = [(js ''Pidyon'', JArr [JObj example_row]), (js ''TotalTzviraMaslulim'', JStr (js ''10'')), (js ''AppraislDate'', JStr (js ''2024-07-01T00:00:00''))]"

definition example_policy :: fields where
  "example_policy = [(js ''PolicyId'', JStr (js ''5'')), (js ''ProductName'', JStr (js ''Policy'')), (js ''TotalSavings'', JStr (js ''10'')),
     (js ''PidyonTzvira'', JObj example_accumulation), (js ''InvestmentPolicy'', JObj [(js ''Investments'', JArr [JObj example_allocation])])]"

definition example_best_input :: best_input where
  "example_best_input = \<lparr>bi_observedAt = js ''2024-07-10T08:00:00.000Z'', bi_policies = [\<lparr>cp_details = JObj example_policy, cp_deposits = JUndef,
     cp_depositsYear = JNum 2024, cp_expectedPolicyId = Some (js ''5'')\<rparr>], bi_inventoryComplete = True\<rparr>"

definition example_best :: inv_product where
  "example_best = \<lparr>ip_id = js ''hachshara_best_invest:5'', ip_provider = BestInvest, ip_providerProductId = js ''5'', ip_kind = PlainInvestment, ip_name = js ''Policy'',
     ip_currency = js ''ILS'', ip_currentValuationId = Some (js ''hachshara_best_invest:5:valuation:2024-07-01''), ip_liquidity = LiquidityUnknown,
     ip_availableFrom = None, ip_availableAmount = None, ip_valuations = CoverPartial, ip_activities = CoverNone, ip_tracks = CoverComplete,
     ip_executions = None, ip_forecast = None, ip_reports = Some []\<rparr>"

definition example_best_track :: inv_track where
  "example_best_track = \<lparr>it_id = js ''hachshara_best_invest:5:track:1%3A2'', it_productId = js ''hachshara_best_invest:5'', it_name = js ''House'' @ NAME_SEPARATOR @ js ''Shares'',
     it_allocationPercent = None, it_amount = Some (js ''10.00''), it_currency = js ''ILS'', it_asOf = Some (js ''2024-07-01''), it_observedAt = js ''2024-07-10T08:00:00.000Z''\<rparr>"

definition example_best_snapshot :: inv_snapshot where
  "example_best_snapshot = \<lparr>id_products = [example_best], id_valuations = [\<lparr>iv_id = js ''hachshara_best_invest:5:valuation:2024-07-01'', iv_productId = js ''hachshara_best_invest:5'',
       iv_asOf = Some (js ''2024-07-01''), iv_observedAt = js ''2024-07-10T08:00:00.000Z'', iv_amount = js ''10.00'', iv_currency = js ''ILS'', iv_provenance = None\<rparr>],
     id_activities = [], id_tracks = [example_best_track], id_executions = [], sn_observedAt = js ''2024-07-10T08:00:00.000Z'', sn_complete = True, sn_inventoryComplete = True\<rparr>"

lemma best_texts:
  "clal_text (JStr (js ''5'')) = Inr (js ''5'')" "clal_text (JStr (js ''1'')) = Inr (js ''1'')" "clal_text (JStr (js ''2'')) = Inr (js ''2'')"
  "clal_text (JStr (js ''Policy'')) = Inr (js ''Policy'')" "clal_text (JStr (js ''House'')) = Inr (js ''House'')" "clal_text (JStr (js ''Shares'')) = Inr (js ''Shares'')"
  "best_nonnegative (JStr (js ''10'')) = Inr (js ''10.00'')" "cents (js ''10.00'') = 1000"
  by (simp_all add: clal_text_def js_trim_def is_space_def best_nonnegative_def parseBestInvestMoney_def starts_with_def normal_amount_def clal_amount_def
    unsigned_of_def grouped_digits_def is_digit_def nat_str_rec digits_val_def cents_def Let_def numeral_2_eq_2)

lemma best_date: "parseBestInvestDate example_zod (JStr (js ''2024-07-01T00:00:00'')) = Inr (Some (js ''2024-07-01''))"
proof -
  have "ze_date example_zod (js ''2024-07-01'')"
    by code_simp
  then show ?thesis
    by (simp add: parseBestInvestDate_def blank_def clal_text_def js_trim_def is_space_def day_first_def unset_date_def starts_with_def dashed_date_def
      time_suffix_def clock_text_def after_seconds_def offset_text_def is_digit_def num2_def)
qed

lemma best_ids:
  "investmentProductId (js ''5'') BestInvest = Inr (js ''hachshara_best_invest:5'')"
  "investmentValuationId (js ''hachshara_best_invest:5'') (Some (js ''2024-07-01'')) = Inr (js ''hachshara_best_invest:5:valuation:2024-07-01'')"
  "investmentTrackId (js ''hachshara_best_invest:5'') (js ''1:2'') = Inr (js ''hachshara_best_invest:5:track:1%3A2'')"
  "encodeURIComponent (js ''1'') = Inr (js ''1'')" "encodeURIComponent (js ''2'') = Inr (js ''2'')"
  by (simp_all add: investmentProductId_def investmentValuationId_def investmentTrackId_def id_part_def js_trim_def is_space_def uri_unreserved_def is_word_def is_digit_def
    is_upper_def is_lower_def is_low_def is_high_def utf8_cp_def pct_def hex_char_def checked_id_def provider_text_def)

lemma best_row:
  assumes "ip_id p = js ''hachshara_best_invest:5''" "sn_observedAt s = js ''2024-07-10T08:00:00.000Z''"
  shows "best_rows s p (Some (js ''2024-07-01'')) [example_allocation] [JObj example_row] ([], 0) = Inr (Inr ([example_best_track], 1000))"
proof -
  have "best_track s p (Some (js ''2024-07-01'')) (js ''House'') (js ''Shares'') (js ''10.00'') example_allocation = Inr example_best_track"
    using assms best_texts best_ids
    by (simp add: best_track_def identity_def field_def js_prop_def example_allocation_def track_row_def example_best_track_def del: bindE_eq_Inr)
  moreover have "matching (js ''House'') (js ''Shares'') [example_allocation] = Inr [example_allocation]"
    using best_texts by (simp add: matching_def house_and_route_def example_allocation_def field_def js_prop_def)
  moreover have "\<not> blank (field example_allocation ''BeitHashkaotId'')" "\<not> blank (field example_allocation ''MaslulId'')" "\<not> blank (field example_row ''TotalTzvira'')"
      "field example_row ''TotalTzvira'' = JStr (js ''10'')" "field example_row ''BeitHashkaot'' = JStr (js ''House'')" "field example_row ''Maslul'' = JStr (js ''Shares'')"
    by (simp_all add: blank_def field_def js_prop_def example_allocation_def example_row_def js_trim_def is_space_def)
  ultimately show ?thesis
    using best_texts by (simp add: clalRecord_def del: bindE_eq_Inr)
qed

lemma best_fields:
  "field example_policy ''PolicyId'' = JStr (js ''5'')" "field example_policy ''ProductName'' = JStr (js ''Policy'')" "field example_policy ''TotalSavings'' = JStr (js ''10'')"
  "field example_policy ''PidyonTzvira'' = JObj example_accumulation" "field example_policy ''InvestmentPolicy'' = JObj [(js ''Investments'', JArr [JObj example_allocation])]"
  "field example_accumulation ''Pidyon'' = JArr [JObj example_row]" "field example_accumulation ''TotalTzviraMaslulim'' = JStr (js ''10'')"
  "field example_accumulation ''AppraislDate'' = JStr (js ''2024-07-01T00:00:00'')" "field [(js ''Investments'', JArr [JObj example_allocation])] ''Investments'' = JArr [JObj example_allocation]"
  by (simp_all add: field_def js_prop_def example_policy_def example_accumulation_def)

lemma best_blanks:
  "\<not> blank (JStr (js ''5''))" "\<not> blank (JStr (js ''10''))" "\<not> blank (JStr (js ''Policy''))" "\<not> blank (JObj r)"
  by (simp_all add: blank_def js_trim_def is_space_def)

lemma best_tracks:
  assumes "ip_id p = js ''hachshara_best_invest:5''" "sn_observedAt s = js ''2024-07-10T08:00:00.000Z''"
  shows "addTracks example_policy (Some (js ''2024-07-01'')) (js ''10.00'') (s, p, rs) = Inr (s\<lparr>id_tracks := id_tracks s @ [example_best_track]\<rparr>, p\<lparr>ip_tracks := CoverComplete\<rparr>, rs)"
  using best_row [OF assms] best_fields best_blanks best_texts
  by (simp add: addTracks_def use_tables_def use_rows_def array_of_def clalRecord_def reconcile_tracks_def del: bindE_eq_Inr best_rows.simps)

lemma best_parsed: "validated example_zod example_best_snapshot = Inr example_best_snapshot"
proof -
  have zeros: "replicate 4 48 = [48, 48, 48, 48 :: nat]"
    by (simp add: numeral_eq_Suc)
  have date: "ze_date example_zod (js ''2024-07-01'')"
    by code_simp
  show ?thesis
    using example_observed zeros date
    by (simp add: validated_def parse_snapshot_def checked_by_def data_ok_def trim_data_def example_best_snapshot_def example_best_def example_best_track_def NAME_SEPARATOR_def
      trim_product_def product_ok_def trim_valuation_def valuation_ok_def trim_track_def track_ok_def sized_def currency_code_def nonnegative_money_def money_def decimal_def
      valuation_money_def js_trim_def is_space_def starts_with_def is_digit_def is_upper_def null_or_def whole_number_def digits_val_def)
qed

lemma best_policy_read:
  "best_policy example_zod \<lparr>cp_details = JObj example_policy, cp_deposits = JUndef, cp_depositsYear = JNum 2024, cp_expectedPolicyId = Some (js ''5'')\<rparr>
     (empty_snapshot (js ''2024-07-10T08:00:00.000Z''), []) = Inr (example_best_snapshot, [])"
  using best_fields best_blanks best_texts best_ids best_date best_tracks
  by (simp add: best_policy_def clalRecord_def policyProduct_def identity_def same_policy_def best_value_def addDepositSummary_def empty_snapshot_def del: bindE_eq_Inr)
    (simp add: example_best_snapshot_def example_best_def)

lemma best_built: "buildBestInvestSnapshot example_zod example_best_input = Inr (example_best_snapshot, [])"
proof -
  have "best_initial example_best_input = (empty_snapshot (js ''2024-07-10T08:00:00.000Z''), [])"
    by (simp add: best_initial_def example_best_input_def empty_snapshot_def)
  moreover have "example_best_snapshot\<lparr>sn_inventoryComplete := True\<rparr> = example_best_snapshot" "sn_complete example_best_snapshot"
    by (simp_all add: example_best_snapshot_def)
  ultimately show ?thesis
    using example_observed best_policy_read best_parsed
    by (simp add: buildBestInvestSnapshot_def example_best_input_def del: bindE_eq_Inr)
qed

theorem complete_policies_add_up_witness:
  "sn_complete example_best_snapshot \<and> length (id_products example_best_snapshot) = 1 \<and>
   (\<exists>v\<in>set (id_valuations example_best_snapshot). Some (iv_id v) = ip_currentValuationId example_best \<and> track_cents example_best_snapshot (ip_id example_best) = cents (iv_amount v))"
proof -
  have "example_best \<in> set (id_products example_best_snapshot)" "length (bi_policies example_best_input) = 1"
    by (simp_all add: example_best_snapshot_def example_best_input_def)
  with complete_policies_add_up [OF best_built] show ?thesis
    by simp
qed

end
