(* ===== verification/InvRoutes.thy ===== *)
theory InvRoutes
  imports InvRuntimeProofs InvAllowance JsUri JsonParse
begin

text \<open>
  The HTTP routes of an investment provider: the read-only feed and session status of
  \<^verbatim>\<open>src/investments/router.ts\<close>, the control routes of \<^verbatim>\<open>src/investments/control.ts\<close>, and the status report and the
  capabilities of \<^verbatim>\<open>src/investments/runtime.ts\<close>. The library chooses the route; SHA-256 is a parameter.
\<close>

section \<open>Requests, answers and capabilities\<close>

record http_request =
  hq_authorization :: "jsstr option"
  hq_origin :: "jsstr option"
  hq_search :: jsstr
  hq_provider :: "jsstr option"
  hq_bytes :: nat
  hq_text :: jsstr

text \<open>\<^verbatim>\<open>/^bearer (?<token>\S+)$/i\<close>.\<close>

definition ascii_lower :: "nat \<Rightarrow> nat" where
  "ascii_lower c = (if is_upper c then c + 32 else c)"

definition bearer_token :: "jsstr option \<Rightarrow> jsstr option" where
  "bearer_token header =
     (let h = default header []; token = drop 7 h in
      if map ascii_lower (take 7 h) = js ''bearer '' \<and> token \<noteq> [] \<and> list_all (\<lambda>c. \<not> is_space c) token then Some token else None)"

definition capable :: "jsstr option \<Rightarrow> bool" where
  "capable token = (case token of None \<Rightarrow> False | Some t \<Rightarrow> 32 \<le> length t \<and> list_all (\<lambda>c. \<not> is_space c) t)"

definition digest :: "(nat list \<Rightarrow> nat list) \<Rightarrow> jsstr option \<Rightarrow> nat list" where
  "digest sha value = sha (utf8 (default value []))"

definition authorized :: "(nat list \<Rightarrow> nat list) \<Rightarrow> jsstr option \<Rightarrow> http_request \<Rightarrow> bool" where
  "authorized sha token rq \<longleftrightarrow>
     digest sha (bearer_token (hq_authorization rq)) = digest sha token \<and> bearer_token (hq_authorization rq) \<noteq> None"

section \<open>The session as it is shown\<close>

record session_view =
  sv_state :: session_state
  sv_observedAt :: jsstr
  sv_keepAliveEnabled :: bool
  sv_keepAliveMinutes :: int
  sv_expired :: bool
  sv_overdue :: bool
  sv_verifiedActive :: bool

text \<open>A comparison with a time that does not parse is false.\<close>

definition stamp_is :: "(int \<Rightarrow> bool) \<Rightarrow> jsstr option \<Rightarrow> bool" where
  "stamp_is P s = (case Option.bind s parse_stamp of None \<Rightarrow> False | Some t \<Rightarrow> P t)"

definition getClalSessionStatus :: "session_state \<Rightarrow> int \<Rightarrow> int \<Rightarrow> session_view" where
  "getClalSessionStatus state now intervalMinutes =
     (let expired = stamp_is (\<lambda>t. t \<le> now) (se_expiresAt state);
          overdue = (0 < intervalMinutes \<and>
            (se_lastCheckedAt state = None \<or> stamp_is (\<lambda>t. intervalMinutes * 60000 < now - t) (se_lastCheckedAt state)));
          checked = stamp_is (\<lambda>t. t \<le> now) (se_lastCheckedAt state)
      in \<lparr>sv_state = state, sv_observedAt = iso_of_time now, sv_keepAliveEnabled = (0 < intervalMinutes),
          sv_keepAliveMinutes = intervalMinutes, sv_expired = expired, sv_overdue = overdue,
          sv_verifiedActive = (se_status state = SessionActive \<and> checked \<and> se_expiresAt state \<noteq> None \<and> \<not> expired \<and> \<not> overdue)\<rparr>)"

section \<open>The status report\<close>

datatype otp_reason =
    ReceiverReady | ReceiverConnecting | ReceiverDisconnected | ReceiverInactive | PhoneUnavailable | PhoneSyncing | ReauthRequired
  | ReceiverUnavailable | OtpNotConfigured | OtpRateLimited

record schedule_view =
  sc_enabled :: bool
  sc_expression :: jsstr
  sc_description :: "jsstr option"
  sc_timezone :: jsstr
  sc_nextRunAt :: "jsstr option"

text \<open>What the report takes from the receiver and from the cron libraries; no receiver, no health.\<close>

record report_inputs =
  rp_health :: "(bool \<times> otp_reason) option"
  rp_description :: "jsstr option"
  rp_task :: "jsstr option option"
  rp_expression :: jsstr
  rp_timezone :: jsstr
  rp_keepAliveMinutes :: int

record control_status =
  cs_observedAt :: jsstr
  cs_source :: inv_source_state
  cs_running :: bool
  cs_lastResult :: "collection_status option"
  cs_lastStartedAt :: "jsstr option"
  cs_lastFinishedAt :: "jsstr option"
  cs_schedule :: schedule_view
  cs_otpEnabled :: bool
  cs_otpReady :: bool
  cs_otpReason :: otp_reason
  cs_otpNextAllowedAt :: "jsstr option"
  cs_session :: session_view
  cs_manualVerification :: bool
  cs_recovery :: "recovery_status option"

definition schedule_report :: "report_inputs \<Rightarrow> schedule_view" where
  "schedule_report inp = \<lparr>sc_enabled = (rp_task inp \<noteq> None), sc_expression = take 256 (rp_expression inp),
     sc_description = map_option (take 256) (rp_description inp), sc_timezone = take 100 (rp_timezone inp), sc_nextRunAt = Option.bind (rp_task inp) id\<rparr>"

definition shown_recovery :: "runtime_env \<Rightarrow> inv_runtime \<Rightarrow> recovery_status option res" where
  "shown_recovery env st =
     (case rt_recovery st of Some m \<Rightarrow> Inr (Some (mr_current m)) | None \<Rightarrow> getLatestManualRecoveryRequest (rn_store env) (rt_db st))"

definition controlStatus :: "runtime_env \<Rightarrow> report_inputs \<Rightarrow> int \<Rightarrow> inv_runtime \<Rightarrow> control_status res" where
  "controlStatus env inp now st =
     (if rt_closed st then Inl (OtherError ''investment control unavailable'')
      else
      bindE (getAutomaticSmsNextAllowedAt (rn_store env) (iso_of_time now) (rt_db st)) (\<lambda>nextAllowedAt.
      bindE (getFeed (rn_store env) now (rn_staleHours env) (rt_db st)) (\<lambda>feed.
      bindE (getSessionState (rn_store env) (rt_db st)) (\<lambda>session.
      bindE (shown_recovery env st) (\<lambda>recovery.
      let (ready, reason) = default (rp_health inp) (False, OtpNotConfigured) in
      Inr \<lparr>cs_observedAt = iso_of_time now, cs_source = fd_source feed, cs_running = (rt_running st \<noteq> None),
        cs_lastResult = rt_lastResult st, cs_lastStartedAt = rt_lastStartedAt st, cs_lastFinishedAt = rt_lastFinishedAt st,
        cs_schedule = schedule_report inp, cs_otpEnabled = (rp_health inp \<noteq> None), cs_otpReady = (ready \<and> nextAllowedAt = None),
        cs_otpReason = (if rp_health inp \<noteq> None \<and> nextAllowedAt \<noteq> None then OtpRateLimited else reason),
        cs_otpNextAllowedAt = (if rp_health inp \<noteq> None then nextAllowedAt else None),
        cs_session = getClalSessionStatus session now (rp_keepAliveMinutes inp),
        cs_manualVerification = rn_manualVerification env, cs_recovery = recovery\<rparr>)))))"

section \<open>The feed\<close>

datatype route_body =
    RouteError string
  | FeedBody inv_feed
  | SessionBody session_view
  | StatusBody control_status
  | RefreshBody refresh_result
  | LimitedBody int
  | RecoveryBody recovery_status

record route_response =
  ro_status :: nat
  ro_headers :: "(string \<times> jsstr) list"
  ro_body :: route_body

definition answer :: "nat \<Rightarrow> route_body \<Rightarrow> route_response" where
  "answer status body = \<lparr>ro_status = status, ro_headers = [(''Cache-Control'', js ''no-store'')], ro_body = body\<rparr>"

definition with_header :: "string \<Rightarrow> jsstr \<Rightarrow> route_response \<Rightarrow> route_response" where
  "with_header name v r = r\<lparr>ro_headers := ro_headers r @ [(name, v)]\<rparr>"

text \<open>\<open>None\<close> for the store: its database could not be opened. The second component is what is logged.\<close>

definition feed_route :: "(nat list \<Rightarrow> nat list) \<Rightarrow> store_env \<Rightarrow> jsstr option \<Rightarrow> int \<Rightarrow> int \<Rightarrow> bool \<Rightarrow> http_request \<Rightarrow> int \<Rightarrow> inv_db option
    \<Rightarrow> route_response \<times> string list" where
  "feed_route sha env readToken staleHours keepAliveMinutes sessionStatus rq now store =
     (case (capable readToken, store) of
        (True, Some db) \<Rightarrow>
          if \<not> authorized sha readToken rq
          then (with_header ''WWW-Authenticate'' (js ''Bearer realm=\"investments\"'') (answer 403 (RouteError ''forbidden'')), [])
          else (case (if sessionStatus
              then bindE (getSessionState env db) (\<lambda>s. Inr (SessionBody (getClalSessionStatus s now keepAliveMinutes)))
              else bindE (getFeed env now staleHours db) (\<lambda>f. Inr (FeedBody f))) of
            Inr body \<Rightarrow> (answer 200 body, [])
          | Inl e \<Rightarrow> (answer 503 (RouteError ''investment_feed_unavailable''), [''investment feed read failed'']))
      | _ \<Rightarrow> (answer 503 (RouteError ''investment_feed_unavailable''), []))"

section \<open>The control routes\<close>

datatype control_route = StatusRoute | RefreshRoute | StartRoute | SubmitRoute jsstr | CancelRoute jsstr

record control_options =
  co_sha :: "nat list \<Rightarrow> nat list"
  co_uuid :: "jsstr \<Rightarrow> bool"
  co_readToken :: "jsstr option"
  co_controlToken :: "jsstr option"
  co_report :: report_inputs

definition control_configured :: "control_options \<Rightarrow> bool" where
  "control_configured opts \<longleftrightarrow> capable (co_controlToken opts) \<and>
     digest (co_sha opts) (co_controlToken opts) \<noteq> digest (co_sha opts) (co_readToken opts)"

text \<open>Why a request does not reach its handler.\<close>

definition control_refusal :: "control_options \<Rightarrow> http_request \<Rightarrow> route_response option" where
  "control_refusal opts rq =
     (if \<not> control_configured opts then Some (answer 503 (RouteError ''investment_control_unavailable''))
      else if \<not> authorized (co_sha opts) (co_controlToken opts) rq
      then Some (with_header ''WWW-Authenticate'' (js ''Bearer realm=\"investment-control\"'') (answer 403 (RouteError ''forbidden'')))
      else if default (hq_origin rq) [] \<noteq> [] then Some (answer 403 (RouteError ''forbidden''))
      else if hq_search rq \<noteq> [] then Some (answer 400 (RouteError ''invalid_request''))
      else None)"

definition MAX_CONTROL_BYTES :: nat where "MAX_CONTROL_BYTES = 128"

definition spaces :: "jsstr \<Rightarrow> jsstr" where
  "spaces s = dropWhile is_space s"

text \<open>\<open>expect p s\<close>: the rest of \<open>s\<close> after the text \<open>p\<close>.\<close>

definition expect :: "jsstr \<Rightarrow> jsstr \<Rightarrow> jsstr option" where
  "expect p s = (if starts_with s p then Some (drop (length p) s) else None)"

text \<open>\<^verbatim>\<open>/^\s*\{\s*\}\s*$/\<close>.\<close>

definition empty_object :: "jsstr \<Rightarrow> bool" where
  "empty_object s = (case Option.bind (expect [123] (spaces s)) (\<lambda>t. expect [125] (spaces t)) of None \<Rightarrow> False | Some r \<Rightarrow> spaces r = [])"

text \<open>\<^verbatim>\<open>/^\s*\{\s*"code"\s*:\s*"(?<code>\d{6})"\s*\}\s*$/\<close>.\<close>

definition submitted_code :: "jsstr \<Rightarrow> jsstr option" where
  "submitted_code s =
     Option.bind (expect [123] (spaces s)) (\<lambda>a.
     Option.bind (expect (34 # js ''code'' @ [34]) (spaces a)) (\<lambda>b.
     Option.bind (expect [58] (spaces b)) (\<lambda>c.
     Option.bind (expect [34] (spaces c)) (\<lambda>d.
     let code = take 6 d in
     if \<not> six_digits code then None
     else Option.bind (expect [34] (drop 6 d)) (\<lambda>e.
     Option.bind (expect [125] (spaces e)) (\<lambda>r. if spaces r = [] then Some code else None))))))"

datatype start_body = NotJson | NotARequest | RequestId jsstr

definition start_body :: "control_options \<Rightarrow> jsstr \<Rightarrow> start_body" where
  "start_body opts raw =
     (case json_parse raw of
        None \<Rightarrow> NotJson
      | Some (JObj [(k, JStr i)]) \<Rightarrow> if k = js ''requestId'' \<and> co_uuid opts i then RequestId i else NotARequest
      | Some v \<Rightarrow> NotARequest)"

definition invalid_request :: route_response where
  "invalid_request = answer 400 (RouteError ''invalid_request'')"

definition limited :: "int \<Rightarrow> route_response" where
  "limited wait = with_header ''Retry-After'' (int_str wait) (answer 429 (LimitedBody wait))"

definition control_unavailable :: route_response where
  "control_unavailable = answer 503 (RouteError ''investment_control_unavailable'')"

definition refusal_answer :: "recovery_refusal \<Rightarrow> route_response" where
  "refusal_answer r = (case r of
     RecoveryNotFound \<Rightarrow> answer 404 (RouteError ''recovery_not_found'')
   | RecoveryWasExpired \<Rightarrow> answer 410 (RouteError ''recovery_expired'')
   | RecoveryNotWaiting \<Rightarrow> answer 409 (RouteError ''recovery_not_waiting'')
   | RecoveryInProgress \<Rightarrow> answer 409 (RouteError ''recovery_in_progress''))"

definition error_answer :: "control_error \<Rightarrow> route_response" where
  "error_answer e = (case e of
     RefreshRateLimited wait \<Rightarrow> limited wait
   | SourceIdentityMismatch \<Rightarrow> answer 409 (RouteError ''source_identity_mismatch'')
   | ControlUnavailable \<Rightarrow> control_unavailable
   | Refused r \<Rightarrow> refusal_answer r)"

text \<open>An exception is logged and answered as unavailable, with what the handler already wrote kept.\<close>

definition recovery_answer :: "nat \<Rightarrow> (control_error + recovery_status) res \<times> inv_runtime \<Rightarrow> (route_response \<times> string list) \<times> inv_runtime" where
  "recovery_answer status r =
     ((case fst r of
         Inl e \<Rightarrow> (control_unavailable, [''investment recovery control unavailable''])
       | Inr (Inl e) \<Rightarrow> (error_answer e, [])
       | Inr (Inr s) \<Rightarrow> (answer status (RecoveryBody s), [])), snd r)"

definition refresh_answer :: "(control_error + refresh_result) res \<times> inv_runtime \<Rightarrow> (route_response \<times> string list) \<times> inv_runtime" where
  "refresh_answer r =
     ((case fst r of
         Inl e \<Rightarrow> (control_unavailable, [''investment control refresh unavailable''])
       | Inr (Inl e) \<Rightarrow> (error_answer e, [])
       | Inr (Inr x) \<Rightarrow> (answer 202 (RefreshBody x), [])), snd r)"

definition refused :: "inv_runtime \<Rightarrow> (route_response \<times> string list) \<times> inv_runtime" where
  "refused st = ((invalid_request, []), st)"

definition control_handler :: "runtime_env \<Rightarrow> control_options \<Rightarrow> int \<Rightarrow> http_request \<Rightarrow> control_route \<Rightarrow> inv_runtime
    \<Rightarrow> (route_response \<times> string list) \<times> inv_runtime" where
  "control_handler env opts now rq route st =
     (let provider = default (hq_provider rq) [] in
      case route of
        StatusRoute \<Rightarrow>
          ((case controlStatus env (co_report opts) now st of
              Inl e \<Rightarrow> (control_unavailable, [''investment control status unavailable''])
            | Inr s \<Rightarrow> (answer 200 (StatusBody s), [])), st)
      | RefreshRoute \<Rightarrow>
          if hq_text rq \<noteq> [] \<and> \<not> empty_object (hq_text rq) then refused st else refresh_answer (controlRefresh env provider now st)
      | StartRoute \<Rightarrow>
          (case start_body opts (hq_text rq) of
             RequestId i \<Rightarrow> recovery_answer 202 (controlStartRecovery env provider (to_lower i) now st)
           | _ \<Rightarrow> refused st)
      | SubmitRoute challengeId \<Rightarrow>
          if \<not> co_uuid opts challengeId then refused st
          else (case submitted_code (hq_text rq) of
            None \<Rightarrow> refused st
          | Some code \<Rightarrow> recovery_answer 202 (controlRecoveryAction env provider (to_lower challengeId) (Some code) now st))
      | CancelRoute challengeId \<Rightarrow>
          if \<not> co_uuid opts challengeId then refused st
          else if hq_text rq \<noteq> [] \<and> \<not> empty_object (hq_text rq) then refused st
          else recovery_answer 200 (controlRecoveryAction env provider (to_lower challengeId) None now st))"

text \<open>The middleware, the limit on the body of everything but the status, and the handler.\<close>

definition control_answer :: "runtime_env \<Rightarrow> control_options \<Rightarrow> int \<Rightarrow> http_request \<times> control_route \<Rightarrow> inv_runtime
    \<Rightarrow> (route_response \<times> string list) \<times> inv_runtime" where
  "control_answer env opts now q st =
     (case q of (rq, route) \<Rightarrow>
        case control_refusal opts rq of
          Some r \<Rightarrow> ((r, []), st)
        | None \<Rightarrow>
            if route \<noteq> StatusRoute \<and> MAX_CONTROL_BYTES < hq_bytes rq then refused st
            else control_handler env opts now rq route st)"

section \<open>What a control request can do\<close>

text \<open>The capability of the provider, and no sign of a browser page behind the request.\<close>

definition entitled :: "control_options \<Rightarrow> http_request \<Rightarrow> bool" where
  "entitled opts rq \<longleftrightarrow> control_configured opts \<and> authorized (co_sha opts) (co_controlToken opts) rq \<and>
     default (hq_origin rq) [] = [] \<and> hq_search rq = []"

lemma refusal_iff: "control_refusal opts rq = None \<longleftrightarrow> entitled opts rq"
  by (auto simp: control_refusal_def entitled_def)

lemma refusal_status: "control_refusal opts rq = Some r \<Longrightarrow> ro_status r \<in> {400, 403, 503}"
  by (auto simp: control_refusal_def answer_def with_header_def split: if_splits)

text \<open>The runtime event a request stands for.\<close>

fun request_event :: "control_options \<Rightarrow> http_request \<times> control_route \<Rightarrow> runtime_event option" where
  "request_event opts (rq, StatusRoute) = None"
| "request_event opts (rq, RefreshRoute) = Some (Refresh (default (hq_provider rq) []))"
| "request_event opts (rq, StartRoute) =
     (case start_body opts (hq_text rq) of RequestId i \<Rightarrow> Some (StartRecovery (default (hq_provider rq) []) (to_lower i)) | _ \<Rightarrow> None)"
| "request_event opts (rq, SubmitRoute i) =
     map_option (\<lambda>code. RecoveryAction (default (hq_provider rq) []) (to_lower i) (Some code)) (submitted_code (hq_text rq))"
| "request_event opts (rq, CancelRoute i) = Some (RecoveryAction (default (hq_provider rq) []) (to_lower i) None)"

lemma handler_event:
  "snd (control_handler env opts now rq route st) = st \<or>
   (\<exists>ev. request_event opts (rq, route) = Some ev \<and> snd (control_handler env opts now rq route st) = runtime_step env (now, ev) st)"
  by (cases route)
    (auto simp: control_handler_def Let_def refused_def refresh_answer_def recovery_answer_def split: start_body.split option.split)

lemma answer_event:
  assumes "snd (control_answer env opts now q st) \<noteq> st"
  shows "entitled opts (fst q) \<and> (\<exists>ev. request_event opts q = Some ev \<and> snd (control_answer env opts now q st) = runtime_step env (now, ev) st)"
proof -
  obtain rq route where q: "q = (rq, route)" by (cases q)
  have "control_refusal opts rq = None"
    using assms q by (cases "control_refusal opts rq") (simp_all add: control_answer_def)
  moreover from this assms q have "snd (control_answer env opts now q st) = snd (control_handler env opts now rq route st)"
    by (auto simp: control_answer_def refused_def split: if_splits)
  ultimately show ?thesis
    using handler_event [of env opts now rq route st] assms q by (auto simp: refusal_iff)
qed

lemma error_status: "ro_status (error_answer e) \<in> {404, 409, 410, 429, 503}"
  by (auto simp: error_answer_def refusal_answer_def limited_def control_unavailable_def answer_def with_header_def
      split: control_error.split recovery_refusal.split)

lemma answer_status:
  "ro_status (fst (fst (control_answer env opts now q st))) \<in> {200, 202} \<Longrightarrow> entitled opts (fst q)"
proof -
  assume a: "ro_status (fst (fst (control_answer env opts now q st))) \<in> {200, 202}"
  have "control_refusal opts (fst q) = None"
    using a refusal_status [of opts "fst q"] by (cases q; cases "control_refusal opts (fst q)") (auto simp: control_answer_def)
  then show ?thesis by (simp add: refusal_iff)
qed

text \<open>Requests one after the other, each at its time.\<close>

definition control_run :: "runtime_env \<Rightarrow> control_options \<Rightarrow> (int \<times> http_request \<times> control_route) list \<Rightarrow> inv_runtime \<Rightarrow> inv_runtime" where
  "control_run env opts qs st = fold (\<lambda>(now, q) s. snd (control_answer env opts now q s)) qs st"

lemma submitted_six: "submitted_code s = Some code \<Longrightarrow> six_digits code"
  by (auto simp: submitted_code_def Let_def split: bind_splits if_splits)

text \<open>The events the entitled requests among some stand for, at their times.\<close>

definition entitled_events :: "control_options \<Rightarrow> (int \<times> http_request \<times> control_route) list \<Rightarrow> (int \<times> runtime_event) set" where
  "entitled_events opts qs = {e. \<exists>q. (fst e, q) \<in> set qs \<and> entitled opts (fst q) \<and> request_event opts q = Some (snd e)}"

lemma entitled_events_Cons: "entitled_events opts qs \<subseteq> entitled_events opts (x # qs)"
  by (auto simp: entitled_events_def simp del: split_paired_Ex)

lemma control_run_events:
  "\<exists>evs. control_run env opts qs st = fold (runtime_step env) evs st \<and> set evs \<subseteq> entitled_events opts qs \<and>
     length evs \<le> length (filter (\<lambda>x. entitled opts (fst (snd x))) qs)"
proof (induction qs arbitrary: st)
  case Nil
  then show ?case by (intro exI [of _ "[]"]) (simp add: control_run_def)
next
  case (Cons x qs)
  obtain now q where x: "x = (now, q)" by (cases x)
  let ?st = "snd (control_answer env opts now q st)"
  obtain evs where evs: "control_run env opts qs ?st = fold (runtime_step env) evs ?st" "set evs \<subseteq> entitled_events opts qs"
      "length evs \<le> length (filter (\<lambda>x. entitled opts (fst (snd x))) qs)"
    using Cons.IH by blast
  have run: "control_run env opts (x # qs) st = control_run env opts qs ?st"
    by (simp add: control_run_def x)
  have more: "set evs \<subseteq> entitled_events opts (x # qs)"
    using evs(2) entitled_events_Cons by blast
  show ?case
  proof (cases "?st = st")
    case True
    then show ?thesis
      using evs(1,3) run more by (intro exI [of _ evs]) simp
  next
    case False
    from answer_event [OF False] obtain ev where ev: "entitled opts (fst q)" "request_event opts q = Some ev" "?st = runtime_step env (now, ev) st"
      by blast
    then have "(now, ev) \<in> entitled_events opts (x # qs)"
      by (auto simp: entitled_events_def x simp del: split_paired_Ex)
    with ev evs(1,3) run more show ?thesis
      by (intro exI [of _ "(now, ev) # evs"]) (simp add: x)
  qed
qed

text \<open>
  C37: control requests act on the runtime only as its own operations, and only with the control capability. Whatever
  requests arrive, the runtime ends as after a sequence of its events, one at most for each entitled request, so what
  is proved of all sequences of events holds over the network too. A request without the capability gets neither a
  success nor any effect, and a code that reaches a verification is six digits taken from the request's body.
\<close>

theorem control_requests_are_events:
  "(\<exists>evs. control_run env opts qs st = fold (runtime_step env) evs st \<and> set evs \<subseteq> entitled_events opts qs \<and>
      length evs \<le> length (filter (\<lambda>x. entitled opts (fst (snd x))) qs)) \<and>
   {q. snd (control_answer env opts now q st) \<noteq> st \<or> ro_status (fst (fst (control_answer env opts now q st))) \<in> {200, 202}} \<subseteq>
     {q. entitled opts (fst q)} \<and>
   {code. \<exists>q p i. request_event opts q = Some (RecoveryAction p i (Some code))} \<subseteq> {code. six_digits code}"
proof (intro conjI)
  show "\<exists>evs. control_run env opts qs st = fold (runtime_step env) evs st \<and> set evs \<subseteq> entitled_events opts qs \<and>
      length evs \<le> length (filter (\<lambda>x. entitled opts (fst (snd x))) qs)"
    by (rule control_run_events)
  show "{q. snd (control_answer env opts now q st) \<noteq> st \<or> ro_status (fst (fst (control_answer env opts now q st))) \<in> {200, 202}} \<subseteq>
      {q. entitled opts (fst q)}"
    using answer_event answer_status by blast
  have "six_digits code" if "request_event opts (rq, route) = Some (RecoveryAction p i (Some code))" for rq route p i code
    using that by (cases route) (auto dest: submitted_six split: start_body.splits)
  then show "{code. \<exists>q p i. request_event opts q = Some (RecoveryAction p i (Some code))} \<subseteq> {code. six_digits code}"
    by auto
qed

text \<open>A sample of requests: a refresh with the capability, the same without it, and a code in a body.\<close>

definition example_control :: control_options where
  "example_control = \<lparr>co_sha = id, co_uuid = (\<lambda>s. length s = 36), co_readToken = None, co_controlToken = Some (replicate 32 97),
     co_report = \<lparr>rp_health = None, rp_description = None, rp_task = None, rp_expression = [], rp_timezone = [], rp_keepAliveMinutes = 0\<rparr>\<rparr>"

definition example_request :: "jsstr option \<Rightarrow> jsstr \<Rightarrow> http_request" where
  "example_request authorization text = \<lparr>hq_authorization = authorization, hq_origin = None, hq_search = [], hq_provider = Some (js ''clal''),
     hq_bytes = length text, hq_text = text\<rparr>"

lemma bearer_read: "t \<noteq> [] \<Longrightarrow> list_all (\<lambda>c. \<not> is_space c) t \<Longrightarrow> bearer_token (Some (js ''Bearer '' @ t)) = Some t"
  by (simp add: bearer_token_def ascii_lower_def is_upper_def)

lemma utf8_nonempty: "s \<noteq> [] \<Longrightarrow> utf8 s \<noteq> []"
  by (cases s rule: utf8.cases) (auto simp: utf8_cp_def)

lemma example_capable: "list_all (\<lambda>c. \<not> is_space c) (replicate 32 97)"
  by (simp add: list_all_iff is_space_def)

lemma example_entitled:
  "entitled example_control (example_request (Some (js ''Bearer '' @ replicate 32 97)) [])"
  "\<not> entitled example_control (example_request (Some (js ''Basic '' @ replicate 32 97)) [])"
proof -
  have "digest id (Some (replicate 32 97)) \<noteq> digest id None"
    using utf8_nonempty [of "replicate 32 97"] by (simp add: digest_def)
  then show "entitled example_control (example_request (Some (js ''Bearer '' @ replicate 32 97)) [])"
    using example_capable bearer_read [of "replicate 32 97"]
    by (simp add: entitled_def control_configured_def authorized_def capable_def example_control_def example_request_def)
  show "\<not> entitled example_control (example_request (Some (js ''Basic '' @ replicate 32 97)) [])"
    by (simp add: entitled_def authorized_def example_request_def bearer_token_def ascii_lower_def is_upper_def)
qed

definition example_control_env :: runtime_env where
  "example_control_env = \<lparr>rn_store = example_store, rn_enabled = True, rn_manualVerification = True, rn_staleHours = 48\<rparr>"

definition example_refresh :: "int \<times> http_request \<times> control_route" where
  "example_refresh = (0, example_request (Some (js ''Bearer '' @ replicate 32 97)) [], RefreshRoute)"

definition example_intruder :: "int \<times> http_request \<times> control_route" where
  "example_intruder = (1000, example_request (Some (js ''Basic '' @ replicate 32 97)) [], RefreshRoute)"

text \<open>Two refreshes, the second without the capability: one event at most, and nothing for the second.\<close>

theorem control_requests_are_events_witness:
  "(\<exists>evs. control_run example_control_env example_control [example_refresh, example_intruder] (initial_runtime empty_inv_db) =
       fold (runtime_step example_control_env) evs (initial_runtime empty_inv_db) \<and>
     set evs \<subseteq> entitled_events example_control [example_refresh, example_intruder] \<and> length evs \<le> 1) \<and>
   snd (control_answer example_control_env example_control 1000 (snd example_intruder) (initial_runtime empty_inv_db)) = initial_runtime empty_inv_db"
proof -
  note c = control_requests_are_events [of example_control_env example_control "[example_refresh, example_intruder]" "initial_runtime empty_inv_db" 1000]
  have "length (filter (\<lambda>x. entitled example_control (fst (snd x))) [example_refresh, example_intruder]) = 1"
    using example_entitled by (simp add: example_refresh_def example_intruder_def)
  moreover have "\<not> entitled example_control (fst (snd example_intruder))"
    using example_entitled(2) by (simp add: example_intruder_def)
  ultimately show ?thesis
    using c by (auto simp del: fold_simps)
qed

lemma example_code:
  "submitted_code (js '' { '' @ 34 # js ''code'' @ 34 # js '' : '' @ 34 # js ''123456'' @ 34 # js ''}'') = Some (js ''123456'')"
  "submitted_code (js ''{'' @ 34 # js ''code'' @ 34 # js '':123456}'') = None"
  by (simp_all add: submitted_code_def spaces_def expect_def starts_with_def is_space_def six_digits_def is_digit_def)

section \<open>A session shown as active\<close>

text \<open>
  A session read from the store is shown as verified exactly when it was active when last checked, the check is not in
  the future, not older than the renewal interval (when there is one), and the session has not expired.
\<close>

theorem verified_session_is_live:
  assumes "getSessionState env db = Inr s" "stamps_parse (so_zod env)"
  shows "sv_verifiedActive (getClalSessionStatus s now interval) \<longleftrightarrow> se_status s = SessionActive \<and>
    (\<exists>c e. se_lastCheckedAt s = Some c \<and> se_expiresAt s = Some e \<and> ms_of c \<le> now \<and> now < ms_of e \<and>
      (interval \<le> 0 \<or> now - ms_of c \<le> interval * 60000))"
proof -
  have "null_or (ze_datetime (so_zod env)) (se_lastCheckedAt s) \<and> null_or (ze_datetime (so_zod env)) (se_expiresAt s)"
    using assms(1) by (auto simp: getSessionState_def parse_session_state_def checked_by_def session_state_ok_def null_or_def
        split: option.splits if_splits)
  then have "stamp_is P (se_lastCheckedAt s) \<longleftrightarrow> (\<exists>c. se_lastCheckedAt s = Some c \<and> P (ms_of c))"
      "stamp_is P (se_expiresAt s) \<longleftrightarrow> (\<exists>e. se_expiresAt s = Some e \<and> P (ms_of e))" for P
    using assms(2) by (auto simp: stamp_is_def null_or_def stamps_parse_def ms_of_def split: option.splits)
  then show ?thesis
    by (auto simp: getClalSessionStatus_def Let_def)
qed

section \<open>The capabilities of a provider\<close>

record capability_config =
  cc_enabled :: bool
  cc_readToken :: jsstr
  cc_controlToken :: jsstr
  cc_id :: jsstr
  cc_phone :: jsstr

text \<open>A reference that does not resolve is logged and leaves the capability off.\<close>

definition resolved :: "(jsstr \<Rightarrow> jsstr res) \<Rightarrow> jsstr \<Rightarrow> jsstr option" where
  "resolved resolve reference = (case resolve reference of Inl e \<Rightarrow> None | Inr t \<Rightarrow> Some t)"

definition readCapability :: "capability_config \<Rightarrow> (jsstr \<Rightarrow> jsstr res) \<Rightarrow> jsstr option" where
  "readCapability cfg resolve = (if cc_readToken cfg = [] then None else resolved resolve (cc_readToken cfg))"

definition controlCapability :: "capability_config \<Rightarrow> (jsstr \<Rightarrow> jsstr res) \<Rightarrow> jsstr option" where
  "controlCapability cfg resolve =
     (if cc_controlToken cfg \<noteq> [] \<and> (cc_readToken cfg = [] \<or> default (readCapability cfg resolve) [] \<noteq> [])
      then resolved resolve (cc_controlToken cfg) else None)"

definition manualVerificationAvailable :: "capability_config \<Rightarrow> (jsstr \<Rightarrow> jsstr res) \<Rightarrow> bool \<Rightarrow> bool \<Rightarrow> bool" where
  "manualVerificationAvailable cfg resolve store collector \<longleftrightarrow>
     cc_enabled cfg \<and> store \<and> collector \<and> cc_id cfg \<noteq> [] \<and> cc_phone cfg \<noteq> [] \<and> capable (controlCapability cfg resolve) \<and>
     controlCapability cfg resolve \<noteq> readCapability cfg resolve"

text \<open>
  A read secret that is configured but does not resolve closes the control routes, and manual verification is offered
  only behind open control routes, as long as SHA-256 tells the two tokens apart.
\<close>

theorem control_is_independent:
  assumes "co_controlToken opts = controlCapability cfg resolve" "co_readToken opts = readCapability cfg resolve"
  shows "cc_readToken cfg \<noteq> [] \<Longrightarrow> resolved resolve (cc_readToken cfg) = None \<Longrightarrow> \<not> control_configured opts"
    and "manualVerificationAvailable cfg resolve store collector \<Longrightarrow>
      digest (co_sha opts) (co_controlToken opts) \<noteq> digest (co_sha opts) (co_readToken opts) \<Longrightarrow> control_configured opts"
  using assms by (auto simp: control_configured_def controlCapability_def readCapability_def capable_def manualVerificationAvailable_def)

end
