(* ===== verification/InvReceiver.thy ===== *)
theory InvReceiver
  imports InvRoutes InvPortfolio
begin

text \<open>
  The client of the local receiver of one-time codes, \<^verbatim>\<open>src/investments/otp.ts\<close>: one request over its socket as a fold
  over what the socket reports, the readiness check, arming a lease, and the loop that waits for the code. The socket,
  the clock and the abort signals are inputs; a function is cut at its awaits.
\<close>

datatype receiver_error = ReceiverTimeout | ReceiverOtpRequired | ReceiverInvalid

type_synonym 'a received = "receiver_error + 'a"

record receiver_response =
  rv_status :: nat
  rv_body :: jsstr
  rv_contentType :: jsstr

section \<open>One request\<close>

definition maximumBodyBytes :: nat where "maximumBodyBytes = 4096"
definition maximumLeaseMilliseconds :: int where "maximumLeaseMilliseconds = 180000"

text \<open>What the socket and the timer report. \<open>RequestFails True\<close>: the signal was aborted by then.\<close>

datatype socket_event =
    TimerElapses
  | RequestFails bool
  | BodyChunk "nat list"
  | ResponseBreaks
  | ResponseEnds "nat option" "jsstr option"

record exchange =
  ex_chunks :: "nat list list"
  ex_bytes :: nat
  ex_settled :: "receiver_response received option"

definition finish_exchange :: "receiver_response received \<Rightarrow> exchange \<Rightarrow> exchange" where
  "finish_exchange r x = (if ex_settled x = None then x\<lparr>ex_settled := Some r\<rparr> else x)"

fun socket_step :: "(nat list \<Rightarrow> jsstr) \<Rightarrow> socket_event \<Rightarrow> exchange \<Rightarrow> exchange" where
  "socket_step decode TimerElapses x = finish_exchange (Inl ReceiverTimeout) x"
| "socket_step decode (RequestFails aborted) x = finish_exchange (Inl (if aborted then ReceiverTimeout else ReceiverOtpRequired)) x"
| "socket_step decode (BodyChunk chunk) x =
     (let bytes = ex_bytes x + length chunk; y = x\<lparr>ex_bytes := bytes\<rparr> in
      if maximumBodyBytes < bytes then finish_exchange (Inl ReceiverInvalid) y else y\<lparr>ex_chunks := ex_chunks y @ [chunk]\<rparr>)"
| "socket_step decode ResponseBreaks x = finish_exchange (Inl ReceiverOtpRequired) x"
| "socket_step decode (ResponseEnds status contentType) x =
     finish_exchange (Inr \<lparr>rv_status = default status 0, rv_body = decode (concat (ex_chunks x)), rv_contentType = default contentType []\<rparr>) x"

text \<open>\<open>None\<close>: the promise is still pending.\<close>

definition receiverRequest :: "(nat list \<Rightarrow> jsstr) \<Rightarrow> bool \<Rightarrow> socket_event list \<Rightarrow> receiver_response received option" where
  "receiverRequest decode aborted evs =
     (if aborted then Some (Inl ReceiverTimeout)
      else ex_settled (fold (socket_step decode) evs \<lparr>ex_chunks = [], ex_bytes = 0, ex_settled = None\<rparr>))"

section \<open>Reading an answer\<close>

text \<open>\<^verbatim>\<open>/^application\/json(?:\s*;|$)/i\<close>.\<close>

definition json_content :: "jsstr \<Rightarrow> bool" where
  "json_content s \<longleftrightarrow>
     (let p = js ''application/json''; rest = drop (length p) s in
      map ascii_lower (take (length p) s) = p \<and> (rest = [] \<or> starts_with (spaces rest) [59]))"

definition objectResponse :: "receiver_response \<Rightarrow> nat \<Rightarrow> jsstr list \<Rightarrow> fields received" where
  "objectResponse r expectedStatus keys =
     (if rv_status r \<noteq> expectedStatus then Inl (if rv_status r \<in> {404, 409, 410, 503} then ReceiverOtpRequired else ReceiverInvalid)
      else if \<not> json_content (rv_contentType r) then Inl ReceiverInvalid
      else case json_parse (rv_body r) of
        Some (JObj ps) \<Rightarrow> if length ps \<noteq> length keys \<or> list_ex (\<lambda>k. k \<notin> fst ` set ps) keys then Inl ReceiverInvalid else Inr ps
      | _ \<Rightarrow> Inl ReceiverInvalid)"

text \<open>\<^verbatim>\<open>/^\d{4}-\d{2}-\d{2}T\d{2}:\d{2}:\d{2}(?:\.\d{1,9})?Z$/\<close>.\<close>

definition stamp_shape :: "jsstr \<Rightarrow> bool" where
  "stamp_shape s \<longleftrightarrow> 20 \<le> length s \<and>
     (\<forall>i\<in>{0..<19}. if i = 4 \<or> i = 7 then s ! i = 45 else if i = 10 then s ! i = 84 else if i = 13 \<or> i = 16 then s ! i = 58 else is_digit (s ! i)) \<and>
     last s = 90 \<and> (let f = butlast (drop 19 s) in f = [] \<or> hd f = 46 \<and> 2 \<le> length f \<and> length f \<le> 10 \<and> list_all is_digit (tl f))"

definition receiver_stamp :: "jsval \<Rightarrow> int received" where
  "receiver_stamp v =
     (case v of
        JStr s \<Rightarrow>
          if \<not> stamp_shape s then Inl ReceiverInvalid
          else (case parse_stamp s of
            None \<Rightarrow> Inl ReceiverInvalid
          | Some t \<Rightarrow> if take 19 (iso_of_time t) = take 19 s then Inr t else Inl ReceiverInvalid)
      | _ \<Rightarrow> Inl ReceiverInvalid)"

section \<open>Readiness\<close>

definition receiverStates :: "(jsstr \<times> otp_reason) list" where
  "receiverStates = [(js ''ready'', ReceiverReady), (js ''connecting'', ReceiverConnecting), (js ''disconnected'', ReceiverDisconnected),
     (js ''inactive'', ReceiverInactive), (js ''phone_unavailable'', PhoneUnavailable), (js ''phone_syncing'', PhoneSyncing),
     (js ''reauth_required'', ReauthRequired)]"

definition receiver_state :: "jsval \<Rightarrow> otp_reason" where
  "receiver_state v = (case v of JStr s \<Rightarrow> default (map_of receiverStates s) ReceiverUnavailable | _ \<Rightarrow> ReceiverUnavailable)"

text \<open>\<open>path.isAbsolute\<close>, and no zero unit.\<close>

definition usable_socket :: "jsstr \<Rightarrow> bool" where
  "usable_socket p \<longleftrightarrow> p \<noteq> [] \<and> hd p = 47 \<and> 0 \<notin> set p"

definition readGoogleMessagesHealth :: "jsstr \<Rightarrow> receiver_response received \<Rightarrow> bool \<times> otp_reason" where
  "readGoogleMessagesHealth socketPath response =
     (if \<not> usable_socket socketPath then (False, ReceiverUnavailable)
      else case (case response of Inl e \<Rightarrow> Inl e | Inr r \<Rightarrow> objectResponse r 200 [js ''online'', js ''state'']) of
        Inl e \<Rightarrow> (False, ReceiverUnavailable)
      | Inr value \<Rightarrow>
          let reason = receiver_state (field value ''state''); ready = (field value ''online'' = JBool True \<and> reason = ReceiverReady) in
          (ready, if \<not> ready \<and> reason = ReceiverReady then ReceiverUnavailable else reason))"

section \<open>A lease\<close>

text \<open>\<^verbatim>\<open>/^[\w-]{20,128}$/\<close>.\<close>

definition request_id_shape :: "jsstr \<Rightarrow> bool" where
  "request_id_shape s \<longleftrightarrow> 20 \<le> length s \<and> length s \<le> 128 \<and> list_all (\<lambda>c. is_word c \<or> c = 45) s"

record lease =
  le_requestId :: jsstr
  le_expiresAt :: int
  le_canceled :: bool
  le_reading :: bool
  le_deletes :: nat

definition lease_times :: "fields \<Rightarrow> int \<Rightarrow> int \<Rightarrow> bool \<Rightarrow> int received" where
  "lease_times response startedAt now aborted =
     (case (receiver_stamp (field response ''armedAt''), receiver_stamp (field response ''expiresAt'')) of
        (Inr armedAt, Inr expiresAt) \<Rightarrow>
          if armedAt < startedAt - 1000 \<or> now + 1000 < armedAt \<or> expiresAt \<le> now \<or> expiresAt \<le> armedAt \<or>
            maximumLeaseMilliseconds < expiresAt - armedAt then Inl ReceiverInvalid
          else if aborted then Inl ReceiverTimeout
          else Inr expiresAt
      | _ \<Rightarrow> Inl ReceiverInvalid)"

text \<open>
  \<open>prepare\<close>, from the answer to its request on: an armed lease, or the error and the lease whose release was sent to
  the receiver, if there was one.
\<close>

definition prepare_lease :: "int \<Rightarrow> receiver_response received \<Rightarrow> int \<Rightarrow> bool \<Rightarrow> lease received \<times> jsstr option" where
  "prepare_lease startedAt response now aborted =
     (case (case response of Inl e \<Rightarrow> Inl e | Inr r \<Rightarrow> objectResponse r 201 [js ''requestId'', js ''armedAt'', js ''expiresAt'']) of
        Inl e \<Rightarrow> (Inl e, None)
      | Inr value \<Rightarrow>
          (case field value ''requestId'' of
             JStr requestId \<Rightarrow>
               if \<not> request_id_shape requestId then (Inl ReceiverInvalid, None)
               else (case lease_times value startedAt now aborted of
                 Inl e \<Rightarrow> (Inl e, Some requestId)
               | Inr expiresAt \<Rightarrow> (Inr \<lparr>le_requestId = requestId, le_expiresAt = expiresAt, le_canceled = False, le_reading = False, le_deletes = 0\<rparr>, None))
           | _ \<Rightarrow> (Inl ReceiverInvalid, None)))"

definition cancel_lease :: "lease \<Rightarrow> lease" where
  "cancel_lease l = (if le_canceled l then l else l\<lparr>le_canceled := True, le_deletes := le_deletes l + 1\<rparr>)"

section \<open>Waiting for the code\<close>

text \<open>
  One turn of the loop: the clock and the signals before the request, its answer, the clock and the signals after it,
  and whether the pause was interrupted.
\<close>

record poll =
  po_before :: int
  po_abortedBefore :: bool
  po_response :: "receiver_response received"
  po_after :: int
  po_abortedAfter :: bool
  po_interrupted :: bool

datatype read_outcome = ReadCode jsstr | ReadFailed receiver_error | ReadPending

definition read_answer :: "lease \<Rightarrow> receiver_response \<Rightarrow> read_outcome" where
  "read_answer l r =
     (case objectResponse r 200 [js ''requestId'', js ''code'', js ''expiresAt''] of
        Inl e \<Rightarrow> ReadFailed e
      | Inr value \<Rightarrow>
          if field value ''requestId'' \<noteq> JStr (le_requestId l) then ReadFailed ReceiverInvalid
          else (case receiver_stamp (field value ''expiresAt'') of
            Inl e \<Rightarrow> ReadFailed e
          | Inr t \<Rightarrow>
              (case field value ''code'' of
                 JStr code \<Rightarrow> if t = le_expiresAt l \<and> six_digits code then ReadCode code else ReadFailed ReceiverInvalid
               | _ \<Rightarrow> ReadFailed ReceiverInvalid)))"

text \<open>\<open>None\<close>: the answer was that there is no code yet, and the loop goes on after the pause.\<close>

definition poll_outcome :: "lease \<Rightarrow> poll \<Rightarrow> read_outcome option" where
  "poll_outcome l p =
     (if po_abortedBefore p \<or> le_expiresAt l \<le> po_before p then Some (ReadFailed ReceiverTimeout)
      else case po_response p of
        Inl e \<Rightarrow> Some (ReadFailed e)
      | Inr r \<Rightarrow>
          if po_abortedAfter p \<or> le_expiresAt l \<le> po_after p then Some (ReadFailed ReceiverTimeout)
          else if rv_status r = 202 then (if po_interrupted p then Some (ReadFailed ReceiverTimeout) else None)
          else Some (read_answer l r))"

fun read_loop :: "lease \<Rightarrow> poll list \<Rightarrow> read_outcome \<times> nat" where
  "read_loop l [] = (ReadPending, 0)"
| "read_loop l (p # ps) =
     (case poll_outcome l p of
        Some r \<Rightarrow> (r, 1)
      | None \<Rightarrow> (case read_loop l ps of (r, n) \<Rightarrow> (r, Suc n)))"

definition read_lease :: "lease \<Rightarrow> poll list \<Rightarrow> (read_outcome \<times> nat) \<times> lease" where
  "read_lease l ps =
     (if le_reading l \<or> le_canceled l then ((ReadFailed ReceiverOtpRequired, 0), l)
      else (read_loop l ps, l\<lparr>le_reading := True\<rparr>))"

definition poll_pause :: "lease \<Rightarrow> poll \<Rightarrow> int" where
  "poll_pause l p = min 1000 (le_expiresAt l - po_after p)"

definition poll_limit :: "lease \<Rightarrow> poll \<Rightarrow> int" where
  "poll_limit l p = min 25000 (le_expiresAt l - po_before p)"

text \<open>What a login does with its lease.\<close>

datatype lease_op = ReadOp "poll list" | CancelOp

fun lease_run :: "lease_op list \<Rightarrow> lease \<Rightarrow> (read_outcome \<times> nat) list \<times> lease" where
  "lease_run [] l = ([], l)"
| "lease_run (ReadOp ps # ops) l =
     (case read_lease l ps of (r, l') \<Rightarrow> case lease_run ops l' of (rs, l'') \<Rightarrow> (r # rs, l''))"
| "lease_run (CancelOp # ops) l = lease_run ops (cancel_lease l)"

section \<open>What a lease gives\<close>

text \<open>The clock does not go back, and a pause lasts as long as it was asked to.\<close>

fun paced :: "lease \<Rightarrow> int \<Rightarrow> poll list \<Rightarrow> bool" where
  "paced l b [] \<longleftrightarrow> True"
| "paced l b (p # ps) \<longleftrightarrow> b \<le> po_before p \<and> po_before p \<le> po_after p \<and> paced l (po_after p + poll_pause l p) ps"

lemma read_turns:
  assumes "paced l b ps" "le_expiresAt l - b \<le> 1000 * int k"
  shows "snd (read_loop l ps) \<le> Suc k \<and> (Suc k \<le> length ps \<longrightarrow> fst (read_loop l ps) \<noteq> ReadPending)"
  using assms
proof (induction ps arbitrary: b k)
  case (Cons p ps)
  show ?case
  proof (cases "poll_outcome l p")
    case None
    then have live: "po_before p < le_expiresAt l" "po_after p < le_expiresAt l"
      by (auto simp: poll_outcome_def split: if_splits sum.splits)
    with Cons.prems obtain j where k: "k = Suc j"
      by (cases k) auto
    have "le_expiresAt l - (po_after p + poll_pause l p) \<le> 1000 * int j"
      using Cons.prems live k by (simp add: poll_pause_def min_def)
    from Cons.IH [OF _ this] Cons.prems(1) show ?thesis
      using None k by (cases "read_loop l ps") simp
  next
    case (Some r)
    then have "r \<noteq> ReadPending"
      by (auto simp: poll_outcome_def read_answer_def split: if_splits sum.splits jsval.splits)
    then show ?thesis using Some by simp
  qed
qed simp

lemma read_code:
  assumes "read_loop l ps = (ReadCode code, n)"
  shows "six_digits code \<and> (\<exists>p\<in>set ps. \<exists>r. po_response p = Inr r \<and> rv_status r = 200 \<and> po_after p < le_expiresAt l \<and> \<not> po_abortedAfter p)"
  using assms
proof (induction ps arbitrary: n)
  case (Cons p ps)
  show ?case
  proof (cases "poll_outcome l p")
    case None
    then obtain m where "read_loop l ps = (ReadCode code, m)"
      using Cons.prems by (auto split: prod.splits)
    with Cons.IH show ?thesis by fastforce
  next
    case (Some x)
    with Cons.prems have "poll_outcome l p = Some (ReadCode code)" by simp
    then obtain r where r: "po_response p = Inr r" "po_after p < le_expiresAt l" "\<not> po_abortedAfter p" "read_answer l r = ReadCode code"
      by (auto simp: poll_outcome_def split: if_splits sum.splits)
    then have "rv_status r = 200" "six_digits code"
      by (auto simp: read_answer_def objectResponse_def split: if_splits sum.splits jsval.splits option.splits)
    with r show ?thesis by auto
  qed
qed simp

lemma lease_length:
  assumes "prepare_lease startedAt response now aborted = (Inr l, released)"
  shows "now < le_expiresAt l" "le_expiresAt l - now \<le> 181000" "\<not> le_reading l" "\<not> le_canceled l" "le_deletes l = 0"
  using assms by (auto simp: prepare_lease_def lease_times_def maximumLeaseMilliseconds_def split: sum.splits jsval.splits if_splits)

definition codes_of :: "(read_outcome \<times> nat) list \<Rightarrow> jsstr list" where
  "codes_of rs = List.map_filter (\<lambda>r. case fst r of ReadCode c \<Rightarrow> Some c | _ \<Rightarrow> None) rs"

lemma codes_simps [simp]:
  "codes_of [] = []"
  "codes_of ((ReadCode c, n) # rs) = c # codes_of rs"
  "codes_of ((ReadFailed e, n) # rs) = codes_of rs"
  "codes_of ((ReadPending, n) # rs) = codes_of rs"
  by (simp_all add: codes_of_def List.map_filter_simps)

text \<open>After the first read or the cancellation nothing more is read.\<close>

lemma spent_lease:
  assumes "le_reading l \<or> le_canceled l"
  shows "codes_of (fst (lease_run ops l)) = [] \<and> (\<forall>r\<in>set (fst (lease_run ops l)). snd r = 0)"
  using assms
proof (induction ops arbitrary: l)
  case (Cons op ops)
  then show ?case
  proof (cases op)
    case (ReadOp ps)
    have "read_lease l ps = ((ReadFailed ReceiverOtpRequired, 0), l)"
      using Cons.prems by (auto simp: read_lease_def)
    with Cons.IH [OF Cons.prems] ReadOp show ?thesis
      by (auto split: prod.split)
  next
    case CancelOp
    have "le_canceled (cancel_lease l)" by (simp add: cancel_lease_def)
    with Cons.IH [of "cancel_lease l"] CancelOp show ?thesis by auto
  qed
qed simp

lemma lease_deletes: "le_deletes (snd (lease_run ops l)) \<le> le_deletes l + (if le_canceled l then 0 else 1)"
proof (induction ops arbitrary: l)
  case (Cons op ops)
  then show ?case
  proof (cases op)
    case (ReadOp ps)
    have same: "le_deletes (snd (read_lease l ps)) = le_deletes l" "le_canceled (snd (read_lease l ps)) = le_canceled l"
      by (simp_all add: read_lease_def)
    show ?thesis
      using Cons.IH [of "snd (read_lease l ps)", unfolded same] ReadOp
      by (cases "read_lease l ps"; cases "lease_run ops (snd (read_lease l ps))") (simp split: if_splits)
  next
    case CancelOp
    then show ?thesis
      using Cons.IH [of "cancel_lease l"] by (auto simp: cancel_lease_def split: if_splits)
  qed
qed simp

lemma lease_reads:
  assumes "\<not> le_reading l" "\<And>ps. ReadOp ps \<in> set ops \<Longrightarrow> snd (read_loop l ps) \<le> n"
  shows "length (codes_of (fst (lease_run ops l))) \<le> 1 \<and> list_all six_digits (codes_of (fst (lease_run ops l))) \<and>
    (\<forall>r\<in>set (fst (lease_run ops l)). snd r \<le> n)"
proof (cases "le_canceled l")
  case True
  then show ?thesis using spent_lease [of l ops] by simp
next
  case False
  show ?thesis
  proof (cases ops)
    case (Cons op rest)
    show ?thesis
    proof (cases op)
      case (ReadOp ps)
      obtain x k where x: "read_loop l ps = (x, k)" by (cases "read_loop l ps")
      have k: "k \<le> n" using assms(2) [of ps] x by (simp add: Cons ReadOp)
      let ?l = "l\<lparr>le_reading := True\<rparr>"
      obtain rs l' where rs: "lease_run rest ?l = (rs, l')" by (cases "lease_run rest ?l")
      have "codes_of rs = []" "\<forall>r\<in>set rs. snd r = 0"
        using spent_lease [of ?l rest] rs by simp_all
      moreover have "lease_run ops l = ((x, k) # rs, l')"
        using assms(1) False x rs by (simp add: Cons ReadOp read_lease_def)
      ultimately show ?thesis
        using k read_code [of l ps] x by (cases x) auto
    next
      case CancelOp
      have "le_canceled (cancel_lease l)" by (simp add: cancel_lease_def)
      with spent_lease [of "cancel_lease l" rest] show ?thesis
        by (simp add: Cons CancelOp)
    qed
  qed simp
qed

text \<open>
  C38: a lease of the receiver gives one code and ends. Whatever a login does with an armed lease, it gets at most one
  code, of six digits, the lease is released at most once, and each wait takes at most 182 turns when the clock does
  not go back; a wait that was given that many has an outcome.
\<close>

theorem receiver_lease_ends:
  assumes "prepare_lease startedAt response now aborted = (Inr l, released)"
    and "\<forall>ps. ReadOp ps \<in> set ops \<longrightarrow> paced l now ps"
  shows "length (codes_of (fst (lease_run ops l))) \<le> 1 \<and> list_all six_digits (codes_of (fst (lease_run ops l))) \<and>
    le_deletes (snd (lease_run ops l)) \<le> 1 \<and> (\<forall>r\<in>set (fst (lease_run ops l)). snd r \<le> 182) \<and>
    (\<forall>ps. paced l now ps \<and> 182 \<le> length ps \<longrightarrow> fst (read_loop l ps) \<noteq> ReadPending)"
proof -
  have turns: "snd (read_loop l ps) \<le> 182 \<and> (182 \<le> length ps \<longrightarrow> fst (read_loop l ps) \<noteq> ReadPending)" if "paced l now ps" for ps
    using read_turns [OF that, of 181] lease_length(2) [OF assms(1)] by simp
  have "length (codes_of (fst (lease_run ops l))) \<le> 1 \<and> list_all six_digits (codes_of (fst (lease_run ops l))) \<and>
      (\<forall>r\<in>set (fst (lease_run ops l)). snd r \<le> 182)"
    by (rule lease_reads [OF lease_length(3) [OF assms(1)]]) (use assms(2) turns in blast)
  moreover have "le_deletes (snd (lease_run ops l)) \<le> 1"
    using lease_deletes [of ops l] lease_length(4,5) [OF assms(1)] by simp
  ultimately show ?thesis
    using turns by blast
qed

text \<open>A lease of three minutes, and a code that arrives with the second request.\<close>

definition quoted_text :: "string \<Rightarrow> jsstr" where
  "quoted_text s = 34 # js s @ [34]"

definition example_json :: "(string \<times> string) list \<Rightarrow> jsstr" where
  "example_json ps = 123 # join_with [44] (map (\<lambda>(k, v). quoted_text k @ 58 # quoted_text v) ps) @ [125]"

definition example_answer :: "nat \<Rightarrow> (string \<times> string) list \<Rightarrow> receiver_response" where
  "example_answer status ps = \<lparr>rv_status = status, rv_body = example_json ps, rv_contentType = js ''application/json''\<rparr>"

definition armed_answer :: receiver_response where
  "armed_answer = example_answer 201 [(''requestId'', ''abcdefghijklmnopqrst''), (''armedAt'', ''2024-07-10T08:00:00Z''), (''expiresAt'', ''2024-07-10T08:03:00Z'')]"

definition code_answer :: receiver_response where
  "code_answer = example_answer 200 [(''requestId'', ''abcdefghijklmnopqrst''), (''code'', ''123456''), (''expiresAt'', ''2024-07-10T08:03:00Z'')]"

definition example_lease :: lease where
  "example_lease = \<lparr>le_requestId = js ''abcdefghijklmnopqrst'', le_expiresAt = 1720598580000, le_canceled = False, le_reading = False, le_deletes = 0\<rparr>"

definition example_polls :: "poll list" where
  "example_polls = [\<lparr>po_before = 1720598400000, po_abortedBefore = False, po_response = Inr (example_answer 202 []), po_after = 1720598425000,
       po_abortedAfter = False, po_interrupted = False\<rparr>,
     \<lparr>po_before = 1720598426000, po_abortedBefore = False, po_response = Inr code_answer, po_after = 1720598430000,
       po_abortedAfter = False, po_interrupted = False\<rparr>]"

lemma example_object:
  assumes "json_value number_value n (example_json ps) = Some (JObj qs, [])" "n \<le> 12"
    and "length qs = length keys" "\<forall>k\<in>set keys. k \<in> fst ` set qs" "12 \<le> json_fuel (example_json ps)"
  shows "objectResponse (example_answer status ps) status keys = Inr qs"
proof -
  have "json_parse (example_json ps) = Some (JObj qs)"
    using json_value_fuel [OF _ assms(1)] assms(2,5) by (simp add: json_parse_def json_parse_with_def skip_def)
  moreover have "json_content (js ''application/json'')"
    by (simp add: json_content_def Let_def ascii_lower_def is_upper_def)
  ultimately show ?thesis
    using assms(3,4) by (auto simp: objectResponse_def example_answer_def list_ex_iff)
qed

lemma receiver_stamps:
  "receiver_stamp (JStr (js ''2024-07-10T08:00:00Z'')) = Inr 1720598400000"
  "receiver_stamp (JStr (js ''2024-07-10T08:03:00Z'')) = Inr 1720598580000"
  by code_simp+

lemma armed_object:
  "objectResponse armed_answer 201 [js ''requestId'', js ''armedAt'', js ''expiresAt''] =
     Inr [(js ''requestId'', JStr (js ''abcdefghijklmnopqrst'')), (js ''armedAt'', JStr (js ''2024-07-10T08:00:00Z'')),
       (js ''expiresAt'', JStr (js ''2024-07-10T08:03:00Z''))]"
  unfolding armed_answer_def
  by (rule example_object [of "Suc (Suc (Suc (Suc (Suc 0))))"])
    (simp_all add: example_json_def quoted_text_def json_value.simps(2) json_members.simps(2) skip_def json_space_def push_def
      object_entries_def enumeration_order_def index_key_def is_digit_def json_fuel_def)

lemma code_object:
  "objectResponse code_answer 200 [js ''requestId'', js ''code'', js ''expiresAt''] =
     Inr [(js ''requestId'', JStr (js ''abcdefghijklmnopqrst'')), (js ''code'', JStr (js ''123456'')),
       (js ''expiresAt'', JStr (js ''2024-07-10T08:03:00Z''))]"
  unfolding code_answer_def
  by (rule example_object [of "Suc (Suc (Suc (Suc (Suc 0))))"])
    (simp_all add: example_json_def quoted_text_def json_value.simps(2) json_members.simps(2) skip_def json_space_def push_def
      object_entries_def enumeration_order_def index_key_def is_digit_def json_fuel_def)

lemma example_prepared: "prepare_lease 1720598400000 (Inr armed_answer) 1720598400000 False = (Inr example_lease, None)"
  by (simp add: prepare_lease_def armed_object [simplified] field_def js_prop_def lease_times_def receiver_stamps [simplified] maximumLeaseMilliseconds_def
      request_id_shape_def is_word_def is_digit_def is_lower_def is_upper_def example_lease_def)

lemma receiver_code_read: "read_loop example_lease example_polls = (ReadCode (js ''123456''), 2)"
proof -
  have "read_answer example_lease code_answer = ReadCode (js ''123456'')"
    by (simp add: read_answer_def code_object [simplified] field_def js_prop_def receiver_stamps [simplified] example_lease_def six_digits_def is_digit_def)
  then show ?thesis
    by (simp add: example_polls_def poll_outcome_def example_lease_def [THEN arg_cong [where f = le_expiresAt]] example_answer_def [of 202]
        code_answer_def [THEN arg_cong [where f = rv_status]] example_answer_def [of 200, THEN arg_cong [where f = rv_status]])
qed

lemma example_paced: "paced example_lease 1720598400000 example_polls"
  by (simp add: example_polls_def example_lease_def poll_pause_def)

theorem receiver_lease_ends_witness:
  "codes_of (fst (lease_run [ReadOp example_polls, CancelOp] example_lease)) = [js ''123456''] \<and>
   length (codes_of (fst (lease_run [ReadOp example_polls, CancelOp] example_lease))) \<le> 1 \<and>
   le_deletes (snd (lease_run [ReadOp example_polls, CancelOp] example_lease)) \<le> 1"
proof -
  have "\<forall>ps. ReadOp ps \<in> set [ReadOp example_polls, CancelOp] \<longrightarrow> paced example_lease 1720598400000 ps"
    by (simp add: example_paced)
  from receiver_lease_ends [OF example_prepared this] show ?thesis
    by (simp add: read_lease_def receiver_code_read example_lease_def [THEN arg_cong [where f = le_reading]]
        example_lease_def [THEN arg_cong [where f = le_canceled]])
qed

end
