(* ===== verification/InvCollectors.thy ===== *)
theory InvCollectors
  imports InvHistory InvReceiver BestJson
begin

text \<open>
  The collectors: \<^verbatim>\<open>src/investments/collector.ts\<close> for Clal and \<^verbatim>\<open>src/investments/best-invest/collector.ts\<close>, with the
  owned browser session of both portals (\<^verbatim>\<open>withClalBrowser\<close>, \<^verbatim>\<open>withBestInvestBrowser\<close>). What the page answers to each
  awaited call is an input; what is done to the store, and what the login does in which order, is the model.
\<close>

section \<open>Thrown errors and the browser session\<close>

text \<open>An error with a code of the provider, one named \<^verbatim>\<open>TimeoutError\<close>, and any other.\<close>

datatype thrown = Coded inv_error | TimedOut | OtherThrown

type_synonym 'a attempt = "thrown + 'a"

definition code_or :: "inv_error \<Rightarrow> thrown \<Rightarrow> inv_error" where
  "code_or c e = (case e of Coded x \<Rightarrow> x | _ \<Rightarrow> c)"

datatype acquisition = Acquired | ProfileInUse | AcquireFails

record browser_run =
  br_acquire :: acquisition
  br_launch :: "thrown option"
  br_after :: "thrown option"
  br_aborted :: bool
  br_releaseFails :: bool

datatype 'a browser_result = Busy | Failed inv_error | Finished 'a

definition unless_thrown :: "thrown option \<Rightarrow> 'a attempt \<Rightarrow> 'a attempt" where
  "unless_thrown e r = (case r of Inl x \<Rightarrow> Inl x | Inr v \<Rightarrow> (case e of None \<Rightarrow> Inr v | Some x \<Rightarrow> Inl x))"

text \<open>An aborted session is a timeout, whatever was thrown; a profile that cannot be released fails the session.\<close>

definition session_result :: "browser_run \<Rightarrow> 'a attempt \<Rightarrow> 'a browser_result" where
  "session_result run r =
     (if br_releaseFails run then Failed CollectionFailed
      else case r of
        Inr v \<Rightarrow> Finished v
      | Inl e \<Rightarrow> Failed (if br_aborted run \<or> e = TimedOut then InvTimeout else code_or CollectionFailed e))"

definition with_browser :: "browser_run \<Rightarrow> ('s \<Rightarrow> 'a attempt \<times> 's) \<Rightarrow> 's \<Rightarrow> 'a browser_result \<times> 's" where
  "with_browser run work s =
     (case br_acquire run of
        ProfileInUse \<Rightarrow> (Busy, s)
      | AcquireFails \<Rightarrow> (Failed CollectionFailed, s)
      | Acquired \<Rightarrow>
          (case (case br_launch run of Some e \<Rightarrow> (Inl e, s) | None \<Rightarrow> work s) of
             (r, s') \<Rightarrow> (session_result run (unless_thrown (br_after run) r), s')))"

record collect_input =
  ci_abortedBefore :: bool
  ci_attemptedAt :: int
  ci_run :: browser_run
  ci_abortedAfter :: bool

section \<open>Clal\<close>

record clal_page =
  pg_login :: "bool attempt"
  pg_snapshot :: "inv_snapshot attempt"
  pg_remaining :: "int attempt"
  pg_aborted :: bool
  pg_checkedAt :: int

definition changed_session :: "store_env \<Rightarrow> (session_state \<Rightarrow> session_state) \<Rightarrow> inv_db \<Rightarrow> inv_db res" where
  "changed_session env f db = bindE (getSessionState env db) (\<lambda>s. setSessionState env (f s) db)"

definition active_session :: "int \<Rightarrow> jsstr \<Rightarrow> session_state \<Rightarrow> session_state" where
  "active_session checkedAt expires s = s\<lparr>se_status := SessionActive, se_lastCheckedAt := Some (iso_of_time checkedAt),
     se_expiresAt := Some expires, se_errorCode := None\<rparr>"

definition lost_session :: "int \<Rightarrow> inv_error \<Rightarrow> session_state \<Rightarrow> session_state" where
  "lost_session checkedAt code s = s\<lparr>se_status := (if code = InvOtpRequired then SessionAuthRequired else SessionError),
     se_lastCheckedAt := Some (iso_of_time checkedAt), se_expiresAt := None, se_errorCode := Some code\<rparr>"

definition session_alive :: "store_env \<Rightarrow> clal_page \<Rightarrow> inv_db \<Rightarrow> inv_db res" where
  "session_alive env page db =
     (case pg_remaining page of
        Inl e \<Rightarrow> Inl (OtherError '''')
      | Inr seconds \<Rightarrow>
          if pg_aborted page then Inr db
          else bindE (to_iso_string (time_clip (pg_checkedAt page + seconds * 1000))) (\<lambda>expires.
            changed_session env (active_session (pg_checkedAt page) expires) db))"

definition remaining_code :: "clal_page \<Rightarrow> inv_error" where
  "remaining_code page = (case pg_remaining page of Inl e \<Rightarrow> code_or InvalidResponse e | Inr x \<Rightarrow> InvalidResponse)"

text \<open>The reading of the remaining lifetime and its \<^verbatim>\<open>catch\<close>; what the latter throws leaves the page.\<close>

definition note_session :: "store_env \<Rightarrow> clal_page \<Rightarrow> inv_db \<Rightarrow> inv_db res" where
  "note_session env page db =
     (case session_alive env page db of
        Inr db' \<Rightarrow> Inr db'
      | Inl e \<Rightarrow> if pg_aborted page then Inr db else changed_session env (lost_session (pg_checkedAt page) (remaining_code page)) db)"

definition clal_work :: "store_env \<Rightarrow> clal_page \<Rightarrow> inv_db \<Rightarrow> inv_snapshot attempt \<times> inv_db" where
  "clal_work env page db =
     (case pg_login page of
        Inl e \<Rightarrow> (Inl e, db)
      | Inr True \<Rightarrow> (Inl (Coded InvOtpRequired), db)
      | Inr False \<Rightarrow>
          (case pg_snapshot page of
             Inl e \<Rightarrow> (Inl e, db)
           | Inr s \<Rightarrow> (case note_session env page db of Inl e \<Rightarrow> (Inl OtherThrown, db) | Inr db' \<Rightarrow> (Inr s, db'))))"

section \<open>Applying and failing\<close>

definition failure_status :: "inv_error \<Rightarrow> source_status" where
  "failure_status code = (if code = InvOtpRequired then SourceAuthRequired else SourceError)"

definition failure_collected :: "inv_error \<Rightarrow> collection_status" where
  "failure_collected code = (if code = InvOtpRequired then ColAuthRequired else ColError)"

text \<open>What a collector does with a code; a store that throws rejects the collector.\<close>

definition record_failure :: "store_env \<Rightarrow> int \<Rightarrow> inv_error \<Rightarrow> inv_db \<Rightarrow> collect_outcome \<times> inv_db" where
  "record_failure env attemptedAt code db =
     (case recordFailure env (failure_status code) (iso_of_time attemptedAt) code db of
        Inl e \<Rightarrow> (CollectThrew, db)
      | Inr db' \<Rightarrow> (Collected (failure_collected code), db'))"

definition clal_failure :: "store_env \<Rightarrow> int \<Rightarrow> inv_error \<Rightarrow> inv_db \<Rightarrow> collect_outcome \<times> inv_db" where
  "clal_failure env attemptedAt code db =
     (if code = InvOtpRequired
      then (case changed_session env (lost_session attemptedAt code) db of
        Inl e \<Rightarrow> (CollectThrew, db)
      | Inr db' \<Rightarrow> record_failure env attemptedAt code db')
      else record_failure env attemptedAt code db)"

text \<open>The rest of a collector after its browser session, with the failure handler as an argument.\<close>

definition conclude :: "store_env \<Rightarrow> (inv_error \<Rightarrow> inv_db \<Rightarrow> collect_outcome \<times> inv_db) \<Rightarrow> bool \<Rightarrow> inv_snapshot browser_result \<times> inv_db
    \<Rightarrow> collect_outcome \<times> inv_db" where
  "conclude env failure aborted r =
     (case r of (result, db) \<Rightarrow>
        if aborted then (Collected ColError, db)
        else case result of
          Busy \<Rightarrow> (Collected ColSkipped, db)
        | Failed code \<Rightarrow> failure code db
        | Finished s \<Rightarrow>
            (case applySnapshot env s db of
               Inl e \<Rightarrow> failure InvalidResponse db
             | Inr (summary, db') \<Rightarrow> (Collected (if im_applied summary then ColOk else ColPartial), db')))"

definition clal_collect :: "store_env \<Rightarrow> collect_input \<Rightarrow> clal_page \<Rightarrow> inv_db \<Rightarrow> collect_outcome \<times> inv_db" where
  "clal_collect env inp page db =
     (if ci_abortedBefore inp then (Collected ColError, db)
      else conclude env (clal_failure env (ci_attemptedAt inp)) (ci_abortedAfter inp) (with_browser (ci_run inp) (clal_work env page) db))"

section \<open>Best Invest: requests and the snapshot\<close>

text \<open>An answer to one of the fixed read requests: the page is still on the portal, and what the evaluation returned.\<close>

record best_reply =
  bp_origin :: bool
  bp_result :: "(inv_error + jsstr) attempt"

definition requestBestInvest :: "best_reply \<Rightarrow> jsval attempt" where
  "requestBestInvest r =
     (if \<not> bp_origin r then Inl (Coded InvalidResponse)
      else case bp_result r of
        Inl e \<Rightarrow> Inl e
      | Inr (Inl code) \<Rightarrow> Inl (Coded code)
      | Inr (Inr t) \<Rightarrow> (case parseBestInvestJson t of Inl e \<Rightarrow> Inl (Coded InvalidResponse) | Inr v \<Rightarrow> Inr v))"

definition best_object :: "jsval \<Rightarrow> fields attempt" where
  "best_object v = (case v of JObj ps \<Rightarrow> Inr ps | _ \<Rightarrow> Inl (Coded InvalidResponse))"

definition best_identifier :: "jsval \<Rightarrow> jsstr attempt" where
  "best_identifier v =
     (case v of
        JNum n \<Rightarrow> if is_safe_integer n \<and> 0 \<le> n then Inr (num_to_string n) else Inl (Coded InvalidResponse)
      | JStr s \<Rightarrow> if s \<noteq> [] \<and> length s \<le> 30 \<and> list_all is_digit s then Inr s else Inl (Coded InvalidResponse)
      | _ \<Rightarrow> Inl (Coded InvalidResponse))"

definition bindT :: "'a attempt \<Rightarrow> ('a \<Rightarrow> 'b attempt) \<Rightarrow> 'b attempt" where
  "bindT m f = (case m of Inl e \<Rightarrow> Inl e | Inr x \<Rightarrow> f x)"

record best_requests =
  bq_details :: "jsstr \<Rightarrow> jsstr \<Rightarrow> best_reply"
  bq_deposits :: "jsstr \<Rightarrow> int \<Rightarrow> best_reply"
  bq_aborted :: "nat \<Rightarrow> bool"
  bq_abortedDeposits :: "nat \<Rightarrow> bool"
  bq_year :: int

text \<open>Deposits are ancillary, unless the login is gone or the session was aborted.\<close>

definition best_deposits :: "bool \<Rightarrow> jsval attempt \<Rightarrow> jsval attempt" where
  "best_deposits aborted r =
     (case r of
        Inr v \<Rightarrow> Inr v
      | Inl (Coded c) \<Rightarrow> if c = InvOtpRequired \<or> aborted then Inl (Coded c) else Inr JUndef
      | Inl e \<Rightarrow> Inl e)"

definition capture_policy :: "best_requests \<Rightarrow> nat \<Rightarrow> jsval \<Rightarrow> jsstr list \<Rightarrow> (captured_policy \<times> jsstr) attempt" where
  "capture_policy q i raw seen =
     (if bq_aborted q i then Inl OtherThrown
      else
      bindT (best_object raw) (\<lambda>policy.
      bindT (best_identifier (field policy ''PolicyNumber'')) (\<lambda>policyNumber.
      if policyNumber \<in> set seen then Inl (Coded InvalidResponse)
      else
      bindT (best_identifier (field policy ''TemplateId'')) (\<lambda>productId.
      bindT (bindT (requestBestInvest (bq_details q policyNumber productId)) best_object) (\<lambda>details.
      bindT (best_identifier (field details ''PolicyId'')) (\<lambda>policyId.
      if policyId \<noteq> policyNumber then Inl (Coded InvalidResponse)
      else
      bindT (best_deposits (bq_abortedDeposits q i) (requestBestInvest (bq_deposits q policyNumber (bq_year q)))) (\<lambda>deposits.
        Inr (\<lparr>cp_details = JObj details, cp_deposits = deposits, cp_depositsYear = JNum (of_int (bq_year q)),
              cp_expectedPolicyId = Some policyNumber\<rparr>, policyNumber))))))))"

fun capture_policies :: "best_requests \<Rightarrow> nat \<Rightarrow> jsval list \<Rightarrow> jsstr list \<Rightarrow> captured_policy list attempt" where
  "capture_policies q i [] seen = (if bq_aborted q i then Inl OtherThrown else Inr [])"
| "capture_policies q i (raw # raws) seen =
     bindT (capture_policy q i raw seen) (\<lambda>(p, n). bindT (capture_policies q (Suc i) raws (n # seen)) (\<lambda>ps. Inr (p # ps)))"

text \<open>The parser throws its own coded error; an error of a schema has no code.\<close>

definition parser_threw :: "js_error \<Rightarrow> thrown" where
  "parser_threw e = (if e = invalid_response then Coded InvalidResponse else OtherThrown)"

definition readBestInvestSnapshot :: "zod_env \<Rightarrow> best_requests \<Rightarrow> jsval \<Rightarrow> int \<Rightarrow> (inv_snapshot \<times> incomplete_reason list) attempt" where
  "readBestInvestSnapshot env q policyResponse observedAt =
     bindT (best_object policyResponse) (\<lambda>response.
     case field response ''Policies'' of
       JArr raws \<Rightarrow>
         if 200 < length raws \<or> field response ''IsSuccess'' = JBool False then Inl (Coded InvalidResponse)
         else
         bindT (capture_policies q 0 raws []) (\<lambda>policies.
           case buildBestInvestSnapshot env \<lparr>bi_observedAt = iso_of_time observedAt, bi_policies = policies, bi_inventoryComplete = True\<rparr> of
             Inl e \<Rightarrow> Inl (parser_threw e)
           | Inr r \<Rightarrow> Inr r)
     | _ \<Rightarrow> Inl (Coded InvalidResponse))"

section \<open>Best Invest: the login\<close>

text \<open>What the login does outside itself, in order, beside the store it may write to.\<close>

datatype login_action = ArmLease | ClickSend | EnterCode jsstr | ReleaseLease

type_synonym 'a login = "login_action list \<times> inv_db \<Rightarrow> 'a attempt \<times> login_action list \<times> inv_db"

definition await :: "'a attempt \<Rightarrow> 'a login" where
  "await r st = (r, st)"

definition bindL :: "'a login \<Rightarrow> ('a \<Rightarrow> 'b login) \<Rightarrow> 'b login" where
  "bindL m f st = (case m st of (Inl e, st') \<Rightarrow> (Inl e, st') | (Inr x, st') \<Rightarrow> f x st')"

definition act :: "login_action \<Rightarrow> unit login" where
  "act a st = (Inr (), fst st @ [a], snd st)"

definition check :: "thrown option \<Rightarrow> unit login" where
  "check e st = ((case e of None \<Rightarrow> Inr () | Some x \<Rightarrow> Inl x), st)"

definition require :: "bool \<Rightarrow> inv_error \<Rightarrow> unit login" where
  "require b code = check (if b then None else Some (Coded code))"

definition unless_aborted :: "bool \<Rightarrow> unit login" where
  "unless_aborted aborted = check (if aborted then Some OtherThrown else None)"

record best_credentials =
  bc_id :: "jsstr option"
  bc_phone :: "jsstr option"
  bc_email :: "jsstr option"

record best_login_input =
  bl_hasSource :: bool
  bl_hasRead :: bool
  bl_credentials :: "best_credentials option"
  bl_email :: bool
  bl_opened :: "thrown option"
  bl_checkbox :: bool
  bl_filled :: "thrown option"
  bl_prepared :: "unit attempt"
  bl_abortedPrepared :: bool
  bl_now :: int
  bl_before :: "thrown option"
  bl_abortedReserved :: bool
  bl_clicked :: "thrown option"
  bl_response :: "(nat \<times> jsstr) attempt"
  bl_form :: "thrown option"
  bl_code :: "jsstr attempt"
  bl_abortedCode :: bool
  bl_submitted :: "thrown option"
  bl_session :: "thrown option"
  bl_abortedEnd :: bool

definition nine_digits :: "jsstr \<Rightarrow> bool" where
  "nine_digits s \<longleftrightarrow> length s = 9 \<and> list_all is_digit s"

text \<open>\<^verbatim>\<open>/^0\d{8,9}$/\<close> and \<^verbatim>\<open>/^[^\s@]+@[^\s@][^\s.@]*\.[^\s@]+$/\<close>.\<close>

definition phone_shape :: "jsstr \<Rightarrow> bool" where
  "phone_shape s \<longleftrightarrow> length s \<in> {9, 10} \<and> hd s = 48 \<and> list_all is_digit s"

definition email_shape :: "jsstr \<Rightarrow> bool" where
  "email_shape s \<longleftrightarrow>
     (let user = takeWhile (\<lambda>c. c \<noteq> 64) s; host = drop (Suc (length user)) s; rest = dropWhile (\<lambda>c. c \<noteq> 46) (tl host) in
      user \<noteq> [] \<and> length user < length s \<and> host \<noteq> [] \<and> 64 \<notin> set host \<and> list_all (\<lambda>c. \<not> is_space c) (user @ host) \<and> 2 \<le> length rest)"

definition login_identity :: "bool \<Rightarrow> best_credentials \<Rightarrow> (jsstr \<times> jsstr) attempt" where
  "login_identity email c =
     (let i = default (bc_id c) []; destination = default (if email then bc_email c else bc_phone c) [] in
      if \<not> nine_digits i \<or> destination = [] \<or> \<not> (if email then email_shape destination else phone_shape destination)
      then Inl (Coded InvalidCredentials) else Inr (i, destination))"

text \<open>\<^verbatim>\<open>beforeOtpRequest\<close> of the collector: an automatic login spends the allowance of the store.\<close>

definition reserve_sms :: "store_env \<Rightarrow> bool \<Rightarrow> best_login_input \<Rightarrow> unit login" where
  "reserve_sms env automatic inp =
     bindL (if \<not> automatic then await (Inr ())
       else (\<lambda>(acts, db). case consumeAutomaticSmsAttempt env (iso_of_time (bl_now inp)) db of
           Inl e \<Rightarrow> (Inl OtherThrown, acts, db)
         | Inr (granted, db') \<Rightarrow> ((if granted then Inr () else Inl (Coded InvOtpRequired)), acts, db')))
       (\<lambda>_. check (bl_before inp))"

text \<open>The portal answers a sent code with one message and nothing else.\<close>

definition sent_message :: "jsstr \<Rightarrow> unit attempt" where
  "sent_message t =
     (case parseBestInvestJson t of
        Inl e \<Rightarrow> Inl (parser_threw e)
      | Inr v \<Rightarrow> bindT (best_object v) (\<lambda>sent.
          case field sent ''Message'' of
            JStr m \<Rightarrow> if length sent \<noteq> 1 \<or> js_trim m = [] \<or> 4096 < length m then Inl (Coded InvOtpRequired) else Inr ()
          | _ \<Rightarrow> Inl (Coded InvOtpRequired)))"

definition send_code :: "store_env \<Rightarrow> bool \<Rightarrow> best_login_input \<Rightarrow> unit login" where
  "send_code env automatic inp =
     bindL (unless_aborted (bl_abortedPrepared inp)) (\<lambda>_.
     bindL (reserve_sms env automatic inp) (\<lambda>_.
     bindL (unless_aborted (bl_abortedReserved inp)) (\<lambda>_.
     bindL (act ClickSend) (\<lambda>_.
     bindL (check (bl_clicked inp)) (\<lambda>_.
     bindL (await (bl_response inp)) (\<lambda>(status, t).
     bindL (require (status = 200) InvOtpRequired) (\<lambda>_. await (sent_message t))))))))"

definition enter_code :: "best_login_input \<Rightarrow> unit login" where
  "enter_code inp =
     bindL (check (bl_form inp)) (\<lambda>_.
     bindL (await (bl_code inp)) (\<lambda>code.
     bindL (require (six_digits code) InvOtpRequired) (\<lambda>_.
     bindL (unless_aborted (bl_abortedCode inp)) (\<lambda>_.
     bindL (act (EnterCode code)) (\<lambda>_.
     bindL (check (bl_submitted inp)) (\<lambda>_.
     bindL (check (bl_session inp)) (\<lambda>_. unless_aborted (bl_abortedEnd inp))))))))"

text \<open>\<^verbatim>\<open>try\<close> ... \<^verbatim>\<open>finally { await request?.cancel() }\<close>; a lease exists once \<^verbatim>\<open>prepare\<close> returned one.\<close>

definition released_after :: "bool \<Rightarrow> unit login \<Rightarrow> unit login" where
  "released_after lease m st = (case m st of (r, acts, db) \<Rightarrow> (r, acts @ (if lease then [ReleaseLease] else []), db))"

definition with_lease :: "store_env \<Rightarrow> bool \<Rightarrow> best_login_input \<Rightarrow> unit login" where
  "with_lease env automatic inp =
     (if bl_hasSource inp
      then bindL (await (bl_prepared inp)) (\<lambda>_. bindL (act ArmLease) (\<lambda>_.
        released_after True (bindL (send_code env automatic inp) (\<lambda>_. enter_code inp))))
      else bindL (send_code env automatic inp) (\<lambda>_. enter_code inp))"

definition loginBestInvest :: "store_env \<Rightarrow> bool \<Rightarrow> best_login_input \<Rightarrow> unit login" where
  "loginBestInvest env automatic inp =
     bindL (require (bl_hasSource inp \<or> bl_hasRead inp) InvOtpRequired) (\<lambda>_.
     bindL (await (case bl_credentials inp of None \<Rightarrow> Inl (Coded CredentialResolutionFailed) | Some c \<Rightarrow> login_identity (bl_email inp) c)) (\<lambda>_.
     bindL (check (bl_opened inp)) (\<lambda>_.
     bindL (require (\<not> bl_checkbox inp) InvOtpRequired) (\<lambda>_.
     bindL (check (bl_filled inp)) (\<lambda>_. with_lease env automatic inp)))))"

section \<open>Best Invest: the collector\<close>

text \<open>A collection with the code source the options give it; a manual verification always has one.\<close>

record best_options =
  bo_manual :: bool
  bo_readOtp :: bool
  bo_otpSource :: bool
  bo_socket :: bool

definition best_automatic :: "best_options \<Rightarrow> bool" where
  "best_automatic o' \<longleftrightarrow> bo_manual o' \<or> \<not> bo_readOtp o' \<and> (bo_otpSource o' \<or> bo_socket o')"

definition login_options :: "best_options \<Rightarrow> best_login_input \<Rightarrow> best_login_input" where
  "login_options o' inp = inp\<lparr>bl_hasRead := bo_readOtp o' \<and> \<not> bo_manual o',
     bl_hasSource := (bo_manual o' \<or> bo_otpSource o' \<or> best_automatic o' \<and> bo_socket o'),
     bl_email := (bl_email inp \<and> \<not> bo_manual o')\<rparr>"

record best_page =
  pb_identity :: "jsstr option"
  pb_matches :: "bool attempt"
  pb_policies :: best_reply
  pb_login :: best_login_input
  pb_policiesAfterLogin :: best_reply
  pb_requests :: best_requests

definition best_policies :: "store_env \<Rightarrow> best_options \<Rightarrow> best_page \<Rightarrow> jsval login" where
  "best_policies env opts page =
     (case requestBestInvest (pb_policies page) of
        Inl (Coded InvOtpRequired) \<Rightarrow>
          bindL (loginBestInvest env (best_automatic opts) (login_options opts (pb_login page))) (\<lambda>_.
            await (requestBestInvest (pb_policiesAfterLogin page)))
      | r \<Rightarrow> await r)"

definition best_work :: "store_env \<Rightarrow> best_options \<Rightarrow> int \<Rightarrow> best_page \<Rightarrow> inv_snapshot login" where
  "best_work env opts attemptedAt page =
     bindL (await (pb_matches page)) (\<lambda>matches.
     bindL (require matches InvalidCredentials) (\<lambda>_.
     bindL (best_policies env opts page) (\<lambda>policies.
       await (bindT (readBestInvestSnapshot (so_zod env) (pb_requests page) policies attemptedAt) (\<lambda>(s, reasons). Inr s)))))"

definition best_collect :: "store_env \<Rightarrow> best_options \<Rightarrow> collect_input \<Rightarrow> best_page \<Rightarrow> inv_db \<Rightarrow> (collect_outcome \<times> inv_db) \<times> login_action list" where
  "best_collect env opts inp page db =
     (let failure = record_failure env (ci_attemptedAt inp) in
      if ci_abortedBefore inp then ((Collected ColError, db), [])
      else case pb_identity page of
        None \<Rightarrow> (conclude env failure (ci_abortedAfter inp) (Failed CredentialResolutionFailed, db), [])
      | Some i \<Rightarrow>
          if \<not> nine_digits i then (conclude env failure (ci_abortedAfter inp) (Failed InvalidCredentials, db), [])
          else (case with_browser (ci_run inp) (best_work env opts (ci_attemptedAt inp) page) ([], db) of
            (r, acts, db') \<Rightarrow> (conclude env failure (ci_abortedAfter inp) (r, db'), acts)))"

end
