(* ===== verification/InvCollectorProofs.thy ===== *)
theory InvCollectorProofs
  imports InvCollectors InvAllowance
begin

text \<open>
  The collectors: a login requests one message at most, only after the store granted it, and gives its lease back; and
  what a collector reports is what it did to the store.
\<close>

section \<open>What a login does\<close>

lemmas login_defs = bindL_def await_def act_def check_def require_def unless_aborted_def

text \<open>What is written before and after a stretch of the login.\<close>

definition reserved :: "store_env \<Rightarrow> jsstr \<Rightarrow> inv_db \<Rightarrow> bool \<Rightarrow> inv_db \<Rightarrow> bool" where
  "reserved env stamp db granted db' \<longleftrightarrow>
     (\<not> granted \<and> db' = db) \<or> consumeAutomaticSmsAttempt env stamp db = Inr (granted, db')"

lemma reserve_run:
  assumes "reserve_sms env automatic inp (acts, db) = (r, acts', db')"
  shows "acts' = acts" "automatic \<or> db' = db"
    "automatic \<longrightarrow> (\<exists>granted. reserved env (iso_of_time (bl_now inp)) db granted db' \<and> (r = Inr () \<longrightarrow> granted))"
  using assms by (auto simp: reserve_sms_def login_defs reserved_def split: sum.splits if_splits option.splits prod.splits)

lemma send_run:
  assumes "send_code env automatic inp (acts, db) = (r, acts', db')"
  shows "(acts' = acts \<or> acts' = acts @ [ClickSend]) \<and> (r = Inr () \<longrightarrow> acts' = acts @ [ClickSend]) \<and> (automatic \<or> db' = db) \<and>
    (automatic \<longrightarrow> (\<exists>granted. reserved env (iso_of_time (bl_now inp)) db granted db' \<and> (acts' \<noteq> acts \<longrightarrow> granted)))"
proof (cases "bl_abortedPrepared inp")
  case True
  with assms show ?thesis by (auto simp: send_code_def login_defs reserved_def)
next
  case False
  obtain r1 acts1 db1 where run: "reserve_sms env automatic inp (acts, db) = (r1, acts1, db1)"
    by (cases "reserve_sms env automatic inp (acts, db)") auto
  note reserve = reserve_run [OF run]
  show ?thesis
  proof (cases r1)
    case (Inl e)
    with assms False run have "acts' = acts1" "db' = db1" "r = Inl e"
      by (simp_all add: send_code_def login_defs)
    with reserve show ?thesis by auto
  next
    case (Inr u)
    have "r1 = Inr ()" using Inr by simp
    with reserve have granted: "automatic \<longrightarrow> reserved env (iso_of_time (bl_now inp)) db True db1" "acts1 = acts" "automatic \<or> db1 = db"
      by auto
    have "db' = db1 \<and> (acts' = acts \<or> acts' = acts @ [ClickSend]) \<and> (r = Inr () \<longrightarrow> acts' = acts @ [ClickSend])"
      using assms False run Inr granted(2)
      by (auto simp: send_code_def login_defs split: option.splits sum.splits prod.splits if_splits)
    with granted show ?thesis by blast
  qed
qed

lemma enter_run:
  assumes "enter_code inp (acts, db) = (r, acts', db')"
  shows "db' = db \<and> (acts' = acts \<or> (\<exists>c. six_digits c \<and> acts' = acts @ [EnterCode c]))"
  using assms by (auto simp: enter_code_def login_defs split: option.splits sum.splits if_splits)

text \<open>The message is sent, the code entered, or neither; and the store was asked before.\<close>

definition login_body :: "login_action list \<Rightarrow> bool" where
  "login_body acts \<longleftrightarrow> acts = [] \<or> acts = [ClickSend] \<or> (\<exists>c. six_digits c \<and> acts = [ClickSend, EnterCode c])"

definition asked :: "store_env \<Rightarrow> bool \<Rightarrow> jsstr \<Rightarrow> inv_db \<Rightarrow> login_action list \<Rightarrow> inv_db \<Rightarrow> bool" where
  "asked env automatic stamp db acts db' \<longleftrightarrow> (automatic \<or> db' = db) \<and>
     (automatic \<longrightarrow> (\<exists>granted. reserved env stamp db granted db' \<and> (ClickSend \<in> set acts \<longrightarrow> granted)))"

lemma send_enter_run:
  assumes "bindL (send_code env automatic inp) (\<lambda>_. enter_code inp) (acts, db) = (r, acts', db')"
  shows "\<exists>body. acts' = acts @ body \<and> login_body body \<and> asked env automatic (iso_of_time (bl_now inp)) db body db'"
proof -
  obtain r1 acts1 db1 where send: "send_code env automatic inp (acts, db) = (r1, acts1, db1)"
    by (cases "send_code env automatic inp (acts, db)") auto
  note sent = send_run [OF send]
  show ?thesis
  proof (cases r1)
    case (Inl e)
    with assms send have "acts' = acts1" "db' = db1" by (simp_all add: bindL_def)
    with sent show ?thesis
      by (auto simp: login_body_def asked_def)
  next
    case (Inr u)
    then have "enter_code inp (acts1, db1) = (r, acts', db')" "acts1 = acts @ [ClickSend]"
      using assms send sent by (simp_all add: bindL_def)
    with enter_run [OF this(1)] sent show ?thesis
      by (auto simp: login_body_def asked_def)
  qed
qed

definition leased :: "login_action list \<Rightarrow> login_action list \<Rightarrow> bool" where
  "leased acts body \<longleftrightarrow> acts = body \<or> acts = ArmLease # body @ [ReleaseLease]"

lemma nothing_asked: "asked env automatic stamp db [] db" "login_body []" "leased [] []"
  by (auto simp: asked_def reserved_def login_body_def leased_def)

lemma login_run:
  assumes "loginBestInvest env automatic inp ([], db) = (r, acts, db')"
  shows "\<exists>body. leased acts body \<and> login_body body \<and> asked env automatic (iso_of_time (bl_now inp)) db body db'"
proof -
  have "(acts = [] \<and> db' = db) \<or> with_lease env automatic inp ([], db) = (r, acts, db')"
    using assms by (auto simp: loginBestInvest_def login_defs split: option.splits sum.splits if_splits)
  moreover have ?thesis if w: "with_lease env automatic inp ([], db) = (r, acts, db')"
  proof (cases "bl_hasSource inp")
    case True
    show ?thesis
    proof (cases "bl_prepared inp")
      case (Inl e)
      with w True have "acts = []" "db' = db" by (simp_all add: with_lease_def login_defs)
      with nothing_asked show ?thesis by blast
    next
      case (Inr u)
      obtain r1 acts1 db1 where run: "bindL (send_code env automatic inp) (\<lambda>_. enter_code inp) ([ArmLease], db) = (r1, acts1, db1)"
        by (cases "bindL (send_code env automatic inp) (\<lambda>_. enter_code inp) ([ArmLease], db)") auto
      have "acts = acts1 @ [ReleaseLease]" "db' = db1"
        using w True Inr run by (simp_all add: with_lease_def released_after_def bindL_def [of "await _"] bindL_def [of "act _"] await_def act_def)
      with send_enter_run [OF run] show ?thesis
        by (auto simp: leased_def)
    qed
  next
    case False
    with w have "bindL (send_code env automatic inp) (\<lambda>_. enter_code inp) ([], db) = (r, acts, db')"
      by (simp add: with_lease_def)
    from send_enter_run [OF this] show ?thesis by (auto simp: leased_def)
  qed
  ultimately show ?thesis
    using nothing_asked by blast
qed

section \<open>A collection\<close>

lemma browser_state:
  "with_browser run work s = (r, s') \<Longrightarrow> s' = s \<or> s' = snd (work s)"
  by (auto simp: with_browser_def split: acquisition.splits option.splits prod.splits)

lemma policies_run:
  assumes "best_policies env opts page ([], db) = (r, acts, db')"
  shows "\<exists>body. leased acts body \<and> login_body body \<and> asked env (best_automatic opts) (iso_of_time (bl_now (pb_login page))) db body db'"
proof (cases "requestBestInvest (pb_policies page) = Inl (Coded InvOtpRequired)")
  case True
  obtain r1 acts1 db1 where run: "loginBestInvest env (best_automatic opts) (login_options opts (pb_login page)) ([], db) = (r1, acts1, db1)"
    by (cases "loginBestInvest env (best_automatic opts) (login_options opts (pb_login page)) ([], db)") auto
  have "acts = acts1" "db' = db1"
    using assms True run by (auto simp: best_policies_def bindL_def await_def split: sum.splits)
  with login_run [OF run] show ?thesis by (simp add: login_options_def)
next
  case False
  then have "acts = []" "db' = db"
    using assms by (auto simp: best_policies_def await_def split: sum.splits thrown.splits inv_error.splits)
  with nothing_asked show ?thesis by blast
qed

lemma work_run:
  assumes "best_work env opts attemptedAt page ([], db) = (r, acts, db')"
  shows "\<exists>body. leased acts body \<and> login_body body \<and> asked env (best_automatic opts) (iso_of_time (bl_now (pb_login page))) db body db'"
proof -
  have "(acts = [] \<and> db' = db) \<or> (acts, db') = snd (best_policies env opts page ([], db))"
    using assms by (auto simp: best_work_def login_defs split: option.splits sum.splits if_splits prod.splits)
  then show ?thesis
    using nothing_asked policies_run [of env opts page db "fst (best_policies env opts page ([], db))" acts db'] by (metis prod.collapse)
qed

text \<open>Records, revisions and the allowance, apart from what applying a snapshot does.\<close>

definition same_records :: "inv_db \<Rightarrow> inv_db \<Rightarrow> bool" where
  "same_records db db' \<longleftrightarrow> it_records db' = it_records db \<and> it_revisions db' = it_revisions db \<and> it_evidence db' = it_evidence db"

definition same_allowance :: "inv_db \<Rightarrow> inv_db \<Rightarrow> bool" where
  "same_allowance db db' \<longleftrightarrow> im_automaticSms db' = im_automaticSms db"

lemma same_refl [simp]: "same_records db db" "same_allowance db db"
  by (simp_all add: same_records_def same_allowance_def)

lemma same_trans:
  "same_records a b \<Longrightarrow> same_records b c \<Longrightarrow> same_records a c"
  "same_allowance a b \<Longrightarrow> same_allowance b c \<Longrightarrow> same_allowance a c"
  by (simp_all add: same_records_def same_allowance_def)

lemma failure_same: "record_failure env t code db = (out, db') \<Longrightarrow> same_records db db' \<and> same_allowance db db'"
  by (auto simp: record_failure_def same_records_def same_allowance_def split: sum.splits dest!: recordFailure_meta)

lemma upsert_allowance: "im_automaticSms (snd (upsert_one env t row acc)) = im_automaticSms (snd acc)"
  by (cases acc) (auto simp: upsert_one_def upsertRecord_def Let_def saveRecord_def saveRevision_def split: prod.split option.split)

lemma upserts_allowance: "im_automaticSms (snd (fold (upsert_one env t) rows acc)) = im_automaticSms (snd acc)"
  by (induction rows arbitrary: acc) (simp_all add: upsert_allowance)

lemma apply_rows_allowance: "apply_rows env snapshot st db = Inr (sm, db') \<Longrightarrow> im_automaticSms db' = im_automaticSms db"
  using upserts_allowance [of env "sn_observedAt snapshot" "snapshot_rows snapshot" "(no_import True, db)"]
  by (auto simp: apply_rows_def writeState_def mark_applied_def split: prod.splits if_splits)

lemma apply_parts:
  assumes "applySnapshot env s db = Inr (sm, db')"
  shows "(sm = no_import False \<and> (db' = db \<or> (\<exists>x. db' = db\<lparr>im_sourceState := x\<rparr>))) \<or> (\<exists>snapshot st. apply_rows env snapshot st db = Inr (sm, db'))"
proof (rule ccontr)
  assume "\<not> ?thesis"
  then have no: "apply_rows env snapshot st db \<noteq> Inr (sm, db')" "sm = no_import False \<Longrightarrow> db' \<noteq> db" "sm = no_import False \<Longrightarrow> db' \<noteq> db\<lparr>im_sourceState := x\<rparr>" for snapshot st x
    by blast+
  show False
    using assms no by (auto simp: applySnapshot_def storeError_def dest!: recordFailure_meta split: if_splits)
qed

lemma apply_allowance: "applySnapshot env s db = Inr (sm, db') \<Longrightarrow> same_allowance db db'"
  using apply_parts [of env s db sm db'] apply_rows_allowance by (auto simp: same_allowance_def)

lemma upserts_applied: "im_applied (fst (fold (upsert_one env t) rows acc)) = im_applied (fst acc)"
proof (induction rows arbitrary: acc)
  case (Cons row rows)
  have "im_applied (tally outcome x) = im_applied x" for outcome x
    by (cases outcome) simp_all
  then have "im_applied (fst (upsert_one env t row acc)) = im_applied (fst acc)"
    by (cases acc) (simp add: upsert_one_def split: prod.split)
  with Cons show ?case by simp
qed simp

lemma apply_refused: "applySnapshot env s db = Inr (sm, db') \<Longrightarrow> \<not> im_applied sm \<Longrightarrow> same_records db db'"
proof -
  assume a: "applySnapshot env s db = Inr (sm, db')" "\<not> im_applied sm"
  have "\<not> apply_rows env snapshot st db = Inr (sm, db')" for snapshot st
    using upserts_applied [of env "sn_observedAt snapshot" "snapshot_rows snapshot" "(no_import True, db)"] a(2)
    by (auto simp: apply_rows_def no_import_def split: prod.splits)
  with apply_parts [OF a(1)] show ?thesis
    by (auto simp: same_records_def)
qed

text \<open>What the outcome of a collection says about the store.\<close>

definition told :: "store_env \<Rightarrow> int \<Rightarrow> inv_db \<Rightarrow> collect_outcome \<times> inv_db \<Rightarrow> bool" where
  "told env attemptedAt db r \<longleftrightarrow>
     (case r of (outcome, db') \<Rightarrow>
        case outcome of
          Collected ColOk \<Rightarrow> \<exists>s db1 sm. same_records db db1 \<and> applySnapshot env s db1 = Inr (sm, db') \<and> im_applied sm
        | Collected ColAuthRequired \<Rightarrow> same_records db db' \<and>
            (\<exists>db1. recordFailure env SourceAuthRequired (iso_of_time attemptedAt) InvOtpRequired db1 = Inr db')
        | _ \<Rightarrow> same_records db db')"

lemma told_same: "same_records db db' \<Longrightarrow> outcome \<notin> {Collected ColOk, Collected ColAuthRequired} \<Longrightarrow> told env t db (outcome, db')"
  by (auto simp: told_def split: collect_outcome.split collection_status.split)

lemma record_failure_told:
  assumes "same_records db db1"
  shows "told env t db (record_failure env t code db1)"
proof (cases "recordFailure env (failure_status code) (iso_of_time t) code db1")
  case (Inl e)
  then show ?thesis using assms told_same by (simp add: record_failure_def)
next
  case (Inr db2)
  from recordFailure_meta [OF Inr] assms have "same_records db db2"
    by (auto simp: same_records_def)
  with Inr show ?thesis
    by (cases "code = InvOtpRequired") (auto simp: record_failure_def failure_collected_def failure_status_def told_def)
qed

lemma changed_session_same:
  assumes "changed_session env f db = Inr db'"
  shows "same_records db db'" "same_allowance db db'"
  using assms meta_steps(1) by (fastforce simp: changed_session_def same_records_def same_allowance_def)+

lemma clal_failure_told:
  assumes "same_records db db1"
  shows "told env t db (clal_failure env t code db1)"
proof (cases "code = InvOtpRequired")
  case True
  show ?thesis
  proof (cases "changed_session env (lost_session t code) db1")
    case (Inl e)
    with True assms told_same show ?thesis by (simp add: clal_failure_def)
  next
    case (Inr db2)
    from record_failure_told [OF same_trans(1) [OF assms changed_session_same(1) [OF Inr]]] True Inr show ?thesis
      by (simp add: clal_failure_def)
  qed
next
  case False
  with record_failure_told [OF assms] show ?thesis by (simp add: clal_failure_def)
qed

lemma conclude_told:
  assumes "same_records db (snd r)" and failure: "\<And>code db1. same_records db db1 \<Longrightarrow> told env t db (failure code db1)"
  shows "told env t db (conclude env failure aborted r)"
proof -
  obtain result db1 where r: "r = (result, db1)" by (cases r)
  have same: "same_records db db1" using assms(1) r by simp
  show ?thesis
  proof (cases "aborted \<or> (\<forall>s. result \<noteq> Finished s)")
    case True
    with same failure told_same show ?thesis
      by (cases result) (auto simp: conclude_def r)
  next
    case False
    then obtain s where s: "result = Finished s" "\<not> aborted" by auto
    show ?thesis
    proof (cases "applySnapshot env s db1")
      case (Inl e)
      with s r failure [OF same] show ?thesis by (simp add: conclude_def)
    next
      case (Inr x)
      obtain sm db2 where x: "x = (sm, db2)" by (cases x)
      show ?thesis
      proof (cases "im_applied sm")
        case True
        with s r Inr x same show ?thesis by (auto simp: conclude_def told_def)
      next
        case False
        from apply_refused [OF Inr [unfolded x] False] same same_trans(1) have "same_records db db2" by blast
        with False s r Inr x told_same show ?thesis by (simp add: conclude_def)
      qed
    qed
  qed
qed

lemma session_same:
  assumes "bindE m (\<lambda>x. changed_session env (f x) db) = Inr db'"
  shows "same_records db db'"
  using assms changed_session_same(1) by auto

lemma note_session_same:
  assumes "note_session env page db = Inr db'"
  shows "same_records db db'"
proof -
  have "same_records db x" if "session_alive env page db = Inr x" for x
    using that session_same by (auto simp: session_alive_def simp del: bindE_eq_Inr split: sum.splits if_splits)
  with assms show ?thesis
    using changed_session_same(1) by (auto simp: note_session_def split: sum.splits if_splits)
qed

lemma clal_work_same: "same_records db (snd (clal_work env page db))"
  using note_session_same by (auto simp: clal_work_def split: sum.split bool.split)

lemma browser_same: "same_records db (snd (work db)) \<Longrightarrow> same_records db (snd (with_browser run work db))"
  using browser_state [of run work db] by (metis prod.collapse same_refl(1))

lemma clal_told: "told env (ci_attemptedAt inp) db (clal_collect env inp page db)"
proof (cases "ci_abortedBefore inp")
  case True
  then show ?thesis by (simp add: clal_collect_def told_same)
next
  case False
  have "told env (ci_attemptedAt inp) db (conclude env (clal_failure env (ci_attemptedAt inp)) (ci_abortedAfter inp)
      (with_browser (ci_run inp) (clal_work env page) db))"
    by (rule conclude_told [OF browser_same [OF clal_work_same] clal_failure_told])
  with False show ?thesis by (simp add: clal_collect_def)
qed

text \<open>A Best Invest collection: what the login did, then the end every collection has.\<close>

lemma best_parts:
  "\<exists>body db1 out. best_collect env opts inp page db = (out, snd (best_collect env opts inp page db)) \<and>
     leased (snd (best_collect env opts inp page db)) body \<and> login_body body \<and>
     asked env (best_automatic opts) (iso_of_time (bl_now (pb_login page))) db body db1 \<and>
     ((fst out = Collected ColError \<and> snd out = db1) \<or>
      (\<exists>r. out = conclude env (record_failure env (ci_attemptedAt inp)) (ci_abortedAfter inp) (r, db1)))"
proof -
  define stamp where "stamp = iso_of_time (bl_now (pb_login page))"
  have silent: ?thesis if "best_collect env opts inp page db = (out, [])"
      "(fst out = Collected ColError \<and> snd out = db) \<or> (\<exists>r. out = conclude env (record_failure env (ci_attemptedAt inp)) (ci_abortedAfter inp) (r, db))" for out
    using that by (intro exI [of _ "[]"] exI [of _ db] exI [of _ out]) (simp add: nothing_asked)
  show ?thesis
  proof (cases "ci_abortedBefore inp \<or> pb_identity page = None \<or> \<not> nine_digits (the (pb_identity page))")
    case True
    then show ?thesis
      by (intro silent [of "fst (best_collect env opts inp page db)"]) (auto simp: best_collect_def Let_def split: option.splits)
  next
    case False
    then obtain i where i: "pb_identity page = Some i" "nine_digits i" "\<not> ci_abortedBefore inp" by auto
    obtain r acts db1 where run: "with_browser (ci_run inp) (best_work env opts (ci_attemptedAt inp) page) ([], db) = (r, acts, db1)"
      by (cases "with_browser (ci_run inp) (best_work env opts (ci_attemptedAt inp) page) ([], db)") auto
    have "\<exists>body. leased acts body \<and> login_body body \<and> asked env (best_automatic opts) stamp db body db1"
      using browser_state [OF run] nothing_asked work_run [of env opts "ci_attemptedAt inp" page db "fst (best_work env opts (ci_attemptedAt inp) page ([], db))" acts db1]
      unfolding stamp_def by (metis prod.collapse prod.inject)
    moreover have "best_collect env opts inp page db = (conclude env (record_failure env (ci_attemptedAt inp)) (ci_abortedAfter inp) (r, db1), acts)"
      using i run by (simp add: best_collect_def)
    ultimately show ?thesis
      unfolding stamp_def by auto
  qed
qed

lemma asked_same: "asked env automatic stamp db body db1 \<Longrightarrow> same_records db db1"
  by (cases automatic) (auto simp: asked_def reserved_def same_records_def dest!: meta_steps(2))

lemma best_told: "told env (ci_attemptedAt inp) db (fst (best_collect env opts inp page db))"
proof -
  obtain body db1 out where out: "best_collect env opts inp page db = (out, snd (best_collect env opts inp page db))"
      "asked env (best_automatic opts) (iso_of_time (bl_now (pb_login page))) db body db1"
      "(fst out = Collected ColError \<and> snd out = db1) \<or> (\<exists>r. out = conclude env (record_failure env (ci_attemptedAt inp)) (ci_abortedAfter inp) (r, db1))"
    using best_parts [of env opts inp page db] by blast
  have same: "same_records db db1" by (rule asked_same [OF out(2)])
  have "told env (ci_attemptedAt inp) db out"
    using out(3)
  proof
    assume "fst out = Collected ColError \<and> snd out = db1"
    with told_same [OF same] show ?thesis by (cases out) simp
  next
    assume "\<exists>r. out = conclude env (record_failure env (ci_attemptedAt inp)) (ci_abortedAfter inp) (r, db1)"
    then obtain r where r: "out = conclude env (record_failure env (ci_attemptedAt inp)) (ci_abortedAfter inp) (r, db1)" by blast
    show ?thesis
      unfolding r by (rule conclude_told [OF _ record_failure_told]) (simp_all add: same)
  qed
  with out(1) show ?thesis by (metis fst_conv)
qed

text \<open>
  C40: what a collection reports is what it did to the store. Whatever the portal, the browser and the clock do, \<^verbatim>\<open>ok\<close>
  is answered only when the store applied a snapshot; with any other answer, and when the collector throws, no
  record, revision or evidence has changed; and a required login is the recorded state of the source.
\<close>

theorem collections_tell_the_store:
  "told env (ci_attemptedAt inp) db (clal_collect env inp page db) \<and>
   told env (ci_attemptedAt inp) db (fst (best_collect env opts inp best db))"
  using clal_told best_told by blast

section \<open>At most two messages a day\<close>

text \<open>The messages a sequence of collections requests, by the time they read before they ask the store.\<close>

fun sms_requests :: "store_env \<Rightarrow> (best_options \<times> collect_input \<times> best_page) list \<Rightarrow> inv_db \<Rightarrow> jsstr list" where
  "sms_requests env [] db = []"
| "sms_requests env ((opts, inp, page) # runs) db =
     (case best_collect env opts inp page db of ((outcome, db'), acts) \<Rightarrow>
        (if ClickSend \<in> set acts then [iso_of_time (bl_now (pb_login page))] else []) @ sms_requests env runs db')"

definition request_stamp :: "best_options \<times> collect_input \<times> best_page \<Rightarrow> jsstr" where
  "request_stamp run = (case run of (opts, inp, page) \<Rightarrow> iso_of_time (bl_now (pb_login page)))"

lemma remembers_same: "remembers env now sent db \<Longrightarrow> same_allowance db db' \<Longrightarrow> remembers env now sent db'"
  by (simp add: remembers_def same_allowance_def)

lemma remembers_later:
  assumes "remembers env now sent db" "now \<le> later"
  shows "remembers env later sent db"
proof -
  obtain stored where stored: "stored_stamps env (im_automaticSms db) = Inr stored" "recent_to now stored = recent_to now sent"
    using assms(1) unfolding remembers_def by blast
  then have "recent_to later stored = recent_to later sent"
    using recent_to_later [OF assms(2)] by metis
  with stored(1) assms show ?thesis
    by (force simp: remembers_def)
qed

lemma failure_allowance: "same_allowance db (snd (record_failure env t code db))"
  using failure_same [of env t code db] by (metis prod.collapse)

lemma conclude_allowance: "same_allowance db (snd (conclude env (record_failure env t) aborted (r, db)))"
proof (cases r)
  case (Finished s)
  show ?thesis
  proof (cases "applySnapshot env s db")
    case (Inl e)
    then show ?thesis by (simp add: conclude_def Finished failure_allowance)
  next
    case (Inr a)
    then show ?thesis
      using apply_allowance [of env s db "fst a" "snd a"] by (cases a) (simp add: conclude_def Finished)
  qed
qed (simp_all add: conclude_def failure_allowance)

lemma leased_click: "leased acts body \<Longrightarrow> ClickSend \<in> set acts \<longleftrightarrow> ClickSend \<in> set body"
  by (auto simp: leased_def)

text \<open>A stretch of a login in which the store may have been asked.\<close>

lemma asked_remembers:
  assumes "stamps_parse (so_zod env)" "remembers env now sent db" "now \<le> ms_of stamp" "asked env True stamp db acts db'"
  shows "\<exists>granted. remembers env (ms_of stamp) (if granted then sent @ [stamp] else sent) db' \<and> (ClickSend \<in> set acts \<longrightarrow> granted)"
proof -
  obtain granted where granted: "reserved env stamp db granted db'" "ClickSend \<in> set acts \<longrightarrow> granted"
    using assms(4) unfolding asked_def by blast
  have "remembers env (ms_of stamp) (if granted then sent @ [stamp] else sent) db'"
    using granted(1) unfolding reserved_def
  proof
    assume "\<not> granted \<and> db' = db"
    with remembers_later [OF assms(2,3)] show ?thesis by simp
  next
    assume "consumeAutomaticSmsAttempt env stamp db = Inr (granted, db')"
    from consume_remembers [OF assms(1,2,3) this] show ?thesis .
  qed
  with granted(2) show ?thesis by blast
qed

lemma collection_remembers:
  assumes env: "stamps_parse (so_zod env)" and rem: "remembers env now sent db" and le: "now \<le> ms_of (iso_of_time (bl_now (pb_login page)))"
    and auto: "best_automatic opts" and run: "best_collect env opts inp page db = ((outcome, db'), acts)"
  shows "\<exists>granted. remembers env (ms_of (iso_of_time (bl_now (pb_login page))))
    (if granted then sent @ [iso_of_time (bl_now (pb_login page))] else sent) db' \<and> (ClickSend \<in> set acts \<longrightarrow> granted)"
proof -
  define stamp where "stamp = iso_of_time (bl_now (pb_login page))"
  obtain body db1 out where parts: "best_collect env opts inp page db = (out, snd (best_collect env opts inp page db))"
      "leased (snd (best_collect env opts inp page db)) body" "asked env (best_automatic opts) stamp db body db1"
      "(fst out = Collected ColError \<and> snd out = db1) \<or> (\<exists>r. out = conclude env (record_failure env (ci_attemptedAt inp)) (ci_abortedAfter inp) (r, db1))"
    using best_parts [of env opts inp page db] unfolding stamp_def by blast
  have out: "out = (outcome, db')" "leased acts body"
    using parts(1,2) by (simp_all add: run)
  have same: "same_allowance db1 db'"
    using parts(4) unfolding out(1)
  proof
    assume "\<exists>r. (outcome, db') = conclude env (record_failure env (ci_attemptedAt inp)) (ci_abortedAfter inp) (r, db1)"
    then obtain r where "(outcome, db') = conclude env (record_failure env (ci_attemptedAt inp)) (ci_abortedAfter inp) (r, db1)" ..
    then have "db' = snd (conclude env (record_failure env (ci_attemptedAt inp)) (ci_abortedAfter inp) (r, db1))" by (metis snd_conv)
    then show ?thesis using conclude_allowance by simp
  qed simp
  have "asked env True stamp db body db1" using parts(3) auto by simp
  from asked_remembers [OF env rem _ this] le obtain granted where
    "remembers env (ms_of stamp) (if granted then sent @ [stamp] else sent) db1" "ClickSend \<in> set body \<longrightarrow> granted"
    unfolding stamp_def by blast
  from remembers_same [OF this(1) same] this(2) leased_click [OF out(2)] show ?thesis
    unfolding stamp_def by blast
qed

lemma in_day_append: "in_day t (xs @ ys) = in_day t xs @ in_day t ys" "in_day t [] = []"
  by (simp_all add: in_day_def)

lemma sms_requests_bound:
  assumes env: "stamps_parse (so_zod env)" and "remembers env now sent db" "sorted (now # map (ms_of \<circ> request_stamp) runs)"
    and "list_all (best_automatic \<circ> fst) runs"
  shows "length (in_day t (sent @ sms_requests env runs db)) \<le> 2"
  using assms(2-)
proof (induction runs arbitrary: now sent db)
  case Nil
  then show ?case by (simp add: remembers_def)
next
  case (Cons run runs)
  obtain opts inp page where run: "run = (opts, inp, page)" by (cases run) auto
  obtain outcome db' acts where c: "best_collect env opts inp page db = ((outcome, db'), acts)"
    by (cases "best_collect env opts inp page db") auto
  let ?stamp = "iso_of_time (bl_now (pb_login page))"
  from Cons.prems run have "now \<le> ms_of ?stamp" "best_automatic opts"
    by (simp_all add: request_stamp_def)
  from collection_remembers [OF env Cons.prems(1) this c] obtain granted where
    g: "remembers env (ms_of ?stamp) (if granted then sent @ [?stamp] else sent) db'" "ClickSend \<in> set acts \<longrightarrow> granted"
    by blast
  have "length (in_day t ((if granted then sent @ [?stamp] else sent) @ sms_requests env runs db')) \<le> 2"
    by (rule Cons.IH [OF g(1)]) (use Cons.prems run in \<open>auto simp: request_stamp_def\<close>)
  then show ?case
    using g(2) by (auto simp: run c in_day_append split: if_splits)
qed

text \<open>
  C39: automatic logins request at most two messages a day. However many collections run, one after the other and
  whatever the portal answers, a message is requested only after the store granted it: together with the requests the
  store has on record, at most two fall in any window of 24 hours when the clock does not go back.
\<close>

theorem automatic_logins_two_a_day:
  assumes "stamps_parse (so_zod env)" "stored_stamps env (im_automaticSms db) = Inr before"
    and "sorted (map ms_of before @ map (ms_of \<circ> request_stamp) runs)" "list_all (best_automatic \<circ> fst) runs"
  shows "length (in_day t (before @ sms_requests env runs db)) \<le> 2"
proof -
  obtain now where "remembers env now before db" "sorted (now # map (ms_of \<circ> request_stamp) runs)"
    using stored_remembers [OF assms(2,3)] by blast
  from sms_requests_bound [OF assms(1) this assms(4)] show ?thesis .
qed

text \<open>Three collections within three hours, each without a session and with a portal that does not answer the click.\<close>

definition example_login :: "int \<Rightarrow> best_login_input" where
  "example_login now = \<lparr>bl_hasSource = True, bl_hasRead = False,
     bl_credentials = Some \<lparr>bc_id = Some (js ''123456789''), bc_phone = Some (js ''0501234567''), bc_email = None\<rparr>,
     bl_email = False, bl_opened = None, bl_checkbox = False, bl_filled = None, bl_prepared = Inr (), bl_abortedPrepared = False,
     bl_now = now, bl_before = None, bl_abortedReserved = False, bl_clicked = Some TimedOut, bl_response = Inl TimedOut,
     bl_form = None, bl_code = Inl TimedOut, bl_abortedCode = False, bl_submitted = None, bl_session = None, bl_abortedEnd = False\<rparr>"

definition no_session :: best_reply where
  "no_session = \<lparr>bp_origin = True, bp_result = Inr (Inl InvOtpRequired)\<rparr>"

definition example_run :: "int \<Rightarrow> best_options \<times> collect_input \<times> best_page" where
  "example_run now =
     (\<lparr>bo_manual = False, bo_readOtp = False, bo_otpSource = False, bo_socket = True\<rparr>,
      \<lparr>ci_abortedBefore = False, ci_attemptedAt = now,
        ci_run = \<lparr>br_acquire = Acquired, br_launch = None, br_after = None, br_aborted = False, br_releaseFails = False\<rparr>,
        ci_abortedAfter = False\<rparr>,
      \<lparr>pb_identity = Some (js ''123456789''), pb_matches = Inr True, pb_policies = no_session, pb_login = example_login now,
        pb_policiesAfterLogin = no_session,
        pb_requests = \<lparr>bq_details = (\<lambda>_ _. no_session), bq_deposits = (\<lambda>_ _. no_session), bq_aborted = (\<lambda>_. False),
          bq_abortedDeposits = (\<lambda>_. False), bq_year = 2024\<rparr>\<rparr>)"

lemma example_requests_sent:
  "sms_requests example_store (map example_run [1720598400000, 1720602000000, 1720605600000]) empty_inv_db
    = map js [''2024-07-10T08:00:00.000Z'', ''2024-07-10T09:00:00.000Z'']"
  by code_simp

lemma example_run_stamps: "map (\<lambda>t. ms_of (iso_of_time t)) [1720598400000, 1720602000000, 1720605600000] = [1720598400000, 1720602000000, 1720605600000]"
  using parse_stamp_iso [of 1720598400000] parse_stamp_iso [of 1720602000000] parse_stamp_iso [of 1720605600000]
  by (simp add: ms_of_def ok_time_def)

theorem automatic_logins_two_a_day_witness:
  "length (in_day 1720598400000 (sms_requests example_store (map example_run [1720598400000, 1720602000000, 1720605600000]) empty_inv_db)) \<le> 2 \<and>
   length (sms_requests example_store (map example_run [1720598400000, 1720602000000, 1720605600000]) empty_inv_db) = 2"
proof -
  have times: "map (ms_of \<circ> request_stamp) (map example_run [1720598400000, 1720602000000, 1720605600000]) = [1720598400000, 1720602000000, 1720605600000]"
    using example_run_stamps by (simp add: request_stamp_def example_run_def example_login_def)
  have automatic: "list_all (best_automatic \<circ> fst) (map example_run [1720598400000, 1720602000000, 1720605600000])"
    by (simp add: example_run_def best_automatic_def)
  have none: "stored_stamps example_store (im_automaticSms empty_inv_db) = Inr []"
    by (simp add: stored_stamps_def empty_inv_db_def)
  have "sorted (map ms_of [] @ map (ms_of \<circ> request_stamp) (map example_run [1720598400000, 1720602000000, 1720605600000]))"
    unfolding times by simp
  from automatic_logins_two_a_day [OF example_stamps_parse none this automatic, of 1720598400000] show ?thesis
    unfolding example_requests_sent append_Nil by simp
qed

end
