(* ===== verification/HapoalimDecimal.thy ===== *)
theory HapoalimDecimal
  imports InvMoney
begin

text \<open>
  \<^verbatim>\<open>sourceDecimal\<close> of \<^verbatim>\<open>src/investments/hapoalim/parser.ts\<close>: a decimal of the bank, in scientific notation too,
  becomes one canonical text without rounding. The text denotes the same number, and equal numbers have equal texts, so the
  natural key of an execution does not depend on how the bank writes its quantities.
\<close>

section \<open>The reader\<close>

record decimal_parts =
  dp_negative :: bool
  dp_integer :: jsstr
  dp_fraction :: jsstr
  dp_exponent :: int

text \<open>\<^verbatim>\<open>^-?(0|[1-9]\d*)(?:\.(\d+))?(?:e([+-]?\d+))?$\<close>, with either case of the e.\<close>

definition decimal_parts_of :: "jsstr \<Rightarrow> decimal_parts option" where
  "decimal_parts_of raw =
     (let body = (if starts_with raw (js ''-'') then tl raw else raw);
          integer = takeWhile is_digit body; r = dropWhile is_digit body;
          fraction = (if starts_with r (js ''.'') then takeWhile is_digit (tl r) else []);
          e = (if starts_with r (js ''.'') then dropWhile is_digit (tl r) else r)
      in if \<not> whole_number integer \<or> starts_with r (js ''.'') \<and> fraction = [] then None
         else case parse_exp e of None \<Rightarrow> None
           | Some n \<Rightarrow> Some \<lparr>dp_negative = starts_with raw (js ''-''), dp_integer = integer, dp_fraction = fraction, dp_exponent = n\<rparr>)"

text \<open>Moving the point.\<close>

definition expanded :: "decimal_parts \<Rightarrow> jsstr \<times> jsstr" where
  "expanded d =
     (let digits = dp_integer d @ dp_fraction d; point = int (length (dp_integer d)) + dp_exponent d in
      if point \<le> 0 then ([48], replicate (nat (- point)) 48 @ digits)
      else if int (length digits) \<le> point then (digits @ replicate (nat point - length digits) 48, [])
      else (take (nat point) digits, drop (nat point) digits))"

text \<open>\<^verbatim>\<open>replace(/^0+(?=\d)/, '')\<close> and \<^verbatim>\<open>replace(/0+$/, '')\<close>.\<close>

fun strip_leading :: "jsstr \<Rightarrow> jsstr" where
  "strip_leading (c # d # s) = (if c = 48 then strip_leading (d # s) else c # d # s)"
| "strip_leading s = s"

definition strip_trailing :: "jsstr \<Rightarrow> jsstr" where
  "strip_trailing s = rev (dropWhile (\<lambda>c. c = 48) (rev s))"

definition canonical_text :: "bool \<Rightarrow> jsstr \<Rightarrow> jsstr \<Rightarrow> jsstr" where
  "canonical_text negative whole fraction =
     (let canonical = whole @ (if fraction = [] then [] else 46 # fraction) in
      if negative \<and> canonical \<noteq> [48] then 45 # canonical else canonical)"

definition canonical_decimal :: "jsstr \<Rightarrow> jsstr res" where
  "canonical_decimal raw =
     (case decimal_parts_of raw of
        None \<Rightarrow> invalid
      | Some d \<Rightarrow>
          if \<bar>dp_exponent d\<bar> > 30 then invalid
          else
          let (w, f) = expanded d; whole = strip_leading w; fraction = strip_trailing f in
          if length fraction > 12 \<or> length whole > 30 then invalid
          else Inr (canonical_text (dp_negative d) whole fraction))"

text \<open>Not nullable and nullable.\<close>

definition sourceDecimal :: "jsval \<Rightarrow> jsstr res" where
  "sourceDecimal v = (case v of JStr s \<Rightarrow> canonical_decimal s | JNum n \<Rightarrow> canonical_decimal (num_to_string n) | _ \<Rightarrow> invalid)"

definition nullable :: "(jsval \<Rightarrow> 'a res) \<Rightarrow> jsval \<Rightarrow> 'a option res" where
  "nullable f v = (if v = JNull then Inr None else bindE (f v) (\<lambda>x. Inr (Some x)))"

section \<open>The number a decimal denotes\<close>

definition parts_value :: "bool \<Rightarrow> jsstr \<Rightarrow> jsstr \<Rightarrow> int \<Rightarrow> rat" where
  "parts_value negative integer fraction e =
     (if negative then -1 else 1) * of_nat (digits_val (integer @ fraction)) * 10 powi (e - int (length fraction))"

definition decimal_value :: "jsstr \<Rightarrow> rat option" where
  "decimal_value raw = map_option (\<lambda>d. parts_value (dp_negative d) (dp_integer d) (dp_fraction d) (dp_exponent d)) (decimal_parts_of raw)"

lemma digits_val_append: "digits_val (a @ b) = digits_val a * 10 ^ length b + digits_val b"
proof (induction b rule: rev_induct)
  case (snoc c b)
  then show ?case
    by (simp add: append_assoc [symmetric] algebra_simps del: append_assoc)
qed simp

lemma digits_val_zeros: "digits_val (replicate n 48) = 0"
  using digits_val_replicate_0 [of n "[]"] by simp

lemma powi_shift: "(10 :: rat) powi (e - int (k + n)) * 10 ^ n = 10 powi (e - int k)"
  by (simp add: power_int_add power_int_diff power_int_minus field_simps power_add)

lemma parts_value_zeros: "parts_value b i (f @ replicate n 48) e = parts_value b i f e"
proof -
  have "digits_val (i @ f @ replicate n 48) = digits_val (i @ f) * 10 ^ n"
    using digits_val_append [of "i @ f" "replicate n 48"] by (simp add: digits_val_zeros)
  then have "of_nat (digits_val (i @ f @ replicate n 48)) * (10 :: rat) powi (e - int (length f + n)) = of_nat (digits_val (i @ f)) * (10 powi (e - int (length f + n)) * 10 ^ n)"
    by simp
  then have "of_nat (digits_val (i @ f @ replicate n 48)) * (10 :: rat) powi (e - int (length f + n)) = of_nat (digits_val (i @ f)) * 10 powi (e - int (length f))"
    by (simp only: powi_shift)
  then show ?thesis
    unfolding parts_value_def length_append length_replicate by (simp only: mult.assoc)
qed

lemma expanded_value:
  assumes "expanded d = (w, f)"
  shows "parts_value b w f 0 = parts_value b (dp_integer d) (dp_fraction d) (dp_exponent d)"
proof -
  let ?digits = "dp_integer d @ dp_fraction d" and ?point = "int (length (dp_integer d)) + dp_exponent d"
  consider "?point \<le> 0" "w = [48]" "f = replicate (nat (- ?point)) 48 @ ?digits"
    | "0 < ?point" "int (length ?digits) \<le> ?point" "w = ?digits @ replicate (nat ?point - length ?digits) 48" "f = []"
    | "0 < ?point" "?point < int (length ?digits)" "w = take (nat ?point) ?digits" "f = drop (nat ?point) ?digits"
    using assms by (auto simp: expanded_def Let_def split: if_splits)
  then show ?thesis
  proof cases
    case 1
    have "digits_val (w @ f) = digits_val (replicate (Suc (nat (- ?point))) 48 @ ?digits)"
      by (simp add: 1)
    then have "digits_val (w @ f) = digits_val ?digits"
      by (simp only: digits_val_replicate_0)
    moreover have "- int (length f) = dp_exponent d - int (length (dp_fraction d))"
      using 1 by simp
    ultimately show ?thesis
      by (simp add: parts_value_def)
  next
    case 2
    define n where "n = nat ?point - length ?digits"
    have e: "dp_exponent d - int (length (dp_fraction d)) = int n"
      using 2(1,2) by (simp add: n_def)
    have "digits_val (w @ f) = digits_val ?digits * 10 ^ n"
      using digits_val_append [of ?digits "replicate n 48"] by (simp add: 2(3,4) n_def digits_val_zeros)
    then show ?thesis
      unfolding parts_value_def e by (simp add: 2(4))
  next
    case 3
    then have "w @ f = ?digits"
      by (simp only: append_take_drop_id)
    moreover have "- int (length f) = dp_exponent d - int (length (dp_fraction d))"
      using 3(1,2) unfolding 3(4) length_drop by simp
    ultimately have "digits_val (w @ f) = digits_val ?digits" "- int (length f) = dp_exponent d - int (length (dp_fraction d))"
      by simp_all
    then show ?thesis
      by (simp add: parts_value_def)
  qed
qed

lemma strip_leading_val: "digits_val (strip_leading s @ f) = digits_val (s @ f)"
proof (induction s rule: strip_leading.induct)
  case (1 c d s)
  have "digits_val (48 # x) = digits_val x" for x
    by (simp add: digits_val_def)
  with 1 show ?case
    by simp
qed simp_all

lemma strip_trailing_split: "\<exists>n. s = strip_trailing s @ replicate n 48"
proof -
  have "\<forall>c\<in>set (takeWhile (\<lambda>c. c = 48) (rev s)). c = 48"
    by (auto dest: set_takeWhileD)
  then obtain n where "takeWhile (\<lambda>c. c = 48) (rev s) = replicate n 48"
    by (metis replicate_length_same)
  moreover have "rev (rev s) = rev (takeWhile (\<lambda>c. c = 48) (rev s) @ dropWhile (\<lambda>c. c = 48) (rev s))"
    by simp
  ultimately have "s = strip_trailing s @ replicate n 48"
    unfolding strip_trailing_def by (metis rev_append rev_replicate rev_rev_ident)
  then show ?thesis ..
qed

lemma stripped_value: "parts_value b (strip_leading w) (strip_trailing f) 0 = parts_value b w f 0"
proof -
  obtain n where n: "f = strip_trailing f @ replicate n 48"
    using strip_trailing_split by blast
  have "parts_value b w f 0 = parts_value b w (strip_trailing f) 0"
    using parts_value_zeros [of b w "strip_trailing f" n 0] n by simp
  moreover have "parts_value b (strip_leading w) (strip_trailing f) 0 = parts_value b w (strip_trailing f) 0"
    unfolding parts_value_def strip_leading_val ..
  ultimately show ?thesis
    by simp
qed

section \<open>Canonical texts\<close>

definition canonical_parts :: "jsstr \<Rightarrow> jsstr \<Rightarrow> bool" where
  "canonical_parts w f \<longleftrightarrow> whole_number w \<and> list_all is_digit f \<and> length f \<le> 12 \<and> strip_trailing f = f"

lemma strip_leading_whole: "list_all is_digit s \<Longrightarrow> s \<noteq> [] \<Longrightarrow> whole_number (strip_leading s)"
  by (induction s rule: strip_leading.induct) (auto simp: whole_number_def)

lemma strip_trailing_digits: "list_all is_digit s \<Longrightarrow> list_all is_digit (strip_trailing s)"
  by (auto simp: strip_trailing_def list_all_iff dest: set_dropWhileD)

lemma strip_trailing_idem: "strip_trailing (strip_trailing s) = strip_trailing s"
  by (simp add: strip_trailing_def dropWhile_idem)

lemma strip_trailing_zeros: "strip_trailing (s @ replicate n 48) = strip_trailing s"
proof -
  have "dropWhile (\<lambda>c. c = 48) (replicate n 48 @ t) = dropWhile (\<lambda>c. c = 48) t" for t :: jsstr
    by (induction n) simp_all
  then show ?thesis
    by (simp add: strip_trailing_def)
qed

lemma decimal_parts_digits:
  assumes "decimal_parts_of raw = Some d"
  shows "whole_number (dp_integer d)" "list_all is_digit (dp_fraction d)"
  using assms by (auto simp: decimal_parts_of_def Let_def list_all_iff dest: set_takeWhileD split: option.splits if_splits)

lemma expanded_digits:
  assumes "decimal_parts_of raw = Some d" "expanded d = (w, f)"
  shows "list_all is_digit w" "w \<noteq> []" "list_all is_digit f"
proof -
  have digits: "list_all is_digit (dp_integer d @ dp_fraction d)" "dp_integer d \<noteq> []"
    using decimal_parts_digits [OF assms(1)] by (auto simp: whole_number_def is_digit_def)
  have zeros: "list_all is_digit (replicate n 48)" for n
    by (simp add: list_all_iff is_digit_def)
  have "list_all is_digit (take n xs)" "list_all is_digit (drop n xs)" if "list_all is_digit xs" for n xs
    using that by (auto simp: list_all_iff dest: in_set_takeD in_set_dropD)
  note parts = this [OF digits(1)]
  show "list_all is_digit w" "w \<noteq> []" "list_all is_digit f"
    using assms(2) digits zeros parts unfolding expanded_def Let_def
    by (auto split: if_splits simp: is_digit_def simp del: take_append drop_append)
qed

lemma canonical_decimal_form:
  assumes "canonical_decimal raw = Inr r"
  obtains b w f where "r = canonical_text b w f" "canonical_parts w f" "decimal_value raw = Some (parts_value b w f 0)"
proof -
  obtain d where d: "decimal_parts_of raw = Some d"
    using assms by (auto simp: canonical_decimal_def split: option.splits)
  obtain w f where e: "expanded d = (w, f)"
    by fastforce
  have r: "length (strip_trailing f) \<le> 12" "r = canonical_text (dp_negative d) (strip_leading w) (strip_trailing f)"
    using assms d e by (auto simp: canonical_decimal_def Let_def split: if_splits)
  note digits = expanded_digits [OF d e]
  have "canonical_parts (strip_leading w) (strip_trailing f)"
    using r(1) digits strip_leading_whole strip_trailing_digits strip_trailing_idem by (simp add: canonical_parts_def)
  moreover have "decimal_value raw = Some (parts_value (dp_negative d) (strip_leading w) (strip_trailing f) 0)"
    using d stripped_value expanded_value [OF e] by (simp add: decimal_value_def)
  ultimately show ?thesis
    using r(2) that by blast
qed

lemma whole_number_digits: "whole_number w \<Longrightarrow> list_all is_digit w \<and> w \<noteq> []"
  by (auto simp: whole_number_def is_digit_def)

lemma canonical_text_parts:
  assumes "canonical_parts w f"
  shows "decimal_parts_of (canonical_text b w f) = Some \<lparr>dp_negative = (b \<and> (w \<noteq> [48] \<or> f \<noteq> [])), dp_integer = w, dp_fraction = f, dp_exponent = 0\<rparr>"
proof -
  define rest where "rest = (if f = [] then [] else 46 # f)"
  have w: "list_all is_digit w" "w \<noteq> []" and f: "list_all is_digit f"
    using assms whole_number_digits by (auto simp: canonical_parts_def)
  have span: "takeWhile is_digit (w @ rest) = w" "dropWhile is_digit (w @ rest) = rest"
    using w by (auto simp: rest_def list_all_iff takeWhile_append2 dropWhile_append2 is_digit_def)
  have tail: "takeWhile is_digit f = f" "dropWhile is_digit f = []"
    using f by (auto simp: list_all_iff takeWhile_eq_all_conv)
  have parts: "decimal_parts_of raw = Some \<lparr>dp_negative = n, dp_integer = w, dp_fraction = f, dp_exponent = 0\<rparr>"
    if "(if n then tl raw else raw) = w @ rest" "starts_with raw (js ''-'') = n" for raw n
    using assms unfolding decimal_parts_of_def that span Let_def
    by (cases "f = []") (simp_all add: rest_def starts_with_def canonical_parts_def tail)
  have "\<not> starts_with (w @ rest) (js ''-'')"
    using w by (cases w) (auto simp: starts_with_def is_digit_def)
  then have plain: "decimal_parts_of (w @ rest) = Some \<lparr>dp_negative = False, dp_integer = w, dp_fraction = f, dp_exponent = 0\<rparr>"
    by (intro parts) simp_all
  have signed: "decimal_parts_of (45 # w @ rest) = Some \<lparr>dp_negative = True, dp_integer = w, dp_fraction = f, dp_exponent = 0\<rparr>"
    by (intro parts) (simp_all add: starts_with_def)
  have "w @ rest = [48] \<longleftrightarrow> w = [48] \<and> f = []"
    using w by (cases w) (auto simp: rest_def)
  then have "canonical_text b w f = (if b \<and> (w \<noteq> [48] \<or> f \<noteq> []) then 45 # w @ rest else w @ rest)"
    by (auto simp: canonical_text_def rest_def Let_def)
  with plain signed show ?thesis
    by simp
qed

lemma canonical_text_value:
  assumes "canonical_parts w f"
  shows "decimal_value (canonical_text b w f) = Some (parts_value b w f 0)"
proof -
  have "digits_val [48] = 0"
    by (simp add: digits_val_def)
  then show ?thesis
    unfolding decimal_value_def canonical_text_parts [OF assms] by (cases "b \<and> w = [48] \<and> f = []") (auto simp: parts_value_def)
qed

section \<open>Equal numbers have equal texts\<close>

lemma whole_number_text:
  assumes "whole_number w"
  shows "nat_str (digits_val w) = w"
  using assms
proof (induction w rule: rev_induct)
  case (snoc c t)
  show ?case
  proof (cases "t = []")
    case True
    with snoc.prems have "is_digit c"
      by (auto simp: whole_number_def is_digit_def)
    with True show ?thesis
      using nat_str_rec [of "c - 48"] digits_val_snoc [of "[]" c] by (auto simp: is_digit_def)
  next
    case False
    then have t: "whole_number t" "hd t \<noteq> 48" "is_digit c" "is_digit (hd t)"
      using snoc.prems by (auto simp: whole_number_def list_all_iff)
    have "digits_val t \<noteq> 0"
    proof
      assume "digits_val t = 0"
      with snoc.IH [OF t(1)] have "t = nat_str 0"
        by simp
      with t(2) show False
        by (simp add: nat_str_rec)
    qed
    obtain e where "c = 48 + e" "e < 10"
      using t(3) le_Suc_ex by (fastforce simp: is_digit_def)
    with \<open>digits_val t \<noteq> 0\<close> have "nat_str (10 * digits_val t + (c - 48)) = nat_str (digits_val t) @ [c]"
      by (subst nat_str_rec) simp
    with snoc.IH [OF t(1)] show ?thesis
      by simp
  qed
qed (simp add: whole_number_def)

lemma digits_val_bound: "list_all is_digit s \<Longrightarrow> digits_val s < 10 ^ length s"
  by (induction s rule: rev_induct) (auto simp: is_digit_def)

lemma split_same:
  fixes a b m :: nat
  assumes "a * m + b = a' * m + b'" "b < m" "b' < m"
  shows "a = a' \<and> b = b'"
proof -
  have "(a * m + b) div m = a" "(a' * m + b') div m = a'" "(a * m + b) mod m = b" "(a' * m + b') mod m = b'"
    using assms(2,3) by simp_all
  with assms(1) show ?thesis
    by simp
qed

lemma digits_val_inject:
  assumes "list_all is_digit s" "list_all is_digit t" "length s = length t" "digits_val s = digits_val t"
  shows "s = t"
  using assms
proof (induction s arbitrary: t rule: rev_induct)
  case (snoc c s)
  then obtain d u where t: "t = u @ [d]"
    by (metis length_0_conv length_append_singleton nat.distinct(1) rev_exhaust)
  have "is_digit c" "is_digit d"
    using snoc.prems t by simp_all
  then obtain e e' where c: "c = 48 + e" "e < 10" "d = 48 + e'" "e' < 10"
    using le_Suc_ex by (fastforce simp: is_digit_def)
  then have "digits_val s * 10 + e = digits_val u * 10 + e'"
    using snoc.prems(4) t by simp
  from split_same [OF this c(2,4)] c have "digits_val s = digits_val u" "c = d"
    by simp_all
  with snoc t show ?case
    by simp
qed simp

definition padded :: "jsstr \<Rightarrow> jsstr" where
  "padded f = f @ replicate (12 - length f) 48"

lemma canonical_parts_inject:
  assumes "canonical_parts w f" "canonical_parts w' f'" "digits_val (w @ padded f) = digits_val (w' @ padded f')"
  shows "w = w' \<and> f = f'"
proof -
  have len: "length (padded f) = 12" "length (padded f') = 12"
    using assms(1,2) by (simp_all add: padded_def canonical_parts_def)
  have digits: "list_all is_digit (padded f)" "list_all is_digit (padded f')"
    using assms(1,2) by (auto simp: padded_def canonical_parts_def list_all_iff is_digit_def)
  define m :: nat where "m = 10 ^ 12"
  have eq: "digits_val w * m + digits_val (padded f) = digits_val w' * m + digits_val (padded f')"
    using assms(3) unfolding digits_val_append len m_def .
  have "digits_val (padded f) < m" "digits_val (padded f') < m"
    using digits_val_bound [OF digits(1)] digits_val_bound [OF digits(2)] unfolding len m_def .
  note same = split_same [OF eq this]
  have "padded f = padded f'"
    by (rule digits_val_inject [OF digits]) (use len same in simp_all)
  then have "strip_trailing (padded f) = strip_trailing (padded f')"
    by (rule arg_cong)
  then have "f = f'"
    using assms(1,2) unfolding padded_def strip_trailing_zeros canonical_parts_def by argo
  moreover have "nat_str (digits_val w) = w" "nat_str (digits_val w') = w'"
    using assms(1,2) by (simp_all only: whole_number_text canonical_parts_def)
  with same have "w = w'"
    by argo
  ultimately show ?thesis
    by simp
qed

lemma parts_value_padded:
  assumes "length f \<le> 12"
  shows "parts_value b w f 0 * 10 ^ 12 = (if b then -1 else 1) * of_nat (digits_val (w @ padded f))"
proof -
  have "parts_value b w f 0 = parts_value b w (padded f) 0"
    unfolding padded_def by (rule parts_value_zeros [symmetric])
  moreover have "length (padded f) = 12"
    using assms by (simp add: padded_def)
  ultimately show ?thesis
    by (simp add: parts_value_def power_int_minus)
qed

lemma canonical_text_inject:
  assumes "canonical_parts w f" "canonical_parts w' f'" "parts_value b w f 0 = parts_value b' w' f' 0"
  shows "canonical_text b w f = canonical_text b' w' f'"
proof -
  let ?n = "digits_val (w @ padded f)" and ?n' = "digits_val (w' @ padded f')"
  have "length f \<le> 12" "length f' \<le> 12"
    using assms(1,2) by (simp_all add: canonical_parts_def)
  from parts_value_padded [OF this(1), of b w] parts_value_padded [OF this(2), of b' w'] assms(3)
  have eq: "(if b then -1 else 1) * rat_of_nat ?n = (if b' then -1 else 1) * rat_of_nat ?n'"
    by simp
  then have n: "?n = ?n'" "b = b' \<or> ?n = 0"
    by (auto split: if_splits)
  then have same: "w = w'" "f = f'"
    using canonical_parts_inject [OF assms(1,2)] by simp_all
  show ?thesis
  proof (cases "b = b'")
    case False
    with n have "digits_val (w @ padded f) = 0"
      by simp
    moreover have "canonical_parts [48] []"
      by (simp add: canonical_parts_def whole_number_def strip_trailing_def)
    moreover have "digits_val ([48] @ padded []) = 0"
      using digits_val_zeros [of 13] by (simp add: padded_def numeral_eq_Suc)
    ultimately have "w = [48] \<and> f = []"
      using canonical_parts_inject [OF assms(1)] by simp
    with same show ?thesis
      by (simp add: canonical_text_def)
  qed (simp add: same)
qed

text \<open>
  C34: quantities and prices are exact and canonical. A decimal text the bank sends, in plain or scientific notation, is
  read as a text that denotes the very same number, and two texts are read as the same text exactly when they denote the same
  number. So no position is rounded, and the natural key of an execution does not depend on how the bank writes its numbers.
\<close>

theorem decimals_exact:
  assumes "sourceDecimal (JStr s) = Inr x" "sourceDecimal (JStr t) = Inr y"
  shows "decimal_value x = decimal_value s \<and> (x = y \<longleftrightarrow> decimal_value s = decimal_value t)"
proof -
  obtain b w f where s: "x = canonical_text b w f" "canonical_parts w f" "decimal_value s = Some (parts_value b w f 0)"
    using assms(1) canonical_decimal_form [of s x] by (auto simp: sourceDecimal_def)
  obtain b' w' f' where t: "y = canonical_text b' w' f'" "canonical_parts w' f'" "decimal_value t = Some (parts_value b' w' f' 0)"
    using assms(2) canonical_decimal_form [of t y] by (auto simp: sourceDecimal_def)
  have "decimal_value x = decimal_value s" "decimal_value y = decimal_value t"
    using s t by (simp_all add: canonical_text_value)
  moreover have "x = y" if "decimal_value s = decimal_value t"
    using canonical_text_inject [OF s(2) t(2)] that s(1,3) t(1,3) by simp
  ultimately show ?thesis
    by metis
qed

theorem decimals_exact_witness:
  "sourceDecimal (JStr (js ''-1.50E2'')) = Inr (js ''-150'') \<and> sourceDecimal (JStr (js ''-150.0'')) = Inr (js ''-150'') \<and>
   decimal_value (js ''-1.50E2'') = decimal_value (js ''-150.0'')"
proof -
  have "sourceDecimal (JStr (js ''-1.50E2'')) = Inr (js ''-150'')" "sourceDecimal (JStr (js ''-150.0'')) = Inr (js ''-150'')"
    by code_simp+
  with decimals_exact [OF this] show ?thesis
    by simp
qed

end
