(* ===== verification/HapoalimParser.thy ===== *)
theory HapoalimParser
  imports HapoalimDecimal BestParser JsJson
begin

text \<open>
  \<^verbatim>\<open>src/investments/hapoalim/parser.ts\<close>: the securities executions the bank lists become executions of one product, under a
  natural key that hashes everything identifying about them. \<^verbatim>\<open>HapoalimInvestmentError\<close> carries its code as the text of the
  error.
\<close>

section \<open>Reading\<close>

record hapoalim_env =
  ha_zod :: zod_env
  ha_sha256 :: "jsstr \<Rightarrow> jsstr"

record execution_window =
  ew_selector :: jsstr
  ew_from :: jsstr
  ew_to :: jsstr
  ew_observedAt :: jsstr

record securities_read =
  sr_portfolio :: jsval
  sr_executions :: "jsval list"
  sr_paginationComplete :: bool
  sr_historyPages :: nat

definition incomplete_response :: js_error where
  "incomplete_response = OtherError ''INCOMPLETE_RESPONSE''"

definition exact_money :: "jsval \<Rightarrow> jsstr res" where
  "exact_money v = bindE (sourceDecimal v) (\<lambda>d.
     let i = default (index_of 46 d) (length d); fraction = drop (Suc i) d in
     if length fraction > 2 then invalid else Inr (take i d @ js ''.'' @ fraction @ replicate (2 - length fraction) 48))"

text \<open>\<^verbatim>\<open>T\d{2}:\d{2}:\d{2}\.\d{7}(?:[+-]\d{2}:\d{2})?\<close> after the date.\<close>

definition bank_clock :: "jsstr \<Rightarrow> bool" where
  "bank_clock s = (case s of t # h1 # h2 # c1 # m1 # m2 # c2 # s1 # s2 # p # rest \<Rightarrow>
       t = 84 \<and> c1 = 58 \<and> c2 = 58 \<and> p = 46 \<and> list_all is_digit [h1, h2, m1, m2, s1, s2] \<and> 7 \<le> length rest \<and> list_all is_digit (take 7 rest) \<and>
       (case drop 7 rest of [] \<Rightarrow> True
        | [sign, a1, a2, c, b1, b2] \<Rightarrow> (sign = 43 \<or> sign = 45) \<and> c = 58 \<and> list_all is_digit [a1, a2, b1, b2]
        | _ \<Rightarrow> False)
     | _ \<Rightarrow> False)"

definition bank_date :: "jsval \<Rightarrow> jsstr res" where
  "bank_date v = (case v of
     JStr s \<Rightarrow> if dashed_date (take 10 s) \<and> bank_clock (drop 10 s) then Inr (take 10 s) else invalid
   | _ \<Rightarrow> invalid)"

definition real_date :: "jsstr \<Rightarrow> jsstr res" where
  "real_date d = (if d < js ''1900-01-01'' then invalid
     else bindE (to_iso_string (parse_stamp (d @ js ''T12:00:00Z''))) (\<lambda>iso. if take 10 iso \<noteq> d then invalid else Inr d))"

definition calendarDate_required :: "jsval \<Rightarrow> jsstr res" where
  "calendarDate_required v = bindE (bank_date v) real_date"

definition calendarDate_nullable :: "jsval \<Rightarrow> jsstr option res" where
  "calendarDate_nullable v =
     (if v = JNull then Inr None
      else bindE (bank_date v) (\<lambda>d. if d = js ''0001-01-01'' then Inr None else bindE (real_date d) (\<lambda>x. Inr (Some x))))"

definition currencies :: "(jsstr \<times> jsstr) list" where
  "currencies =
     [([1513, 1511, 1500, 32, 1495, 1491, 1513], js ''ILS''), ([1491, 1493, 1500, 1512, 32, 1488, 1512, 1492, 34, 1489], js ''USD''), ([1488, 1497, 1512, 1493], js ''EUR''),
      ([1500, 1497, 1512, 1492, 32, 1513, 1496, 1512, 1500, 1497, 1504, 1490], js ''GBP''), ([1497, 1503, 32, 1497, 1508, 1504, 1497], js ''JPY''),
      (js ''ILS'', js ''ILS''), (js ''USD'', js ''USD''), (js ''EUR'', js ''EUR''), (js ''GBP'', js ''GBP''), (js ''JPY'', js ''JPY'')]"

definition TO_ACCOUNT :: jsstr where
  "TO_ACCOUNT = [1492, 1506, 1489, 1512, 1492, 32, 1500, 1494, 1499, 1493, 1514, 32, 1492, 1508, 1511, 1491, 1493, 1503]"

definition FROM_ACCOUNT :: jsstr where
  "FROM_ACCOUNT = [1492, 1506, 1489, 1512, 1492, 32, 1500, 1495, 1493, 1489, 1514, 32, 1492, 1508, 1511, 1491, 1493, 1503]"

definition TWO_SIDED :: jsstr where
  "TWO_SIDED = [32, 40, 1491, 1493, 32, 1510, 1491, 1491, 1497, 1514, 41]"

definition kinds :: "(jsstr \<times> execution_kind) list" where
  "kinds =
     [([1511, 1504, 1497, 1492], Buy), ([1502, 1499, 1497, 1512, 1492], Sell), ([1491, 1489, 1497, 1491, 1504, 1491, 32, 1514, 1513, 1500, 1493, 1501], Dividend),
      ([1512, 1497, 1489, 1497, 1514, 32, 1514, 1513, 1500, 1493, 1501], Interest), ([1508, 1491, 1497, 1493, 1503], Redemption),
      ([1492, 1496, 1489, 1492, 32, 1495, 1500, 1493, 1511, 1514, 32, 1502, 1504, 1497, 1493, 1514], StockBonus),
      (TO_ACCOUNT, ExecutionIn), (FROM_ACCOUNT, ExecutionOut), (TO_ACCOUNT @ TWO_SIDED, ExecutionIn), (FROM_ACCOUNT @ TWO_SIDED, ExecutionOut)]"

definition currency_of :: "jsval \<Rightarrow> jsstr res" where
  "currency_of v = (case v of JStr s \<Rightarrow> (case map_of currencies s of None \<Rightarrow> invalid | Some c \<Rightarrow> Inr c) | _ \<Rightarrow> invalid)"

text \<open>\<^verbatim>\<open>String(value)\<close>.\<close>

fun js_to_string :: "jsval \<Rightarrow> jsstr" where
  "js_to_string JUndef = js ''undefined''"
| "js_to_string JNull = js ''null''"
| "js_to_string JNonFinite = js ''NaN''"
| "js_to_string (JBool b) = (if b then js ''true'' else js ''false'')"
| "js_to_string (JNum n) = num_to_string n"
| "js_to_string (JStr s) = s"
| "js_to_string (JArr vs) = join_with (js '','') (map (\<lambda>v. if v = JUndef \<or> v = JNull then [] else js_to_string v) vs)"
| "js_to_string (JObj ps) = js ''[object Object]''"

definition plain_number :: "jsstr \<Rightarrow> jsstr" where
  "plain_number s = (case js_number s of None \<Rightarrow> js ''Infinity'' | Some n \<Rightarrow> num_to_string n)"

text \<open>\<^verbatim>\<open>/^\d+-\d+-\d+$/\<close>\<close>

definition selector_text :: "jsstr \<Rightarrow> bool" where
  "selector_text s = (case split_on 45 s of [a, b, c] \<Rightarrow> list_all (\<lambda>part. part \<noteq> [] \<and> list_all is_digit part) [a, b, c] | _ \<Rightarrow> False)"

definition own_account :: "jsstr \<Rightarrow> fields \<Rightarrow> bool" where
  "own_account selector row \<longleftrightarrow> selector_text selector \<and> (case split_on 45 selector of
     [bank, branch, account] \<Rightarrow>
       js_to_string (field row ''Branch'') = plain_number branch \<and> js_to_string (field row ''Account'') = plain_number account
   | _ \<Rightarrow> False)"

definition YES :: jsstr where "YES = [1499, 1503]"
definition NO :: jsstr where "NO = [1500, 1488]"

definition securities_product :: "jsstr \<Rightarrow> jsstr res" where
  "securities_product selector = investmentProductId (selector @ js '':securities'') Hapoalim"

section \<open>One execution\<close>

definition json_optional :: "jsstr option \<Rightarrow> jsval" where
  "json_optional v = (case v of None \<Rightarrow> JNull | Some s \<Rightarrow> JStr s)"

record execution_dates =
  ed_trade :: jsstr
  ed_value :: "jsstr option"
  ed_settlement :: "jsstr option"
  ed_cancel :: "jsstr option"
  ed_cancelled :: bool

definition read_dates :: "execution_window \<Rightarrow> fields \<Rightarrow> execution_dates res" where
  "read_dates w row =
     bindE (calendarDate_required (field row ''TradeDate'')) (\<lambda>tradeDate.
     if tradeDate < ew_from w \<or> ew_to w < tradeDate \<or> field row ''IsCancelTransaction'' \<notin> {JStr YES, JStr NO} then invalid
     else
     bindE (calendarDate_nullable (field row ''ValueDate'')) (\<lambda>valueDate.
     bindE (calendarDate_nullable (field row ''SettlementDate'')) (\<lambda>settlementDate.
     bindE (calendarDate_nullable (field row ''CancelDate'')) (\<lambda>cancelDate.
     let cancelled = (field row ''IsCancelTransaction'' = JStr YES) in
     if cancelled \<and> cancelDate = None then invalid
     else Inr \<lparr>ed_trade = tradeDate, ed_value = valueDate, ed_settlement = settlementDate, ed_cancel = cancelDate, ed_cancelled = cancelled\<rparr>))))"

definition natural_identity :: "execution_window \<Rightarrow> execution_dates \<Rightarrow> jsstr \<Rightarrow> jsstr \<Rightarrow> jsstr \<Rightarrow> jsstr option \<Rightarrow> jsstr option \<Rightarrow> jsstr option \<Rightarrow>
    jsstr option \<Rightarrow> jsstr option \<Rightarrow> jsstr option \<Rightarrow> jsval" where
  "natural_identity w ds securityId tradeType transactionType quantity unitPrice netCash paymentType paymentDate exDate =
     JArr ([JStr (ew_selector w), JStr securityId, JStr (ed_trade ds), json_optional (ed_value ds), json_optional (ed_settlement ds), JStr tradeType, JStr transactionType] @
       map json_optional [quantity, unitPrice, netCash, paymentType, paymentDate, exDate, ed_cancel ds])"

definition natural_source :: "hapoalim_env \<Rightarrow> jsval \<Rightarrow> jsstr" where
  "natural_source env v = js ''natural-key-v1:'' @ ha_sha256 env (json_text v)"

definition nullish :: "jsval \<Rightarrow> jsval \<Rightarrow> jsval" where
  "nullish a b = (if a = JUndef \<or> a = JNull then b else a)"

definition parseHapoalimExecution :: "hapoalim_env \<Rightarrow> execution_window \<Rightarrow> jsval \<Rightarrow> inv_execution res" where
  "parseHapoalimExecution env w v =
     bindE (clalRecord v) (\<lambda>row.
     if \<not> own_account (ew_selector w) row then invalid
     else
     bindE (securities_product (ew_selector w)) (\<lambda>productId.
     bindE (read_dates w row) (\<lambda>ds.
     bindE (clal_text (field row ''Security'')) (\<lambda>securityId.
     bindE (clal_text (field row ''TradeType'')) (\<lambda>tradeType.
     bindE (clal_text (field row ''TransactionType'')) (\<lambda>transactionType.
     bindE (nullable clal_text (field row ''PaymentType'')) (\<lambda>paymentType.
     bindE (nullable sourceDecimal (field row ''NV'')) (\<lambda>quantity.
     bindE (nullable sourceDecimal (field row ''TradePrice'')) (\<lambda>unitPrice.
     bindE (nullable exact_money (field row ''NetValueTradeCurrency'')) (\<lambda>netCash.
     bindE (calendarDate_nullable (field row ''PaymentDate'')) (\<lambda>paymentDate.
     bindE (calendarDate_nullable (field row ''ExDate'')) (\<lambda>exDate.
     let sourceId = natural_source env (natural_identity w ds securityId tradeType transactionType quantity unitPrice netCash paymentType paymentDate exDate) in
     bindE (investmentExecutionId productId sourceId) (\<lambda>i.
     bindE (nullable clal_text (field row ''ISIN'')) (\<lambda>isin.
     bindE (nullable clal_text (field row ''Symbol'')) (\<lambda>symbol.
     bindE (clal_text (nullish (field row ''EngName'') (field row ''HebName''))) (\<lambda>name.
     bindE (currency_of (field row ''TradeCurrency'')) (\<lambda>currency.
     bindE (nullable exact_money (field row ''NetValueSettlementCurrency'')) (\<lambda>settlementNetCash.
     bindE (currency_of (field row ''SettlementCurrency'')) (\<lambda>settlementCurrency.
       checked_by (execution_ok (ha_zod env)) trim_execution
         \<lparr>ie_id = i, ie_productId = productId, ie_sourceId = sourceId, ie_kind = default (map_of kinds tradeType) OtherExecution, ie_securityId = securityId,
          ie_isin = isin, ie_symbol = symbol, ie_name = name, ie_tradeDate = ed_trade ds, ie_valueDate = ed_value ds, ie_settlementDate = ed_settlement ds,
          ie_cancelDate = ed_cancel ds, ie_cancelled = ed_cancelled ds, ie_quantity = quantity, ie_unitPrice = unitPrice, ie_netCashAmount = netCash,
          ie_currency = currency, ie_settlementNetCashAmount = settlementNetCash, ie_settlementCurrency = settlementCurrency, ie_sourceTradeType = tradeType,
          ie_sourceTransactionType = transactionType, ie_sourcePaymentType = paymentType, ie_observedAt = ew_observedAt w\<rparr>)))))))))))))))))))"

section \<open>The snapshot\<close>

definition hapoalim_product :: "execution_window \<Rightarrow> jsstr \<Rightarrow> inv_product" where
  "hapoalim_product w productId =
     \<lparr>ip_id = productId, ip_provider = Hapoalim, ip_providerProductId = ew_selector w @ js '':securities'', ip_kind = PlainInvestment,
      ip_name = js ''Hapoalim Investments'', ip_currency = js ''ILS'', ip_currentValuationId = None, ip_liquidity = LiquidityUnknown,
      ip_availableFrom = None, ip_availableAmount = None, ip_valuations = CoverNone, ip_activities = CoverNone, ip_tracks = CoverNone,
      ip_executions = Some CoverPartial, ip_forecast = None, ip_reports = None\<rparr>"

definition buildHapoalimSnapshot :: "hapoalim_env \<Rightarrow> securities_read \<Rightarrow> execution_window \<Rightarrow> inv_snapshot res" where
  "buildHapoalimSnapshot env r w =
     bindE (clalRecord (sr_portfolio r)) (\<lambda>portfolio.
     bindE (clalRecord (field portfolio ''View'')) (\<lambda>view.
     bindE (clalRecord (field view ''Meta'')) (\<lambda>meta.
     if field meta ''Security'' \<noteq> JUndef \<and> array_of (field meta ''Security'') = None then invalid
     else
     bindE (securities_product (ew_selector w)) (\<lambda>productId.
     bindE (mapE (parseHapoalimExecution env w) (sr_executions r)) (\<lambda>executions.
     if \<not> distinct (map ie_id executions) \<or> \<not> sr_paginationComplete r then Inl incomplete_response
     else parse_snapshot (ha_zod env)
       \<lparr>id_products = [hapoalim_product w productId], id_valuations = [], id_activities = [], id_tracks = [], id_executions = executions,
        sn_observedAt = ew_observedAt w, sn_complete = True, sn_inventoryComplete = False\<rparr>)))))"

section \<open>The history is exact\<close>

lemma read_dates_window:
  assumes "read_dates w row = Inr ds"
  shows "ew_from w \<le> ed_trade ds \<and> ed_trade ds \<le> ew_to w \<and> (ed_cancelled ds \<longrightarrow> ed_cancel ds \<noteq> None)"
  using assms by (auto simp: read_dates_def Let_def not_less split: if_splits)

lemma parsed_execution:
  assumes "parseHapoalimExecution env w v = Inr e"
  shows "trim_execution e = e \<and> ew_from w \<le> ie_tradeDate e \<and> ie_tradeDate e \<le> ew_to w \<and> (ie_cancelled e \<longrightarrow> ie_cancelDate e \<noteq> None) \<and> ie_observedAt e = ew_observedAt w"
proof -
  have "\<exists>row. \<not> \<not> own_account (ew_selector w) row \<and> clalRecord v = Inr row"
    using assms by (auto simp: parseHapoalimExecution_def split: if_splits)
  then obtain row where row: "\<not> \<not> own_account (ew_selector w) row" "clalRecord v = Inr row"
    by blast
  obtain ds x where x: "read_dates w row = Inr ds" "checked_by (execution_ok (ha_zod env)) trim_execution x = Inr e"
      "ie_tradeDate x = ed_trade ds" "ie_cancelled x = ed_cancelled ds" "ie_cancelDate x = ed_cancel ds" "ie_observedAt x = ew_observedAt w"
    using assms unfolding parseHapoalimExecution_def row(2) bindE_simps if_not_P [OF row(1)] bindE_eq_Inr Let_def
    by (elim exE conjE) (rule that, assumption, assumption, simp_all)
  then have "e = trim_execution x"
    by (simp add: checked_by_ok)
  with read_dates_window [OF x(1)] x(3-6) show ?thesis
    by (simp add: trim_execution_def js_trim_idem option.map_comp comp_def)
qed

text \<open>
  C35: the bank's execution history is taken over exactly. When a read of the securities account becomes a snapshot, its
  executions are the rows of the bank, each read on its own, in their order, with pairwise different ids: none is dropped or merged,
  all pages were read, every trade lies in the requested window, a cancelled one has its cancellation date, and nothing is said about
  values, which the read does not prove.
\<close>

theorem hapoalim_history_exact:
  assumes "buildHapoalimSnapshot env r w = Inr s"
  shows "list_all2 (\<lambda>v e. parseHapoalimExecution env w v = Inr e) (sr_executions r) (id_executions s) \<and> distinct (map ie_id (id_executions s)) \<and>
    sr_paginationComplete r \<and> id_valuations s = [] \<and> \<not> sn_inventoryComplete s \<and>
    (\<forall>e\<in>set (id_executions s). ew_from w \<le> ie_tradeDate e \<and> ie_tradeDate e \<le> ew_to w \<and> (ie_cancelled e \<longrightarrow> ie_cancelDate e \<noteq> None))"
proof -
  obtain productId executions where m: "mapE (parseHapoalimExecution env w) (sr_executions r) = Inr executions" "distinct (map ie_id executions)" "sr_paginationComplete r"
      "parse_snapshot (ha_zod env) \<lparr>id_products = [hapoalim_product w productId], id_valuations = [], id_activities = [], id_tracks = [], id_executions = executions,
        sn_observedAt = ew_observedAt w, sn_complete = True, sn_inventoryComplete = False\<rparr> = Inr s"
    using assms by (auto simp: buildHapoalimSnapshot_def split: if_splits)
  have all: "list_all2 (\<lambda>v e. parseHapoalimExecution env w v = Inr e) (sr_executions r) executions"
    using m(1) by (simp add: mapE_Inr_iff)
  have each: "\<exists>v. parseHapoalimExecution env w v = Inr e" if "e \<in> set executions" for e
    using all that by (auto simp: list_all2_conv_all_nth in_set_conv_nth)
  then have "map trim_execution executions = executions"
    using parsed_execution by (intro map_idI) blast
  then have "id_executions s = executions" "id_valuations s = []" "\<not> sn_inventoryComplete s"
    using m(4) by (simp_all add: parse_snapshot_def checked_by_ok trim_data_def)
  with all each m(2,3) parsed_execution show ?thesis
    by blast
qed

end
