(* ===== verification/HapoalimExample.thy ===== *)
theory HapoalimExample
  imports HapoalimParser InvExample InvDeposits JsInteger
begin

text \<open>One purchase of ten shares.\<close>

definition example_hapoalim :: hapoalim_env where
  "example_hapoalim = \<lparr>ha_zod = example_zod, ha_sha256 = (\<lambda>_. replicate 64 48)\<rparr>"

definition example_window :: execution_window where
  "example_window = \<lparr>ew_selector = js ''1-6-3'', ew_from = js ''2024-01-01'', ew_to = js ''2024-07-10'', ew_observedAt = js ''2024-07-10T08:00:00.000Z''\<rparr>"

definition example_execution_row :: fields where
  "example_execution_row =
     [(js ''Branch'', JStr (js ''6'')), (js ''Account'', JStr (js ''3'')), (js ''TradeDate'', JStr (js ''2024-07-01T00:00:00.0000000'')),
      (js ''IsCancelTransaction'', JStr NO), (js ''ValueDate'', JNull), (js ''SettlementDate'', JNull), (js ''CancelDate'', JNull),
      (js ''Security'', JStr (js ''S1'')), (js ''TradeType'', JStr (js ''B'')), (js ''TransactionType'', JStr (js ''T'')), (js ''PaymentType'', JNull),
      (js ''NV'', JStr (js ''10'')), (js ''TradePrice'', JNull), (js ''NetValueTradeCurrency'', JNull), (js ''PaymentDate'', JNull), (js ''ExDate'', JNull),
      (js ''ISIN'', JNull), (js ''Symbol'', JNull), (js ''EngName'', JStr (js ''Share'')), (js ''TradeCurrency'', JStr (js ''USD'')),
      (js ''NetValueSettlementCurrency'', JNull), (js ''SettlementCurrency'', JStr (js ''ILS''))]"

definition example_source :: jsstr where
  "example_source = js ''natural-key-v1:'' @ replicate 64 48"

definition example_execution :: inv_execution where
  "example_execution = \<lparr>ie_id = js ''hapoalim:1-6-3%3Asecurities:execution:natural-key-v1%3A'' @ replicate 64 48,
     ie_productId = js ''hapoalim:1-6-3%3Asecurities'', ie_sourceId = example_source, ie_kind = OtherExecution, ie_securityId = js ''S1'', ie_isin = None,
     ie_symbol = None, ie_name = js ''Share'', ie_tradeDate = js ''2024-07-01'', ie_valueDate = None, ie_settlementDate = None, ie_cancelDate = None,
     ie_cancelled = False, ie_quantity = Some (js ''10''), ie_unitPrice = None, ie_netCashAmount = None, ie_currency = js ''USD'',
     ie_settlementNetCashAmount = None, ie_settlementCurrency = js ''ILS'', ie_sourceTradeType = js ''B'', ie_sourceTransactionType = js ''T'',
     ie_sourcePaymentType = None, ie_observedAt = js ''2024-07-10T08:00:00.000Z''\<rparr>"

lemma hapoalim_fields:
  "field example_execution_row ''TradeDate'' = JStr (js ''2024-07-01T00:00:00.0000000'')" "field example_execution_row ''IsCancelTransaction'' = JStr NO"
  "field example_execution_row ''ValueDate'' = JNull" "field example_execution_row ''SettlementDate'' = JNull" "field example_execution_row ''CancelDate'' = JNull"
  "field example_execution_row ''Security'' = JStr (js ''S1'')" "field example_execution_row ''TradeType'' = JStr (js ''B'')"
  "field example_execution_row ''TransactionType'' = JStr (js ''T'')" "field example_execution_row ''PaymentType'' = JNull" "field example_execution_row ''NV'' = JStr (js ''10'')"
  "field example_execution_row ''TradePrice'' = JNull" "field example_execution_row ''NetValueTradeCurrency'' = JNull" "field example_execution_row ''PaymentDate'' = JNull"
  "field example_execution_row ''ExDate'' = JNull" "field example_execution_row ''ISIN'' = JNull" "field example_execution_row ''Symbol'' = JNull"
  "field example_execution_row ''EngName'' = JStr (js ''Share'')" "field example_execution_row ''TradeCurrency'' = JStr (js ''USD'')"
  "field example_execution_row ''NetValueSettlementCurrency'' = JNull" "field example_execution_row ''SettlementCurrency'' = JStr (js ''ILS'')"
  by (simp_all add: field_def js_prop_def example_execution_row_def)

lemma hapoalim_account: "own_account (js ''1-6-3'') example_execution_row"
proof -
  have "js_number (js ''6'') = Some 6" "js_number (js ''3'') = Some 3"
    using js_number_digits [of "js ''6''"] js_number_digits [of "js ''3''"] by (simp_all add: is_digit_def digits_int_def)
  moreover have "num_to_string 6 = js ''6''" "num_to_string 3 = js ''3''"
    by code_simp+
  ultimately have "plain_number (js ''6'') = js ''6''" "plain_number (js ''3'') = js ''3''"
    by (simp_all add: plain_number_def)
  moreover have "field example_execution_row ''Branch'' = JStr (js ''6'')" "field example_execution_row ''Account'' = JStr (js ''3'')"
    by (simp_all add: field_def js_prop_def example_execution_row_def)
  moreover have "split_on 45 (js ''1-6-3'') = [js ''1'', js ''6'', js ''3'']"
    by code_simp
  moreover have "list_all (\<lambda>part. part \<noteq> [] \<and> list_all is_digit part) [js ''1'', js ''6'', js ''3'']"
    by code_simp
  ultimately show ?thesis
    unfolding own_account_def selector_text_def by simp
qed

lemma hapoalim_product_id: "securities_product (js ''1-6-3'') = Inr (js ''hapoalim:1-6-3%3Asecurities'')"
  by (simp add: securities_product_def investmentProductId_def id_part_def js_trim_def is_space_def uri_unreserved_def is_word_def is_digit_def is_upper_def is_lower_def
   is_low_def is_high_def utf8_cp_def pct_def hex_char_def checked_id_def provider_text_def)

lemma hapoalim_dates:
  "read_dates example_window example_execution_row = Inr \<lparr>ed_trade = js ''2024-07-01'', ed_value = None, ed_settlement = None, ed_cancel = None, ed_cancelled = False\<rparr>"
proof -
  have "calendarDate_required (JStr (js ''2024-07-01T00:00:00.0000000'')) = Inr (js ''2024-07-01'')"
    by code_simp
  moreover have "\<not> js ''2024-07-01'' < js ''2024-01-01''" "\<not> js ''2024-07-10'' < js ''2024-07-01''" "NO \<noteq> YES"
    by code_simp+
  ultimately show ?thesis
    by (simp add: read_dates_def hapoalim_fields calendarDate_nullable_def example_window_def del: bindE_eq_Inr)
qed

lemma hapoalim_texts:
  "clal_text (JStr (js ''S1'')) = Inr (js ''S1'')" "clal_text (JStr (js ''B'')) = Inr (js ''B'')" "clal_text (JStr (js ''T'')) = Inr (js ''T'')" "clal_text (JStr (js ''Share'')) = Inr (js ''Share'')"
  "currency_of (JStr (js ''USD'')) = Inr (js ''USD'')" "currency_of (JStr (js ''ILS'')) = Inr (js ''ILS'')" "map_of kinds (js ''B'') = None"
  by (simp_all add: clal_text_def js_trim_def is_space_def currency_of_def currencies_def kinds_def TO_ACCOUNT_def FROM_ACCOUNT_def TWO_SIDED_def)

lemma hapoalim_ten: "sourceDecimal (JStr (js ''10'')) = Inr (js ''10'')"
  by code_simp

lemma hapoalim_execution_id:
  assumes "sha256_text h"
  shows "investmentExecutionId p (js ''natural-key-v1:'' @ h) = checked_id (p @ js '':execution:natural-key-v1%3A'' @ h)"
proof -
  have "h \<noteq> []" "lower_hex (last h)"
    using assms last_in_set [of h] by (cases "h = []"; simp add: sha256_text_def list_all_iff)+
  then have "js_trim (js ''natural-key-v1:'' @ h) = js ''natural-key-v1:'' @ h"
    by (intro js_trim_same) (auto simp: is_space_def lower_hex_def is_digit_def)
  moreover have "encodeURIComponent (js ''natural-key-v1:'' @ h) = Inr (js ''natural-key-v1%3A'' @ h)"
    using encode_unreserved [OF sha_unreserved [OF assms]]
    by (simp add: uri_unreserved_def is_word_def is_digit_def is_lower_def is_upper_def is_low_def is_high_def utf8_cp_def pct_def hex_char_def)
  ultimately show ?thesis
    by (simp add: investmentExecutionId_def id_part_def Let_def)
qed

lemma hapoalim_hash: "sha256_text (replicate 64 48)"
  by (simp add: sha256_text_def lower_hex_def is_digit_def list_all_iff)

lemma hapoalim_execution_trim: "trim_execution example_execution = example_execution"
proof -
  have ends: "js_trim (js ''h'' @ x @ replicate 64 48) = js ''h'' @ x @ replicate 64 48" for x
    by (intro js_trim_same) (simp_all add: is_space_def)
  show ?thesis
    using ends [of "js ''apoalim:1-6-3%3Asecurities:execution:natural-key-v1%3A''"]
    by (simp add: trim_execution_def example_execution_def js_trim_def is_space_def)
qed

lemma hapoalim_execution_ok: "execution_ok example_zod example_execution"
proof -
  have "ze_date example_zod (js ''2024-07-01'')"
    by code_simp
  moreover have "natural_key example_source" "securityDecimal (js ''10'')"
    by (simp_all add: natural_key_def example_source_def starts_with_def lower_hex_def is_digit_def list_all_iff securityDecimal_def decimal_def whole_number_def)
  ultimately show ?thesis
    using example_observed by (simp add: execution_ok_def example_execution_def sized_def null_or_def currency_code_def is_upper_def)
qed

lemma hapoalim_parsed: "parseHapoalimExecution example_hapoalim example_window (JObj example_execution_row) = Inr example_execution"
proof -
  have env: "ha_zod example_hapoalim = example_zod" "ha_sha256 example_hapoalim x = replicate 64 48" for x
    by (simp_all add: example_hapoalim_def)
  have w: "ew_selector example_window = js ''1-6-3''" "ew_observedAt example_window = js ''2024-07-10T08:00:00.000Z''"
    by (simp_all add: example_window_def)
  have source: "natural_source example_hapoalim v = example_source" for v
    by (simp add: natural_source_def env example_source_def)
  have i: "investmentExecutionId (js ''hapoalim:1-6-3%3Asecurities'') example_source = Inr (ie_id example_execution)"
    using hapoalim_execution_id [OF hapoalim_hash] by (simp add: example_source_def checked_id_def example_execution_def)
  have "checked_by (execution_ok example_zod) trim_execution example_execution = Inr example_execution"
    by (simp add: checked_by_def hapoalim_execution_trim hapoalim_execution_ok)
  then show ?thesis
    unfolding parseHapoalimExecution_def clalRecord_def jsval.case bindE_simps w hapoalim_product_id hapoalim_dates hapoalim_fields nullable_def Let_def source
    using hapoalim_account hapoalim_texts hapoalim_ten i
    by (simp add: calendarDate_nullable_def nullish_def env del: bindE_eq_Inr) (simp add: example_execution_def)
qed

definition example_read :: securities_read where
  "example_read = \<lparr>sr_portfolio = JObj [(js ''View'', JObj [(js ''Meta'', JObj [])])], sr_executions = [JObj example_execution_row], sr_paginationComplete = True, sr_historyPages = 1\<rparr>"

definition example_securities :: inv_snapshot where
  "example_securities = \<lparr>id_products = [hapoalim_product example_window (js ''hapoalim:1-6-3%3Asecurities'')], id_valuations = [], id_activities = [], id_tracks = [],
     id_executions = [example_execution], sn_observedAt = js ''2024-07-10T08:00:00.000Z'', sn_complete = True, sn_inventoryComplete = False\<rparr>"

lemma hapoalim_built: "buildHapoalimSnapshot example_hapoalim example_read example_window = Inr example_securities"
proof -
  let ?p = "hapoalim_product example_window (js ''hapoalim:1-6-3%3Asecurities'')"
  have "trim_product ?p = ?p" "product_ok example_zod ?p"
    by (simp_all add: hapoalim_product_def example_window_def trim_product_def product_ok_def js_trim_def is_space_def sized_def currency_code_def is_upper_def null_or_def)
  then have "parse_snapshot example_zod example_securities = Inr example_securities"
    using example_observed hapoalim_execution_trim hapoalim_execution_ok
    by (simp add: parse_snapshot_def checked_by_def data_ok_def trim_data_def example_securities_def)
  moreover have "securities_product (ew_selector example_window) = Inr (js ''hapoalim:1-6-3%3Asecurities'')" "ha_zod example_hapoalim = example_zod"
      "ew_observedAt example_window = js ''2024-07-10T08:00:00.000Z''"
    using hapoalim_product_id by (simp_all add: example_window_def example_hapoalim_def)
  ultimately show ?thesis
    using hapoalim_parsed
    by (simp add: buildHapoalimSnapshot_def example_read_def field_def js_prop_def clalRecord_def example_securities_def del: bindE_eq_Inr)
qed

theorem hapoalim_history_exact_witness:
  "buildHapoalimSnapshot example_hapoalim example_read example_window = Inr example_securities \<and> id_executions example_securities = [example_execution] \<and>
   ew_from example_window \<le> ie_tradeDate example_execution"
proof -
  have "id_executions example_securities = [example_execution]"
    by (simp add: example_securities_def)
  with hapoalim_built hapoalim_history_exact [OF hapoalim_built] show ?thesis
    by simp
qed

end
