(* ===== verification/HapoalimPages.thy ===== *)
theory HapoalimPages
  imports HapoalimParser ScrapeBasics
begin

text \<open>
  The part of \<^verbatim>\<open>src/investments/hapoalim/browser.ts\<close> that decides: which requests may leave the trading page, and how the
  pages of the execution history are followed. The bank's answers to the n-th request are a parameter.
\<close>

section \<open>Answers\<close>

definition truthy :: "jsval \<Rightarrow> bool" where
  "truthy v \<longleftrightarrow> v \<notin> {JUndef, JNull, JBool False, JNum 0, JStr []}"

definition collection_failed :: js_error where
  "collection_failed = OtherError ''COLLECTION_FAILED''"

definition bank_record :: "jsval \<Rightarrow> fields res" where
  "bank_record v = bindE (clalRecord v) (\<lambda>r.
     let exception = field r ''Exception'' in
     if truthy exception \<or> field r ''messageCode'' = JNum 0 \<and> field r ''severity'' = JStr (js ''E'')
     then Inl (if js_prop (js_object exception) ''-ExceptionType'' = JStr (js ''InvalidSessionException'') then collection_failed else invalid_response)
     else Inr r)"

definition historyPage :: "jsval \<Rightarrow> (jsval list \<times> jsstr option) res" where
  "historyPage v = bindE (bank_record v) (\<lambda>r. bindE (bank_record (field r ''Account'')) (\<lambda>account.
     let rows = field account ''Execution''; state = field account ''PageState'' in
     if rows \<noteq> JUndef \<and> array_of rows = None \<or> \<not> (case state of JUndef \<Rightarrow> True | JNull \<Rightarrow> True | JStr s \<Rightarrow> True | _ \<Rightarrow> False) then invalid
     else Inr (default (array_of rows) [], case state of JStr s \<Rightarrow> if js_trim s = [] then None else Some s | _ \<Rightarrow> None)))"

section \<open>Following the cursor\<close>

definition HAPOALIM_HISTORY_MAX_PAGES :: nat where
  "HAPOALIM_HISTORY_MAX_PAGES = 100"

record bank =
  bk_fetch :: "nat \<Rightarrow> jsstr option \<Rightarrow> jsval res"
  bk_aborted :: "nat \<Rightarrow> bool"

text \<open>The pages that may still be asked for, the number of the next one, and what the loop carries.\<close>

fun follow :: "bank \<Rightarrow> nat \<Rightarrow> nat \<Rightarrow> jsstr list \<Rightarrow> jsstr option \<Rightarrow> jsval list \<Rightarrow> (jsval list \<times> bool \<times> nat) res" where
  "follow b 0 number seen cursor rows = Inl incomplete_response"
| "follow b (Suc k) number seen cursor rows =
     (if bk_aborted b number then Inl (OtherError ''aborted'')
      else
      bindE (bk_fetch b number cursor) (\<lambda>v.
      bindE (historyPage v) (\<lambda>(more, following).
        case following of
          None \<Rightarrow> Inr (rows @ more, True, number)
        | Some c \<Rightarrow>
            if c \<in> set seen \<or> number = HAPOALIM_HISTORY_MAX_PAGES then Inr (rows @ more, False, number)
            else follow b k (Suc number) (c # seen) (Some c) (rows @ more))))"

definition readExecutionPages :: "bank \<Rightarrow> (jsval list \<times> bool \<times> nat) res" where
  "readExecutionPages b = follow b HAPOALIM_HISTORY_MAX_PAGES 1 [] None []"

section \<open>Requests\<close>

record web_url =
  wu_origin :: jsstr
  wu_path :: jsstr

definition HAPOALIM_ORIGIN :: jsstr where
  "HAPOALIM_ORIGIN = js ''https://login.bankhapoalim.co.il''"

definition ends_with :: "jsstr \<Rightarrow> string \<Rightarrow> bool" where
  "ends_with s t \<longleftrightarrow> length t \<le> length s \<and> drop (length s - length t) s = js t"

text \<open>Some suffix of the text.\<close>

fun some_suffix :: "(jsstr \<Rightarrow> bool) \<Rightarrow> jsstr \<Rightarrow> bool" where
  "some_suffix P [] = P []"
| "some_suffix P (c # s) = (P (c # s) \<or> some_suffix P s)"

text \<open>\<^verbatim>\<open>/\/mytrade\/api\/.*\/(?:...)(?:\/|$)/\<close>\<close>

definition starts_segment :: "string list \<Rightarrow> jsstr \<Rightarrow> bool" where
  "starts_segment names s \<longleftrightarrow> list_ex (\<lambda>n. starts_with s (js (CHR 0x2F # n)) \<and>
     (case drop (Suc (length n)) s of [] \<Rightarrow> True | c # rest \<Rightarrow> c = 47)) names"

definition api_names :: "string list \<Rightarrow> jsstr \<Rightarrow> bool" where
  "api_names names = some_suffix (\<lambda>r. starts_with r (js ''/mytrade/api/'') \<and> some_suffix (starts_segment names) (drop 13 r))"

definition ORDER_NAMES :: "string list" where
  "ORDER_NAMES = [''order'', ''orders'', ''trade'', ''trades'']"

definition ACTION_NAMES :: "string list" where
  "ACTION_NAMES = [''buy'', ''sell'', ''cancel'', ''create'', ''submit'', ''execute'', ''transfer'', ''withdraw'', ''deposit'']"

text \<open>The parsed address decides, its path in lower case.\<close>

definition allowedMytradeRequest :: "web_url \<Rightarrow> string \<Rightarrow> bool" where
  "allowedMytradeRequest url method =
     (let pathname = to_lower (wu_path url) in
      if \<not> contains_text (js ''/mytrade/api/'') pathname then True
      else
      let history = (method = ''GET'' \<and> ends_with pathname ''/mytrade/api/v2/json2/order/executions/history'') in
      if api_names ORDER_NAMES pathname \<and> \<not> history \<or> api_names ACTION_NAMES pathname then False
      else
      let sessionBootstrap = (wu_origin url = HAPOALIM_ORIGIN \<and>
        list_ex (ends_with pathname) [''/mytrade/api/v2/json2/login/sso'', ''/mytrade/api/v2/json2/account/init'']) in
      method \<in> {''GET'', ''HEAD'', ''OPTIONS''} \<or>
      method = ''POST'' \<and> (sessionBootstrap \<or> ends_with pathname ''/mytrade/api/v2/json2/account/view''))"

text \<open>The prefix of a real checking request; \<^verbatim>\<open>None\<close> for an address that does not parse.\<close>

definition TRANSACTIONS :: string where
  "TRANSACTIONS = ''/current-account/transactions''"

definition hapoalimApiBase :: "web_url option \<Rightarrow> jsstr option" where
  "hapoalimApiBase url =
     (case url of
        None \<Rightarrow> None
      | Some u \<Rightarrow>
          if wu_origin u \<noteq> HAPOALIM_ORIGIN \<or> \<not> ends_with (wu_path u) TRANSACTIONS then None
          else
          let prefix = take (length (wu_path u) - length TRANSACTIONS) (wu_path u) in
          if 2 \<le> length prefix \<and> hd prefix = 47 \<and> list_all (\<lambda>c. is_word c \<or> c = 45 \<or> c = 47) (tl prefix) then Some (wu_origin u @ prefix) else None)"

definition read_allowed :: "(jsstr \<Rightarrow> web_url option) \<Rightarrow> jsstr \<Rightarrow> execution_window \<Rightarrow> bool" where
  "read_allowed parse apiBase w \<longleftrightarrow> hapoalimApiBase (parse (apiBase @ js TRANSACTIONS)) = Some apiBase \<and>
     selector_text (ew_selector w) \<and> ew_from w \<le> ew_to w \<and> dashed_date (ew_from w) \<and> dashed_date (ew_to w)"

text \<open>The day as the bank's query writes it.\<close>

definition bank_day :: "jsstr \<Rightarrow> jsstr" where
  "bank_day d = drop 8 d @ take 2 (drop 5 d) @ take 4 d"

text \<open>What the reader returns once the portfolio was answered.\<close>

definition readHapoalimSecurities :: "(jsstr \<Rightarrow> web_url option) \<Rightarrow> jsstr \<Rightarrow> execution_window \<Rightarrow> jsval res \<Rightarrow> bank \<Rightarrow> securities_read res" where
  "readHapoalimSecurities parse apiBase w portfolio b =
     (if \<not> read_allowed parse apiBase w then invalid
      else
      bindE portfolio (\<lambda>v.
      bindE (bank_record v) (\<lambda>_.
      bindE (readExecutionPages b) (\<lambda>(rows, finished, pages).
        Inr \<lparr>sr_portfolio = v, sr_executions = rows, sr_paginationComplete = finished, sr_historyPages = pages\<rparr>))))"

section \<open>Every page once\<close>

text \<open>The cursor of each page after the first is the one its predecessor named.\<close>

fun chained :: "bank \<Rightarrow> nat \<Rightarrow> jsstr option \<Rightarrow> (jsval list \<times> jsstr option) list \<Rightarrow> bool" where
  "chained b number cursor [] = True"
| "chained b number cursor (p # ps) =
     (bindE (bk_fetch b number cursor) historyPage = Inr p \<and> (ps = [] \<or> snd p \<noteq> None) \<and> chained b (Suc number) (snd p) ps)"

lemma follow_pages:
  assumes "follow b k number seen cursor rows = Inr (es, finished, n)" "distinct seen" "number + k = Suc HAPOALIM_HISTORY_MAX_PAGES"
  shows "\<exists>ps. ps \<noteq> [] \<and> chained b number cursor ps \<and> es = rows @ concat (map fst ps) \<and> n + 1 = number + length ps \<and> n \<le> HAPOALIM_HISTORY_MAX_PAGES \<and>
     (finished \<longleftrightarrow> snd (last ps) = None) \<and> distinct (map Some seen @ map snd (butlast ps))"
  using assms
proof (induction k arbitrary: number seen cursor rows)
  case (Suc k)
  from Suc.prems(1) obtain v more following where p: "bk_fetch b number cursor = Inr v" "historyPage v = Inr (more, following)"
      "(case following of
          None \<Rightarrow> Inr (rows @ more, True, number)
        | Some c \<Rightarrow>
            if c \<in> set seen \<or> number = HAPOALIM_HISTORY_MAX_PAGES then Inr (rows @ more, False, number)
            else follow b k (Suc number) (c # seen) (Some c) (rows @ more)) = Inr (es, finished, n)"
    by (auto split: if_splits)
  show ?case
  proof (cases "\<exists>c. following = Some c \<and> c \<notin> set seen \<and> number \<noteq> HAPOALIM_HISTORY_MAX_PAGES")
    case True
    then obtain c where c: "following = Some c" "c \<notin> set seen" "number \<noteq> HAPOALIM_HISTORY_MAX_PAGES"
      by blast
    with p(3) have "follow b k (Suc number) (c # seen) (Some c) (rows @ more) = Inr (es, finished, n)"
      by simp
    from Suc.IH [OF this] Suc.prems(2,3) c(2) obtain ps where ps: "ps \<noteq> []" "chained b (Suc number) (Some c) ps" "es = (rows @ more) @ concat (map fst ps)"
        "n + 1 = Suc number + length ps" "n \<le> HAPOALIM_HISTORY_MAX_PAGES" "finished \<longleftrightarrow> snd (last ps) = None" "distinct (map Some (c # seen) @ map snd (butlast ps))"
      by auto
    with p(1,2) c(1) show ?thesis
      by (intro exI [of _ "(more, following) # ps"]) auto
  next
    case False
    with p(3) have "es = rows @ more" "n = number" "finished \<longleftrightarrow> following = None"
      by (auto split: option.splits if_splits)
    with p(1,2) Suc.prems(2,3) show ?thesis
      by (intro exI [of _ "[(more, following)]"]) (auto simp: distinct_map)
  qed
qed simp

text \<open>
  C36: every page of the history once, in order. When the pages of the execution history are read, at most a hundred of them are asked
  for, each under the cursor its predecessor named and no cursor twice; the rows are those of the pages, one after
  the other, and the read counts as complete exactly when the last page named no further one.
\<close>

theorem pages_read_once:
  assumes "readExecutionPages b = Inr (es, finished, n)"
  shows "\<exists>ps. ps \<noteq> [] \<and> chained b 1 None ps \<and> es = concat (map fst ps) \<and> n = length ps \<and> n \<le> 100 \<and> (finished \<longleftrightarrow> snd (last ps) = None) \<and>
    distinct (map snd (butlast ps))"
  using follow_pages [OF assms [unfolded readExecutionPages_def]] by (auto simp: HAPOALIM_HISTORY_MAX_PAGES_def)

text \<open>With answers to every request the loop always returns; the error after it cannot be reached.\<close>

lemma follow_returns:
  assumes "\<And>i cursor. \<exists>v p. bk_fetch b i cursor = Inr v \<and> historyPage v = Inr p" "\<And>i. \<not> bk_aborted b i" "number + k = Suc HAPOALIM_HISTORY_MAX_PAGES" "k \<noteq> 0"
  shows "\<exists>x. follow b k number seen cursor rows = Inr x"
  using assms(3,4)
proof (induction k arbitrary: number seen cursor rows)
  case (Suc k)
  obtain v more following where p: "bk_fetch b number cursor = Inr v" "historyPage v = Inr (more, following)"
    using assms(1) by (metis surj_pair)
  show ?case
  proof (cases "\<exists>c. following = Some c \<and> c \<notin> set seen \<and> number \<noteq> HAPOALIM_HISTORY_MAX_PAGES")
    case True
    then obtain c where c: "following = Some c" "c \<notin> set seen" "number \<noteq> HAPOALIM_HISTORY_MAX_PAGES"
      by blast
    then have "follow b (Suc k) number seen cursor rows = follow b k (Suc number) (c # seen) (Some c) (rows @ more)"
      using p assms(2) by (simp del: bindE_eq_Inr)
    moreover have "\<exists>x. follow b k (Suc number) (c # seen) (Some c) (rows @ more) = Inr x"
      by (rule Suc.IH) (use Suc.prems(1) c(3) in auto)
    ultimately show ?thesis
      by simp
  next
    case False
    with p assms(2) show ?thesis
      by (cases following) auto
  qed
qed simp

definition example_page :: "jsval \<Rightarrow> (jsstr \<times> jsval) list \<Rightarrow> jsval" where
  "example_page row state = JObj [(js ''Account'', JObj ([(js ''Execution'', JArr [row])] @ state))]"

definition example_bank :: bank where
  "example_bank = \<lparr>bk_fetch = (\<lambda>n cursor. Inr (if cursor = None then example_page (JBool True) [(js ''PageState'', JStr (js ''next''))] else example_page (JBool False) [])), bk_aborted = (\<lambda>_. False)\<rparr>"

theorem pages_read_once_witness:
  "readExecutionPages example_bank = Inr ([JBool True, JBool False], True, 2) \<and>
   (\<exists>ps. chained example_bank 1 None ps \<and> concat (map fst ps) = [JBool True, JBool False] \<and> length ps = 2 \<and> snd (last ps) = None)"
proof -
  have pages: "historyPage (example_page row [(js ''PageState'', JStr (js ''next''))]) = Inr ([row], Some (js ''next''))"
      "historyPage (example_page row []) = Inr ([row], None)" for row
    by (simp_all add: historyPage_def bank_record_def example_page_def clalRecord_def field_def js_prop_def truthy_def array_of_def js_trim_def is_space_def)
  have fetch: "bk_fetch example_bank n None = Inr (example_page (JBool True) [(js ''PageState'', JStr (js ''next''))])"
      "bk_fetch example_bank n (Some c) = Inr (example_page (JBool False) [])" "\<not> bk_aborted example_bank n" for n c
    by (simp_all add: example_bank_def)
  have step: "follow example_bank (Suc (Suc k)) 1 [] None [] = Inr ([JBool True, JBool False], True, 2)" for k
    using pages fetch by (simp add: HAPOALIM_HISTORY_MAX_PAGES_def del: bindE_eq_Inr)
  have "readExecutionPages example_bank = Inr ([JBool True, JBool False], True, 2)"
    using step [of 98] by (simp add: readExecutionPages_def HAPOALIM_HISTORY_MAX_PAGES_def)
  with pages_read_once [OF this] show ?thesis
    by auto
qed

section \<open>No order leaves the page\<close>

theorem only_reads_leave:
  assumes "allowedMytradeRequest url method" "contains_text (js ''/mytrade/api/'') (to_lower (wu_path url))"
  shows "(method \<in> {''GET'', ''HEAD'', ''OPTIONS''} \<or> method = ''POST'' \<and>
      list_ex (ends_with (to_lower (wu_path url))) [''/mytrade/api/v2/json2/login/sso'', ''/mytrade/api/v2/json2/account/init'', ''/mytrade/api/v2/json2/account/view'']) \<and>
    \<not> api_names ACTION_NAMES (to_lower (wu_path url)) \<and> (api_names ORDER_NAMES (to_lower (wu_path url)) \<longrightarrow> ends_with (to_lower (wu_path url)) ''/mytrade/api/v2/json2/order/executions/history'')"
  using assms by (auto simp: allowedMytradeRequest_def Let_def split: if_splits)

end
