(* ===== verification/HapoalimArchive.thy ===== *)
theory HapoalimArchive
  imports HapoalimParser InvHistory
begin

text \<open>
  \<^verbatim>\<open>src/investments/hapoalim/archive.ts\<close>: reviewed valuations of an older archive become history of the securities product,
  each with its evidence. The files are given by their contents; ownership, permissions and the backup are left out.
\<close>

section \<open>The manifest\<close>

record archive_env =
  ar_zod :: zod_env
  ar_offset_datetime :: "jsstr \<Rightarrow> bool"

record source_entry =
  en_id :: jsstr
  en_account_id :: jsstr
  en_entryable_id :: jsstr
  en_date :: jsstr
  en_amount :: jsstr
  en_currency :: jsstr

record archive_valuation =
  ax_sourceEntryId :: jsstr
  ax_externalIdentity :: jsstr
  ax_legacyAccountIdentity :: jsstr
  ax_currency :: jsstr
  ax_observedAt :: jsstr
  ax_asOf :: jsstr
  ax_amount :: jsstr
  ax_entry :: source_entry
  ax_valuationId :: jsstr

record archive =
  ah_sha256 :: jsstr
  ah_observedAt :: jsstr
  ah_basis :: observation_basis
  ah_legacyIdentity :: jsstr
  ah_currency :: jsstr
  ah_accountId :: jsstr
  ah_valuations :: "archive_valuation list"

definition text_where :: "(jsstr \<Rightarrow> bool) \<Rightarrow> jsval \<Rightarrow> jsstr option" where
  "text_where P v = (case v of JStr s \<Rightarrow> if P s then Some s else None | _ \<Rightarrow> None)"

definition literal :: "jsval \<Rightarrow> jsval \<Rightarrow> unit option" where
  "literal expected v = (if v = expected then Some () else None)"

definition object_of :: "jsval \<Rightarrow> fields option" where
  "object_of = js_object"

fun map_opt :: "('a \<Rightarrow> 'b option) \<Rightarrow> 'a list \<Rightarrow> 'b list option" where
  "map_opt f [] = Some []"
| "map_opt f (x # xs) = Option.bind (f x) (\<lambda>y. Option.bind (map_opt f xs) (\<lambda>ys. Some (y # ys)))"

definition source_entry_schema :: "archive_env \<Rightarrow> jsval \<Rightarrow> source_entry option" where
  "source_entry_schema env v = Option.bind (object_of v) (\<lambda>r. let z = ar_zod env in
     Option.bind (text_where (ze_uuid z) (field r ''id'')) (\<lambda>i.
     Option.bind (text_where (ze_uuid z) (field r ''account_id'')) (\<lambda>account.
     Option.bind (text_where (ze_uuid z) (field r ''entryable_id'')) (\<lambda>entryable.
     Option.bind (literal (JStr (js ''Valuation'')) (field r ''entryable_type'')) (\<lambda>_.
     Option.bind (text_where (ze_date z) (field r ''date'')) (\<lambda>date.
     Option.bind (text_where valuation_money (field r ''amount'')) (\<lambda>amount.
     Option.bind (text_where (\<lambda>_. True) (field r ''currency'')) (\<lambda>currency.
     Option.bind (literal (JBool False) (field r ''excluded'')) (\<lambda>_.
       Some \<lparr>en_id = i, en_account_id = account, en_entryable_id = entryable, en_date = date, en_amount = amount, en_currency = currency\<rparr>)))))))))"

definition provenance_schema :: "archive_env \<Rightarrow> jsval \<Rightarrow> (source_entry \<times> jsstr) option" where
  "provenance_schema env v = Option.bind (object_of v) (\<lambda>r.
     Option.bind (literal (JStr (js ''sure_archive'')) (field r ''origin'')) (\<lambda>_.
     Option.bind (literal (JBool False) (field r ''bankObservationVerified'')) (\<lambda>_.
     Option.bind (source_entry_schema env (field r ''sourceEntry'')) (\<lambda>entry.
     Option.bind (object_of (field r ''sourceValuation'')) (\<lambda>q.
     Option.bind (text_where (ze_uuid (ar_zod env)) (field q ''id'')) (\<lambda>i.
     Option.bind (literal (JStr (js ''reconciliation'')) (field q ''kind'')) (\<lambda>_. Some (entry, i))))))))"

definition archive_valuation_schema :: "archive_env \<Rightarrow> jsval \<Rightarrow> archive_valuation option" where
  "archive_valuation_schema env v = Option.bind (object_of v) (\<lambda>r. let z = ar_zod env in
     Option.bind (text_where (ze_uuid z) (field r ''sourceEntryId'')) (\<lambda>i.
     Option.bind (text_where (\<lambda>_. True) (field r ''externalIdentity'')) (\<lambda>external.
     Option.bind (text_where (\<lambda>_. True) (field r ''legacyAccountIdentity'')) (\<lambda>legacy.
     Option.bind (text_where currency_code (field r ''currency'')) (\<lambda>currency.
     Option.bind (text_where (ar_offset_datetime env) (field r ''observedAt'')) (\<lambda>observed.
     Option.bind (text_where (ze_date z) (field r ''asOf'')) (\<lambda>asOf.
     Option.bind (text_where valuation_money (field r ''amount'')) (\<lambda>amount.
     Option.bind (literal (JStr (js ''reconciliation'')) (field r ''sourceKind'')) (\<lambda>_.
     Option.bind (literal (JBool False) (field r ''current'')) (\<lambda>_.
     Option.bind (provenance_schema env (field r ''provenance'')) (\<lambda>(entry, valuation).
       Some \<lparr>ax_sourceEntryId = i, ax_externalIdentity = external, ax_legacyAccountIdentity = legacy, ax_currency = currency, ax_observedAt = observed,
             ax_asOf = asOf, ax_amount = amount, ax_entry = entry, ax_valuationId = valuation\<rparr>)))))))))))"

definition sized_array :: "nat \<Rightarrow> nat \<Rightarrow> jsval \<Rightarrow> jsval list option" where
  "sized_array least most v = (case v of JArr vs \<Rightarrow> if least \<le> length vs \<and> length vs \<le> most then Some vs else None | _ \<Rightarrow> None)"

definition basis_of :: "jsval \<Rightarrow> observation_basis option" where
  "basis_of v = (if v = JStr (js ''archive_capture'') then Some ArchiveCapture else if v = JStr (js ''archive_read'') then Some ArchiveRead else None)"

text \<open>\<^verbatim>\<open>z.strictObject({lastAttemptAt: z.null(), lastSuccessAt: z.null()})\<close>\<close>

definition untouched_source :: "jsval \<Rightarrow> unit option" where
  "untouched_source v = Option.bind (object_of v) (\<lambda>r.
     if field r ''lastAttemptAt'' = JNull \<and> field r ''lastSuccessAt'' = JNull \<and> fst ` set r \<subseteq> {js ''lastAttemptAt'', js ''lastSuccessAt''} then Some () else None)"

definition archive_account_schema :: "archive_env \<Rightarrow> jsval \<Rightarrow> (jsstr \<times> jsstr \<times> jsstr) option" where
  "archive_account_schema env v = Option.bind (object_of v) (\<lambda>r.
     Option.bind (text_where (\<lambda>_. True) (field r ''legacyIdentity'')) (\<lambda>legacy.
     Option.bind (literal (JStr (js ''hapoalim'')) (field r ''sourceProviderLabel'')) (\<lambda>_.
     Option.bind (text_where currency_code (field r ''currency'')) (\<lambda>currency.
     Option.bind (object_of (field r ''sourceAccount'')) (\<lambda>q.
     Option.bind (text_where (ze_uuid (ar_zod env)) (field q ''id'')) (\<lambda>i.
     Option.bind (literal (JStr (js ''Investment'')) (field q ''accountable_type'')) (\<lambda>_.
     Option.bind (literal JNull (field r ''currentValuationId'')) (\<lambda>_.
     Option.bind (literal (JBool False) (field r ''currentBalanceVerified'')) (\<lambda>_. Some (legacy, currency, i))))))))))"

definition archive_source_schema :: "archive_env \<Rightarrow> jsval \<Rightarrow> (jsstr \<times> jsstr \<times> observation_basis) option" where
  "archive_source_schema env v = Option.bind (object_of v) (\<lambda>r.
     Option.bind (text_where sha256_text (field r ''sha256'')) (\<lambda>h.
     Option.bind (literal (JStr (js ''sure_targeted_json_archive'')) (field r ''kind'')) (\<lambda>_.
     Option.bind (text_where (ar_offset_datetime env) (field r ''observedAt'')) (\<lambda>observed.
     Option.bind (basis_of (field r ''observationBasis'')) (\<lambda>basis. Some (h, observed, basis))))))"

definition archive_schema :: "archive_env \<Rightarrow> jsval \<Rightarrow> archive option" where
  "archive_schema env v = Option.bind (object_of v) (\<lambda>r.
     Option.bind (literal (JNum 1) (field r ''archiveManifestVersion'')) (\<lambda>_.
     Option.bind (literal (JStr (js ''prepared_for_review_not_imported'')) (field r ''status'')) (\<lambda>_.
     Option.bind (literal (JStr (js ''surviving-archive-baseline'')) (field r ''reviewPurpose'')) (\<lambda>_.
     Option.bind (archive_source_schema env (field r ''source'')) (\<lambda>(h, observed, basis).
     Option.bind (archive_account_schema env (field r ''account'')) (\<lambda>(legacy, currency, account).
     Option.bind (sized_array 0 0 (field r ''activities'')) (\<lambda>_.
     Option.bind (sized_array 1 10000 (field r ''valuations'')) (\<lambda>rows.
     Option.bind (map_opt (archive_valuation_schema env) rows) (\<lambda>valuations.
     Option.bind (untouched_source (field r ''sourceCollection'')) (\<lambda>_.
       Some \<lparr>ah_sha256 = h, ah_observedAt = observed, ah_basis = basis, ah_legacyIdentity = legacy, ah_currency = currency, ah_accountId = account,
             ah_valuations = valuations\<rparr>))))))))))"

section \<open>The history\<close>

text \<open>\<^verbatim>\<open>Date.parse\<close> of a timestamp with \<^verbatim>\<open>Z\<close> or an offset \<^verbatim>\<open>+hh:mm\<close>.\<close>

definition parse_offset_stamp :: "jsstr \<Rightarrow> int option" where
  "parse_offset_stamp s =
     (case drop (length s - 6) s of
        [sign, h1, h2, c, m1, m2] \<Rightarrow>
          if (sign = 43 \<or> sign = 45) \<and> c = 58 \<and> list_all is_digit [h1, h2, m1, m2]
          then map_option (\<lambda>t. t - (if sign = 45 then -1 else 1) * (num2 h1 h2 * 3600000 + num2 m1 m2 * 60000)) (parse_stamp (take (length s - 6) s @ js ''Z''))
          else parse_stamp s
      | _ \<Rightarrow> parse_stamp s)"

definition normal_stamp :: "jsstr \<Rightarrow> jsstr res" where
  "normal_stamp s = to_iso_string (parse_offset_stamp s)"

definition securities_id :: "jsstr \<Rightarrow> bool" where
  "securities_id p = (case split_on 58 p of [selector, rest] \<Rightarrow> rest = js ''securities'' \<and> selector_text selector | _ \<Rightarrow> False)"

definition evidenced :: "archive \<Rightarrow> archive_valuation \<Rightarrow> bool" where
  "evidenced a row \<longleftrightarrow> (let entry = ax_entry row; account = js ''sure:account:'' @ ah_accountId a in
     ax_externalIdentity row = js ''sure:entry:'' @ ax_sourceEntryId row \<and> ax_legacyAccountIdentity row = account \<and> en_id entry = ax_sourceEntryId row \<and>
     en_account_id entry = ah_accountId a \<and> en_date entry = ax_asOf row \<and> en_amount entry = ax_amount row \<and> en_currency entry = ax_currency row \<and>
     ax_currency row = ah_currency a \<and> en_entryable_id entry = ax_valuationId row)"

definition archive_row :: "archive \<Rightarrow> jsstr \<Rightarrow> jsstr \<Rightarrow> archive_valuation \<Rightarrow> inv_valuation res" where
  "archive_row a productId observed row =
     (if \<not> evidenced a row then Inl (OtherError ''Archive valuation differs from its original evidence'')
      else bindE (normal_stamp (ax_observedAt row)) (\<lambda>own.
        if own \<noteq> observed then Inl (OtherError ''Archive valuation differs from its original evidence'')
        else Inr \<lparr>iv_id = ax_externalIdentity row, iv_productId = productId, iv_asOf = Some (ax_asOf row), iv_observedAt = observed, iv_amount = ax_amount row,
          iv_currency = ax_currency row, iv_provenance = Some \<lparr>av_sourceEntryId = ax_sourceEntryId row, av_sourceAccountId = ah_accountId a, av_sourceSha256 = ah_sha256 a,
            av_archiveObservedAt = observed, av_basis = ah_basis a, av_sourceAmount = ax_amount row\<rparr>\<rparr>))"

definition archive_product :: "archive \<Rightarrow> jsstr \<Rightarrow> jsstr \<Rightarrow> inv_product" where
  "archive_product a productId providerProductId =
     \<lparr>ip_id = productId, ip_provider = Hapoalim, ip_providerProductId = providerProductId, ip_kind = PlainInvestment,
      ip_name = js ''Hapoalim Investments'', ip_currency = ah_currency a, ip_currentValuationId = None, ip_liquidity = LiquidityUnknown,
      ip_availableFrom = None, ip_availableAmount = None, ip_valuations = CoverPartial, ip_activities = CoverNone, ip_tracks = CoverNone,
      ip_executions = Some CoverNone, ip_forecast = None, ip_reports = None\<rparr>"

definition prepareHapoalimArchive :: "archive_env \<Rightarrow> jsval \<Rightarrow> jsstr \<Rightarrow> inv_snapshot res" where
  "prepareHapoalimArchive env input providerProductId =
     (case archive_schema env input of
        None \<Rightarrow> Inl (OtherError ''Expected a reviewed surviving Hapoalim valuation archive and explicit securities identity'')
      | Some a \<Rightarrow>
          if \<not> securities_id providerProductId
          then Inl (OtherError ''Expected a reviewed surviving Hapoalim valuation archive and explicit securities identity'')
          else
          bindE (investmentProductId providerProductId Hapoalim) (\<lambda>productId.
          bindE (normal_stamp (ah_observedAt a)) (\<lambda>observed.
          if ah_legacyIdentity a \<noteq> js ''sure:account:'' @ ah_accountId a \<or> \<not> distinct (map ax_sourceEntryId (ah_valuations a)) \<or> \<not> distinct (map ax_asOf (ah_valuations a))
          then Inl (OtherError ''Archive identities or valuation dates are inconsistent'')
          else
          bindE (mapE (archive_row a productId observed) (ah_valuations a)) (\<lambda>valuations.
            parse_snapshot (ar_zod env)
              \<lparr>id_products = [archive_product a productId providerProductId], id_valuations = valuations, id_activities = [], id_tracks = [], id_executions = [],
               sn_observedAt = observed, sn_complete = True, sn_inventoryComplete = False\<rparr>))))"

section \<open>Seeding the store\<close>

text \<open>The surviving export: one account and its valuation entries, nothing else.\<close>

definition export_account :: "archive_env \<Rightarrow> jsval \<Rightarrow> jsstr option" where
  "export_account env v = Option.bind (object_of v) (\<lambda>r.
     Option.bind (text_where (ze_uuid (ar_zod env)) (field r ''id'')) (\<lambda>i.
     Option.bind (literal (JStr (js ''Investment'')) (field r ''accountable_type'')) (\<lambda>_. Some i)))"

definition export_schema :: "archive_env \<Rightarrow> jsval \<Rightarrow> (jsstr \<times> source_entry list) option" where
  "export_schema env v = Option.bind (object_of v) (\<lambda>r.
     Option.bind (sized_array 1 1 (field r ''accounts'')) (\<lambda>accounts.
     Option.bind (map_opt (export_account env) accounts) (\<lambda>ids.
     Option.bind (case field r ''entries'' of JArr es \<Rightarrow> map_opt (source_entry_schema env) es | _ \<Rightarrow> None) (\<lambda>entries.
     Option.bind (sized_array 0 0 (field r ''transactions'')) (\<lambda>_.
     Option.bind (sized_array 0 0 (field r ''holdings'')) (\<lambda>_.
     Option.bind (sized_array 0 0 (field r ''trades'')) (\<lambda>_. Some (hd ids, entries))))))))"

text \<open>The entry the export has under the id a valuation names; a later entry of the id would win.\<close>

definition original_entry :: "source_entry list \<Rightarrow> jsstr \<Rightarrow> source_entry option" where
  "original_entry entries i = find (\<lambda>e. en_id e = i) (rev entries)"

definition matches_export :: "jsstr \<Rightarrow> source_entry list \<Rightarrow> inv_valuation \<Rightarrow> bool" where
  "matches_export account entries v = (case iv_provenance v of
     None \<Rightarrow> False
   | Some q \<Rightarrow> (case original_entry entries (av_sourceEntryId q) of
       None \<Rightarrow> False
     | Some e \<Rightarrow> en_account_id e = account \<and> en_account_id e = av_sourceAccountId q \<and> Some (en_date e) = iv_asOf v \<and> en_amount e = iv_amount v \<and>
         en_currency e = iv_currency v))"

definition check_export :: "archive_env \<Rightarrow> jsval \<Rightarrow> inv_snapshot \<Rightarrow> unit res" where
  "check_export env source s =
     (case export_schema env source of
        None \<Rightarrow> Inl (OtherError ''Archive source is not the surviving valuation-only export'')
      | Some (account, entries) \<Rightarrow>
          if length entries \<noteq> length (id_valuations s) \<or> card (en_id ` set entries) \<noteq> length (id_valuations s)
          then Inl (OtherError ''Archive source is not the surviving valuation-only export'')
          else if \<not> list_all (matches_export account entries) (id_valuations s)
          then Inl (OtherError ''Reviewed valuation does not match the hashed source export'')
          else Inr ())"

record archive_files =
  af_manifest :: jsval
  af_manifestJson :: "jsstr option"
  af_source :: jsval
  af_sourceSha256 :: jsstr

text \<open>
  The accounts the configuration selects for the bank, \<open>None\<close> where the bank is not configured or not narrowed to
  accounts. The clock is read before and after the import.
\<close>

definition seedHapoalimArchive :: "archive_env \<Rightarrow> store_env \<Rightarrow> jsstr list option \<Rightarrow> int \<Rightarrow> int \<times> int \<Rightarrow> jsstr \<Rightarrow> archive_files \<Rightarrow> inv_db \<Rightarrow> (import_summary \<times> inv_db) res" where
  "seedHapoalimArchive env senv accounts staleHours now providerProductId files db =
     (if accounts = None \<or> list_all (\<lambda>a. a @ js '':securities'' \<noteq> providerProductId) (the accounts)
      then Inl (OtherError ''Archive target must match an explicitly configured Hapoalim bank account'')
      else
      bindE (prepareHapoalimArchive env (af_manifest files) providerProductId) (\<lambda>s.
      if list_ex (\<lambda>v. map_option av_sourceSha256 (iv_provenance v) \<noteq> Some (af_sourceSha256 files)) (id_valuations s)
      then Inl (OtherError ''Archive source hash does not match the reviewed evidence'')
      else
      bindE (check_export env (af_source files) s) (\<lambda>_.
      bindE (createInvestmentStore senv db) (\<lambda>db0.
      bindE (getFeed senv (fst now) staleHours db0) (\<lambda>before.
      bindE (seedArchive senv s (af_sourceSha256 files) (af_manifestJson files) db0) (\<lambda>(summary, db1).
      bindE (getFeed senv (snd now) staleHours db1) (\<lambda>feed.
        if fd_source before \<noteq> fd_source feed then Inl (OtherError ''Archive seed unexpectedly changed provider freshness'')
        else Inr (summary, db1))))))))"

section \<open>What an archive can do\<close>

lemma find_member: "find P xs = Some x \<Longrightarrow> x \<in> set xs \<and> P x"
  by (auto simp: find_Some_iff)

lemma matched_entry:
  assumes "matches_export account entries v"
  shows "\<exists>e\<in>set entries. en_account_id e = account \<and> iv_asOf v = Some (en_date e) \<and> iv_amount v = en_amount e \<and> iv_currency v = en_currency e"
  using assms by (auto simp: matches_export_def original_entry_def split: option.splits dest!: find_member)

lemma upsert_keeps_source: "im_sourceState (snd (upsertRecord env k t row db)) = im_sourceState db"
  by (simp add: upsertRecord_def Let_def saveRecord_def saveRevision_def split: option.split)

lemma seed_keeps_source:
  assumes "seedArchive env s sha manifest db = Inr (sm, db')"
  shows "im_sourceState db' = im_sourceState db"
proof -
  obtain rows t db1 where run: "foldE (append_one env t) rows (no_import True, db1) = Inr (sm, db')" "im_sourceState db1 = im_sourceState db"
    using assms by (auto simp: seedArchive_def storeError_def Let_def split: if_splits option.splits)
  have step: "im_sourceState (snd acc') = im_sourceState (snd acc)" if "append_one env t row acc = Inr acc'" for row acc acc'
    using that upsert_keeps_source [of env "kind_of row" t row "snd acc"]
    by (auto simp: append_one_def appendArchiveRecord_def storeError_def split: option.splits inv_record.splits if_splits)
  have "im_sourceState (snd (sm, db')) = im_sourceState db1"
    by (rule foldE_invariant [where P = "\<lambda>acc. im_sourceState (snd acc) = im_sourceState db1", OF run(1)]) (use step in auto)
  with run(2) show ?thesis
    by simp
qed

text \<open>
  An archive only adds evidenced history. When a reviewed archive is imported, every valuation it brings is an entry of the
  export whose hash the review names, with that entry's account, day, amount and currency; no record of the store is lost and the state of
  the source, and with it the freshness the feed reports, is the one before.
\<close>

theorem archive_adds_evidence:
  assumes "seedHapoalimArchive env senv accounts staleHours now p files db = Inr (sm, db')"
  shows "\<exists>s account entries db0. prepareHapoalimArchive env (af_manifest files) p = Inr s \<and> export_schema env (af_source files) = Some (account, entries) \<and>
    createInvestmentStore senv db = Inr db0 \<and> length entries = length (id_valuations s) \<and>
    (\<forall>v\<in>set (id_valuations s). map_option av_sourceSha256 (iv_provenance v) = Some (af_sourceSha256 files) \<and>
      (\<exists>e\<in>set entries. en_account_id e = account \<and> iv_asOf v = Some (en_date e) \<and> iv_amount v = en_amount e \<and> iv_currency v = en_currency e)) \<and>
    history db0 db' \<and> im_sourceState db' = im_sourceState db0"
proof -
  obtain s db0 where s: "prepareHapoalimArchive env (af_manifest files) p = Inr s" "createInvestmentStore senv db = Inr db0"
      "check_export env (af_source files) s = Inr ()" "seedArchive senv s (af_sourceSha256 files) (af_manifestJson files) db0 = Inr (sm, db')"
      "\<not> list_ex (\<lambda>v. map_option av_sourceSha256 (iv_provenance v) \<noteq> Some (af_sourceSha256 files)) (id_valuations s)"
    using assms by (auto simp: seedHapoalimArchive_def split: if_splits)
  obtain account entries where e: "export_schema env (af_source files) = Some (account, entries)" "length entries = length (id_valuations s)"
      "list_all (matches_export account entries) (id_valuations s)"
    using s(3) by (auto simp: check_export_def split: option.splits if_splits)
  have "\<forall>v\<in>set (id_valuations s). map_option av_sourceSha256 (iv_provenance v) = Some (af_sourceSha256 files) \<and>
      (\<exists>e\<in>set entries. en_account_id e = account \<and> iv_asOf v = Some (en_date e) \<and> iv_amount v = en_amount e \<and> iv_currency v = en_currency e)"
    using e(3) s(5) matched_entry by (auto simp: list_all_iff list_ex_iff)
  with s e(1,2) seedArchive_history [OF s(4)] seed_keeps_source [OF s(4)] show ?thesis
    by blast
qed

end
