(* ===== verification/Spec2Isabelle.thy ===== *)
theory Spec2Isabelle
  imports IsoOrder IdBatch Normalize Archive MemoryProofs SqliteTables SqliteProofs AccessProofs SimplefinProofs Csv BackoffProofs InvExample InvRetries App InvReconcileExample InvDepositsExample
    InvClalReportsExample BestJson BestExample InvRoutes InvReceiver InvCollectorProofs HapoalimExample HapoalimPages HapoalimArchive
begin

text \<open>
  Verification of the israeli-banks-simplefin-bridge.

  The bridge scrapes Israeli banks and card companies on a schedule, keeps what it saw in a ledger and serves the
  ledger to a money manager over the SimpleFIN protocol. Beside it, separate investment feeds collect pension,
  study-fund and policy data into databases of their own. The theories follow the source, module by module.

  \<^bold>\<open>How the parts interact.\<close> The scheduler decides when a company may be called and records the attempt before the
  call. The scraper (a library outside the repository) answers with accounts and rows; normalisation turns them into
  ledger rows whose ids are assigned per batch; the ledger stores them, freezing the money of a posted row; synthetic
  payments are computed from stored card rows and stored like them. A consumer is minted with a setup token, claims
  it once or a few times and then reads accounts with the credentials it was given; the payload is computed from the
  ledger at each request. An investment provider has a runtime that runs one collection at a time; a collection reads
  the portal's raw answers, reconciles them into a snapshot and applies it to the provider's store, which keeps every
  former value as a revision; a login that needs a text message spends an allowance of the store or takes the code a
  user types in a manual verification.

  \<^bold>\<open>Language and vocabulary.\<close>
  \<^item> \<open>Prelude\<close>: results (\<open>Inl\<close> an error, \<open>Inr\<close> a value), \<open>bindE\<close>, \<open>mapE\<close>, \<open>foldE\<close>, stable sorting by a comparator,
    insertion-ordered maps, and the rule collections the components fill. \<open>Effects\<close>: operations that write and may
    throw, with what was written before the exception kept.
  \<^item> \<open>JsString\<close>, \<open>JsUri\<close>, \<open>JsNumber\<close>, \<open>JsInteger\<close>, \<open>JsBase64\<close>, \<open>JsJson\<close>: strings are lists of UTF-16 code units, a finite
    double is the rational it denotes and each operation rounds; trimming, slicing, splitting, percent encoding, base64
    and \<^verbatim>\<open>JSON.stringify\<close> are defined, not assumed.
  \<^item> \<open>IsoTime\<close>, \<open>IsoOrder\<close>: the calendar, \<^verbatim>\<open>toISOString\<close>, \<^verbatim>\<open>Date.parse\<close>, and the order of date strings.
  \<^item> \<open>Types\<close>: the records and unions of \<^verbatim>\<open>src/types.ts\<close>, the \<open>ledger\<close> interface among them as a record of operations.
    \<open>Examples\<close>: the configuration the witnesses use.

  \<^bold>\<open>The ledger.\<close>
  \<^item> \<open>Ids\<close>, \<open>IdBatch\<close> (\<^verbatim>\<open>src/ids.ts\<close>): two ids are equal exactly when their parts are and, per batch, they are distinct; \<^verbatim>\<open>assignTransactionIds\<close> has a
    closed form that does not depend on the order of the rows.
  \<^item> \<open>Normalize\<close> (\<^verbatim>\<open>src/normalize.ts\<close>): exactly the usable rows come out, each in its normal form.
  \<^item> \<open>Archive\<close> (\<^verbatim>\<open>src/ledger/archive-installments.ts\<close>): an archived instalment is matched by one scraped row at most.
  \<^item> \<open>LedgerContract\<close>: what the rest of the bridge needs from a ledger, as the locales \<open>transaction_store\<close>,
    \<open>consumer_store\<close> and \<open>state_store\<close>. \<open>MemoryLedger\<close>, \<open>MemoryProofs\<close> (\<^verbatim>\<open>src/ledger/memory.ts\<close>) and \<open>SqliteLedger\<close>,
    \<open>SqliteCodecs\<close>, \<open>SqliteTables\<close>, \<open>SqliteProofs\<close> (\<^verbatim>\<open>src/ledger/sqlite.ts\<close>) interpret them; the SQLite tables refine the
    maps of the in-memory ledger. \<open>LedgerFrames\<close>: what each writing operation leaves alone. A table is the list of its
    rows, each SQL statement is written out on it.

  \<^bold>\<open>SimpleFIN.\<close>
  \<^item> \<open>Consumers\<close>, \<open>ConsumerProofs\<close>, \<open>AccessProofs\<close> (\<^verbatim>\<open>src/simplefin/auth.ts\<close>, \<^verbatim>\<open>claim.ts\<close>, \<^verbatim>\<open>consumers.ts\<close>): claims are
    bounded, all of them return one URL, a revoked consumer stays locked out, a minted token works.
  \<^item> \<open>SimplefinDates\<close>, \<open>SimplefinPayload\<close>, \<open>SimplefinProofs\<close>, \<open>Health\<close> (\<^verbatim>\<open>time.ts\<close>, \<^verbatim>\<open>transaction-date.ts\<close>,
    \<^verbatim>\<open>source-provenance.ts\<close>, \<^verbatim>\<open>orgs.ts\<close>, \<^verbatim>\<open>payload.ts\<close>, \<^verbatim>\<open>src/health.ts\<close>): the shape of a response, which rows a window
    serves and in which order, how money prints, and that health and payload agree.
  \<^item> \<open>Csv\<close> (\<^verbatim>\<open>src/export/csv.ts\<close>): a reader of RFC 4180 gets back what was exported.
  \<^item> \<open>App\<close> (\<^verbatim>\<open>src/simplefin/app.ts\<close>): each bank route as one handler; bank data needs credentials.

  \<^bold>\<open>Scraping.\<close>
  \<^item> \<open>Log\<close> (\<^verbatim>\<open>src/log.ts\<close>), \<open>OnePassword\<close> (\<^verbatim>\<open>src/secrets/onepassword.ts\<close>): no line shows a registered secret, and
    whatever the resolver returns is registered.
  \<^item> \<open>ScrapeBasics\<close> (\<^verbatim>\<open>src/scrape/errors.ts\<close>, \<^verbatim>\<open>dates.ts\<close>), \<open>Synthetic\<close> (\<^verbatim>\<open>src/scrape/synthetic.ts\<close>): a card cycle is
    paid once when it is due, with its total.
  \<^item> \<open>Scheduler\<close>, \<open>SchedulerProofs\<close>, \<open>BackoffProofs\<close> (\<^verbatim>\<open>src/scrape/scheduler.ts\<close>), on any ledger that meets
    \<open>schedule_store\<close>: the daily login cap, parking and backoff.

  \<^bold>\<open>Investments.\<close>
  \<^item> \<open>InvTypes\<close> (\<^verbatim>\<open>src/investments/schema.ts\<close>, \<^verbatim>\<open>types.ts\<close>, \<^verbatim>\<open>ids.ts\<close>): a zod schema is a record, the trimming it applies
    and the check it makes.
  \<^item> \<open>InvReports\<close>, \<open>InvPortfolio\<close>, \<open>InvMoney\<close>, \<open>InvReconcile\<close>, \<open>InvActivities\<close>, \<open>InvDeposits\<close>
    (\<^verbatim>\<open>clal-reports.ts\<close>, \<^verbatim>\<open>clal-portfolio.ts\<close>, \<^verbatim>\<open>clal-activities.ts\<close>): a complete snapshot adds up, and the deposits
    read from a history add up to the totals the portal states. The witnesses are in \<open>InvReconcileExample\<close> and
    \<open>InvDepositsExample\<close>.
  \<^item> \<open>InvClalReports\<close>, \<open>InvClalReportsExample\<close> (\<^verbatim>\<open>clal-reports.ts\<close> and the composition in \<^verbatim>\<open>reader.ts\<close>): a dated balance is added
    only where a report states it.
  \<^item> \<open>JsonParse\<close> (\<^verbatim>\<open>JSON.parse\<close>), \<open>BestJson\<close> (\<^verbatim>\<open>parseBestInvestJson\<close>): texts are read with each number kept as its literal.
  \<^item> \<open>BestParser\<close>, \<open>BestReconcile\<close>, \<open>BestExample\<close> (\<^verbatim>\<open>best-invest/parser.ts\<close>): a complete snapshot has one product for each captured
    policy, and the routes of a policy add up to its value.
  \<^item> \<open>HapoalimDecimal\<close>, \<open>HapoalimParser\<close>, \<open>HapoalimExample\<close> (\<^verbatim>\<open>hapoalim/parser.ts\<close>): decimals are read exactly, and the history is
    the rows of the bank. \<open>HapoalimPages\<close> (\<^verbatim>\<open>hapoalim/browser.ts\<close>): the requests that may leave the page and the loop over the
    pages. \<open>HapoalimArchive\<close> (\<^verbatim>\<open>hapoalim/archive.ts\<close>): the import of a reviewed archive adds evidence and touches no
    collected record.
  \<^item> \<open>InvStore\<close> with \<open>InvHistory\<close>, \<open>InvFeed\<close>, \<open>InvReimport\<close>, \<open>InvAllowance\<close>, \<open>InvExample\<close> (\<^verbatim>\<open>store.ts\<close>): nothing recorded
    is lost, the feed is what is stored (for Clal, and the dated balances of its reports), importing a snapshot twice changes
    nothing, two automatic text messages in 24 hours.
  \<^item> \<open>InvRecovery\<close> (\<^verbatim>\<open>manual-recovery.ts\<close>), \<open>InvRuntime\<close>, \<open>InvRuntimeProofs\<close>, \<open>InvRetries\<close> (\<^verbatim>\<open>runtime.ts\<close>): one collection at a
    time, one code per verification, bounded retries. An asynchronous function is cut at its awaits; timers, signals and
    settled promises are events, and a property quantifies over all sequences of events.
  \<^item> \<open>InvRoutes\<close> (\<^verbatim>\<open>router.ts\<close>, \<^verbatim>\<open>control.ts\<close>, the status report of \<^verbatim>\<open>runtime.ts\<close>): each route of the feed and of the
    operator as one handler; a request of the operator is an event of the runtime, or changes nothing.
  \<^item> \<open>InvReceiver\<close> (\<^verbatim>\<open>otp.ts\<close>): the exchange with the receiver of text messages and the loop that waits for a code; an armed
    lease gives one code at most and ends.
  \<^item> \<open>InvCollectors\<close>, \<open>InvCollectorProofs\<close> (\<^verbatim>\<open>collector.ts\<close>, \<^verbatim>\<open>best-invest/collector.ts\<close>, the end of a session of \<^verbatim>\<open>browser.ts\<close>):
    what a collector answers is what it did to the store, and automatic logins ask for two messages a day at most.

  \<^bold>\<open>Parameters.\<close> Code outside the repository is an argument of the definitions that use it: SHA-256, scrypt and random
  bytes, NFKD and locale comparison, the timezone database, the URL parser, the formats zod checks by itself (dates,
  timestamps, UUIDs), the file system, the 1Password Connect server, and the scraper's answers. A property that relies
  on one states the documented behaviour it needs as a hypothesis, and its witness instantiates the parameter.

  \<^bold>\<open>Bounds.\<close> The definitions terminate structurally or by a measure; only the reader of JSON texts has fuel, twice the
  length of the text and one more, which \<open>json_fuel_enough\<close> shows to be enough. The bounds are those of the code: the login
  cap of the configuration, the claims of a token, three minutes for a code, twenty retries of thirty seconds in the ten
  minutes of a scheduled collection, numbers of cents below \<open>2 ^ 52\<close> or \<open>2 ^ 53\<close> where a property is about doubles.

  \<^bold>\<open>Where the model is narrower than the code.\<close> A text in a SQLite column reads back as it was written, which holds for texts
  without lone surrogates, and the refinement assumes them. The values that are not finite numbers are one value of the model
  and print as \<^verbatim>\<open>NaN\<close>. The lookup of a currency alias does not see the members every JavaScript object inherits.

  \<^bold>\<open>Not modelled.\<close>
  \<^item> Page automation and helper processes (\<^verbatim>\<open>scrape/runner.ts\<close>, \<^verbatim>\<open>browser.ts\<close>, \<^verbatim>\<open>login.ts\<close>, \<^verbatim>\<open>investments/login.ts\<close>,
    \<^verbatim>\<open>session.ts\<close>, \<^verbatim>\<open>recovery.ts\<close>, \<^verbatim>\<open>best-invest/browser.ts\<close>, \<^verbatim>\<open>hapoalim/collector.ts\<close>): what a page answers is an argument of
    the readers and collectors, what a run ends with an event of the scheduler or the runtime.
  \<^item> \<^verbatim>\<open>JSON.parse\<close> of the texts of Clal and Hapoalim: their readers take the parsed value.
  \<^item> Sockets, signals, files, terminals (\<^verbatim>\<open>serve.ts\<close>, \<^verbatim>\<open>index.ts\<close>, \<^verbatim>\<open>cli.ts\<close>, \<^verbatim>\<open>cli/\<close>, \<^verbatim>\<open>simplefin/server.ts\<close>):
    they wire the modelled operations.
  \<^item> The zod schemas of the configuration (\<^verbatim>\<open>config.ts\<close>, \<^verbatim>\<open>investments/config.ts\<close>): the records they yield are in \<open>Types\<close>.
  \<^item> The Go service under \<^verbatim>\<open>tools/\<close>, scripts, tests and the vendored package manager.
\<close>

end
